(* ===== verification/Miya_Prelude.thy ===== *)
theory Miya_Prelude
  imports Main "HOL-Library.Word" "HOL-Library.List_Lexorder" "HOL-Library.Product_Lexorder"
begin

text \<open>
  The vocabulary every component shares.

  \<^item> Text. A Rust \<^verbatim>\<open>String\<close> is modelled as the list of its Unicode scalar values
    (\<open>ustr\<close>); \<open>str ''abc''\<close> is the literal. \<open>utf8_len\<close> is \<^verbatim>\<open>str::len\<close>, the number
    of UTF-8 bytes. The derived \<^verbatim>\<open>Ord\<close> of a \<^verbatim>\<open>String\<close> is the bytewise order, which for
    UTF-8 is the lexicographic order of the scalar values: the order of \<open>List_Lexorder\<close>.
  \<^item> Machine integers. \<^verbatim>\<open>u8\<close> to \<^verbatim>\<open>u64\<close> are words; \<open>sat_add\<close> is \<^verbatim>\<open>saturating_add\<close>. A
    \<^verbatim>\<open>usize\<close> that counts elements of a collection in memory is a \<open>nat\<close>.
  \<^item> \<^verbatim>\<open>BTreeMap\<close> and \<^verbatim>\<open>BTreeSet\<close> are strictly sorted lists, in iteration order. The locale
    \<open>ordered_map\<close> states what a client may rely on, and is interpreted on them.
  \<^item> \<open>scoped_store\<close> is the interface of every store that files a value under its own
    isolation scope and identifier.
\<close>

named_theorems wf_intros \<open>an operation keeps the well-formedness of its state\<close>
named_theorems str_simps \<open>evaluation of literals and texts\<close>

section \<open>Machine integers\<close>

type_synonym u8 = "8 word"
type_synonym u16 = "16 word"
type_synonym u32 = "32 word"
type_synonym u64 = "64 word"

definition sat_add :: "'a::len word \<Rightarrow> 'a word \<Rightarrow> 'a word" where
  "sat_add a b = (if unat a + unat b < 2 ^ LENGTH('a) then a + b else - 1)"

lemma unat_sat_add: "unat (sat_add (a :: 'a::len word) b) = min (unat a + unat b) (2 ^ LENGTH('a) - 1)"
proof -
  have "unat (- 1 :: 'a word) = 2 ^ LENGTH('a) - 1"
    by (simp add: unsigned_minus_1_eq_mask mask_eq_exp_minus_1)
  then show ?thesis
    by (auto simp: sat_add_def unat_word_ariths)
qed

lemma sat_add_ge: "unat (a :: 'a::len word) \<le> unat (sat_add a b)"
proof -
  have "unat a < 2 ^ LENGTH('a)"
    by (rule unsigned_less)
  then have "unat a \<le> 2 ^ LENGTH('a) - 1"
    by linarith
  then show ?thesis by (simp add: unat_sat_add)
qed

definition clamp_word :: "'a::len word \<Rightarrow> 'a word \<Rightarrow> 'a word \<Rightarrow> 'a word" where
  "clamp_word x lo hi = (if x < lo then lo else if hi < x then hi else x)"

lemma clamp_word_bounds:
  "lo \<le> hi \<Longrightarrow> lo \<le> clamp_word x lo hi \<and> clamp_word x lo hi \<le> hi"
  by (auto simp: clamp_word_def)

text \<open>\<^verbatim>\<open>try_into().unwrap_or(MAX)\<close> from a \<^verbatim>\<open>usize\<close>, and \<^verbatim>\<open>try_into().ok()\<close>.\<close>

definition nat_to_word_or_max :: "nat \<Rightarrow> 'a::len word" where
  "nat_to_word_or_max n = (if n < 2 ^ LENGTH('a) then word_of_nat n else - 1)"

lemma unat_nat_to_word_or_max:
  "unat (nat_to_word_or_max n :: 'a::len word) = min n (2 ^ LENGTH('a) - 1)"
proof -
  have "unat (- 1 :: 'a word) = 2 ^ LENGTH('a) - 1"
    by (simp add: unsigned_minus_1_eq_mask mask_eq_exp_minus_1)
  then show ?thesis
    by (auto simp: nat_to_word_or_max_def unsigned_of_nat take_bit_nat_eq_self)
qed

definition sat_mul :: "'a::len word \<Rightarrow> 'a word \<Rightarrow> 'a word" where
  "sat_mul a b = nat_to_word_or_max (unat a * unat b)"

lemma unat_sat_mul: "unat (sat_mul a b :: 'a::len word) = min (unat a * unat b) (2 ^ LENGTH('a) - 1)"
  by (simp add: sat_mul_def unat_nat_to_word_or_max)

definition nat_to_word :: "nat \<Rightarrow> 'a::len word option" where
  "nat_to_word n = (if n < 2 ^ LENGTH('a) then Some (word_of_nat n) else None)"

lemma nat_to_word_Some: "nat_to_word n = Some (w :: 'a::len word) \<Longrightarrow> unat w = n"
  by (auto simp: nat_to_word_def unsigned_of_nat take_bit_nat_eq_self split: if_splits)

section \<open>Text\<close>

type_synonym ustr = "nat list"

definition str :: "string \<Rightarrow> ustr" where
  "str s = map of_char s"

lemma str_inject [simp]: "str s = str t \<longleftrightarrow> s = t"
  unfolding str_def by (rule inj_eq [OF inj_mapI [OF inj_of_char]])

lemma str_Nil [simp]: "str [] = []"
  by (simp add: str_def)

lemma str_append: "str (s @ t) = str s @ str t"
  by (simp add: str_def)

lemma str_eq_Nil [simp]: "str s = [] \<longleftrightarrow> s = []" "[] = str s \<longleftrightarrow> s = []"
  by (auto simp: str_def)

lemma length_str [simp]: "length (str s) = length s"
  by (simp add: str_def)

lemma str_Cons_append: "str (c # s) = of_char c # str s"
  by (simp add: str_def)

definition utf8_width :: "nat \<Rightarrow> nat" where
  "utf8_width c = (if c < 128 then 1 else if c < 2048 then 2 else if c < 65536 then 3 else 4)"

definition utf8_len :: "ustr \<Rightarrow> nat" where
  "utf8_len s = sum_list (map utf8_width s)"

lemma utf8_len_simps [simp]:
  "utf8_len [] = 0"
  "utf8_len (c # s) = utf8_width c + utf8_len s"
  "utf8_len (s @ t) = utf8_len s + utf8_len t"
  by (simp_all add: utf8_len_def)

lemma utf8_width_pos: "0 < utf8_width c"
  by (simp add: utf8_width_def)

lemma utf8_width_bounds: "1 \<le> utf8_width c \<and> utf8_width c \<le> 4"
  by (simp add: utf8_width_def)

lemma utf8_len_eq_0 [simp]: "utf8_len s = 0 \<longleftrightarrow> s = []"
  by (cases s) (auto simp: utf8_width_def)

lemma length_le_utf8_len: "length s \<le> utf8_len s"
  by (induction s) (auto simp: utf8_width_def)

subsection \<open>Character classes\<close>

text \<open>\<^verbatim>\<open>char::is_whitespace\<close>: the code points with the Unicode property \<^verbatim>\<open>White_Space\<close>.\<close>

definition is_whitespace :: "nat \<Rightarrow> bool" where
  "is_whitespace c \<longleftrightarrow> 9 \<le> c \<and> c \<le> 13 \<or> c = 32 \<or> c = 0x85 \<or> c = 0xA0 \<or> c = 0x1680
     \<or> 0x2000 \<le> c \<and> c \<le> 0x200A \<or> c = 0x2028 \<or> c = 0x2029 \<or> c = 0x202F \<or> c = 0x205F \<or> c = 0x3000"

definition is_ascii_uppercase :: "nat \<Rightarrow> bool" where
  "is_ascii_uppercase c \<longleftrightarrow> 65 \<le> c \<and> c \<le> 90"

definition is_ascii_lowercase :: "nat \<Rightarrow> bool" where
  "is_ascii_lowercase c \<longleftrightarrow> 97 \<le> c \<and> c \<le> 122"

definition is_ascii_digit :: "nat \<Rightarrow> bool" where
  "is_ascii_digit c \<longleftrightarrow> 48 \<le> c \<and> c \<le> 57"

definition is_ascii_alphabetic :: "nat \<Rightarrow> bool" where
  "is_ascii_alphabetic c \<longleftrightarrow> is_ascii_uppercase c \<or> is_ascii_lowercase c"

definition is_ascii_alphanumeric :: "nat \<Rightarrow> bool" where
  "is_ascii_alphanumeric c \<longleftrightarrow> is_ascii_alphabetic c \<or> is_ascii_digit c"

definition to_ascii_lowercase :: "nat \<Rightarrow> nat" where
  "to_ascii_lowercase c = (if is_ascii_uppercase c then c + 32 else c)"

lemmas char_class_defs = is_whitespace_def is_ascii_uppercase_def is_ascii_lowercase_def
  is_ascii_digit_def is_ascii_alphabetic_def is_ascii_alphanumeric_def

subsection \<open>String operations of the standard library\<close>

definition trim_start :: "ustr \<Rightarrow> ustr" where
  "trim_start s = dropWhile is_whitespace s"

definition trim_end :: "ustr \<Rightarrow> ustr" where
  "trim_end s = rev (dropWhile is_whitespace (rev s))"

definition trim :: "ustr \<Rightarrow> ustr" where
  "trim s = trim_end (trim_start s)"

definition is_blank :: "ustr \<Rightarrow> bool" where
  "is_blank s \<longleftrightarrow> trim s = []"

definition starts_with :: "ustr \<Rightarrow> ustr \<Rightarrow> bool" where
  "starts_with s p \<longleftrightarrow> take (length p) s = p"

definition ends_with :: "ustr \<Rightarrow> ustr \<Rightarrow> bool" where
  "ends_with s p \<longleftrightarrow> starts_with (rev s) (rev p)"

definition strip_prefix :: "ustr \<Rightarrow> ustr \<Rightarrow> ustr option" where
  "strip_prefix p s = (if starts_with s p then Some (drop (length p) s) else None)"

text \<open>Index of the first (last) element that satisfies a predicate: \<^verbatim>\<open>find\<close> and \<^verbatim>\<open>rfind\<close>.\<close>

fun find_idx :: "('a \<Rightarrow> bool) \<Rightarrow> 'a list \<Rightarrow> nat option" where
  "find_idx p [] = None"
| "find_idx p (x # xs) = (if p x then Some 0 else map_option Suc (find_idx p xs))"

definition rfind_idx :: "('a \<Rightarrow> bool) \<Rightarrow> 'a list \<Rightarrow> nat option" where
  "rfind_idx p xs = map_option (\<lambda>i. length xs - 1 - i) (find_idx p (rev xs))"

text \<open>\<^verbatim>\<open>split_once\<close> at the first occurrence of a non-empty pattern.\<close>

fun split_once :: "ustr \<Rightarrow> ustr \<Rightarrow> (ustr \<times> ustr) option" where
  "split_once p [] = (if p = [] then Some ([], []) else None)"
| "split_once p (c # s) =
     (if starts_with (c # s) p then Some ([], drop (length p) (c # s))
      else map_option (\<lambda>(a, b). (c # a, b)) (split_once p s))"

definition rsplit_once :: "ustr \<Rightarrow> ustr \<Rightarrow> (ustr \<times> ustr) option" where
  "rsplit_once p s =
     map_option (\<lambda>(a, b). (rev b, rev a)) (split_once (rev p) (rev s))"

definition contains_str :: "ustr \<Rightarrow> ustr \<Rightarrow> bool" where
  "contains_str s p \<longleftrightarrow> split_once p s \<noteq> None"

fun join :: "ustr \<Rightarrow> ustr list \<Rightarrow> ustr" where
  "join sep [] = []"
| "join sep [x] = x"
| "join sep (x # y # ys) = x @ sep @ join sep (y # ys)"

text \<open>\<open>split_on p s\<close> is \<^verbatim>\<open>s.split(p)\<close> for a predicate on characters.\<close>

fun split_on :: "(nat \<Rightarrow> bool) \<Rightarrow> ustr \<Rightarrow> ustr list" where
  "split_on p [] = [[]]"
| "split_on p (c # s) =
     (if p c then [] # split_on p s
      else (case split_on p s of [] \<Rightarrow> [[c]] | l # ls \<Rightarrow> (c # l) # ls))"

text \<open>
  \<^verbatim>\<open>str::lines\<close>: split at each newline, drop the empty piece after a final newline, and drop
  one carriage return at the end of each line that a newline ended.
\<close>

definition strip_cr :: "ustr \<Rightarrow> ustr" where
  "strip_cr l = (if l \<noteq> [] \<and> last l = 13 then butlast l else l)"

definition lines :: "ustr \<Rightarrow> ustr list" where
  "lines s = (let ls = split_on (\<lambda>c. c = 10) s
              in map strip_cr (butlast ls) @ (if last ls = [] then [] else [last ls]))"

text \<open>\<^verbatim>\<open>split_whitespace\<close>.\<close>

definition split_whitespace :: "ustr \<Rightarrow> ustr list" where
  "split_whitespace s = filter (\<lambda>l. l \<noteq> []) (split_on is_whitespace s)"

subsection \<open>Decimal numbers\<close>

fun show_nat :: "nat \<Rightarrow> ustr" where
  "show_nat n = (if n < 10 then [48 + n] else show_nat (n div 10) @ [48 + n mod 10])"

declare show_nat.simps [simp del]

definition pad2 :: "nat \<Rightarrow> ustr" where
  "pad2 n = (if n < 10 then 48 # show_nat n else show_nat n)"

text \<open>
  \<^verbatim>\<open>str::parse\<close> for an unsigned type of \<open>bound - 1\<close> as its maximum: an optional plus sign,
  at least one digit, digits only, no overflow.
\<close>

fun digits_value :: "nat \<Rightarrow> ustr \<Rightarrow> nat option" where
  "digits_value acc [] = Some acc"
| "digits_value acc (c # s) =
     (if is_ascii_digit c then digits_value (10 * acc + (c - 48)) s else None)"

definition parse_uint :: "nat \<Rightarrow> ustr \<Rightarrow> nat option" where
  "parse_uint bound s =
     (let ds = (if s \<noteq> [] \<and> hd s = 43 then tl s else s)
      in if ds = [] then None
         else case digits_value 0 ds of
                None \<Rightarrow> None
              | Some n \<Rightarrow> (if n < bound then Some n else None))"

lemma show_nat_nonempty [simp]: "show_nat n \<noteq> []"
  by (subst show_nat.simps) simp

lemma show_nat_digits: "c \<in> set (show_nat n) \<Longrightarrow> is_ascii_digit c"
proof (induction n rule: show_nat.induct)
  case (1 n)
  show ?case
  proof (cases "n < 10")
    case True
    with "1.prems" show ?thesis by (simp add: show_nat.simps [of n] is_ascii_digit_def)
  next
    case False
    with 1 show ?thesis
      by (auto simp: show_nat.simps [of n] is_ascii_digit_def)
  qed
qed

lemma digits_value_append:
  "digits_value acc (s @ t) = (case digits_value acc s of None \<Rightarrow> None | Some v \<Rightarrow> digits_value v t)"
  by (induction s arbitrary: acc) auto

lemma digits_value_show_nat: "digits_value 0 (show_nat n) = Some n"
proof (induction n rule: show_nat.induct)
  case (1 n)
  show ?case
  proof (cases "n < 10")
    case True
    then show ?thesis by (simp add: show_nat.simps [of n] is_ascii_digit_def)
  next
    case False
    with 1 show ?thesis
      by (simp add: show_nat.simps [of n] digits_value_append is_ascii_digit_def)
  qed
qed

lemma parse_show_nat: "n < bound \<Longrightarrow> parse_uint bound (show_nat n) = Some n"
proof -
  have "hd (show_nat n) \<noteq> 43"
    using show_nat_digits [of "hd (show_nat n)" n] by (auto simp: is_ascii_digit_def)
  then show "n < bound \<Longrightarrow> parse_uint bound (show_nat n) = Some n"
    by (simp add: parse_uint_def digits_value_show_nat)
qed

lemma show_nat_inject [simp]: "show_nat m = show_nat n \<longleftrightarrow> m = n"
  by (metis digits_value_show_nat option.inject)

lemma parse_uint_bound: "parse_uint bound s = Some n \<Longrightarrow> n < bound"
  by (auto simp: parse_uint_def Let_def split: option.splits if_splits)

lemma pad2_inject [simp]: "pad2 m = pad2 n \<longleftrightarrow> m = n"
proof -
  have "digits_value 0 (pad2 k) = Some k" for k
    using digits_value_show_nat [of k] by (simp add: pad2_def is_ascii_digit_def)
  then show ?thesis by (metis option.inject)
qed

section \<open>Bytes of a text\<close>

text \<open>The UTF-8 bytes of a text: \<^verbatim>\<open>as_bytes\<close>.\<close>

definition utf8_encode :: "nat \<Rightarrow> nat list" where
  "utf8_encode c =
     (if c < 128 then [c]
      else if c < 2048 then [192 + c div 64, 128 + c mod 64]
      else if c < 65536 then [224 + c div 4096, 128 + c div 64 mod 64, 128 + c mod 64]
      else [240 + c div 262144, 128 + c div 4096 mod 64, 128 + c div 64 mod 64, 128 + c mod 64])"

definition utf8_bytes :: "ustr \<Rightarrow> nat list" where
  "utf8_bytes s = concat (map utf8_encode s)"

end
