(* ===== verification/Miya_Collections.thy ===== *)
theory Miya_Collections
  imports Miya_Prelude
begin

text \<open>
  Ordered maps and sets of the standard library (\<^verbatim>\<open>BTreeMap\<close>, \<^verbatim>\<open>BTreeSet\<close>), list helpers for
  its iterator adaptors, the error monad, and the two interfaces that components state as
  locales: \<open>ordered_map\<close> and \<open>scoped_store\<close>.
\<close>

section \<open>Iterator adaptors\<close>

text \<open>\<^verbatim>\<open>Iterator::find_map\<close>.\<close>

fun find_map :: "('a \<Rightarrow> 'b option) \<Rightarrow> 'a list \<Rightarrow> 'b option" where
  "find_map f [] = None"
| "find_map f (x # xs) = (case f x of Some y \<Rightarrow> Some y | None \<Rightarrow> find_map f xs)"

text \<open>\<^verbatim>\<open>Iterator::filter_map\<close>.\<close>

fun filter_map :: "('a \<Rightarrow> 'b option) \<Rightarrow> 'a list \<Rightarrow> 'b list" where
  "filter_map f [] = []"
| "filter_map f (x # xs) = (case f x of Some y \<Rightarrow> y # filter_map f xs | None \<Rightarrow> filter_map f xs)"

lemma filter_map_append [simp]: "filter_map f (xs @ ys) = filter_map f xs @ filter_map f ys"
  by (induction xs) (auto split: option.splits)

lemma set_filter_map: "set (filter_map f xs) = {y. \<exists>x \<in> set xs. f x = Some y}"
  by (induction xs) (auto split: option.splits)

lemma find_map_SomeE:
  assumes "find_map f xs = Some y"
  obtains x where "x \<in> set xs" and "f x = Some y"
  using assms by (induction xs) (auto split: option.splits)

lemma length_filter_map_le: "length (filter_map f xs) \<le> length xs"
  by (induction xs) (auto split: option.splits)

section \<open>Results\<close>

text \<open>The \<^verbatim>\<open>?\<close> operator on \<^verbatim>\<open>Result<T, E>\<close>, with \<open>Inl\<close> for \<^verbatim>\<open>Err\<close>.\<close>

fun ebind :: "'e + 'a \<Rightarrow> ('a \<Rightarrow> 'e + 'b) \<Rightarrow> 'e + 'b" where
  "ebind (Inl e) f = Inl e"
| "ebind (Inr x) f = f x"

lemma ebind_Inr_iff: "ebind m f = Inr y \<longleftrightarrow> (\<exists>x. m = Inr x \<and> f x = Inr y)"
  by (cases m) auto

lemma ebind_Inl_iff: "ebind m f = Inl e \<longleftrightarrow> m = Inl e \<or> (\<exists>x. m = Inr x \<and> f x = Inl e)"
  by (cases m) auto

text \<open>\<^verbatim>\<open>collect::<Result<Vec<T>, E>>()\<close>: all the values, or the first error.\<close>

fun collect_answers :: "('e + 'a) list \<Rightarrow> 'e + 'a list" where
  "collect_answers [] = Inr []"
| "collect_answers (r # rs) = ebind r (\<lambda>x. ebind (collect_answers rs) (\<lambda>xs. Inr (x # xs)))"

lemma collect_answers_Inr: "collect_answers (map Inr xs) = Inr xs"
  by (induction xs) simp_all

lemma collect_answers_length: "collect_answers rs = Inr xs \<Longrightarrow> rs = map Inr xs"
  by (induction rs arbitrary: xs) (auto simp: ebind_Inr_iff)

section \<open>Ordered maps\<close>

type_synonym ('k, 'v) btree = "('k \<times> 'v) list"

fun bt_insert :: "'k::linorder \<Rightarrow> 'v \<Rightarrow> ('k, 'v) btree \<Rightarrow> ('k, 'v) btree" where
  "bt_insert k v [] = [(k, v)]"
| "bt_insert k v ((a, b) # m) =
     (if k < a then (k, v) # (a, b) # m
      else if k = a then (k, v) # m
      else (a, b) # bt_insert k v m)"

definition bt_get :: "('k, 'v) btree \<Rightarrow> 'k \<Rightarrow> 'v option" where
  "bt_get m k = map_of m k"

definition bt_contains :: "('k, 'v) btree \<Rightarrow> 'k \<Rightarrow> bool" where
  "bt_contains m k \<longleftrightarrow> bt_get m k \<noteq> None"

definition bt_remove :: "'k \<Rightarrow> ('k, 'v) btree \<Rightarrow> ('k, 'v) btree" where
  "bt_remove k m = filter (\<lambda>e. fst e \<noteq> k) m"

definition bt_values :: "('k, 'v) btree \<Rightarrow> 'v list" where
  "bt_values m = map snd m"

definition bt_wf :: "('k::linorder, 'v) btree \<Rightarrow> bool" where
  "bt_wf m \<longleftrightarrow> sorted_wrt (<) (map fst m)"

lemma bt_wf_Nil [simp, intro]: "bt_wf []"
  by (simp add: bt_wf_def)

lemma bt_wf_Cons: "bt_wf ((a, b) # m) \<longleftrightarrow> (\<forall>k \<in> fst ` set m. a < k) \<and> bt_wf m"
  by (auto simp: bt_wf_def)

lemma bt_keys_insert: "fst ` set (bt_insert k v m) = insert k (fst ` set m)"
  by (induction k v m rule: bt_insert.induct) (simp_all add: insert_commute)

lemma bt_wf_insert [wf_intros, intro]: "bt_wf m \<Longrightarrow> bt_wf (bt_insert k v m)"
proof (induction m)
  case Nil
  then show ?case by (simp add: bt_wf_Cons)
next
  case (Cons e m)
  obtain a b where e: "e = (a, b)" by (cases e)
  show ?case
  proof (cases k a rule: linorder_cases)
    case less
    with Cons.prems e show ?thesis by (auto simp: bt_wf_Cons)
  next
    case equal
    with Cons.prems e show ?thesis by (auto simp: bt_wf_Cons)
  next
    case greater
    with Cons e show ?thesis by (auto simp: bt_wf_Cons bt_keys_insert)
  qed
qed

lemma bt_get_Nil [simp]: "bt_get [] k = None"
  by (simp add: bt_get_def)

lemma bt_get_insert: "bt_get (bt_insert k v m) k' = (if k' = k then Some v else bt_get m k')"
  unfolding bt_get_def by (induction m) auto

lemma bt_wf_remove [wf_intros, intro]: "bt_wf m \<Longrightarrow> bt_wf (bt_remove k m)"
  by (induction m) (auto simp: bt_wf_Cons bt_remove_def)

lemma bt_get_remove: "bt_get (bt_remove k m) k' = (if k' = k then None else bt_get m k')"
  unfolding bt_get_def bt_remove_def by (induction m) auto

lemma bt_get_None_iff: "bt_get m k = None \<longleftrightarrow> k \<notin> fst ` set m"
  by (simp add: bt_get_def map_of_eq_None_iff)

lemma bt_get_SomeD: "bt_get m k = Some v \<Longrightarrow> (k, v) \<in> set m"
  by (auto simp: bt_get_def dest: map_of_SomeD)

lemma bt_wf_distinct: "bt_wf m \<Longrightarrow> distinct (map fst m)"
  by (simp add: bt_wf_def strict_sorted_iff)

lemma bt_get_eq_Some_iff: "bt_wf m \<Longrightarrow> bt_get m k = Some v \<longleftrightarrow> (k, v) \<in> set m"
  by (simp add: bt_get_def bt_wf_distinct)

lemma bt_insert_new_mset:
  "bt_get m k = None \<Longrightarrow> set (bt_insert k v m) = insert (k, v) (set m)"
  by (induction m) (auto simp: bt_get_def split: if_splits)

lemma set_bt_insert_subset: "set (bt_insert k v m) \<subseteq> insert (k, v) (set m)"
  by (induction m) (auto split: if_splits)

lemma length_bt_insert:
  "bt_wf m \<Longrightarrow> length (bt_insert k v m) = (if bt_get m k = None then Suc (length m) else length m)"
  by (induction m) (force simp: bt_get_None_iff bt_wf_Cons)+

lemma length_bt_insert_le: "length (bt_insert k v m) \<le> Suc (length m)"
  by (induction m) auto

lemma length_filter_bt_insert_le:
  "length (filter P (map snd (bt_insert k v m))) \<le> length (filter P (map snd m)) + (if P v then 1 else 0)"
  by (induction m) (auto split: if_splits)

lemma length_filter_bt_insert_new:
  "bt_get m k = None \<Longrightarrow>
   length (filter P (map snd (bt_insert k v m))) = length (filter P (map snd m)) + (if P v then 1 else 0)"
  by (induction m) (auto simp: bt_get_def split: if_splits)

lemma bt_values_insert: "set (bt_values (bt_insert k v m)) \<subseteq> insert v (set (bt_values m))"
  using set_bt_insert_subset [of k v m] by (force simp: bt_values_def)

text \<open>\<^verbatim>\<open>get_mut\<close> followed by a change of the value in place.\<close>

definition bt_update :: "'k \<Rightarrow> ('v \<Rightarrow> 'v) \<Rightarrow> ('k, 'v) btree \<Rightarrow> ('k, 'v) btree" where
  "bt_update k f m = map (\<lambda>e. if fst e = k then (k, f (snd e)) else e) m"

lemma keys_bt_update [simp]: "map fst (bt_update k f m) = map fst m"
  by (induction m) (auto simp: bt_update_def)

lemma length_bt_update [simp]: "length (bt_update k f m) = length m"
  by (simp add: bt_update_def)

lemma bt_wf_update [wf_intros, intro]: "bt_wf m \<Longrightarrow> bt_wf (bt_update k f m)"
  by (simp add: bt_wf_def)

lemma bt_get_update: "bt_get (bt_update k f m) k' = (if k' = k then map_option f (bt_get m k) else bt_get m k')"
  unfolding bt_get_def bt_update_def by (induction m) auto

subsection \<open>The interface\<close>

text \<open>
  What a client of an ordered map relies on. The components quote its facts through the
  interpretation \<open>bt\<close> below.
\<close>

locale ordered_map =
  fixes empty :: "'m"
    and insert :: "'k::linorder \<Rightarrow> 'v \<Rightarrow> 'm \<Rightarrow> 'm"
    and remove :: "'k \<Rightarrow> 'm \<Rightarrow> 'm"
    and lookup :: "'m \<Rightarrow> 'k \<Rightarrow> 'v option"
    and entries :: "'m \<Rightarrow> ('k \<times> 'v) list"
    and wf :: "'m \<Rightarrow> bool"
  assumes wf_empty: "wf empty"
    and wf_insert: "wf m \<Longrightarrow> wf (insert k v m)"
    and wf_remove: "wf m \<Longrightarrow> wf (remove k m)"
    and lookup_empty: "lookup empty k = None"
    and lookup_insert: "lookup (insert k v m) k' = (if k' = k then Some v else lookup m k')"
    and lookup_remove: "lookup (remove k m) k' = (if k' = k then None else lookup m k')"
    and entries_sorted: "wf m \<Longrightarrow> sorted_wrt (<) (map fst (entries m))"
    and entries_lookup: "wf m \<Longrightarrow> (k, v) \<in> set (entries m) \<longleftrightarrow> lookup m k = Some v"
begin

lemma lookup_insert_same: "lookup (insert k v m) k = Some v"
  by (simp add: lookup_insert)

lemma lookup_insert_other: "k' \<noteq> k \<Longrightarrow> lookup (insert k v m) k' = lookup m k'"
  by (simp add: lookup_insert)

lemma entries_distinct: "wf m \<Longrightarrow> distinct (entries m)"
  using entries_sorted [of m] by (simp add: strict_sorted_iff distinct_map)

text \<open>Two maps with the same content list the same entries: iteration order is canonical.\<close>

lemma entries_canonical:
  assumes "wf m" and "wf n" and "\<And>k. lookup m k = lookup n k"
  shows "entries m = entries n"
proof -
  have sets: "set (entries m) = set (entries n)"
    using assms entries_lookup by (metis subrelI subset_antisym)
  have "inj_on fst (set (entries m) \<union> set (entries n))"
    using entries_sorted [OF assms(1)] by (simp add: sets [symmetric] strict_sorted_iff distinct_map)
  then show ?thesis
    using entries_sorted [OF assms(1)] entries_sorted [OF assms(2)] sets
    by (intro map_sorted_distinct_set_unique) (auto simp: strict_sorted_iff)
qed

lemma insert_fold_wf: "wf m \<Longrightarrow> wf (fold (\<lambda>e. insert (fst e) (snd e)) es m)"
  by (induction es arbitrary: m) (auto intro: wf_insert)

end

interpretation bt: ordered_map "[]" bt_insert bt_remove bt_get "\<lambda>m. m" bt_wf
  by unfold_locales
    (auto simp: bt_get_insert bt_get_remove bt_get_eq_Some_iff, simp_all add: bt_wf_def)

section \<open>Ordered sets\<close>

fun bs_insert :: "'a::linorder \<Rightarrow> 'a list \<Rightarrow> 'a list" where
  "bs_insert x [] = [x]"
| "bs_insert x (y # ys) =
     (if x < y then x # y # ys else if x = y then y # ys else y # bs_insert x ys)"

definition bs_of :: "'a::linorder list \<Rightarrow> 'a list" where
  "bs_of xs = fold bs_insert xs []"

lemma set_bs_insert [simp]: "set (bs_insert x ys) = insert x (set ys)"
  by (induction ys) auto

lemma sorted_bs_insert [wf_intros]: "sorted_wrt (<) ys \<Longrightarrow> sorted_wrt (<) (bs_insert x ys)"
  by (induction ys) auto

lemma set_fold_bs_insert: "set (fold bs_insert xs ys) = set xs \<union> set ys"
  by (induction xs arbitrary: ys) auto

lemma set_bs_of [simp]: "set (bs_of xs) = set xs"
  by (simp add: bs_of_def set_fold_bs_insert)

section \<open>Stores with isolation scopes\<close>

text \<open>
  A store files each value under the scope and the identifier the value itself carries. The
  one law says that a later read sees the last value filed under exactly its scope and
  identifier; isolation of scopes and last-writer-wins follow from it.
\<close>

locale scoped_store =
  fixes put :: "'v \<Rightarrow> 's \<Rightarrow> 's"
    and get :: "'s \<Rightarrow> 'scope \<Rightarrow> 'id \<Rightarrow> 'v option"
    and scope_of :: "'v \<Rightarrow> 'scope"
    and id_of :: "'v \<Rightarrow> 'id"
  assumes get_put: "get (put v s) sc i = (if sc = scope_of v \<and> i = id_of v then Some v else get s sc i)"
begin

lemma get_put_same: "get (put v s) (scope_of v) (id_of v) = Some v"
  by (simp add: get_put)

lemma get_put_other_scope: "scope_of v \<noteq> sc \<Longrightarrow> get (put v s) sc i = get s sc i"
  by (auto simp: get_put)

lemma get_puts:
  "get (fold put vs s) sc i =
     (case find_map (\<lambda>v. if sc = scope_of v \<and> i = id_of v then Some v else None) (rev vs) of
        Some v \<Rightarrow> Some v | None \<Rightarrow> get s sc i)"
proof (induction vs rule: rev_induct)
  case Nil
  then show ?case by simp
next
  case (snoc v vs)
  then show ?case by (simp add: get_put)
qed

lemma isolation:
  assumes "\<And>v. v \<in> set vs \<Longrightarrow> scope_of v \<noteq> sc"
  shows "get (fold put vs s) sc i = get s sc i"
  using assms by (induction vs arbitrary: s) (auto simp: get_put_other_scope)

lemma stored_under_own_key:
  assumes "get (fold put vs s) sc i = Some v" and "get s sc i = None"
  shows "v \<in> set vs \<and> scope_of v = sc \<and> id_of v = i"
proof -
  from assms have "find_map (\<lambda>v. if sc = scope_of v \<and> i = id_of v then Some v else None) (rev vs) = Some v"
    by (simp add: get_puts split: option.splits)
  then show ?thesis
    by (auto elim!: find_map_SomeE split: if_splits)
qed

end

end
