(* ===== verification/Miya_Json.thy ===== *)
theory Miya_Json
  imports Miya_Collections
begin

text \<open>
  The value type of \<^verbatim>\<open>serde_json\<close> as the crates use it: the enum \<^verbatim>\<open>Value\<close>, its number kinds, and
  the accessors. Objects are \<^verbatim>\<open>BTreeMap\<close>s (the lock file builds the crate without
  \<^verbatim>\<open>preserve_order\<close>), so they are strictly sorted by key. Printing and parsing JSON text is the
  library's own work and stays a parameter wherever the source calls it.
\<close>

datatype json_number = PosInt u64 | NegInt "64 word" | FloatBits "64 word"

datatype json =
    JNull
  | JBool bool
  | JNumber json_number
  | JString ustr
  | JArray "json list"
  | JObject "(ustr \<times> json) list"

type_synonym json_map = "(ustr, json) btree"

fun json_get :: "ustr \<Rightarrow> json \<Rightarrow> json option" where
  "json_get k (JObject m) = bt_get m k"
| "json_get k _ = None"

fun json_as_str :: "json \<Rightarrow> ustr option" where
  "json_as_str (JString s) = Some s"
| "json_as_str _ = None"

fun json_as_u64 :: "json \<Rightarrow> u64 option" where
  "json_as_u64 (JNumber (PosInt n)) = Some n"
| "json_as_u64 _ = None"

fun json_as_bool :: "json \<Rightarrow> bool option" where
  "json_as_bool (JBool b) = Some b"
| "json_as_bool _ = None"

fun json_as_array :: "json \<Rightarrow> json list option" where
  "json_as_array (JArray xs) = Some xs"
| "json_as_array _ = None"

fun json_as_object :: "json \<Rightarrow> json_map option" where
  "json_as_object (JObject m) = Some m"
| "json_as_object _ = None"

definition json_is_object :: "json \<Rightarrow> bool" where
  "json_is_object j \<longleftrightarrow> json_as_object j \<noteq> None"

text \<open>\<^verbatim>\<open>json!(n)\<close> for an unsigned integer, and \<^verbatim>\<open>json!({...})\<close> for a list of fields.\<close>

definition json_u64 :: "u64 \<Rightarrow> json" where
  "json_u64 n = JNumber (PosInt n)"

definition json_object :: "(ustr \<times> json) list \<Rightarrow> json" where
  "json_object fs = JObject (fold (\<lambda>f. bt_insert (fst f) (snd f)) fs [])"

lemma json_get_object: "json_get k (json_object fs) = map_of (rev fs) k"
proof -
  have "bt_get (fold (\<lambda>f. bt_insert (fst f) (snd f)) fs m) k
      = (case map_of (rev fs) k of Some v \<Rightarrow> Some v | None \<Rightarrow> bt_get m k)" for m
    by (induction fs arbitrary: m) (auto simp: bt_get_insert map_add_def split: option.splits)
  then show ?thesis
    by (simp add: json_object_def split: option.splits)
qed

text \<open>\<^verbatim>\<open>value[key] = v\<close>: sets a field of an object; the sources use it on objects only.\<close>

fun json_set :: "ustr \<Rightarrow> json \<Rightarrow> json \<Rightarrow> json" where
  "json_set k v (JObject m) = JObject (bt_insert k v m)"
| "json_set k v JNull = JObject [(k, v)]"
| "json_set k v j = j"

lemma json_get_set: "json_get k' (json_set k v (JObject m)) = (if k' = k then Some v else json_get k' (JObject m))"
  by (simp add: bt_get_insert)

text \<open>Well-formed values: every object is strictly sorted.\<close>

fun json_wf :: "json \<Rightarrow> bool" where
  "json_wf (JArray xs) = list_all json_wf xs"
| "json_wf (JObject m) = (bt_wf m \<and> list_all (\<lambda>e. json_wf (snd e)) m)"
| "json_wf _ = True"

lemma json_wf_object_insert [wf_intros]:
  "json_wf (JObject m) \<Longrightarrow> json_wf v \<Longrightarrow> json_wf (JObject (bt_insert k v m))"
  using set_bt_insert_subset [of k v m] by (fastforce simp: list_all_iff intro: bt_wf_insert)

lemma json_wf_get: "json_wf j \<Longrightarrow> json_get k j = Some v \<Longrightarrow> json_wf v"
  by (cases j) (auto simp: list_all_iff dest!: bt_get_SomeD)

text \<open>
  \<^verbatim>\<open>Number::to_string\<close>: decimal digits for the two integer kinds; the shortest text of a float is
  the library's, a parameter.
\<close>

definition json_number_text :: "(64 word \<Rightarrow> ustr) \<Rightarrow> json_number \<Rightarrow> ustr" where
  "json_number_text float_text n =
     (case n of
        PosInt w \<Rightarrow> show_nat (unat w)
      | NegInt w \<Rightarrow> 45 # show_nat (nat (- sint w))
      | FloatBits w \<Rightarrow> float_text w)"

end
