(* ===== verification/Agent_Protocol.thy ===== *)
theory Agent_Protocol
  imports Miya_Json
begin

text \<open>
  The crate \<^verbatim>\<open>agent-protocol\<close>: the records every other crate exchanges. The newtypes made by
  \<^verbatim>\<open>id_type!\<close> are type synonyms of \<open>ustr\<close>. Record fields carry a short prefix where two structs
  share a field name. The two enums with a variant \<^verbatim>\<open>None\<close> rename it.
\<close>

section \<open>Identifiers and isolation\<close>

type_synonym request_id = ustr
type_synonym tenant_id = ustr
type_synonym conversation_fingerprint = ustr
type_synonym task_id = ustr
type_synonym agent_id = ustr
type_synonym artifact_id = ustr
type_synonym tool_call_id = ustr

record isolation_key =
  ik_tenant :: tenant_id
  ik_request :: request_id
  ik_conversation :: conversation_fingerprint

definition isolation_key_new :: "ustr \<Rightarrow> ustr \<Rightarrow> ustr \<Rightarrow> isolation_key" where
  "isolation_key_new tenant request conversation =
     \<lparr>ik_tenant = tenant, ik_request = request, ik_conversation = conversation\<rparr>"

text \<open>The derived \<^verbatim>\<open>Ord\<close> compares the fields in declaration order.\<close>

instantiation isolation_key_ext :: (linorder) linorder
begin

definition less_eq_isolation_key_ext ::
  "'a isolation_key_scheme \<Rightarrow> 'a isolation_key_scheme \<Rightarrow> bool" where
  "less_eq_isolation_key_ext a b \<longleftrightarrow>
     (ik_tenant a, ik_request a, ik_conversation a, isolation_key.more a)
       \<le> (ik_tenant b, ik_request b, ik_conversation b, isolation_key.more b)"

definition less_isolation_key_ext ::
  "'a isolation_key_scheme \<Rightarrow> 'a isolation_key_scheme \<Rightarrow> bool" where
  "less_isolation_key_ext a b \<longleftrightarrow>
     (ik_tenant a, ik_request a, ik_conversation a, isolation_key.more a)
       < (ik_tenant b, ik_request b, ik_conversation b, isolation_key.more b)"

instance
proof
  fix a b c :: "'a isolation_key_scheme"
  show "a < b \<longleftrightarrow> a \<le> b \<and> \<not> b \<le> a"
    unfolding less_isolation_key_ext_def less_eq_isolation_key_ext_def by (rule less_le_not_le)
  show "a \<le> a"
    unfolding less_eq_isolation_key_ext_def by (rule order_refl)
  show "a \<le> b \<Longrightarrow> b \<le> c \<Longrightarrow> a \<le> c"
    unfolding less_eq_isolation_key_ext_def by (rule order_trans)
  show "a \<le> b \<or> b \<le> a"
    unfolding less_eq_isolation_key_ext_def by (rule linear)
  assume "a \<le> b" and "b \<le> a"
  then have "(ik_tenant a, ik_request a, ik_conversation a, isolation_key.more a)
      = (ik_tenant b, ik_request b, ik_conversation b, isolation_key.more b)"
    unfolding less_eq_isolation_key_ext_def by (rule order_antisym)
  then show "a = b"
    by (intro isolation_key.equality) auto
qed

end

section \<open>Limits and budgets\<close>

record execution_limits =
  max_spawn_depth :: u8
  max_agents_per_request :: u16
  max_parallel_agents :: u16
  max_tool_calls_per_agent :: u16
  max_total_tool_calls :: u16
  max_tokens_per_agent :: u32
  max_total_tokens :: u32
  request_timeout_ms :: u64
  agent_timeout_ms :: u64

definition execution_limits_default :: execution_limits where
  "execution_limits_default =
     \<lparr>max_spawn_depth = 2,
      max_agents_per_request = 8,
      max_parallel_agents = 4,
      max_tool_calls_per_agent = 4,
      max_total_tool_calls = 16,
      max_tokens_per_agent = 2048,
      max_total_tokens = 16384,
      request_timeout_ms = 3600000,
      agent_timeout_ms = 330000\<rparr>"

record agent_limits =
  al_max_tokens :: u32
  al_max_tool_calls :: u16
  al_timeout_ms :: u64

definition agent_limits_default :: agent_limits where
  "agent_limits_default =
     \<lparr>al_max_tokens = 2048, al_max_tool_calls = 4, al_timeout_ms = 330000\<rparr>"

record budget_request =
  br_max_tokens :: u32
  br_max_tool_calls :: u16

record budget_summary =
  token_budget :: u32
  token_used :: u32
  tool_call_budget :: u16
  tool_calls_used :: u16

definition budget_summary_default :: budget_summary where
  "budget_summary_default =
     \<lparr>token_budget = max_total_tokens execution_limits_default,
      token_used = 0,
      tool_call_budget = max_total_tool_calls execution_limits_default,
      tool_calls_used = 0\<rparr>"

section \<open>Media and artifact references\<close>

datatype media_source = Base64 ustr | DataUrl ustr | RemoteUrl ustr

record media_artifact =
  ma_id :: artifact_id
  ma_scope :: isolation_key
  ma_media_type :: ustr
  ma_source :: media_source
  ma_sha256 :: ustr
  ma_byte_len :: "u64 option"

datatype artifact_kind =
  KindText | KindMedia | KindSpawnPlan | KindToolCall | KindToolResult | KindVerification

record artifact_ref =
  ar_scope :: isolation_key
  ar_artifact_id :: artifact_id

section \<open>Tasks\<close>

datatype agent_role = Leader | Worker | Verifier | ReasoningSummarizer | Synthesizer

datatype capability = CapText | CapImage | CapToolCall | CapSpawn | CapVerify

text \<open>A \<^verbatim>\<open>BTreeSet<Capability>\<close>; only membership is ever asked for.\<close>

type_synonym capability_set = "capability list"

definition capability_set_from :: "capability list \<Rightarrow> capability_set" where
  "capability_set_from cs = remdups cs"

definition capability_contains :: "capability_set \<Rightarrow> capability \<Rightarrow> bool" where
  "capability_contains cs c \<longleftrightarrow> c \<in> set cs"

record subtask_spec =
  st_task_id :: task_id
  st_parent_task_id :: "task_id option"
  st_spawn_depth :: u8
  st_role :: agent_role
  st_objective :: ustr
  st_input_artifact_refs :: "artifact_ref list"
  st_expected_outputs :: "artifact_kind list"
  st_allowed_capabilities :: capability_set
  st_limits :: agent_limits

record task_graph =
  tg_root_task_id :: task_id
  tg_tasks :: "(task_id, subtask_spec) btree"
  tg_dependencies :: "(task_id, task_id list) btree"

definition task_graph_new :: "task_id \<Rightarrow> task_graph" where
  "task_graph_new root = \<lparr>tg_root_task_id = root, tg_tasks = [], tg_dependencies = []\<rparr>"

text \<open>
  \<^verbatim>\<open>insert_task\<close>: \<^verbatim>\<open>entry(id).or_default().insert(parent)\<close> on the dependencies when the task has
  a parent, then the task itself.
\<close>

definition insert_task :: "subtask_spec \<Rightarrow> task_graph \<Rightarrow> task_graph" where
  "insert_task t g =
     (let g1 =
        (case st_parent_task_id t of
           None \<Rightarrow> g
         | Some parent \<Rightarrow>
             (let deps = (case bt_get (tg_dependencies g) (st_task_id t) of None \<Rightarrow> [] | Some ds \<Rightarrow> ds)
              in g\<lparr>tg_dependencies := bt_insert (st_task_id t) (bs_insert parent deps) (tg_dependencies g)\<rparr>))
      in g1\<lparr>tg_tasks := bt_insert (st_task_id t) t (tg_tasks g1)\<rparr>)"

record spawn_plan =
  sp_parent_task_id :: task_id
  sp_reason :: ustr
  sp_children :: "subtask_spec list"
  sp_expected_artifacts :: "artifact_kind list"
  sp_budget_request :: budget_request

section \<open>Tools\<close>

record tool_definition =
  td_name :: ustr
  td_description :: "ustr option"
  td_input_schema :: json

datatype tool_choice = ToolAuto | ToolNone | ToolRequired | ToolNamed ustr

datatype tool_call_status = Pending | Resolved | CallRejected

record tool_call_record =
  tc_tool_call_id :: tool_call_id
  tc_scope :: isolation_key
  tc_task_id :: task_id
  tc_agent_id :: agent_id
  tc_tool_name :: ustr
  tc_arguments_json :: json
  tc_arguments_sha256 :: ustr
  tc_status :: tool_call_status
  tc_created_at_ms :: u64
  tc_resolved_at_ms :: "u64 option"

datatype tool_result_status = Accepted | ResultRejected

record tool_result_record =
  tr_tool_call_id :: tool_call_id
  tr_scope :: isolation_key
  tr_result_json :: json
  tr_result_sha256 :: ustr
  tr_status :: tool_result_status

section \<open>Verification and agent state\<close>

record verification_issue =
  vi_code :: ustr
  vi_message :: ustr

record artifact_coverage =
  ac_artifact_id :: artifact_id
  ac_kind :: artifact_kind
  ac_covered :: bool

record verification_report =
  vr_request_id :: request_id
  vr_passed :: bool
  vr_issues :: "verification_issue list"
  vr_artifact_coverage :: "artifact_coverage list"
  vr_unresolved_tool_calls :: "tool_call_id list"
  vr_budget_summary :: budget_summary

record encrypted_agent_state =
  es_task_id :: task_id
  es_algorithm :: ustr
  es_nonce :: ustr
  es_ciphertext :: ustr
  es_aad :: ustr

section \<open>Artifacts\<close>

datatype agent_artifact =
    AText artifact_id isolation_key ustr
  | AMedia media_artifact
  | ASpawnPlan artifact_id isolation_key spawn_plan
  | AToolCall tool_call_record
  | AToolResult tool_result_record
  | AVerification artifact_id isolation_key verification_report

fun artifact_id_of :: "agent_artifact \<Rightarrow> artifact_id" where
  "artifact_id_of (AText i _ _) = i"
| "artifact_id_of (AMedia m) = ma_id m"
| "artifact_id_of (ASpawnPlan i _ _) = i"
| "artifact_id_of (AToolCall r) = tc_tool_call_id r"
| "artifact_id_of (AToolResult r) = tr_tool_call_id r"
| "artifact_id_of (AVerification i _ _) = i"

fun artifact_scope_of :: "agent_artifact \<Rightarrow> isolation_key" where
  "artifact_scope_of (AText _ s _) = s"
| "artifact_scope_of (AMedia m) = ma_scope m"
| "artifact_scope_of (ASpawnPlan _ s _) = s"
| "artifact_scope_of (AToolCall r) = tc_scope r"
| "artifact_scope_of (AToolResult r) = tr_scope r"
| "artifact_scope_of (AVerification _ s _) = s"

text \<open>The two projections the crates match for: \<^verbatim>\<open>Text { text, .. }\<close> and \<^verbatim>\<open>SpawnPlan { plan, .. }\<close>.\<close>

fun text_of :: "agent_artifact \<Rightarrow> ustr option" where
  "text_of (AText _ _ t) = Some t"
| "text_of _ = None"

fun plan_of :: "agent_artifact \<Rightarrow> spawn_plan option" where
  "plan_of (ASpawnPlan _ _ p) = Some p"
| "plan_of _ = None"

section \<open>Requests\<close>

datatype source_format = OpenAIChat | AnthropicMessages

datatype thinking_format = ThinkAuto | QwenChatTemplate | QwenDashScope | GemmaSystemToken

datatype reasoning_effort = EffortNone | EffortLow | EffortMedium | EffortHigh | EffortXHigh

fun max_agents :: "reasoning_effort \<Rightarrow> u16" where
  "max_agents EffortNone = 0"
| "max_agents EffortLow = 4"
| "max_agents EffortMedium = 16"
| "max_agents EffortHigh = 32"
| "max_agents EffortXHigh = 64"

definition is_direct :: "reasoning_effort \<Rightarrow> bool" where
  "is_direct e \<longleftrightarrow> e = EffortNone"

datatype message_role = RoleSystem | RoleUser | RoleAssistant | RoleTool

datatype normalized_content_part =
    TextPart ustr
  | ImagePart artifact_ref
  | ProviderContentPart source_format json
  | ToolCallPart tool_call_id ustr json
  | ToolResultPart tool_call_id

record normalized_message =
  nm_role :: message_role
  nm_content :: "normalized_content_part list"

record normalized_request =
  nr_request_id :: request_id
  nr_tenant_id :: tenant_id
  nr_conversation_fingerprint :: conversation_fingerprint
  nr_source_format :: source_format
  nr_model :: ustr
  nr_messages :: "normalized_message list"
  nr_media_artifacts :: "media_artifact list"
  nr_tools :: "tool_definition list"
  nr_tool_choice :: tool_choice
  nr_parallel_tool_calls :: "bool option"
  nr_tool_results :: "tool_result_record list"
  nr_stream :: bool
  nr_thinking_enabled :: bool
  nr_thinking_format :: thinking_format
  nr_reasoning_effort :: reasoning_effort
  nr_public_reasoning_enabled :: bool
  nr_provider_options :: json
  nr_metadata :: json

definition isolation_key_of :: "normalized_request \<Rightarrow> isolation_key" where
  "isolation_key_of r =
     \<lparr>ik_tenant = nr_tenant_id r, ik_request = nr_request_id r,
      ik_conversation = nr_conversation_fingerprint r\<rparr>"

section \<open>The task graph\<close>

text \<open>
  Well-formed graphs: both maps are sorted, every task is filed under its own identifier, and
  every task with a parent has that parent among its recorded dependencies.
\<close>

definition graph_wf :: "task_graph \<Rightarrow> bool" where
  "graph_wf g \<longleftrightarrow> bt_wf (tg_tasks g) \<and> bt_wf (tg_dependencies g)
     \<and> (\<forall>k t. bt_get (tg_tasks g) k = Some t \<longrightarrow> st_task_id t = k)
     \<and> (\<forall>k t p. bt_get (tg_tasks g) k = Some t \<longrightarrow> st_parent_task_id t = Some p \<longrightarrow>
          (\<exists>ds. bt_get (tg_dependencies g) k = Some ds \<and> p \<in> set ds))"

definition child_tasks :: "task_graph \<Rightarrow> subtask_spec list" where
  "child_tasks g = filter (\<lambda>t. st_parent_task_id t \<noteq> None) (bt_values (tg_tasks g))"

lemma tg_tasks_insert_task [simp]:
  "tg_tasks (insert_task t g) = bt_insert (st_task_id t) t (tg_tasks g)"
  by (simp add: insert_task_def Let_def split: option.splits)

lemma tg_root_insert_task [simp]: "tg_root_task_id (insert_task t g) = tg_root_task_id g"
  by (simp add: insert_task_def Let_def split: option.splits)

lemma graph_wf_new [simp, intro]: "graph_wf (task_graph_new root)"
  by (simp add: graph_wf_def task_graph_new_def)

lemma insert_task_dependencies:
  "bt_get (tg_dependencies (insert_task t g)) k =
     (case st_parent_task_id t of
        None \<Rightarrow> bt_get (tg_dependencies g) k
      | Some p \<Rightarrow>
          (if k = st_task_id t
           then Some (bs_insert p (case bt_get (tg_dependencies g) k of None \<Rightarrow> [] | Some ds \<Rightarrow> ds))
           else bt_get (tg_dependencies g) k))"
  by (auto simp: insert_task_def Let_def bt.lookup_insert split: option.splits)

lemma bt_wf_dependencies_insert_task:
  "bt_wf (tg_dependencies g) \<Longrightarrow> bt_wf (tg_dependencies (insert_task t g))"
  by (simp add: insert_task_def Let_def bt.wf_insert split: option.splits)

lemma graph_wf_insert_task [wf_intros, intro]:
  assumes "graph_wf g"
  shows "graph_wf (insert_task t g)"
  unfolding graph_wf_def
proof (intro conjI allI impI)
  show "bt_wf (tg_tasks (insert_task t g))" "bt_wf (tg_dependencies (insert_task t g))"
    using assms by (auto simp: graph_wf_def intro: bt.wf_insert bt_wf_dependencies_insert_task)
next
  fix k t' assume "bt_get (tg_tasks (insert_task t g)) k = Some t'"
  then show "st_task_id t' = k"
    using assms by (auto simp: graph_wf_def bt.lookup_insert split: if_splits)
next
  fix k t' p
  assume "bt_get (tg_tasks (insert_task t g)) k = Some t'" and "st_parent_task_id t' = Some p"
  then show "\<exists>ds. bt_get (tg_dependencies (insert_task t g)) k = Some ds \<and> p \<in> set ds"
    using assms
    by (fastforce simp: graph_wf_def bt.lookup_insert insert_task_dependencies
        split: if_splits option.splits)
qed

lemma length_child_tasks_insert_le:
  "length (child_tasks (insert_task t g)) \<le>
     length (child_tasks g) + (if st_parent_task_id t \<noteq> None then 1 else 0)"
  using length_filter_bt_insert_le [of "\<lambda>t. st_parent_task_id t \<noteq> None" "st_task_id t" t "tg_tasks g"]
  by (simp add: child_tasks_def bt_values_def)

lemma length_child_tasks_insert_new:
  "bt_get (tg_tasks g) (st_task_id t) = None \<Longrightarrow>
   length (child_tasks (insert_task t g)) =
     length (child_tasks g) + (if st_parent_task_id t \<noteq> None then 1 else 0)"
  using length_filter_bt_insert_new [of "tg_tasks g" "st_task_id t" "\<lambda>t. st_parent_task_id t \<noteq> None" t]
  by (simp add: child_tasks_def bt_values_def)

text \<open>Inserting a list of tasks in order.\<close>

definition insert_tasks :: "subtask_spec list \<Rightarrow> task_graph \<Rightarrow> task_graph" where
  "insert_tasks ts g = fold insert_task ts g"

lemma insert_tasks_simps [simp]:
  "insert_tasks [] g = g"
  "insert_tasks (t # ts) g = insert_tasks ts (insert_task t g)"
  by (simp_all add: insert_tasks_def)

lemma graph_wf_insert_tasks [wf_intros, intro]: "graph_wf g \<Longrightarrow> graph_wf (insert_tasks ts g)"
  by (induction ts arbitrary: g) auto

lemma insert_tasks_lookup_other:
  "k \<notin> st_task_id ` set ts \<Longrightarrow> bt_get (tg_tasks (insert_tasks ts g)) k = bt_get (tg_tasks g) k"
  by (induction ts arbitrary: g) (auto simp: bt.lookup_insert)

lemma length_child_tasks_insert_tasks_le:
  "length (child_tasks (insert_tasks ts g)) \<le> length (child_tasks g) + length ts"
proof (induction ts arbitrary: g)
  case Nil
  then show ?case by simp
next
  case (Cons t ts)
  have "length (child_tasks (insert_task t g)) \<le> length (child_tasks g) + 1"
    using length_child_tasks_insert_le [of t g] by (simp split: if_splits)
  with Cons.IH [of "insert_task t g"] show ?case by simp
qed

lemma length_child_tasks_insert_tasks_new:
  assumes "distinct (map st_task_id ts)"
    and "\<forall>t \<in> set ts. bt_get (tg_tasks g) (st_task_id t) = None \<and> st_parent_task_id t \<noteq> None"
  shows "length (child_tasks (insert_tasks ts g)) = length (child_tasks g) + length ts"
  using assms
proof (induction ts arbitrary: g)
  case Nil
  then show ?case by simp
next
  case (Cons t ts)
  have "\<forall>t' \<in> set ts. bt_get (tg_tasks (insert_task t g)) (st_task_id t') = None
      \<and> st_parent_task_id t' \<noteq> None"
    using Cons.prems by (fastforce simp: bt.lookup_insert intro: rev_image_eqI)
  with Cons.IH [of "insert_task t g"] Cons.prems show ?case
    by (simp add: length_child_tasks_insert_new)
qed

end
