(* ===== verification/Provider_Core.thy ===== *)
theory Provider_Core
  imports Agent_Protocol
begin

text \<open>
  The crate \<^verbatim>\<open>provider-core\<close>: the request and response of one model call, the provider errors
  with their classification, and the default \<^verbatim>\<open>stream\<close> of a provider that only implements
  \<^verbatim>\<open>invoke\<close>. A stream is the list of the items it yields. The trait \<^verbatim>\<open>ModelProvider\<close> is an
  \<open>invoke\<close> function over a world \<open>'w\<close> (everything outside the gateway that a call may read or
  change); its answer carries the milliseconds the call took, which timeouts compare with.
\<close>

record provider_request =
  pr_scope :: isolation_key
  pr_task :: subtask_spec
  pr_model :: ustr
  pr_system_instructions :: "ustr list"
  pr_thinking_enabled :: bool
  pr_thinking_format :: thinking_format
  pr_input_text :: ustr
  pr_messages :: "normalized_message list"
  pr_media_artifacts :: "media_artifact list"
  pr_artifacts :: "agent_artifact list"
  pr_tools :: "tool_definition list"
  pr_tool_choice :: tool_choice
  pr_parallel_tool_calls :: "bool option"
  pr_tool_results :: "tool_result_record list"
  pr_provider_options :: json

record provider_usage =
  pu_input_tokens :: u32
  pu_output_tokens :: u32

definition provider_usage_default :: provider_usage where
  "provider_usage_default = \<lparr>pu_input_tokens = 0, pu_output_tokens = 0\<rparr>"

record provider_response =
  ps_artifacts :: "agent_artifact list"
  ps_tool_calls :: "tool_call_record list"
  ps_usage :: provider_usage

datatype provider_finish_reason =
  FinishStop | FinishToolCalls | FinishFunctionCall | FinishLength | FinishOther ustr

datatype provider_stream_event =
    TextDelta ustr
  | ToolCallDelta nat "tool_call_id option" "ustr option" ustr
  | Finish provider_finish_reason
  | Usage provider_usage

section \<open>Provider errors\<close>

datatype provider_error =
    Rejected ustr
  | Http ustr u16 "ustr option" ustr "u64 option"
  | Transport ustr ustr bool
  | InvalidResponse ustr ustr
  | CircuitOpen u64
  | QueueTimeout u64

fun retryable :: "provider_error \<Rightarrow> bool" where
  "retryable (Http _ status _ _ _) \<longleftrightarrow>
     status = 408 \<or> status = 409 \<or> status = 429 \<or> 500 \<le> status"
| "retryable (Transport _ _ r) \<longleftrightarrow> r"
| "retryable (CircuitOpen _) \<longleftrightarrow> True"
| "retryable (QueueTimeout _) \<longleftrightarrow> True"
| "retryable (Rejected _) \<longleftrightarrow> False"
| "retryable (InvalidResponse _ _) \<longleftrightarrow> False"

fun error_status :: "provider_error \<Rightarrow> u16 option" where
  "error_status (Http _ status _ _ _) = Some status"
| "error_status _ = None"

fun error_code :: "provider_error \<Rightarrow> ustr option" where
  "error_code (Http _ _ code _ _) = code"
| "error_code (CircuitOpen _) = Some (str ''provider_circuit_open'')"
| "error_code (QueueTimeout _) = Some (str ''provider_queue_timeout'')"
| "error_code (Transport _ _ _) = Some (str ''provider_transport_error'')"
| "error_code (InvalidResponse _ _) = Some (str ''invalid_provider_response'')"
| "error_code (Rejected _) = None"

fun retry_after_ms :: "provider_error \<Rightarrow> u64 option" where
  "retry_after_ms (Http _ _ _ _ r) = r"
| "retry_after_ms (CircuitOpen r) = Some r"
| "retry_after_ms (QueueTimeout w) = Some w"
| "retry_after_ms _ = None"

text \<open>The \<^verbatim>\<open>Display\<close> text of an error, from the \<^verbatim>\<open>#[error]\<close> attributes.\<close>

fun show_provider_error :: "provider_error \<Rightarrow> ustr" where
  "show_provider_error (Rejected m) = str ''provider rejected request: '' @ m"
| "show_provider_error (Http p status _ m _) =
     p @ str '' HTTP '' @ show_nat (unat status) @ str '': '' @ m"
| "show_provider_error (Transport p m _) = p @ str '' transport error: '' @ m"
| "show_provider_error (InvalidResponse p m) =
     p @ str '' returned an invalid response: '' @ m"
| "show_provider_error (CircuitOpen r) =
     str ''provider circuit is open for '' @ show_nat (unat r) @ str '' ms''"
| "show_provider_error (QueueTimeout w) =
     str ''provider admission queue exceeded '' @ show_nat (unat w) @ str '' ms''"

section \<open>Providers\<close>

type_synonym provider_result = "provider_error + provider_response"

type_synonym 'w provider = "'w \<Rightarrow> provider_request \<Rightarrow> 'w \<times> nat \<times> provider_result"

text \<open>
  The same provider with a record of every request it was sent, in order: the instrument of the
  properties that speak of what reaches a backend.
\<close>

definition recording :: "'w provider \<Rightarrow> ('w \<times> provider_request list) provider" where
  "recording call w req =
     (case call (fst w) req of (w', ms, r) \<Rightarrow> ((w', snd w @ [req]), ms, r))"

lemma recording_simps:
  "snd (fst (recording call w req)) = snd w @ [req]"
  "fst (fst (recording call w req)) = fst (call (fst w) req)"
  "snd (recording call w req) = snd (call (fst w) req)"
  by (simp_all add: recording_def split: prod.splits)

text \<open>
  The contract of a provider whose answers depend on the request only; the mock provider of the
  kernel satisfies it.
\<close>

locale stateless_provider =
  fixes invoke :: "'w provider"
  assumes stateless: "snd (invoke w req) = snd (invoke w' req)"
begin

definition answer :: "provider_request \<Rightarrow> nat \<times> provider_result" where
  "answer req = snd (invoke undefined req)"

lemma invoke_answer: "snd (invoke w req) = answer req"
  unfolding answer_def by (rule stateless)

end

section \<open>The default stream\<close>

definition provider_response_stream ::
  "(json \<Rightarrow> ustr) \<Rightarrow> provider_response \<Rightarrow> provider_stream_event list" where
  "provider_response_stream json_text r =
     (let usage_events =
        (if ps_usage r \<noteq> provider_usage_default then [Usage (ps_usage r)] else [])
      in if ps_tool_calls r = [] then
           filter_map (\<lambda>a. map_option TextDelta (text_of a)) (ps_artifacts r)
             @ usage_events @ [Finish FinishStop]
         else
           map (\<lambda>(i, c). ToolCallDelta i (Some (tc_tool_call_id c)) (Some (tc_tool_name c))
                  (json_text (tc_arguments_json c)))
               (List.enumerate 0 (ps_tool_calls r))
             @ usage_events @ [Finish FinishToolCalls])"

text \<open>\<^verbatim>\<open>ModelProvider::stream\<close>, the trait's provided method.\<close>

definition default_stream ::
  "(json \<Rightarrow> ustr) \<Rightarrow> 'w provider \<Rightarrow> 'w \<Rightarrow> provider_request
     \<Rightarrow> 'w \<times> nat \<times> (provider_error + provider_stream_event list)" where
  "default_stream json_text call w req =
     (case call w req of
        (w', ms, Inl e) \<Rightarrow> (w', ms, Inl e)
      | (w', ms, Inr r) \<Rightarrow> (w', ms, Inr (provider_response_stream json_text r)))"

section \<open>Lemmas\<close>

definition is_finish :: "provider_stream_event \<Rightarrow> bool" where
  "is_finish e \<longleftrightarrow> (case e of Finish _ \<Rightarrow> True | _ \<Rightarrow> False)"

lemma is_finish_simps [simp]:
  "is_finish (Finish r)" "\<not> is_finish (TextDelta t)" "\<not> is_finish (Usage us)"
  "\<not> is_finish (ToolCallDelta i a b c)"
  by (simp_all add: is_finish_def)

text \<open>Exactly one finish event, and it comes last.\<close>

lemma response_stream_finish:
  obtains es where "provider_response_stream jt r = es @ [Finish (if ps_tool_calls r = [] then FinishStop else FinishToolCalls)]"
    and "list_all (\<lambda>e. \<not> is_finish e) es"
proof
  let ?us = "if ps_usage r \<noteq> provider_usage_default then [Usage (ps_usage r)] else []"
  let ?body = "(if ps_tool_calls r = [] then
      filter_map (\<lambda>a. map_option TextDelta (text_of a)) (ps_artifacts r)
    else map (\<lambda>(i, c). ToolCallDelta i (Some (tc_tool_call_id c)) (Some (tc_tool_name c))
        (jt (tc_arguments_json c))) (List.enumerate 0 (ps_tool_calls r))) @ ?us"
  show "provider_response_stream jt r =
      ?body @ [Finish (if ps_tool_calls r = [] then FinishStop else FinishToolCalls)]"
    by (simp add: provider_response_stream_def Let_def)
  show "list_all (\<lambda>e. \<not> is_finish e) ?body"
    by (auto simp: list_all_iff set_filter_map)
qed

text \<open>The text of a stream, and the texts of a response.\<close>

definition stream_text :: "provider_stream_event list \<Rightarrow> ustr list" where
  "stream_text es = filter_map (\<lambda>e. case e of TextDelta t \<Rightarrow> Some t | _ \<Rightarrow> None) es"

definition response_texts :: "provider_response \<Rightarrow> ustr list" where
  "response_texts r = filter_map text_of (ps_artifacts r)"

lemma stream_text_append [simp]: "stream_text (xs @ ys) = stream_text xs @ stream_text ys"
  by (simp add: stream_text_def)

lemma stream_text_deltas:
  "stream_text (filter_map (\<lambda>a. map_option TextDelta (text_of a)) as)
     = filter_map text_of as"
  by (induction as) (auto simp: stream_text_def split: option.splits)

end
