(* ===== verification/Kernel_Store.thy ===== *)
theory Kernel_Store
  imports Provider_Core
begin

text \<open>
  The stores of one kernel run (\<^verbatim>\<open>crates/agent-kernel/src/lib.rs\<close>): the kernel errors, the
  \<^verbatim>\<open>ArtifactStore\<close> and the \<^verbatim>\<open>ToolLedger\<close>, both keyed by isolation scope and identifier.
\<close>

section \<open>Kernel errors\<close>

datatype kernel_error =
    UnknownToolCall isolation_key tool_call_id
  | MissingArtifact isolation_key artifact_id
  | ArtifactScopeMismatch isolation_key isolation_key
  | SpawnDepthExceeded task_id u8 u8
  | AgentLimitExceeded u16 u16
  | DuplicateTask task_id
  | BudgetExceeded
  | KProvider provider_error
  | ProviderRejected ustr
  | RequestTimeout u64
  | AgentTimeout task_id u64
  | EncryptionFailed

section \<open>The artifact store\<close>

type_synonym artifact_store = "(isolation_key \<times> artifact_id, agent_artifact) btree"

definition artifact_store_new :: artifact_store where
  "artifact_store_new = []"

definition store_insert :: "agent_artifact \<Rightarrow> artifact_store \<Rightarrow> artifact_store" where
  "store_insert a s = bt_insert (artifact_scope_of a, artifact_id_of a) a s"

definition store_get :: "artifact_store \<Rightarrow> isolation_key \<Rightarrow> artifact_id \<Rightarrow> agent_artifact option" where
  "store_get s scope i = bt_get s (scope, i)"

definition store_contains_ref :: "artifact_store \<Rightarrow> artifact_ref \<Rightarrow> bool" where
  "store_contains_ref s r \<longleftrightarrow> store_get s (ar_scope r) (ar_artifact_id r) \<noteq> None"

interpretation artifacts: scoped_store store_insert store_get artifact_scope_of artifact_id_of
  by unfold_locales (simp add: store_get_def store_insert_def bt.lookup_insert)

text \<open>Every artifact is filed under its own scope and identifier.\<close>

definition store_wf :: "artifact_store \<Rightarrow> bool" where
  "store_wf s \<longleftrightarrow> bt_wf s
     \<and> (\<forall>sc i a. store_get s sc i = Some a \<longrightarrow> artifact_scope_of a = sc \<and> artifact_id_of a = i)"

lemma store_wf_new [simp, intro]: "store_wf artifact_store_new"
  by (simp add: store_wf_def artifact_store_new_def store_get_def)

lemma store_wf_insert [wf_intros, intro]: "store_wf s \<Longrightarrow> store_wf (store_insert a s)"
  by (auto simp: store_wf_def artifacts.get_put)
    (simp add: store_insert_def bt.wf_insert)

section \<open>The tool ledger\<close>

record tool_ledger =
  tl_calls :: "(isolation_key \<times> tool_call_id, tool_call_record) btree"
  tl_results :: "(isolation_key \<times> tool_call_id, tool_result_record) btree"

definition tool_ledger_new :: tool_ledger where
  "tool_ledger_new = \<lparr>tl_calls = [], tl_results = []\<rparr>"

definition call_key :: "tool_call_record \<Rightarrow> isolation_key \<times> tool_call_id" where
  "call_key c = (tc_scope c, tc_tool_call_id c)"

definition result_key :: "tool_result_record \<Rightarrow> isolation_key \<times> tool_call_id" where
  "result_key r = (tr_scope r, tr_tool_call_id r)"

definition record_call :: "tool_call_record \<Rightarrow> tool_ledger \<Rightarrow> tool_ledger" where
  "record_call c l = l\<lparr>tl_calls := bt_insert (call_key c) c (tl_calls l)\<rparr>"

definition record_calls :: "tool_call_record list \<Rightarrow> tool_ledger \<Rightarrow> tool_ledger" where
  "record_calls cs l = fold record_call cs l"

definition resolve_call :: "tool_call_record \<Rightarrow> tool_call_record" where
  "resolve_call c =
     c\<lparr>tc_status := Resolved, tc_resolved_at_ms := Some (sat_add (tc_created_at_ms c) 1)\<rparr>"

definition record_result :: "tool_result_record \<Rightarrow> tool_ledger \<Rightarrow> kernel_error + tool_ledger" where
  "record_result r l =
     (case bt_get (tl_calls l) (result_key r) of
        None \<Rightarrow> Inl (UnknownToolCall (tr_scope r) (tr_tool_call_id r))
      | Some _ \<Rightarrow>
          Inr (l\<lparr>tl_calls := bt_update (result_key r) resolve_call (tl_calls l),
                 tl_results := bt_insert (result_key r) r (tl_results l)\<rparr>))"

definition unresolved_calls :: "tool_ledger \<Rightarrow> isolation_key \<Rightarrow> tool_call_record list" where
  "unresolved_calls l scope =
     filter_map (\<lambda>((call_scope, call_id), call).
        if call_scope = scope \<and> \<not> bt_contains (tl_results l) (scope, call_id) then Some call else None)
       (tl_calls l)"

definition unresolved_calls_for_task ::
  "tool_ledger \<Rightarrow> isolation_key \<Rightarrow> task_id \<Rightarrow> tool_call_record list" where
  "unresolved_calls_for_task l scope task =
     filter (\<lambda>c. tc_task_id c = task) (unresolved_calls l scope)"

definition call_count :: "tool_ledger \<Rightarrow> nat" where
  "call_count l = length (tl_calls l)"

definition ledger_get :: "tool_ledger \<Rightarrow> isolation_key \<Rightarrow> tool_call_id \<Rightarrow> tool_call_record option" where
  "ledger_get l scope i = bt_get (tl_calls l) (scope, i)"

interpretation calls: scoped_store record_call ledger_get tc_scope tc_tool_call_id
  by unfold_locales (simp add: ledger_get_def record_call_def call_key_def bt.lookup_insert)

text \<open>
  The ledger invariant: both maps are sorted, every call is filed under its own key, every result
  answers a recorded call, and a call is marked \<open>Resolved\<close> when it has a result.
\<close>

definition ledger_wf :: "tool_ledger \<Rightarrow> bool" where
  "ledger_wf l \<longleftrightarrow> bt_wf (tl_calls l) \<and> bt_wf (tl_results l)
     \<and> (\<forall>k c. bt_get (tl_calls l) k = Some c \<longrightarrow> call_key c = k)
     \<and> (\<forall>k r. bt_get (tl_results l) k = Some r \<longrightarrow> result_key r = k)
     \<and> (\<forall>k. bt_get (tl_results l) k \<noteq> None \<longrightarrow> bt_get (tl_calls l) k \<noteq> None)"

lemma ledger_wf_new [simp, intro]: "ledger_wf tool_ledger_new"
  by (simp add: ledger_wf_def tool_ledger_new_def)

lemma ledger_wf_record_call [wf_intros, intro]: "ledger_wf l \<Longrightarrow> ledger_wf (record_call c l)"
  by (auto simp: ledger_wf_def record_call_def bt.lookup_insert bt.wf_insert)

lemma ledger_wf_record_calls [wf_intros, intro]: "ledger_wf l \<Longrightarrow> ledger_wf (record_calls cs l)"
  unfolding record_calls_def by (induction cs arbitrary: l) auto

lemma call_key_resolve [simp]: "call_key (resolve_call c) = call_key c"
  by (simp add: call_key_def resolve_call_def)

lemma ledger_wf_record_result [wf_intros]:
  assumes "ledger_wf l" and "record_result r l = Inr l'"
  shows "ledger_wf l'"
  using assms
  by (auto simp: ledger_wf_def record_result_def bt_get_update bt.lookup_insert bt.wf_insert
      bt_wf_update simp del: split_paired_All split_paired_Ex split: option.splits if_splits)

lemma record_calls_simps [simp]:
  "record_calls [] l = l"
  "record_calls (c # cs) l = record_calls cs (record_call c l)"
  by (simp_all add: record_calls_def)

lemma tl_results_record_calls [simp]: "tl_results (record_calls cs l) = tl_results l"
  by (induction cs arbitrary: l) (simp_all add: record_call_def)

lemma call_count_record_call: "call_count (record_call c l) \<le> Suc (call_count l)"
  by (simp add: call_count_def record_call_def length_bt_insert_le)

lemma call_count_record_calls: "call_count (record_calls cs l) \<le> call_count l + length cs"
proof (induction cs arbitrary: l)
  case Nil
  then show ?case by simp
next
  case (Cons c cs)
  have "call_count (record_call c l) \<le> Suc (call_count l)"
    by (rule call_count_record_call)
  with Cons.IH [of "record_call c l"] show ?case by simp
qed

lemma unresolved_iff:
  assumes "ledger_wf l"
  shows "c \<in> set (unresolved_calls l scope) \<longleftrightarrow>
     ledger_get l scope (tc_tool_call_id c) = Some c \<and> tc_scope c = scope
       \<and> bt_get (tl_results l) (scope, tc_tool_call_id c) = None"
proof -
  have "c \<in> set (unresolved_calls l scope) \<longleftrightarrow>
      (\<exists>i. ((scope, i), c) \<in> set (tl_calls l) \<and> bt_get (tl_results l) (scope, i) = None)"
    by (force simp: unresolved_calls_def set_filter_map bt_contains_def split: if_splits)
  also have "\<dots> \<longleftrightarrow>
      (\<exists>i. bt_get (tl_calls l) (scope, i) = Some c \<and> bt_get (tl_results l) (scope, i) = None)"
    using assms by (simp add: ledger_wf_def bt_get_eq_Some_iff)
  also have "\<dots> \<longleftrightarrow> ledger_get l scope (tc_tool_call_id c) = Some c \<and> tc_scope c = scope
       \<and> bt_get (tl_results l) (scope, tc_tool_call_id c) = None"
  proof -
    have "bt_get (tl_calls l) (scope, i) = Some c \<Longrightarrow> tc_scope c = scope \<and> tc_tool_call_id c = i" for i
      using assms by (fastforce simp: ledger_wf_def call_key_def)
    then show ?thesis
      by (auto simp: ledger_get_def)
  qed
  finally show ?thesis .
qed

lemma unresolved_for_taskD:
  assumes "ledger_wf l" and "c \<in> set (unresolved_calls_for_task l scope task)"
  shows "tc_scope c = scope \<and> tc_task_id c = task"
  using assms by (auto simp: unresolved_calls_for_task_def unresolved_iff)

lemma unresolved_new [simp]: "unresolved_calls tool_ledger_new scope = []"
  by (simp add: unresolved_calls_def tool_ledger_new_def)

text \<open>A result resolves exactly its own call.\<close>

lemma unresolved_after_result:
  assumes "ledger_wf l" and "record_result r l = Inr l'"
  shows "set (unresolved_calls l' scope) =
    {c \<in> set (unresolved_calls l scope). (tc_scope c, tc_tool_call_id c) \<noteq> result_key r}"
proof -
  have wf': "ledger_wf l'"
    using assms by (rule ledger_wf_record_result)
  have l': "tl_calls l' = bt_update (result_key r) resolve_call (tl_calls l)"
      "tl_results l' = bt_insert (result_key r) r (tl_results l)"
    using assms(2) by (auto simp: record_result_def split: option.splits)
  show ?thesis
    by (auto simp: unresolved_iff [OF wf'] unresolved_iff [OF assms(1)] ledger_get_def l'
        bt_get_update bt.lookup_insert split: if_splits)
qed

end
