(* ===== verification/Kernel_Policy.thy ===== *)
theory Kernel_Policy
  imports Kernel_Store
begin

text \<open>
  \<^verbatim>\<open>KernelPolicy\<close>: the limits of one run, derived from the deployment's policy, the reasoning
  effort of the request and its metadata.
\<close>

definition max_orchestration_repair_attempts :: nat where
  "max_orchestration_repair_attempts = 3"

definition max_empty_synthesis_retry_attempts :: nat where
  "max_empty_synthesis_retry_attempts = 2"

definition default_max_semantic_repair_attempts :: u8 where
  "default_max_semantic_repair_attempts = 2"

record semantic_verification_policy =
  sv_enabled :: bool
  sv_max_repair_attempts :: u8

definition semantic_verification_policy_default :: semantic_verification_policy where
  "semantic_verification_policy_default =
     \<lparr>sv_enabled = False, sv_max_repair_attempts = default_max_semantic_repair_attempts\<rparr>"

record kernel_policy =
  kp_limits :: execution_limits
  kp_semantic_verification :: semantic_verification_policy

definition kernel_policy_default :: kernel_policy where
  "kernel_policy_default =
     \<lparr>kp_limits = execution_limits_default,
      kp_semantic_verification = semantic_verification_policy_default\<rparr>"

definition bounded_parallel_agents :: "u16 \<Rightarrow> u16 \<Rightarrow> u16" where
  "bounded_parallel_agents requested max_agents_limit =
     (if max_agents_limit = 0 then 0 else clamp_word requested 1 max_agents_limit)"

definition with_reasoning_effort :: "kernel_policy \<Rightarrow> reasoning_effort \<Rightarrow> kernel_policy" where
  "with_reasoning_effort p effort =
     (let limits = (kp_limits p)\<lparr>max_agents_per_request := max_agents effort\<rparr>
      in p\<lparr>kp_limits := limits\<lparr>max_parallel_agents :=
             bounded_parallel_agents (max_parallel_agents limits) (max_agents_per_request limits)\<rparr>\<rparr>)"

text \<open>\<^verbatim>\<open>metadata_u16\<close>: the first path that leads to a number, or to the text of one, that fits.\<close>

fun json_path :: "json \<Rightarrow> ustr list \<Rightarrow> json option" where
  "json_path value [] = Some value"
| "json_path value (segment # rest) =
     (case json_get segment value of None \<Rightarrow> None | Some v \<Rightarrow> json_path v rest)"

definition json_to_u64 :: "json \<Rightarrow> u64 option" where
  "json_to_u64 value =
     (case value of
        JNumber n \<Rightarrow> json_as_u64 (JNumber n)
      | JString text \<Rightarrow> map_option word_of_nat (parse_uint (2 ^ 64) (trim text))
      | _ \<Rightarrow> None)"

definition metadata_u16 :: "json \<Rightarrow> ustr list list \<Rightarrow> u16 option" where
  "metadata_u16 metadata paths =
     find_map (\<lambda>path.
       (case json_path metadata path of
          None \<Rightarrow> None
        | Some value \<Rightarrow>
            (case json_to_u64 value of None \<Rightarrow> None | Some n \<Rightarrow> nat_to_word (unat n)))) paths"

definition parallel_agents_paths :: "ustr list list" where
  "parallel_agents_paths =
     [[str ''max_parallel_agents''],
      [str ''parallel_agents''],
      [str ''agent'', str ''max_parallel_agents''],
      [str ''agent'', str ''parallel_agents''],
      [str ''agent'', str ''parallelism''],
      [str ''orchestration'', str ''max_parallel_agents''],
      [str ''orchestration'', str ''parallel_agents'']]"

definition with_metadata_overrides :: "kernel_policy \<Rightarrow> json \<Rightarrow> kernel_policy" where
  "with_metadata_overrides p metadata =
     (case metadata_u16 metadata parallel_agents_paths of
        None \<Rightarrow> p
      | Some n \<Rightarrow>
          p\<lparr>kp_limits := (kp_limits p)\<lparr>max_parallel_agents :=
              bounded_parallel_agents n (max_agents_per_request (kp_limits p))\<rparr>\<rparr>)"

definition for_request :: "kernel_policy \<Rightarrow> normalized_request \<Rightarrow> kernel_policy" where
  "for_request p r =
     with_metadata_overrides (with_reasoning_effort p (nr_reasoning_effort r)) (nr_metadata r)"

abbreviation policy_max_agents :: "kernel_policy \<Rightarrow> nat" where
  "policy_max_agents p \<equiv> unat (max_agents_per_request (kp_limits p))"

section \<open>Lemmas\<close>

lemma bounded_parallel_agents_bounds:
  "bounded_parallel_agents n m \<le> m"
  "m \<noteq> 0 \<Longrightarrow> 1 \<le> bounded_parallel_agents n m"
proof -
  have "m \<noteq> 0 \<Longrightarrow> 1 \<le> m"
    by (metis word_le_less_eq word_less_1 word_not_simps(1) linorder_not_less)
  then show "bounded_parallel_agents n m \<le> m" and "m \<noteq> 0 \<Longrightarrow> 1 \<le> bounded_parallel_agents n m"
    using clamp_word_bounds [of 1 m n] by (auto simp: bounded_parallel_agents_def)
qed

lemma for_request_agents:
  "max_agents_per_request (kp_limits (for_request p r)) = max_agents (nr_reasoning_effort r)"
  by (simp add: for_request_def with_metadata_overrides_def with_reasoning_effort_def Let_def
      split: option.splits)

lemma for_request_parallel:
  "max_parallel_agents (kp_limits (for_request p r)) =
     bounded_parallel_agents
       (case metadata_u16 (nr_metadata r) parallel_agents_paths of
          Some n \<Rightarrow> n | None \<Rightarrow> max_parallel_agents (kp_limits p))
       (max_agents (nr_reasoning_effort r))"
  by (simp add: for_request_def with_metadata_overrides_def with_reasoning_effort_def Let_def
      split: option.splits)

lemma for_request_frame:
  "kp_semantic_verification (for_request p r) = kp_semantic_verification p"
  "max_spawn_depth (kp_limits (for_request p r)) = max_spawn_depth (kp_limits p)"
  "max_total_tool_calls (kp_limits (for_request p r)) = max_total_tool_calls (kp_limits p)"
  "max_total_tokens (kp_limits (for_request p r)) = max_total_tokens (kp_limits p)"
  "max_tokens_per_agent (kp_limits (for_request p r)) = max_tokens_per_agent (kp_limits p)"
  "agent_timeout_ms (kp_limits (for_request p r)) = agent_timeout_ms (kp_limits p)"
  "request_timeout_ms (kp_limits (for_request p r)) = request_timeout_ms (kp_limits p)"
  by (simp_all add: for_request_def with_metadata_overrides_def with_reasoning_effort_def Let_def
      split: option.splits)

lemma max_agents_le: "unat (max_agents e) \<le> 64"
  by (cases e) simp_all

lemma max_agents_eq_0 [simp]: "max_agents e = 0 \<longleftrightarrow> is_direct e"
  by (cases e) (simp_all add: is_direct_def)

lemma max_agents_not_1: "unat (max_agents e) \<noteq> 1"
  by (cases e) simp_all

end
