(* ===== verification/Kernel_Spawn.thy ===== *)
theory Kernel_Spawn
  imports Kernel_Policy
begin

text \<open>
  Spawn plans: the validator that admits a plan into the task graph, the normalisation and
  reconciliation of a planner's plans against the configured number of child agents, and the
  application of a provider response to the stores of a run.
\<close>

section \<open>The spawn validator\<close>

fun check_refs :: "isolation_key \<Rightarrow> artifact_store \<Rightarrow> artifact_ref list \<Rightarrow> kernel_error option" where
  "check_refs scope store [] = None"
| "check_refs scope store (r # rs) =
     (if ar_scope r \<noteq> scope then Some (ArtifactScopeMismatch scope (ar_scope r))
      else if \<not> store_contains_ref store r then Some (MissingArtifact (ar_scope r) (ar_artifact_id r))
      else check_refs scope store rs)"

fun check_children ::
  "u8 \<Rightarrow> isolation_key \<Rightarrow> artifact_store \<Rightarrow> task_graph \<Rightarrow> subtask_spec list \<Rightarrow> kernel_error option" where
  "check_children max_depth scope store graph [] = None"
| "check_children max_depth scope store graph (child # rest) =
     (if max_depth < st_spawn_depth child
      then Some (SpawnDepthExceeded (st_task_id child) (st_spawn_depth child) max_depth)
      else if bt_contains (tg_tasks graph) (st_task_id child)
      then Some (DuplicateTask (st_task_id child))
      else (case check_refs scope store (st_input_artifact_refs child) of
              Some e \<Rightarrow> Some e
            | None \<Rightarrow> check_children max_depth scope store graph rest))"

definition validate_and_apply ::
  "kernel_policy \<Rightarrow> isolation_key \<Rightarrow> artifact_store \<Rightarrow> task_graph \<Rightarrow> spawn_plan
     \<Rightarrow> kernel_error + task_graph" where
  "validate_and_apply policy scope store graph plan =
     (let requested = nat_to_word_or_max (length (child_tasks graph) + length (sp_children plan))
      in if max_agents_per_request (kp_limits policy) < requested
         then Inl (AgentLimitExceeded requested (max_agents_per_request (kp_limits policy)))
         else (case check_children (max_spawn_depth (kp_limits policy)) scope store graph (sp_children plan) of
                 Some e \<Rightarrow> Inl e
               | None \<Rightarrow> Inr (insert_tasks (sp_children plan) graph)))"

text \<open>What the validator accepts, as a specification over the plan.\<close>

definition child_admissible ::
  "kernel_policy \<Rightarrow> isolation_key \<Rightarrow> artifact_store \<Rightarrow> task_graph \<Rightarrow> subtask_spec \<Rightarrow> bool" where
  "child_admissible policy scope store graph child \<longleftrightarrow>
     st_spawn_depth child \<le> max_spawn_depth (kp_limits policy)
     \<and> bt_get (tg_tasks graph) (st_task_id child) = None
     \<and> (\<forall>r \<in> set (st_input_artifact_refs child). ar_scope r = scope \<and> store_contains_ref store r)"

definition plan_admissible ::
  "kernel_policy \<Rightarrow> isolation_key \<Rightarrow> artifact_store \<Rightarrow> task_graph \<Rightarrow> spawn_plan \<Rightarrow> bool" where
  "plan_admissible policy scope store graph plan \<longleftrightarrow>
     min (length (child_tasks graph) + length (sp_children plan)) 65535 \<le> policy_max_agents policy
     \<and> (\<forall>child \<in> set (sp_children plan). child_admissible policy scope store graph child)"

lemma check_refs_None_iff:
  "check_refs scope store rs = None \<longleftrightarrow> (\<forall>r \<in> set rs. ar_scope r = scope \<and> store_contains_ref store r)"
  by (induction rs) auto

lemma check_children_None_iff:
  "check_children (max_spawn_depth (kp_limits policy)) scope store graph cs = None \<longleftrightarrow>
     (\<forall>c \<in> set cs. child_admissible policy scope store graph c)"
proof (induction cs)
  case Nil
  then show ?case by simp
next
  case (Cons c cs)
  show ?case
  proof (cases "check_refs scope store (st_input_artifact_refs c)")
    case None
    with Cons show ?thesis
      by (auto simp: child_admissible_def bt_contains_def check_refs_None_iff [symmetric])
  next
    case (Some e)
    then show ?thesis
      by (auto simp: child_admissible_def check_refs_None_iff [symmetric])
  qed
qed

lemma validate_accepts_iff:
  "validate_and_apply policy scope store graph plan = Inr g \<longleftrightarrow>
     plan_admissible policy scope store graph plan \<and> g = insert_tasks (sp_children plan) graph"
  by (cases "check_children (max_spawn_depth (kp_limits policy)) scope store graph (sp_children plan)")
    (auto simp: validate_and_apply_def Let_def plan_admissible_def check_children_None_iff [symmetric]
      word_less_nat_alt unat_nat_to_word_or_max)

lemma validate_graph_wf [wf_intros]:
  "graph_wf graph \<Longrightarrow> validate_and_apply policy scope store graph plan = Inr g \<Longrightarrow> graph_wf g"
  by (auto simp: validate_accepts_iff)

lemma validate_child_count:
  assumes "validate_and_apply policy scope store graph plan = Inr g"
    and "policy_max_agents policy < 65535"
  shows "length (child_tasks g) \<le> policy_max_agents policy"
  using assms length_child_tasks_insert_tasks_le [of "sp_children plan" graph]
  by (auto simp: validate_accepts_iff plan_admissible_def)

section \<open>Planner coverage\<close>

record planner_coverage =
  pc_saw_plan :: bool
  pc_child_count :: nat

definition response_plans :: "provider_response \<Rightarrow> spawn_plan list" where
  "response_plans r = filter_map plan_of (ps_artifacts r)"

definition planner_coverage_of :: "provider_response \<Rightarrow> planner_coverage" where
  "planner_coverage_of r =
     fold (\<lambda>a c. case plan_of a of
                   Some plan \<Rightarrow> \<lparr>pc_saw_plan = True, pc_child_count = pc_child_count c + length (sp_children plan)\<rparr>
                 | None \<Rightarrow> c)
       (ps_artifacts r) \<lparr>pc_saw_plan = False, pc_child_count = 0\<rparr>"

lemma coverage_fold:
  "fold (\<lambda>a c. case plan_of a of
                   Some plan \<Rightarrow> \<lparr>pc_saw_plan = True, pc_child_count = pc_child_count c + length (sp_children plan)\<rparr>
                 | None \<Rightarrow> c) as c0 =
   \<lparr>pc_saw_plan = pc_saw_plan c0 \<or> filter_map plan_of as \<noteq> [],
    pc_child_count = pc_child_count c0 + sum_list (map (\<lambda>p. length (sp_children p)) (filter_map plan_of as))\<rparr>"
  by (induction as arbitrary: c0) (auto split: option.splits)

lemma coverage_saw_plan [simp]: "pc_saw_plan (planner_coverage_of r) \<longleftrightarrow> response_plans r \<noteq> []"
  and coverage_child_count:
    "pc_child_count (planner_coverage_of r) = sum_list (map (\<lambda>p. length (sp_children p)) (response_plans r))"
  by (simp_all add: planner_coverage_of_def coverage_fold response_plans_def)

definition should_repair_orchestration_plan :: "planner_coverage \<Rightarrow> kernel_policy \<Rightarrow> bool" where
  "should_repair_orchestration_plan coverage policy \<longleftrightarrow>
     (let target = policy_max_agents policy
      in 1 < target \<and> (\<not> pc_saw_plan coverage \<or> pc_child_count coverage \<noteq> target))"

section \<open>Plans with too many children\<close>

fun truncate_plans :: "nat \<Rightarrow> agent_artifact list \<Rightarrow> agent_artifact list" where
  "truncate_plans remaining [] = []"
| "truncate_plans remaining (a # as) =
     (case a of
        ASpawnPlan i sc plan \<Rightarrow>
          (let children = take remaining (sp_children plan)
           in ASpawnPlan i sc (plan\<lparr>sp_children := children\<rparr>)
                # truncate_plans (remaining - length children) as)
      | _ \<Rightarrow> a # truncate_plans remaining as)"

definition normalize_over_target_orchestration_plans ::
  "kernel_policy \<Rightarrow> provider_response \<Rightarrow> provider_response" where
  "normalize_over_target_orchestration_plans policy r =
     r\<lparr>ps_artifacts := truncate_plans (policy_max_agents policy) (ps_artifacts r)\<rparr>"

lemma truncate_plans_children:
  "concat (map sp_children (filter_map plan_of (truncate_plans n as))) =
     take n (concat (map sp_children (filter_map plan_of as)))"
  by (induction n as rule: truncate_plans.induct)
    (auto simp: Let_def take_append min_def split: agent_artifact.splits)

lemma truncate_plans_plans:
  "length (filter_map plan_of (truncate_plans n as)) = length (filter_map plan_of as)"
  by (induction n as rule: truncate_plans.induct) (auto simp: Let_def split: agent_artifact.splits)

lemma sum_children_concat:
  "sum_list (map (\<lambda>p. length (sp_children p)) ps) = length (concat (map sp_children ps))"
  by (simp add: length_concat comp_def)

lemma normalize_plans_children:
  "concat (map sp_children (response_plans (normalize_over_target_orchestration_plans policy r))) =
     take (policy_max_agents policy) (concat (map sp_children (response_plans r)))"
  by (simp add: response_plans_def normalize_over_target_orchestration_plans_def truncate_plans_children)

section \<open>Plans with too few children\<close>

definition crosscheck_id :: "task_id \<Rightarrow> nat \<Rightarrow> task_id" where
  "crosscheck_id base suffix = base @ str ''-independent-crosscheck-'' @ pad2 suffix"

lemma crosscheck_id_inject: "crosscheck_id b m = crosscheck_id b n \<longleftrightarrow> m = n"
  by (simp add: crosscheck_id_def)

lemma finite_taken_suffixes: "finite {n. m \<le> n \<and> crosscheck_id base n \<in> set ids}"
proof -
  have "finite ((crosscheck_id base) -` set ids)"
    by (intro finite_vimageI) (auto simp: inj_def crosscheck_id_inject)
  then show ?thesis
    by (rule rev_finite_subset) auto
qed

text \<open>The inner \<^verbatim>\<open>loop\<close>: the first suffix whose identifier is free.\<close>

function fresh_crosscheck_id :: "task_id list \<Rightarrow> task_id \<Rightarrow> nat \<Rightarrow> task_id" where
  "fresh_crosscheck_id ids base suffix =
     (if crosscheck_id base suffix \<in> set ids then fresh_crosscheck_id ids base (Suc suffix)
      else crosscheck_id base suffix)"
  by pat_completeness auto

termination fresh_crosscheck_id
proof (relation "measure (\<lambda>(ids, base, suffix). card {n. suffix \<le> n \<and> crosscheck_id base n \<in> set ids})")
  fix ids :: "task_id list" and base suffix
  assume "crosscheck_id base suffix \<in> set ids"
  then have "suffix \<in> {n. suffix \<le> n \<and> crosscheck_id base n \<in> set ids}"
    by simp
  moreover have "suffix \<notin> {n. Suc suffix \<le> n \<and> crosscheck_id base n \<in> set ids}"
    by simp
  moreover have "{n. Suc suffix \<le> n \<and> crosscheck_id base n \<in> set ids} \<subseteq>
      {n. suffix \<le> n \<and> crosscheck_id base n \<in> set ids}"
    by auto
  ultimately have "{n. Suc suffix \<le> n \<and> crosscheck_id base n \<in> set ids} \<subset>
      {n. suffix \<le> n \<and> crosscheck_id base n \<in> set ids}"
    by blast
  then show "((ids, base, Suc suffix), ids, base, suffix)
      \<in> measure (\<lambda>(ids, base, suffix). card {n. suffix \<le> n \<and> crosscheck_id base n \<in> set ids})"
    by (simp add: psubset_card_mono finite_taken_suffixes)
qed simp

declare fresh_crosscheck_id.simps [simp del]

lemma fresh_crosscheck_id_fresh: "fresh_crosscheck_id ids base suffix \<notin> set ids"
proof (induction ids base suffix rule: fresh_crosscheck_id.induct)
  case (1 ids base suffix)
  then show ?case by (simp add: fresh_crosscheck_id.simps [of ids base suffix])
qed

definition crosscheck_child :: "task_id \<Rightarrow> task_id \<Rightarrow> subtask_spec \<Rightarrow> subtask_spec" where
  "crosscheck_child new_id parent template =
     template\<lparr>st_task_id := new_id,
              st_parent_task_id := Some parent,
              st_objective := str ''Independently cross-check: '' @ st_objective template\<rparr>"

fun crosscheck_children ::
  "subtask_spec list \<Rightarrow> task_id \<Rightarrow> nat \<Rightarrow> task_id list \<Rightarrow> nat list \<Rightarrow> subtask_spec list" where
  "crosscheck_children templates parent current ids [] = []"
| "crosscheck_children templates parent current ids (offset # offsets) =
     (let template = templates ! (offset mod length templates);
          new_id = fresh_crosscheck_id ids (st_task_id template) (current + offset + 1)
      in crosscheck_child new_id parent template
           # crosscheck_children templates parent current (bs_insert new_id ids) offsets)"

fun update_first_plan :: "(spawn_plan \<Rightarrow> spawn_plan) \<Rightarrow> agent_artifact list \<Rightarrow> agent_artifact list" where
  "update_first_plan f [] = []"
| "update_first_plan f (a # as) =
     (case a of ASpawnPlan i sc plan \<Rightarrow> ASpawnPlan i sc (f plan) # as
              | _ \<Rightarrow> a # update_first_plan f as)"

definition reconcile_under_target_orchestration_plan ::
  "kernel_policy \<Rightarrow> provider_response \<Rightarrow> provider_response \<times> nat" where
  "reconcile_under_target_orchestration_plan policy r =
     (let target = policy_max_agents policy;
          current = pc_child_count (planner_coverage_of r);
          templates = concat (map sp_children (response_plans r))
      in if current = 0 \<or> target \<le> current then (r, 0)
         else if templates = [] then (r, 0)
         else (case response_plans r of
                 [] \<Rightarrow> (r, 0)
               | destination # _ \<Rightarrow>
                   (let missing = target - current;
                        ids = bs_of (map st_task_id templates);
                        added = crosscheck_children templates (sp_parent_task_id destination) current ids [0..<missing]
                    in (r\<lparr>ps_artifacts :=
                            update_first_plan (\<lambda>p. p\<lparr>sp_children := sp_children p @ added\<rparr>) (ps_artifacts r)\<rparr>,
                        missing))))"

lemma length_crosscheck_children [simp]:
  "length (crosscheck_children ts parent cur ids offs) = length offs"
  by (induction offs arbitrary: ids) (auto simp: Let_def)

lemma crosscheck_children_parent:
  "c \<in> set (crosscheck_children ts parent cur ids offs) \<Longrightarrow> st_parent_task_id c = Some parent"
  by (induction offs arbitrary: ids) (auto simp: Let_def crosscheck_child_def)

lemma crosscheck_children_fresh:
  "distinct (map st_task_id (crosscheck_children ts parent cur ids offs))
   \<and> st_task_id ` set (crosscheck_children ts parent cur ids offs) \<inter> set ids = {}"
proof (induction offs arbitrary: ids)
  case Nil
  then show ?case by simp
next
  case (Cons off offs)
  let ?t = "ts ! (off mod length ts)"
  let ?new = "fresh_crosscheck_id ids (st_task_id ?t) (cur + off + 1)"
  have "?new \<notin> set ids"
    by (rule fresh_crosscheck_id_fresh)
  with Cons.IH [of "bs_insert ?new ids"] show ?case
    by (auto simp: Let_def crosscheck_child_def)
qed

text \<open>A cross-check keeps its template's depth, role, references, capabilities and limits.\<close>

lemma crosscheck_children_template:
  assumes "c \<in> set (crosscheck_children ts parent cur ids offs)" and "ts \<noteq> []"
  shows "\<exists>t \<in> set ts. st_spawn_depth c = st_spawn_depth t \<and> st_role c = st_role t
    \<and> st_input_artifact_refs c = st_input_artifact_refs t
    \<and> st_allowed_capabilities c = st_allowed_capabilities t \<and> st_limits c = st_limits t"
  using assms
proof (induction offs arbitrary: ids)
  case Nil
  then show ?case by simp
next
  case (Cons off offs)
  have "ts ! (off mod length ts) \<in> set ts"
    using Cons.prems by simp
  with Cons show ?case
    by (auto simp: Let_def crosscheck_child_def)
qed

lemma update_first_plan_plans:
  "filter_map plan_of (update_first_plan f as) =
     (case filter_map plan_of as of [] \<Rightarrow> [] | p # ps \<Rightarrow> f p # ps)"
  by (induction as) (auto split: agent_artifact.splits list.splits)

lemma reconcile_plans:
  assumes "reconcile_under_target_orchestration_plan policy r = (r', n)" and "0 < n"
  obtains p ps added where
    "response_plans r = p # ps"
    "response_plans r' = p\<lparr>sp_children := sp_children p @ added\<rparr> # ps"
    "length added = n"
    "n = policy_max_agents policy - pc_child_count (planner_coverage_of r)"
    "distinct (map st_task_id added)"
    "st_task_id ` set added \<inter> st_task_id ` set (concat (map sp_children (response_plans r))) = {}"
    "\<forall>c \<in> set added. st_parent_task_id c = Some (sp_parent_task_id p)"
proof -
  let ?ts = "concat (map sp_children (response_plans r))"
  let ?cur = "pc_child_count (planner_coverage_of r)"
  let ?ids = "bs_of (map st_task_id ?ts)"
  obtain p ps where p: "response_plans r = p # ps"
    using assms by (auto simp: reconcile_under_target_orchestration_plan_def Let_def
        split: if_splits list.splits)
  let ?added = "crosscheck_children ?ts (sp_parent_task_id p) ?cur ?ids [0..<n]"
  have n: "n = policy_max_agents policy - ?cur"
    and r': "r' = r\<lparr>ps_artifacts := update_first_plan (\<lambda>p. p\<lparr>sp_children := sp_children p @ ?added\<rparr>) (ps_artifacts r)\<rparr>"
    using assms p by (auto simp: reconcile_under_target_orchestration_plan_def Let_def split: if_splits)
  have fresh: "distinct (map st_task_id ?added)" "st_task_id ` set ?added \<inter> st_task_id ` set ?ts = {}"
    using crosscheck_children_fresh [of ?ts "sp_parent_task_id p" ?cur ?ids "[0..<n]"] by simp_all
  show ?thesis
  proof (rule that [of p ps ?added])
    show "response_plans r' = p\<lparr>sp_children := sp_children p @ ?added\<rparr> # ps"
      using p by (simp add: r' response_plans_def update_first_plan_plans)
    show "\<forall>c \<in> set ?added. st_parent_task_id c = Some (sp_parent_task_id p)"
      by (blast dest: crosscheck_children_parent)
  qed (use p n fresh in simp_all)
qed

lemma reconcile_count:
  assumes "reconcile_under_target_orchestration_plan policy r = (r', n)"
    and "0 < pc_child_count (planner_coverage_of r)"
    and "pc_child_count (planner_coverage_of r) < policy_max_agents policy"
  shows "pc_child_count (planner_coverage_of r') = policy_max_agents policy"
    and "n = policy_max_agents policy - pc_child_count (planner_coverage_of r)"
proof -
  have ts: "concat (map sp_children (response_plans r)) \<noteq> []"
    using assms(2) by (auto simp: coverage_child_count sum_children_concat simp del: concat_eq_Nil_conv)
  then have "response_plans r \<noteq> []" by auto
  with assms ts have n: "0 < n"
    by (auto simp: reconcile_under_target_orchestration_plan_def Let_def split: list.splits if_splits)
  obtain p ps added where
    "response_plans r = p # ps"
    "response_plans r' = p\<lparr>sp_children := sp_children p @ added\<rparr> # ps"
    "length added = n"
    "n = policy_max_agents policy - pc_child_count (planner_coverage_of r)"
    using reconcile_plans [OF assms(1) n] by metis
  with assms(3)
  show "pc_child_count (planner_coverage_of r') = policy_max_agents policy"
    and "n = policy_max_agents policy - pc_child_count (planner_coverage_of r)"
    by (simp_all add: coverage_child_count)
qed

lemma reconcile_no_plan:
  "pc_child_count (planner_coverage_of r) = 0 \<Longrightarrow>
   reconcile_under_target_orchestration_plan policy r = (r, 0)"
  by (simp add: reconcile_under_target_orchestration_plan_def)

end
