(* ===== verification/Kernel_Apply.thy ===== *)
theory Kernel_Apply
  imports Kernel_Spawn
begin

text \<open>
  The stores of a run and what a provider response does to them: \<^verbatim>\<open>apply_provider_response\<close>,
  \<^verbatim>\<open>apply_spawn_plan_response\<close>, the usage counters and the trace. \<open>plan_text\<close> stands for
  \<^verbatim>\<open>serde_json::to_string\<close> of the object that wraps a disallowed plan.
\<close>

record kernel_stores =
  ks_store :: artifact_store
  ks_ledger :: tool_ledger
  ks_graph :: task_graph

section \<open>Applying a response\<close>

definition disallowed_plan_text :: "(spawn_plan \<Rightarrow> ustr option) \<Rightarrow> spawn_plan \<Rightarrow> ustr" where
  "disallowed_plan_text plan_text plan =
     (case plan_text plan of
        Some t \<Rightarrow> t
      | None \<Rightarrow> str ''worker returned a disallowed spawn plan'')"

definition store_text ::
  "agent_artifact \<Rightarrow> kernel_stores \<times> agent_artifact list \<Rightarrow> kernel_stores \<times> agent_artifact list" where
  "store_text a s =
     ((fst s)\<lparr>ks_store := store_insert a (ks_store (fst s))\<rparr>, snd s @ [a])"

definition apply_plan ::
  "kernel_policy \<Rightarrow> isolation_key \<Rightarrow> spawn_plan \<Rightarrow> kernel_stores \<Rightarrow> kernel_error + kernel_stores" where
  "apply_plan policy scope plan ks =
     (let existing_agents = length (child_tasks (ks_graph ks));
          remaining = policy_max_agents policy - existing_agents;
          plan' = plan\<lparr>sp_children := take remaining (sp_children plan)\<rparr>
      in if sp_children plan' = [] then Inr ks
         else ebind (validate_and_apply policy scope (ks_store ks) (ks_graph ks) plan')
                (\<lambda>g. Inr (ks\<lparr>ks_graph := g\<rparr>)))"

definition apply_artifact ::
  "(spawn_plan \<Rightarrow> ustr option) \<Rightarrow> kernel_policy \<Rightarrow> isolation_key \<Rightarrow> subtask_spec \<Rightarrow> agent_artifact
     \<Rightarrow> kernel_stores \<times> agent_artifact list \<Rightarrow> kernel_error + kernel_stores \<times> agent_artifact list" where
  "apply_artifact plan_text policy scope task a s =
     (case a of
        ASpawnPlan i artifact_scope plan \<Rightarrow>
          (if \<not> capability_contains (st_allowed_capabilities task) CapSpawn
           then Inr (store_text (AText i artifact_scope (disallowed_plan_text plan_text plan)) s)
           else ebind (apply_plan policy scope plan (fst s)) (\<lambda>ks. Inr (ks, snd s)))
      | AText _ _ _ \<Rightarrow> Inr (store_text a s)
      | _ \<Rightarrow> Inr ((fst s)\<lparr>ks_store := store_insert a (ks_store (fst s))\<rparr>, snd s))"

fun apply_artifacts ::
  "(spawn_plan \<Rightarrow> ustr option) \<Rightarrow> kernel_policy \<Rightarrow> isolation_key \<Rightarrow> subtask_spec \<Rightarrow> agent_artifact list
     \<Rightarrow> kernel_stores \<times> agent_artifact list \<Rightarrow> kernel_error + kernel_stores \<times> agent_artifact list" where
  "apply_artifacts plan_text policy scope task [] s = Inr s"
| "apply_artifacts plan_text policy scope task (a # as) s =
     ebind (apply_artifact plan_text policy scope task a s)
       (apply_artifacts plan_text policy scope task as)"

definition apply_provider_response ::
  "(spawn_plan \<Rightarrow> ustr option) \<Rightarrow> kernel_policy \<Rightarrow> isolation_key \<Rightarrow> subtask_spec \<Rightarrow> provider_response
     \<Rightarrow> kernel_stores \<times> agent_artifact list \<Rightarrow> kernel_error + kernel_stores \<times> agent_artifact list" where
  "apply_provider_response plan_text policy scope task response s =
     (if unat (max_total_tool_calls (kp_limits policy))
           < call_count (ks_ledger (fst s)) + length (ps_tool_calls response)
      then Inl BudgetExceeded
      else apply_artifacts plan_text policy scope task (ps_artifacts response)
             ((fst s)\<lparr>ks_ledger := record_calls (ps_tool_calls response) (ks_ledger (fst s))\<rparr>, snd s))"

text \<open>\<^verbatim>\<open>apply_spawn_plan_response\<close>: non-plans are stored first, then every plan is validated.\<close>

fun apply_plans ::
  "kernel_policy \<Rightarrow> isolation_key \<Rightarrow> artifact_store \<Rightarrow> spawn_plan list \<Rightarrow> task_graph
     \<Rightarrow> kernel_error + task_graph" where
  "apply_plans policy scope store [] graph = Inr graph"
| "apply_plans policy scope store (p # ps) graph =
     ebind (validate_and_apply policy scope store graph p) (apply_plans policy scope store ps)"

definition apply_spawn_plan_response ::
  "kernel_policy \<Rightarrow> isolation_key \<Rightarrow> provider_response \<Rightarrow> kernel_stores
     \<Rightarrow> kernel_error + (bool \<times> kernel_stores)" where
  "apply_spawn_plan_response policy scope response ks =
     (let others = filter (\<lambda>a. plan_of a = None) (ps_artifacts response);
          plans = filter_map plan_of (ps_artifacts response);
          store = fold store_insert others (ks_store ks)
      in ebind (apply_plans policy scope store plans (ks_graph ks))
           (\<lambda>g. Inr (plans \<noteq> [], ks\<lparr>ks_store := store, ks_graph := g\<rparr>)))"

section \<open>Usage and trace\<close>

definition accumulate_usage :: "provider_response \<Rightarrow> provider_usage \<times> u32 \<Rightarrow> provider_usage \<times> u32" where
  "accumulate_usage response s =
     (\<lparr>pu_input_tokens = sat_add (pu_input_tokens (fst s)) (pu_input_tokens (ps_usage response)),
       pu_output_tokens = sat_add (pu_output_tokens (fst s)) (pu_output_tokens (ps_usage response))\<rparr>,
      sat_add (snd s) 1)"

datatype kernel_trace_event =
    AgentInput task_id agent_role ustr ustr
  | SpawnPlanEvent task_id ustr "subtask_spec list"
  | AgentOutput task_id agent_role "ustr list" "tool_call_record list" provider_usage

definition trace_agent_input :: "subtask_spec \<Rightarrow> ustr \<Rightarrow> kernel_trace_event" where
  "trace_agent_input task input_text =
     AgentInput (st_task_id task) (st_role task) (st_objective task) input_text"

definition trace_events_from_response ::
  "subtask_spec \<Rightarrow> provider_response \<Rightarrow> kernel_trace_event list" where
  "trace_events_from_response task response =
     (let plan_events = map (\<lambda>p. SpawnPlanEvent (st_task_id task) (sp_reason p) (sp_children p))
                          (filter_map plan_of (ps_artifacts response));
          text_outputs = filter_map text_of (ps_artifacts response)
      in plan_events @
         (if text_outputs \<noteq> [] \<or> ps_tool_calls response \<noteq> [] then
            [AgentOutput (st_task_id task) (st_role task) text_outputs (ps_tool_calls response)
               (ps_usage response)]
          else []))"

section \<open>Lemmas\<close>

text \<open>The invariant of the stores, relative to the policy of the run.\<close>

definition stores_wf :: "kernel_stores \<Rightarrow> bool" where
  "stores_wf ks \<longleftrightarrow> store_wf (ks_store ks) \<and> ledger_wf (ks_ledger ks) \<and> graph_wf (ks_graph ks)"

definition stores_within :: "kernel_policy \<Rightarrow> kernel_stores \<Rightarrow> bool" where
  "stores_within policy ks \<longleftrightarrow>
     length (child_tasks (ks_graph ks)) \<le> policy_max_agents policy
     \<and> call_count (ks_ledger ks) \<le> unat (max_total_tool_calls (kp_limits policy))"

text \<open>Every collected artifact is a text.\<close>

definition texts_only :: "agent_artifact list \<Rightarrow> bool" where
  "texts_only as \<longleftrightarrow> (\<forall>a \<in> set as. \<exists>i sc t. a = AText i sc t)"

lemma texts_only_Nil [simp]: "texts_only []"
  by (simp add: texts_only_def)

lemma texts_only_append [simp]: "texts_only (as @ bs) \<longleftrightarrow> texts_only as \<and> texts_only bs"
  by (auto simp: texts_only_def)

lemma texts_only_single [simp]: "texts_only [AText i sc t]"
  by (simp add: texts_only_def)

lemma apply_plan_cases:
  assumes "apply_plan policy scope plan ks = Inr ks'"
  obtains "ks' = ks"
  | g cs where "ks' = ks\<lparr>ks_graph := g\<rparr>" and "cs \<noteq> []"
      and "cs = take (policy_max_agents policy - length (child_tasks (ks_graph ks))) (sp_children plan)"
      and "validate_and_apply policy scope (ks_store ks) (ks_graph ks) (plan\<lparr>sp_children := cs\<rparr>) = Inr g"
  using assms by (auto simp: apply_plan_def Let_def ebind_Inr_iff split: if_splits)

lemma apply_plan_wf:
  assumes "apply_plan policy scope plan ks = Inr ks'" and "stores_wf ks"
  shows "stores_wf ks'"
  using assms(1)
  by (rule apply_plan_cases) (use assms(2) in \<open>auto simp: stores_wf_def intro: validate_graph_wf\<close>)

lemma apply_plan_within:
  assumes "apply_plan policy scope plan ks = Inr ks'" and "stores_within policy ks"
  shows "stores_within policy ks'"
  using assms(1)
proof (rule apply_plan_cases)
  assume "ks' = ks"
  with assms show ?thesis by simp
next
  fix g cs
  let ?n = "policy_max_agents policy - length (child_tasks (ks_graph ks))"
  assume ks': "ks' = ks\<lparr>ks_graph := g\<rparr>" and cs: "cs = take ?n (sp_children plan)"
    and g: "validate_and_apply policy scope (ks_store ks) (ks_graph ks) (plan\<lparr>sp_children := cs\<rparr>) = Inr g"
  from g have "length (child_tasks g) \<le> length (child_tasks (ks_graph ks)) + length cs"
    using length_child_tasks_insert_tasks_le [of cs "ks_graph ks"]
    by (simp add: validate_accepts_iff)
  moreover have "length cs \<le> ?n" by (simp add: cs)
  ultimately show ?thesis
    using assms(2) unfolding stores_within_def ks' by simp linarith
qed

lemma apply_plan_ledger:
  "apply_plan policy scope plan ks = Inr ks' \<Longrightarrow> ks_ledger ks' = ks_ledger ks \<and> ks_store ks' = ks_store ks"
  by (auto elim: apply_plan_cases)

text \<open>One rule for everything a response's artifacts can do to a property of the stores.\<close>

lemma apply_artifacts_invariant:
  assumes "apply_artifacts plan_text policy scope task as s = Inr s'" and "P (fst s)"
    and plan: "\<And>plan ks ks'. apply_plan policy scope plan ks = Inr ks' \<Longrightarrow> P ks \<Longrightarrow> P ks'"
    and store: "\<And>a ks. P ks \<Longrightarrow> P (ks\<lparr>ks_store := store_insert a (ks_store ks)\<rparr>)"
  shows "P (fst s')"
  using assms(1,2)
proof (induction as arbitrary: s)
  case Nil
  then show ?case by simp
next
  case (Cons a as)
  then obtain s1 where s1: "apply_artifact plan_text policy scope task a s = Inr s1"
    and rest: "apply_artifacts plan_text policy scope task as s1 = Inr s'"
    by (auto simp: ebind_Inr_iff)
  from s1 Cons.prems(2) have "P (fst s1)"
    by (auto simp: apply_artifact_def store_text_def ebind_Inr_iff
        split: agent_artifact.splits if_splits intro: plan store)
  with rest show ?case by (rule Cons.IH)
qed

lemma apply_artifacts_texts:
  assumes "apply_artifacts plan_text policy scope task as s = Inr s'"
  shows "\<exists>new. snd s' = snd s @ new \<and> texts_only new"
  using assms
proof (induction as arbitrary: s)
  case Nil
  then show ?case by (auto intro: exI [of _ "[]"])
next
  case (Cons a as)
  then obtain s1 where s1: "apply_artifact plan_text policy scope task a s = Inr s1"
    and rest: "apply_artifacts plan_text policy scope task as s1 = Inr s'"
    by (auto simp: ebind_Inr_iff)
  from s1 have "\<exists>new. snd s1 = snd s @ new \<and> texts_only new"
    by (auto simp: apply_artifact_def store_text_def ebind_Inr_iff split: agent_artifact.splits if_splits)
  with Cons.IH [OF rest] show ?case by fastforce
qed

lemma apply_response_wf [wf_intros]:
  assumes "apply_provider_response plan_text policy scope task r s = Inr s'" and "stores_wf (fst s)"
  shows "stores_wf (fst s')"
proof -
  let ?s = "((fst s)\<lparr>ks_ledger := record_calls (ps_tool_calls r) (ks_ledger (fst s))\<rparr>, snd s)"
  have "apply_artifacts plan_text policy scope task (ps_artifacts r) ?s = Inr s'"
    using assms(1) by (simp add: apply_provider_response_def split: if_splits)
  moreover have "stores_wf (fst ?s)"
    using assms(2) by (auto simp: stores_wf_def)
  ultimately show ?thesis
    by (rule apply_artifacts_invariant) (auto intro: apply_plan_wf, auto simp: stores_wf_def)
qed

lemma apply_response_within [wf_intros]:
  assumes "apply_provider_response plan_text policy scope task r s = Inr s'"
    and "stores_within policy (fst s)"
  shows "stores_within policy (fst s')"
proof -
  let ?s = "((fst s)\<lparr>ks_ledger := record_calls (ps_tool_calls r) (ks_ledger (fst s))\<rparr>, snd s)"
  have "apply_artifacts plan_text policy scope task (ps_artifacts r) ?s = Inr s'"
    and budget: "call_count (ks_ledger (fst s)) + length (ps_tool_calls r)
      \<le> unat (max_total_tool_calls (kp_limits policy))"
    using assms(1) by (simp_all add: apply_provider_response_def split: if_splits)
  moreover have "stores_within policy (fst ?s)"
    using assms(2) budget call_count_record_calls [of "ps_tool_calls r" "ks_ledger (fst s)"]
    by (simp add: stores_within_def)
  ultimately show ?thesis
    by - (rule apply_artifacts_invariant, assumption, assumption,
      rule apply_plan_within, auto simp: stores_within_def)
qed

lemma apply_response_ledger:
  assumes "apply_provider_response plan_text policy scope task r s = Inr s'"
  shows "ks_ledger (fst s') = record_calls (ps_tool_calls r) (ks_ledger (fst s))"
proof -
  let ?l = "record_calls (ps_tool_calls r) (ks_ledger (fst s))"
  have "apply_artifacts plan_text policy scope task (ps_artifacts r)
      ((fst s)\<lparr>ks_ledger := ?l\<rparr>, snd s) = Inr s'"
    using assms(1) by (simp add: apply_provider_response_def split: if_splits)
  then show ?thesis
    by (rule apply_artifacts_invariant [where P = "\<lambda>ks. ks_ledger ks = ?l"])
      (auto dest: apply_plan_ledger)
qed

lemma apply_response_texts:
  assumes "apply_provider_response plan_text policy scope task r s = Inr s'"
  shows "\<exists>new. snd s' = snd s @ new \<and> texts_only new"
proof -
  have "apply_artifacts plan_text policy scope task (ps_artifacts r)
      ((fst s)\<lparr>ks_ledger := record_calls (ps_tool_calls r) (ks_ledger (fst s))\<rparr>, snd s) = Inr s'"
    using assms by (simp add: apply_provider_response_def split: if_splits)
  then show ?thesis by (auto dest!: apply_artifacts_texts)
qed

text \<open>Without the spawn capability a response never changes the task graph.\<close>

lemma apply_artifacts_no_spawn:
  assumes "apply_artifacts plan_text policy scope task as s = Inr s'"
    and "\<not> capability_contains (st_allowed_capabilities task) CapSpawn"
  shows "ks_graph (fst s') = ks_graph (fst s)"
  using assms(1)
proof (induction as arbitrary: s)
  case Nil
  then show ?case by simp
next
  case (Cons a as)
  then obtain s1 where s1: "apply_artifact plan_text policy scope task a s = Inr s1"
    and rest: "apply_artifacts plan_text policy scope task as s1 = Inr s'"
    by (auto simp: ebind_Inr_iff)
  from s1 assms(2) have "ks_graph (fst s1) = ks_graph (fst s)"
    by (auto simp: apply_artifact_def store_text_def split: agent_artifact.splits)
  with Cons.IH [OF rest] show ?case by simp
qed

lemma apply_response_no_spawn:
  assumes "apply_provider_response plan_text policy scope task r s = Inr s'"
    and "\<not> capability_contains (st_allowed_capabilities task) CapSpawn"
  shows "ks_graph (fst s') = ks_graph (fst s)"
  using assms apply_artifacts_no_spawn
  by (fastforce simp: apply_provider_response_def split: if_splits)

subsection \<open>Plans of the planner\<close>

lemma apply_plans_Inr:
  assumes "apply_plans policy scope store ps g = Inr g'"
  shows "g' = insert_tasks (concat (map sp_children ps)) g"
  using assms
proof (induction ps arbitrary: g)
  case Nil
  then show ?case by simp
next
  case (Cons p ps)
  then show ?case
    by (fastforce simp: ebind_Inr_iff validate_accepts_iff insert_tasks_def)
qed

lemma apply_plans_wf [wf_intros]:
  "apply_plans policy scope store ps g = Inr g' \<Longrightarrow> graph_wf g \<Longrightarrow> graph_wf g'"
  by (auto dest!: apply_plans_Inr)

lemma store_wf_fold_insert [wf_intros, intro]:
  "store_wf s \<Longrightarrow> store_wf (fold store_insert as s)"
  by (induction as arbitrary: s) auto

lemma apply_spawn_plan_response_Inr:
  assumes "apply_spawn_plan_response policy scope r ks = Inr (seen, ks')"
  shows "seen \<longleftrightarrow> response_plans r \<noteq> []"
    and "ks_graph ks' = insert_tasks (concat (map sp_children (response_plans r))) (ks_graph ks)"
    and "ks_ledger ks' = ks_ledger ks"
    and "stores_wf ks \<Longrightarrow> stores_wf ks'"
  using assms
  by (auto simp: apply_spawn_plan_response_def Let_def ebind_Inr_iff response_plans_def stores_wf_def
      dest: apply_plans_Inr apply_plans_wf)

lemma accumulate_usage_count: "unat (snd (accumulate_usage r s)) \<le> Suc (unat (snd s))"
  by (simp add: accumulate_usage_def unat_sat_add)

end
