(* ===== verification/Kernel_Prompts.thy ===== *)
theory Kernel_Prompts
  imports Kernel_Apply
begin

text \<open>
  The texts the kernel sends to a model: the flattened request, the system instructions with the
  orchestration and tool policies, the inputs of planner, workers, verifier and synthesizer. The
  texts are the source's, word for word. A record \<open>text_env\<close> holds what prints values outside the
  crate: \<^verbatim>\<open>serde_json\<close>'s compact and pretty printers and the text of a float.
\<close>

record text_env =
  te_json_text :: "json \<Rightarrow> ustr"
  te_json_pretty :: "json \<Rightarrow> ustr"
  te_float_text :: "64 word \<Rightarrow> ustr"
  te_issues_text :: "verification_issue list \<Rightarrow> ustr option"

section \<open>The request as text\<close>

definition provider_content_prompt_text :: "json \<Rightarrow> ustr" where
  "provider_content_prompt_text value =
     (case Option.bind (case json_get (str ''text'') value of
                          Some v \<Rightarrow> Some v | None \<Rightarrow> json_get (str ''thinking'') value) json_as_str of
        Some text \<Rightarrow> text
      | None \<Rightarrow>
          (let kind = (case Option.bind (json_get (str ''type'') value) json_as_str of
                         Some k \<Rightarrow> k | None \<Rightarrow> str ''provider_content'')
           in str ''['' @ kind @ str '' content attached]''))"

fun part_text :: "normalized_content_part \<Rightarrow> ustr option" where
  "part_text (TextPart text) = Some text"
| "part_text (ProviderContentPart _ value) = Some (provider_content_prompt_text value)"
| "part_text _ = None"

definition flatten_text :: "normalized_request \<Rightarrow> ustr" where
  "flatten_text r =
     join (str ''\<newline>'') (filter_map part_text (concat (map nm_content (nr_messages r))))"

definition system_instructions :: "normalized_request \<Rightarrow> ustr list" where
  "system_instructions r =
     filter_map part_text
       (concat (map nm_content (filter (\<lambda>m. nm_role m = RoleSystem) (nr_messages r))))"

section \<open>Stateful tools\<close>

definition is_state_handle_field :: "ustr \<Rightarrow> bool" where
  "is_state_handle_field name =
     (map to_ascii_lowercase (filter is_ascii_alphanumeric name)
        \<in> {str ''sessionid'', str ''processid'', str ''procid'', str ''pid'',
           str ''targetsessionid'', str ''targetprocessid''})"

definition state_handle_value :: "'z text_env_scheme \<Rightarrow> json \<Rightarrow> ustr option" where
  "state_handle_value te value =
     (case value of
        JString text \<Rightarrow> (if \<not> is_blank text then Some (trim text) else None)
      | JNumber n \<Rightarrow> Some (json_number_text (te_float_text te) n)
      | _ \<Rightarrow> None)"

fun collect_stateful_handles :: "'z text_env_scheme \<Rightarrow> json \<Rightarrow> ustr list \<Rightarrow> ustr list" where
  "collect_stateful_handles te (JObject members) handles =
     fold (\<lambda>e hs. collect_stateful_handles te (snd e)
              (if is_state_handle_field (fst e) then
                 (case state_handle_value te (snd e) of
                    Some handle \<Rightarrow> bs_insert (fst e @ str ''='' @ handle) hs
                  | None \<Rightarrow> hs)
               else hs))
       members handles"
| "collect_stateful_handles te (JArray values) handles =
     fold (\<lambda>v hs. collect_stateful_handles te v hs) values handles"
| "collect_stateful_handles te _ handles = handles"

definition observed_stateful_handles :: "'z text_env_scheme \<Rightarrow> normalized_request \<Rightarrow> ustr list" where
  "observed_stateful_handles te r =
     fold (\<lambda>result hs. collect_stateful_handles te (tr_result_json result) hs)
       (filter (\<lambda>result. tr_status result = Accepted) (nr_tool_results r)) []"

definition stateful_tool_contract :: "tool_definition \<Rightarrow> ustr option" where
  "stateful_tool_contract tool =
     (case Option.bind (json_get (str ''properties'') (td_input_schema tool)) json_as_object of
        None \<Rightarrow> None
      | Some properties \<Rightarrow>
          (let state_fields = filter is_state_handle_field (map fst properties)
           in if state_fields = [] then None
              else
                (let required =
                       (case Option.bind (json_get (str ''required'') (td_input_schema tool)) json_as_array of
                          Some values \<Rightarrow> filter_map json_as_str values | None \<Rightarrow> []);
                     required_state_fields = filter (\<lambda>name. name \<in> set required) state_fields;
                     required_text =
                       (if required_state_fields = [] then []
                        else str '' Required handle field(s): '' @
                             join (str '', '') required_state_fields @ str ''.'')
                 in Some (str ''- Tool `'' @ td_name tool @ str ''` has state handle field(s): '' @
                          join (str '', '') state_fields @ str ''.'' @ required_text))))"

definition stateful_tool_policy_instruction ::
  "'z text_env_scheme \<Rightarrow> normalized_request \<Rightarrow> ustr option" where
  "stateful_tool_policy_instruction te r =
     (let stateful_tools = filter_map stateful_tool_contract (nr_tools r)
      in if stateful_tools = [] then None
         else
           (let handles = observed_stateful_handles te r;
                handle_text =
                  (if handles = [] then
                     str ''No state handle IDs have been observed in accepted tool results for this '' @
                     str ''conversation.''
                   else str ''Observed state handle IDs from accepted tool results: '' @
                        join (str '', '') handles @ str ''.'')
            in Some (
               str ''Stateful tool policy: tools with session/process handle parameters may only '' @
               str ''be called with handle IDs explicitly returned by accepted tool results in '' @
               str ''this same conversation. Do not invent numeric IDs, reuse IDs from unrelated '' @
               str ''turns, or call a state-continuation tool when the referenced operation '' @
               str ''already completed without returning a live handle. If no active handle is '' @
               str ''visible, use an appropriate stateless/starter tool instead.\<newline>'' @
               handle_text @
               str ''\<newline>'' @
               join (str ''\<newline>'') stateful_tools)))"

section \<open>Policies in the system instructions\<close>

definition reasoning_effort_name :: "reasoning_effort \<Rightarrow> ustr" where
  "reasoning_effort_name e =
     (case e of
        EffortNone \<Rightarrow> str ''none''
      | EffortLow \<Rightarrow> str ''low''
      | EffortMedium \<Rightarrow> str ''medium''
      | EffortHigh \<Rightarrow> str ''high''
      | EffortXHigh \<Rightarrow> str ''xhigh'')"

definition orchestration_policy_instruction :: "reasoning_effort \<Rightarrow> kernel_policy \<Rightarrow> ustr" where
  "orchestration_policy_instruction effort policy =
     (let max_agents_text = show_nat (unat (max_agents_per_request (kp_limits policy))) in
     str ''Orchestration policy: reasoning_effort='' @
     reasoning_effort_name effort @
     str ''; max_agents_per_request='' @
     max_agents_text @
     str ''; max_parallel_agents='' @
     show_nat (unat (max_parallel_agents (kp_limits policy))) @
     str ''; target_parallel_agents='' @
     max_agents_text @
     str ''; max_spawn_depth='' @
     show_nat (unat (max_spawn_depth (kp_limits policy))) @
     str ''; max_total_tool_calls='' @
     show_nat (unat (max_total_tool_calls (kp_limits policy))) @
     str ''; token_accounting_reference='' @
     show_nat (unat (max_total_tokens (kp_limits policy))) @
     str ''. Multi-agent decomposition must be model-selected from the actual task '' @
     str ''context, not a generic template. For non-direct reasoning, '' @
     str ''target_parallel_agents is the required child-agent count; under-target plans '' @
     str ''receive bounded model repair and, only after repairs remain short, '' @
     str ''independent cross-check agents derived from model-selected objectives instead '' @
     str ''of a root-only fallback. max_parallel_agents is only the concurrent backend '' @
     str ''request limit, not the child-agent count. Token accounting is telemetry only '' @
     str ''and must not suppress child-agent execution or reduce final answer quality. '' @
     str ''Low should stay compact; medium/high/xhigh should broaden coverage and '' @
     str ''verification. Only root-visible tool calls and the final synthesis are public.'')"

definition tool_execution_policy_text :: ustr where
  "tool_execution_policy_text =
     str ''Tool execution policy: child agents cannot call client tools. When the task '' @
     str ''needs commands, file edits, retrieval, or more observation, the root leader '' @
     str ''must emit the next root-visible tool call instead of finalizing with a plan. '' @
     str ''Continue the tool loop until the requested work is actually complete. Once '' @
     str ''accepted tool results show the requested artifacts were created and at least '' @
     str ''one relevant validation succeeded, stop calling tools and return the final '' @
     str ''answer. Do not repeat successful commands or equivalent validation just to '' @
     str ''gather more confidence. For environment-building tasks, planning/status-only '' @
     str ''tools are not a substitute for concrete execution or observation tools. '' @
     str ''Prefer a cohesive command/script that safely performs related setup and '' @
     str ''verification steps together over many one-step tool calls.''"

definition system_instructions_with_policy ::
  "'z text_env_scheme \<Rightarrow> normalized_request \<Rightarrow> kernel_policy \<Rightarrow> ustr list" where
  "system_instructions_with_policy te r policy =
     system_instructions r @ [orchestration_policy_instruction (nr_reasoning_effort r) policy] @
     (if nr_tools r \<noteq> [] then
        [tool_execution_policy_text] @
        (case stateful_tool_policy_instruction te r of Some p \<Rightarrow> [p] | None \<Rightarrow> [])
      else [])"

section \<open>Gates\<close>

definition root_tools_available :: "normalized_request \<Rightarrow> bool" where
  "root_tools_available r \<longleftrightarrow> nr_tools r \<noteq> [] \<and> nr_tool_choice r \<noteq> ToolNone"

definition should_run_root_tool_gate :: "normalized_request \<Rightarrow> bool" where
  "should_run_root_tool_gate r \<longleftrightarrow> root_tools_available r \<and> nr_tool_results r = []"

definition should_use_model_orchestration :: "normalized_request \<Rightarrow> kernel_policy \<Rightarrow> bool" where
  "should_use_model_orchestration r policy \<longleftrightarrow>
     \<not> is_direct (nr_reasoning_effort r) \<and> 1 < max_agents_per_request (kp_limits policy)"

section \<open>Provider options\<close>

definition output_limit_keys :: "ustr list" where
  "output_limit_keys =
     [str ''max_tokens'', str ''max_completion_tokens'', str ''max_new_tokens'',
      str ''n_predict'', str ''num_predict'']"

definition raise_output_token_limit :: "ustr \<Rightarrow> u64 \<Rightarrow> json_map \<Rightarrow> json_map" where
  "raise_output_token_limit key min_tokens object =
     (let should_raise =
        (case bt_get object key of
           Some (JNumber n) \<Rightarrow> (case json_as_u64 (JNumber n) of Some v \<Rightarrow> v < min_tokens | None \<Rightarrow> False)
         | Some (JString text) \<Rightarrow>
             (case parse_uint (2 ^ 64) (trim text) of Some v \<Rightarrow> v < unat min_tokens | None \<Rightarrow> False)
         | Some JNull \<Rightarrow> True
         | None \<Rightarrow> True
         | _ \<Rightarrow> False)
      in if should_raise then bt_insert key (json_u64 min_tokens) object else object)"

definition raise_present_limits :: "u64 \<Rightarrow> json_map \<Rightarrow> json_map" where
  "raise_present_limits min_tokens object =
     fold (\<lambda>key o1. if bt_contains o1 key then raise_output_token_limit key min_tokens o1 else o1)
       output_limit_keys object"

definition provider_options_with_min_output_tokens :: "json \<Rightarrow> u64 \<Rightarrow> json" where
  "provider_options_with_min_output_tokens options min_tokens =
     (case options of
        JObject object \<Rightarrow>
          (let saw_limit = (\<exists>key \<in> set output_limit_keys. bt_contains object key);
               raised = raise_present_limits min_tokens object
           in JObject (if saw_limit then raised
                       else bt_insert (str ''max_tokens'') (json_u64 min_tokens) raised))
      | _ \<Rightarrow> options)"

definition strip_internal_stop_conditions :: "json \<Rightarrow> json" where
  "strip_internal_stop_conditions options =
     (case options of
        JObject object \<Rightarrow> JObject (bt_remove (str ''stopping_strings'') (bt_remove (str ''stop'') object))
      | _ \<Rightarrow> options)"

definition internal_agent_provider_options :: "json \<Rightarrow> u64 \<Rightarrow> json" where
  "internal_agent_provider_options options min_tokens =
     provider_options_with_min_output_tokens (strip_internal_stop_conditions options) min_tokens"

text \<open>\<^verbatim>\<open>u64::from(max_agents_per_request).saturating_mul(128)\<close> cannot saturate: a \<^verbatim>\<open>u16\<close> times 128.\<close>

definition planner_output_token_floor :: "kernel_policy \<Rightarrow> u64" where
  "planner_output_token_floor policy =
     max (word_of_nat (unat (max_tokens_per_agent (kp_limits policy))))
         (word_of_nat (unat (max_agents_per_request (kp_limits policy)) * 128))"

definition planner_provider_options :: "json \<Rightarrow> kernel_policy \<Rightarrow> json" where
  "planner_provider_options options policy =
     (case internal_agent_provider_options options (planner_output_token_floor policy) of
        JObject object \<Rightarrow>
          JObject (bt_insert (str ''response_format'')
                     (json_object [(str ''type'', JString (str ''json_object''))])
                     (bt_insert (str ''temperature'') (json_u64 0) object))
      | other \<Rightarrow> other)"

section \<open>Request context\<close>

definition debug_result_status :: "tool_result_status \<Rightarrow> ustr" where
  "debug_result_status s = (case s of Accepted \<Rightarrow> str ''Accepted'' | ResultRejected \<Rightarrow> str ''Rejected'')"

definition tool_context_part :: "'z text_env_scheme \<Rightarrow> tool_call_id list \<Rightarrow> normalized_content_part \<Rightarrow> ustr option" where
  "tool_context_part te result_ids part =
     (case part of
        ToolCallPart call_id tool_name arguments \<Rightarrow>
          Some (str ''Tool call '' @ call_id @ str '' ('' @ tool_name @ str '') arguments:\<newline>'' @
                te_json_pretty te arguments)
      | ToolResultPart call_id \<Rightarrow>
          (if call_id \<notin> set result_ids
           then Some (str ''Tool result '' @ call_id @ str '' is present in the conversation.'')
           else None)
      | _ \<Rightarrow> None)"

definition tool_context_text :: "'z text_env_scheme \<Rightarrow> normalized_request \<Rightarrow> ustr" where
  "tool_context_text te r =
     (let result_ids = map tr_tool_call_id (nr_tool_results r)
      in join (str ''\<newline>\<newline>'')
           (filter_map (tool_context_part te result_ids) (concat (map nm_content (nr_messages r))) @
            map (\<lambda>result. str ''Tool result '' @ tr_tool_call_id result @ str '' ('' @
                   debug_result_status (tr_status result) @ str ''):\<newline>'' @
                   te_json_pretty te (tr_result_json result))
              (nr_tool_results r)))"

definition agent_visible_context :: "'z text_env_scheme \<Rightarrow> normalized_request \<Rightarrow> ustr" where
  "agent_visible_context te r =
     (let original = flatten_text r; tool_context = tool_context_text te r
      in join (str ''\<newline>\<newline>'')
           ((if \<not> is_blank original then [original] else []) @
            (if \<not> is_blank tool_context
             then [str ''Root-visible tool context observed so far:\<newline>'' @ tool_context] else [])))"

definition synthesize_text :: "agent_artifact list \<Rightarrow> ustr" where
  "synthesize_text artifacts = join (str ''\<newline>'') (filter_map text_of artifacts)"

section \<open>Planner\<close>

definition planner_limits :: "kernel_policy \<Rightarrow> agent_limits" where
  "planner_limits policy =
     \<lparr>al_max_tokens = max_tokens_per_agent (kp_limits policy), al_max_tool_calls = 0,
      al_timeout_ms = agent_timeout_ms (kp_limits policy)\<rparr>"

definition orchestration_planner_task :: "task_id \<Rightarrow> kernel_policy \<Rightarrow> subtask_spec" where
  "orchestration_planner_task root policy =
     \<lparr>st_task_id = root,
      st_parent_task_id = None,
      st_spawn_depth = 0,
      st_role = Leader,
      st_objective =
        str ''produce a bounded model-selected orchestration plan with exactly '' @
        show_nat (unat (max_agents_per_request (kp_limits policy))) @
        str '' child agents'',
      st_input_artifact_refs = [],
      st_expected_outputs = [KindSpawnPlan],
      st_allowed_capabilities = capability_set_from [CapText, CapImage, CapSpawn],
      st_limits = planner_limits policy\<rparr>"

definition orchestration_planner_repair_task :: "task_id \<Rightarrow> kernel_policy \<Rightarrow> subtask_spec" where
  "orchestration_planner_repair_task root policy =
     (orchestration_planner_task root policy)\<lparr>st_objective :=
        str ''repair a bounded model-selected orchestration plan with exactly '' @
        show_nat (unat (max_agents_per_request (kp_limits policy))) @
        str '' child agents''\<rparr>"

definition planner_media_note :: "normalized_request \<Rightarrow> ustr" where
  "planner_media_note r =
     (if nr_media_artifacts r = [] then str ''No image artifacts are attached.''
      else show_nat (length (nr_media_artifacts r)) @
           str '' image artifact(s) are attached; assign visual inspection only when needed.'')"

definition orchestration_planner_input ::
  "'z text_env_scheme \<Rightarrow> normalized_request \<Rightarrow> kernel_policy \<Rightarrow> ustr" where
  "orchestration_planner_input te r policy =
     (let context_text = agent_visible_context te r;
          media_note = planner_media_note r;
          max_agents_text = show_nat (unat (max_agents_per_request (kp_limits policy)));
          max_parallel_text = show_nat (unat (max_parallel_agents (kp_limits policy))) in
     str ''You are the commercial orchestration planner for this single API request.\<newline>'' @
     str ''Decide the child-agent division from the actual task, tool results, media, '' @
     str ''and user constraints.\<newline>'' @
     str ''Return ONLY valid JSON. Do not write prose, markdown, questions, or a final '' @
     str ''answer.\<newline>'' @
     str ''This request is not direct mode: children length MUST be exactly '' @
     max_agents_text @
     str ''. Empty or fewer children is an invalid API contract.\<newline>'' @
     str ''The model decides each worker's task-specific objective, but the kernel '' @
     str ''enforces the configured child-agent count.\<newline>'' @
     str ''Child objectives must be task-specific, non-overlapping, outcome-oriented, '' @
     str ''and directly useful for final synthesis.\<newline>'' @
     str ''Keep each child objective short, ideally 12 words or fewer, so the spawn_plan '' @
     str ''remains compact.\<newline>'' @
     str ''Avoid generic objectives such as \"analyze the request\" unless that is the '' @
     str ''actual work product.\<newline>'' @
     str ''If client tools are needed, assign workers to analyze current evidence and '' @
     str ''propose next root-visible tool actions; workers cannot call client tools.\<newline>'' @
     str ''Do not ask the user whether to proceed; assign workers to make progress and '' @
     str ''verify.\<newline>'' @
     str ''\<newline>'' @
     str ''Hard limits enforced by the kernel:\<newline>'' @
     str ''- parent_task_id must be \"root\"\<newline>'' @
     str ''- children length must be exactly '' @
     max_agents_text @
     str ''\<newline>'' @
     str ''- max_parallel_agents='' @
     max_parallel_text @
     str ''; this is concurrency only, not the number of children\<newline>'' @
     str ''- child agents cannot call tools; the kernel fills worker/text-only defaults '' @
     str ''when optional child fields are omitted\<newline>'' @
     str ''\<newline>'' @
     str ''Return this compact JSON shape. The children array shown must contain exactly '' @
     max_agents_text @
     str '' objects:\<newline>'' @
     str ''{\<newline>'' @
     str ''\"type\": \"spawn_plan\",\<newline>'' @
     str ''\"plan\": {\<newline>'' @
     str ''\"parent_task_id\": \"root\",\<newline>'' @
     str ''\"reason\": \"why these child agents improve the answer\",\<newline>'' @
     str ''\"children\": [\<newline>'' @
     str ''{\"task_id\":\"short-stable-kebab-case-id-01\",\"objective\":\"specific work this '' @
     str ''child must complete\"}\<newline>'' @
     str '']\<newline>'' @
     str ''}\<newline>'' @
     str ''}\<newline>'' @
     str ''\<newline>'' @
     str ''Media context: '' @
     media_note @
     str ''\<newline>'' @
     str ''\<newline>'' @
     str ''Request context:\<newline>'' @
     context_text)"

definition planner_attempt_lines :: "agent_artifact \<Rightarrow> ustr list" where
  "planner_attempt_lines a =
     (case a of
        ASpawnPlan _ _ plan \<Rightarrow>
          (str ''spawn_plan reason: '' @ sp_reason plan @ str ''; children: '' @
             show_nat (length (sp_children plan)))
          # map (\<lambda>child. str ''- '' @ st_task_id child @ str '': '' @ st_objective child) (sp_children plan)
      | AText _ _ text \<Rightarrow>
          (if \<not> is_blank text then [str ''non-JSON planner text: '' @ trim text] else [])
      | _ \<Rightarrow> [])"

definition planner_attempt_summary :: "provider_response \<Rightarrow> ustr" where
  "planner_attempt_summary response =
     (let ls = concat (map planner_attempt_lines (ps_artifacts response))
      in if ls = [] then str ''No spawn_plan artifact was returned.'' else join (str ''\<newline>'') ls)"

definition orchestration_planner_repair_input ::
  "'z text_env_scheme \<Rightarrow> normalized_request \<Rightarrow> kernel_policy \<Rightarrow> provider_response \<Rightarrow> nat \<Rightarrow> ustr" where
  "orchestration_planner_repair_input te r policy previous_response attempt =
     (let previous = planner_attempt_summary previous_response;
          context_text = agent_visible_context te r;
          target_text = show_nat (unat (max_agents_per_request (kp_limits policy)));
          max_parallel_text = show_nat (unat (max_parallel_agents (kp_limits policy))) in
     str ''You are repairing the orchestration plan for this same single API request.\<newline>'' @
     str ''Repair attempt: '' @
     show_nat attempt @
     str ''/'' @
     show_nat max_orchestration_repair_attempts @
     str ''.\<newline>'' @
     str ''Previous orchestration attempt:\<newline>'' @
     previous @
     str ''\<newline>'' @
     str ''\<newline>'' @
     str ''The previous attempt was missing, empty, or did not match the configured '' @
     str ''coverage tier.\<newline>'' @
     str ''Return ONLY valid JSON for one complete replacement spawn_plan. The kernel '' @
     str ''will apply only this repaired plan.\<newline>'' @
     str ''Keep the division model-selected and task-specific; do not use generic '' @
     str ''template workers.\<newline>'' @
     str ''Keep each child objective short, ideally 12 words or fewer.\<newline>'' @
     str ''target_child_agents='' @
     target_text @
     str ''; max_agents_per_request='' @
     target_text @
     str ''; max_parallel_agents='' @
     max_parallel_text @
     str ''.\<newline>'' @
     str ''children length MUST be exactly '' @
     target_text @
     str ''. Empty or fewer children is invalid and will be rejected; do not answer with '' @
     str ''root-only work.\<newline>'' @
     str ''Child agents cannot call client tools; if tools are needed, assign workers to '' @
     str ''analyze evidence and let the root leader make root-visible tool calls later.\<newline>'' @
     str ''\<newline>'' @
     str ''Required compact JSON shape: '' @
     str ''{\"type\":\"spawn_plan\",\"plan\":{\"parent_task_id\":\"root\",\"reason\":\"...\",\"children\"'' @
     str '':[{\"task_id\":\"child-01\",\"objective\":\"specific worker objective\"}]}}. The '' @
     str ''children array must contain exactly '' @
     target_text @
     str '' objects.\<newline>'' @
     str ''\<newline>'' @
     str ''Request context:\<newline>'' @
     context_text)"

section \<open>Workers\<close>

definition worker_contract :: ustr where
  "worker_contract =
     str ''Worker artifact contract:\<newline>'' @
     str ''- Return a compact intermediate artifact, not a chat transcript.\<newline>'' @
     str ''- You do not have tool access in this worker turn; do not request, invent, or '' @
     str ''simulate tool calls.\<newline>'' @
     str ''- Do not say you will inspect files, run commands, browse, or write code '' @
     str ''unless the evidence is already present in the root-visible context.\<newline>'' @
     str ''- Do not return spawn_plan JSON or orchestration schemas; planning is already '' @
     str ''complete.\<newline>'' @
     str ''- Focus only on this child objective. Prefer concrete findings, constraints, '' @
     str ''risks, and the next root-visible action if one is needed.\<newline>'' @
     str ''- Keep the artifact concise: at most 6 short bullets or one small JSON '' @
     str ''object. No hidden reasoning and no orchestration commentary.''"

definition child_agent_input :: "'z text_env_scheme \<Rightarrow> normalized_request \<Rightarrow> subtask_spec \<Rightarrow> ustr" where
  "child_agent_input te r task =
     (let original = agent_visible_context te r
      in if is_blank original
         then str ''Child objective:\<newline>'' @ st_objective task @ str ''\<newline>\<newline>'' @ worker_contract
         else str ''Child objective:\<newline>'' @ st_objective task @ str ''\<newline>\<newline>'' @ worker_contract @
              str ''\<newline>\<newline>Original request and root-visible context:\<newline>'' @ original)"

section \<open>Synthesis and continuation\<close>

definition synthesis_input_from_findings :: "'z text_env_scheme \<Rightarrow> normalized_request \<Rightarrow> ustr \<Rightarrow> ustr" where
  "synthesis_input_from_findings te r artifact_text =
     (let original = agent_visible_context te r in
     str ''User request and root-visible context:\<newline>'' @
     original @
     str ''\<newline>'' @
     str ''\<newline>'' @
     str ''Summarized verified worker-agent findings:\<newline>'' @
     artifact_text @
     str ''\<newline>'' @
     str ''\<newline>'' @
     str ''Return only a complete, natural final answer for the user. Use the summarized '' @
     str ''findings as guidance, but do not shorten the answer just because the findings '' @
     str ''are concise. Do not expose sub-agent state, internal tool calls, raw '' @
     str ''artifacts, or orchestration details. Preserve formatting exactly when the '' @
     str ''answer contains XML/HTML-like tags, Markdown, fenced code, lists, tables, or '' @
     str ''delimiter-separated blocks. Do not minify, collapse line breaks, remove '' @
     str ''spaces around headings, or merge tag-delimited sections.'')"

definition synthesis_input :: "'z text_env_scheme \<Rightarrow> normalized_request \<Rightarrow> agent_artifact list \<Rightarrow> ustr" where
  "synthesis_input te r artifacts = synthesis_input_from_findings te r (synthesize_text artifacts)"

definition empty_synthesis_retry_input :: "ustr \<Rightarrow> nat \<Rightarrow> ustr" where
  "empty_synthesis_retry_input base_input attempt =
     base_input @
     str ''\<newline>'' @
     str ''\<newline>'' @
     str ''The previous final-synthesis completion returned no final text. Retry '' @
     show_nat attempt @
     str ''/'' @
     show_nat max_empty_synthesis_retry_attempts @
     str '': produce a non-empty final answer now while preserving the exact same model '' @
     str ''settings, output limit, reasoning mode, evidence, and user constraints. Do '' @
     str ''not discuss this retry or expose hidden reasoning.''"

definition root_tool_continuation_input ::
  "'z text_env_scheme \<Rightarrow> normalized_request \<Rightarrow> agent_artifact list \<Rightarrow> ustr" where
  "root_tool_continuation_input te r artifacts =
     (let original = agent_visible_context te r;
          artifact_text = synthesize_text artifacts;
          tool_policy =
            (case stateful_tool_policy_instruction te r of
               Some policy \<Rightarrow> str ''\<newline>\<newline>Tool selection guardrails:\<newline>'' @ policy
             | None \<Rightarrow> []) in
     str ''User request and current root-visible tool context:\<newline>'' @
     original @
     str ''\<newline>'' @
     str ''\<newline>'' @
     str ''Worker-agent findings available to the root leader:\<newline>'' @
     artifact_text @
     tool_policy @
     str ''\<newline>'' @
     str ''\<newline>'' @
     str ''Use these findings to continue the task. Before emitting a tool call, compare '' @
     str ''it against the root-visible tool context and do not rerun a command or '' @
     str ''equivalent validation whose successful result is already present. If the '' @
     str ''requested artifacts exist and a relevant validation succeeded, produce the '' @
     str ''final answer now. Emit another root-visible tool call only for a concrete '' @
     str ''missing artifact, failed validation, or unresolved error. When concrete '' @
     str ''environment work remains, use a direct execution or observation tool; '' @
     str ''planning/status-only tools should not delay file creation, command execution, '' @
     str ''retrieval, or validation. Batch safe related shell steps into one cohesive '' @
     str ''command/script when that reduces round trips without hiding failures.'')"

definition worker_output :: "kernel_trace_event \<Rightarrow> ustr option" where
  "worker_output event =
     (case event of
        AgentOutput task role text_outputs _ _ \<Rightarrow>
          (if role \<noteq> Worker \<or> text_outputs = [] then None
           else Some (task @ str '' (Worker agent):\<newline>'' @ join (str ''\<newline>'') text_outputs))
      | _ \<Rightarrow> None)"

definition reasoning_summary_input :: "normalized_request \<Rightarrow> kernel_trace_event list \<Rightarrow> ustr" where
  "reasoning_summary_input r trace_events =
     (let original = flatten_text r;
          worker_outputs = join (str ''\<newline>\<newline>'') (filter_map worker_output trace_events) in
     str ''User request:\<newline>'' @
     original @
     str ''\<newline>'' @
     str ''\<newline>'' @
     str ''Worker-agent outputs to summarize:\<newline>'' @
     worker_outputs @
     str ''\<newline>'' @
     str ''\<newline>'' @
     str ''Return only a clean public reasoning summary. Use exactly one concise line '' @
     str ''per worker in this format:\<newline>'' @
     str ''<task-id> (Worker agent): <summary>\<newline>'' @
     str ''Do not include orchestration statistics, provider call counts, token counts, '' @
     str ''hidden reasoning, tool payloads, or the final answer.'')"

section \<open>Semantic verification\<close>

definition semantic_evidence_text :: "agent_artifact list \<Rightarrow> ustr" where
  "semantic_evidence_text evidence =
     (let rendered = join (str ''\<newline>\<newline>'')
            (filter_map (\<lambda>a. case a of
                AText i _ text \<Rightarrow> Some (str ''artifact_id='' @ i @ str ''\<newline>'' @ text)
              | _ \<Rightarrow> None) evidence)
      in if rendered = [] then str ''(no worker text artifacts)'' else rendered)"

definition semantic_verifier_input :: "normalized_request \<Rightarrow> agent_artifact list \<Rightarrow> ustr \<Rightarrow> ustr" where
  "semantic_verifier_input r evidence candidate =
     (let json_shape =
            str ''{\"passed\":true,\"issues\":[{\"code\":\"...\",\"message\":\"...\"}],\"covered_artifact_ids'' @
            str ''\":[\"...\"]}'' in
     str ''Act as an independent semantic verifier. Check factual consistency, '' @
     str ''instruction coverage, contradictions, unsupported claims, and whether the '' @
     str ''candidate directly answers the user. Use only the root-visible request and '' @
     str ''evidence below. Do not repair the answer. Return ONLY one JSON object with '' @
     str ''this exact shape: '' @
     json_shape @
     str ''. Every issue must have a stable short code and actionable message. '' @
     str ''covered_artifact_ids must list only evidence IDs actually checked.\<newline>'' @
     str ''\<newline>'' @
     str ''Root-visible request:\<newline>'' @
     flatten_text r @
     str ''\<newline>'' @
     str ''\<newline>'' @
     str ''Evidence:\<newline>'' @
     semantic_evidence_text evidence @
     str ''\<newline>'' @
     str ''\<newline>'' @
     str ''Candidate answer:\<newline>'' @
     candidate)"

definition semantic_repair_input ::
  "'z text_env_scheme \<Rightarrow> normalized_request \<Rightarrow> agent_artifact list \<Rightarrow> ustr \<Rightarrow> verification_issue list \<Rightarrow> ustr" where
  "semantic_repair_input te r evidence candidate issues =
     (let issues_text = (case te_issues_text te issues of Some t \<Rightarrow> t | None \<Rightarrow> str ''[]'') in
     str ''Repair the candidate answer using only the root-visible request, existing '' @
     str ''evidence, and verifier issues below. Resolve every issue without inventing '' @
     str ''evidence. Preserve the caller's output format, stop conditions, and requested '' @
     str ''level of detail. Return only the complete replacement answer.\<newline>'' @
     str ''\<newline>'' @
     str ''Root-visible request:\<newline>'' @
     flatten_text r @
     str ''\<newline>'' @
     str ''\<newline>'' @
     str ''Evidence:\<newline>'' @
     semantic_evidence_text evidence @
     str ''\<newline>'' @
     str ''\<newline>'' @
     str ''Verifier issues:\<newline>'' @
     issues_text @
     str ''\<newline>'' @
     str ''\<newline>'' @
     str ''Candidate answer:\<newline>'' @
     candidate)"

text \<open>
  \<^verbatim>\<open>semantic_json_object_candidate\<close>: the trimmed text when it is braced, the body of a code fence
  when that is, else everything from the first opening to the last closing brace.
\<close>

definition braced :: "ustr \<Rightarrow> bool" where
  "braced s \<longleftrightarrow> starts_with s (str ''{'') \<and> ends_with s (str ''}'')"

definition brace_span :: "ustr \<Rightarrow> ustr option" where
  "brace_span s =
     (case find_idx (\<lambda>c. c = 123) s of
        None \<Rightarrow> None
      | Some start \<Rightarrow>
          (case rfind_idx (\<lambda>c. c = 125) s of
             None \<Rightarrow> None
           | Some stop \<Rightarrow> (if start < stop then Some (take (stop + 1 - start) (drop start s)) else None)))"

definition fenced_body :: "ustr \<Rightarrow> ustr option" where
  "fenced_body trimmed =
     (case strip_prefix (str ''```'') trimmed of
        None \<Rightarrow> None
      | Some after_fence \<Rightarrow>
          (let after_language =
                 (case split_once (str ''\<newline>'') after_fence of Some (_, rest) \<Rightarrow> rest | None \<Rightarrow> after_fence);
               fenced = trim (case rsplit_once (str ''```'') after_language of
                                Some (before, _) \<Rightarrow> before | None \<Rightarrow> after_language)
           in if braced fenced then Some fenced else None))"

definition semantic_json_object_candidate :: "ustr \<Rightarrow> ustr option" where
  "semantic_json_object_candidate text =
     (let trimmed = trim text
      in if braced trimmed then Some trimmed
         else (case fenced_body trimmed of
                 Some fenced \<Rightarrow> Some fenced
               | None \<Rightarrow> brace_span trimmed))"

end
