(* ===== verification/Kernel_Layout.thy ===== *)
theory Kernel_Layout
  imports Miya_Collections
begin

text \<open>
  The layout rules the kernel applies to a final answer: tags on lines of their own, a space after
  the marks of a Markdown heading, a line break before a dense field label. The source walks byte
  offsets; the model walks the remaining text, so an offset into the text is the part after it.
  The main lemma is that no rule changes anything but white space.
\<close>

section \<open>Tags\<close>

definition is_tag_byte :: "nat \<Rightarrow> bool" where
  "is_tag_byte c \<longleftrightarrow> is_ascii_alphanumeric c \<or> c \<in> {95, 45, 58, 47, 32, 9}"

fun scan_tag :: "nat \<Rightarrow> ustr \<Rightarrow> nat option" where
  "scan_tag index [] = None"
| "scan_tag index (c # s) =
     (if c = 62 then Some index
      else if is_tag_byte c then scan_tag (Suc index) s
      else None)"

text \<open>The index of the closing bracket of the tag that the text starts with, if it does.\<close>

definition xml_like_tag_end :: "ustr \<Rightarrow> nat option" where
  "xml_like_tag_end s =
     (if s = [] \<or> hd s \<noteq> 60 then None
      else
        (let index = (if 1 < length s \<and> s ! 1 = 47 then 2 else 1);
             body = drop index s
         in case body of
              [] \<Rightarrow> None
            | first # _ \<Rightarrow>
                (if \<not> is_ascii_alphabetic first \<and> first \<noteq> 95 then None else scan_tag index body)))"

lemma find_idx_Some:
  "find_idx p xs = Some i \<Longrightarrow> i < length xs \<and> p (xs ! i)"
  by (induction xs arbitrary: i) (auto split: if_splits)

function count_xml_like_tags :: "ustr \<Rightarrow> nat" where
  "count_xml_like_tags s =
     (case find_idx (\<lambda>c. c = 60) s of
        None \<Rightarrow> 0
      | Some offset \<Rightarrow>
          (let rest = drop offset s
           in case xml_like_tag_end rest of
                None \<Rightarrow> count_xml_like_tags (drop 1 rest)
              | Some end \<Rightarrow> Suc (count_xml_like_tags (drop (end + 1) rest))))"
  by pat_completeness auto
termination
  by (relation "measure length") (auto dest: find_idx_Some)

declare count_xml_like_tags.simps [simp del]

definition ends_with_newline :: "ustr \<Rightarrow> bool" where
  "ends_with_newline s \<longleftrightarrow> s \<noteq> [] \<and> last s = 10"

function tag_boundaries_loop :: "ustr \<Rightarrow> ustr \<Rightarrow> ustr" where
  "tag_boundaries_loop output s =
     (if s = [] then output
      else (case find_idx (\<lambda>c. c = 60) s of
              None \<Rightarrow> output @ s
            | Some offset \<Rightarrow>
                (let rest = drop offset s; output1 = output @ take offset s
                 in case xml_like_tag_end rest of
                      None \<Rightarrow> tag_boundaries_loop (output1 @ [60]) (drop 1 rest)
                    | Some end \<Rightarrow>
                        (let output2 = (if output1 \<noteq> [] \<and> \<not> ends_with_newline output1
                                        then output1 @ [10] else output1);
                             output3 = output2 @ take (end + 1) rest;
                             output4 = (if \<not> ends_with_newline output3 then output3 @ [10] else output3)
                         in tag_boundaries_loop output4 (drop (end + 1) rest)))))"
  by pat_completeness auto
termination
  by (relation "measure (\<lambda>(out, s). length s)") (auto dest: find_idx_Some)

declare tag_boundaries_loop.simps [simp del]

definition normalize_xml_like_tag_boundaries :: "ustr \<Rightarrow> ustr" where
  "normalize_xml_like_tag_boundaries text = trim (tag_boundaries_loop [] text)"

section \<open>Headings\<close>

definition normalize_heading_line :: "ustr \<Rightarrow> ustr" where
  "normalize_heading_line line =
     (let trimmed = trim_start line;
          indent_len = length line - length trimmed;
          hashes = length (takeWhile (\<lambda>c. c = 35) trimmed)
      in if 1 \<le> hashes \<and> hashes \<le> 6 then
           (let after_hashes = drop hashes trimmed
            in if after_hashes \<noteq> [] \<and> \<not> is_whitespace (hd after_hashes)
               then take indent_len line @ replicate hashes 35 @ [32] @ after_hashes
               else line)
         else line)"

definition normalize_markdown_heading_spacing :: "ustr \<Rightarrow> ustr" where
  "normalize_markdown_heading_spacing text = join [10] (map normalize_heading_line (lines text))"

section \<open>Field labels\<close>

definition is_cjk :: "nat \<Rightarrow> bool" where
  "is_cjk c \<longleftrightarrow> 0x3400 \<le> c \<and> c \<le> 0x9fff \<or> 0xf900 \<le> c \<and> c \<le> 0xfaff"

text \<open>The two colons: ASCII and full width.\<close>

definition is_colon :: "nat \<Rightarrow> bool" where
  "is_colon c \<longleftrightarrow> c = 58 \<or> c = 0xFF1A"

definition is_label_start :: "nat \<Rightarrow> bool" where
  "is_label_start c \<longleftrightarrow> is_ascii_uppercase c \<or> is_cjk c"

definition is_label_char :: "nat \<Rightarrow> bool" where
  "is_label_char c \<longleftrightarrow> is_ascii_alphanumeric c \<or> c \<in> {95, 45, 47} \<or> is_cjk c"

definition can_precede_dense_label :: "nat \<Rightarrow> bool" where
  "can_precede_dense_label c \<longleftrightarrow> is_ascii_alphanumeric c \<or> is_cjk c
     \<or> c \<in> {37, 41, 93, 125, 0xFF09, 0x3011, 0x300D, 0x300F, 0x300B, 0x3009}"

definition is_field_label_boundary :: "nat list \<Rightarrow> nat \<Rightarrow> bool" where
  "is_field_label_boundary chars start =
     (if \<not> is_label_start (chars ! start) then False
      else
        (let previous = chars ! (start - 1);
             label_len = length (takeWhile is_label_char (drop start chars));
             end = start + label_len
         in if is_whitespace previous \<or> previous = 10 \<or> previous = 13 \<or> is_colon previous then False
            else if length chars \<le> end \<or> \<not> is_colon (chars ! end) then False
            else if \<not> (2 \<le> label_len \<and> label_len \<le> 32) then False
            else if is_ascii_uppercase (chars ! start)
            then is_ascii_lowercase previous \<or> is_ascii_digit previous \<or> is_cjk previous
            else if is_cjk (chars ! start) then can_precede_dense_label previous
            else False))"

definition label_step :: "nat list \<Rightarrow> ustr \<Rightarrow> nat \<Rightarrow> ustr" where
  "label_step chars output index =
     (let break =
        0 < index
        \<and> \<not> ends_with_newline output
        \<and> (\<exists>c \<in> set (takeWhile (\<lambda>c. c \<noteq> 10 \<and> c \<noteq> 13) (rev output)). is_colon c)
        \<and> is_field_label_boundary chars index
        \<and> \<not> (is_colon (chars ! (index - 1)) \<or> chars ! (index - 1) \<in> {47, 45, 95, 60, 62})
      in (if break then output @ [10] else output) @ [chars ! index])"

definition normalize_field_label_boundaries :: "ustr \<Rightarrow> ustr" where
  "normalize_field_label_boundaries text = foldl (label_step text) [] [0..<length text]"

section \<open>The whole rule\<close>

definition looks_like_structured_text :: "ustr \<Rightarrow> bool" where
  "looks_like_structured_text text \<longleftrightarrow>
     2 \<le> count_xml_like_tags text
     \<or> contains_str text (str ''```'')
     \<or> (\<exists>line \<in> set (lines text).
          starts_with (trim_start line) (str ''#'') \<or> starts_with (trim_start line) (str ''|''))"

definition normalize_structured_text_layout :: "ustr \<Rightarrow> ustr" where
  "normalize_structured_text_layout text =
     (if \<not> looks_like_structured_text text then text
      else normalize_field_label_boundaries
             (normalize_markdown_heading_spacing (normalize_xml_like_tag_boundaries text)))"

section \<open>Lemmas\<close>

text \<open>The content of a text: everything but its white space.\<close>

definition ink :: "ustr \<Rightarrow> ustr" where
  "ink s = filter (\<lambda>c. \<not> is_whitespace c) s"

lemma ink_simps [simp]:
  "ink [] = []"
  "ink (c # s) = (if is_whitespace c then ink s else c # ink s)"
  "ink (s @ t) = ink s @ ink t"
  by (simp_all add: ink_def)

lemma whitespace_newline [simp]: "is_whitespace 10" "is_whitespace 13" "is_whitespace 32"
  "is_whitespace (Suc (Suc (Suc (Suc (Suc (Suc (Suc (Suc (Suc (Suc 0))))))))))"
  by (simp_all add: is_whitespace_def)

lemma ink_dropWhile [simp]: "ink (dropWhile is_whitespace s) = ink s"
  by (induction s) auto

lemma ink_rev: "ink (rev s) = rev (ink s)"
  by (simp add: ink_def rev_filter)

lemma ink_trim_start [simp]: "ink (trim_start s) = ink s"
  by (simp add: trim_start_def)

lemma ink_trim_end [simp]: "ink (trim_end s) = ink s"
  by (simp add: trim_end_def ink_rev)

lemma ink_trim [simp]: "ink (trim s) = ink s"
  by (simp add: trim_def)

lemma ink_eq_Nil_iff: "ink s = [] \<longleftrightarrow> (\<forall>c \<in> set s. is_whitespace c)"
  by (simp add: ink_def filter_empty_conv)

lemma is_blank_iff: "is_blank s \<longleftrightarrow> ink s = []"
proof
  assume "is_blank s"
  then have "ink (trim s) = []" by (simp add: is_blank_def)
  then show "ink s = []" by simp
next
  assume "ink s = []"
  then have "dropWhile is_whitespace s = []" by (simp only: ink_eq_Nil_iff dropWhile_eq_Nil_conv)
  then show "is_blank s"
    by (simp add: is_blank_def trim_def trim_start_def trim_end_def del: dropWhile_eq_Nil_conv)
qed

lemma is_blank_Nil [simp]: "is_blank []"
  by (simp add: is_blank_iff)

lemma tag_boundaries_none:
  assumes "s \<noteq> []" "find_idx (\<lambda>c. c = 60) s = Some off" "xml_like_tag_end (drop off s) = None"
  shows "tag_boundaries_loop out s
       = tag_boundaries_loop (out @ take off s @ [60]) (drop (Suc off) s)"
  using assms by (simp add: tag_boundaries_loop.simps [of out s])

lemma tag_boundaries_tag:
  assumes "s \<noteq> []" "find_idx (\<lambda>c. c = 60) s = Some off" "xml_like_tag_end (drop off s) = Some e"
  shows "\<exists>pre post. ink pre = [] \<and> ink post = [] \<and>
       tag_boundaries_loop out s
       = tag_boundaries_loop (out @ take off s @ pre @ take (Suc e) (drop off s) @ post)
           (drop (Suc e) (drop off s))"
proof -
  let ?o1 = "out @ take off s"
  define pre :: ustr where "pre = (if ?o1 \<noteq> [] \<and> \<not> ends_with_newline ?o1 then [10] else [])"
  define o3 where "o3 = (?o1 @ pre) @ take (Suc e) (drop off s)"
  define post :: ustr where "post = (if \<not> ends_with_newline o3 then [10] else [])"
  have o2: "(if ?o1 \<noteq> [] \<and> \<not> ends_with_newline ?o1 then ?o1 @ [10] else ?o1) = ?o1 @ pre"
    by (simp only: pre_def append_Nil2 split: if_splits) simp
  have o4: "(if \<not> ends_with_newline o3 then o3 @ [10] else o3) = o3 @ post"
    by (simp add: post_def)
  have "tag_boundaries_loop out s = tag_boundaries_loop (o3 @ post) (drop (Suc e) (drop off s))"
    unfolding tag_boundaries_loop.simps [of out s] Let_def
    by (simp only: assms o2 if_False option.case Suc_eq_plus1 [symmetric] o3_def [symmetric] o4)
  then show ?thesis
    by (intro exI [of _ pre] exI [of _ post]) (simp add: o3_def pre_def post_def)
qed

lemma ink_tag_boundaries_loop: "ink (tag_boundaries_loop out s) = ink out @ ink s"
proof (induction "length s" arbitrary: out s rule: less_induct)
  case less
  show ?case
  proof (cases "s = [] \<or> find_idx (\<lambda>c. c = 60) s = None")
    case True
    then show ?thesis by (auto simp: tag_boundaries_loop.simps)
  next
    case False
    then obtain off where s: "s \<noteq> []" and off: "find_idx (\<lambda>c. c = 60) s = Some off" by auto
    have head: "s ! off = 60" and len: "off < length s"
      using find_idx_Some [OF off] by simp_all
    have split: "ink s = ink (take off s) @ ink (drop off s)"
      by (simp flip: ink_simps(3))
    show ?thesis
    proof (cases "xml_like_tag_end (drop off s)")
      case None
      have "ink (drop off s) = 60 # ink (drop (Suc off) s)"
        using head len by (simp add: Cons_nth_drop_Suc [symmetric] is_whitespace_def)
      then show ?thesis
        using less [of "drop (Suc off) s"] len split
        by (simp add: tag_boundaries_none [OF s off None] is_whitespace_def)
    next
      case (Some e)
      obtain pre post where "ink pre = []" "ink post = []"
        and "tag_boundaries_loop out s
           = tag_boundaries_loop (out @ take off s @ pre @ take (Suc e) (drop off s) @ post)
               (drop (Suc e) (drop off s))"
        using tag_boundaries_tag [OF s off Some] by blast
      moreover have "ink (drop off s)
          = ink (take (Suc e) (drop off s)) @ ink (drop (Suc e) (drop off s))"
        by (simp flip: ink_simps(3) del: drop_drop)
      ultimately show ?thesis
        using less [of "drop (Suc e) (drop off s)"] len split by simp
    qed
  qed
qed

lemma ink_join_newline: "ink (join [10] ls) = concat (map ink ls)"
  by (induction "[10] :: ustr" ls rule: join.induct) simp_all

lemma ink_strip_cr [simp]: "ink (strip_cr l) = ink l"
proof (cases "l = []")
  case False
  then have "ink l = ink (butlast l) @ ink [last l]"
    by (metis append_butlast_last_id ink_simps(3))
  with False show ?thesis by (simp add: strip_cr_def)
qed (simp add: strip_cr_def)

lemma split_on_nonempty [simp]: "split_on p s \<noteq> []"
  by (induction s) (auto split: list.splits)

lemma ink_split_on:
  assumes "\<And>c. p c \<Longrightarrow> is_whitespace c"
  shows "concat (map ink (split_on p s)) = ink s"
proof (induction s)
  case Nil
  then show ?case by simp
next
  case (Cons c s)
  then show ?case
    using assms [of c] by (cases "split_on p s") auto
qed

lemma concat_map_butlast:
  "ls \<noteq> [] \<Longrightarrow> concat (map f (butlast ls)) @ f (last ls) = concat (map f ls)"
  by (induction ls) auto

lemma ink_lines: "concat (map ink (lines s)) = ink s"
proof -
  let ?ls = "split_on (\<lambda>c. c = 10) s"
  have "concat (map ink (lines s)) = concat (map ink (butlast ?ls)) @ ink (last ?ls)"
    by (simp add: lines_def Let_def comp_def)
  also have "\<dots> = concat (map ink ?ls)"
    by (rule concat_map_butlast) simp
  also have "\<dots> = ink s"
    by (rule ink_split_on) simp
  finally show ?thesis .
qed

lemma trim_start_split: "take (length s - length (trim_start s)) s @ trim_start s = s"
proof -
  have "s = takeWhile is_whitespace s @ trim_start s"
    by (simp add: trim_start_def)
  moreover from this have "length s = length (takeWhile is_whitespace s) + length (trim_start s)"
    by (metis length_append)
  ultimately show ?thesis
    by (metis add_diff_cancel_right' append_eq_conv_conj)
qed

lemma ink_heading_line [simp]: "ink (normalize_heading_line l) = ink l"
proof -
  let ?t = "trim_start l"
  let ?n = "length (takeWhile (\<lambda>c. c = 35) ?t)"
  have "replicate ?n 35 = takeWhile (\<lambda>c. c = 35) ?t"
    by (rule replicate_length_same) (auto dest: set_takeWhileD)
  then have hashes: "replicate ?n 35 @ drop ?n ?t = ?t"
    by (metis takeWhile_dropWhile_id dropWhile_eq_drop)
  have "ink (take (length l - length ?t) l @ replicate ?n 35 @ [32] @ drop ?n ?t)
      = ink (take (length l - length ?t) l @ (replicate ?n 35 @ drop ?n ?t))"
    by simp
  also have "\<dots> = ink l"
    by (simp only: hashes trim_start_split)
  finally show ?thesis
    by (simp add: normalize_heading_line_def Let_def)
qed

lemma ink_headings [simp]: "ink (normalize_markdown_heading_spacing s) = ink s"
  by (simp add: normalize_markdown_heading_spacing_def ink_join_newline comp_def ink_lines)

lemma ink_labels_upto:
  "n \<le> length s \<Longrightarrow> ink (foldl (label_step s) [] [0..<n]) = ink (take n s)"
proof (induction n)
  case 0
  then show ?case by simp
next
  case (Suc n)
  then show ?case
    by (simp add: label_step_def Let_def take_Suc_conv_app_nth)
qed

lemma ink_labels [simp]: "ink (normalize_field_label_boundaries s) = ink s"
  using ink_labels_upto [of "length s" s] by (simp add: normalize_field_label_boundaries_def)

lemma ink_layout [simp]: "ink (normalize_structured_text_layout s) = ink s"
  by (simp add: normalize_structured_text_layout_def normalize_xml_like_tag_boundaries_def
      ink_tag_boundaries_loop)

lemma is_blank_layout [simp]: "is_blank (normalize_structured_text_layout s) \<longleftrightarrow> is_blank s"
  by (simp add: is_blank_iff)

end
