(* ===== verification/Kernel_Monad.thy ===== *)
theory Kernel_Monad
  imports Kernel_Prompts Kernel_Layout
begin

text \<open>
  The state of one kernel run, the effects its stages are composed of, and the rules the proofs
  about them use. A stage is a function of the run state that returns a kernel error or a value,
  and the state: on an error the state keeps what was done before it (the provider calls made),
  the value the source drops is not read again.
\<close>

section \<open>Outside the crate\<close>

record semantic_verdict =
  sd_passed :: bool
  sd_issues :: "verification_issue list"
  sd_covered_artifact_ids :: "ustr list"

text \<open>
  What a run takes from outside: the provider, the executor's choices (\<open>ke_pick w k\<close> picks which of
  the futures in flight is the \<open>k\<close>-th to complete, taken modulo their number), the parser of a verdict and the printers of
  \<^verbatim>\<open>serde_json\<close>, the cipher with its nonce source and \<^verbatim>\<open>hex::encode\<close>, the escaped text of
  \<^verbatim>\<open>Debug\<close>.
\<close>

record 'w kernel_env = text_env +
  ke_invoke :: "'w provider"
  ke_stream :: "'w \<Rightarrow> provider_request \<Rightarrow> 'w \<times> nat \<times> (provider_error + provider_stream_event list)"
  ke_pick :: "'w \<Rightarrow> nat \<Rightarrow> nat"
  ke_parse_verdict :: "ustr \<Rightarrow> semantic_verdict option"
  ke_plan_text :: "spawn_plan \<Rightarrow> ustr option"
  ke_state_text :: "isolation_key \<Rightarrow> subtask_spec \<Rightarrow> provider_response \<Rightarrow> ustr"
  ke_nonce :: "'w \<Rightarrow> 'w \<times> u8 list"
  ke_encrypt :: "u8 list \<Rightarrow> ustr \<Rightarrow> ustr \<Rightarrow> u8 list option"
  ke_hex :: "u8 list \<Rightarrow> ustr"
  ke_debug_text :: "ustr \<Rightarrow> ustr"

section \<open>The text of a kernel error\<close>

definition debug_id :: "'w kernel_env \<Rightarrow> ustr \<Rightarrow> ustr \<Rightarrow> ustr" where
  "debug_id env name i = name @ str ''('' @ ke_debug_text env i @ str '')''"

definition debug_isolation_key :: "'w kernel_env \<Rightarrow> isolation_key \<Rightarrow> ustr" where
  "debug_isolation_key env k =
     str ''IsolationKey { tenant_id: '' @ debug_id env (str ''TenantId'') (ik_tenant k)
       @ str '', request_id: '' @ debug_id env (str ''RequestId'') (ik_request k)
       @ str '', conversation_fingerprint: ''
       @ debug_id env (str ''ConversationFingerprint'') (ik_conversation k) @ str '' }''"

fun show_kernel_error :: "'w kernel_env \<Rightarrow> kernel_error \<Rightarrow> ustr" where
  "show_kernel_error env (UnknownToolCall scope i) =
     str ''unknown tool call '' @ debug_id env (str ''ToolCallId'') i
       @ str '' in scope '' @ debug_isolation_key env scope"
| "show_kernel_error env (MissingArtifact scope i) =
     str ''artifact '' @ debug_id env (str ''ArtifactId'') i
       @ str '' is not visible in scope '' @ debug_isolation_key env scope"
| "show_kernel_error env (ArtifactScopeMismatch request_scope artifact_scope) =
     str ''artifact ref scope '' @ debug_isolation_key env artifact_scope
       @ str '' does not match request scope '' @ debug_isolation_key env request_scope"
| "show_kernel_error env (SpawnDepthExceeded i depth maximum) =
     str ''spawn depth '' @ show_nat (unat depth) @ str '' for '' @ debug_id env (str ''TaskId'') i
       @ str '' exceeds max '' @ show_nat (unat maximum)"
| "show_kernel_error env (AgentLimitExceeded requested maximum) =
     str ''agent count '' @ show_nat (unat requested) @ str '' exceeds max '' @ show_nat (unat maximum)"
| "show_kernel_error env (DuplicateTask i) =
     str ''task '' @ debug_id env (str ''TaskId'') i @ str '' already exists''"
| "show_kernel_error env BudgetExceeded = str ''spawn tool-call budget exceeds request policy''"
| "show_kernel_error env (KProvider e) = str ''provider error: '' @ show_provider_error e"
| "show_kernel_error env (ProviderRejected m) = str ''provider error: '' @ m"
| "show_kernel_error env (RequestTimeout ms) =
     str ''request execution exceeded '' @ show_nat (unat ms) @ str '' ms''"
| "show_kernel_error env (AgentTimeout i ms) =
     str ''agent '' @ debug_id env (str ''TaskId'') i
       @ str '' execution exceeded '' @ show_nat (unat ms) @ str '' ms''"
| "show_kernel_error env EncryptionFailed = str ''failed to encrypt sub-agent state''"

section \<open>The run state\<close>

record 'w run_state =
  rs_world :: 'w
  rs_stores :: kernel_stores
  rs_texts :: "agent_artifact list"
  rs_sealed :: "encrypted_agent_state list"
  rs_usage :: "provider_usage \<times> u32"
  rs_trace :: "kernel_trace_event list"

type_synonym ('w, 'a) kern = "'w run_state \<Rightarrow> (kernel_error + 'a) \<times> 'w run_state"

definition kret :: "'a \<Rightarrow> ('w, 'a) kern" where
  "kret x s = (Inr x, s)"

definition kthrow :: "kernel_error \<Rightarrow> ('w, 'a) kern" where
  "kthrow e s = (Inl e, s)"

definition kbind :: "('w, 'a) kern \<Rightarrow> ('a \<Rightarrow> ('w, 'b) kern) \<Rightarrow> ('w, 'b) kern" where
  "kbind m f s = (case m s of (Inl e, s') \<Rightarrow> (Inl e, s') | (Inr x, s') \<Rightarrow> f x s')"

text \<open>The outcome of a stage as a value, for the stages that do not propagate errors with \<^verbatim>\<open>?\<close>.\<close>

definition ktry :: "('w, 'a) kern \<Rightarrow> ('w, kernel_error + 'a) kern" where
  "ktry m s = (case m s of (r, s') \<Rightarrow> (Inr r, s'))"

definition kread :: "('w run_state \<Rightarrow> 'a) \<Rightarrow> ('w, 'a) kern" where
  "kread f s = (Inr (f s), s)"

definition kmodify :: "('w run_state \<Rightarrow> 'w run_state) \<Rightarrow> ('w, unit) kern" where
  "kmodify f s = (Inr (), f s)"

definition klift :: "kernel_error + 'a \<Rightarrow> ('w, 'a) kern" where
  "klift r s = (r, s)"

definition ktrace :: "kernel_trace_event list \<Rightarrow> ('w, unit) kern" where
  "ktrace events = kmodify (\<lambda>s. s\<lparr>rs_trace := rs_trace s @ events\<rparr>)"

definition kaccount :: "provider_response \<Rightarrow> ('w, unit) kern" where
  "kaccount response = kmodify (\<lambda>s. s\<lparr>rs_usage := accumulate_usage response (rs_usage s)\<rparr>)"

definition kgraph :: "(task_graph \<Rightarrow> task_graph) \<Rightarrow> ('w, unit) kern" where
  "kgraph f = kmodify (\<lambda>s. s\<lparr>rs_stores := (rs_stores s)\<lparr>ks_graph := f (ks_graph (rs_stores s))\<rparr>\<rparr>)"

text \<open>\<open>apply_provider_response\<close> on the stores, with the list of texts it extends.\<close>

definition kapply ::
  "'w kernel_env \<Rightarrow> kernel_policy \<Rightarrow> isolation_key \<Rightarrow> subtask_spec \<Rightarrow> provider_response
     \<Rightarrow> agent_artifact list \<Rightarrow> ('w, agent_artifact list) kern" where
  "kapply env policy scope task response texts s =
     (case apply_provider_response (ke_plan_text env) policy scope task response (rs_stores s, texts) of
        Inl e \<Rightarrow> (Inl e, s)
      | Inr (stores, texts') \<Rightarrow> (Inr texts', s\<lparr>rs_stores := stores\<rparr>))"

text \<open>\<open>apply_spawn_plan_response\<close> on the stores; its value is whether there was a plan.\<close>

definition kapply_plans ::
  "kernel_policy \<Rightarrow> isolation_key \<Rightarrow> provider_response \<Rightarrow> ('w, bool) kern" where
  "kapply_plans policy scope response s =
     (case apply_spawn_plan_response policy scope response (rs_stores s) of
        Inl e \<Rightarrow> (Inl e, s)
      | Inr (seen, stores) \<Rightarrow> (Inr seen, s\<lparr>rs_stores := stores\<rparr>))"

section \<open>One provider call\<close>

definition effective_timeout :: "subtask_spec \<Rightarrow> u64" where
  "effective_timeout task =
     (if al_timeout_ms (st_limits task) = 0 then al_timeout_ms agent_limits_default
      else al_timeout_ms (st_limits task))"

text \<open>
  \<^verbatim>\<open>tokio::time::timeout\<close>: a call that takes longer than \<^verbatim>\<open>timeout_ms.max(1)\<close> is given up on.
\<close>

definition with_timeout ::
  "task_id \<Rightarrow> u64 \<Rightarrow> nat \<Rightarrow> provider_error + 'a \<Rightarrow> kernel_error + 'a" where
  "with_timeout task timeout_ms elapsed result =
     (if unat (max timeout_ms 1) < elapsed then Inl (AgentTimeout task timeout_ms)
      else case result of Inl e \<Rightarrow> Inl (KProvider e) | Inr r \<Rightarrow> Inr r)"

definition invoke_on ::
  "'w kernel_env \<Rightarrow> provider_request \<Rightarrow> 'w \<Rightarrow> (kernel_error + provider_response) \<times> 'w" where
  "invoke_on env req w =
     (case ke_invoke env w req of
        (w', elapsed, result) \<Rightarrow>
          (with_timeout (st_task_id (pr_task req)) (effective_timeout (pr_task req)) elapsed result, w'))"

definition invoke_provider :: "'w kernel_env \<Rightarrow> provider_request \<Rightarrow> ('w, provider_response) kern" where
  "invoke_provider env req s =
     (case invoke_on env req (rs_world s) of (r, w') \<Rightarrow> (r, s\<lparr>rs_world := w'\<rparr>))"

text \<open>
  What the source does around every model call: trace the input, call, count the usage, trace the
  response. The planner's answer is normalised between the call and the count.
\<close>

definition agent_call ::
  "'w kernel_env \<Rightarrow> (provider_response \<Rightarrow> provider_response) \<Rightarrow> provider_request
     \<Rightarrow> ('w, provider_response) kern" where
  "agent_call env post req =
     kbind (ktrace [trace_agent_input (pr_task req) (pr_input_text req)]) (\<lambda>_.
     kbind (invoke_provider env req) (\<lambda>raw.
     (let response = post raw in
     kbind (kaccount response) (\<lambda>_.
     kbind (ktrace (trace_events_from_response (pr_task req) response)) (\<lambda>_.
     kret response)))))"

section \<open>Rules\<close>

lemma kbind_Inr_iff:
  "kbind m f s = (Inr y, s') \<longleftrightarrow> (\<exists>x s1. m s = (Inr x, s1) \<and> f x s1 = (Inr y, s'))"
  by (auto simp: kbind_def split: prod.splits sum.splits)

lemma kbind_InrE:
  assumes "kbind m f s = (Inr y, s')"
  obtains x s1 where "m s = (Inr x, s1)" and "f x s1 = (Inr y, s')"
  using assms by (auto simp: kbind_Inr_iff)

lemma kbind_kret [simp]: "kbind (kret x) f = f x"
  by (rule ext) (simp add: kbind_def kret_def)

lemma kret_Inr_iff [simp]: "kret x s = (r, s') \<longleftrightarrow> r = Inr x \<and> s' = s"
  by (auto simp: kret_def)

lemma kthrow_iff [simp]: "kthrow e s = (r, s') \<longleftrightarrow> r = Inl e \<and> s' = s"
  by (auto simp: kthrow_def)

lemma kread_iff [simp]: "kread f s = (r, s') \<longleftrightarrow> r = Inr (f s) \<and> s' = s"
  by (auto simp: kread_def)

lemma kmodify_iff [simp]: "kmodify f s = (r, s') \<longleftrightarrow> r = Inr () \<and> s' = f s"
  by (auto simp: kmodify_def)

lemma klift_iff [simp]: "klift x s = (r, s') \<longleftrightarrow> r = x \<and> s' = s"
  by (auto simp: klift_def)

text \<open>
  \<open>khoare P m Q E\<close>: from a state with \<open>P\<close> the stage ends in \<open>Q\<close> of its value, or in an error
  with \<open>E\<close>.
\<close>

definition khoare ::
  "('w run_state \<Rightarrow> bool) \<Rightarrow> ('w, 'a) kern \<Rightarrow> ('a \<Rightarrow> 'w run_state \<Rightarrow> bool)
     \<Rightarrow> (kernel_error \<Rightarrow> 'w run_state \<Rightarrow> bool) \<Rightarrow> bool" where
  "khoare P m Q E \<longleftrightarrow>
     (\<forall>s. P s \<longrightarrow> (case m s of (Inl e, s') \<Rightarrow> E e s' | (Inr x, s') \<Rightarrow> Q x s'))"

named_theorems khoare_rules \<open>the proof rules of the effects\<close>

lemma khoareI:
  "(\<And>s x s'. P s \<Longrightarrow> m s = (Inr x, s') \<Longrightarrow> Q x s') \<Longrightarrow>
   (\<And>s e s'. P s \<Longrightarrow> m s = (Inl e, s') \<Longrightarrow> E e s') \<Longrightarrow> khoare P m Q E"
  by (auto simp: khoare_def split: prod.splits sum.splits)

lemma khoareD:
  "khoare P m Q E \<Longrightarrow> P s \<Longrightarrow> m s = (Inr x, s') \<Longrightarrow> Q x s'"
  "khoare P m Q E \<Longrightarrow> P s \<Longrightarrow> m s = (Inl e, s') \<Longrightarrow> E e s'"
  by (auto simp: khoare_def split: prod.splits sum.splits)

lemma khoare_kbind:
  assumes "khoare P m R E" and "\<And>x. khoare (R x) (f x) Q E"
  shows "khoare P (kbind m f) Q E"
  using assms unfolding khoare_def kbind_def by (fastforce split: prod.splits sum.splits)

lemma khoare_weaken:
  assumes "khoare P' m Q' E'" and "\<And>s. P s \<Longrightarrow> P' s"
    and "\<And>x s. Q' x s \<Longrightarrow> Q x s" and "\<And>e s. E' e s \<Longrightarrow> E e s"
  shows "khoare P m Q E"
  using assms unfolding khoare_def by (fastforce split: prod.splits sum.splits)

lemma khoare_kret [khoare_rules]: "(\<And>s. P s \<Longrightarrow> Q x s) \<Longrightarrow> khoare P (kret x) Q E"
  by (simp add: khoare_def kret_def)

lemma khoare_kthrow [khoare_rules]: "(\<And>s. P s \<Longrightarrow> E e s) \<Longrightarrow> khoare P (kthrow e) Q E"
  by (simp add: khoare_def kthrow_def)

lemma khoare_kread [khoare_rules]: "(\<And>s. P s \<Longrightarrow> Q (f s) s) \<Longrightarrow> khoare P (kread f) Q E"
  by (simp add: khoare_def kread_def)

lemma khoare_kmodify [khoare_rules]: "(\<And>s. P s \<Longrightarrow> Q () (f s)) \<Longrightarrow> khoare P (kmodify f) Q E"
  by (simp add: khoare_def kmodify_def)

lemma khoare_klift [khoare_rules]:
  "(\<And>s x. P s \<Longrightarrow> r = Inr x \<Longrightarrow> Q x s) \<Longrightarrow> (\<And>s e. P s \<Longrightarrow> r = Inl e \<Longrightarrow> E e s) \<Longrightarrow>
   khoare P (klift r) Q E"
  by (auto simp: khoare_def klift_def split: sum.splits)

lemma khoare_ktry [khoare_rules]:
  "khoare P m (\<lambda>x. Q (Inr x)) (\<lambda>e. Q (Inl e)) \<Longrightarrow> khoare P (ktry m) Q E"
  unfolding khoare_def ktry_def by (metis (mono_tags, lifting) case_prod_conv old.sum.simps(5,6) sumE surj_pair)

text \<open>Stages that keep an invariant of the state, whether they end in a value or an error.\<close>

definition keeps :: "('w run_state \<Rightarrow> bool) \<Rightarrow> ('w, 'a) kern \<Rightarrow> bool" where
  "keeps I m \<longleftrightarrow> (\<forall>s. I s \<longrightarrow> I (snd (m s)))"

named_theorems keeps_rules \<open>which stages keep an invariant\<close>

lemma keepsD: "keeps I m \<Longrightarrow> I s \<Longrightarrow> m s = (r, s') \<Longrightarrow> I s'"
  by (metis keeps_def snd_conv)

lemma keeps_kbind [keeps_rules]: "keeps I m \<Longrightarrow> (\<And>x. keeps I (f x)) \<Longrightarrow> keeps I (kbind m f)"
  unfolding keeps_def kbind_def by (fastforce split: prod.splits sum.splits)

lemma keeps_simple [keeps_rules, simp]:
  "keeps I (kret x)" "keeps I (kthrow e)" "keeps I (kread f)" "keeps I (klift r)"
  by (simp_all add: keeps_def kret_def kthrow_def kread_def klift_def)

lemma keeps_ktry [keeps_rules]: "keeps I m \<Longrightarrow> keeps I (ktry m)"
  unfolding keeps_def ktry_def by (fastforce split: prod.splits)

lemma keeps_kmodify: "(\<And>s. I s \<Longrightarrow> I (f s)) \<Longrightarrow> keeps I (kmodify f)"
  by (simp add: keeps_def kmodify_def)

lemma keeps_read: "(\<And>s. I s \<Longrightarrow> keeps I (f (g s))) \<Longrightarrow> keeps I (kbind (kread g) f)"
  by (simp add: keeps_def kbind_def kread_def)

lemma keeps_if [keeps_rules]: "(b \<Longrightarrow> keeps I m) \<Longrightarrow> (\<not> b \<Longrightarrow> keeps I n) \<Longrightarrow> keeps I (if b then m else n)"
  by simp

lemma keeps_option [keeps_rules]:
  "keeps I m \<Longrightarrow> (\<And>x. keeps I (f x)) \<Longrightarrow> keeps I (case r of None \<Rightarrow> m | Some x \<Rightarrow> f x)"
  by (cases r) simp_all

lemma keeps_sum [keeps_rules]:
  "(\<And>e. keeps I (g e)) \<Longrightarrow> (\<And>x. keeps I (f x)) \<Longrightarrow> keeps I (case r of Inl e \<Rightarrow> g e | Inr x \<Rightarrow> f x)"
  by (cases r) simp_all

lemma keeps_prod [keeps_rules]:
  "(\<And>a b. keeps I (f a b)) \<Longrightarrow> keeps I (case r of (a, b) \<Rightarrow> f a b)"
  by (cases r) simp

end
