(* ===== verification/Kernel_Stages.thy ===== *)
theory Kernel_Stages
  imports Kernel_Monad
begin

text \<open>
  The stages of \<^verbatim>\<open>KernelRunner::run_inner\<close>, in the order it runs them: the requests, the direct
  answer, the tool gate, the planner with its repairs, the child agents, the continuation of the
  root, the reasoning summary, the synthesis, the semantic verification and the report.
\<close>

section \<open>The fixed part of a run\<close>

record run_ctx =
  rc_request :: normalized_request
  rc_policy :: kernel_policy
  rc_scope :: isolation_key
  rc_system :: "ustr list"
  rc_planner_options :: json
  rc_internal_options :: json
  rc_auxiliary_options :: json

abbreviation rc_limits :: "run_ctx \<Rightarrow> execution_limits" where
  "rc_limits cx \<equiv> kp_limits (rc_policy cx)"

definition agent_token_floor :: "kernel_policy \<Rightarrow> u64" where
  "agent_token_floor policy = word_of_nat (unat (max_tokens_per_agent (kp_limits policy)))"

definition run_context :: "'w kernel_env \<Rightarrow> kernel_policy \<Rightarrow> normalized_request \<Rightarrow> run_ctx" where
  "run_context env policy r =
     (let request_policy = for_request policy r
      in \<lparr>rc_request = r,
          rc_policy = request_policy,
          rc_scope = isolation_key_of r,
          rc_system = system_instructions_with_policy env r request_policy,
          rc_planner_options = planner_provider_options (nr_provider_options r) request_policy,
          rc_internal_options =
            internal_agent_provider_options (nr_provider_options r) (agent_token_floor request_policy),
          rc_auxiliary_options =
            provider_options_with_min_output_tokens (nr_provider_options r)
              (agent_token_floor request_policy)\<rparr>)"

definition root_task_id :: task_id where
  "root_task_id = str ''root''"

definition root_capabilities :: capability_set where
  "root_capabilities = capability_set_from [CapText, CapImage, CapSpawn, CapToolCall]"

definition media_refs :: "isolation_key \<Rightarrow> normalized_request \<Rightarrow> artifact_ref list" where
  "media_refs scope r =
     map (\<lambda>m. \<lparr>ar_scope = scope, ar_artifact_id = ma_id m\<rparr>) (nr_media_artifacts r)"

text \<open>The function \<^verbatim>\<open>root_task\<close>, and the task \<^verbatim>\<open>run_inner\<close> builds with the limits of the policy.\<close>

definition root_task :: "isolation_key \<Rightarrow> normalized_request \<Rightarrow> subtask_spec" where
  "root_task scope r =
     \<lparr>st_task_id = root_task_id,
      st_parent_task_id = None,
      st_spawn_depth = 0,
      st_role = Leader,
      st_objective = str ''produce a verified final answer'',
      st_input_artifact_refs = media_refs scope r,
      st_expected_outputs = [KindText],
      st_allowed_capabilities = root_capabilities,
      st_limits = agent_limits_default\<rparr>"

definition run_root_task :: "run_ctx \<Rightarrow> subtask_spec" where
  "run_root_task cx =
     (root_task (rc_scope cx) (rc_request cx))
       \<lparr>st_limits := \<lparr>al_max_tokens = max_tokens_per_agent (rc_limits cx),
                      al_max_tool_calls = max_tool_calls_per_agent (rc_limits cx),
                      al_timeout_ms = agent_timeout_ms (rc_limits cx)\<rparr>\<rparr>"

text \<open>The tasks the kernel itself adds under the root.\<close>

definition internal_task ::
  "run_ctx \<Rightarrow> ustr \<Rightarrow> agent_role \<Rightarrow> ustr \<Rightarrow> artifact_kind \<Rightarrow> capability list \<Rightarrow> subtask_spec" where
  "internal_task cx task_id role objective output capabilities =
     \<lparr>st_task_id = task_id,
      st_parent_task_id = Some root_task_id,
      st_spawn_depth = 0,
      st_role = role,
      st_objective = objective,
      st_input_artifact_refs = [],
      st_expected_outputs = [output],
      st_allowed_capabilities = capability_set_from capabilities,
      st_limits = \<lparr>al_max_tokens = max_tokens_per_agent (rc_limits cx), al_max_tool_calls = 0,
                   al_timeout_ms = agent_timeout_ms (rc_limits cx)\<rparr>\<rparr>"

section \<open>Requests\<close>

text \<open>What the root leader is sent: the client's messages, tools and results.\<close>

definition root_request ::
  "run_ctx \<Rightarrow> subtask_spec \<Rightarrow> ustr \<Rightarrow> agent_artifact list \<Rightarrow> provider_request" where
  "root_request cx task input_text artifacts =
     (let r = rc_request cx
      in \<lparr>pr_scope = rc_scope cx,
          pr_task = task,
          pr_model = nr_model r,
          pr_system_instructions = rc_system cx,
          pr_thinking_enabled = nr_thinking_enabled r,
          pr_thinking_format = nr_thinking_format r,
          pr_input_text = input_text,
          pr_messages = nr_messages r,
          pr_media_artifacts = nr_media_artifacts r,
          pr_artifacts = artifacts,
          pr_tools = nr_tools r,
          pr_tool_choice = nr_tool_choice r,
          pr_parallel_tool_calls = nr_parallel_tool_calls r,
          pr_tool_results = nr_tool_results r,
          pr_provider_options = nr_provider_options r\<rparr>)"

text \<open>What every other agent is sent: no messages, no tools, no results.\<close>

definition internal_request ::
  "run_ctx \<Rightarrow> subtask_spec \<Rightarrow> ustr \<Rightarrow> agent_artifact list \<Rightarrow> json \<Rightarrow> provider_request" where
  "internal_request cx task input_text artifacts options =
     (let r = rc_request cx
      in \<lparr>pr_scope = rc_scope cx,
          pr_task = task,
          pr_model = nr_model r,
          pr_system_instructions = rc_system cx,
          pr_thinking_enabled = nr_thinking_enabled r,
          pr_thinking_format = nr_thinking_format r,
          pr_input_text = input_text,
          pr_messages = [],
          pr_media_artifacts = nr_media_artifacts r,
          pr_artifacts = artifacts,
          pr_tools = [],
          pr_tool_choice = ToolNone,
          pr_parallel_tool_calls = None,
          pr_tool_results = [],
          pr_provider_options = options\<rparr>)"

section \<open>The root\<close>

text \<open>One call of the root leader; its texts go to the list the stage names.\<close>

definition root_call ::
  "'w kernel_env \<Rightarrow> run_ctx \<Rightarrow> subtask_spec \<Rightarrow> ustr \<Rightarrow> agent_artifact list \<Rightarrow> agent_artifact list
     \<Rightarrow> ('w, agent_artifact list) kern" where
  "root_call env cx task input_text artifacts texts =
     kbind (agent_call env (\<lambda>r. r) (root_request cx task input_text artifacts)) (\<lambda>response.
     kapply env (rc_policy cx) (rc_scope cx) task response texts)"

definition root_call_into_texts :: "'w kernel_env \<Rightarrow> run_ctx \<Rightarrow> ('w, unit) kern" where
  "root_call_into_texts env cx =
     kbind (kread rs_texts) (\<lambda>texts.
     kbind (root_call env cx (run_root_task cx) (flatten_text (rc_request cx)) [] texts) (\<lambda>texts'.
     kmodify (\<lambda>s. s\<lparr>rs_texts := texts'\<rparr>)))"

definition run_direct :: "'w kernel_env \<Rightarrow> run_ctx \<Rightarrow> ('w, unit) kern" where
  "run_direct env cx = root_call_into_texts env cx"

definition root_unresolved :: "run_ctx \<Rightarrow> 'w run_state \<Rightarrow> tool_call_record list" where
  "root_unresolved cx s =
     unresolved_calls_for_task (ks_ledger (rs_stores s)) (rc_scope cx) root_task_id"

definition graph_has_children :: "'w run_state \<Rightarrow> bool" where
  "graph_has_children s \<longleftrightarrow> child_tasks (ks_graph (rs_stores s)) \<noteq> []"

text \<open>The gate: the texts of the root's first answer, kept aside.\<close>

definition run_tool_gate :: "'w kernel_env \<Rightarrow> run_ctx \<Rightarrow> ('w, agent_artifact list) kern" where
  "run_tool_gate env cx =
     (if should_run_root_tool_gate (rc_request cx)
         \<and> \<not> should_use_model_orchestration (rc_request cx) (rc_policy cx)
      then root_call env cx (run_root_task cx) (flatten_text (rc_request cx)) [] []
      else kret [])"

definition run_root_fallback ::
  "'w kernel_env \<Rightarrow> run_ctx \<Rightarrow> agent_artifact list \<Rightarrow> ('w, unit) kern" where
  "run_root_fallback env cx preface =
     (if preface = [] then root_call_into_texts env cx
      else kmodify (\<lambda>s. s\<lparr>rs_texts := rs_texts s @ preface\<rparr>))"

section \<open>The planner\<close>

definition planner_call ::
  "'w kernel_env \<Rightarrow> run_ctx \<Rightarrow> subtask_spec \<Rightarrow> ustr \<Rightarrow> ('w, provider_response) kern" where
  "planner_call env cx task input_text =
     agent_call env (normalize_over_target_orchestration_plans (rc_policy cx))
       (internal_request cx task input_text [] (rc_planner_options cx))"

text \<open>The repair loop; \<open>attempts\<close> is \<^verbatim>\<open>repair_attempts\<close>.\<close>

function planner_repairs ::
  "'w kernel_env \<Rightarrow> run_ctx \<Rightarrow> nat \<Rightarrow> provider_response \<Rightarrow> ('w, provider_response) kern" where
  "planner_repairs env cx attempts response =
     (if should_repair_orchestration_plan (planner_coverage_of response) (rc_policy cx)
         \<and> attempts < max_orchestration_repair_attempts
      then kbind (planner_call env cx
                    (orchestration_planner_repair_task root_task_id (rc_policy cx))
                    (orchestration_planner_repair_input env (rc_request cx) (rc_policy cx)
                       response (attempts + 1)))
             (planner_repairs env cx (attempts + 1))
      else kret response)"
  by pat_completeness auto
termination
  by (relation "measure (\<lambda>(env, cx, attempts, response). max_orchestration_repair_attempts - attempts)") auto

declare planner_repairs.simps [simp del]

definition reconciled_issue :: "nat \<Rightarrow> verification_issue" where
  "reconciled_issue added =
     \<lparr>vi_code = str ''orchestration_plan_reconciled'',
      vi_message =
        str ''model remained below the configured child-agent count after ''
        @ show_nat max_orchestration_repair_attempts @ str '' repairs; added '' @ show_nat added
        @ str '' bounded independent cross-check agent(s) from model-selected objectives''\<rparr>"

definition missing_plan_issue :: verification_issue where
  "missing_plan_issue =
     \<lparr>vi_code = str ''missing_model_spawn_plan'',
      vi_message = str ''model orchestration did not return a valid structured spawn_plan''\<rparr>"

definition refused_plan_error :: "kernel_policy \<Rightarrow> reasoning_effort \<Rightarrow> nat \<Rightarrow> kernel_error" where
  "refused_plan_error policy effort count =
     ProviderRejected
       (str ''model orchestration returned '' @ show_nat count
        @ str '' child agent(s); reasoning effort '' @ reasoning_effort_name effort
        @ str '' requires exactly '' @ show_nat (policy_max_agents policy)
        @ str '' child agent(s); refusing root-only fallback'')"

text \<open>After the repairs: reconcile a plan that is still short, refuse one that still is.\<close>

definition settle_plan ::
  "kernel_policy \<Rightarrow> reasoning_effort \<Rightarrow> provider_response
     \<Rightarrow> kernel_error + (provider_response \<times> verification_issue option)" where
  "settle_plan policy effort response =
     (let (response', added) =
            (if should_repair_orchestration_plan (planner_coverage_of response) policy
             then reconcile_under_target_orchestration_plan policy response else (response, 0));
          coverage = planner_coverage_of (if 0 < added then response' else response);
          issue = (if 0 < added then Some (reconciled_issue added) else None)
      in if should_repair_orchestration_plan coverage policy
         then Inl (refused_plan_error policy effort (pc_child_count coverage))
         else Inr (response', issue))"

definition run_planner :: "'w kernel_env \<Rightarrow> run_ctx \<Rightarrow> ('w, verification_issue option) kern" where
  "run_planner env cx =
     kbind (planner_call env cx (orchestration_planner_task root_task_id (rc_policy cx))
              (orchestration_planner_input env (rc_request cx) (rc_policy cx))) (\<lambda>first.
     kbind (planner_repairs env cx 0 first) (\<lambda>response.
     kbind (klift (settle_plan (rc_policy cx) (nr_reasoning_effort (rc_request cx)) response))
       (\<lambda>(settled, issue).
     kbind (kapply_plans (rc_policy cx) (rc_scope cx) settled) (\<lambda>plan_seen.
     kret (if \<not> plan_seen then Some missing_plan_issue else issue)))))"

text \<open>The branch for every effort but none.\<close>

definition run_orchestrated :: "'w kernel_env \<Rightarrow> run_ctx \<Rightarrow> ('w, verification_issue option) kern" where
  "run_orchestrated env cx =
     kbind (run_tool_gate env cx) (\<lambda>preface.
     kbind (kread (\<lambda>s. root_unresolved cx s \<noteq> [])) (\<lambda>root_has_unresolved_tools.
     kbind (kread graph_has_children) (\<lambda>has_children.
     kbind (if \<not> root_has_unresolved_tools \<and> \<not> has_children
               \<and> should_use_model_orchestration (rc_request cx) (rc_policy cx)
            then run_planner env cx else kret None) (\<lambda>planning_issue.
     kbind (kread graph_has_children) (\<lambda>has_children'.
     kbind (if \<not> root_has_unresolved_tools \<and> \<not> has_children'
            then run_root_fallback env cx preface else kret ()) (\<lambda>_.
     kret planning_issue))))))"

end
