(* ===== verification/Kernel_Children.thy ===== *)
theory Kernel_Children
  imports Kernel_Stages
begin

text \<open>
  The child agents of a run: their requests, the bounded concurrent fan-out
  (\<^verbatim>\<open>buffer_unordered\<close>) as a step relation and as a schedule, the sealing of their state and the
  application of their answers in task order.
\<close>

section \<open>The fan-out\<close>

text \<open>
  The state of \<^verbatim>\<open>buffer_unordered(limit)\<close> over \<open>n\<close> futures: the next one to start, the ones in
  flight, the completed ones in completion order. The buffer starts futures in order while there
  is room, and any future in flight may complete next.
\<close>

record fan_state =
  fan_next :: nat
  fan_flight :: "nat list"
  fan_done :: "nat list"

definition fan_init :: fan_state where
  "fan_init = \<lparr>fan_next = 0, fan_flight = [], fan_done = []\<rparr>"

inductive fan_step :: "nat \<Rightarrow> nat \<Rightarrow> fan_state \<Rightarrow> fan_state \<Rightarrow> bool" for limit n where
  Start: "fan_next s < n \<Longrightarrow> length (fan_flight s) < limit \<Longrightarrow>
    fan_step limit n s (s\<lparr>fan_next := Suc (fan_next s), fan_flight := fan_flight s @ [fan_next s]\<rparr>)"
| Complete: "i \<in> set (fan_flight s) \<Longrightarrow>
    fan_step limit n s (s\<lparr>fan_flight := remove1 i (fan_flight s), fan_done := fan_done s @ [i]\<rparr>)"

inductive_cases fan_stepE: "fan_step limit n s s'"

abbreviation fan_reachable :: "nat \<Rightarrow> nat \<Rightarrow> fan_state \<Rightarrow> bool" where
  "fan_reachable limit n s \<equiv> (fan_step limit n)\<^sup>*\<^sup>* fan_init s"

definition fan_finished :: "nat \<Rightarrow> fan_state \<Rightarrow> bool" where
  "fan_finished n s \<longleftrightarrow> fan_next s = n \<and> fan_flight s = []"

text \<open>Which completion orders are possible, as a check over the list.\<close>

definition feasible_order :: "nat \<Rightarrow> nat \<Rightarrow> nat list \<Rightarrow> bool" where
  "feasible_order limit n order \<longleftrightarrow>
     distinct order \<and> set order = {0..<n} \<and> (\<forall>k < length order. order ! k < k + limit)"

definition fan_inv :: "nat \<Rightarrow> nat \<Rightarrow> fan_state \<Rightarrow> bool" where
  "fan_inv limit n s \<longleftrightarrow>
     fan_next s \<le> n
     \<and> length (fan_flight s) \<le> limit
     \<and> distinct (fan_flight s @ fan_done s)
     \<and> set (fan_flight s @ fan_done s) = {0..<fan_next s}
     \<and> (\<forall>k < length (fan_done s). fan_done s ! k < k + limit)"

lemma fan_inv_init: "fan_inv limit n fan_init"
  by (simp add: fan_inv_def fan_init_def)

lemma fan_inv_counts:
  assumes "fan_inv limit n s"
  shows "length (fan_flight s) + length (fan_done s) = fan_next s"
proof -
  have "card (set (fan_flight s @ fan_done s)) = length (fan_flight s @ fan_done s)"
    using assms distinct_card unfolding fan_inv_def by blast
  moreover have "card (set (fan_flight s @ fan_done s)) = fan_next s"
    using assms unfolding fan_inv_def by simp
  ultimately show ?thesis by simp
qed

lemma fan_inv_step:
  assumes "fan_step limit n s s'" and "fan_inv limit n s"
  shows "fan_inv limit n s'"
  using assms(1)
proof cases
  case Start
  with assms(2) show ?thesis by (auto simp: fan_inv_def)
next
  case (Complete i)
  have "i < length (fan_done s) + limit"
  proof -
    have "i \<in> {0..<fan_next s}"
      using assms(2) Complete(2) unfolding fan_inv_def by auto
    moreover have "length (fan_flight s) \<le> limit"
      using assms(2) by (simp add: fan_inv_def)
    ultimately show ?thesis
      using fan_inv_counts [OF assms(2)] by auto
  qed
  with assms(2) Complete show ?thesis
    by (auto simp: fan_inv_def nth_append length_remove1 less_Suc_eq)
qed

lemma fan_inv_reachable: "fan_reachable limit n s \<Longrightarrow> fan_inv limit n s"
  by (induction rule: rtranclp_induct) (auto intro: fan_inv_init fan_inv_step)

lemma fan_finished_feasible:
  assumes "fan_reachable limit n s" and "fan_finished n s"
  shows "feasible_order limit n (fan_done s)"
  using fan_inv_reachable [OF assms(1)] assms(2)
  by (simp add: fan_inv_def fan_finished_def feasible_order_def)

text \<open>Conversely every feasible order is one the buffer can produce.\<close>

lemma fan_start_many:
  assumes "fan_next s + k \<le> n" and "length (fan_flight s) + k \<le> limit"
  shows "(fan_step limit n)\<^sup>*\<^sup>* s
    (s\<lparr>fan_next := fan_next s + k, fan_flight := fan_flight s @ [fan_next s..<fan_next s + k]\<rparr>)"
  using assms
proof (induction k)
  case 0
  then show ?case by simp
next
  case (Suc k)
  let ?s = "s\<lparr>fan_next := fan_next s + k, fan_flight := fan_flight s @ [fan_next s..<fan_next s + k]\<rparr>"
  have "fan_step limit n ?s
      (?s\<lparr>fan_next := Suc (fan_next ?s), fan_flight := fan_flight ?s @ [fan_next ?s]\<rparr>)"
    by (rule fan_step.Start) (use Suc.prems in simp_all)
  with Suc show ?case by (simp add: rtranclp.rtrancl_into_rtrancl)
qed

text \<open>Started as far as the limit allows, after \<open>k\<close> completions.\<close>

definition fan_at :: "nat \<Rightarrow> nat \<Rightarrow> nat list \<Rightarrow> nat \<Rightarrow> fan_state \<Rightarrow> bool" where
  "fan_at limit n order k s \<longleftrightarrow>
     fan_reachable limit n s \<and> fan_done s = take k order \<and> fan_next s = min n (k + limit)"

lemma feasible_reachable:
  assumes "feasible_order limit n order" and "k \<le> length order"
  shows "\<exists>s. fan_at limit n order k s"
  using assms(2)
proof (induction k)
  case 0
  show ?case
    using fan_start_many [of fan_init "min n limit" n limit]
    by (auto simp: fan_at_def fan_init_def)
next
  case (Suc k)
  then obtain s where s: "fan_reachable limit n s" "fan_done s = take k order"
      "fan_next s = min n (k + limit)"
    by (auto simp: fan_at_def)
  have inv: "fan_inv limit n s"
    using s(1) by (rule fan_inv_reachable)
  let ?i = "order ! k"
  have "?i < min n (k + limit)"
    using assms(1) Suc.prems nth_mem [of k order] by (auto simp: feasible_order_def)
  moreover have "?i \<notin> set (fan_done s)"
    using assms(1) Suc.prems s(2)
    by (auto simp: feasible_order_def in_set_conv_nth nth_eq_iff_index_eq)
  ultimately have i: "?i \<in> set (fan_flight s)"
    using inv s(3) by (auto simp: fan_inv_def)
  let ?s1 = "s\<lparr>fan_flight := remove1 ?i (fan_flight s), fan_done := fan_done s @ [?i]\<rparr>"
  have step: "fan_step limit n s ?s1"
    using i by (rule fan_step.Complete)
  then have reach1: "fan_reachable limit n ?s1"
    using s(1) by auto
  let ?m = "min n (Suc k + limit) - fan_next s"
  have counts: "length (fan_flight ?s1) + Suc k = fan_next s"
    using fan_inv_counts [OF fan_inv_reachable [OF reach1]] s(2) Suc.prems by simp
  have "(fan_step limit n)\<^sup>*\<^sup>* ?s1
      (?s1\<lparr>fan_next := fan_next ?s1 + ?m,
           fan_flight := fan_flight ?s1 @ [fan_next ?s1..<fan_next ?s1 + ?m]\<rparr>)"
    by (rule fan_start_many) (use s(3) counts in \<open>simp_all del: length_remove1\<close>)
  with reach1 have "fan_reachable limit n
      (?s1\<lparr>fan_next := fan_next ?s1 + ?m,
           fan_flight := fan_flight ?s1 @ [fan_next ?s1..<fan_next ?s1 + ?m]\<rparr>)"
    by (rule rtranclp_trans)
  then show ?case
    using s(2,3) Suc.prems
    by (intro exI) (auto simp: fan_at_def take_Suc_conv_app_nth)
qed

lemma feasible_order_iff:
  "feasible_order limit n order \<longleftrightarrow>
     (\<exists>s. fan_reachable limit n s \<and> fan_finished n s \<and> fan_done s = order)"
proof
  assume feas: "feasible_order limit n order"
  then have len: "length order = n"
    by (metis card_atLeastLessThan diff_zero distinct_card feasible_order_def)
  then obtain s where s: "fan_reachable limit n s" "fan_done s = order" "fan_next s = n"
    using feasible_reachable [OF feas, of n] by (auto simp: fan_at_def)
  then have "fan_flight s = []"
    using fan_inv_counts [OF fan_inv_reachable [OF s(1)]] len by simp
  with s show "\<exists>s. fan_reachable limit n s \<and> fan_finished n s \<and> fan_done s = order"
    by (auto simp: fan_finished_def)
qed (auto dest: fan_finished_feasible)

subsection \<open>The executor as a function\<close>

text \<open>
  The same buffer driven by the choices of the executor: fill it, let one future complete, and so
  on for \<open>n\<close> completions.
\<close>

definition fan_fill :: "nat \<Rightarrow> nat \<Rightarrow> fan_state \<Rightarrow> fan_state" where
  "fan_fill limit n s =
     (let m = min (n - fan_next s) (limit - length (fan_flight s))
      in s\<lparr>fan_next := fan_next s + m, fan_flight := fan_flight s @ [fan_next s..<fan_next s + m]\<rparr>)"

definition fan_complete :: "nat \<Rightarrow> fan_state \<Rightarrow> fan_state" where
  "fan_complete i s = s\<lparr>fan_flight := remove1 i (fan_flight s), fan_done := fan_done s @ [i]\<rparr>"

definition fan_advance :: "nat \<Rightarrow> nat \<Rightarrow> (nat \<Rightarrow> nat) \<Rightarrow> fan_state \<Rightarrow> fan_state" where
  "fan_advance limit n pick s =
     (let s1 = fan_fill limit n s; flight = fan_flight s1
      in if flight = [] then s1
         else fan_complete (flight ! (pick (length (fan_done s1)) mod length flight)) s1)"

definition completion_order :: "nat \<Rightarrow> nat \<Rightarrow> (nat \<Rightarrow> nat) \<Rightarrow> nat list" where
  "completion_order limit n pick = fan_done ((fan_advance limit n pick ^^ n) fan_init)"

lemma fan_fill_reachable: "fan_inv limit n s \<Longrightarrow> (fan_step limit n)\<^sup>*\<^sup>* s (fan_fill limit n s)"
  unfolding fan_fill_def Let_def by (rule fan_start_many) (auto simp: fan_inv_def)

lemma fan_advance_reachable:
  assumes "fan_reachable limit n s"
  shows "fan_reachable limit n (fan_advance limit n pick s)"
proof -
  let ?s1 = "fan_fill limit n s"
  have "fan_reachable limit n ?s1"
    using assms fan_fill_reachable [OF fan_inv_reachable [OF assms]] by (rule rtranclp_trans)
  moreover have "fan_step limit n ?s1 (fan_complete i ?s1)" if "i \<in> set (fan_flight ?s1)" for i
    unfolding fan_complete_def using that by (rule fan_step.Complete)
  ultimately show ?thesis
    by (auto simp: fan_advance_def Let_def intro: rtranclp.rtrancl_into_rtrancl)
qed

lemma fan_advances_reachable: "fan_reachable limit n ((fan_advance limit n pick ^^ k) fan_init)"
  by (induction k) (auto intro: fan_advance_reachable)

lemma fan_fill_flight:
  assumes "fan_inv limit n s" and "0 < limit" and "length (fan_done s) < n"
  shows "fan_flight (fan_fill limit n s) \<noteq> []"
proof (cases "fan_flight s")
  case Nil
  then have "fan_next s < n"
    using fan_inv_counts [OF assms(1)] assms(3) by simp
  with Nil assms(2) show ?thesis by (simp add: fan_fill_def Let_def)
qed (simp add: fan_fill_def Let_def)

lemma fan_advance_done:
  "fan_flight (fan_fill limit n s) \<noteq> [] \<Longrightarrow>
   length (fan_done (fan_advance limit n pick s)) = Suc (length (fan_done s))"
  by (simp add: fan_advance_def fan_complete_def Let_def) (simp add: fan_fill_def Let_def)

lemma fan_advances_done:
  assumes "0 < limit" and "k \<le> n"
  shows "length (fan_done ((fan_advance limit n pick ^^ k) fan_init)) = k"
  using assms(2)
proof (induction k)
  case 0
  then show ?case by (simp add: fan_init_def)
next
  case (Suc k)
  let ?s = "(fan_advance limit n pick ^^ k) fan_init"
  have "fan_flight (fan_fill limit n ?s) \<noteq> []"
    using Suc assms(1) by (intro fan_fill_flight fan_inv_reachable fan_advances_reachable) simp_all
  then show ?case
    using Suc by (simp add: fan_advance_done)
qed

lemma completion_order_feasible:
  assumes "0 < limit"
  shows "feasible_order limit n (completion_order limit n pick)"
proof -
  let ?s = "(fan_advance limit n pick ^^ n) fan_init"
  have reach: "fan_reachable limit n ?s"
    by (rule fan_advances_reachable)
  then have inv: "fan_inv limit n ?s"
    by (rule fan_inv_reachable)
  have "length (fan_done ?s) = n"
    using assms by (simp add: fan_advances_done)
  with fan_inv_counts [OF inv] inv have "fan_finished n ?s"
    unfolding fan_finished_def fan_inv_def by (metis add_leD2 le_antisym le_add2 add_0 add_right_cancel length_0_conv)
  then show ?thesis
    unfolding completion_order_def using reach by (intro fan_finished_feasible)
qed

text \<open>Conversely some executor produces every feasible order.\<close>

lemma fan_fill_next:
  assumes "fan_inv limit n s"
  shows "fan_next (fan_fill limit n s) = min n (length (fan_done s) + limit)"
proof -
  have "length (fan_flight s) + length (fan_done s) = fan_next s"
    using assms by (rule fan_inv_counts)
  moreover have "fan_next s \<le> n" "length (fan_flight s) \<le> limit"
    using assms by (simp_all add: fan_inv_def)
  ultimately show ?thesis by (simp add: fan_fill_def Let_def)
qed

lemma fan_fill_done [simp]: "fan_done (fan_fill limit n s) = fan_done s"
  by (simp add: fan_fill_def Let_def)

lemma fan_advance_pick:
  assumes feas: "feasible_order limit n order" and inv: "fan_inv limit n s"
    and k: "k < length order" "fan_done s = take k order"
  obtains c where "\<And>pick. pick k = c \<Longrightarrow> fan_done (fan_advance limit n pick s) = take (Suc k) order"
proof -
  let ?s1 = "fan_fill limit n s"
  have inv1: "fan_inv limit n ?s1"
    using fan_fill_reachable [OF inv] inv by (induction rule: rtranclp_induct) (auto intro: fan_inv_step)
  have "order ! k < min n (k + limit)"
    using feas k nth_mem [of k order] by (auto simp: feasible_order_def)
  moreover have "order ! k \<notin> set (fan_done ?s1)"
    using feas k by (auto simp: feasible_order_def in_set_conv_nth nth_eq_iff_index_eq)
  ultimately have "order ! k \<in> set (fan_flight ?s1)"
    using inv1 fan_fill_next [OF inv] k by (auto simp: fan_inv_def)
  then obtain c where c: "c < length (fan_flight ?s1)" "fan_flight ?s1 ! c = order ! k"
    by (auto simp: in_set_conv_nth)
  show ?thesis
  proof (rule that [of c])
    fix pick :: "nat \<Rightarrow> nat" assume "pick k = c"
    moreover have "length (fan_done ?s1) = k" using k by simp
    ultimately have "fan_done (fan_advance limit n pick s) = fan_done s @ [order ! k]"
      using c by (auto simp: fan_advance_def fan_complete_def Let_def)
    then show "fan_done (fan_advance limit n pick s) = take (Suc k) order"
      using k by (simp add: take_Suc_conv_app_nth)
  qed
qed

lemma fan_advance_cong:
  "pick (length (fan_done s)) = pick' (length (fan_done s)) \<Longrightarrow>
   fan_advance limit n pick s = fan_advance limit n pick' s"
  by (simp add: fan_advance_def Let_def)

lemma fan_advances_cong:
  assumes "0 < limit" and "k \<le> n" and "\<forall>j < k. pick j = pick' j"
  shows "(fan_advance limit n pick ^^ k) fan_init = (fan_advance limit n pick' ^^ k) fan_init"
  using assms(2,3)
proof (induction k)
  case (Suc k)
  let ?s = "(fan_advance limit n pick' ^^ k) fan_init"
  have "pick (length (fan_done ?s)) = pick' (length (fan_done ?s))"
    using Suc.prems by (simp add: fan_advances_done [OF assms(1)])
  then have "fan_advance limit n pick ?s = fan_advance limit n pick' ?s"
    by (rule fan_advance_cong)
  with Suc show ?case by simp
qed simp

lemma feasible_pick:
  assumes feas: "feasible_order limit n order" and "0 < limit" and "k \<le> n" and "length order = n"
  shows "\<exists>pick. fan_done ((fan_advance limit n pick ^^ k) fan_init) = take k order"
  using assms(3)
proof (induction k)
  case 0
  then show ?case by (simp add: fan_init_def)
next
  case (Suc k)
  then obtain pick where pick: "fan_done ((fan_advance limit n pick ^^ k) fan_init) = take k order"
    by auto
  let ?s = "(fan_advance limit n pick ^^ k) fan_init"
  have "fan_inv limit n ?s"
    by (rule fan_inv_reachable) (rule fan_advances_reachable)
  then obtain c where c: "\<And>pick. pick k = c \<Longrightarrow> fan_done (fan_advance limit n pick ?s) = take (Suc k) order"
    using fan_advance_pick [OF feas _ _ pick] Suc.prems assms(4) by auto
  let ?pick = "pick(k := c)"
  have "(fan_advance limit n ?pick ^^ k) fan_init = ?s"
    by (rule fan_advances_cong) (use assms(2) Suc.prems in auto)
  then show ?case
    using c [of ?pick] by (intro exI [of _ ?pick]) (simp only: funpow.simps comp_apply fun_upd_same)
qed

lemma completion_order_complete:
  assumes "feasible_order limit n order" and "0 < limit"
  shows "\<exists>pick. completion_order limit n pick = order"
proof -
  have "length order = n"
    using assms(1) distinct_card [of order] by (simp add: feasible_order_def)
  with feasible_pick [OF assms, of n] show ?thesis
    by (auto simp: completion_order_def)
qed

lemma set_completion_order [simp]: "0 < limit \<Longrightarrow> set (completion_order limit n pick) = {0..<n}"
  using completion_order_feasible [of limit n pick] by (simp add: feasible_order_def)

lemma distinct_completion_order [simp]: "0 < limit \<Longrightarrow> distinct (completion_order limit n pick)"
  using completion_order_feasible [of limit n pick] by (simp add: feasible_order_def)

lemma length_completion_order [simp]: "0 < limit \<Longrightarrow> length (completion_order limit n pick) = n"
  by (simp add: completion_order_def fan_advances_done)

section \<open>The calls of the children\<close>

text \<open>The calls in completion order, each with its index.\<close>

fun run_schedule ::
  "'w kernel_env \<Rightarrow> provider_request list \<Rightarrow> nat list \<Rightarrow> 'w
     \<Rightarrow> (kernel_error + nat \<times> provider_response) list \<times> 'w" where
  "run_schedule env reqs [] w = ([], w)"
| "run_schedule env reqs (i # is) w =
     (case invoke_on env (reqs ! i) w of
        (r, w') \<Rightarrow>
          (case run_schedule env reqs is w' of
             (rs, w'') \<Rightarrow> ((case r of Inl e \<Rightarrow> Inl e | Inr x \<Rightarrow> Inr (i, x)) # rs, w'')))"

text \<open>\<^verbatim>\<open>collect::<Result<Vec<_>, _>>\<close>: the first error, or all the values.\<close>

fun collect_results :: "('e + 'a) list \<Rightarrow> 'e + 'a list" where
  "collect_results [] = Inr []"
| "collect_results (Inl e # rs) = Inl e"
| "collect_results (Inr x # rs) = ebind (collect_results rs) (\<lambda>xs. Inr (x # xs))"

definition fan_out ::
  "'w kernel_env \<Rightarrow> nat \<Rightarrow> provider_request list \<Rightarrow> ('w, (nat \<times> provider_response) list) kern" where
  "fan_out env limit reqs s =
     (case run_schedule env reqs (completion_order limit (length reqs) (ke_pick env (rs_world s)))
             (rs_world s) of
        (results, w') \<Rightarrow>
          (ebind (collect_results results) (\<lambda>xs. Inr (sort_key fst xs)), s\<lparr>rs_world := w'\<rparr>))"

section \<open>Requests, sealing and answers of the children\<close>

definition child_request :: "'w kernel_env \<Rightarrow> run_ctx \<Rightarrow> artifact_store \<Rightarrow> subtask_spec \<Rightarrow> provider_request" where
  "child_request env cx store task0 =
     (let task = task0\<lparr>st_limits := (st_limits task0)\<lparr>al_timeout_ms := agent_timeout_ms (rc_limits cx)\<rparr>\<rparr>;
          artifacts = filter_map (\<lambda>r. store_get store (ar_scope r) (ar_artifact_id r))
                        (st_input_artifact_refs task)
      in internal_request cx task (child_agent_input env (rc_request cx) task) artifacts
           (rc_internal_options cx))"

definition parallel_limit :: "run_ctx \<Rightarrow> nat" where
  "parallel_limit cx = unat (max (max_parallel_agents (rc_limits cx)) 1)"

lemma parallel_limit_pos [simp]: "0 < parallel_limit cx"
proof -
  have "(1 :: u16) \<le> max (max_parallel_agents (rc_limits cx)) 1" by simp
  then have "unat (1 :: u16) \<le> parallel_limit cx"
    unfolding parallel_limit_def word_le_nat_alt .
  then show ?thesis by simp
qed

definition state_aad :: "isolation_key \<Rightarrow> subtask_spec \<Rightarrow> ustr" where
  "state_aad scope task =
     ik_request scope @ str '':'' @ ik_conversation scope @ str '':'' @ st_task_id task"

definition seal_subagent_state ::
  "'w kernel_env \<Rightarrow> isolation_key \<Rightarrow> subtask_spec \<Rightarrow> provider_response \<Rightarrow> ('w, encrypted_agent_state) kern" where
  "seal_subagent_state env scope task response s =
     (let plaintext = ke_state_text env scope task response;
          aad = state_aad scope task
      in case ke_nonce env (rs_world s) of
           (w', nonce_bytes) \<Rightarrow>
             (case ke_encrypt env nonce_bytes plaintext aad of
                None \<Rightarrow> (Inl EncryptionFailed, s\<lparr>rs_world := w'\<rparr>)
              | Some ciphertext \<Rightarrow>
                  (Inr \<lparr>es_task_id = st_task_id task, es_algorithm = str ''AES-256-GCM'',
                        es_nonce = ke_hex env nonce_bytes, es_ciphertext = ke_hex env ciphertext,
                        es_aad = aad\<rparr>,
                   s\<lparr>rs_world := w'\<rparr>)))"

definition absorb_child ::
  "'w kernel_env \<Rightarrow> run_ctx \<Rightarrow> provider_request \<Rightarrow> provider_response \<Rightarrow> ('w, unit) kern" where
  "absorb_child env cx req response =
     kbind (kaccount response) (\<lambda>_.
     kbind (ktrace [trace_agent_input (pr_task req) (pr_input_text req)]) (\<lambda>_.
     kbind (ktrace (trace_events_from_response (pr_task req) response)) (\<lambda>_.
     kbind (seal_subagent_state env (rc_scope cx) (pr_task req) response) (\<lambda>sealed.
     kbind (kmodify (\<lambda>s. s\<lparr>rs_sealed := rs_sealed s @ [sealed]\<rparr>)) (\<lambda>_.
     kbind (kread rs_texts) (\<lambda>texts.
     kbind (kapply env (rc_policy cx) (rc_scope cx) (pr_task req) response texts) (\<lambda>texts'.
     kmodify (\<lambda>s. s\<lparr>rs_texts := texts'\<rparr>))))))))"

fun absorb_children ::
  "'w kernel_env \<Rightarrow> run_ctx \<Rightarrow> provider_request list \<Rightarrow> (nat \<times> provider_response) list \<Rightarrow> ('w, unit) kern" where
  "absorb_children env cx reqs [] = kret ()"
| "absorb_children env cx reqs ((i, response) # rest) =
     kbind (absorb_child env cx (reqs ! i) response) (\<lambda>_. absorb_children env cx reqs rest)"

text \<open>The children's stage; its value is whether there were any.\<close>

definition child_requests :: "'w kernel_env \<Rightarrow> run_ctx \<Rightarrow> 'w run_state \<Rightarrow> provider_request list" where
  "child_requests env cx s =
     map (child_request env cx (ks_store (rs_stores s))) (child_tasks (ks_graph (rs_stores s)))"

definition run_children :: "'w kernel_env \<Rightarrow> run_ctx \<Rightarrow> ('w, bool) kern" where
  "run_children env cx =
     kbind (kread (child_requests env cx)) (\<lambda>reqs.
     kbind (fan_out env (parallel_limit cx) reqs) (\<lambda>results.
     kbind (absorb_children env cx reqs results) (\<lambda>_.
     kret (reqs \<noteq> []))))"

section \<open>Lemmas on the results\<close>

lemma length_run_schedule: "length (fst (run_schedule env reqs is w)) = length is"
  by (induction "is" arbitrary: w) (auto split: prod.splits, metis fst_conv)

lemma collect_results_Inr: "collect_results rs = Inr xs \<longleftrightarrow> rs = map Inr xs"
proof (induction rs arbitrary: xs)
  case (Cons r rs)
  then show ?case by (cases r; cases xs) (auto simp: ebind_Inr_iff)
qed auto

lemma collect_results_Inl:
  "collect_results rs = Inl e \<longleftrightarrow> (\<exists>xs rest. rs = map Inr xs @ Inl e # rest)"
proof (induction rs)
  case (Cons r rs)
  show ?case
  proof (cases r)
    case (Inl e')
    then show ?thesis by (auto simp: Cons_eq_append_conv map_eq_Cons_conv)
  next
    case (Inr x)
    then show ?thesis
      by (auto simp: ebind_Inl_iff Cons.IH Cons_eq_append_conv map_eq_Cons_conv)
        (metis list.simps(9) append_Cons)+
  qed
qed auto

end
