(* ===== verification/Kernel_Finish.thy ===== *)
theory Kernel_Finish
  imports Kernel_Children
begin

text \<open>
  The closing stages of a run: the continuation of the root after its workers, the reasoning
  summary, the synthesis with its retries, the semantic verification loop and the report.
\<close>

section \<open>Continuation and summary\<close>

definition continuation_task :: "run_ctx \<Rightarrow> subtask_spec" where
  "continuation_task cx =
     (run_root_task cx)\<lparr>st_objective :=
        str ''continue root-visible tool execution from worker findings, or produce a final answer only when complete''\<rparr>"

text \<open>The texts of the continuation, kept aside; none when the stage does not run.\<close>

definition run_continuation :: "'w kernel_env \<Rightarrow> run_ctx \<Rightarrow> bool \<Rightarrow> ('w, agent_artifact list) kern" where
  "run_continuation env cx has_child_tasks =
     kbind (kread (\<lambda>s. root_unresolved cx s = [])) (\<lambda>resolved.
     if resolved \<and> has_child_tasks \<and> root_tools_available (rc_request cx)
     then kbind (kread rs_texts) (\<lambda>texts.
          root_call env cx (continuation_task cx)
            (root_tool_continuation_input env (rc_request cx) texts) texts [])
     else kret [])"

definition summary_task :: "run_ctx \<Rightarrow> subtask_spec" where
  "summary_task cx =
     internal_task cx (str ''reasoning-summary'') ReasoningSummarizer
       (str ''summarize bounded worker-agent outputs for public reasoning'') KindText [CapText]"

definition run_summary :: "'w kernel_env \<Rightarrow> run_ctx \<Rightarrow> bool \<Rightarrow> ('w, unit) kern" where
  "run_summary env cx has_child_tasks =
     kbind (kread (\<lambda>s. root_unresolved cx s = [])) (\<lambda>resolved.
     if nr_public_reasoning_enabled (rc_request cx) \<and> resolved \<and> has_child_tasks
     then kbind (kgraph (insert_task (summary_task cx))) (\<lambda>_.
          kbind (kread (\<lambda>s. (rs_trace s, rs_texts s))) (\<lambda>(trace, texts).
          kbind (agent_call env (\<lambda>r. r)
                   (internal_request cx (summary_task cx)
                      (reasoning_summary_input (rc_request cx) trace) texts
                      (rc_auxiliary_options cx))) (\<lambda>_.
          kret ())))
     else kret ())"

section \<open>Synthesis\<close>

definition synth_task :: "run_ctx \<Rightarrow> subtask_spec" where
  "synth_task cx =
     internal_task cx (str ''synthesizer'') Synthesizer
       (str ''synthesize a natural final answer for the user'') KindText [CapText]"

definition synth_attempt_task :: "run_ctx \<Rightarrow> nat \<Rightarrow> subtask_spec" where
  "synth_attempt_task cx attempt =
     (if attempt = 0 then synth_task cx
      else (synth_task cx)
        \<lparr>st_task_id := str ''synthesizer-empty-retry-'' @ show_nat attempt,
         st_objective :=
           str ''retry final synthesis after an empty model completion while preserving every user constraint''\<rparr>)"

definition synth_attempt_input :: "ustr \<Rightarrow> nat \<Rightarrow> ustr" where
  "synth_attempt_input base attempt =
     (if attempt = 0 then base else empty_synthesis_retry_input base attempt)"

definition empty_synthesis_error :: "nat \<Rightarrow> kernel_error" where
  "empty_synthesis_error attempts =
     KProvider (InvalidResponse (str ''orchestration_synthesizer'')
       (str ''model returned no final text after '' @ show_nat attempts @ str '' synthesis attempts''))"

definition recovered_issue :: "nat \<Rightarrow> verification_issue" where
  "recovered_issue attempt =
     \<lparr>vi_code = str ''empty_synthesis_recovered'',
      vi_message = str ''final synthesis produced text after '' @ show_nat attempt
        @ str '' bounded empty-completion retry attempt(s) with unchanged model settings''\<rparr>"

text \<open>One pass of the loop: the task goes into the graph (the first one already is), the call is made.\<close>

definition synth_call :: "'w kernel_env \<Rightarrow> run_ctx \<Rightarrow> ustr \<Rightarrow> nat \<Rightarrow> ('w, ustr) kern" where
  "synth_call env cx base attempt =
     kbind (if attempt = 0 then kret () else kgraph (insert_task (synth_attempt_task cx attempt))) (\<lambda>_.
     kbind (agent_call env (\<lambda>r. r)
              (internal_request cx (synth_attempt_task cx attempt) (synth_attempt_input base attempt) []
                 (nr_provider_options (rc_request cx)))) (\<lambda>response.
     kret (synthesize_text (ps_artifacts response))))"

text \<open>The loop; its value is the text and the attempt that produced it.\<close>

function synth_loop :: "'w kernel_env \<Rightarrow> run_ctx \<Rightarrow> ustr \<Rightarrow> nat \<Rightarrow> ('w, ustr \<times> nat) kern" where
  "synth_loop env cx base attempt =
     kbind (synth_call env cx base attempt) (\<lambda>synthesized.
     if \<not> is_blank synthesized then kret (synthesized, attempt)
     else if max_empty_synthesis_retry_attempts \<le> attempt
     then kthrow (empty_synthesis_error (attempt + 1))
     else synth_loop env cx base (attempt + 1))"
  by pat_completeness auto
termination
  by (relation "measure (\<lambda>(env, cx, base, attempt). max_empty_synthesis_retry_attempts - attempt)") auto

declare synth_loop.simps [simp del]

definition run_synthesizer ::
  "'w kernel_env \<Rightarrow> run_ctx \<Rightarrow> ('w, ustr \<times> verification_issue option) kern" where
  "run_synthesizer env cx =
     kbind (kgraph (insert_task (synth_task cx))) (\<lambda>_.
     kbind (kread (\<lambda>s. synthesis_input env (rc_request cx) (rs_texts s))) (\<lambda>base.
     kbind (synth_loop env cx base 0) (\<lambda>(text, attempt).
     kret (text, if 0 < attempt then Some (recovered_issue attempt) else None))))"

definition run_synthesis ::
  "'w kernel_env \<Rightarrow> run_ctx \<Rightarrow> bool \<Rightarrow> agent_artifact list
     \<Rightarrow> ('w, ustr \<times> verification_issue option) kern" where
  "run_synthesis env cx has_child_tasks continuation =
     kbind (kread (\<lambda>s. root_unresolved cx s = [])) (\<lambda>resolved.
     if resolved \<and> continuation \<noteq> [] then kret (synthesize_text continuation, None)
     else if resolved \<and> has_child_tasks then run_synthesizer env cx
     else if resolved then kread (\<lambda>s. (synthesize_text (rs_texts s), None))
     else kret ([], None))"

definition layout_final_text :: "bool \<Rightarrow> ustr \<Rightarrow> ustr" where
  "layout_final_text resolved text =
     (if resolved \<and> \<not> is_blank text then normalize_structured_text_layout text else text)"

section \<open>Semantic verification\<close>

record semantic_result =
  sr_final_text :: ustr
  sr_passed :: bool
  sr_issues :: "verification_issue list"
  sr_covered_artifact_ids :: "ustr list"

definition semantic_verdict_from_response ::
  "'w kernel_env \<Rightarrow> provider_response \<Rightarrow> semantic_verdict option" where
  "semantic_verdict_from_response env response =
     find_map (\<lambda>a.
       (case text_of a of
          None \<Rightarrow> None
        | Some text \<Rightarrow> Option.bind (semantic_json_object_candidate text) (ke_parse_verdict env)))
       (ps_artifacts response)"

definition verifier_task :: "run_ctx \<Rightarrow> u8 \<Rightarrow> subtask_spec" where
  "verifier_task cx attempts =
     internal_task cx (str ''semantic-verifier-'' @ show_nat (unat attempts)) Verifier
       (str ''independently verify the candidate answer against the user request and worker evidence'')
       KindVerification [CapText, CapVerify]"

definition repair_task :: "run_ctx \<Rightarrow> u8 \<Rightarrow> subtask_spec" where
  "repair_task cx attempts =
     internal_task cx (str ''semantic-repair-'' @ show_nat (unat attempts)) Synthesizer
       (str ''repair the candidate answer using bounded verifier feedback and existing evidence'')
       KindText [CapText]"

definition failed_result ::
  "ustr \<Rightarrow> verification_issue list \<Rightarrow> ustr list \<Rightarrow> semantic_result" where
  "failed_result candidate issues covered =
     \<lparr>sr_final_text = candidate, sr_passed = False, sr_issues = issues,
      sr_covered_artifact_ids = covered\<rparr>"

definition verdict_issues :: "semantic_verdict \<Rightarrow> verification_issue list" where
  "verdict_issues verdict =
     (if sd_issues verdict = []
      then [\<lparr>vi_code = str ''semantic_verification_failed'',
             vi_message = str ''semantic verifier rejected the candidate without issue details''\<rparr>]
      else sd_issues verdict)"

text \<open>
  What the verifier's answer leads to: a final result, or the issues it found with the coverage.
\<close>

definition verifier_outcome ::
  "'w kernel_env \<Rightarrow> ustr \<Rightarrow> kernel_error + provider_response
     \<Rightarrow> semantic_result + verification_issue list \<times> ustr list" where
  "verifier_outcome env candidate outcome =
     (case outcome of
        Inl e \<Rightarrow> Inl (failed_result candidate
          [\<lparr>vi_code = str ''semantic_verifier_error'', vi_message = show_kernel_error env e\<rparr>] [])
      | Inr response \<Rightarrow>
          (case semantic_verdict_from_response env response of
             None \<Rightarrow> Inl (failed_result candidate
               [\<lparr>vi_code = str ''invalid_semantic_verdict'',
                 vi_message = str ''semantic verifier did not return the required JSON verdict''\<rparr>] [])
           | Some verdict \<Rightarrow>
               (let covered = bs_of (sd_covered_artifact_ids verdict)
                in if sd_passed verdict
                   then Inl \<lparr>sr_final_text = candidate, sr_passed = True, sr_issues = [],
                             sr_covered_artifact_ids = covered\<rparr>
                   else Inr (verdict_issues verdict, covered))))"

definition verifier_pass ::
  "'w kernel_env \<Rightarrow> run_ctx \<Rightarrow> agent_artifact list \<Rightarrow> u8 \<Rightarrow> ustr
     \<Rightarrow> ('w, semantic_result + verification_issue list \<times> ustr list) kern" where
  "verifier_pass env cx evidence attempts candidate =
     kbind (kgraph (insert_task (verifier_task cx attempts))) (\<lambda>_.
     kbind (ktry (agent_call env (\<lambda>r. r)
              (internal_request cx (verifier_task cx attempts)
                 (semantic_verifier_input (rc_request cx) evidence candidate) evidence
                 (rc_auxiliary_options cx)))) (\<lambda>outcome.
     kret (verifier_outcome env candidate outcome)))"

text \<open>The same for the repair: a final result, or the next candidate.\<close>

definition repair_outcome ::
  "'w kernel_env \<Rightarrow> ustr \<Rightarrow> verification_issue list \<Rightarrow> ustr list
     \<Rightarrow> kernel_error + provider_response \<Rightarrow> semantic_result + ustr" where
  "repair_outcome env candidate issues covered outcome =
     (case outcome of
        Inl e \<Rightarrow> Inl (failed_result candidate
          (issues @ [\<lparr>vi_code = str ''semantic_repair_error'', vi_message = show_kernel_error env e\<rparr>]) covered)
      | Inr response \<Rightarrow>
          (let repaired = synthesize_text (ps_artifacts response)
           in if is_blank repaired
              then Inl (failed_result candidate
                (issues @ [\<lparr>vi_code = str ''empty_semantic_repair'',
                            vi_message = str ''semantic repair returned no candidate answer''\<rparr>]) covered)
              else Inr (normalize_structured_text_layout repaired)))"

definition repair_pass ::
  "'w kernel_env \<Rightarrow> run_ctx \<Rightarrow> agent_artifact list \<Rightarrow> u8 \<Rightarrow> ustr
     \<Rightarrow> verification_issue list \<Rightarrow> ustr list \<Rightarrow> ('w, semantic_result + ustr) kern" where
  "repair_pass env cx evidence attempts candidate issues covered =
     kbind (kgraph (insert_task (repair_task cx attempts))) (\<lambda>_.
     kbind (ktry (agent_call env (\<lambda>r. r)
              (internal_request cx (repair_task cx attempts)
                 (semantic_repair_input env (rc_request cx) evidence candidate issues) evidence
                 (nr_provider_options (rc_request cx))))) (\<lambda>outcome.
     kret (repair_outcome env candidate issues covered outcome)))"

function semantic_loop ::
  "'w kernel_env \<Rightarrow> run_ctx \<Rightarrow> agent_artifact list \<Rightarrow> u8 \<Rightarrow> ustr \<Rightarrow> ('w, semantic_result) kern" where
  "semantic_loop env cx evidence attempts candidate =
     kbind (verifier_pass env cx evidence attempts candidate) (\<lambda>verdict.
     case verdict of
       Inl result \<Rightarrow> kret result
     | Inr (issues, covered) \<Rightarrow>
         (if sv_max_repair_attempts (kp_semantic_verification (rc_policy cx)) \<le> attempts
          then kret (failed_result candidate issues covered)
          else kbind (repair_pass env cx evidence (sat_add attempts 1) candidate issues covered) (\<lambda>repair.
               case repair of
                 Inl result \<Rightarrow> kret result
               | Inr candidate' \<Rightarrow> semantic_loop env cx evidence (sat_add attempts 1) candidate')))"
  by pat_completeness auto
termination
proof (relation "measure (\<lambda>(env, cx, evidence, attempts, candidate).
    unat (sv_max_repair_attempts (kp_semantic_verification (rc_policy cx))) - unat attempts)", goal_cases)
  case 1
  show ?case by simp
next
  case (2 env cx evidence attempts candidate)
  then show ?case
    using unsigned_less [of "sv_max_repair_attempts (kp_semantic_verification (rc_policy cx))", where 'a = nat]
    by (simp add: unat_sat_add word_le_nat_alt)
qed

declare semantic_loop.simps [simp del]

definition run_semantic_verification ::
  "'w kernel_env \<Rightarrow> run_ctx \<Rightarrow> ustr \<Rightarrow> ('w, semantic_result) kern" where
  "run_semantic_verification env cx final_text =
     kbind (kread rs_texts) (\<lambda>evidence. semantic_loop env cx evidence 0 final_text)"

definition verification_applies :: "run_ctx \<Rightarrow> bool \<Rightarrow> ustr \<Rightarrow> bool" where
  "verification_applies cx resolved final_text \<longleftrightarrow>
     sv_enabled (kp_semantic_verification (rc_policy cx))
     \<and> \<not> is_direct (nr_reasoning_effort (rc_request cx)) \<and> resolved \<and> \<not> is_blank final_text"

definition run_verification :: "'w kernel_env \<Rightarrow> run_ctx \<Rightarrow> ustr \<Rightarrow> ('w, semantic_result) kern" where
  "run_verification env cx final_text =
     kbind (kread (\<lambda>s. root_unresolved cx s = [])) (\<lambda>resolved.
     if verification_applies cx resolved final_text
     then run_semantic_verification env cx final_text
     else kread (\<lambda>s. \<lparr>sr_final_text = final_text, sr_passed = True, sr_issues = [],
                      sr_covered_artifact_ids = bs_of (map artifact_id_of (rs_texts s))\<rparr>))"

section \<open>The report\<close>

definition unresolved_issue :: verification_issue where
  "unresolved_issue =
     \<lparr>vi_code = str ''unresolved_tool_calls'',
      vi_message = str ''tool calls must be resolved before final synthesis''\<rparr>"

definition benign_code :: "ustr \<Rightarrow> bool" where
  "benign_code code \<longleftrightarrow>
     code \<in> {str ''missing_model_spawn_plan'', str ''orchestration_plan_reconciled'',
             str ''empty_synthesis_recovered''}"

definition option_list :: "'a option \<Rightarrow> 'a list" where
  "option_list x = (case x of None \<Rightarrow> [] | Some y \<Rightarrow> [y])"

definition report_issues ::
  "semantic_result \<Rightarrow> tool_call_record list \<Rightarrow> verification_issue option \<Rightarrow> verification_issue option
     \<Rightarrow> verification_issue list" where
  "report_issues sem unresolved planning synthesis =
     sr_issues sem @ (if unresolved \<noteq> [] then [unresolved_issue] else [])
       @ option_list planning @ option_list synthesis"

definition build_report ::
  "run_ctx \<Rightarrow> semantic_result \<Rightarrow> tool_call_record list \<Rightarrow> verification_issue option
     \<Rightarrow> verification_issue option \<Rightarrow> 'w run_state \<Rightarrow> verification_report" where
  "build_report cx sem unresolved planning synthesis s =
     (let issues = report_issues sem unresolved planning synthesis;
          usage = fst (rs_usage s)
      in \<lparr>vr_request_id = nr_request_id (rc_request cx),
          vr_passed = sr_passed sem \<and> (\<forall>issue \<in> set issues. benign_code (vi_code issue)),
          vr_issues = issues,
          vr_artifact_coverage =
            map (\<lambda>a. \<lparr>ac_artifact_id = artifact_id_of a, ac_kind = KindText,
                      ac_covered = artifact_id_of a \<in> set (sr_covered_artifact_ids sem)\<rparr>) (rs_texts s),
          vr_unresolved_tool_calls = map tc_tool_call_id unresolved,
          vr_budget_summary =
            \<lparr>token_budget = max_total_tokens (rc_limits cx),
             token_used = sat_add (pu_input_tokens usage) (pu_output_tokens usage),
             tool_call_budget = max_total_tool_calls (rc_limits cx),
             tool_calls_used = nat_to_word_or_max (call_count (ks_ledger (rs_stores s)))\<rparr>\<rparr>)"

end
