(* ===== verification/Kernel_Run.thy ===== *)
theory Kernel_Run
  imports Kernel_Finish
begin

text \<open>
  \<^verbatim>\<open>KernelRunner\<close>: the whole run, its timeout, and the streamed root.
\<close>

record kernel_output =
  ko_final_text :: ustr
  ko_task_graph :: task_graph
  ko_verification :: verification_report
  ko_tool_calls :: "tool_call_record list"
  ko_encrypted_subagent_state :: "encrypted_agent_state list"
  ko_usage :: provider_usage
  ko_provider_call_count :: u32
  ko_trace_events :: "kernel_trace_event list"

section \<open>The initial state\<close>

text \<open>\<^verbatim>\<open>let _ = ledger.record_result(result)\<close>: an error leaves the ledger as it was.\<close>

definition record_result_ignoring :: "tool_result_record \<Rightarrow> tool_ledger \<Rightarrow> tool_ledger" where
  "record_result_ignoring r l = (case record_result r l of Inl _ \<Rightarrow> l | Inr l' \<Rightarrow> l')"

definition initial_stores :: "run_ctx \<Rightarrow> kernel_stores" where
  "initial_stores cx =
     \<lparr>ks_store = fold (\<lambda>m. store_insert (AMedia m)) (nr_media_artifacts (rc_request cx)) artifact_store_new,
      ks_ledger = fold record_result_ignoring (nr_tool_results (rc_request cx)) tool_ledger_new,
      ks_graph = insert_task (run_root_task cx) (task_graph_new root_task_id)\<rparr>"

definition initial_state :: "run_ctx \<Rightarrow> 'w \<Rightarrow> 'w run_state" where
  "initial_state cx w =
     \<lparr>rs_world = w, rs_stores = initial_stores cx, rs_texts = [], rs_sealed = [],
      rs_usage = (provider_usage_default, 0), rs_trace = []\<rparr>"

section \<open>The run\<close>

definition run_root_stage :: "'w kernel_env \<Rightarrow> run_ctx \<Rightarrow> ('w, verification_issue option) kern" where
  "run_root_stage env cx =
     (if is_direct (nr_reasoning_effort (rc_request cx))
      then kbind (run_direct env cx) (\<lambda>_. kret None)
      else run_orchestrated env cx)"

definition run_stages :: "'w kernel_env \<Rightarrow> run_ctx \<Rightarrow> ('w, kernel_output) kern" where
  "run_stages env cx =
     kbind (run_root_stage env cx) (\<lambda>planning_issue.
     kbind (run_children env cx) (\<lambda>has_child_tasks.
     kbind (run_continuation env cx has_child_tasks) (\<lambda>continuation.
     kbind (run_summary env cx has_child_tasks) (\<lambda>_.
     kbind (kread (root_unresolved cx)) (\<lambda>unresolved.
     kbind (run_synthesis env cx has_child_tasks continuation) (\<lambda>(text, synthesis_issue).
     kbind (run_verification env cx (layout_final_text (unresolved = []) text)) (\<lambda>sem.
     kread (\<lambda>s.
       \<lparr>ko_final_text = sr_final_text sem,
        ko_task_graph = ks_graph (rs_stores s),
        ko_verification = build_report cx sem unresolved planning_issue synthesis_issue s,
        ko_tool_calls = unresolved,
        ko_encrypted_subagent_state = rs_sealed s,
        ko_usage = fst (rs_usage s),
        ko_provider_call_count = snd (rs_usage s),
        ko_trace_events = rs_trace s\<rparr>))))))))"

definition run_inner ::
  "'w kernel_env \<Rightarrow> kernel_policy \<Rightarrow> normalized_request \<Rightarrow> 'w
     \<Rightarrow> (kernel_error + kernel_output) \<times> 'w run_state" where
  "run_inner env policy r w =
     (let cx = run_context env policy r in run_stages env cx (initial_state cx w))"

text \<open>
  \<^verbatim>\<open>run\<close>: the time the run took is read off the world (\<open>clock\<close>, in milliseconds).
\<close>

definition run ::
  "'w kernel_env \<Rightarrow> ('w \<Rightarrow> nat) \<Rightarrow> kernel_policy \<Rightarrow> normalized_request \<Rightarrow> 'w
     \<Rightarrow> kernel_error + kernel_output" where
  "run env clock policy r w =
     (let timeout_ms = request_timeout_ms (kp_limits (for_request policy r))
      in case run_inner env policy r w of
           (result, s) \<Rightarrow>
             (if unat (max timeout_ms 1) < clock (rs_world s) - clock w
              then Inl (RequestTimeout timeout_ms) else result))"

section \<open>The streamed root\<close>

definition stream_root_task :: "run_ctx \<Rightarrow> subtask_spec" where
  "stream_root_task cx =
     (let t = root_task (rc_scope cx) (rc_request cx)
      in t\<lparr>st_limits := (st_limits t)\<lparr>al_timeout_ms := agent_timeout_ms (rc_limits cx)\<rparr>\<rparr>)"

definition stream_root ::
  "'w kernel_env \<Rightarrow> kernel_policy \<Rightarrow> normalized_request \<Rightarrow> 'w
     \<Rightarrow> (kernel_error + provider_stream_event list) \<times> 'w" where
  "stream_root env policy r w =
     (let cx = run_context env policy r;
          task = stream_root_task cx
      in case ke_stream env w (root_request cx task (flatten_text r) []) of
           (w', elapsed, result) \<Rightarrow>
             (with_timeout (st_task_id task) (al_timeout_ms (st_limits task)) elapsed result, w'))"

end
