(* ===== verification/Kernel_Invariants.thy ===== *)
theory Kernel_Invariants
  imports Kernel_Run
begin

text \<open>
  Invariants of a run. The locale \<open>root_invariant\<close> states what an invariant of the root's stages
  has to be kept by (the effects of these stages, one law each), \<open>run_invariant\<close> adds the effects
  of the later ones; they prove once that every stage, and so the run, keeps it. They are
  interpreted on the well-formedness and the budget of the stores and on the log of the
  requests that reach the provider.
\<close>

section \<open>Invariants\<close>

locale root_invariant =
  fixes env :: "'w kernel_env" and cx :: run_ctx
    and allowed :: "provider_request \<Rightarrow> bool" and I :: "'w run_state \<Rightarrow> bool"
  assumes allowed_root: "task = run_root_task cx \<or> task = continuation_task cx \<Longrightarrow>
      allowed (root_request cx task input_text artifacts)"
    and allowed_internal: "allowed (internal_request cx task input_text artifacts options)"
    and keep_invoke: "I s \<Longrightarrow> allowed req \<Longrightarrow>
      I (s\<lparr>rs_world := snd (invoke_on env req (rs_world s))\<rparr>)"
    and keep_trace: "I s \<Longrightarrow> I (s\<lparr>rs_trace := trace\<rparr>)"
    and keep_usage: "I s \<Longrightarrow> I (s\<lparr>rs_usage := usage\<rparr>)"
    and keep_texts: "I s \<Longrightarrow> I (s\<lparr>rs_texts := texts\<rparr>)"
    and keep_apply: "I s \<Longrightarrow>
      apply_provider_response (ke_plan_text env) (rc_policy cx) (rc_scope cx) t r (rs_stores s, ts)
        = Inr (stores, ts') \<Longrightarrow> I (s\<lparr>rs_stores := stores\<rparr>)"
    and keep_plans: "I s \<Longrightarrow>
      apply_spawn_plan_response (rc_policy cx) (rc_scope cx) r (rs_stores s) = Inr (seen, stores) \<Longrightarrow>
      I (s\<lparr>rs_stores := stores\<rparr>)"
begin

lemma keeps_trace [keeps_rules]: "keeps I (ktrace events)"
  unfolding ktrace_def by (rule keeps_kmodify) (rule keep_trace)

lemma keeps_account [keeps_rules]: "keeps I (kaccount response)"
  unfolding kaccount_def by (rule keeps_kmodify) (rule keep_usage)

lemma keeps_texts [keeps_rules]: "keeps I (kmodify (\<lambda>s. s\<lparr>rs_texts := f s\<rparr>))"
  by (rule keeps_kmodify) (rule keep_texts)

lemma keeps_apply [keeps_rules]: "keeps I (kapply env (rc_policy cx) (rc_scope cx) t r ts)"
  unfolding keeps_def kapply_def by (auto intro: keep_apply split: sum.split)

lemma keeps_plans [keeps_rules]: "keeps I (kapply_plans (rc_policy cx) (rc_scope cx) r)"
  unfolding keeps_def kapply_plans_def by (auto intro: keep_plans split: sum.split)

lemma keeps_invoke: "allowed req \<Longrightarrow> keeps I (invoke_provider env req)"
  unfolding keeps_def invoke_provider_def using keep_invoke by (fastforce split: prod.split)

lemma keeps_agent_call: "allowed req \<Longrightarrow> keeps I (agent_call env post req)"
  unfolding agent_call_def Let_def by (intro keeps_rules keeps_invoke)

lemma keeps_internal_call [keeps_rules]:
  "keeps I (agent_call env post (internal_request cx task input_text artifacts options))"
  by (rule keeps_agent_call) (rule allowed_internal)

lemma keeps_root_call:
  "task = run_root_task cx \<or> task = continuation_task cx \<Longrightarrow>
   keeps I (root_call env cx task input_text artifacts texts)"
  unfolding root_call_def by (intro keeps_rules keeps_agent_call allowed_root)

lemma keeps_root_into_texts [keeps_rules]: "keeps I (root_call_into_texts env cx)"
  unfolding root_call_into_texts_def by (intro keeps_rules keeps_root_call) simp

lemma keeps_gate [keeps_rules]: "keeps I (run_tool_gate env cx)"
  unfolding run_tool_gate_def by (intro keeps_rules keeps_root_call) simp

lemma keeps_fallback [keeps_rules]: "keeps I (run_root_fallback env cx preface)"
  unfolding run_root_fallback_def by (intro keeps_rules)

lemma keeps_planner_call [keeps_rules]: "keeps I (planner_call env cx task input_text)"
  unfolding planner_call_def by (intro keeps_rules)

lemma keeps_repairs [keeps_rules]: "keeps I (planner_repairs env cx attempts r)"
proof (induction "max_orchestration_repair_attempts - attempts" arbitrary: attempts r rule: less_induct)
  case less
  show ?case
    by (subst planner_repairs.simps, intro keeps_rules less) auto
qed

lemma keeps_planner [keeps_rules]: "keeps I (run_planner env cx)"
  unfolding run_planner_def by (intro keeps_rules)

lemma keeps_orchestrated [keeps_rules]: "keeps I (run_orchestrated env cx)"
  unfolding run_orchestrated_def by (intro keeps_rules)

lemma keeps_root_stage [keeps_rules]: "keeps I (run_root_stage env cx)"
  unfolding run_root_stage_def run_direct_def by (intro keeps_rules)

lemma keeps_continuation [keeps_rules]: "keeps I (run_continuation env cx b)"
  unfolding run_continuation_def by (intro keeps_rules keeps_root_call) simp

end

locale run_invariant = root_invariant +
  assumes keep_nonce: "I s \<Longrightarrow> I (s\<lparr>rs_world := fst (ke_nonce env (rs_world s))\<rparr>)"
    and keep_sealed: "I s \<Longrightarrow> I (s\<lparr>rs_sealed := sealed\<rparr>)"
    and keep_task: "I s \<Longrightarrow>
      I (s\<lparr>rs_stores := (rs_stores s)\<lparr>ks_graph := insert_task t (ks_graph (rs_stores s))\<rparr>\<rparr>)"
begin

lemma keeps_sealed [keeps_rules]: "keeps I (kmodify (\<lambda>s. s\<lparr>rs_sealed := f s\<rparr>))"
  by (rule keeps_kmodify) (rule keep_sealed)

lemma keeps_task [keeps_rules]: "keeps I (kgraph (insert_task t))"
  unfolding kgraph_def by (rule keeps_kmodify) (rule keep_task)

lemma keep_schedule:
  assumes "I s" and "\<forall>i \<in> set is. allowed (reqs ! i)"
  shows "I (s\<lparr>rs_world := snd (run_schedule env reqs is (rs_world s))\<rparr>)"
  using assms
proof (induction "is" arbitrary: s)
  case Nil
  then show ?case by simp
next
  case (Cons i "is")
  obtain r w1 where inv: "invoke_on env (reqs ! i) (rs_world s) = (r, w1)" by fastforce
  obtain rs w2 where rest: "run_schedule env reqs is w1 = (rs, w2)" by fastforce
  have "I (s\<lparr>rs_world := w1\<rparr>)"
    using keep_invoke [of s "reqs ! i"] Cons.prems inv by simp
  from Cons.IH [OF this] Cons.prems(2) rest inv show ?case by simp
qed

lemma keeps_fan_out:
  assumes "\<forall>req \<in> set reqs. allowed req"
  shows "keeps I (fan_out env (parallel_limit cx) reqs)"
  unfolding keeps_def
proof (intro allI impI)
  fix s assume "I s"
  then have "I (s\<lparr>rs_world := snd (run_schedule env reqs
      (completion_order (parallel_limit cx) (length reqs) (ke_pick env (rs_world s))) (rs_world s))\<rparr>)"
    using assms by (intro keep_schedule) auto
  then show "I (snd (fan_out env (parallel_limit cx) reqs s))"
    by (simp add: fan_out_def case_prod_beta)
qed

lemma keeps_seal [keeps_rules]: "keeps I (seal_subagent_state env scope task response)"
  unfolding keeps_def seal_subagent_state_def Let_def
  using keep_nonce by (fastforce split: prod.split option.split)

lemma keeps_absorb [keeps_rules]: "keeps I (absorb_child env cx req response)"
  unfolding absorb_child_def by (intro keeps_rules)

lemma keeps_absorb_all [keeps_rules]: "keeps I (absorb_children env cx reqs results)"
proof (induction results)
  case (Cons e results)
  then show ?case by (cases e) (simp add: keeps_kbind keeps_absorb)
qed simp

lemma keeps_children [keeps_rules]: "keeps I (run_children env cx)"
  unfolding run_children_def
proof (rule keeps_read)
  fix s
  have "\<forall>req \<in> set (child_requests env cx s). allowed req"
    by (auto simp: child_requests_def child_request_def Let_def intro: allowed_internal)
  then show "keeps I (kbind (fan_out env (parallel_limit cx) (child_requests env cx s)) (\<lambda>results.
      kbind (absorb_children env cx (child_requests env cx s) results) (\<lambda>_.
      kret (child_requests env cx s \<noteq> []))))"
    by (intro keeps_rules keeps_fan_out)
qed

lemma keeps_summary [keeps_rules]: "keeps I (run_summary env cx b)"
  unfolding run_summary_def by (intro keeps_rules)

lemma keeps_synth_call [keeps_rules]: "keeps I (synth_call env cx base attempt)"
  unfolding synth_call_def by (intro keeps_rules)

lemma keeps_synth_loop [keeps_rules]: "keeps I (synth_loop env cx base attempt)"
proof (induction "max_empty_synthesis_retry_attempts - attempt" arbitrary: attempt rule: less_induct)
  case less
  show ?case
    by (subst synth_loop.simps, intro keeps_rules less) auto
qed

lemma keeps_synthesis [keeps_rules]: "keeps I (run_synthesis env cx b continuation)"
  unfolding run_synthesis_def run_synthesizer_def by (intro keeps_rules)

lemma keeps_verifier_pass [keeps_rules]: "keeps I (verifier_pass env cx evidence attempts candidate)"
  unfolding verifier_pass_def by (intro keeps_rules)

lemma keeps_repair_pass [keeps_rules]:
  "keeps I (repair_pass env cx evidence attempts candidate issues covered)"
  unfolding repair_pass_def by (intro keeps_rules)

lemma keeps_semantic_loop [keeps_rules]: "keeps I (semantic_loop env cx evidence attempts candidate)"
proof (induction "unat (sv_max_repair_attempts (kp_semantic_verification (rc_policy cx))) - unat attempts"
    arbitrary: attempts candidate rule: less_induct)
  case less
  let ?m = "sv_max_repair_attempts (kp_semantic_verification (rc_policy cx))"
  have "\<not> ?m \<le> attempts \<Longrightarrow> unat ?m - unat (sat_add attempts 1) < unat ?m - unat attempts"
    using unsigned_less [of ?m, where 'a = nat] by (simp add: unat_sat_add word_le_nat_alt)
  with less show ?case
    by (subst semantic_loop.simps, intro keeps_rules) auto
qed

lemma keeps_verification [keeps_rules]: "keeps I (run_verification env cx text)"
  unfolding run_verification_def run_semantic_verification_def by (intro keeps_rules)

lemma keeps_stages: "keeps I (run_stages env cx)"
  unfolding run_stages_def by (intro keeps_rules)

lemma invariant_run:
  "I (initial_state cx w) \<Longrightarrow> run_stages env cx (initial_state cx w) = (out, s) \<Longrightarrow> I s"
  using keeps_stages by (rule keepsD)

end

section \<open>The stores of a run\<close>

text \<open>The stores stay well formed and the ledger within the tool-call budget.\<close>

definition stores_ok :: "run_ctx \<Rightarrow> 'w run_state \<Rightarrow> bool" where
  "stores_ok cx s \<longleftrightarrow> stores_wf (rs_stores s)
     \<and> call_count (ks_ledger (rs_stores s)) \<le> unat (max_total_tool_calls (rc_limits cx))"

lemma apply_response_budget:
  assumes "apply_provider_response plan_text policy scope t r s = Inr s'"
  shows "call_count (ks_ledger (fst s')) \<le> unat (max_total_tool_calls (kp_limits policy))"
proof -
  have "call_count (ks_ledger (fst s)) + length (ps_tool_calls r)
      \<le> unat (max_total_tool_calls (kp_limits policy))"
    using assms by (simp add: apply_provider_response_def split: if_splits)
  then show ?thesis
    using apply_response_ledger [OF assms] call_count_record_calls le_trans by metis
qed

interpretation stores: run_invariant env cx "\<lambda>_. True" "stores_ok cx" for env cx
proof (unfold_locales, goal_cases)
  case (7 s t r ts stores ts')
  then show ?case
    using apply_response_wf [OF 7(2)] apply_response_budget [OF 7(2)] by (simp add: stores_ok_def)
next
  case (8 s r seen stores)
  then show ?case
    using apply_spawn_plan_response_Inr [OF 8(2)] by (simp add: stores_ok_def)
next
  case (11 s t) then show ?case by (auto simp: stores_ok_def stores_wf_def)
qed (simp_all add: stores_ok_def)

text \<open>Until the children have run, the graph holds at most the configured number of them.\<close>

definition root_within :: "run_ctx \<Rightarrow> 'w run_state \<Rightarrow> bool" where
  "root_within cx s \<longleftrightarrow>
     (policy_max_agents (rc_policy cx) < 65535 \<longrightarrow> stores_within (rc_policy cx) (rs_stores s))"

lemma apply_plans_count:
  assumes "apply_plans policy scope store ps g = Inr g'" and "policy_max_agents policy < 65535"
    and "length (child_tasks g) \<le> policy_max_agents policy"
  shows "length (child_tasks g') \<le> policy_max_agents policy"
  using assms(1,3)
proof (induction ps arbitrary: g)
  case (Cons p ps)
  then obtain g1 where g1: "validate_and_apply policy scope store g p = Inr g1"
    and rest: "apply_plans policy scope store ps g1 = Inr g'"
    by (auto simp: ebind_Inr_iff)
  show ?case
    by (rule Cons.IH [OF rest validate_child_count [OF g1 assms(2)]])
qed simp

lemma apply_spawn_plan_within:
  assumes "apply_spawn_plan_response policy scope r ks = Inr (seen, ks')"
    and "policy_max_agents policy < 65535" and "stores_within policy ks"
  shows "stores_within policy ks'"
  using assms
  by (auto simp: apply_spawn_plan_response_def Let_def ebind_Inr_iff stores_within_def
      intro: apply_plans_count)

interpretation root_stores: root_invariant env cx "\<lambda>_. True" "root_within cx" for env cx
proof (unfold_locales, goal_cases)
  case (7 s t r ts stores ts')
  then show ?case
    using apply_response_within [OF 7(2)] by (simp add: root_within_def)
next
  case (8 s r seen stores)
  then show ?case
    using apply_spawn_plan_within [OF 8(2)] by (simp add: root_within_def)
qed (simp_all add: root_within_def)

text \<open>Nothing the client sends as a tool result reaches the fresh ledger of a run.\<close>

lemma initial_ledger [simp]: "ks_ledger (initial_stores cx) = tool_ledger_new"
proof -
  have "fold record_result_ignoring rs tool_ledger_new = tool_ledger_new" for rs
    by (induction rs) (simp_all add: record_result_ignoring_def record_result_def tool_ledger_new_def)
  then show ?thesis by (simp add: initial_stores_def)
qed

lemma store_wf_initial: "store_wf (ks_store (initial_stores cx))"
proof -
  have "store_wf s \<Longrightarrow> store_wf (fold (\<lambda>m. store_insert (AMedia m)) ms s)" for ms s
    by (induction ms arbitrary: s) auto
  then show ?thesis by (simp add: initial_stores_def)
qed

lemma stores_ok_initial [simp]: "stores_ok cx (initial_state cx w)"
  by (auto simp: stores_ok_def stores_wf_def initial_state_def store_wf_initial call_count_def
      tool_ledger_new_def intro: ledger_wf_new [unfolded tool_ledger_new_def])
    (auto simp: initial_stores_def)

lemma run_stores_ok:
  "run_stages env cx (initial_state cx w) = (out, s) \<Longrightarrow> stores_ok cx s"
  by (rule stores.invariant_run) simp

section \<open>The requests a provider receives\<close>

text \<open>The same environment with a record of every request the provider is sent.\<close>

definition recording_env :: "'w kernel_env \<Rightarrow> ('w \<times> provider_request list) kernel_env" where
  "recording_env env =
     \<lparr>te_json_text = te_json_text env, te_json_pretty = te_json_pretty env,
      te_float_text = te_float_text env, te_issues_text = te_issues_text env,
      ke_invoke = recording (ke_invoke env),
      ke_stream = (\<lambda>w req. case ke_stream env (fst w) req of (w', r) \<Rightarrow> ((w', snd w @ [req]), r)),
      ke_pick = (\<lambda>w. ke_pick env (fst w)),
      ke_parse_verdict = ke_parse_verdict env,
      ke_plan_text = ke_plan_text env,
      ke_state_text = ke_state_text env,
      ke_nonce = (\<lambda>w. case ke_nonce env (fst w) of (w', bytes) \<Rightarrow> ((w', snd w), bytes)),
      ke_encrypt = ke_encrypt env,
      ke_hex = ke_hex env,
      ke_debug_text = ke_debug_text env\<rparr>"

definition run_log :: "('w \<times> provider_request list) run_state \<Rightarrow> provider_request list" where
  "run_log s = snd (rs_world s)"

lemma recording_invoke: "snd (snd (invoke_on (recording_env env) req w)) = snd w @ [req]"
  by (simp add: invoke_on_def recording_env_def recording_def split: prod.splits)

lemma recording_nonce: "snd (fst (ke_nonce (recording_env env) w)) = snd w"
  by (simp add: recording_env_def split: prod.splits)

text \<open>
  What the kernel may send: always the run's own scope, model and policy texts; the client's
  tools, messages and results to the root task only.
\<close>

definition request_confined :: "run_ctx \<Rightarrow> provider_request \<Rightarrow> bool" where
  "request_confined cx req \<longleftrightarrow>
     pr_scope req = rc_scope cx
     \<and> pr_model req = nr_model (rc_request cx)
     \<and> pr_system_instructions req = rc_system cx
     \<and> (pr_tools req = [] \<and> pr_tool_choice req = ToolNone \<and> pr_tool_results req = []
          \<and> pr_messages req = []
        \<or> st_task_id (pr_task req) = root_task_id \<and> st_role (pr_task req) = Leader
          \<and> pr_tools req = nr_tools (rc_request cx)
          \<and> pr_tool_choice req = nr_tool_choice (rc_request cx)
          \<and> pr_tool_results req = nr_tool_results (rc_request cx)
          \<and> pr_messages req = nr_messages (rc_request cx))"

definition log_confined :: "run_ctx \<Rightarrow> ('w \<times> provider_request list) run_state \<Rightarrow> bool" where
  "log_confined cx s \<longleftrightarrow> (\<forall>req \<in> set (run_log s). request_confined cx req)"

lemma confined_internal: "request_confined cx (internal_request cx t i as opts)"
  by (simp add: request_confined_def internal_request_def Let_def)

lemma confined_root:
  "t = run_root_task cx \<or> t = continuation_task cx \<Longrightarrow> request_confined cx (root_request cx t i as)"
  by (auto simp: request_confined_def root_request_def Let_def run_root_task_def continuation_task_def
      root_task_def)

interpretation requests: run_invariant "recording_env env" cx "request_confined cx" "log_confined cx"
  for env cx
  by unfold_locales
    (auto simp: log_confined_def run_log_def recording_invoke recording_nonce
      intro: confined_internal confined_root)

end
