(* ===== verification/Kernel_Bounds.thy ===== *)
theory Kernel_Bounds
  imports Kernel_Invariants
begin

text \<open>
  How often a run calls the provider. \<open>costs n m\<close> says that the stage \<open>m\<close> sends at most \<open>n\<close>
  requests, whether it ends in a value or an error; the requests are counted on the log of
  \<open>recording_env\<close>.
\<close>

definition costs :: "nat \<Rightarrow> ('w \<times> provider_request list, 'a) kern \<Rightarrow> bool" where
  "costs n m \<longleftrightarrow> (\<forall>s. length (run_log (snd (m s))) \<le> length (run_log s) + n)"

named_theorems costs_rules \<open>what a stage costs\<close>

lemma costsD: "costs n m \<Longrightarrow> m s = (r, s') \<Longrightarrow> length (run_log s') \<le> length (run_log s) + n"
  by (metis costs_def snd_conv)

lemma costs_mono: "costs a m \<Longrightarrow> a \<le> b \<Longrightarrow> costs b m"
  unfolding costs_def by (meson add_left_mono le_trans)

lemma costs_kbind:
  assumes "costs a m" and "\<And>x. costs b (f x)"
  shows "costs (a + b) (kbind m f)"
  unfolding costs_def
proof
  fix s
  obtain r s1 where m: "m s = (r, s1)" by fastforce
  have s1: "length (run_log s1) \<le> length (run_log s) + a"
    using assms(1) m by (rule costsD)
  show "length (run_log (snd (kbind m f s))) \<le> length (run_log s) + (a + b)"
  proof (cases r)
    case (Inl e)
    with m s1 show ?thesis by (simp add: kbind_def)
  next
    case (Inr x)
    have "length (run_log (snd (f x s1))) \<le> length (run_log s1) + b"
      using assms(2) by (simp add: costs_def)
    with m s1 Inr show ?thesis by (simp add: kbind_def)
  qed
qed

lemma costs_0_kbind [costs_rules]: "costs 0 m \<Longrightarrow> (\<And>x. costs b (f x)) \<Longrightarrow> costs b (kbind m f)"
  using costs_kbind [of 0 m b f] by simp

lemma costs_kbind_0: "costs a m \<Longrightarrow> (\<And>x. costs 0 (f x)) \<Longrightarrow> costs a (kbind m f)"
  using costs_kbind [of a m 0 f] by simp

lemma costs_if [costs_rules]:
  "(b \<Longrightarrow> costs n m) \<Longrightarrow> (\<not> b \<Longrightarrow> costs n m') \<Longrightarrow> costs n (if b then m else m')"
  by simp

lemma costs_prod [costs_rules]: "(\<And>a b. costs n (f a b)) \<Longrightarrow> costs n (case r of (a, b) \<Rightarrow> f a b)"
  by (cases r) simp

lemma costs_ktry: "costs n m \<Longrightarrow> costs n (ktry m)"
  unfolding costs_def ktry_def by (simp add: case_prod_beta)

lemma costs_pure [costs_rules, simp]:
  "costs n (kret x)" "costs n (kthrow e)" "costs n (kread f)" "costs n (klift r)"
  by (simp_all add: costs_def kret_def kthrow_def kread_def klift_def)

lemma costs_effects [costs_rules, simp]:
  "costs n (ktrace events)" "costs n (kaccount r)" "costs n (kgraph g)"
  "costs n (kmodify (\<lambda>s. s\<lparr>rs_texts := ts s\<rparr>))" "costs n (kmodify (\<lambda>s. s\<lparr>rs_sealed := es s\<rparr>))"
  "costs n (kapply env policy scope t r texts)" "costs n (kapply_plans policy scope r)"
  by (simp_all add: costs_def ktrace_def kaccount_def kgraph_def kmodify_def kapply_def kapply_plans_def
      run_log_def split: sum.split prod.split)

lemma costs_seal [costs_rules, simp]: "costs n (seal_subagent_state (recording_env env) scope t r)"
proof -
  have "snd (rs_world (snd (seal_subagent_state (recording_env env) scope t r s))) = snd (rs_world s)" for s
    using recording_nonce [of env "rs_world s"]
    by (auto simp: seal_subagent_state_def Let_def split: prod.split option.split)
  then show ?thesis by (simp add: costs_def run_log_def)
qed

lemma costs_invoke: "costs 1 (invoke_provider (recording_env env) req)"
  using recording_invoke [of env req]
  by (simp add: costs_def invoke_provider_def run_log_def case_prod_beta)

lemma costs_agent_call: "costs 1 (agent_call (recording_env env) post req)"
  unfolding agent_call_def Let_def
  by (intro costs_rules costs_kbind_0 [OF costs_invoke])

lemma costs_root_call: "costs 1 (root_call (recording_env env) cx task input_text artifacts texts)"
  unfolding root_call_def by (intro costs_kbind_0 [OF costs_agent_call] costs_rules)

lemma costs_root_into_texts: "costs 1 (root_call_into_texts (recording_env env) cx)"
  unfolding root_call_into_texts_def
  by (intro costs_rules costs_kbind_0 [OF costs_root_call])

lemma costs_fallback: "costs 1 (run_root_fallback (recording_env env) cx preface)"
  unfolding run_root_fallback_def by (intro costs_rules costs_root_into_texts)

lemma costs_planner_call: "costs 1 (planner_call (recording_env env) cx task input_text)"
  unfolding planner_call_def by (rule costs_agent_call)

lemma costs_repairs:
  "costs (max_orchestration_repair_attempts - attempts) (planner_repairs (recording_env env) cx attempts r)"
proof (induction "max_orchestration_repair_attempts - attempts" arbitrary: attempts r)
  case 0
  then show ?case by (subst planner_repairs.simps) simp
next
  case (Suc n)
  then have "costs n (planner_repairs (recording_env env) cx (attempts + 1) r')" for r'
    by (metis Suc_eq_plus1 diff_Suc_Suc diff_commute diff_diff_left diff_Suc_1)
  then have "costs (1 + n) (kbind (planner_call (recording_env env) cx t i)
      (planner_repairs (recording_env env) cx (attempts + 1)))" for t i
    by (intro costs_kbind costs_planner_call)
  with Suc.hyps(2) [symmetric] show ?case
    by (subst planner_repairs.simps) simp
qed

lemma costs_planner: "costs 4 (run_planner (recording_env env) cx)"
proof -
  have tail: "costs 0 (kbind (klift (settle_plan (rc_policy cx) (nr_reasoning_effort (rc_request cx)) r))
      (\<lambda>(settled, issue). kbind (kapply_plans (rc_policy cx) (rc_scope cx) settled) (\<lambda>plan_seen.
        kret (if \<not> plan_seen then Some missing_plan_issue else issue))))"
    for r :: provider_response
    by (intro costs_0_kbind costs_prod) simp_all
  have "costs (1 + (3 + 0)) (run_planner (recording_env env) cx)"
    unfolding run_planner_def
    using costs_repairs [of 0 env cx] tail
    by (intro costs_kbind costs_planner_call) (simp_all add: max_orchestration_repair_attempts_def)
  then show ?thesis by simp
qed

lemma costs_gate:
  "costs (if should_use_model_orchestration (rc_request cx) (rc_policy cx) then 0 else 1)
     (run_tool_gate (recording_env env) cx)"
  unfolding run_tool_gate_def using costs_root_call by (intro costs_if) auto

lemma costs_orchestrated: "costs 5 (run_orchestrated (recording_env env) cx)"
proof -
  let ?use = "should_use_model_orchestration (rc_request cx) (rc_policy cx)"
  have fallback: "costs 1 (kbind (if b then run_root_fallback (recording_env env) cx preface else kret ())
      (\<lambda>_. kret issue))" for b preface issue
    by (intro costs_kbind_0 costs_rules costs_fallback)
  have planner: "costs (if ?use then 4 else 0)
      (if b \<and> c \<and> ?use then run_planner (recording_env env) cx else kret None)" for b c
    by (intro costs_if) (simp_all add: costs_planner)
  have "costs ((if ?use then 0 else 1) + ((if ?use then 4 else 0) + 1))
      (run_orchestrated (recording_env env) cx)"
    unfolding run_orchestrated_def
    by (intro costs_kbind [OF costs_gate] costs_0_kbind costs_kbind [OF planner] fallback) simp_all
  then show ?thesis by (rule costs_mono) simp
qed

lemma costs_root_stage: "costs 5 (run_root_stage (recording_env env) cx)"
  unfolding run_root_stage_def run_direct_def
  by (intro costs_rules costs_orchestrated costs_kbind_0 costs_mono [OF costs_root_into_texts]) simp_all

section \<open>Children\<close>

lemma run_schedule_log:
  "snd (snd (run_schedule (recording_env env) reqs is w)) = snd w @ map (\<lambda>i. reqs ! i) is"
proof (induction "is" arbitrary: w)
  case (Cons i "is")
  then show ?case
    using recording_invoke [of env "reqs ! i" w] by (simp add: case_prod_beta)
qed simp

lemma fan_out_log:
  "run_log (snd (fan_out (recording_env env) limit reqs s)) =
     run_log s @ map (\<lambda>i. reqs ! i)
       (completion_order limit (length reqs) (ke_pick (recording_env env) (rs_world s)))"
  by (simp add: fan_out_def run_log_def case_prod_beta run_schedule_log)

lemma costs_fan_out: "costs (length reqs) (fan_out (recording_env env) (parallel_limit cx) reqs)"
  by (simp add: costs_def fan_out_log)

lemma costs_absorb [costs_rules]: "costs 0 (absorb_child (recording_env env) cx req response)"
  unfolding absorb_child_def by (intro costs_rules)

lemma costs_absorb_all [costs_rules]: "costs 0 (absorb_children (recording_env env) cx reqs results)"
proof (induction results)
  case (Cons e results)
  then show ?case by (cases e) (simp add: costs_0_kbind costs_absorb)
qed simp

lemma children_log:
  "length (run_log (snd (run_children (recording_env env) cx s)))
     \<le> length (run_log s) + length (child_tasks (ks_graph (rs_stores s)))"
proof -
  let ?reqs = "child_requests (recording_env env) cx s"
  have "costs (length ?reqs) (kbind (fan_out (recording_env env) (parallel_limit cx) ?reqs) (\<lambda>results.
      kbind (absorb_children (recording_env env) cx ?reqs results) (\<lambda>_. kret (?reqs \<noteq> []))))"
    by (intro costs_kbind_0 [OF costs_fan_out] costs_rules)
  then show ?thesis
    by (simp add: run_children_def kbind_def [of "kread _"] kread_def costs_def child_requests_def)
qed

section \<open>The closing stages\<close>

lemma costs_continuation: "costs 1 (run_continuation (recording_env env) cx b)"
  unfolding run_continuation_def by (intro costs_rules costs_root_call)

lemma costs_summary: "costs 1 (run_summary (recording_env env) cx b)"
  unfolding run_summary_def by (intro costs_rules costs_kbind_0 [OF costs_agent_call])

lemma costs_synth_call: "costs 1 (synth_call (recording_env env) cx base attempt)"
  unfolding synth_call_def by (intro costs_rules costs_kbind_0 [OF costs_agent_call])

lemma costs_synth_loop:
  "costs (Suc (max_empty_synthesis_retry_attempts - attempt)) (synth_loop (recording_env env) cx base attempt)"
proof (induction "max_empty_synthesis_retry_attempts - attempt" arbitrary: attempt)
  case 0
  then have "costs (1 + 0) (synth_loop (recording_env env) cx base attempt)"
    by (subst synth_loop.simps, intro costs_kbind costs_synth_call costs_rules) simp
  with 0 show ?case by simp
next
  case (Suc n)
  then have "costs (Suc n) (synth_loop (recording_env env) cx base (attempt + 1))"
    by (metis Suc_eq_plus1 diff_Suc_1 diff_Suc_Suc diff_commute diff_diff_left)
  then have "costs (1 + Suc n) (synth_loop (recording_env env) cx base attempt)"
    by (subst synth_loop.simps, intro costs_kbind costs_synth_call costs_rules)
  with Suc.hyps(2) show ?case by simp
qed

lemma costs_synthesis: "costs 3 (run_synthesis (recording_env env) cx b continuation)"
proof -
  have "costs 3 (synth_loop (recording_env env) cx base 0)" for base
    using costs_synth_loop [of 0 env cx base] by (simp add: max_empty_synthesis_retry_attempts_def eval_nat_numeral)
  then show ?thesis
    unfolding run_synthesis_def run_synthesizer_def by (intro costs_rules costs_kbind_0)
qed

lemma costs_verifier_pass: "costs 1 (verifier_pass (recording_env env) cx evidence attempts candidate)"
  unfolding verifier_pass_def
  by (intro costs_rules costs_kbind_0 [OF costs_ktry [OF costs_agent_call]])

lemma costs_repair_pass:
  "costs 1 (repair_pass (recording_env env) cx evidence attempts candidate issues covered)"
  unfolding repair_pass_def
  by (intro costs_rules costs_kbind_0 [OF costs_ktry [OF costs_agent_call]])

abbreviation max_semantic_repairs :: "run_ctx \<Rightarrow> u8" where
  "max_semantic_repairs cx \<equiv> sv_max_repair_attempts (kp_semantic_verification (rc_policy cx))"

lemma next_attempt:
  assumes "attempts < max_semantic_repairs cx"
  shows "unat (sat_add attempts 1) = Suc (unat attempts)"
  using assms unsigned_less [of "max_semantic_repairs cx", where 'a = nat]
  by (simp add: unat_sat_add word_less_nat_alt)

lemma costs_semantic_loop:
  "costs (Suc (2 * (unat (max_semantic_repairs cx) - unat attempts)))
     (semantic_loop (recording_env env) cx evidence attempts candidate)"
proof (induction "unat (max_semantic_repairs cx) - unat attempts" arbitrary: attempts candidate)
  case 0
  then have "max_semantic_repairs cx \<le> attempts" by (simp add: word_le_nat_alt)
  then have "costs (1 + 0) (semantic_loop (recording_env env) cx evidence attempts candidate)"
    by (subst semantic_loop.simps, intro costs_kbind costs_verifier_pass) (auto split: sum.split)
  with 0 show ?case by simp
next
  case (Suc n)
  then have less: "attempts < max_semantic_repairs cx" by (simp add: word_less_nat_alt)
  have "costs (Suc (2 * n)) (semantic_loop (recording_env env) cx evidence (sat_add attempts 1) c)" for c
    using Suc.hyps(2) next_attempt [OF less] by (intro Suc.hyps(1) [of "sat_add attempts 1" c, THEN costs_mono]) simp_all
  then have repair: "costs (1 + Suc (2 * n))
      (kbind (repair_pass (recording_env env) cx evidence (sat_add attempts 1) candidate issues covered)
        (\<lambda>repair. case repair of Inl result \<Rightarrow> kret result
          | Inr c \<Rightarrow> semantic_loop (recording_env env) cx evidence (sat_add attempts 1) c))"
    for issues covered
    by (intro costs_kbind costs_repair_pass) (simp split: sum.split)
  have "costs (1 + (1 + Suc (2 * n))) (semantic_loop (recording_env env) cx evidence attempts candidate)"
    by (subst semantic_loop.simps, intro costs_kbind costs_verifier_pass)
      (use repair in \<open>auto split: sum.split\<close>)
  with Suc.hyps(2) [symmetric] show ?case by simp
qed

lemma costs_verification:
  "costs (Suc (2 * unat (max_semantic_repairs cx))) (run_verification (recording_env env) cx text)"
  unfolding run_verification_def run_semantic_verification_def
  using costs_semantic_loop [of cx 0 env] by (intro costs_rules) simp

section \<open>The run\<close>

lemma root_stage_children:
  assumes "run_root_stage env cx (initial_state cx w) = (Inr issue, s)"
    and "policy_max_agents (rc_policy cx) < 65535"
  shows "length (child_tasks (ks_graph (rs_stores s))) \<le> policy_max_agents (rc_policy cx)"
proof -
  have "child_tasks (insert_task (run_root_task cx) (task_graph_new root_task_id)) = []"
    by (simp add: child_tasks_def bt_values_def task_graph_new_def insert_task_def run_root_task_def root_task_def)
  then have "root_within cx (initial_state cx w)"
    by (simp add: root_within_def stores_within_def initial_state_def)
      (simp add: initial_stores_def call_count_def tool_ledger_new_def)
  then have "root_within cx s"
    using assms(1) by (rule keepsD [OF root_stores.keeps_root_stage])
  with assms(2) show ?thesis by (simp add: root_within_def stores_within_def)
qed

lemma costs_tail:
  "costs (6 + 2 * unat (max_semantic_repairs cx))
     (kbind (run_continuation (recording_env env) cx b) (\<lambda>continuation.
      kbind (run_summary (recording_env env) cx b) (\<lambda>_.
      kbind (kread (root_unresolved cx)) (\<lambda>unresolved.
      kbind (run_synthesis (recording_env env) cx b continuation) (\<lambda>(text, synthesis_issue).
      kbind (run_verification (recording_env env) cx (layout_final_text (unresolved = []) text)) (\<lambda>sem.
      kread (out unresolved synthesis_issue sem)))))))"
  (is "costs _ ?m")
proof -
  have "costs (1 + (1 + (3 + Suc (2 * unat (max_semantic_repairs cx))))) ?m"
    by (intro costs_kbind costs_continuation costs_summary costs_synthesis costs_0_kbind costs_prod
        costs_kbind_0 [OF costs_verification] costs_pure)
  then show ?thesis by (rule costs_mono) simp
qed

lemma run_stages_log:
  assumes "policy_max_agents (rc_policy cx) < 65535"
    and "run_stages (recording_env env) cx (initial_state cx (w, [])) = (out, s)"
  shows "length (run_log s) \<le> 11 + policy_max_agents (rc_policy cx) + 2 * unat (max_semantic_repairs cx)"
proof -
  let ?env = "recording_env env" and ?s0 = "initial_state cx (w, [])"
  have s0: "run_log ?s0 = []" by (simp add: run_log_def initial_state_def)
  obtain r1 s1 where root: "run_root_stage ?env cx ?s0 = (r1, s1)" by fastforce
  have l1: "length (run_log s1) \<le> 5"
    using costsD [OF costs_root_stage root] s0 by simp
  show ?thesis
  proof (cases r1)
    case (Inl e)
    with assms(2) root have "s = s1" by (simp add: run_stages_def kbind_def)
    with l1 show ?thesis by simp
  next
    case (Inr issue)
    obtain r2 s2 where children: "run_children ?env cx s1 = (r2, s2)" by fastforce
    have l2: "length (run_log s2) \<le> 5 + policy_max_agents (rc_policy cx)"
      using children_log [of env cx s1] root_stage_children [OF root [unfolded Inr] assms(1)] l1 children
      by simp
    show ?thesis
    proof (cases r2)
      case Inl': (Inl e)
      with assms(2) root children Inr have "s = s2" by (simp add: run_stages_def kbind_def)
      with l2 show ?thesis by simp
    next
      case Inr': (Inr b)
      have "length (run_log (snd (run_stages ?env cx ?s0)))
          \<le> length (run_log s2) + (6 + 2 * unat (max_semantic_repairs cx))"
        by (simp add: run_stages_def kbind_def [of "run_root_stage _ _"] kbind_def [of "run_children _ _"]
            root children Inr Inr' costs_tail [unfolded costs_def])
      with assms(2) l2 show ?thesis by simp
    qed
  qed
qed

end
