(* ===== verification/Kernel_Mock.thy ===== *)
theory Kernel_Mock
  imports Kernel_Run
begin

text \<open>
  \<^verbatim>\<open>MockProvider\<close>, the provider the gateway runs without a backend, and its interpretation as a
  stateless provider.
\<close>

definition mock_text_response :: "provider_request \<Rightarrow> ustr \<Rightarrow> provider_response" where
  "mock_text_response req text =
     \<lparr>ps_artifacts = [AText (str ''text-'' @ st_task_id (pr_task req)) (pr_scope req) text],
      ps_tool_calls = [], ps_usage = provider_usage_default\<rparr>"

text \<open>The text between the first and the second \<^verbatim>\<open>"exactly "\<close>: \<^verbatim>\<open>split("exactly ").nth(1)\<close>.\<close>

definition after_exactly :: "ustr \<Rightarrow> ustr option" where
  "after_exactly objective =
     (case split_once (str ''exactly '') objective of
        None \<Rightarrow> None
      | Some (_, rest) \<Rightarrow>
          Some (case split_once (str ''exactly '') rest of Some (before, _) \<Rightarrow> before | None \<Rightarrow> rest))"

definition objective_target :: "ustr \<Rightarrow> nat option" where
  "objective_target objective =
     (case after_exactly objective of
        None \<Rightarrow> None
      | Some tail \<Rightarrow>
          (case split_whitespace tail of [] \<Rightarrow> None | word # _ \<Rightarrow> parse_uint (2 ^ 64) word))"

definition instructions_target :: "ustr list \<Rightarrow> nat option" where
  "instructions_target instructions =
     find_map (\<lambda>part. Option.bind (strip_prefix (str ''target_parallel_agents='') (trim part))
                        (parse_uint (2 ^ 64)))
       (concat (map (split_on (\<lambda>c. c = 59 \<or> c = 10)) instructions))"

definition target_child_agents :: "provider_request \<Rightarrow> nat" where
  "target_child_agents req =
     max 1 (case objective_target (st_objective (pr_task req)) of
              Some n \<Rightarrow> n
            | None \<Rightarrow>
                (case instructions_target (pr_system_instructions req) of Some n \<Rightarrow> n | None \<Rightarrow> 1))"

definition mock_child :: "artifact_ref list \<Rightarrow> nat \<Rightarrow> subtask_spec" where
  "mock_child image_ref index =
     \<lparr>st_task_id = str ''child-'' @ pad2 index,
      st_parent_task_id = Some (str ''root''),
      st_spawn_depth = 1,
      st_role = Worker,
      st_objective = str ''child visual inspection slice '' @ show_nat index,
      st_input_artifact_refs = image_ref,
      st_expected_outputs = [KindText],
      st_allowed_capabilities = capability_set_from [CapText, CapImage],
      st_limits = agent_limits_default\<rparr>"

definition mock_spawn_plan_response :: "provider_request \<Rightarrow> provider_response" where
  "mock_spawn_plan_response req =
     (let target = target_child_agents req;
          image_ref = (case pr_media_artifacts req of
                         [] \<Rightarrow> []
                       | m # _ \<Rightarrow> [\<lparr>ar_scope = pr_scope req, ar_artifact_id = ma_id m\<rparr>])
      in \<lparr>ps_artifacts =
            [ASpawnPlan (str ''spawn-plan-1'') (pr_scope req)
               \<lparr>sp_parent_task_id = str ''root'',
                sp_reason = str ''Need bounded child inspection'',
                sp_children = map (mock_child image_ref) [0..<target],
                sp_expected_artifacts = [KindText],
                sp_budget_request = \<lparr>br_max_tokens = 256, br_max_tool_calls = 0\<rparr>\<rparr>],
          ps_tool_calls = [], ps_usage = provider_usage_default\<rparr>)"

definition tool_context_marker :: ustr where
  "tool_context_marker = str ''Root-visible tool context observed so far:''"

definition mock_synthesis_text :: "ustr \<Rightarrow> ustr" where
  "mock_synthesis_text input_text =
     (if contains_str input_text tool_context_marker
      then str ''Here is a clear, usable answer based on the verified agent results.\<newline>'' @ input_text
      else
        (case find (\<lambda>line. contains_str line (str ''Here is a clear, usable answer from tool results:''))
                (lines input_text) of
           Some line \<Rightarrow> line
         | None \<Rightarrow> str ''Here is a clear, usable answer based on the verified agent results.''))"

definition mock_reasoning_summary :: "ustr \<Rightarrow> ustr" where
  "mock_reasoning_summary input_text =
     (let ls = filter_map (\<lambda>line.
            map_option (\<lambda>(task, _). task @ str '' (Worker agent): summarized worker finding'')
              (split_once (str '' (Worker agent):'') (trim line))) (lines input_text)
      in if ls = [] then str ''No worker summaries were available.'' else join (str ''\<newline>'') ls)"

definition mock_verdict_json :: "agent_artifact list \<Rightarrow> json" where
  "mock_verdict_json artifacts =
     json_object [(str ''passed'', JBool True), (str ''issues'', JArray []),
       (str ''covered_artifact_ids'', JArray (map (\<lambda>a. JString (artifact_id_of a)) artifacts))]"

definition mock_text :: "'z text_env_scheme \<Rightarrow> provider_request \<Rightarrow> ustr" where
  "mock_text te req =
     (case st_role (pr_task req) of
        Worker \<Rightarrow>
          (if contains_str (pr_input_text req) tool_context_marker
           then str ''child completed: '' @ st_objective (pr_task req) @ str ''\<newline>'' @ pr_input_text req
           else str ''child completed: '' @ st_objective (pr_task req))
      | ReasoningSummarizer \<Rightarrow> mock_reasoning_summary (pr_input_text req)
      | Verifier \<Rightarrow> te_json_text te (mock_verdict_json (pr_artifacts req))
      | Synthesizer \<Rightarrow> mock_synthesis_text (pr_input_text req)
      | _ \<Rightarrow> str ''Here is a clear, usable answer: '' @ pr_input_text req)"

definition mock_tool_call :: "provider_request \<Rightarrow> tool_call_record" where
  "mock_tool_call req =
     \<lparr>tc_tool_call_id = str ''call-1'', tc_scope = pr_scope req,
      tc_task_id = st_task_id (pr_task req), tc_agent_id = str ''agent-root'',
      tc_tool_name = str ''lookup'',
      tc_arguments_json = json_object [(str ''query'', JString (str ''required''))],
      tc_arguments_sha256 = str ''mock-args'', tc_status = Pending, tc_created_at_ms = 1,
      tc_resolved_at_ms = None\<rparr>"

definition mock_response :: "'z text_env_scheme \<Rightarrow> provider_request \<Rightarrow> provider_response" where
  "mock_response te req =
     (let leader = (st_role (pr_task req) = Leader)
      in if leader \<and> pr_tool_results req \<noteq> [] then
           mock_text_response req
             (str ''Here is a clear, usable answer from tool results: '' @
              join (str ''\<newline>'') (map (\<lambda>r. tr_tool_call_id r @ str ''='' @ te_json_text te (tr_result_json r))
                          (pr_tool_results req)))
         else if leader \<and> contains_str (st_objective (pr_task req)) (str ''orchestration plan'')
         then mock_spawn_plan_response req
         else if leader \<and> contains_str (pr_input_text req) (str ''tool'')
         then \<lparr>ps_artifacts = [], ps_tool_calls = [mock_tool_call req],
               ps_usage = provider_usage_default\<rparr>
         else if leader \<and> contains_str (pr_input_text req) (str ''spawn'')
         then mock_spawn_plan_response req
         else mock_text_response req (mock_text te req))"

text \<open>As a provider over any world: it answers at once and changes nothing.\<close>

definition mock_invoke :: "'z text_env_scheme \<Rightarrow> 'w provider" where
  "mock_invoke te w req = (w, 0, Inr (mock_response te req))"

interpretation mock: stateless_provider "mock_invoke te" for te
  by unfold_locales (simp add: mock_invoke_def)

section \<open>Lemmas\<close>

lemma response_plans_mock_plan:
  "response_plans (mock_spawn_plan_response req) = [the (plan_of (hd (ps_artifacts (mock_spawn_plan_response req))))]"
  by (simp add: response_plans_def mock_spawn_plan_response_def Let_def)

lemma mock_plan_children:
  "concat (map sp_children (response_plans (mock_spawn_plan_response req)))
     = map (mock_child (case pr_media_artifacts req of
                          [] \<Rightarrow> []
                        | m # _ \<Rightarrow> [\<lparr>ar_scope = pr_scope req, ar_artifact_id = ma_id m\<rparr>]))
         [0..<target_child_agents req]"
  by (simp add: response_plans_def mock_spawn_plan_response_def Let_def)

lemma mock_child_ids_distinct: "distinct (map (st_task_id \<circ> mock_child refs) [0..<n])"
  by (simp add: distinct_map inj_on_def mock_child_def)

lemma mock_text_response_texts [simp]:
  "ps_tool_calls (mock_text_response req t) = []"
  "filter_map text_of (ps_artifacts (mock_text_response req t)) = [t]"
  "response_plans (mock_text_response req t) = []"
  by (simp_all add: mock_text_response_def response_plans_def)

end
