(* ===== verification/Kernel_Outcome.thy ===== *)
theory Kernel_Outcome
  imports Kernel_Bounds Kernel_Mock
begin

text \<open>
  What a run returns: the outcome of the planner, the answers of the children, the synthesis and
  its retries, the semantic verdict, and the fields of the output.
\<close>

section \<open>The planner\<close>

lemma normalize_count_le:
  "pc_child_count (planner_coverage_of (normalize_over_target_orchestration_plans policy r))
     \<le> policy_max_agents policy"
  by (simp add: coverage_child_count sum_children_concat normalize_plans_children)

lemma settle_plan_accepts:
  assumes "settle_plan policy effort r = Inr (r', issue)" and "1 < policy_max_agents policy"
  shows "response_plans r' \<noteq> []"
    and "pc_child_count (planner_coverage_of r') = policy_max_agents policy"
proof -
  have "\<not> should_repair_orchestration_plan (planner_coverage_of r') policy"
  proof (cases "should_repair_orchestration_plan (planner_coverage_of r) policy")
    case True
    obtain r1 added where rec: "reconcile_under_target_orchestration_plan policy r = (r1, added)"
      by fastforce
    have "added = 0 \<Longrightarrow> r1 = r"
      using rec by (auto simp: reconcile_under_target_orchestration_plan_def Let_def
          split: if_splits list.splits)
    with assms(1) True rec show ?thesis
      by (auto simp: settle_plan_def Let_def split: if_splits)
  next
    case False
    with assms(1) show ?thesis
      by (auto simp: settle_plan_def Let_def split: if_splits)
  qed
  with assms(2) show "response_plans r' \<noteq> []"
    and "pc_child_count (planner_coverage_of r') = policy_max_agents policy"
    by (auto simp: should_repair_orchestration_plan_def Let_def)
qed

lemma settle_plan_refuses_iff:
  assumes "1 < policy_max_agents policy"
    and "pc_child_count (planner_coverage_of r) \<le> policy_max_agents policy"
  shows "(\<exists>e. settle_plan policy effort r = Inl e) \<longleftrightarrow> pc_child_count (planner_coverage_of r) = 0"
proof
  assume none: "pc_child_count (planner_coverage_of r) = 0"
  have "should_repair_orchestration_plan (planner_coverage_of r) policy"
    using none assms(1) by (simp add: should_repair_orchestration_plan_def Let_def)
  with none show "\<exists>e. settle_plan policy effort r = Inl e"
    by (simp add: settle_plan_def Let_def reconcile_no_plan)
next
  assume "\<exists>e. settle_plan policy effort r = Inl e"
  then obtain e where e: "settle_plan policy effort r = Inl e" by blast
  show "pc_child_count (planner_coverage_of r) = 0"
  proof (rule ccontr)
    assume pos: "pc_child_count (planner_coverage_of r) \<noteq> 0"
    have plans: "response_plans r \<noteq> []"
      using pos by (auto simp: coverage_child_count)
    show False
    proof (cases "pc_child_count (planner_coverage_of r) = policy_max_agents policy")
      case True
      with plans e show False
        by (simp add: settle_plan_def Let_def should_repair_orchestration_plan_def)
    next
      case False
      with assms(2) have less: "pc_child_count (planner_coverage_of r) < policy_max_agents policy"
        by simp
      obtain r1 added where rec: "reconcile_under_target_orchestration_plan policy r = (r1, added)"
        by fastforce
      have count: "pc_child_count (planner_coverage_of r1) = policy_max_agents policy"
        and added: "0 < added"
        using reconcile_count [OF rec] pos less by simp_all
      have "response_plans r1 \<noteq> []"
        using count less by (auto simp: coverage_child_count)
      with count added rec e less show False
        by (simp add: settle_plan_def Let_def should_repair_orchestration_plan_def split: if_splits)
    qed
  qed
qed

text \<open>A plan that was reconciled says so, and only then.\<close>

lemma settle_plan_issue:
  assumes "settle_plan policy effort r = Inr (r', issue)"
    and "pc_child_count (planner_coverage_of r) \<le> policy_max_agents policy"
  shows "issue = None \<longrightarrow> r' = r"
    and "issue = Some i \<Longrightarrow> i = reconciled_issue
      (policy_max_agents policy - pc_child_count (planner_coverage_of r))"
  using assms
  by (auto simp: settle_plan_def Let_def reconcile_under_target_orchestration_plan_def
      split: if_splits list.splits prod.splits)

section \<open>The children\<close>

lemma run_schedule_all_Inr:
  "fst (run_schedule env reqs is w) = map Inr xs \<Longrightarrow> map fst xs = is"
proof (induction "is" arbitrary: w xs)
  case (Cons i "is")
  obtain r w1 where "invoke_on env (reqs ! i) w = (r, w1)" by fastforce
  moreover obtain rs w2 where "run_schedule env reqs is w1 = (rs, w2)" by fastforce
  ultimately show ?case
    using Cons.prems Cons.IH [of w1] by (cases xs) (auto split: sum.splits)
qed simp

lemma distinct_map_sort_key: "distinct (map f xs) \<Longrightarrow> distinct (map f (sort_key f xs))"
  by (simp add: distinct_map)

lemma sorted_indices:
  assumes "distinct (map fst xs)" and "set (map fst xs) = {0..<n}"
  shows "map fst (sort_key fst xs) = [0..<n]"
proof (rule sorted_distinct_set_unique)
  show "sorted (map fst (sort_key fst xs))" by simp
  show "distinct (map fst (sort_key fst xs))"
    using assms(1) by (rule distinct_map_sort_key)
  show "set (map fst (sort_key fst xs)) = set [0..<n]"
    using assms(2) by simp
qed simp_all

text \<open>When all children answer, the answers come in task order, whatever the executor did.\<close>

lemma fan_out_Inr:
  assumes "fan_out env limit reqs s = (Inr xs, s')" and "0 < limit"
  shows "map fst xs = [0..<length reqs]"
proof -
  let ?order = "completion_order limit (length reqs) (ke_pick env (rs_world s))"
  obtain ys where ys: "fst (run_schedule env reqs ?order (rs_world s)) = map Inr ys"
    and xs: "xs = sort_key fst ys"
    using assms(1) by (auto simp: fan_out_def ebind_Inr_iff collect_results_Inr split: prod.splits)
  have "map fst ys = ?order"
    using ys by (rule run_schedule_all_Inr)
  then show ?thesis
    unfolding xs using assms(2) by (intro sorted_indices) simp_all
qed

lemma run_schedule_stateless:
  assumes "\<And>w w' req. snd (ke_invoke env w req) = snd (ke_invoke env w' req)"
  shows "fst (run_schedule env reqs is w) =
    map (\<lambda>i. case fst (invoke_on env (reqs ! i) undefined) of Inl e \<Rightarrow> Inl e | Inr x \<Rightarrow> Inr (i, x)) is"
proof (induction "is" arbitrary: w)
  case (Cons i "is")
  have "fst (invoke_on env (reqs ! i) w) = fst (invoke_on env (reqs ! i) undefined)"
    using assms [of w "reqs ! i" undefined] by (simp add: invoke_on_def case_prod_beta)
  with Cons show ?case by (simp add: case_prod_beta)
qed simp

context stateless_provider
begin

text \<open>What each request is answered, timeout included.\<close>

definition outcome :: "provider_request \<Rightarrow> kernel_error + provider_response" where
  "outcome req = with_timeout (st_task_id (pr_task req)) (effective_timeout (pr_task req))
     (fst (answer req)) (snd (answer req))"

lemma fst_invoke_on: "ke_invoke env = invoke \<Longrightarrow> fst (invoke_on env req w) = outcome req"
  by (simp add: invoke_on_def outcome_def case_prod_beta invoke_answer [symmetric, of req w])

lemma fan_out_outcomes:
  assumes "ke_invoke env = invoke" and "0 < limit"
  shows "fst (fan_out env limit reqs s) = Inr xs \<longleftrightarrow>
    map fst xs = [0..<length reqs] \<and> (\<forall>(i, r) \<in> set xs. outcome (reqs ! i) = Inr r)"
proof -
  let ?order = "completion_order limit (length reqs) (ke_pick env (rs_world s))"
  let ?res = "\<lambda>i. case outcome (reqs ! i) of Inl e \<Rightarrow> Inl e | Inr x \<Rightarrow> Inr (i, x)"
  have run: "fst (run_schedule env reqs ?order (rs_world s)) = map ?res ?order"
    using run_schedule_stateless [of env reqs ?order "rs_world s"] stateless
    by (simp add: fst_invoke_on [OF assms(1)] assms(1))
  have val: "fst (fan_out env limit reqs s)
      = ebind (collect_results (map ?res ?order)) (\<lambda>ys. Inr (sort_key fst ys))"
    by (simp add: fan_out_def run case_prod_beta)
  show ?thesis
  proof
    assume "fst (fan_out env limit reqs s) = Inr xs"
    then obtain ys where ys: "map ?res ?order = map Inr ys" and xs: "xs = sort_key fst ys"
      unfolding val by (auto simp: ebind_Inr_iff collect_results_Inr)
    have "map fst xs = [0..<length reqs]"
      using \<open>fst (fan_out env limit reqs s) = Inr xs\<close> assms(2) by (metis fan_out_Inr prod.collapse)
    moreover have "outcome (reqs ! i) = Inr r" if "(i, r) \<in> set ys" for i r
    proof -
      have "Inr (i, r) \<in> set (map ?res ?order)"
        unfolding ys using that by simp
      then show ?thesis by (auto split: sum.splits)
    qed
    ultimately show "map fst xs = [0..<length reqs] \<and> (\<forall>(i, r) \<in> set xs. outcome (reqs ! i) = Inr r)"
      by (auto simp: xs)
  next
    assume xs: "map fst xs = [0..<length reqs] \<and> (\<forall>(i, r) \<in> set xs. outcome (reqs ! i) = Inr r)"
    then have fsts: "map fst xs = [0..<length reqs]"
      and outs: "\<forall>(i, r) \<in> set xs. outcome (reqs ! i) = Inr r" by simp_all
    have len: "length xs = length reqs"
      using arg_cong [OF fsts, of length] by simp
    let ?ys = "map (\<lambda>i. xs ! i) ?order"
    have nth: "fst (xs ! i) = i \<and> outcome (reqs ! i) = Inr (snd (xs ! i))"
      if "i < length reqs" for i
    proof -
      have "fst (xs ! i) = i"
        using arg_cong [OF fsts, of "\<lambda>ys. ys ! i"] that len by simp
      moreover have "xs ! i \<in> set xs" using len that by simp
      then have "outcome (reqs ! fst (xs ! i)) = Inr (snd (xs ! i))"
        using outs by (auto simp: case_prod_beta)
      ultimately show ?thesis by simp
    qed
    have res: "?res i = Inr (xs ! i)" if "i < length reqs" for i
    proof -
      have "?res i = Inr (i, snd (xs ! i))"
        using conjunct2 [OF nth [OF that]] by simp
      also have "(i, snd (xs ! i)) = xs ! i"
        using nth [OF that] by (metis prod.collapse)
      finally show ?thesis .
    qed
    have "map ?res ?order = map (\<lambda>i. Inr (xs ! i)) ?order"
      by (rule map_cong [OF refl]) (rule res, use assms(2) in simp)
    then have "map ?res ?order = map Inr ?ys"
      by (simp add: comp_def)
    moreover have "sort_key fst ?ys = xs"
    proof (rule map_sorted_distinct_set_unique [where f = fst])
      have "map fst ?ys = ?order"
        by (rule map_idI [of ?order, unfolded comp_def, THEN trans [rotated]])
          (use nth assms(2) in auto)
      then have "distinct (map fst ?ys)"
        using assms(2) by (simp only: distinct_completion_order)
      then show "distinct (map fst (sort_key fst ?ys))"
        by (rule distinct_map_sort_key)
      have "set ?ys = (!) xs ` {0..<length xs}"
        using assms(2) len by simp
      also have "\<dots> = set xs"
        by (auto simp: set_conv_nth)
      finally have "set ?ys = set xs" .
      then show sets: "set (sort_key fst ?ys) = set xs" by simp
      show "distinct (map fst xs)" "sorted (map fst xs)" by (simp_all add: fsts)
      then show "inj_on fst (set (sort_key fst ?ys) \<union> set xs)"
        by (simp only: sets distinct_map Un_absorb)
    qed simp
    ultimately show "fst (fan_out env limit reqs s) = Inr xs"
      unfolding val ebind_Inr_iff collect_results_Inr by blast
  qed
qed

end

end
