(* ===== verification/Kernel_Result.thy ===== *)
theory Kernel_Result
  imports Kernel_Outcome
begin

text \<open>
  The result of a run: what the children leave sealed, when synthesis and verification give up,
  and how the fields of the output hang together.
\<close>

section \<open>Sealed states\<close>

text \<open>What a sealed state shows of the task it belongs to.\<close>

definition seal_label :: "encrypted_agent_state \<Rightarrow> task_id \<times> ustr" where
  "seal_label e = (es_task_id e, es_aad e)"

definition task_label :: "isolation_key \<Rightarrow> subtask_spec \<Rightarrow> task_id \<times> ustr" where
  "task_label scope t =
     (st_task_id t, ik_request scope @ str '':'' @ ik_conversation scope @ str '':'' @ st_task_id t)"

lemma seal_sealed:
  "seal_subagent_state env scope task r s = (Inr e, s') \<Longrightarrow>
   seal_label e = task_label scope task \<and> rs_sealed s' = rs_sealed s"
  by (auto simp: seal_subagent_state_def Let_def seal_label_def task_label_def state_aad_def
      split: prod.splits option.splits)

lemma kapply_sealed:
  "kapply env policy scope t r ts s = (Inr ts', s') \<Longrightarrow> rs_sealed s' = rs_sealed s"
  by (auto simp: kapply_def split: sum.splits prod.splits)

lemma absorb_child_sealed:
  assumes "absorb_child env cx req r s = (Inr u, s')"
  shows "map seal_label (rs_sealed s') = map seal_label (rs_sealed s) @ [task_label (rc_scope cx) (pr_task req)]"
  using assms
  by (auto simp: absorb_child_def kbind_Inr_iff kaccount_def ktrace_def
      dest!: seal_sealed kapply_sealed)

lemma absorb_children_sealed:
  assumes "absorb_children env cx reqs results s = (Inr u, s')"
  shows "map seal_label (rs_sealed s') = map seal_label (rs_sealed s)
    @ map (\<lambda>(i, r). task_label (rc_scope cx) (pr_task (reqs ! i))) results"
  using assms
proof (induction results arbitrary: s)
  case Nil
  then show ?case by simp
next
  case (Cons e results)
  obtain i r where e: "e = (i, r)" by fastforce
  with Cons.prems obtain u' s1 where "absorb_child env cx (reqs ! i) r s = (Inr u', s1)"
    and "absorb_children env cx reqs results s1 = (Inr u, s')"
    by (auto simp: kbind_Inr_iff)
  with Cons.IH absorb_child_sealed e show ?case by fastforce
qed

lemma task_label_child_request:
  "task_label scope (pr_task (child_request env cx store t)) = task_label scope t"
  by (simp add: task_label_def child_request_def internal_request_def Let_def)

lemma run_children_Inr:
  assumes "run_children env cx s = (Inr b, s')"
  obtains results s1 where
    "fan_out env (parallel_limit cx) (child_requests env cx s) s = (Inr results, s1)"
    "absorb_children env cx (child_requests env cx s) results s1 = (Inr (), s')"
    "b \<longleftrightarrow> child_tasks (ks_graph (rs_stores s)) \<noteq> []"
    "map fst results = [0..<length (child_requests env cx s)]"
    "rs_sealed s1 = rs_sealed s"
  using assms that fan_out_Inr [OF _ parallel_limit_pos, of env cx "child_requests env cx s" s]
  by (fastforce simp: run_children_def kbind_Inr_iff child_requests_def fan_out_def split: prod.splits)

lemma run_children_sealed:
  assumes "run_children env cx s = (Inr b, s')"
  shows "map seal_label (rs_sealed s') =
    map seal_label (rs_sealed s) @ map (task_label (rc_scope cx)) (child_tasks (ks_graph (rs_stores s)))"
proof -
  let ?reqs = "child_requests env cx s"
  obtain results s1 where absorb: "absorb_children env cx ?reqs results s1 = (Inr (), s')"
    and idx: "map fst results = [0..<length ?reqs]" and s1: "rs_sealed s1 = rs_sealed s"
    using assms by (rule run_children_Inr)
  have "map (\<lambda>(i, r). task_label (rc_scope cx) (pr_task (?reqs ! i))) results
      = map (\<lambda>i. task_label (rc_scope cx) (pr_task (?reqs ! i))) (map fst results)"
    by (simp add: comp_def case_prod_beta)
  also have "\<dots> = map (\<lambda>req. task_label (rc_scope cx) (pr_task req)) ?reqs"
    unfolding idx by (rule nth_equalityI) simp_all
  also have "\<dots> = map (task_label (rc_scope cx)) (child_tasks (ks_graph (rs_stores s)))"
    by (simp add: child_requests_def comp_def task_label_child_request)
  finally show ?thesis
    using absorb_children_sealed [OF absorb] s1 by simp
qed

section \<open>What the children see\<close>

text \<open>Every reference of a child stays in the run's scope.\<close>

definition refs_scoped :: "run_ctx \<Rightarrow> kernel_stores \<Rightarrow> bool" where
  "refs_scoped cx ks \<longleftrightarrow>
     (\<forall>t \<in> set (child_tasks (ks_graph ks)). \<forall>r \<in> set (st_input_artifact_refs t). ar_scope r = rc_scope cx)"

lemma child_tasks_insert_subset:
  "set (child_tasks (insert_task t g)) \<subseteq> insert t (set (child_tasks g))"
  using bt_values_insert [of "st_task_id t" t "tg_tasks g"] by (auto simp: child_tasks_def)

lemma child_tasks_insert_tasks_subset:
  "set (child_tasks (insert_tasks ts g)) \<subseteq> set ts \<union> set (child_tasks g)"
proof (induction ts arbitrary: g)
  case (Cons t ts)
  then show ?case using child_tasks_insert_subset [of t g] by fastforce
qed simp

lemma validate_refs:
  assumes "validate_and_apply policy scope store g plan = Inr g'"
    and "t \<in> set (child_tasks g')" and "r \<in> set (st_input_artifact_refs t)" and "t \<notin> set (child_tasks g)"
  shows "ar_scope r = scope"
  using assms child_tasks_insert_tasks_subset [of "sp_children plan" g]
  by (auto simp: validate_accepts_iff plan_admissible_def child_admissible_def)

lemma apply_plan_refs:
  assumes "apply_plan policy (rc_scope cx) plan ks = Inr ks'" and "refs_scoped cx ks"
  shows "refs_scoped cx ks'"
  using assms(1)
proof (rule apply_plan_cases)
  fix g cs
  assume "ks' = ks\<lparr>ks_graph := g\<rparr>"
    and "validate_and_apply policy (rc_scope cx) (ks_store ks) (ks_graph ks) (plan\<lparr>sp_children := cs\<rparr>) = Inr g"
  with assms(2) show ?thesis
    using validate_refs unfolding refs_scoped_def by fastforce
qed (use assms(2) in simp)

lemma apply_plans_refs:
  assumes "apply_plans policy scope store ps g = Inr g'"
    and "\<forall>t \<in> set (child_tasks g). \<forall>r \<in> set (st_input_artifact_refs t). ar_scope r = scope"
  shows "\<forall>t \<in> set (child_tasks g'). \<forall>r \<in> set (st_input_artifact_refs t). ar_scope r = scope"
  using assms
proof (induction ps arbitrary: g)
  case (Cons p ps)
  then obtain g1 where g1: "validate_and_apply policy scope store g p = Inr g1"
    and rest: "apply_plans policy scope store ps g1 = Inr g'"
    by (auto simp: ebind_Inr_iff)
  show ?case
    by (rule Cons.IH [OF rest]) (use validate_refs [OF g1] Cons.prems(2) in blast)
qed simp

lemma apply_response_refs:
  assumes "apply_provider_response plan_text policy (rc_scope cx) t r s = Inr s'"
    and "refs_scoped cx (fst s)"
  shows "refs_scoped cx (fst s')"
proof -
  have "apply_artifacts plan_text policy (rc_scope cx) t (ps_artifacts r)
      ((fst s)\<lparr>ks_ledger := record_calls (ps_tool_calls r) (ks_ledger (fst s))\<rparr>, snd s) = Inr s'"
    using assms(1) by (simp add: apply_provider_response_def split: if_splits)
  then show ?thesis
    by (rule apply_artifacts_invariant [where P = "refs_scoped cx"])
      (use assms(2) in \<open>auto simp: refs_scoped_def intro: apply_plan_refs [unfolded refs_scoped_def, THEN bspec, THEN bspec]\<close>)
qed

interpretation root_refs: root_invariant env cx "\<lambda>_. True"
  "\<lambda>s. store_wf (ks_store (rs_stores s)) \<and> refs_scoped cx (rs_stores s)" for env cx
proof (unfold_locales, goal_cases)
  case (7 s t r ts stores ts')
  have "store_wf (ks_store stores)"
  proof -
    have "apply_artifacts (ke_plan_text env) (rc_policy cx) (rc_scope cx) t (ps_artifacts r)
        ((rs_stores s)\<lparr>ks_ledger := record_calls (ps_tool_calls r) (ks_ledger (rs_stores s))\<rparr>, ts)
        = Inr (stores, ts')"
      using 7(2) by (simp add: apply_provider_response_def split: if_splits)
    then show ?thesis
      by (rule apply_artifacts_invariant [where P = "\<lambda>ks. store_wf (ks_store ks)" and s' = "(stores, ts')",
            simplified fst_conv]) (use 7(1) in \<open>auto dest: apply_plan_ledger\<close>)
  qed
  with 7 apply_response_refs [OF 7(2)] show ?case by simp
next
  case (8 s r seen stores)
  then show ?case
    by (auto simp: apply_spawn_plan_response_def Let_def ebind_Inr_iff refs_scoped_def
        intro: store_wf_fold_insert dest: apply_plans_refs)
qed simp_all

lemma child_request_artifacts:
  assumes "store_wf store" and "\<forall>r \<in> set (st_input_artifact_refs t). ar_scope r = scope"
    and "a \<in> set (pr_artifacts (child_request env cx store t))"
  shows "artifact_scope_of a = scope"
  using assms
  by (auto simp: child_request_def internal_request_def Let_def set_filter_map store_wf_def)

lemma child_requests_isolated:
  assumes "run_root_stage env cx (initial_state cx w) = (Inr issue, s)"
    and "req \<in> set (child_requests env cx s)" and "a \<in> set (pr_artifacts req)"
  shows "artifact_scope_of a = rc_scope cx"
proof -
  have "child_tasks (insert_task (run_root_task cx) (task_graph_new root_task_id)) = []"
    by (simp add: child_tasks_def bt_values_def task_graph_new_def insert_task_def run_root_task_def root_task_def)
  then have "store_wf (ks_store (rs_stores (initial_state cx w))) \<and> refs_scoped cx (rs_stores (initial_state cx w))"
    using store_wf_initial [of cx] by (simp add: refs_scoped_def initial_state_def) (simp add: initial_stores_def)
  then have "store_wf (ks_store (rs_stores s))" "refs_scoped cx (rs_stores s)"
    using keepsD [OF root_refs.keeps_root_stage _ assms(1)] by auto
  moreover obtain t where "t \<in> set (child_tasks (ks_graph (rs_stores s)))"
    and "req = child_request env cx (ks_store (rs_stores s)) t"
    using assms(2) by (auto simp: child_requests_def)
  ultimately show ?thesis
    using assms(3) unfolding refs_scoped_def by (blast intro: child_request_artifacts)
qed

section \<open>Synthesis\<close>

lemma agent_call_Inl:
  assumes "agent_call env post req s = (Inl e, s')"
  shows "(\<exists>p. e = KProvider p) \<or> e = AgentTimeout (st_task_id (pr_task req)) (effective_timeout (pr_task req))"
  using assms
  by (auto simp: agent_call_def kbind_def ktrace_def kaccount_def kmodify_def kret_def invoke_provider_def
      invoke_on_def with_timeout_def Let_def split: prod.splits sum.splits if_splits)

lemma synth_loop_Inr:
  assumes "synth_loop env cx base attempt s = (Inr (text, n), s')"
    and "attempt \<le> max_empty_synthesis_retry_attempts"
  shows "\<not> is_blank text \<and> attempt \<le> n \<and> n \<le> max_empty_synthesis_retry_attempts"
  using assms
proof (induction "max_empty_synthesis_retry_attempts - attempt" arbitrary: attempt s rule: less_induct)
  case less
  from less.prems(1) obtain t s1 where
    "(if \<not> is_blank t then kret (t, attempt)
      else if max_empty_synthesis_retry_attempts \<le> attempt then kthrow (empty_synthesis_error (attempt + 1))
      else synth_loop env cx base (attempt + 1)) s1 = (Inr (text, n), s')"
    by (subst (asm) synth_loop.simps) (auto simp: kbind_Inr_iff)
  moreover have "\<not> max_empty_synthesis_retry_attempts \<le> attempt \<Longrightarrow>
      max_empty_synthesis_retry_attempts - (attempt + 1) < max_empty_synthesis_retry_attempts - attempt"
    by linarith
  ultimately show ?case
    using less.hyps [of "attempt + 1" s1] less.prems(2) by (auto split: if_splits)
qed

lemma synth_loop_Inl:
  assumes "synth_loop env cx base attempt s = (Inl e, s')"
    and "attempt \<le> max_empty_synthesis_retry_attempts"
  shows "e = empty_synthesis_error (max_empty_synthesis_retry_attempts + 1)
    \<or> (\<exists>p. e = KProvider p) \<or> (\<exists>t ms. e = AgentTimeout t ms)"
  using assms
proof (induction "max_empty_synthesis_retry_attempts - attempt" arbitrary: attempt s rule: less_induct)
  case less
  have call: "synth_call env cx base attempt s = (Inl e, s1) \<Longrightarrow>
      (\<exists>p. e = KProvider p) \<or> (\<exists>t ms. e = AgentTimeout t ms)" for s1
    unfolding synth_call_def kbind_def
    by (auto simp: kgraph_def kmodify_def kret_def dest!: agent_call_Inl split: prod.splits sum.splits if_splits)
  show ?case
  proof (cases "synth_call env cx base attempt s")
    case (Pair r s1)
    show ?thesis
    proof (cases r)
      case (Inl e')
      with Pair less.prems(1) have "synth_call env cx base attempt s = (Inl e, s1)"
        by (subst (asm) synth_loop.simps) (simp add: kbind_def)
      from call [OF this] show ?thesis by blast
    next
      case (Inr t)
      with Pair less.prems(1) have
        "(if \<not> is_blank t then kret (t, attempt)
          else if max_empty_synthesis_retry_attempts \<le> attempt then kthrow (empty_synthesis_error (attempt + 1))
          else synth_loop env cx base (attempt + 1)) s1 = (Inl e, s')"
        by (subst (asm) synth_loop.simps) (simp add: kbind_def)
      moreover have "\<not> max_empty_synthesis_retry_attempts \<le> attempt \<Longrightarrow>
          max_empty_synthesis_retry_attempts - (attempt + 1) < max_empty_synthesis_retry_attempts - attempt"
        by linarith
      ultimately show ?thesis
        using less.hyps [of "attempt + 1" s1] less.prems(2) by (auto split: if_splits)
    qed
  qed
qed

section \<open>Semantic verification\<close>

text \<open>A verdict in the texts of an agent: the first one that parses.\<close>

definition verdict_in :: "'w kernel_env \<Rightarrow> ustr list \<Rightarrow> semantic_verdict option" where
  "verdict_in env texts =
     find_map (\<lambda>t. Option.bind (semantic_json_object_candidate t) (ke_parse_verdict env)) texts"

lemma verdict_in_texts:
  "semantic_verdict_from_response env r = verdict_in env (filter_map text_of (ps_artifacts r))"
proof -
  have "find_map (\<lambda>a. case text_of a of None \<Rightarrow> None | Some t \<Rightarrow> f t) as
      = find_map f (filter_map text_of as)" for as and f :: "ustr \<Rightarrow> semantic_verdict option"
    by (induction as) (auto split: option.splits)
  then show ?thesis by (simp add: semantic_verdict_from_response_def verdict_in_def)
qed

text \<open>The run's trace ends with the verifier's answer, and that answer says passed.\<close>

definition verifier_approved :: "'w kernel_env \<Rightarrow> semantic_result \<Rightarrow> 'w run_state \<Rightarrow> bool" where
  "verifier_approved env r s \<longleftrightarrow>
     (\<exists>events task texts calls usage v.
        rs_trace s = events @ [AgentOutput task Verifier texts calls usage]
        \<and> verdict_in env texts = Some v \<and> sd_passed v
        \<and> sr_issues r = [] \<and> sr_covered_artifact_ids r = bs_of (sd_covered_artifact_ids v))"

lemma agent_call_trace:
  assumes "agent_call env post req s = (Inr r, s')"
  shows "\<exists>events. rs_trace s' = events @ trace_events_from_response (pr_task req) r"
  using assms
  by (auto simp: agent_call_def kbind_Inr_iff ktrace_def kaccount_def Let_def)

lemma trace_with_verdict:
  assumes "semantic_verdict_from_response env r = Some v"
  shows "\<exists>events. trace_events_from_response t r = events @
    [AgentOutput (st_task_id t) (st_role t) (filter_map text_of (ps_artifacts r)) (ps_tool_calls r) (ps_usage r)]"
proof -
  have "filter_map text_of (ps_artifacts r) \<noteq> []"
    using assms by (auto simp: verdict_in_texts verdict_in_def)
  then show ?thesis by (simp add: trace_events_from_response_def Let_def)
qed

lemma verifier_pass_Inl:
  assumes "verifier_pass env cx evidence attempts candidate s = (Inr (Inl r), s')"
  shows "sr_final_text r = candidate \<and> (sr_passed r \<longrightarrow> verifier_approved env r s')"
proof -
  let ?t = "verifier_task cx attempts"
  obtain outcome s1 where out: "verifier_outcome env candidate outcome = Inl r"
    and call: "ktry (agent_call env (\<lambda>r. r)
              (internal_request cx ?t (semantic_verifier_input (rc_request cx) evidence candidate) evidence
                 (rc_auxiliary_options cx))) s1 = (Inr outcome, s')"
    using assms by (auto simp: verifier_pass_def kbind_Inr_iff)
  have "verifier_approved env r s'" if passed: "sr_passed r"
  proof -
    obtain response v where o: "outcome = Inr response"
      and v: "semantic_verdict_from_response env response = Some v" "sd_passed v"
      and r: "sr_issues r = []" "sr_covered_artifact_ids r = bs_of (sd_covered_artifact_ids v)"
      using out passed by (auto simp: verifier_outcome_def failed_result_def Let_def
          split: sum.splits option.splits if_splits)
    obtain events where "rs_trace s' = events @ trace_events_from_response ?t response"
      using call o agent_call_trace
      by (fastforce simp: ktry_def internal_request_def Let_def split: prod.splits)
    moreover have "st_role ?t = Verifier"
      by (simp add: verifier_task_def internal_task_def)
    ultimately show ?thesis
      using trace_with_verdict [OF v(1), of ?t] v r
      by (fastforce simp: verifier_approved_def verdict_in_texts)
  qed
  moreover have "sr_final_text r = candidate"
    using out by (auto simp: verifier_outcome_def failed_result_def Let_def
        split: sum.splits option.splits if_splits)
  ultimately show ?thesis by blast
qed

lemma repair_pass_cases:
  assumes "repair_pass env cx evidence attempts candidate issues covered s = (Inr out, s')"
  shows "case out of Inl r \<Rightarrow> sr_final_text r = candidate \<and> \<not> sr_passed r
    | Inr candidate' \<Rightarrow> \<not> is_blank candidate'"
proof -
  obtain outcome where "out = repair_outcome env candidate issues covered outcome"
    using assms by (auto simp: repair_pass_def kbind_Inr_iff)
  then show ?thesis
    by (auto simp: repair_outcome_def failed_result_def Let_def split: sum.split)
qed

text \<open>What every result of the loop satisfies.\<close>

definition semantic_ok :: "'w kernel_env \<Rightarrow> semantic_result \<Rightarrow> 'w run_state \<Rightarrow> bool" where
  "semantic_ok env r s \<longleftrightarrow>
     \<not> is_blank (sr_final_text r) \<and> (sr_passed r \<longrightarrow> verifier_approved env r s)"

lemma semantic_loop_ok:
  assumes "semantic_loop env cx evidence attempts candidate s = (Inr r, s')"
    and "\<not> is_blank candidate"
  shows "semantic_ok env r s'"
  using assms
proof (induction "unat (max_semantic_repairs cx) - unat attempts" arbitrary: attempts candidate s rule: less_induct)
  case less
  from less.prems(1) obtain verdict s1 where
    pass: "verifier_pass env cx evidence attempts candidate s = (Inr verdict, s1)"
    and rest: "(case verdict of Inl result \<Rightarrow> kret result
     | Inr (issues, covered) \<Rightarrow>
         (if max_semantic_repairs cx \<le> attempts then kret (failed_result candidate issues covered)
          else kbind (repair_pass env cx evidence (sat_add attempts 1) candidate issues covered) (\<lambda>repair.
               case repair of Inl result \<Rightarrow> kret result
               | Inr candidate' \<Rightarrow> semantic_loop env cx evidence (sat_add attempts 1) candidate'))) s1
      = (Inr r, s')"
    by (subst (asm) semantic_loop.simps) (auto simp: kbind_Inr_iff)
  show ?case
  proof (cases verdict)
    case (Inl result)
    with pass rest less.prems(2) verifier_pass_Inl show ?thesis
      by (fastforce simp: semantic_ok_def)
  next
    case (Inr ic)
    obtain issues covered where ic: "ic = (issues, covered)" by fastforce
    show ?thesis
    proof (cases "max_semantic_repairs cx \<le> attempts")
      case True
      with rest Inr ic less.prems(2) show ?thesis by (auto simp: semantic_ok_def failed_result_def)
    next
      case False
      then have "attempts < max_semantic_repairs cx" by simp
      then have dec: "unat (max_semantic_repairs cx) - unat (sat_add attempts 1)
          < unat (max_semantic_repairs cx) - unat attempts"
        using next_attempt [of attempts cx] by (simp add: word_less_nat_alt)
      from rest False Inr ic obtain out s2 where
        repair: "repair_pass env cx evidence (sat_add attempts 1) candidate issues covered s1 = (Inr out, s2)"
        and last: "(case out of Inl result \<Rightarrow> kret result
               | Inr candidate' \<Rightarrow> semantic_loop env cx evidence (sat_add attempts 1) candidate') s2 = (Inr r, s')"
        by (auto simp: kbind_Inr_iff)
      show ?thesis
        using last repair_pass_cases [OF repair] less.prems(2) less.hyps [OF dec, of _ s2]
        by (auto simp: semantic_ok_def split: sum.splits)
    qed
  qed
qed

section \<open>The output\<close>

lemma run_stages_Inr:
  assumes "run_stages env cx s0 = (Inr out, s')"
  obtains planning b continuation s1 s2 s3 s4 answer synthesis s5 sem where
    "run_root_stage env cx s0 = (Inr planning, s1)"
    "run_children env cx s1 = (Inr b, s2)"
    "run_continuation env cx b s2 = (Inr continuation, s3)"
    "run_summary env cx b s3 = (Inr (), s4)"
    "run_synthesis env cx b continuation s4 = (Inr (answer, synthesis), s5)"
    "run_verification env cx (layout_final_text (root_unresolved cx s4 = []) answer) s5 = (Inr sem, s')"
    "ko_final_text out = sr_final_text sem"
    "ko_verification out = build_report cx sem (root_unresolved cx s4) planning synthesis s'"
    "ko_tool_calls out = root_unresolved cx s4"
    "ko_encrypted_subagent_state out = rs_sealed s'"
    "ko_task_graph out = ks_graph (rs_stores s')"
    "ko_usage out = fst (rs_usage s')" "ko_provider_call_count out = snd (rs_usage s')"
  using assms that
  by (fastforce simp: run_stages_def kbind_Inr_iff split: prod.splits)

lemma synthesis_unresolved:
  assumes "run_synthesis env cx b continuation s = (Inr (text, synthesis), s')"
    and "root_unresolved cx s \<noteq> []"
  shows "text = [] \<and> synthesis = None \<and> s' = s"
  using assms by (auto simp: run_synthesis_def kbind_Inr_iff)

lemma unresolved_not_benign: "\<not> benign_code (vi_code unresolved_issue)"
  by (simp add: benign_code_def unresolved_issue_def)

lemma output_unresolved:
  assumes "run_stages env cx s0 = (Inr out, s')" and "ko_tool_calls out \<noteq> []"
  shows "ko_final_text out = [] \<and> \<not> vr_passed (ko_verification out)
    \<and> vr_unresolved_tool_calls (ko_verification out) = map tc_tool_call_id (ko_tool_calls out)"
  using assms(1)
proof (rule run_stages_Inr)
  fix planning b continuation s1 s2 s3 s4 answer synthesis s5 sem
  assume synth: "run_synthesis env cx b continuation s4 = (Inr (answer, synthesis), s5)"
    and verif: "run_verification env cx (layout_final_text (root_unresolved cx s4 = []) answer) s5 = (Inr sem, s')"
    and final: "ko_final_text out = sr_final_text sem"
    and report: "ko_verification out = build_report cx sem (root_unresolved cx s4) planning synthesis s'"
    and calls: "ko_tool_calls out = root_unresolved cx s4"
  from calls assms(2) have un: "root_unresolved cx s4 \<noteq> []" by simp
  with synthesis_unresolved [OF synth] have "answer = []" "s5 = s4" by auto
  with verif un have "sr_final_text sem = []"
    by (auto simp: run_verification_def kbind_Inr_iff verification_applies_def layout_final_text_def)
  moreover have "unresolved_issue \<in> set (report_issues sem (root_unresolved cx s4) planning synthesis)"
    using un by (simp add: report_issues_def)
  ultimately show ?thesis
    using unresolved_not_benign by (auto simp: final report build_report_def calls Let_def)
qed

text \<open>An issue of any stage but the three benign ones, and the report is not passed.\<close>

lemma output_passed:
  assumes "run_stages env cx s0 = (Inr out, s')" and "vr_passed (ko_verification out)"
  shows "ko_tool_calls out = [] \<and> (\<forall>i \<in> set (vr_issues (ko_verification out)). benign_code (vi_code i))"
proof -
  have "ko_tool_calls out = []"
    using output_unresolved [OF assms(1)] assms(2) by blast
  then show ?thesis
    using assms(2) run_stages_Inr [OF assms(1)]
    by (metis (no_types, lifting) build_report_def verification_report.select_convs(2,3))
qed

lemma public_calls:
  assumes "run_stages env cx (initial_state cx w) = (Inr out, s')" and "c \<in> set (ko_tool_calls out)"
  shows "tc_scope c = rc_scope cx \<and> tc_task_id c = root_task_id"
  using assms(1)
proof (rule run_stages_Inr)
  fix planning b continuation s1 s2 s3 s4 answer synthesis s5 sem
  assume root: "run_root_stage env cx (initial_state cx w) = (Inr planning, s1)"
    and children: "run_children env cx s1 = (Inr b, s2)"
    and cont: "run_continuation env cx b s2 = (Inr continuation, s3)"
    and summary: "run_summary env cx b s3 = (Inr (), s4)"
    and calls: "ko_tool_calls out = root_unresolved cx s4"
  have "stores_ok cx s1" using stores.keeps_root_stage stores_ok_initial root by (rule keepsD)
  with stores.keeps_children have "stores_ok cx s2" using children by (rule keepsD)
  with stores.keeps_continuation have "stores_ok cx s3" using cont by (rule keepsD)
  with stores.keeps_summary have "stores_ok cx s4" using summary by (rule keepsD)
  then show ?thesis
    using assms(2) unresolved_for_taskD
    by (fastforce simp: calls root_unresolved_def stores_ok_def stores_wf_def)
qed

lemma budget_summary_exact:
  assumes "run_stages env cx (initial_state cx w) = (Inr out, s')"
  shows "unat (tool_calls_used (vr_budget_summary (ko_verification out)))
      = call_count (ks_ledger (rs_stores s'))
    \<and> tool_calls_used (vr_budget_summary (ko_verification out))
      \<le> tool_call_budget (vr_budget_summary (ko_verification out))"
  using assms
proof (rule run_stages_Inr)
  fix planning b continuation s1 s2 s3 s4 answer synthesis s5 sem
  assume report: "ko_verification out = build_report cx sem (root_unresolved cx s4) planning synthesis s'"
  have ok: "call_count (ks_ledger (rs_stores s')) \<le> unat (max_total_tool_calls (rc_limits cx))"
    using run_stores_ok [OF assms] by (simp add: stores_ok_def)
  moreover have "unat (max_total_tool_calls (rc_limits cx)) < 65536"
    using unsigned_less [of "max_total_tool_calls (rc_limits cx)", where 'a = nat] by simp
  ultimately show ?thesis
    by (simp add: report build_report_def Let_def unat_nat_to_word_or_max word_le_nat_alt)
qed

end
