(* ===== verification/Kernel_Modes.thy ===== *)
theory Kernel_Modes
  imports Kernel_Result
begin

text \<open>
  The two modes of a run. Effort none is direct: one request, no children. Every other effort is
  orchestrated by a planner, whose children reach the graph in the configured number.
\<close>

section \<open>The context of a run\<close>

lemma run_context_simps [simp]:
  "rc_request (run_context env policy r) = r"
  "rc_policy (run_context env policy r) = for_request policy r"
  "rc_scope (run_context env policy r) = isolation_key_of r"
  by (simp_all add: run_context_def Let_def)

lemma run_context_agents:
  "policy_max_agents (rc_policy (run_context env policy r)) = unat (max_agents (nr_reasoning_effort r))"
  by (simp add: for_request_agents)

lemma run_context_agents_less: "policy_max_agents (rc_policy (run_context env policy r)) < 65535"
  using max_agents_le [of "nr_reasoning_effort r"] by (simp add: for_request_agents)

lemma orchestrates_iff:
  "should_use_model_orchestration r (for_request policy r) \<longleftrightarrow> \<not> is_direct (nr_reasoning_effort r)"
  by (cases "nr_reasoning_effort r")
    (simp_all add: should_use_model_orchestration_def for_request_agents is_direct_def)

text \<open>The root's tool gate never runs: every effort it is meant for uses the planner.\<close>

lemma tool_gate_idle:
  "\<not> is_direct (nr_reasoning_effort r) \<Longrightarrow> run_tool_gate env (run_context env' policy r) = kret []"
  by (simp add: run_tool_gate_def orchestrates_iff)

section \<open>The direct mode\<close>

lemma tail_without_children:
  "run_continuation env cx False s = (Inr [], s)"
  "run_summary env cx False s = (Inr (), s)"
  "run_synthesis env cx False [] s =
     (Inr (if root_unresolved cx s = [] then synthesize_text (rs_texts s) else [], None), s)"
  by (simp_all add: run_continuation_def run_summary_def run_synthesis_def kbind_def kread_def kret_def)

lemma verification_direct:
  "is_direct (nr_reasoning_effort (rc_request cx)) \<Longrightarrow> \<exists>sem. run_verification env cx t s = (Inr sem, s)"
  by (simp add: run_verification_def verification_applies_def kbind_def kread_def)

lemma children_none:
  assumes "child_tasks (ks_graph (rs_stores s)) = []"
  shows "run_children env cx s = (Inr False, s)"
  using assms
  by (simp add: run_children_def kbind_def kread_def kret_def child_requests_def fan_out_def
      completion_order_def fan_init_def)

lemma agent_call_log:
  "run_log (snd (agent_call (recording_env env) post req s)) = run_log s @ [req]"
proof -
  have "snd (snd (invoke_on (recording_env env) req w)) = snd w @ [req]" for w
    by (rule recording_invoke)
  then show ?thesis
    by (simp add: agent_call_def kbind_def ktrace_def kmodify_def kaccount_def kret_def run_log_def Let_def
        invoke_provider_def case_prod_beta split: sum.split)
qed

lemma root_into_texts_log:
  "run_log (snd (root_call_into_texts (recording_env env) cx s)) =
     run_log s @ [root_request cx (run_root_task cx) (flatten_text (rc_request cx)) []]"
proof -
  let ?req = "root_request cx (run_root_task cx) (flatten_text (rc_request cx)) []"
  obtain r s1 where call: "agent_call (recording_env env) (\<lambda>r. r) ?req s = (r, s1)" by fastforce
  then have log: "run_log s1 = run_log s @ [?req]"
    using agent_call_log [of env "\<lambda>r. r" ?req s] by simp
  have "run_log (snd (kapply (recording_env env) policy scope t resp ts s1)) = run_log s1" for policy scope t resp ts
    by (simp add: kapply_def run_log_def split: sum.split prod.split)
  then show ?thesis
    using call log
    by (simp add: root_call_into_texts_def root_call_def kbind_def kread_def kmodify_def run_log_def case_prod_beta
        split: sum.split)
qed

lemma direct_log:
  assumes "is_direct (nr_reasoning_effort (rc_request cx))"
    and "policy_max_agents (rc_policy cx) = 0"
    and "run_stages (recording_env env) cx (initial_state cx (w, [])) = (out, s)"
  shows "run_log s = [root_request cx (run_root_task cx) (flatten_text (rc_request cx)) []]"
proof -
  let ?env = "recording_env env" and ?s0 = "initial_state cx (w, [])"
  obtain r1 s1 where root: "run_root_stage ?env cx ?s0 = (r1, s1)" by fastforce
  have "s1 = snd (root_call_into_texts ?env cx ?s0)"
    using root assms(1)
    by (auto simp: run_root_stage_def run_direct_def kbind_def kret_def split: prod.splits sum.splits)
  then have log: "run_log s1 = [root_request cx (run_root_task cx) (flatten_text (rc_request cx)) []]"
    using root_into_texts_log [of env cx ?s0] by (simp add: run_log_def initial_state_def)
  show ?thesis
  proof (cases r1)
    case (Inl e)
    with assms(3) root log show ?thesis by (simp add: run_stages_def kbind_def)
  next
    case (Inr planning)
    have "child_tasks (ks_graph (rs_stores s1)) = []"
      using root_stage_children [OF root [unfolded Inr]] assms(2) by simp
    then have children: "run_children ?env cx s1 = (Inr False, s1)"
      by (rule children_none)
    have "s = s1"
      using assms(3) verification_direct [OF assms(1), of ?env _ s1]
      by (auto simp: run_stages_def kbind_def root Inr children tail_without_children kread_def
          split: prod.splits sum.splits) (metis Inl_Inr_False old.prod.inject)+
    with log show ?thesis by simp
  qed
qed

section \<open>The planner's children\<close>

lemma agent_call_stores: "keeps (\<lambda>s. rs_stores s = st) (agent_call env post req)"
proof -
  have "keeps (\<lambda>s. rs_stores s = st) (invoke_provider env req)"
    by (simp add: keeps_def invoke_provider_def split: prod.split)
  then show ?thesis
    unfolding agent_call_def Let_def ktrace_def kaccount_def
    by (intro keeps_rules keeps_kmodify) simp_all
qed

lemma planner_repairs_stores: "keeps (\<lambda>s. rs_stores s = st) (planner_repairs env cx attempts r)"
proof (induction "max_orchestration_repair_attempts - attempts" arbitrary: attempts r rule: less_induct)
  case less
  show ?case
    by (subst planner_repairs.simps, unfold planner_call_def, intro keeps_rules agent_call_stores less) auto
qed

lemma insert_tasks_new: "bt_get (tg_tasks (insert_tasks ts g)) k = None \<Longrightarrow> bt_get (tg_tasks g) k = None"
proof (induction ts arbitrary: g)
  case (Cons t ts)
  have "bt_get (tg_tasks (insert_task t g)) k = None"
    using Cons.IH [of "insert_task t g"] Cons.prems by (simp only: insert_tasks_simps)
  then show ?case by (simp add: bt.lookup_insert split: if_splits)
qed simp

lemma apply_plans_new:
  assumes "apply_plans policy scope store ps g = Inr g'"
  shows "list_all (\<lambda>c. bt_get (tg_tasks g) (st_task_id c) = None) (concat (map sp_children ps))"
  using assms
proof (induction ps arbitrary: g)
  case (Cons p ps)
  then obtain g1 where p: "validate_and_apply policy scope store g p = Inr g1" and "apply_plans policy scope store ps g1 = Inr g'"
    by (auto simp: ebind_Inr_iff)
  from Cons.IH [OF this(2)] p insert_tasks_new [of "sp_children p" g] show ?case
    by (auto simp: validate_accepts_iff plan_admissible_def child_admissible_def list_all_iff)
qed simp

text \<open>A plan that is accepted: as the model planned it, with the children that complete it.\<close>

lemma settle_plan_children:
  assumes "settle_plan policy effort r = Inr (r', issue)" and "1 < policy_max_agents policy"
  obtains p ps added where "response_plans r = p # ps"
    and "response_plans r' = p\<lparr>sp_children := sp_children p @ added\<rparr> # ps"
    and "sp_children p @ concat (map sp_children ps) \<noteq> []"
    and "length (sp_children p @ added @ concat (map sp_children ps)) = policy_max_agents policy"
    and "distinct (map st_task_id added)"
    and "st_task_id ` set added \<inter> st_task_id ` set (sp_children p @ concat (map sp_children ps)) = {}"
    and "issue = (if added = [] then None else Some (reconciled_issue (length added)))"
proof (cases "should_repair_orchestration_plan (planner_coverage_of r) policy")
  case False
  then obtain p ps where p: "response_plans r = p # ps"
    and n: "pc_child_count (planner_coverage_of r) = policy_max_agents policy"
    using assms(2) by (cases "response_plans r") (auto simp: should_repair_orchestration_plan_def Let_def)
  have "r' = r" "issue = None" using assms(1) False by (auto simp: settle_plan_def Let_def split: if_splits)
  moreover have len: "length (sp_children p @ concat (map sp_children ps)) = policy_max_agents policy"
    using p n by (simp add: coverage_child_count sum_children_concat del: length_concat)
  moreover have "sp_children p @ concat (map sp_children ps) \<noteq> []"
    using len assms(2) by (metis list.size(3) not_less_zero)
  ultimately show thesis using p by (intro that [of p ps "[]"]) simp_all
next
  case True
  obtain r1 n where rec: "reconcile_under_target_orchestration_plan policy r = (r1, n)" by fastforce
  have "0 < n"
    using assms(1) True rec by (auto simp: settle_plan_def Let_def split: if_splits)
  then have r': "r' = r1" and issue: "issue = Some (reconciled_issue n)"
    using assms(1) True rec by (auto simp: settle_plan_def Let_def split: if_splits)
  obtain p ps added where pl: "response_plans r = p # ps" "response_plans r1 = p\<lparr>sp_children := sp_children p @ added\<rparr> # ps"
    "length added = n" "n = policy_max_agents policy - pc_child_count (planner_coverage_of r)" "distinct (map st_task_id added)"
    "st_task_id ` set added \<inter> st_task_id ` set (concat (map sp_children (response_plans r))) = {}"
    using reconcile_plans [OF rec \<open>0 < n\<close>] by metis
  have pos: "pc_child_count (planner_coverage_of r) \<noteq> 0"
    using rec \<open>0 < n\<close> reconcile_no_plan [of r policy] by auto
  have len: "length (sp_children p @ concat (map sp_children ps)) = pc_child_count (planner_coverage_of r)"
    using pl(1) by (simp add: coverage_child_count sum_children_concat del: length_concat)
  then have "sp_children p @ concat (map sp_children ps) \<noteq> []" using pos by (metis list.size(3))
  with pl len \<open>0 < n\<close> issue r' show thesis
    by (intro that [of p ps added]) auto
qed

text \<open>The last answer of the planner, after its repairs.\<close>

definition planner_answered :: "'w kernel_env \<Rightarrow> run_ctx \<Rightarrow> 'w run_state \<Rightarrow> provider_response \<Rightarrow> bool" where
  "planner_answered env cx s response \<longleftrightarrow> (\<exists>first s1 s2.
     planner_call env cx (orchestration_planner_task root_task_id (rc_policy cx))
       (orchestration_planner_input env (rc_request cx) (rc_policy cx)) s = (Inr first, s1)
     \<and> planner_repairs env cx 0 first s1 = (Inr response, s2))"

lemma run_planner_children:
  assumes "run_planner env cx s = (Inr issue, s')" and "1 < policy_max_agents (rc_policy cx)"
  obtains response p ps added where "planner_answered env cx s response" and "response_plans response = p # ps"
    and "sp_children p @ concat (map sp_children ps) \<noteq> []"
    and "length (sp_children p @ added @ concat (map sp_children ps)) = policy_max_agents (rc_policy cx)"
    and "distinct (map st_task_id added)"
    and "st_task_id ` set added \<inter> st_task_id ` set (sp_children p @ concat (map sp_children ps)) = {}"
    and "issue = (if added = [] then None else Some (reconciled_issue (length added)))"
    and "ks_graph (rs_stores s') = insert_tasks (sp_children p @ added @ concat (map sp_children ps)) (ks_graph (rs_stores s))"
    and "list_all (\<lambda>c. bt_get (tg_tasks (ks_graph (rs_stores s))) (st_task_id c) = None)
      (sp_children p @ added @ concat (map sp_children ps))"
proof -
  obtain first s1 response s2 q s3 where
    first: "planner_call env cx (orchestration_planner_task root_task_id (rc_policy cx))
      (orchestration_planner_input env (rc_request cx) (rc_policy cx)) s = (Inr first, s1)"
    and repairs: "planner_repairs env cx 0 first s1 = (Inr response, s2)"
    and settled: "klift (settle_plan (rc_policy cx) (nr_reasoning_effort (rc_request cx)) response) s2 = (Inr q, s3)"
    and rest: "(case q of (settled, issue) \<Rightarrow>
      kbind (kapply_plans (rc_policy cx) (rc_scope cx) settled) (\<lambda>plan_seen.
      kret (if \<not> plan_seen then Some missing_plan_issue else issue))) s3 = (Inr issue, s')"
    using assms(1) unfolding run_planner_def by (elim kbind_InrE) blast
  obtain settled issue' where q: "q = (settled, issue')" by fastforce
  have settle: "settle_plan (rc_policy cx) (nr_reasoning_effort (rc_request cx)) response = Inr (settled, issue')"
    and s3: "s3 = s2"
    using settled q by simp_all
  obtain seen where plans: "kapply_plans (rc_policy cx) (rc_scope cx) settled s2 = (Inr seen, s')"
    and issue: "issue = (if \<not> seen then Some missing_plan_issue else issue')"
    using rest q s3 by (auto simp: kbind_Inr_iff)
  have "rs_stores s1 = rs_stores s"
    using keepsD [OF agent_call_stores [of "rs_stores s"] refl] first unfolding planner_call_def by blast
  then have stores: "rs_stores s2 = rs_stores s"
    using keepsD [OF planner_repairs_stores [of "rs_stores s"]] repairs by blast
  obtain st where applied: "apply_spawn_plan_response (rc_policy cx) (rc_scope cx) settled (rs_stores s2) = Inr (seen, st)"
    and s': "s' = s2\<lparr>rs_stores := st\<rparr>"
    using plans by (auto simp: kapply_plans_def split: sum.splits prod.splits)
  obtain store g' where g': "apply_plans (rc_policy cx) (rc_scope cx) store (response_plans settled) (ks_graph (rs_stores s2)) = Inr g'"
    using applied by (auto simp: apply_spawn_plan_response_def Let_def ebind_Inr_iff response_plans_def)
  have answered: "planner_answered env cx s response" using first repairs unfolding planner_answered_def by blast
  show thesis
  proof (rule settle_plan_children [OF settle assms(2)])
    fix p ps added assume pl: "response_plans response = p # ps"
      "response_plans settled = p\<lparr>sp_children := sp_children p @ added\<rparr> # ps"
      "sp_children p @ concat (map sp_children ps) \<noteq> []"
      "length (sp_children p @ added @ concat (map sp_children ps)) = policy_max_agents (rc_policy cx)"
      "distinct (map st_task_id added)"
      "st_task_id ` set added \<inter> st_task_id ` set (sp_children p @ concat (map sp_children ps)) = {}"
      "issue' = (if added = [] then None else Some (reconciled_issue (length added)))"
    have seen "issue = issue'"
      using apply_spawn_plan_response_Inr(1) [OF applied] pl(2) issue by simp_all
    moreover have "ks_graph (rs_stores s') = insert_tasks (sp_children p @ added @ concat (map sp_children ps)) (ks_graph (rs_stores s))"
      using apply_spawn_plan_response_Inr(2) [OF applied] pl(2) stores s' by simp
    moreover have "list_all (\<lambda>c. bt_get (tg_tasks (ks_graph (rs_stores s))) (st_task_id c) = None)
      (sp_children p @ added @ concat (map sp_children ps))"
      using apply_plans_new [OF g'] pl(2) stores by simp
    ultimately show thesis using pl by (intro that [OF answered]) simp_all
  qed
qed

section \<open>Plans with repeated identifiers\<close>

text \<open>
  The validator compares a child with the tasks already in the graph, not with its siblings: two
  children of one plan may share an identifier, and then share one node of the graph.
\<close>

lemma child_tasks_insert_replace:
  assumes "bt_wf (tg_tasks g)" and "bt_get (tg_tasks g) (st_task_id t) = Some old"
    and "st_parent_task_id old \<noteq> None" and "st_parent_task_id t \<noteq> None"
  shows "length (child_tasks (insert_task t g)) = length (child_tasks g)"
proof -
  have "bt_wf m \<Longrightarrow> bt_get m k = Some old \<Longrightarrow>
      length (filter (\<lambda>t. st_parent_task_id t \<noteq> None) (map snd (bt_insert k t m)))
        = length (filter (\<lambda>t. st_parent_task_id t \<noteq> None) (map snd m))" for k and m :: "(task_id, subtask_spec) btree"
  proof (induction m)
    case (Cons e m)
    obtain k' v where e: "e = (k', v)" by fastforce
    show ?case
    proof (cases "k = k'")
      case True
      with Cons.prems e assms(3,4) show ?thesis by (simp add: bt_get_def)
    next
      case False
      then have "bt_get m k = Some old" using Cons.prems e by (simp add: bt_get_def)
      moreover from this have "k' < k"
        using Cons.prems(1) e bt_get_SomeD by (fastforce simp: bt_wf_Cons)
      ultimately show ?thesis
        using Cons e False by (auto simp: bt_wf_Cons)
    qed
  qed (simp add: bt_get_def)
  from this [OF assms(1,2)] show ?thesis by (simp add: child_tasks_def bt_values_def)
qed

lemma insert_tasks_snoc: "insert_tasks (ts @ [t]) g = insert_task t (insert_tasks ts g)"
  by (simp add: insert_tasks_def)

lemma insert_tasks_lookup_parent:
  "k \<in> st_task_id ` set ts \<Longrightarrow> \<exists>t \<in> set ts. bt_get (tg_tasks (insert_tasks ts g)) k = Some t"
proof (induction ts rule: rev_induct)
  case (snoc t ts)
  then show ?case by (auto simp: insert_tasks_snoc bt.lookup_insert)
qed simp

lemma child_gain:
  assumes "graph_wf g"
    and "\<forall>t \<in> set ts. bt_get (tg_tasks g) (st_task_id t) = None \<and> st_parent_task_id t \<noteq> None"
  shows "length (child_tasks (insert_tasks ts g)) = length (child_tasks g) + card (st_task_id ` set ts)"
  using assms(2)
proof (induction ts rule: rev_induct)
  case (snoc t ts)
  let ?g = "insert_tasks ts g"
  have wf: "bt_wf (tg_tasks ?g)"
    using graph_wf_insert_tasks [OF assms(1), of ts] by (simp add: graph_wf_def)
  show ?case
  proof (cases "st_task_id t \<in> st_task_id ` set ts")
    case True
    from insert_tasks_lookup_parent [OF this, of g] obtain old where
      "old \<in> set ts" "bt_get (tg_tasks ?g) (st_task_id t) = Some old" by blast
    then have "length (child_tasks (insert_task t ?g)) = length (child_tasks ?g)"
      using snoc.prems by (intro child_tasks_insert_replace [OF wf, of t old]) simp_all
    with snoc True show ?thesis by (simp add: insert_tasks_snoc insert_absorb)
  next
    case False
    then have "bt_get (tg_tasks ?g) (st_task_id t) = None"
      using snoc.prems by (simp add: insert_tasks_lookup_other)
    with snoc False show ?thesis
      by (simp add: insert_tasks_snoc length_child_tasks_insert_new)
  qed
qed simp

end
