(* ===== verification/Kernel_Sample.thy ===== *)
theory Kernel_Sample
  imports Kernel_Modes
begin

text \<open>
  A concrete environment and concrete requests: the mock provider, printers that print little, a
  cipher that returns its nonce. They instantiate the parameters of the model where a property is
  shown at work.
\<close>

definition sample_texts :: text_env where
  "sample_texts =
     \<lparr>te_json_text = (\<lambda>_. str ''{}''), te_json_pretty = (\<lambda>_. str ''{}''),
      te_float_text = (\<lambda>_. str ''0.5''), te_issues_text = (\<lambda>_. None)\<rparr>"

definition sample_env :: "unit kernel_env" where
  "sample_env =
     \<lparr>te_json_text = (\<lambda>_. str ''{}''), te_json_pretty = (\<lambda>_. str ''{}''),
      te_float_text = (\<lambda>_. str ''0.5''), te_issues_text = (\<lambda>_. None),
      ke_invoke = mock_invoke sample_texts,
      ke_stream = default_stream (\<lambda>_. str ''{}'') (mock_invoke sample_texts),
      ke_pick = (\<lambda>_ _. 0),
      ke_parse_verdict = (\<lambda>t. if t = str ''{}''
         then Some \<lparr>sd_passed = True, sd_issues = [], sd_covered_artifact_ids = []\<rparr> else None),
      ke_plan_text = (\<lambda>_. None),
      ke_state_text = (\<lambda>_ _ _. str ''state''),
      ke_nonce = (\<lambda>w. (w, replicate 12 7)),
      ke_encrypt = (\<lambda>nonce _ _. Some nonce),
      ke_hex = (\<lambda>bytes. concat (map (\<lambda>b. show_nat (unat b)) bytes)),
      ke_debug_text = (\<lambda>t. t)\<rparr>"

definition sample_message :: normalized_message where
  "sample_message = \<lparr>nm_role = RoleUser, nm_content = [TextPart (str ''hello'')]\<rparr>"

definition sample_request :: "reasoning_effort \<Rightarrow> normalized_request" where
  "sample_request effort =
     \<lparr>nr_request_id = str ''r1'', nr_tenant_id = str ''t1'', nr_conversation_fingerprint = str ''c1'',
      nr_source_format = OpenAIChat, nr_model = str ''m'', nr_messages = [sample_message],
      nr_media_artifacts = [], nr_tools = [], nr_tool_choice = ToolAuto,
      nr_parallel_tool_calls = None, nr_tool_results = [], nr_stream = False,
      nr_thinking_enabled = False, nr_thinking_format = ThinkAuto, nr_reasoning_effort = effort,
      nr_public_reasoning_enabled = False, nr_provider_options = JObject [], nr_metadata = JNull\<rparr>"

lemma sample_effort [simp]: "nr_reasoning_effort (sample_request effort) = effort"
  by (simp add: sample_request_def)

text \<open>A plan of mock children with the given numbers, and a response that holds it.\<close>

definition sample_plan :: "nat list \<Rightarrow> spawn_plan" where
  "sample_plan ns =
     \<lparr>sp_parent_task_id = str ''root'', sp_reason = str ''sample'', sp_children = map (mock_child []) ns,
      sp_expected_artifacts = [KindText], sp_budget_request = \<lparr>br_max_tokens = 256, br_max_tool_calls = 0\<rparr>\<rparr>"

definition sample_plan_response :: "nat list \<Rightarrow> provider_response" where
  "sample_plan_response ns =
     \<lparr>ps_artifacts = [ASpawnPlan (str ''p'') (isolation_key_new (str ''t1'') (str ''r1'') (str ''c1'')) (sample_plan ns)],
      ps_tool_calls = [], ps_usage = provider_usage_default\<rparr>"

section \<open>A planner that plans one child of four\<close>

definition one_child_env :: "unit kernel_env" where
  "one_child_env = sample_env\<lparr>ke_invoke := (\<lambda>w _. (w, 0, Inr (sample_plan_response [0])))\<rparr>"

lemma fresh_crosscheck_id_long: "24 \<le> length (fresh_crosscheck_id ids base n)"
proof (induction ids base n rule: fresh_crosscheck_id.induct)
  case (1 ids base n)
  then show ?case by (simp add: fresh_crosscheck_id.simps [of ids base n] crosscheck_id_def)
qed

lemma crosscheck_children_ids:
  "c \<in> set (crosscheck_children ts parent cur ids offs) \<Longrightarrow> 24 \<le> length (st_task_id c)"
  by (induction offs arbitrary: ids) (auto simp: Let_def crosscheck_child_def fresh_crosscheck_id_long)

lemma one_child_planned: "\<exists>issue s'. run_planner one_child_env (run_context one_child_env kernel_policy_default (sample_request EffortLow))
       (initial_state (run_context one_child_env kernel_policy_default (sample_request EffortLow)) ()) = (Inr issue, s')"
proof -
  let ?cx = "run_context one_child_env kernel_policy_default (sample_request EffortLow)"
  let ?p = "for_request kernel_policy_default (sample_request EffortLow)"
  let ?r = "normalize_over_target_orchestration_plans ?p (sample_plan_response [0])"
  have agents: "policy_max_agents ?p = 4"
    by (simp add: for_request_agents)
  have depth: "1 \<le> max_spawn_depth (kp_limits ?p)"
    by (simp add: for_request_def with_metadata_overrides_def with_reasoning_effort_def sample_request_def Let_def
        kernel_policy_default_def execution_limits_default_def split: option.split)
  have plans: "response_plans ?r = [sample_plan [0]]"
    by (simp add: response_plans_def normalize_over_target_orchestration_plans_def sample_plan_response_def agents sample_plan_def)
  have calls: "\<exists>s'. planner_call one_child_env ?cx t i s = (Inr ?r, s') \<and> rs_stores s' = rs_stores s" for t i and s :: "unit run_state"
    by (simp add: planner_call_def agent_call_def kbind_def ktrace_def kmodify_def invoke_provider_def invoke_on_def one_child_env_def
        with_timeout_def kaccount_def kret_def Let_def)
  have repair: "should_repair_orchestration_plan (planner_coverage_of ?r) ?p"
    by (simp add: should_repair_orchestration_plan_def coverage_child_count plans sample_plan_def agents)
  have repairs: "\<exists>s'. planner_repairs one_child_env ?cx n ?r s = (Inr ?r, s') \<and> rs_stores s' = rs_stores s" for n and s :: "unit run_state"
  proof (induction "max_orchestration_repair_attempts - n" arbitrary: n s rule: less_induct)
    case less
    show ?case
    proof (cases "n < max_orchestration_repair_attempts")
      case True
      then have "max_orchestration_repair_attempts - (n + 1) < max_orchestration_repair_attempts - n" by simp
      note ih = less [OF this]
      obtain s1 where s1: "planner_call one_child_env ?cx (orchestration_planner_repair_task root_task_id ?p)
          (orchestration_planner_repair_input one_child_env (sample_request EffortLow) ?p ?r (n + 1)) s = (Inr ?r, s1)"
        "rs_stores s1 = rs_stores s" using calls by blast
      obtain s2 where s2: "planner_repairs one_child_env ?cx (n + 1) ?r s1 = (Inr ?r, s2)" "rs_stores s2 = rs_stores s1"
        using ih by blast
      have "planner_repairs one_child_env ?cx n ?r s = (Inr ?r, s2)"
        using True repair s1(1) s2(1) by (subst planner_repairs.simps) (simp add: kbind_def)
      then show ?thesis using s1(2) s2(2) by auto
    next
      case False
      then show ?thesis by (subst planner_repairs.simps) (simp add: kret_def)
    qed
  qed
  obtain settled issue where settle: "settle_plan ?p EffortLow ?r = Inr (settled, issue)"
    using settle_plan_refuses_iff [of ?p ?r EffortLow] agents
    by (cases "settle_plan ?p EffortLow ?r") (auto simp: coverage_child_count plans sample_plan_def)
  have rec: "response_plans (fst (reconcile_under_target_orchestration_plan ?p ?r)) =
     [(sample_plan [0])\<lparr>sp_children := mock_child [] 0 # crosscheck_children [mock_child [] 0] (str ''root'') 1 (bs_of [st_task_id (mock_child [] 0)]) [0..<3]\<rparr>]"
    using plans agents
    by (simp add: reconcile_under_target_orchestration_plan_def Let_def coverage_child_count) (simp add: sample_plan_def response_plans_def update_first_plan_plans)
  let ?g = "insert_task (run_root_task ?cx) (task_graph_new root_task_id)"
  let ?added = "crosscheck_children [mock_child [] 0] (str ''root'') 1 (bs_of [st_task_id (mock_child [] 0)]) [0..<3]"
  have settled: "response_plans settled = [(sample_plan [0])\<lparr>sp_children := mock_child [] 0 # ?added\<rparr>]"
    using settle repair rec by (auto simp: settle_plan_def Let_def split: if_splits prod.splits)
  have child: "st_spawn_depth c = 1 \<and> st_input_artifact_refs c = [] \<and> st_task_id c \<noteq> root_task_id" if "c \<in> set (mock_child [] 0 # ?added)" for c
  proof (cases "c = mock_child [] 0")
    case True
    then show ?thesis by (simp add: mock_child_def root_task_id_def str_def)
  next
    case False
    then have c: "c \<in> set ?added" using that by (simp only: set_simps insert_iff simp_thms)
    have "length root_task_id = 4" by (simp add: root_task_id_def)
    then have "st_task_id c \<noteq> root_task_id" using crosscheck_children_ids [OF c] by auto
    with crosscheck_children_template [OF c] show ?thesis by (simp only: list.set(1,2) mock_child_def) simp
  qed
  have children: "child_tasks ?g = []"
    by (simp add: child_tasks_def bt_values_def task_graph_new_def insert_task_def run_root_task_def root_task_def)
  have none: "bt_get (tg_tasks ?g) k = None \<longleftrightarrow> k \<noteq> root_task_id" for k
    by (simp add: task_graph_new_def insert_task_def run_root_task_def root_task_def bt_get_def)
  have "plan_admissible ?p scope store ?g ((sample_plan [0])\<lparr>sp_children := mock_child [] 0 # ?added\<rparr>)" for scope store
    using child agents depth children none by (simp add: plan_admissible_def child_admissible_def)
  note admitted = this
  let ?s = "initial_state ?cx ()"
  obtain s1 where s1: "planner_call one_child_env ?cx (orchestration_planner_task root_task_id ?p)
      (orchestration_planner_input one_child_env (sample_request EffortLow) ?p) ?s = (Inr ?r, s1)" "rs_stores s1 = rs_stores ?s"
    using calls by blast
  obtain s2 where s2: "planner_repairs one_child_env ?cx 0 ?r s1 = (Inr ?r, s2)" "rs_stores s2 = rs_stores s1"
    using repairs by blast
  have g: "ks_graph (rs_stores s2) = ?g"
    using s1(2) s2(2) by (simp add: initial_state_def initial_stores_def)
  obtain st where "apply_spawn_plan_response ?p (rc_scope ?cx) settled (rs_stores s2) = Inr (True, st)"
    using settled validate_accepts_iff [THEN iffD2, OF conjI [OF admitted refl]]
    by (simp add: apply_spawn_plan_response_def response_plans_def Let_def g del: crosscheck_children.simps)
  with s1(1) s2(1) settle show ?thesis
    by (simp add: run_planner_def kbind_def kapply_plans_def klift_def kret_def)
qed

end
