(* ===== verification/Kernel_Facts.thy ===== *)
theory Kernel_Facts
  imports Kernel_Sample "HOL-Library.Multiset"
begin

text \<open>
  Facts about single operations that no stage needs but a reader of the kernel does: when the tool
  budget refuses an answer, what the provider options guarantee, and how the mock provider and the
  planner's prompt agree on the number of children.
\<close>

section \<open>The tool budget\<close>

lemma check_refs_error: "check_refs scope store rs \<noteq> Some BudgetExceeded"
  by (induction rs) auto

lemma check_children_error: "check_children d scope store g cs \<noteq> Some BudgetExceeded"
  by (induction cs) (auto simp: check_refs_error split: option.splits)

lemma validate_error: "validate_and_apply policy scope store g plan \<noteq> Inl BudgetExceeded"
  by (auto simp: validate_and_apply_def Let_def check_children_error split: option.splits)

lemma apply_plan_error: "apply_plan policy scope plan ks \<noteq> Inl BudgetExceeded"
  by (auto simp: apply_plan_def Let_def ebind_Inl_iff validate_error)

lemma apply_artifact_error: "apply_artifact pt policy scope task a s \<noteq> Inl BudgetExceeded"
  by (auto simp: apply_artifact_def ebind_Inl_iff apply_plan_error split: agent_artifact.splits)

lemma apply_artifacts_error: "apply_artifacts pt policy scope task as s \<noteq> Inl BudgetExceeded"
  by (induction as arbitrary: s) (auto simp: ebind_Inl_iff apply_artifact_error)

lemma apply_response_budget_iff:
  "apply_provider_response pt policy scope task r s = Inl BudgetExceeded \<longleftrightarrow>
     unat (max_total_tool_calls (kp_limits policy))
       < call_count (ks_ledger (fst s)) + length (ps_tool_calls r)"
  by (simp add: apply_provider_response_def apply_artifacts_error)

section \<open>Verification does not fail a run\<close>

lemma verifier_pass_total: "\<exists>v s'. verifier_pass env cx evidence attempts candidate s = (Inr v, s')"
  by (simp add: verifier_pass_def kbind_def kgraph_def kmodify_def ktry_def kret_def case_prod_beta)

lemma repair_pass_total:
  "\<exists>v s'. repair_pass env cx evidence attempts candidate issues covered s = (Inr v, s')"
  by (simp add: repair_pass_def kbind_def kgraph_def kmodify_def ktry_def kret_def case_prod_beta)

lemma semantic_loop_total: "\<exists>r s'. semantic_loop env cx evidence attempts candidate s = (Inr r, s')"
proof (induction "unat (max_semantic_repairs cx) - unat attempts" arbitrary: attempts candidate s rule: less_induct)
  case less
  obtain v s1 where pass: "verifier_pass env cx evidence attempts candidate s = (Inr v, s1)"
    using verifier_pass_total by blast
  show ?case
  proof (cases v)
    case (Inl r)
    with pass show ?thesis by (subst semantic_loop.simps) (simp add: kbind_def kret_def)
  next
    case (Inr ic)
    obtain issues covered where ic: "ic = (issues, covered)" by fastforce
    show ?thesis
    proof (cases "max_semantic_repairs cx \<le> attempts")
      case True
      with pass Inr ic show ?thesis by (subst semantic_loop.simps) (simp add: kbind_def kret_def)
    next
      case False
      then have dec: "unat (max_semantic_repairs cx) - unat (sat_add attempts 1)
          < unat (max_semantic_repairs cx) - unat attempts"
        using next_attempt [of attempts cx] by (simp add: word_less_nat_alt word_le_nat_alt)
      obtain out s2 where
        "repair_pass env cx evidence (sat_add attempts 1) candidate issues covered s1 = (Inr out, s2)"
        using repair_pass_total by blast
      with pass Inr ic False less.hyps [OF dec, of _ s2] show ?thesis
        by (subst semantic_loop.simps) (auto simp: kbind_def kret_def split: sum.splits)
    qed
  qed
qed

section \<open>Provider options\<close>

text \<open>A limit that is a number is at least the floor, once it was raised.\<close>

definition limit_at_least :: "u64 \<Rightarrow> json option \<Rightarrow> bool" where
  "limit_at_least m v \<longleftrightarrow>
     (case v of Some (JNumber n) \<Rightarrow> (case json_as_u64 (JNumber n) of Some k \<Rightarrow> m \<le> k | None \<Rightarrow> True)
              | _ \<Rightarrow> True)"

lemma raise_limit_floor: "limit_at_least m (bt_get (raise_output_token_limit key m object) key)"
proof (cases "bt_get (raise_output_token_limit key m object) key = bt_get object key")
  case True
  show ?thesis
  proof (cases "bt_get object key")
    case (Some v)
    with True show ?thesis
      by (cases v) (auto simp: raise_output_token_limit_def Let_def bt.lookup_insert limit_at_least_def
          json_u64_def split: option.splits if_splits)
  qed (use True in \<open>simp add: limit_at_least_def\<close>)
next
  case False
  then have "bt_get (raise_output_token_limit key m object) key = Some (json_u64 m)"
    by (auto simp: raise_output_token_limit_def Let_def bt.lookup_insert split: if_splits)
  then show ?thesis
    by (simp add: limit_at_least_def json_u64_def)
qed

lemma raise_limit_other: "k \<noteq> key \<Longrightarrow> bt_get (raise_output_token_limit key m object) k = bt_get object k"
  by (simp add: raise_output_token_limit_def Let_def bt.lookup_insert)

lemma raise_limits_fold:
  assumes "distinct keys"
  shows "bt_get (fold (\<lambda>key o1. if bt_contains o1 key then raise_output_token_limit key m o1 else o1) keys object) k =
    (if k \<in> set keys \<and> bt_contains object k then bt_get (raise_output_token_limit k m object) k
     else bt_get object k)"
  using assms
proof (induction keys arbitrary: object)
  case (Cons key keys)
  let ?o = "if bt_contains object key then raise_output_token_limit key m object else object"
  have same: "bt_get ?o k = bt_get object k" if "k \<noteq> key" for k
    using that by (simp add: raise_limit_other)
  have raise: "bt_get (raise_output_token_limit k m o1) k = bt_get (raise_output_token_limit k m o2) k"
    if "bt_get o1 k = bt_get o2 k" for o1 o2
    using that by (simp add: raise_output_token_limit_def Let_def bt.lookup_insert)
  show ?case
  proof (cases "k = key")
    case True
    with Cons.prems Cons.IH [of ?o] show ?thesis by simp
  next
    case False
    from same [OF this] have get: "bt_get ?o k = bt_get object k" .
    then have con: "bt_contains ?o k \<longleftrightarrow> bt_contains object k" by (simp only: bt_contains_def)
    have "bt_get (fold (\<lambda>key o1. if bt_contains o1 key then raise_output_token_limit key m o1 else o1) keys ?o) k
        = (if k \<in> set keys \<and> bt_contains ?o k then bt_get (raise_output_token_limit k m ?o) k else bt_get ?o k)"
      using Cons.prems by (intro Cons.IH) simp
    then show ?thesis
      by (simp only: fold_simps list.set insert_iff False simp_thms con get raise [OF get])
  qed
qed simp

lemma distinct_limit_keys: "distinct output_limit_keys"
  by (simp add: output_limit_keys_def)

lemma raise_present_limits_get:
  "bt_get (raise_present_limits m object) k =
     (if k \<in> set output_limit_keys \<and> bt_contains object k
      then bt_get (raise_output_token_limit k m object) k else bt_get object k)"
  unfolding raise_present_limits_def by (rule raise_limits_fold) (rule distinct_limit_keys)

lemma options_floor:
  assumes "provider_options_with_min_output_tokens (JObject object) m = JObject object'"
  shows "(\<forall>k \<in> set output_limit_keys. limit_at_least m (bt_get object' k))
    \<and> (\<forall>k. k \<notin> set output_limit_keys \<longrightarrow> bt_get object' k = bt_get object k)
    \<and> (\<exists>k \<in> set output_limit_keys. bt_contains object' k)"
proof -
  have max: "str ''max_tokens'' \<in> set output_limit_keys" by (simp add: output_limit_keys_def)
  have floor: "limit_at_least m (bt_get (raise_present_limits m object) k)" if "k \<in> set output_limit_keys" for k
    using that raise_limit_floor [of m k object]
    by (auto simp: raise_present_limits_get bt_contains_def) (simp add: limit_at_least_def)
  show ?thesis
  proof (cases "\<exists>key \<in> set output_limit_keys. bt_contains object key")
    case True
    then have o': "object' = raise_present_limits m object"
      using assms by (simp add: provider_options_with_min_output_tokens_def Let_def)
    obtain key where key: "key \<in> set output_limit_keys" "bt_contains object key" using True by blast
    then have "bt_contains object' key"
      by (auto simp: o' bt_contains_def raise_present_limits_get raise_output_token_limit_def Let_def
          bt.lookup_insert)
    with key floor show ?thesis by (auto simp: o' raise_present_limits_get)
  next
    case False
    then have o': "object' = bt_insert (str ''max_tokens'') (json_u64 m) (raise_present_limits m object)"
      using assms by (simp add: provider_options_with_min_output_tokens_def Let_def)
    have "limit_at_least m (Some (json_u64 m))" by (simp add: limit_at_least_def json_u64_def)
    with floor max show ?thesis
      by (auto simp: o' bt.lookup_insert raise_present_limits_get bt_contains_def)
  qed
qed

section \<open>The fan-out\<close>

text \<open>The fan-out of a provider whose answers depend on the request only.\<close>

lemma stateless_answer:
  assumes "\<And>w w' req. snd (ke_invoke env w req) = snd (ke_invoke env w' req)"
  shows "fst (invoke_on env req w) = fst (invoke_on env req w')"
  using assms [of w req w'] by (simp add: invoke_on_def case_prod_beta)

lemma stateless_fan_out_Inr:
  assumes "\<And>w w' req. snd (ke_invoke env w req) = snd (ke_invoke env w' req)" and "0 < limit"
  shows "fst (fan_out env limit reqs s) = Inr xs \<longleftrightarrow>
    map fst xs = [0..<length reqs] \<and> list_all (\<lambda>(i, r). fst (invoke_on env (reqs ! i) w) = Inr r) xs"
proof -
  have st: "stateless_provider (ke_invoke env)" by unfold_locales (rule assms(1))
  show ?thesis
    unfolding stateless_provider.fan_out_outcomes [OF st refl assms(2)]
      stateless_provider.fst_invoke_on [OF st refl] by (simp add: list_all_iff)
qed

lemma stateless_fan_out_Inl:
  assumes "\<And>w w' req. snd (ke_invoke env w req) = snd (ke_invoke env w' req)" and "0 < limit"
    and "fst (fan_out env limit reqs s) = Inl e"
  shows "\<exists>req \<in> set reqs. fst (invoke_on env req w) = Inl e"
proof -
  let ?order = "completion_order limit (length reqs) (ke_pick env (rs_world s))"
  have "Inl e \<in> set (fst (run_schedule env reqs ?order (rs_world s)))"
    using assms(3) by (auto simp: fan_out_def ebind_Inl_iff collect_results_Inl split: prod.splits)
  then obtain i where "i \<in> set ?order" "fst (invoke_on env (reqs ! i) undefined) = Inl e"
    unfolding run_schedule_stateless [OF assms(1)] by (auto split: sum.splits)
  with assms(2) stateless_answer [OF assms(1), of "reqs ! i" undefined w] show ?thesis by (auto intro!: bexI [of _ "reqs ! i"])
qed

lemma fan_out_invokes:
  assumes "0 < limit"
  shows "\<exists>log. run_log (snd (fan_out (recording_env env) limit reqs s)) = run_log s @ log \<and> mset log = mset reqs"
proof -
  let ?order = "completion_order limit (length reqs) (ke_pick (recording_env env) (rs_world s))"
  have "mset ?order = mset [0..<length reqs]"
    using assms set_eq_iff_mset_eq_distinct [of ?order "[0..<length reqs]"] by simp
  then have "mset (map (\<lambda>i. reqs ! i) ?order) = mset (map (\<lambda>i. reqs ! i) [0..<length reqs])"
    by (simp only: mset_map)
  then show ?thesis by (simp add: fan_out_log map_nth)
qed

section \<open>The mock provider\<close>

lemma mock_fan_out:
  assumes "0 < limit"
  shows "fst (fan_out (env\<lparr>ke_invoke := mock_invoke te\<rparr>) limit reqs s)
    = Inr (map (\<lambda>i. (i, mock_response te (reqs ! i))) [0..<length reqs])"
  using assms mock.fan_out_outcomes [of "env\<lparr>ke_invoke := mock_invoke te\<rparr>" te limit reqs s]
  by (auto simp: comp_def mock.outcome_def mock.answer_def mock_invoke_def with_timeout_def)

lemma starts_with_Cons:
  "starts_with s [] \<longleftrightarrow> True"
  "starts_with [] (d # p) \<longleftrightarrow> False"
  "starts_with (c # s) (d # p) \<longleftrightarrow> c = d \<and> starts_with s p"
  by (auto simp: starts_with_def)

text \<open>The planner's objective and the mock provider agree on the number of children.\<close>

lemma objective_split:
  "split_once (str ''exactly '') (str ''produce a bounded model-selected orchestration plan with exactly ''
     @ x @ str '' child agents'')
   = Some (str ''produce a bounded model-selected orchestration plan with '', x @ str '' child agents'')"
  by (simp add: str_def starts_with_Cons)

lemma planner_objective_target:
  assumes "max_agents_per_request (kp_limits policy) = max_agents effort"
  shows "objective_target (st_objective (orchestration_planner_task root policy)) = Some (policy_max_agents policy)"
proof -
  have "objective_target (str ''produce a bounded model-selected orchestration plan with exactly ''
       @ show_nat (unat (max_agents effort)) @ str '' child agents'') = Some (unat (max_agents effort))"
    by (cases effort)
      (simp_all add: objective_target_def after_exactly_def objective_split show_nat.simps,
       simp_all add: str_def starts_with_Cons split_whitespace_def parse_uint_def char_class_defs)
  then show ?thesis
    using assms by (simp add: orchestration_planner_task_def)
qed

section \<open>From the stages to the run\<close>

lemma run_inner_cases:
  assumes "\<And>out s. run_stages env (run_context env policy r) (initial_state (run_context env policy r) w)
      = (Inr out, s) \<Longrightarrow> P out s"
  shows "case run_inner env policy r w of (Inl e, s) \<Rightarrow> True | (Inr out, s) \<Rightarrow> P out s"
  using assms by (auto simp: run_inner_def Let_def split: prod.split sum.split)

lemma planner_children:
  assumes "\<not> is_direct (nr_reasoning_effort r)"
  shows "1 < policy_max_agents (rc_policy (run_context env policy r))"
  using assms by (cases "nr_reasoning_effort r") (simp_all add: for_request_agents is_direct_def)

lemma synthesizer_outcome:
  "case run_synthesizer env cx s of
     (Inl e, s') \<Rightarrow> e = empty_synthesis_error 3 \<or> (\<exists>p. e = KProvider p) \<or> (\<exists>t ms. e = AgentTimeout t ms)
   | (Inr (answer, issue), s') \<Rightarrow> \<not> is_blank answer
       \<and> issue \<in> {None, Some (recovered_issue 1), Some (recovered_issue 2)}"
proof -
  obtain r s1 where run: "run_synthesizer env cx s = (r, s1)" by fastforce
  let ?s = "snd (kgraph (insert_task (synth_task cx)) s)"
  let ?base = "synthesis_input env (rc_request cx) (rs_texts ?s)"
  obtain r' s2 where loop: "synth_loop env cx ?base 0 ?s = (r', s2)" by fastforce
  have r: "r = (case r' of Inl e \<Rightarrow> Inl e
      | Inr (answer, n) \<Rightarrow> Inr (answer, if 0 < n then Some (recovered_issue n) else None))"
    using run loop
    by (auto simp: run_synthesizer_def kbind_def kgraph_def kmodify_def kread_def kret_def
        split: sum.splits prod.splits)
  show ?thesis
  proof (cases r')
    case (Inl e)
    with r run synth_loop_Inl [OF loop [unfolded Inl]] show ?thesis
      by (simp add: max_empty_synthesis_retry_attempts_def)
  next
    case (Inr an)
    obtain answer n where an: "an = (answer, n)" by fastforce
    have "\<not> is_blank answer" "n \<le> 2"
      using synth_loop_Inr [OF loop [unfolded Inr an]] by (simp_all add: max_empty_synthesis_retry_attempts_def)
    moreover from this have "n = 0 \<or> n = 1 \<or> n = 2" by linarith
    ultimately show ?thesis using r run Inr an by auto
  qed
qed

end
