(* ===== verification/Api_Config.thy ===== *)
theory Api_Config
  imports Kernel_Policy
begin

text \<open>
  \<^verbatim>\<open>api-server/src/lib.rs\<close>: how the deployment reads its environment variables, and the kernel policy
  it gives the runs. The environment is a function from names to values, undefined for a variable
  that is unset or no Unicode. A \<^verbatim>\<open>usize\<close> is a natural number below \<open>2 ^ 64\<close>.
\<close>

type_synonym environment = "ustr \<Rightarrow> ustr option"

text \<open>Every reader takes the first of the names that is set, and that one only.\<close>

definition first_var :: "environment \<Rightarrow> ustr list \<Rightarrow> (ustr \<times> ustr) option" where
  "first_var env names = find_map (\<lambda>name. map_option (\<lambda>v. (name, v)) (env name)) names"

definition env_u16 :: "environment \<Rightarrow> ustr list \<Rightarrow> ustr + u16 option" where
  "env_u16 env names =
     (case first_var env names of
        None \<Rightarrow> Inr None
      | Some (name, v) \<Rightarrow>
          (case parse_uint (2 ^ 16) (trim v) of
             None \<Rightarrow> Inl (name @ str '' must be an integer between 1 and 65535'')
           | Some n \<Rightarrow> Inr (Some (word_of_nat n))))"

definition env_u64 :: "environment \<Rightarrow> ustr list \<Rightarrow> ustr + u64 option" where
  "env_u64 env names =
     (case first_var env names of
        None \<Rightarrow> Inr None
      | Some (name, v) \<Rightarrow>
          (case parse_uint (2 ^ 64) (trim v) of
             None \<Rightarrow> Inl (name @ str '' must be a positive integer'')
           | Some n \<Rightarrow>
               (if n = 0 then Inl (name @ str '' must be greater than 0'')
                else Inr (Some (word_of_nat n)))))"

definition env_optional_u64 :: "environment \<Rightarrow> ustr list \<Rightarrow> u64 \<Rightarrow> ustr + u64" where
  "env_optional_u64 env names dflt =
     (case first_var env names of
        None \<Rightarrow> Inr dflt
      | Some (name, v) \<Rightarrow>
          (case parse_uint (2 ^ 64) (trim v) of
             None \<Rightarrow> Inl (name @ str '' must be a non-negative integer'')
           | Some n \<Rightarrow> Inr (word_of_nat n)))"

text \<open>On a 64-bit target the conversion to \<^verbatim>\<open>usize\<close> cannot fail.\<close>

definition env_optional_usize :: "environment \<Rightarrow> ustr list \<Rightarrow> u64 \<Rightarrow> ustr + nat" where
  "env_optional_usize env names dflt =
     ebind (env_optional_u64 env names dflt) (\<lambda>v. Inr (unat v))"

definition env_configured_optional_usize :: "environment \<Rightarrow> ustr list \<Rightarrow> ustr + nat option option" where
  "env_configured_optional_usize env names =
     (case first_var env names of
        None \<Rightarrow> Inr None
      | Some (name, v) \<Rightarrow>
          (case parse_uint (2 ^ 64) (trim v) of
             None \<Rightarrow> Inl (name @ str '' must be a non-negative integer'')
           | Some n \<Rightarrow> Inr (Some (if 0 < n then Some n else None))))"

definition env_flag_enabled :: "ustr \<Rightarrow> bool" where
  "env_flag_enabled v \<longleftrightarrow>
     map to_ascii_lowercase (trim v)
       \<in> {str ''1'', str ''true'', str ''yes'', str ''on'', str ''enabled''}"

definition shared_api_key_from_env :: "environment \<Rightarrow> ustr + ustr option" where
  "shared_api_key_from_env env =
     (case first_var env [str ''MIYA_API_KEY'', str ''MIYA_SHARED_API_KEY''] of
        None \<Rightarrow> Inr None
      | Some (name, v) \<Rightarrow>
          (if trim v = [] then Inl (name @ str '' must not be empty when configured'')
           else Inr (Some (trim v))))"

section \<open>The kernel policy of the deployment\<close>

definition parallel_from_env :: "environment \<Rightarrow> execution_limits \<Rightarrow> ustr + execution_limits" where
  "parallel_from_env env limits =
     ebind (env_u16 env [str ''MULTI_AGENT_MAX_PARALLEL_AGENTS'', str ''MIYA_MAX_PARALLEL_AGENTS'',
                         str ''MAX_PARALLEL_AGENTS''])
       (\<lambda>v. case v of
              None \<Rightarrow> Inr limits
            | Some n \<Rightarrow>
                (if n = 0
                 then Inl (str ''MAX_PARALLEL_AGENTS must be at least 1; use reasoning.effort=none for direct mode'')
                 else Inr (limits\<lparr>max_parallel_agents := min n 64\<rparr>)))"

definition timeouts_from_env :: "environment \<Rightarrow> execution_limits \<Rightarrow> ustr + execution_limits" where
  "timeouts_from_env env limits =
     ebind (env_u64 env [str ''MIYA_REQUEST_TIMEOUT_MS'', str ''MULTI_AGENT_REQUEST_TIMEOUT_MS''])
       (\<lambda>r. ebind (env_u64 env [str ''MIYA_AGENT_TIMEOUT_MS'', str ''MULTI_AGENT_AGENT_TIMEOUT_MS''])
       (\<lambda>a. Inr (limits\<lparr>request_timeout_ms := (case r of Some v \<Rightarrow> v | None \<Rightarrow> request_timeout_ms limits),
                        agent_timeout_ms := (case a of Some v \<Rightarrow> v | None \<Rightarrow> agent_timeout_ms limits)\<rparr>)))"

definition verification_from_env ::
  "environment \<Rightarrow> semantic_verification_policy \<Rightarrow> ustr + semantic_verification_policy" where
  "verification_from_env env p =
     ebind (env_optional_u64 env [str ''MIYA_SEMANTIC_MAX_REPAIR_ATTEMPTS'']
              (ucast (sv_max_repair_attempts p)))
       (\<lambda>n. if unat n < 2 ^ 8
             then Inr \<lparr>sv_enabled = (case env (str ''MIYA_SEMANTIC_VERIFIER'') of
                                       Some v \<Rightarrow> env_flag_enabled v | None \<Rightarrow> True),
                       sv_max_repair_attempts = ucast n\<rparr>
             else Inl (str ''MIYA_SEMANTIC_MAX_REPAIR_ATTEMPTS must fit in u8''))"

definition kernel_policy_from_env :: "environment \<Rightarrow> ustr + kernel_policy" where
  "kernel_policy_from_env env =
     ebind (parallel_from_env env (kp_limits kernel_policy_default)) (\<lambda>limits.
     ebind (timeouts_from_env env limits) (\<lambda>limits'.
     ebind (verification_from_env env (kp_semantic_verification kernel_policy_default)) (\<lambda>verification.
     Inr \<lparr>kp_limits = limits', kp_semantic_verification = verification\<rparr>)))"

lemma parallel_from_env_bounds:
  assumes "parallel_from_env env limits = Inr limits'"
    and "1 \<le> max_parallel_agents limits" and "max_parallel_agents limits \<le> 64"
  shows "1 \<le> max_parallel_agents limits' \<and> max_parallel_agents limits' \<le> 64
    \<and> limits'\<lparr>max_parallel_agents := 0\<rparr> = limits\<lparr>max_parallel_agents := 0\<rparr>"
proof -
  have pos: "1 \<le> n" if "n \<noteq> 0" for n :: u16
    using that by (simp add: word_le_nat_alt Suc_le_eq unat_gt_0)
  from assms(1) consider "limits' = limits"
    | n where "n \<noteq> 0" "limits' = limits\<lparr>max_parallel_agents := min n 64\<rparr>"
    unfolding parallel_from_env_def ebind_Inr_iff by (fastforce split: option.splits if_splits)
  then show ?thesis
  proof cases
    case 1
    with assms show ?thesis by simp
  next
    case (2 n)
    with pos [OF 2(1)] show ?thesis by (simp add: min_def)
  qed
qed

text \<open>The policy of a deployment: between one and 64 agents at once, timeouts that are not zero.\<close>

lemma policy_from_env_bounds:
  assumes "kernel_policy_from_env env = Inr p"
  shows "1 \<le> max_parallel_agents (kp_limits p) \<and> max_parallel_agents (kp_limits p) \<le> 64
    \<and> request_timeout_ms (kp_limits p) \<noteq> 0 \<and> agent_timeout_ms (kp_limits p) \<noteq> 0"
proof -
  from assms obtain limits v where
    par: "parallel_from_env env (kp_limits kernel_policy_default) = Inr limits" and
    time: "timeouts_from_env env limits = Inr (kp_limits p)" and
    ver: "verification_from_env env (kp_semantic_verification kernel_policy_default) = Inr v"
    by (auto simp: kernel_policy_from_env_def ebind_Inr_iff)
  have "1 \<le> max_parallel_agents limits \<and> max_parallel_agents limits \<le> 64
    \<and> limits\<lparr>max_parallel_agents := 0\<rparr> = (kp_limits kernel_policy_default)\<lparr>max_parallel_agents := 0\<rparr>"
    by (rule parallel_from_env_bounds [OF par])
      (simp_all add: kernel_policy_default_def execution_limits_default_def)
  then have "request_timeout_ms limits \<noteq> 0 \<and> agent_timeout_ms limits \<noteq> 0"
    by (cases limits) (simp add: kernel_policy_default_def execution_limits_default_def)
  moreover have "v \<noteq> 0" if "env_u64 env names = Inr (Some v)" for names v
    using that by (auto simp: env_u64_def word_of_nat_eq_0_iff split: option.splits if_splits
        dest!: parse_uint_bound nat_dvd_not_less)
  moreover from time obtain r a where
    "env_u64 env [str ''MIYA_REQUEST_TIMEOUT_MS'', str ''MULTI_AGENT_REQUEST_TIMEOUT_MS''] = Inr r"
    "env_u64 env [str ''MIYA_AGENT_TIMEOUT_MS'', str ''MULTI_AGENT_AGENT_TIMEOUT_MS''] = Inr a"
    "kp_limits p = limits\<lparr>request_timeout_ms := (case r of Some v \<Rightarrow> v | None \<Rightarrow> request_timeout_ms limits),
       agent_timeout_ms := (case a of Some v \<Rightarrow> v | None \<Rightarrow> agent_timeout_ms limits)\<rparr>"
    by (auto simp: timeouts_from_env_def ebind_Inr_iff)
  ultimately show ?thesis
    using \<open>1 \<le> max_parallel_agents limits \<and> _\<close>
    by (cases r; cases a) auto
qed

end
