(* ===== verification/Api_Resilience.thy ===== *)
theory Api_Resilience
  imports Api_Config Provider_Core
begin

text \<open>
  \<^verbatim>\<open>api-server/src/lib.rs\<close>: the counters of the gateway, the circuit breaker, and the retry loop
  around a backend. The monotonic clock counts nanoseconds, a \<^verbatim>\<open>Duration\<close> of the configuration
  milliseconds. Each operation of the breaker runs under its mutex and is one step here; the loop
  is the same in \<^verbatim>\<open>ResilientProvider::invoke\<close>, \<^verbatim>\<open>stream\<close> and \<^verbatim>\<open>resilient_direct_send\<close>, so it is defined
  once, over the call it repeats.
\<close>

section \<open>Counters\<close>

record runtime_metrics =
  m_http_requests :: u64
  m_http_failures :: u64
  m_http_latency_micros :: u64
  m_orchestration_streams_active :: u64
  m_orchestration_stream_heartbeats :: u64
  m_orchestration_admission_limit :: u64
  m_orchestrations_active :: u64
  m_orchestrations_queued :: u64
  m_orchestrations_admitted :: u64
  m_orchestration_queue_timeouts :: u64
  m_orchestration_queue_wait_micros :: u64
  m_kernel_request_timeouts :: u64
  m_kernel_agent_timeouts :: u64
  m_provider_attempts :: u64
  m_provider_retries :: u64
  m_provider_failures :: u64
  m_circuit_rejections :: u64
  m_jobs_started :: u64
  m_jobs_finished :: u64
  m_jobs_cancelled :: u64

definition runtime_metrics_default :: runtime_metrics where
  "runtime_metrics_default =
     \<lparr>m_http_requests = 0, m_http_failures = 0, m_http_latency_micros = 0,
      m_orchestration_streams_active = 0, m_orchestration_stream_heartbeats = 0,
      m_orchestration_admission_limit = 0, m_orchestrations_active = 0, m_orchestrations_queued = 0,
      m_orchestrations_admitted = 0, m_orchestration_queue_timeouts = 0,
      m_orchestration_queue_wait_micros = 0, m_kernel_request_timeouts = 0,
      m_kernel_agent_timeouts = 0, m_provider_attempts = 0, m_provider_retries = 0,
      m_provider_failures = 0, m_circuit_rejections = 0, m_jobs_started = 0, m_jobs_finished = 0,
      m_jobs_cancelled = 0\<rparr>"

text \<open>The text a scrape reads: for every counter its type and its value.\<close>

definition metric_line :: "ustr \<Rightarrow> ustr \<Rightarrow> u64 \<Rightarrow> ustr" where
  "metric_line name kind value =
     str ''# TYPE '' @ name @ [32] @ kind @ [10] @ name @ [32] @ show_nat (unat value) @ [10]"

definition metric_rows :: "runtime_metrics \<Rightarrow> (ustr \<times> ustr \<times> u64) list" where
  "metric_rows m =
     [(str ''miya_http_requests_total'', str ''counter'', m_http_requests m),
      (str ''miya_http_failures_total'', str ''counter'', m_http_failures m),
      (str ''miya_http_request_duration_microseconds_total'', str ''counter'', m_http_latency_micros m),
      (str ''miya_orchestration_streams_active'', str ''gauge'', m_orchestration_streams_active m),
      (str ''miya_orchestration_stream_heartbeats_total'', str ''counter'', m_orchestration_stream_heartbeats m),
      (str ''miya_orchestration_admission_limit'', str ''gauge'', m_orchestration_admission_limit m),
      (str ''miya_orchestrations_active'', str ''gauge'', m_orchestrations_active m),
      (str ''miya_orchestrations_queued'', str ''gauge'', m_orchestrations_queued m),
      (str ''miya_orchestrations_admitted_total'', str ''counter'', m_orchestrations_admitted m),
      (str ''miya_orchestration_queue_timeouts_total'', str ''counter'', m_orchestration_queue_timeouts m),
      (str ''miya_orchestration_queue_wait_microseconds_total'', str ''counter'', m_orchestration_queue_wait_micros m),
      (str ''miya_kernel_request_timeouts_total'', str ''counter'', m_kernel_request_timeouts m),
      (str ''miya_kernel_agent_timeouts_total'', str ''counter'', m_kernel_agent_timeouts m),
      (str ''miya_provider_attempts_total'', str ''counter'', m_provider_attempts m),
      (str ''miya_provider_retries_total'', str ''counter'', m_provider_retries m),
      (str ''miya_provider_failures_total'', str ''counter'', m_provider_failures m),
      (str ''miya_provider_circuit_rejections_total'', str ''counter'', m_circuit_rejections m),
      (str ''miya_durable_jobs_started_total'', str ''counter'', m_jobs_started m),
      (str ''miya_durable_jobs_finished_total'', str ''counter'', m_jobs_finished m),
      (str ''miya_durable_jobs_cancelled_total'', str ''counter'', m_jobs_cancelled m)]"

definition prometheus :: "runtime_metrics \<Rightarrow> ustr" where
  "prometheus m = concat (map (\<lambda>(name, kind, value). metric_line name kind value) (metric_rows m))"

section \<open>Configuration\<close>

record resilience_config =
  rz_max_retries :: nat
  rz_base_delay_ms :: u64
  rz_circuit_failure_threshold :: u32
  rz_circuit_cooldown_ms :: u64

definition resilience_from_env :: "environment \<Rightarrow> ustr + resilience_config" where
  "resilience_from_env env =
     ebind (env_optional_usize env [str ''MIYA_PROVIDER_MAX_RETRIES''] 2) (\<lambda>retries.
     ebind (env_optional_u64 env [str ''MIYA_PROVIDER_RETRY_BASE_MS''] 250) (\<lambda>base.
     ebind (env_optional_u64 env [str ''MIYA_PROVIDER_CIRCUIT_FAILURE_THRESHOLD''] 5) (\<lambda>threshold.
     if 2 ^ 32 \<le> unat threshold
     then Inl (str ''MIYA_PROVIDER_CIRCUIT_FAILURE_THRESHOLD is too large'')
     else ebind (env_optional_u64 env [str ''MIYA_PROVIDER_CIRCUIT_COOLDOWN_MS''] 30000) (\<lambda>cooldown.
     Inr \<lparr>rz_max_retries = retries, rz_base_delay_ms = base,
          rz_circuit_failure_threshold = ucast threshold, rz_circuit_cooldown_ms = cooldown\<rparr>))))"

section \<open>The circuit breaker\<close>

record circuit_state =
  cs_consecutive_failures :: u32
  cs_open_until :: "nat option"
  cs_half_open_probe :: bool

definition circuit_state_default :: circuit_state where
  "circuit_state_default =
     \<lparr>cs_consecutive_failures = 0, cs_open_until = None, cs_half_open_probe = False\<rparr>"

definition before_request :: "nat \<Rightarrow> circuit_state \<Rightarrow> (provider_error + unit) \<times> circuit_state" where
  "before_request now st =
     (case cs_open_until st of
        None \<Rightarrow> (Inr (), st)
      | Some open_until \<Rightarrow>
          (if now < open_until
           then (Inl (CircuitOpen (word_of_nat ((open_until - now) div 1000000))), st)
           else if cs_half_open_probe st then (Inl (CircuitOpen 100), st)
           else (Inr (), st\<lparr>cs_half_open_probe := True\<rparr>)))"

definition record_success :: "circuit_state \<Rightarrow> circuit_state" where
  "record_success st = circuit_state_default"

definition record_failure :: "resilience_config \<Rightarrow> nat \<Rightarrow> circuit_state \<Rightarrow> circuit_state" where
  "record_failure config now st =
     (let failures = sat_add (cs_consecutive_failures st) 1
      in if cs_half_open_probe st \<or> max (rz_circuit_failure_threshold config) 1 \<le> failures
         then \<lparr>cs_consecutive_failures = failures,
               cs_open_until = Some (now + unat (rz_circuit_cooldown_ms config) * 1000000),
               cs_half_open_probe = False\<rparr>
         else st\<lparr>cs_consecutive_failures := failures\<rparr>)"

section \<open>Retries\<close>

definition provider_retry_delay :: "u64 \<Rightarrow> resilience_config \<Rightarrow> provider_error \<Rightarrow> nat \<Rightarrow> u64" where
  "provider_retry_delay timestamp_ms config e attempt =
     (case retry_after_ms e of
        Some ms \<Rightarrow> min ms 120000
      | None \<Rightarrow>
          (let exponent = min attempt 10;
               jitter = timestamp_ms mod 101
           in min (sat_add (sat_mul (rz_base_delay_ms config) (nat_to_word_or_max (2 ^ exponent))) jitter)
                30000))"

text \<open>
  The world of the loop: its clocks, and sleeping. The breaker and the counters are shared by all
  calls of the gateway and travel beside the world.
\<close>

record 'w clock_env =
  ce_now :: "'w \<Rightarrow> nat"
  ce_timestamp_ms :: "'w \<Rightarrow> u64"
  ce_sleep :: "nat \<Rightarrow> 'w \<Rightarrow> 'w"

record 'w gate =
  g_world :: 'w
  g_circuit :: circuit_state
  g_metrics :: runtime_metrics

definition count_attempt :: "'w gate \<Rightarrow> 'w gate" where
  "count_attempt g = g\<lparr>g_metrics := (g_metrics g)\<lparr>m_provider_attempts := m_provider_attempts (g_metrics g) + 1\<rparr>\<rparr>"

definition count_retry :: "'w gate \<Rightarrow> 'w gate" where
  "count_retry g = g\<lparr>g_metrics := (g_metrics g)\<lparr>m_provider_retries := m_provider_retries (g_metrics g) + 1\<rparr>\<rparr>"

definition count_failure :: "'w gate \<Rightarrow> 'w gate" where
  "count_failure g = g\<lparr>g_metrics := (g_metrics g)\<lparr>m_provider_failures := m_provider_failures (g_metrics g) + 1\<rparr>\<rparr>"

definition count_rejection :: "'w gate \<Rightarrow> 'w gate" where
  "count_rejection g = g\<lparr>g_metrics := (g_metrics g)\<lparr>m_circuit_rejections := m_circuit_rejections (g_metrics g) + 1\<rparr>\<rparr>"

text \<open>The call of a world: the world after it, the milliseconds it took, its result.\<close>

type_synonym ('w, 'r) backend_call = "'w \<Rightarrow> 'w \<times> nat \<times> (provider_error + 'r)"

text \<open>The last attempt has failed: count it, and tell the breaker what kind of failure it was.\<close>

definition give_up ::
  "'w clock_env \<Rightarrow> resilience_config \<Rightarrow> provider_error \<Rightarrow> 'w gate \<Rightarrow> 'w gate" where
  "give_up env config e g =
     (let g' = count_failure g
      in g'\<lparr>g_circuit :=
              (if retryable e then record_failure config (ce_now env (g_world g')) (g_circuit g')
               else record_success (g_circuit g'))\<rparr>)"

text \<open>Between two attempts: count the retry, sleep.\<close>

definition retry_pause ::
  "'w clock_env \<Rightarrow> resilience_config \<Rightarrow> provider_error \<Rightarrow> nat \<Rightarrow> 'w gate \<Rightarrow> 'w gate \<times> nat" where
  "retry_pause env config e attempt g =
     (let g' = count_retry g;
          delay = unat (provider_retry_delay (ce_timestamp_ms env (g_world g')) config e attempt)
      in (g'\<lparr>g_world := ce_sleep env delay (g_world g')\<rparr>, delay))"

function retry_loop ::
  "'w clock_env \<Rightarrow> resilience_config \<Rightarrow> ('w, 'r) backend_call \<Rightarrow> nat \<Rightarrow> nat \<Rightarrow> 'w gate
     \<Rightarrow> 'w gate \<times> nat \<times> (provider_error + 'r)" where
  "retry_loop env config call attempt elapsed g =
     (case call (g_world (count_attempt g)) of
        (w, ms, Inr r) \<Rightarrow>
          (let g' = (count_attempt g)\<lparr>g_world := w\<rparr>
           in (g'\<lparr>g_circuit := record_success (g_circuit g')\<rparr>, elapsed + ms, Inr r))
      | (w, ms, Inl e) \<Rightarrow>
          (let g' = (count_attempt g)\<lparr>g_world := w\<rparr>
           in if retryable e \<and> attempt < rz_max_retries config
              then (case retry_pause env config e attempt g' of
                      (g'', delay) \<Rightarrow>
                        retry_loop env config call (attempt + 1) (elapsed + ms + delay) g'')
              else (give_up env config e g', elapsed + ms, Inl e)))"
  by pat_completeness auto
termination retry_loop
  by (relation "measure (\<lambda>(env, config, call, attempt, elapsed, g). rz_max_retries config - attempt)") auto

declare retry_loop.simps [simp del]

definition resilient ::
  "'w clock_env \<Rightarrow> resilience_config \<Rightarrow> ('w, 'r) backend_call \<Rightarrow> ('w gate, 'r) backend_call" where
  "resilient env config call g =
     (case before_request (ce_now env (g_world g)) (g_circuit g) of
        (Inl e, c) \<Rightarrow> (count_rejection (g\<lparr>g_circuit := c\<rparr>), 0, Inl e)
      | (Inr _, c) \<Rightarrow> retry_loop env config call 0 0 (g\<lparr>g_circuit := c\<rparr>))"

text \<open>\<^verbatim>\<open>ResilientProvider\<close>, a provider made of a provider.\<close>

definition resilient_invoke ::
  "'w clock_env \<Rightarrow> resilience_config \<Rightarrow> 'w provider \<Rightarrow> ('w gate) provider" where
  "resilient_invoke env config inner g request = resilient env config (\<lambda>w. inner w request) g"

definition resilient_stream ::
  "'w clock_env \<Rightarrow> resilience_config
     \<Rightarrow> ('w \<Rightarrow> provider_request \<Rightarrow> 'w \<times> nat \<times> (provider_error + provider_stream_event list))
     \<Rightarrow> 'w gate \<Rightarrow> provider_request \<Rightarrow> 'w gate \<times> nat \<times> (provider_error + provider_stream_event list)" where
  "resilient_stream env config inner g request = resilient env config (\<lambda>w. inner w request) g"

section \<open>The retry loop\<close>

lemma count_simps [simp]:
  "g_world (count_attempt g) = g_world g" "g_world (count_retry g) = g_world g"
  "g_world (count_failure g) = g_world g" "g_world (count_rejection g) = g_world g"
  "g_circuit (count_attempt g) = g_circuit g" "g_circuit (count_retry g) = g_circuit g"
  "g_circuit (count_failure g) = g_circuit g" "g_circuit (count_rejection g) = g_circuit g"
  by (simp_all add: count_attempt_def count_retry_def count_failure_def count_rejection_def)

lemma attempts_simps [simp]:
  "m_provider_attempts (g_metrics (count_attempt g)) = m_provider_attempts (g_metrics g) + 1"
  "m_provider_attempts (g_metrics (count_retry g)) = m_provider_attempts (g_metrics g)"
  "m_provider_attempts (g_metrics (count_failure g)) = m_provider_attempts (g_metrics g)"
  "m_provider_attempts (g_metrics (count_rejection g)) = m_provider_attempts (g_metrics g)"
  by (simp_all add: count_attempt_def count_retry_def count_failure_def count_rejection_def)

lemma retry_pause_simps [simp]:
  "g_circuit (fst (retry_pause env config e attempt g)) = g_circuit g"
  "g_metrics (fst (retry_pause env config e attempt g)) = g_metrics (count_retry g)"
  by (simp_all add: retry_pause_def Let_def)

lemma retry_delay_bounds:
  "unat (provider_retry_delay t config e attempt) \<le> 120000"
  "retry_after_ms e = None \<Longrightarrow> unat (provider_retry_delay t config e attempt) \<le> 30000"
proof -
  have m: "unat (min a (b :: u64)) \<le> unat b" for a b
    by (simp add: min_def word_le_nat_alt)
  show "retry_after_ms e = None \<Longrightarrow> unat (provider_retry_delay t config e attempt) \<le> 30000"
    using m [of _ 30000] by (simp add: provider_retry_delay_def Let_def)
  show "unat (provider_retry_delay t config e attempt) \<le> 120000"
    using m [of _ 30000] m [of _ 120000] order_trans [OF m, of 30000 120000]
    by (simp add: provider_retry_delay_def Let_def split: option.split)
qed

text \<open>With the wish of the upstream absent the pause doubles until it is cut.\<close>

lemma unat_pow_or_max: "e \<le> 10 \<Longrightarrow> unat (nat_to_word_or_max (2 ^ e) :: u64) = 2 ^ e"
proof -
  assume "e \<le> 10"
  then have "(2 :: nat) ^ e \<le> 2 ^ 10" by (rule power_increasing) simp
  then show ?thesis by (simp add: unat_nat_to_word_or_max min_def)
qed

lemma unat_retry_delay:
  assumes "retry_after_ms e = None"
  shows "unat (provider_retry_delay t config e attempt)
    = min (unat (rz_base_delay_ms config) * 2 ^ min attempt 10 + unat t mod 101) 30000"
proof -
  have "unat (min a (b :: u64)) = min (unat a) (unat b)" for a b
    by (simp add: min_def word_le_nat_alt)
  moreover have "unat (t mod 101) = unat t mod 101"
    by (simp add: unat_mod)
  moreover have "min (min (min b 18446744073709551615 + j) 18446744073709551615) 30000 = min (b + j) 30000"
    for b j :: nat
    by (simp add: min_def)
  ultimately show ?thesis
    using assms unat_pow_or_max [of "min attempt 10"]
    by (simp add: provider_retry_delay_def Let_def unat_sat_add unat_sat_mul)
qed

text \<open>
  The end of a loop that has \<open>attempts\<close> calls behind it: what it returns, what it has done to the
  breaker, how often it has called.
\<close>

definition loop_ended ::
  "'w clock_env \<Rightarrow> resilience_config \<Rightarrow> nat \<Rightarrow> circuit_state \<Rightarrow> 'w gate \<Rightarrow> provider_error + 'r \<Rightarrow> bool" where
  "loop_ended env config calls before g result \<longleftrightarrow>
     (case result of
        Inr _ \<Rightarrow> g_circuit g = circuit_state_default
      | Inl e \<Rightarrow>
          (if retryable e
           then calls = rz_max_retries config + 1
             \<and> g_circuit g = record_failure config (ce_now env (g_world g)) before
           else g_circuit g = circuit_state_default))"

lemma retry_loop_outcome:
  assumes "retry_loop env config call attempt elapsed g = (g', ms, result)"
    and "attempt \<le> rz_max_retries config"
  shows "\<exists>n. attempt < n \<and> n \<le> rz_max_retries config + 1
    \<and> m_provider_attempts (g_metrics g') = m_provider_attempts (g_metrics g) + word_of_nat (n - attempt)
    \<and> loop_ended env config n (g_circuit g) g' result"
  using assms
proof (induction "rz_max_retries config - attempt" arbitrary: attempt elapsed g rule: less_induct)
  case (less attempt elapsed g)
  obtain w t r where call: "call (g_world g) = (w, t, r)"
    by (cases "call (g_world g)") auto
  show ?case
  proof (cases r)
    case (Inr x)
    with less(2,3) call show ?thesis
      by (intro exI [of _ "Suc attempt"])
        (auto simp: retry_loop.simps [of env config call attempt elapsed g] Let_def loop_ended_def
          record_success_def)
  next
    case (Inl e)
    let ?g = "(count_attempt g)\<lparr>g_world := w\<rparr>"
    let ?p = "retry_pause env config e attempt ?g"
    show ?thesis
    proof (cases "retryable e \<and> attempt < rz_max_retries config")
      case True
      with less(2) call Inl have next_call: "retry_loop env config call (attempt + 1) (elapsed + t + snd ?p) (fst ?p) = (g', ms, result)"
        by (simp add: retry_loop.simps [of env config call attempt elapsed g] Let_def split: prod.splits)
      have "attempt + 1 \<le> rz_max_retries config"
        and "rz_max_retries config - (attempt + 1) < rz_max_retries config - attempt"
        using True by (simp_all add: diff_less_mono2)
      from less(1) [OF this(2) next_call this(1)]
      obtain n where n: "attempt + 1 < n" "n \<le> rz_max_retries config + 1"
        "m_provider_attempts (g_metrics g')
           = m_provider_attempts (g_metrics (fst ?p)) + word_of_nat (n - (attempt + 1))"
        "loop_ended env config n (g_circuit (fst ?p)) g' result"
        by (elim exE conjE) (rule that)
      have k: "n - attempt = Suc (n - (attempt + 1))"
        using n(1) by simp
      show ?thesis
        using n by (intro exI [of _ n]) (simp add: k)
    next
      case False
      with less(2,3) call Inl show ?thesis
        by (intro exI [of _ "Suc attempt"])
          (auto simp: retry_loop.simps [of env config call attempt elapsed g] Let_def loop_ended_def
            give_up_def record_success_def)
    qed
  qed
qed

end
