(* ===== verification/Api_Breaker.thy ===== *)
theory Api_Breaker
  imports Api_Resilience
begin

text \<open>
  The circuit breaker under concurrent calls. The calls of the gateway share one breaker, and every
  operation on it runs under its mutex, so an execution is a sequence of these steps: a call asks
  for admission, and an admitted call later ends in a success, in a failure, or is dropped (its
  future is cancelled, which happens when the kernel's timeout or the client's disconnect ends the
  run around it, and then neither \<^verbatim>\<open>record_success\<close> nor \<^verbatim>\<open>record_failure\<close> is reached).
\<close>

datatype breaker_event =
    Admitted nat
  | Refused nat u64
  | Succeeded
  | Failed nat
  | Dropped

text \<open>The breaker and the number of admitted calls that have not ended.\<close>

record breaker =
  b_circuit :: circuit_state
  b_in_flight :: nat

definition breaker_new :: breaker where
  "breaker_new = \<lparr>b_circuit = circuit_state_default, b_in_flight = 0\<rparr>"

inductive breaker_step :: "resilience_config \<Rightarrow> breaker \<Rightarrow> breaker_event \<Rightarrow> breaker \<Rightarrow> bool"
  for config :: resilience_config where
  admit: "before_request now (b_circuit b) = (Inr (), c) \<Longrightarrow>
    breaker_step config b (Admitted now) \<lparr>b_circuit = c, b_in_flight = Suc (b_in_flight b)\<rparr>"
| refuse: "before_request now (b_circuit b) = (Inl (CircuitOpen ms), c) \<Longrightarrow>
    breaker_step config b (Refused now ms) (b\<lparr>b_circuit := c\<rparr>)"
| succeed: "b_in_flight b = Suc n \<Longrightarrow>
    breaker_step config b Succeeded \<lparr>b_circuit = record_success (b_circuit b), b_in_flight = n\<rparr>"
| fail: "b_in_flight b = Suc n \<Longrightarrow>
    breaker_step config b (Failed now)
      \<lparr>b_circuit = record_failure config now (b_circuit b), b_in_flight = n\<rparr>"
| drop: "b_in_flight b = Suc n \<Longrightarrow>
    breaker_step config b Dropped (b\<lparr>b_in_flight := n\<rparr>)"

inductive_cases breaker_stepE: "breaker_step config b e b'"
inductive_simps breaker_step_simps:
  "breaker_step config b (Admitted now) b'"
  "breaker_step config b (Refused now ms) b'"
  "breaker_step config b Succeeded b'"
  "breaker_step config b (Failed now) b'"
  "breaker_step config b Dropped b'"

inductive breaker_trace :: "resilience_config \<Rightarrow> breaker \<Rightarrow> breaker_event list \<Rightarrow> breaker \<Rightarrow> bool"
  for config :: resilience_config where
  trace_none: "breaker_trace config b [] b"
| trace_more: "breaker_step config b e b1 \<Longrightarrow> breaker_trace config b1 es b2 \<Longrightarrow>
    breaker_trace config b (e # es) b2"

inductive_cases trace_consE: "breaker_trace config b (e # es) b'"
inductive_cases trace_nilE: "breaker_trace config b [] b'"

lemma trace_invariant:
  assumes "breaker_trace config b es b'" and "P b"
    and "\<And>b e b'. P b \<Longrightarrow> e \<in> set es \<Longrightarrow> breaker_step config b e b' \<Longrightarrow> P b'"
  shows "P b'"
  using assms by (induction rule: breaker_trace.induct) (metis list.set_intros)+

text \<open>The only error of \<open>before_request\<close>, and when it comes.\<close>

lemma before_request_cases:
  obtains "cs_open_until c = None" "before_request now c = (Inr (), c)"
  | u where "cs_open_until c = Some u" "now < u"
      "before_request now c = (Inl (CircuitOpen (word_of_nat ((u - now) div 1000000))), c)"
  | u where "cs_open_until c = Some u" "u \<le> now" "cs_half_open_probe c"
      "before_request now c = (Inl (CircuitOpen 100), c)"
  | u where "cs_open_until c = Some u" "u \<le> now" "\<not> cs_half_open_probe c"
      "before_request now c = (Inr (), c\<lparr>cs_half_open_probe := True\<rparr>)"
proof (cases "cs_open_until c")
  case (Some u)
  with that show ?thesis
    by (cases "now < u"; cases "cs_half_open_probe c") (simp_all add: before_request_def)
qed (simp add: before_request_def that)

lemma before_request_refusal:
  "before_request now c = (Inl e, c') \<Longrightarrow> c' = c \<and> (\<exists>ms. e = CircuitOpen ms)"
  by (rule before_request_cases [of c now]) auto

section \<open>Invariant\<close>

text \<open>
  While the breaker is closed it has counted fewer failures than its threshold, and a probe is under
  way only while it is open.
\<close>

definition breaker_ok :: "resilience_config \<Rightarrow> circuit_state \<Rightarrow> bool" where
  "breaker_ok config c \<longleftrightarrow>
     (cs_half_open_probe c \<longrightarrow> cs_open_until c \<noteq> None)
     \<and> (cs_open_until c = None \<longrightarrow>
          cs_consecutive_failures c < max (rz_circuit_failure_threshold config) 1)"

lemma one_le_threshold: "(1 :: u32) \<le> max a 1"
  by simp

lemma breaker_ok_default [simp]: "breaker_ok config circuit_state_default"
proof -
  have "(0 :: u32) < 1" by simp
  also have "\<dots> \<le> max (rz_circuit_failure_threshold config) 1" by (rule one_le_threshold)
  finally show ?thesis by (simp add: breaker_ok_def circuit_state_default_def)
qed

lemma breaker_ok_before:
  "breaker_ok config c \<Longrightarrow> before_request now c = (r, c') \<Longrightarrow> breaker_ok config c'"
  by (rule before_request_cases [of c now]) (auto simp: breaker_ok_def)

lemma breaker_ok_failure: "breaker_ok config c \<Longrightarrow> breaker_ok config (record_failure config now c)"
  by (auto simp: breaker_ok_def record_failure_def Let_def not_le simp del: max.bounded_iff max_less_iff_conj)

lemma breaker_ok_step:
  "breaker_step config b e b' \<Longrightarrow> breaker_ok config (b_circuit b) \<Longrightarrow> breaker_ok config (b_circuit b')"
  by (erule breaker_stepE)
    (auto intro: breaker_ok_before breaker_ok_failure simp: record_success_def)

lemma breaker_ok_trace:
  assumes "breaker_trace config breaker_new es b"
  shows "breaker_ok config (b_circuit b)"
  using assms
  by (rule trace_invariant [where P = "\<lambda>b. breaker_ok config (b_circuit b)"])
    (auto simp: breaker_new_def intro: breaker_ok_step)

section \<open>Who is let in\<close>

lemma admit_iff:
  "(\<exists>b'. breaker_step config b (Admitted now) b') \<longleftrightarrow>
     (case cs_open_until (b_circuit b) of
        None \<Rightarrow> True
      | Some u \<Rightarrow> u \<le> now \<and> \<not> cs_half_open_probe (b_circuit b))"
  by (rule before_request_cases [of "b_circuit b" now]) (auto simp: breaker_step_simps)

text \<open>While a probe is under way and no call ends, the breaker stays as it is.\<close>

lemma probe_persists:
  assumes "breaker_trace config b es b'" and "\<forall>e \<in> set es. e \<noteq> Succeeded \<and> (\<forall>t. e \<noteq> Failed t)"
    and "cs_half_open_probe (b_circuit b)" and "cs_open_until (b_circuit b) \<noteq> None"
  shows "b_circuit b' = b_circuit b \<and> (\<forall>t. Admitted t \<notin> set es)"
  using assms
proof (induction rule: breaker_trace.induct)
  case (trace_more b e b1 es b2)
  from \<open>breaker_step config b e b1\<close> trace_more.prems
  have "b_circuit b1 = b_circuit b \<and> (\<forall>t. e \<noteq> Admitted t)"
    by (cases rule: breaker_step.cases)
      (auto simp: before_request_def split: option.splits if_splits)
  with trace_more show ?case by auto
qed simp

section \<open>Recovery\<close>

text \<open>
  Without dropped calls a probe that is under way is an admitted call that has not ended; with every
  admitted call gone the breaker is not stuck.
\<close>

definition probe_in_flight :: "breaker \<Rightarrow> bool" where
  "probe_in_flight b \<longleftrightarrow> (cs_half_open_probe (b_circuit b) \<longrightarrow> 0 < b_in_flight b)"

text \<open>A half-open probe and a call admitted before the breaker opened may be under way together.\<close>

lemma probe_step:
  assumes "breaker_step config b e b'" and "e \<noteq> Dropped" and "probe_in_flight b"
  shows "probe_in_flight b'"
  using assms
  by (cases rule: breaker_step.cases)
    (auto simp: probe_in_flight_def record_success_def record_failure_def circuit_state_default_def Let_def
      dest: before_request_refusal)

lemma probe_trace:
  assumes "breaker_trace config breaker_new es b" and "Dropped \<notin> set es"
  shows "probe_in_flight b"
  using assms(1)
proof (rule trace_invariant)
  show "probe_in_flight breaker_new"
    by (simp add: probe_in_flight_def breaker_new_def circuit_state_default_def)
next
  fix b e b'
  assume "probe_in_flight b" "e \<in> set es" "breaker_step config b e b'"
  with assms(2) show "probe_in_flight b'" by (metis probe_step)
qed

text \<open>After the end of any call of a breaker in a probe, a call is let in once the cooldown is over.\<close>

lemma recovers_after_end:
  assumes "breaker_step config b e b'" and "e = Succeeded \<or> (\<exists>t. e = Failed t)"
    and "cs_half_open_probe (b_circuit b)"
  shows "\<exists>t. \<forall>now \<ge> t. \<exists>b''. breaker_step config b' (Admitted now) b''"
proof -
  have "\<not> cs_half_open_probe (b_circuit b')"
    using assms by (auto simp: breaker_step_simps record_success_def circuit_state_default_def
        record_failure_def Let_def)
  then show ?thesis
    by (cases "cs_open_until (b_circuit b')") (auto simp: admit_iff)
qed

section \<open>The dropped probe\<close>

lemma dropped_probe_stuck:
  assumes "cs_half_open_probe (b_circuit b)" and "cs_open_until (b_circuit b) \<noteq> None"
    and "b_in_flight b = 0" and "breaker_trace config b es b'"
  shows "b' = b \<and> (\<forall>e \<in> set es. \<exists>t ms. e = Refused t ms)"
  using assms(4,1,2,3)
proof (induction rule: breaker_trace.induct)
  case (trace_more b e b1 es b2)
  from trace_more.hyps(1) trace_more.prems have "b1 = b \<and> (\<exists>t ms. e = Refused t ms)"
    by (cases rule: breaker_step.cases)
      (auto simp: before_request_def split: option.splits if_splits)
  with trace_more show ?case by auto
qed simp

lemma trace_append:
  "breaker_trace config b es b1 \<Longrightarrow> breaker_trace config b1 es' b2 \<Longrightarrow> breaker_trace config b (es @ es') b2"
  by (induction rule: breaker_trace.induct) (auto intro: breaker_trace.intros)

text \<open>Failures one after the other, until the last one opens the breaker.\<close>

definition failed_often :: "nat \<Rightarrow> breaker" where
  "failed_often k =
     \<lparr>b_circuit = \<lparr>cs_consecutive_failures = word_of_nat k, cs_open_until = None, cs_half_open_probe = False\<rparr>,
      b_in_flight = 0\<rparr>"

definition opened_breaker :: "resilience_config \<Rightarrow> nat \<Rightarrow> nat \<Rightarrow> breaker" where
  "opened_breaker config k n =
     \<lparr>b_circuit = \<lparr>cs_consecutive_failures = word_of_nat k,
                   cs_open_until = Some (unat (rz_circuit_cooldown_ms config) * 1000000),
                   cs_half_open_probe = 0 < n\<rparr>,
      b_in_flight = n\<rparr>"

lemma unat_threshold: "unat (max (rz_circuit_failure_threshold config) 1) = max (unat (rz_circuit_failure_threshold config)) 1"
  by (simp add: max_def word_le_nat_alt)

lemma one_failure:
  assumes "k < unat (max (rz_circuit_failure_threshold config) 1)"
  shows "breaker_trace config (failed_often k) [Admitted 0, Failed 0]
    (if Suc k < unat (max (rz_circuit_failure_threshold config) 1) then failed_often (Suc k)
     else opened_breaker config (Suc k) 0)"
proof -
  let ?T = "max (rz_circuit_failure_threshold config) 1"
  have "unat ?T < 2 ^ 32"
    using unsigned_less [of ?T, where 'a = nat] by simp
  with assms have k: "Suc k < 2 ^ 32" by simp
  have word: "unat (word_of_nat j :: u32) = j" if "j < 2 ^ 32" for j
    using that by (simp add: unsigned_of_nat take_bit_nat_eq_self)
  have next_count: "sat_add (word_of_nat k) 1 = (word_of_nat (Suc k) :: u32)"
  proof -
    have "word_of_nat (Suc k) = word_of_nat k + (1 :: u32)" by simp
    moreover have "unat (word_of_nat k :: u32) + unat (1 :: u32) < 2 ^ LENGTH(32)"
      using word [of k] k by simp
    ultimately show ?thesis unfolding sat_add_def by (simp only: if_True)
  qed
  have reached: "?T \<le> word_of_nat (Suc k) \<longleftrightarrow> \<not> Suc k < unat ?T"
    by (simp only: word_le_nat_alt not_less word [OF k])
  have admitted: "breaker_step config (failed_often k) (Admitted 0) ((failed_often k)\<lparr>b_in_flight := Suc 0\<rparr>)"
    by (simp add: breaker_step_simps failed_often_def before_request_def)
  have failed: "breaker_step config ((failed_often k)\<lparr>b_in_flight := Suc 0\<rparr>) (Failed 0)
      \<lparr>b_circuit = record_failure config 0 (b_circuit (failed_often k)), b_in_flight = 0\<rparr>"
    by (simp add: breaker_step_simps)
  have "record_failure config 0 (b_circuit (failed_often k))
      = b_circuit (if Suc k < unat ?T then failed_often (Suc k) else opened_breaker config (Suc k) 0)"
    by (simp add: record_failure_def failed_often_def opened_breaker_def Let_def next_count reached
        del: of_nat_Suc max.bounded_iff)
  then have "\<lparr>b_circuit = record_failure config 0 (b_circuit (failed_often k)), b_in_flight = 0\<rparr>
      = (if Suc k < unat ?T then failed_often (Suc k) else opened_breaker config (Suc k) 0)"
    by (simp add: failed_often_def opened_breaker_def)
  with trace_more [OF admitted trace_more [OF failed trace_none]] show ?thesis
    by simp
qed

lemma failures_trace:
  "k < unat (max (rz_circuit_failure_threshold config) 1) \<Longrightarrow>
   \<exists>es. breaker_trace config breaker_new es (failed_often k)"
proof (induction k)
  case 0
  have "breaker_new = failed_often 0"
    by (simp add: breaker_new_def failed_often_def circuit_state_default_def)
  then show ?case by (metis trace_none)
next
  case (Suc k)
  then obtain es where "breaker_trace config breaker_new es (failed_often k)" by auto
  moreover have "breaker_trace config (failed_often k) [Admitted 0, Failed 0] (failed_often (Suc k))"
    using one_failure [of k config] Suc.prems by simp
  ultimately show ?case by (blast intro: trace_append)
qed

lemma stuck_reachable:
  "\<exists>es k. breaker_trace config breaker_new es ((opened_breaker config k 1)\<lparr>b_in_flight := 0\<rparr>)"
proof -
  let ?T = "unat (max (rz_circuit_failure_threshold config) 1)"
  let ?u = "unat (rz_circuit_cooldown_ms config) * 1000000"
  have pos: "0 < ?T" by (simp add: unat_threshold)
  then obtain es where es: "breaker_trace config breaker_new es (failed_often (?T - 1))"
    using failures_trace [of "?T - 1" config] by auto
  have "breaker_trace config (failed_often (?T - 1)) [Admitted 0, Failed 0] (opened_breaker config ?T 0)"
    using one_failure [of "?T - 1" config] pos by simp
  moreover have "breaker_trace config (opened_breaker config ?T 0) [Admitted ?u, Dropped]
      ((opened_breaker config ?T 1)\<lparr>b_in_flight := 0\<rparr>)"
  proof (rule trace_more [OF _ trace_more [OF breaker_step.drop trace_none]])
    show "breaker_step config (opened_breaker config ?T 0) (Admitted ?u) (opened_breaker config ?T 1)"
      by (simp add: breaker_step_simps opened_breaker_def before_request_def)
    show "b_in_flight (opened_breaker config ?T 1) = Suc 0"
      by (simp add: opened_breaker_def)
  qed
  ultimately show ?thesis
    using es by (blast intro: trace_append)
qed

end
