(* ===== verification/Api_Admission.thy ===== *)
theory Api_Admission
  imports Api_Resilience Kernel_Run
begin

text \<open>
  \<^verbatim>\<open>api-server/src/lib.rs\<close>: the admission of provider calls and of orchestrations. The semaphores are
  \<^verbatim>\<open>tokio\<close>'s: waiting for permits and giving them back are functions of the world, the fields of
  \<open>semaphore_env\<close>. A wait ends with the permits, with its deadline, or because the semaphore was
  closed. A permit is given back where the source drops it.
\<close>

datatype acquire_outcome = Acquired | WaitElapsed | LimiterClosed

record 'w semaphore_env =
  se_acquire :: "nat \<Rightarrow> u64 \<Rightarrow> 'w \<Rightarrow> 'w \<times> nat \<times> acquire_outcome"
  se_release :: "nat \<Rightarrow> 'w \<Rightarrow> 'w"

section \<open>Provider admission\<close>

record provider_admission =
  pa_max_concurrent :: "nat option"
  pa_wait_timeout_ms :: u64

definition provider_admission_disabled :: provider_admission where
  "provider_admission_disabled = \<lparr>pa_max_concurrent = None, pa_wait_timeout_ms = 30000\<rparr>"

definition provider_admission_from_env :: "environment \<Rightarrow> ustr + provider_admission" where
  "provider_admission_from_env env =
     ebind (env_optional_usize env
              [str ''MIYA_PROVIDER_MAX_CONCURRENT'', str ''PROVIDER_MAX_CONCURRENT_REQUESTS''] 64)
       (\<lambda>n. ebind (env_optional_u64 env
                     [str ''MIYA_PROVIDER_QUEUE_TIMEOUT_MS'', str ''PROVIDER_QUEUE_TIMEOUT_MS''] 30000)
       (\<lambda>ms. Inr \<lparr>pa_max_concurrent = (if 0 < n then Some n else None),
                  pa_wait_timeout_ms = max ms 1\<rparr>))"

definition queue_wait_message :: "u64 \<Rightarrow> ustr" where
  "queue_wait_message ms = str ''provider queue wait exceeded '' @ show_nat (unat ms) @ str '' ms''"

text \<open>The permit is whether one is held; the time is in microseconds.\<close>

definition provider_acquire ::
  "'w semaphore_env \<Rightarrow> provider_admission \<Rightarrow> 'w \<Rightarrow> 'w \<times> nat \<times> (ustr + bool)" where
  "provider_acquire sem adm w =
     (case pa_max_concurrent adm of
        None \<Rightarrow> (w, 0, Inr False)
      | Some _ \<Rightarrow>
          (case se_acquire sem 1 (pa_wait_timeout_ms adm) w of
             (w', us, Acquired) \<Rightarrow> (w', us, Inr True)
           | (w', us, WaitElapsed) \<Rightarrow> (w', us, Inl (queue_wait_message (pa_wait_timeout_ms adm)))
           | (w', us, LimiterClosed) \<Rightarrow> (w', us, Inl (str ''provider concurrency limiter was closed''))))"

definition drop_provider_permit :: "'w semaphore_env \<Rightarrow> bool \<Rightarrow> 'w \<Rightarrow> 'w" where
  "drop_provider_permit sem held w = (if held then se_release sem 1 w else w)"

definition provider_queue_wait_ms :: "ustr \<Rightarrow> u64" where
  "provider_queue_wait_ms message =
     (case find_map (parse_uint (2 ^ 64)) (split_whitespace message) of
        Some n \<Rightarrow> word_of_nat n | None \<Rightarrow> 30000)"

text \<open>\<^verbatim>\<open>AdmissionProvider\<close>: the permit is held until the call is over.\<close>

definition admission_invoke ::
  "'w semaphore_env \<Rightarrow> provider_admission \<Rightarrow> 'w provider \<Rightarrow> 'w provider" where
  "admission_invoke sem adm inner w request =
     (case provider_acquire sem adm w of
        (w', us, Inl message) \<Rightarrow> (w', us div 1000, Inl (QueueTimeout (provider_queue_wait_ms message)))
      | (w', us, Inr held) \<Rightarrow>
          (case inner w' request of
             (w'', ms, r) \<Rightarrow> (drop_provider_permit sem held w'', us div 1000 + ms, r)))"

text \<open>A stream that was opened takes the permit with it, to its own end.\<close>

definition admission_stream ::
  "'w semaphore_env \<Rightarrow> provider_admission
     \<Rightarrow> ('w \<Rightarrow> provider_request \<Rightarrow> 'w \<times> nat \<times> (provider_error + provider_stream_event list))
     \<Rightarrow> 'w \<Rightarrow> provider_request
     \<Rightarrow> 'w \<times> nat \<times> (provider_error + provider_stream_event list \<times> bool)" where
  "admission_stream sem adm inner w request =
     (case provider_acquire sem adm w of
        (w', us, Inl message) \<Rightarrow> (w', us div 1000, Inl (QueueTimeout (provider_queue_wait_ms message)))
      | (w', us, Inr held) \<Rightarrow>
          (case inner w' request of
             (w'', ms, Inl e) \<Rightarrow> (drop_provider_permit sem held w'', us div 1000 + ms, Inl e)
           | (w'', ms, Inr events) \<Rightarrow> (w'', us div 1000 + ms, Inr (events, held))))"

section \<open>Admission of orchestrations\<close>

record orchestration_admission =
  oa_limit :: "nat option"
  oa_parallel_agents_per_slot :: nat
  oa_wait_timeout_ms :: u64

datatype orchestration_admission_error = OrchestrationTimeout u64 | OrchestrationClosed

fun show_orchestration_error :: "orchestration_admission_error \<Rightarrow> ustr" where
  "show_orchestration_error (OrchestrationTimeout ms) =
     str ''orchestration queue wait exceeded '' @ show_nat (unat ms) @ str '' ms''"
| "show_orchestration_error OrchestrationClosed = str ''orchestration concurrency limiter was closed''"

text \<open>The constructors store the limit as a gauge.\<close>

definition orchestration_disabled :: "runtime_metrics \<Rightarrow> orchestration_admission \<times> runtime_metrics" where
  "orchestration_disabled m =
     (\<lparr>oa_limit = None, oa_parallel_agents_per_slot = 1, oa_wait_timeout_ms = 30000\<rparr>,
      m\<lparr>m_orchestration_admission_limit := 0\<rparr>)"

definition with_limit_and_parallelism ::
  "nat \<Rightarrow> nat \<Rightarrow> u64 \<Rightarrow> runtime_metrics \<Rightarrow> orchestration_admission \<times> runtime_metrics" where
  "with_limit_and_parallelism limit slot wait_ms m =
     (if limit = 0 then orchestration_disabled m
      else (\<lparr>oa_limit = Some limit, oa_parallel_agents_per_slot = max slot 1,
             oa_wait_timeout_ms = wait_ms\<rparr>,
            m\<lparr>m_orchestration_admission_limit := word_of_nat limit\<rparr>))"

definition derived_orchestration_limit :: "nat option \<Rightarrow> nat \<Rightarrow> nat option" where
  "derived_orchestration_limit provider_max_concurrent parallel =
     map_option (\<lambda>provider_limit. max (provider_limit div max parallel 1) 1) provider_max_concurrent"

definition orchestration_from_env ::
  "environment \<Rightarrow> provider_admission \<Rightarrow> u16 \<Rightarrow> runtime_metrics
     \<Rightarrow> ustr + orchestration_admission \<times> runtime_metrics" where
  "orchestration_from_env env padm parallel m =
     ebind (env_configured_optional_usize env
              [str ''MIYA_MAX_CONCURRENT_ORCHESTRATIONS'', str ''MULTI_AGENT_MAX_CONCURRENT_ORCHESTRATIONS''])
       (\<lambda>explicit.
          let limit = (case explicit of Some l \<Rightarrow> l
             | None \<Rightarrow> derived_orchestration_limit (pa_max_concurrent padm) (unat (max parallel 1)))
          in ebind (env_optional_u64 env [str ''MIYA_ORCHESTRATION_QUEUE_TIMEOUT_MS''] 30000) (\<lambda>ms.
             Inr (case limit of
                    Some l \<Rightarrow>
                      (if 0 < l then with_limit_and_parallelism l (unat (max parallel 1)) (max ms 1) m
                       else orchestration_disabled m)
                  | None \<Rightarrow> orchestration_disabled m)))"

text \<open>How many of the permits a run with so many parallel agents takes.\<close>

definition permit_weight :: "orchestration_admission \<Rightarrow> nat \<Rightarrow> nat" where
  "permit_weight adm requested =
     (let slot = oa_parallel_agents_per_slot adm;
          slots = (max requested 1 + slot - 1) div slot;
          weight = max (min slots (case oa_limit adm of Some l \<Rightarrow> l | None \<Rightarrow> 1)) 1
      in if weight < 2 ^ 32 then weight else 2 ^ 32 - 1)"

text \<open>The gauges and counters of the queue.\<close>

definition orch_enqueued :: "runtime_metrics \<Rightarrow> runtime_metrics" where
  "orch_enqueued m = m\<lparr>m_orchestrations_queued := m_orchestrations_queued m + 1\<rparr>"

text \<open>The drop of \<^verbatim>\<open>OrchestrationQueueGaugeGuard\<close>.\<close>

definition orch_dequeued :: "runtime_metrics \<Rightarrow> runtime_metrics" where
  "orch_dequeued m = m\<lparr>m_orchestrations_queued := m_orchestrations_queued m - 1\<rparr>"

definition orch_timed_out :: "runtime_metrics \<Rightarrow> runtime_metrics" where
  "orch_timed_out m = m\<lparr>m_orchestration_queue_timeouts := m_orchestration_queue_timeouts m + 1\<rparr>"

definition orch_admitted :: "nat \<Rightarrow> runtime_metrics \<Rightarrow> runtime_metrics" where
  "orch_admitted us m =
     (let m' = orch_dequeued (m\<lparr>m_orchestration_queue_wait_micros :=
                 m_orchestration_queue_wait_micros m + nat_to_word_or_max us\<rparr>)
      in m'\<lparr>m_orchestrations_admitted := m_orchestrations_admitted m' + 1,
            m_orchestrations_active := m_orchestrations_active m' + 1\<rparr>)"

text \<open>The drop of \<^verbatim>\<open>OrchestrationAdmissionPermit\<close>: a permit is the weight it holds, if it is active.\<close>

definition orch_released :: "nat option \<Rightarrow> runtime_metrics \<Rightarrow> runtime_metrics" where
  "orch_released permit m =
     (case permit of
        None \<Rightarrow> m | Some _ \<Rightarrow> m\<lparr>m_orchestrations_active := m_orchestrations_active m - 1\<rparr>)"

definition acquire_for_parallelism ::
  "'w semaphore_env \<Rightarrow> orchestration_admission \<Rightarrow> nat \<Rightarrow> 'w gate
     \<Rightarrow> 'w gate \<times> (orchestration_admission_error + nat option)" where
  "acquire_for_parallelism sem adm requested g =
     (case oa_limit adm of
        None \<Rightarrow> (g, Inr None)
      | Some _ \<Rightarrow>
          (let m = orch_enqueued (g_metrics g);
               weight = permit_weight adm requested
           in case se_acquire sem weight (oa_wait_timeout_ms adm) (g_world g) of
                (w, us, Acquired) \<Rightarrow>
                  (g\<lparr>g_world := w, g_metrics := orch_admitted us m\<rparr>, Inr (Some weight))
              | (w, us, LimiterClosed) \<Rightarrow>
                  (g\<lparr>g_world := w, g_metrics := orch_dequeued m\<rparr>, Inl OrchestrationClosed)
              | (w, us, WaitElapsed) \<Rightarrow>
                  (g\<lparr>g_world := w, g_metrics := orch_dequeued (orch_timed_out m)\<rparr>,
                   Inl (OrchestrationTimeout (oa_wait_timeout_ms adm)))))"

definition drop_orchestration_permit ::
  "'w semaphore_env \<Rightarrow> nat option \<Rightarrow> 'w gate \<Rightarrow> 'w gate" where
  "drop_orchestration_permit sem permit g =
     g\<lparr>g_world := (case permit of None \<Rightarrow> g_world g | Some weight \<Rightarrow> se_release sem weight (g_world g)),
       g_metrics := orch_released permit (g_metrics g)\<rparr>"

section \<open>Weights\<close>

lemma permit_weight_pos: "1 \<le> permit_weight adm requested"
  by (simp add: permit_weight_def Let_def)

lemma permit_weight_le_limit:
  "oa_limit adm = Some l \<Longrightarrow> 1 \<le> l \<Longrightarrow> permit_weight adm requested \<le> l"
  by (auto simp: permit_weight_def Let_def)

text \<open>A weight below the limit pays for every agent asked for.\<close>

lemma permit_weight_pays:
  assumes "oa_limit adm = Some l" and "0 < oa_parallel_agents_per_slot adm" and "l < 2 ^ 32"
    and "requested \<le> l * oa_parallel_agents_per_slot adm"
  shows "requested \<le> permit_weight adm requested * oa_parallel_agents_per_slot adm"
proof -
  let ?s = "oa_parallel_agents_per_slot adm"
  let ?n = "(max requested 1 + ?s - 1) div ?s"
  have ceil: "requested \<le> ?n * ?s"
  proof -
    have "m < m div ?s * ?s + ?s" for m
      using dividend_less_div_times [OF assms(2), of m] by simp
    from this [of "max requested 1 + ?s - 1"] show ?thesis by linarith
  qed
  show ?thesis
  proof (cases "?n \<le> l")
    case True
    have "?n \<le> permit_weight adm requested"
      using True assms(1,3) by (auto simp: permit_weight_def Let_def)
    then show ?thesis
      using ceil mult_le_mono1 order_trans by blast
  next
    case False
    then have "permit_weight adm requested = max l 1"
      using assms(1,3) by (simp add: permit_weight_def Let_def)
    then show ?thesis
      using assms(4) by (metis max.cobounded1 mult_le_mono1 order_trans)
  qed
qed

text \<open>A run that asks for more than the limit pays for takes the whole limit, and so runs alone.\<close>

lemma large_run_weight:
  assumes "oa_limit adm = Some l" and "0 < oa_parallel_agents_per_slot adm" and "l < 2 ^ 32"
    and "l * oa_parallel_agents_per_slot adm < requested"
  shows "l \<le> permit_weight adm requested"
proof -
  let ?s = "oa_parallel_agents_per_slot adm"
  have "l * ?s div ?s \<le> (max requested 1 + ?s - 1) div ?s"
    using assms(2,4) by (intro div_le_mono) linarith
  then show ?thesis using assms by (auto simp: permit_weight_def Let_def)
qed

lemma min_weight_pays:
  assumes "oa_limit adm = Some l" and "0 < oa_parallel_agents_per_slot adm" and "l < 2 ^ 32"
  shows "min requested (l * oa_parallel_agents_per_slot adm)
      \<le> permit_weight adm requested * oa_parallel_agents_per_slot adm"
proof (cases "requested \<le> l * oa_parallel_agents_per_slot adm")
  case True
  then show ?thesis using permit_weight_pays [OF assms] by simp
next
  case False
  then have "l \<le> permit_weight adm requested"
    using large_run_weight [OF assms] by simp
  then show ?thesis by (simp add: min.coboundedI2)
qed

lemma sum_weights_pay:
  assumes "oa_limit adm = Some l" and "0 < oa_parallel_agents_per_slot adm" and "l < 2 ^ 32"
  shows "sum_list (map (\<lambda>r. min r (l * oa_parallel_agents_per_slot adm)) rs)
      \<le> sum_list (map (permit_weight adm) rs) * oa_parallel_agents_per_slot adm"
proof (induction rs)
  case (Cons r rs)
  then show ?case
    using min_weight_pays [OF assms, of r] by (simp add: add_mult_distrib)
qed simp

lemma large_run_alone:
  assumes "oa_limit adm = Some l" and "0 < oa_parallel_agents_per_slot adm" and "l < 2 ^ 32"
    and "sum_list (map (permit_weight adm) rs) \<le> l"
    and "r \<in> set rs" and "l * oa_parallel_agents_per_slot adm < r"
  shows "rs = [r]"
proof -
  let ?w = "permit_weight adm"
  have "sum_list (map ?w rs) = ?w r + sum_list (map ?w (remove1 r rs))"
    using assms(5) by (rule sum_list_map_remove1)
  then have "sum_list (map ?w (remove1 r rs)) = 0"
    using assms(4) large_run_weight [OF assms(1-3,6)] by linarith
  then have "remove1 r rs = []"
    using permit_weight_pos [of adm "hd (remove1 r rs)"] by (cases "remove1 r rs") auto
  with assms(5) show ?thesis by (cases rs) (auto split: if_splits)
qed

lemma derived_limit_pays:
  assumes "derived_orchestration_limit (Some p) parallel = Some l" and "1 \<le> parallel"
  shows "l * parallel \<le> max p parallel"
    and "parallel \<le> p \<Longrightarrow> l * parallel \<le> p \<and> p < Suc l * parallel"
proof -
  have l: "l = max (p div parallel) 1"
    using assms by (simp add: derived_orchestration_limit_def)
  show "l * parallel \<le> max p parallel"
  proof (cases "parallel \<le> p")
    case True
    then have "1 \<le> p div parallel"
      using assms(2) by (simp add: Suc_le_eq div_greater_zero_iff)
    then show ?thesis using div_times_less_eq_dividend [of p parallel] by (simp add: l max.coboundedI1)
  qed (simp add: l)
  assume "parallel \<le> p"
  then have "1 \<le> p div parallel"
    using assms(2) by (simp add: Suc_le_eq div_greater_zero_iff)
  then have "l = p div parallel" by (simp add: l)
  then show "l * parallel \<le> p \<and> p < Suc l * parallel"
    using assms(2) dividend_less_div_times [of parallel p] by (simp add: div_times_less_eq_dividend)
qed

section \<open>The text of a queue timeout\<close>

lemma split_on_append_sep:
  assumes "\<forall>c \<in> set xs. \<not> p c" and "p c"
  shows "split_on p (xs @ c # ys) = xs # split_on p ys"
  using assms by (induction xs) (auto split: list.splits)

lemma digits_no_space: "c \<in> set (show_nat n) \<Longrightarrow> \<not> is_whitespace c"
  using show_nat_digits [of c n] by (auto simp: char_class_defs)

lemma split_on_no_sep: "\<forall>c \<in> set xs. \<not> p c \<Longrightarrow> split_on p xs = [xs]"
  by (induction xs) auto

lemma queue_wait_roundtrip: "provider_queue_wait_ms (queue_wait_message ms) = ms"
proof -
  let ?digits = "show_nat (unat ms)"
  have words: "split_whitespace (queue_wait_message ms)
      = [str ''provider'', str ''queue'', str ''wait'', str ''exceeded'', ?digits, str ''ms'']"
  proof -
    have "split_on is_whitespace (?digits @ 32 # str ''ms'') = [?digits, str ''ms'']"
      using digits_no_space
      by (subst split_on_append_sep) (auto simp: str_def is_whitespace_def)
    then show ?thesis
      by (simp add: split_whitespace_def queue_wait_message_def str_def is_whitespace_def)
  qed
  have "parse_uint (2 ^ 64) ?digits = Some (unat ms)"
    using unsigned_less [of ms] by (intro parse_show_nat) simp
  then show ?thesis
    by (simp add: provider_queue_wait_ms_def words)
      (simp add: parse_uint_def str_def is_ascii_digit_def)
qed

text \<open>The wait an overloaded queue reports to the client is the one that is configured.\<close>

lemma admission_timeout:
  assumes "pa_max_concurrent adm = Some n"
    and "se_acquire sem 1 (pa_wait_timeout_ms adm) w = (w', us, WaitElapsed)"
  shows "admission_invoke sem adm inner w request
    = (w', us div 1000, Inl (QueueTimeout (pa_wait_timeout_ms adm)))"
  using assms by (simp add: admission_invoke_def provider_acquire_def queue_wait_roundtrip)

section \<open>Orchestrations under way\<close>

text \<open>
  The admission as a transition system: requests join the queue, are admitted when the semaphore
  grants their weight, leave it at the deadline, at its closing or by being dropped, and release
  their permit at their end. \<open>grants held weight\<close> is the semaphore's decision, given the weights that
  are held.
\<close>

record orchestrations =
  or_metrics :: runtime_metrics
  or_waiting :: nat
  or_running :: "nat list"

inductive orchestration_step ::
  "(nat list \<Rightarrow> nat \<Rightarrow> bool) \<Rightarrow> orchestration_admission \<Rightarrow> orchestrations \<Rightarrow> orchestrations \<Rightarrow> bool"
  for grants :: "nat list \<Rightarrow> nat \<Rightarrow> bool" and adm :: orchestration_admission where
  join: "orchestration_step grants adm s
    (s\<lparr>or_metrics := orch_enqueued (or_metrics s), or_waiting := Suc (or_waiting s)\<rparr>)"
| enter: "or_waiting s = Suc n \<Longrightarrow>
    grants (map (permit_weight adm) (or_running s)) (permit_weight adm requested) \<Longrightarrow>
    orchestration_step grants adm s
      \<lparr>or_metrics = orch_admitted us (or_metrics s), or_waiting = n, or_running = requested # or_running s\<rparr>"
| expire: "or_waiting s = Suc n \<Longrightarrow> orchestration_step grants adm s
    (s\<lparr>or_metrics := orch_dequeued (orch_timed_out (or_metrics s)), or_waiting := n\<rparr>)"
| leave: "or_waiting s = Suc n \<Longrightarrow> orchestration_step grants adm s
    (s\<lparr>or_metrics := orch_dequeued (or_metrics s), or_waiting := n\<rparr>)"
| finish: "requested \<in> set (or_running s) \<Longrightarrow> orchestration_step grants adm s
    (s\<lparr>or_metrics := orch_released (Some (permit_weight adm requested)) (or_metrics s),
       or_running := remove1 requested (or_running s)\<rparr>)"

inductive_cases orchestration_stepE: "orchestration_step grants adm s s'"

inductive orchestration_reachable ::
  "(nat list \<Rightarrow> nat \<Rightarrow> bool) \<Rightarrow> orchestration_admission \<Rightarrow> runtime_metrics \<Rightarrow> orchestrations \<Rightarrow> bool"
  for grants :: "nat list \<Rightarrow> nat \<Rightarrow> bool" and adm :: orchestration_admission and m :: runtime_metrics where
  idle: "orchestration_reachable grants adm m \<lparr>or_metrics = m, or_waiting = 0, or_running = []\<rparr>"
| onward: "orchestration_reachable grants adm m s \<Longrightarrow> orchestration_step grants adm s s' \<Longrightarrow>
    orchestration_reachable grants adm m s'"

text \<open>What \<^verbatim>\<open>tokio\<close> promises of a semaphore with \<open>limit\<close> permits.\<close>

definition semaphore_grants :: "nat \<Rightarrow> (nat list \<Rightarrow> nat \<Rightarrow> bool) \<Rightarrow> bool" where
  "semaphore_grants limit grants \<longleftrightarrow> (\<forall>held w. grants held w \<longrightarrow> sum_list held + w \<le> limit)"

definition orchestrations_ok :: "orchestration_admission \<Rightarrow> nat \<Rightarrow> orchestrations \<Rightarrow> bool" where
  "orchestrations_ok adm limit s \<longleftrightarrow>
     m_orchestrations_queued (or_metrics s) = word_of_nat (or_waiting s)
     \<and> m_orchestrations_active (or_metrics s) = word_of_nat (length (or_running s))
     \<and> sum_list (map (permit_weight adm) (or_running s)) \<le> limit"

lemma orch_metrics_simps [simp]:
  "m_orchestrations_queued (orch_enqueued m) = m_orchestrations_queued m + 1"
  "m_orchestrations_active (orch_enqueued m) = m_orchestrations_active m"
  "m_orchestrations_queued (orch_dequeued m) = m_orchestrations_queued m - 1"
  "m_orchestrations_active (orch_dequeued m) = m_orchestrations_active m"
  "m_orchestrations_queued (orch_timed_out m) = m_orchestrations_queued m"
  "m_orchestrations_active (orch_timed_out m) = m_orchestrations_active m"
  "m_orchestrations_queued (orch_admitted us m) = m_orchestrations_queued m - 1"
  "m_orchestrations_active (orch_admitted us m) = m_orchestrations_active m + 1"
  "m_orchestrations_queued (orch_released p m) = m_orchestrations_queued m"
  "m_orchestrations_active (orch_released (Some w) m) = m_orchestrations_active m - 1"
  by (simp_all add: orch_enqueued_def orch_dequeued_def orch_timed_out_def orch_admitted_def
      orch_released_def Let_def split: option.split)

lemma orchestrations_ok_step:
  assumes "orchestration_step grants adm s s'" and "orchestrations_ok adm limit s"
    and "semaphore_grants limit grants"
  shows "orchestrations_ok adm limit s'"
  using assms(1)
proof (cases rule: orchestration_step.cases)
  case (enter n requested us)
  then have "sum_list (map (permit_weight adm) (or_running s)) + permit_weight adm requested \<le> limit"
    using assms(3) by (simp add: semaphore_grants_def)
  with enter assms(2) show ?thesis by (simp add: orchestrations_ok_def)
next
  case (finish requested)
  let ?ws = "map (permit_weight adm)"
  have "sum_list (?ws (or_running s)) = permit_weight adm requested + sum_list (?ws (remove1 requested (or_running s)))"
    using finish(2) by (rule sum_list_map_remove1)
  moreover have "length (or_running s) = Suc (length (remove1 requested (or_running s)))"
    using finish(2) length_pos_if_in_set [OF finish(2)] by (simp add: length_remove1)
  ultimately show ?thesis
    using finish assms(2) by (simp add: orchestrations_ok_def)
qed (use assms(2) in \<open>simp_all add: orchestrations_ok_def\<close>)

lemma orchestrations_ok_reachable:
  assumes "orchestration_reachable grants adm m s" and "semaphore_grants limit grants"
    and "m_orchestrations_queued m = 0" and "m_orchestrations_active m = 0"
  shows "orchestrations_ok adm limit s"
  using assms(1)
proof (induction rule: orchestration_reachable.induct)
  case idle
  then show ?case using assms(3,4) by (simp add: orchestrations_ok_def)
next
  case (onward s s')
  then show ?case using orchestrations_ok_step assms(2) by blast
qed

end
