(* ===== verification/Api_Errors.thy ===== *)
theory Api_Errors
  imports Api_Admission
begin

text \<open>
  \<^verbatim>\<open>api-server/src/lib.rs\<close>: the error answers of the gateway, as a status, the three fields of the body
  and what is added for a wait: the header \<^verbatim>\<open>retry-after\<close> in seconds, and for orchestrations the
  field \<^verbatim>\<open>retry_after_ms\<close> of the body. A status is one of the three-digit codes; \<^verbatim>\<open>StatusCode::from_u16\<close>
  refuses every other number.
\<close>

record http_error =
  he_status :: nat
  he_message :: ustr
  he_type :: ustr
  he_code :: ustr
  he_retry_after :: "nat option"
  he_retry_after_ms :: "u64 option"

definition plain_error :: "nat \<Rightarrow> ustr \<Rightarrow> ustr \<Rightarrow> ustr \<Rightarrow> http_error" where
  "plain_error status message kind code =
     \<lparr>he_status = status, he_message = message, he_type = kind, he_code = code,
      he_retry_after = None, he_retry_after_ms = None\<rparr>"

definition retry_after_seconds :: "u64 \<Rightarrow> nat" where
  "retry_after_seconds ms = max (unat (sat_add ms 999) div 1000) 1"

definition internal_error_response :: "ustr \<Rightarrow> http_error" where
  "internal_error_response message = plain_error 500 message (str ''server_error'') (str ''kernel_error'')"

definition conflict_response :: "ustr \<Rightarrow> http_error" where
  "conflict_response message = plain_error 409 message (str ''conflict_error'') (str ''conflict'')"

definition not_found_response :: "ustr \<Rightarrow> http_error" where
  "not_found_response message = plain_error 404 message (str ''not_found_error'') (str ''not_found'')"

datatype api_error = StreamUnsupported | InvalidRequest ustr

fun api_error_parts :: "api_error \<Rightarrow> nat \<times> ustr \<times> ustr" where
  "api_error_parts StreamUnsupported =
     (400, str ''stream_unsupported'', str ''streaming is not supported by the MVP multi-agent kernel'')"
| "api_error_parts (InvalidRequest message) = (400, str ''invalid_request'', message)"

definition api_error_response :: "api_error \<Rightarrow> http_error" where
  "api_error_response e =
     (case api_error_parts e of
        (status, code, message) \<Rightarrow> plain_error status message (str ''invalid_request_error'') code)"

definition status_from_u16 :: "u16 \<Rightarrow> nat option" where
  "status_from_u16 s = (if 100 \<le> unat s \<and> unat s < 1000 then Some (unat s) else None)"

fun provider_error_parts :: "provider_error \<Rightarrow> nat \<times> ustr \<times> ustr" where
  "provider_error_parts (Http _ status code _ _) =
     (let s = (case status_from_u16 status of Some s \<Rightarrow> s | None \<Rightarrow> 502)
      in (s, (case code of Some c \<Rightarrow> c | None \<Rightarrow> str ''upstream_error''),
          (if s = 429 then str ''rate_limit_error''
           else if 400 \<le> s \<and> s < 500 then str ''invalid_request_error''
           else str ''server_error'')))"
| "provider_error_parts (CircuitOpen _) = (503, str ''provider_circuit_open'', str ''server_error'')"
| "provider_error_parts (QueueTimeout _) = (503, str ''provider_overloaded'', str ''server_error'')"
| "provider_error_parts (Transport _ _ _) = (502, str ''provider_transport_error'', str ''server_error'')"
| "provider_error_parts (InvalidResponse _ _) = (502, str ''invalid_provider_response'', str ''server_error'')"
| "provider_error_parts (Rejected _) = (502, str ''provider_rejected'', str ''server_error'')"

definition provider_error_response :: "provider_error \<Rightarrow> http_error" where
  "provider_error_response e =
     (case provider_error_parts e of
        (status, code, kind) \<Rightarrow>
          (plain_error status (show_provider_error e) kind code)
            \<lparr>he_retry_after := map_option retry_after_seconds (retry_after_ms e)\<rparr>)"

text \<open>A kernel error that is a provider's is answered as the provider's.\<close>

definition kernel_error_parts :: "kernel_error \<Rightarrow> nat \<times> ustr \<times> ustr" where
  "kernel_error_parts e =
     (let internal = (500, str ''kernel_error'', str ''server_error'')
      in case e of
           RequestTimeout _ \<Rightarrow> (504, str ''request_timeout'', str ''timeout_error'')
         | AgentTimeout _ _ \<Rightarrow> (504, str ''request_timeout'', str ''timeout_error'')
         | ProviderRejected m \<Rightarrow>
             (if contains_str m (str ''provider queue wait exceeded'')
              then (503, str ''provider_overloaded'', str ''server_error'')
              else internal)
         | _ \<Rightarrow> internal)"

definition kernel_error_response :: "'w kernel_env \<Rightarrow> kernel_error \<Rightarrow> http_error" where
  "kernel_error_response env e =
     (case e of
        KProvider p \<Rightarrow> provider_error_response p
      | _ \<Rightarrow>
          (case kernel_error_parts e of
             (status, code, kind) \<Rightarrow> plain_error status (show_kernel_error env e) kind code))"

definition count_kernel_error :: "kernel_error \<Rightarrow> runtime_metrics \<Rightarrow> runtime_metrics" where
  "count_kernel_error e m =
     (case e of
        RequestTimeout _ \<Rightarrow> m\<lparr>m_kernel_request_timeouts := m_kernel_request_timeouts m + 1\<rparr>
      | AgentTimeout _ _ \<Rightarrow> m\<lparr>m_kernel_agent_timeouts := m_kernel_agent_timeouts m + 1\<rparr>
      | _ \<Rightarrow> m)"

definition orchestration_admission_error_response :: "orchestration_admission_error \<Rightarrow> http_error" where
  "orchestration_admission_error_response e =
     (let wait = (case e of OrchestrationTimeout ms \<Rightarrow> Some ms | OrchestrationClosed \<Rightarrow> None)
      in \<lparr>he_status = 503, he_message = show_orchestration_error e, he_type = str ''server_error'',
          he_code = str ''orchestration_overloaded'',
          he_retry_after = map_option retry_after_seconds wait, he_retry_after_ms = wait\<rparr>)"

text \<open>The header never asks a client back before the wait is over.\<close>

lemma retry_after_seconds_covers:
  assumes "unat ms < 2 ^ 64 - 999"
  shows "unat ms \<le> 1000 * retry_after_seconds ms \<and> retry_after_seconds ms \<le> unat ms div 1000 + 1"
proof -
  have "unat (sat_add ms 999) = unat ms + 999"
    using assms by (simp add: unat_sat_add)
  then show ?thesis
    by (simp add: retry_after_seconds_def) (auto simp: max_def)
qed

lemma provider_error_status:
  "he_status (provider_error_response e) =
     (case e of
        Http _ status _ _ _ \<Rightarrow> (case status_from_u16 status of Some s \<Rightarrow> s | None \<Rightarrow> 502)
      | CircuitOpen _ \<Rightarrow> 503 | QueueTimeout _ \<Rightarrow> 503 | _ \<Rightarrow> 502)"
  by (cases e) (simp_all add: provider_error_response_def plain_error_def Let_def)

end
