(* ===== verification/Api_Stack.thy ===== *)
theory Api_Stack
  imports Api_Errors Kernel_Modes
begin

text \<open>
  The gateway's stack as \<^verbatim>\<open>build_router_from_env\<close> puts it together: the kernel calls the resilient
  provider, which calls the admitted provider, which calls the upstream; and
  \<^verbatim>\<open>run_admitted_kernel\<close>, the run of one request behind the admission of orchestrations.
\<close>

definition stacked_stream ::
  "'w clock_env \<Rightarrow> resilience_config \<Rightarrow> 'w semaphore_env \<Rightarrow> provider_admission \<Rightarrow> 'w kernel_env
     \<Rightarrow> 'w gate \<Rightarrow> provider_request \<Rightarrow> 'w gate \<times> nat \<times> (provider_error + provider_stream_event list)" where
  "stacked_stream clk config sem adm env =
     resilient_stream clk config
       (\<lambda>w req. case admission_stream sem adm (ke_stream env) w req of
                  (w', ms, Inl e) \<Rightarrow> (w', ms, Inl e)
                | (w', ms, Inr (events, held)) \<Rightarrow> (drop_provider_permit sem held w', ms, Inr events))"

definition stacked_env ::
  "'w clock_env \<Rightarrow> resilience_config \<Rightarrow> 'w semaphore_env \<Rightarrow> provider_admission \<Rightarrow> 'w kernel_env
     \<Rightarrow> ('w gate) kernel_env" where
  "stacked_env clk config sem adm env =
     \<lparr>te_json_text = te_json_text env, te_json_pretty = te_json_pretty env,
      te_float_text = te_float_text env, te_issues_text = te_issues_text env,
      ke_invoke = resilient_invoke clk config (admission_invoke sem adm (ke_invoke env)),
      ke_stream = stacked_stream clk config sem adm env,
      ke_pick = (\<lambda>g. ke_pick env (g_world g)),
      ke_parse_verdict = ke_parse_verdict env,
      ke_plan_text = ke_plan_text env,
      ke_state_text = ke_state_text env,
      ke_nonce = (\<lambda>g. case ke_nonce env (g_world g) of (w, bytes) \<Rightarrow> (g\<lparr>g_world := w\<rparr>, bytes)),
      ke_encrypt = ke_encrypt env,
      ke_hex = ke_hex env,
      ke_debug_text = ke_debug_text env\<rparr>"

text \<open>
  \<^verbatim>\<open>run_admitted_kernel\<close>. The permit is dropped when the function returns, after an error of the
  kernel has been counted.
\<close>

definition run_admitted_kernel ::
  "('w gate) kernel_env \<Rightarrow> ('w gate \<Rightarrow> nat) \<Rightarrow> 'w semaphore_env \<Rightarrow> orchestration_admission
     \<Rightarrow> kernel_policy \<Rightarrow> normalized_request \<Rightarrow> 'w gate \<Rightarrow> 'w gate \<times> (http_error + kernel_output)" where
  "run_admitted_kernel env clock sem oadm policy r g =
     (let requested = unat (max (max_parallel_agents (kp_limits (for_request policy r))) 1)
      in case acquire_for_parallelism sem oadm requested g of
           (g1, Inl e) \<Rightarrow> (g1, Inl (orchestration_admission_error_response e))
         | (g1, Inr permit) \<Rightarrow>
             (let g2 = rs_world (snd (run_inner env policy r g1))
              in case run env clock policy r g1 of
                   Inr out \<Rightarrow> (drop_orchestration_permit sem permit g2, Inr out)
                 | Inl e \<Rightarrow>
                     (drop_orchestration_permit sem permit
                        (g2\<lparr>g_metrics := count_kernel_error e (g_metrics g2)\<rparr>),
                      Inl (kernel_error_response env e))))"

section \<open>What reaches the upstream\<close>

text \<open>The clocks and semaphores of a world with a log do not touch the log.\<close>

definition recording_clock :: "'w clock_env \<Rightarrow> ('w \<times> provider_request list) clock_env" where
  "recording_clock clk =
     \<lparr>ce_now = (\<lambda>w. ce_now clk (fst w)), ce_timestamp_ms = (\<lambda>w. ce_timestamp_ms clk (fst w)),
      ce_sleep = (\<lambda>ms w. (ce_sleep clk ms (fst w), snd w))\<rparr>"

definition recording_semaphores ::
  "'w semaphore_env \<Rightarrow> ('w \<times> provider_request list) semaphore_env" where
  "recording_semaphores sem =
     \<lparr>se_acquire = (\<lambda>n ms w. case se_acquire sem n ms (fst w) of (w', r) \<Rightarrow> ((w', snd w), r)),
      se_release = (\<lambda>n w. (se_release sem n (fst w), snd w))\<rparr>"

definition upstream_log :: "('w \<times> provider_request list) gate \<Rightarrow> provider_request list" where
  "upstream_log g = snd (g_world g)"

text \<open>A call through the admission reaches the upstream at most once.\<close>

lemma admission_log:
  assumes "admission_invoke (recording_semaphores sem) adm (recording call) w req = (w', ms, r)"
  shows "\<exists>n \<le> Suc 0. snd w' = snd w @ replicate n req"
proof -
  have acquire: "snd w1 = snd w"
    if "provider_acquire (recording_semaphores sem) adm w = (w1, us, p)" for w1 us p
    using that by (auto simp: provider_acquire_def recording_semaphores_def
        split: option.splits prod.splits acquire_outcome.splits)
  have drop_permit: "snd (drop_provider_permit (recording_semaphores sem) held w1) = snd w1" for held w1
    by (simp add: drop_provider_permit_def recording_semaphores_def)
  obtain w1 us p where acq: "provider_acquire (recording_semaphores sem) adm w = (w1, us, p)"
    by (cases "provider_acquire (recording_semaphores sem) adm w") auto
  show ?thesis
  proof (cases p)
    case (Inl m)
    with assms acq acquire [OF acq] show ?thesis
      by (intro exI [of _ 0]) (simp add: admission_invoke_def)
  next
    case (Inr held)
    with assms acq acquire [OF acq] show ?thesis
      by (intro exI [of _ "Suc 0"])
        (auto simp: admission_invoke_def drop_permit recording_def split: prod.splits)
  qed
qed

lemma retry_loop_log:
  assumes "retry_loop (recording_clock clk) config call attempt elapsed g = (g', ms, r)"
    and "attempt \<le> rz_max_retries config"
    and one: "\<And>w w' ms r. call w = (w', ms, r) \<Longrightarrow> \<exists>n \<le> Suc 0. snd w' = snd w @ replicate n req"
  shows "\<exists>n \<le> Suc (rz_max_retries config - attempt). upstream_log g' = upstream_log g @ replicate n req"
  using assms(1,2)
proof (induction "rz_max_retries config - attempt" arbitrary: attempt elapsed g rule: less_induct)
  case (less attempt elapsed g)
  obtain w t x where call: "call (g_world g) = (w, t, x)"
    by (cases "call (g_world g)") auto
  obtain k where k: "k \<le> Suc 0" "snd w = snd (g_world g) @ replicate k req"
    using one [OF call] by blast
  let ?g = "(count_attempt g)\<lparr>g_world := w\<rparr>"
  show ?case
  proof (cases "\<exists>e. x = Inl e \<and> retryable e \<and> attempt < rz_max_retries config")
    case True
    then obtain e where e: "x = Inl e" "retryable e" "attempt < rz_max_retries config" by blast
    let ?p = "retry_pause (recording_clock clk) config e attempt ?g"
    from less(2) call e
    have again: "retry_loop (recording_clock clk) config call (attempt + 1) (elapsed + t + snd ?p) (fst ?p) = (g', ms, r)"
      by (simp add: retry_loop.simps [of _ config call attempt elapsed g] Let_def split: prod.splits)
    have smaller: "rz_max_retries config - (attempt + 1) < rz_max_retries config - attempt"
        "attempt + 1 \<le> rz_max_retries config"
      using e(3) by simp_all
    have "\<exists>n \<le> Suc (rz_max_retries config - (attempt + 1)). upstream_log g' = upstream_log (fst ?p) @ replicate n req"
      by (rule less(1) [OF smaller(1) again smaller(2)])
    moreover have "upstream_log (fst ?p) = snd w"
      by (simp add: upstream_log_def retry_pause_def recording_clock_def Let_def)
    ultimately obtain n where "n \<le> Suc (rz_max_retries config - (attempt + 1))"
      "upstream_log g' = upstream_log g @ replicate (k + n) req"
      using k(2) by (auto simp: upstream_log_def replicate_add)
    with k(1) e(3) show ?thesis
      by (intro exI [of _ "k + n"]) simp
  next
    case False
    then have "upstream_log g' = snd w"
      using less(2) call
      by (auto simp: retry_loop.simps [of _ config call attempt elapsed g] Let_def upstream_log_def
          give_up_def split: sum.splits if_splits)
    with k show ?thesis
      by (intro exI [of _ k]) (auto simp: upstream_log_def)
  qed
qed

text \<open>The upstream log of one call of the kernel.\<close>

lemma resilient_log:
  assumes "resilient_invoke (recording_clock clk) config
      (admission_invoke (recording_semaphores sem) adm (recording call)) g req = (g', ms, r)"
  shows "\<exists>n \<le> Suc (rz_max_retries config). upstream_log g' = upstream_log g @ replicate n req"
proof (cases "fst (before_request (ce_now (recording_clock clk) (g_world g)) (g_circuit g))")
  case (Inl e)
  with assms show ?thesis
    by (intro exI [of _ 0])
      (auto simp: resilient_invoke_def resilient_def upstream_log_def split: prod.splits)
next
  case (Inr u)
  then obtain c where "retry_loop (recording_clock clk) config
      (\<lambda>w. admission_invoke (recording_semaphores sem) adm (recording call) w req) 0 0
      (g\<lparr>g_circuit := c\<rparr>) = (g', ms, r)"
    using assms by (auto simp: resilient_invoke_def resilient_def split: prod.splits)
  from retry_loop_log [OF this _ admission_log] show ?thesis
    by (simp add: upstream_log_def)
qed

section \<open>The requests of a run behind the stack\<close>

text \<open>The stack with a log at the upstream, and the world of a run that starts with an empty one.\<close>

definition logged_stack ::
  "'w clock_env \<Rightarrow> resilience_config \<Rightarrow> 'w semaphore_env \<Rightarrow> provider_admission \<Rightarrow> 'w kernel_env
     \<Rightarrow> (('w \<times> provider_request list) gate) kernel_env" where
  "logged_stack clk config sem adm env =
     stacked_env (recording_clock clk) config (recording_semaphores sem) adm (recording_env env)"

text \<open>
  Every upstream request is one the kernel may send, and the upstream has seen at most
  \<open>retries + 1\<close> requests for each one of the kernel.
\<close>

definition upstream_ok ::
  "resilience_config \<Rightarrow> run_ctx \<Rightarrow> (('w \<times> provider_request list) gate \<times> provider_request list) run_state
     \<Rightarrow> bool" where
  "upstream_ok config cx s \<longleftrightarrow>
     (\<forall>req \<in> set (upstream_log (fst (rs_world s))). request_confined cx req)
     \<and> length (upstream_log (fst (rs_world s))) \<le> Suc (rz_max_retries config) * length (run_log s)"

lemma upstream_ok_simps [simp]:
  "upstream_ok config cx (s\<lparr>rs_trace := t\<rparr>) = upstream_ok config cx s"
  "upstream_ok config cx (s\<lparr>rs_usage := u\<rparr>) = upstream_ok config cx s"
  "upstream_ok config cx (s\<lparr>rs_texts := ts\<rparr>) = upstream_ok config cx s"
  "upstream_ok config cx (s\<lparr>rs_stores := st\<rparr>) = upstream_ok config cx s"
  "upstream_ok config cx (s\<lparr>rs_sealed := es\<rparr>) = upstream_ok config cx s"
  by (simp_all add: upstream_ok_def run_log_def)

lemma stack_invoke_log:
  "\<exists>n \<le> Suc (rz_max_retries config).
     upstream_log (fst (snd (invoke_on (recording_env (logged_stack clk config sem adm env)) req w)))
       = upstream_log (fst w) @ replicate n req"
proof -
  obtain g' ms r where call: "ke_invoke (logged_stack clk config sem adm env) (fst w) req = (g', ms, r)"
    by (cases "ke_invoke (logged_stack clk config sem adm env) (fst w) req") auto
  then have "\<exists>n \<le> Suc (rz_max_retries config). upstream_log g' = upstream_log (fst w) @ replicate n req"
    by (intro resilient_log [where clk = clk and sem = sem and adm = adm and call = "ke_invoke env"])
      (simp add: logged_stack_def stacked_env_def recording_env_def)
  moreover have "fst (snd (invoke_on (recording_env (logged_stack clk config sem adm env)) req w)) = g'"
    using call by (simp add: invoke_on_def recording_env_def recording_def split: prod.splits)
  ultimately show ?thesis by simp
qed

lemma upstream_ok_invoke:
  assumes "upstream_ok config cx s" and "request_confined cx req"
  shows "upstream_ok config cx
    (s\<lparr>rs_world := snd (invoke_on (recording_env (logged_stack clk config sem adm env)) req (rs_world s))\<rparr>)"
proof -
  obtain n where n: "n \<le> Suc (rz_max_retries config)"
    "upstream_log (fst (snd (invoke_on (recording_env (logged_stack clk config sem adm env)) req (rs_world s))))
       = upstream_log (fst (rs_world s)) @ replicate n req"
    using stack_invoke_log by blast
  with assms show ?thesis
    by (auto simp: upstream_ok_def run_log_def recording_invoke algebra_simps)
qed

lemma upstream_nonce:
  "upstream_log (fst (fst (ke_nonce (recording_env (logged_stack clk config sem adm env)) w)))
     = upstream_log (fst w)"
  by (simp add: logged_stack_def stacked_env_def recording_env_def upstream_log_def split: prod.splits)

interpretation upstream: run_invariant "recording_env (logged_stack clk config sem adm env)" cx
    "request_confined cx" "upstream_ok config cx"
  for clk config sem adm env cx
  by unfold_locales
    (auto simp: upstream_ok_invoke confined_internal confined_root,
     auto simp: upstream_ok_def run_log_def recording_nonce upstream_nonce)

lemma upstream_run:
  "upstream_ok config (run_context (recording_env (logged_stack clk config sem adm env)) policy r)
     (snd (run_inner (recording_env (logged_stack clk config sem adm env)) policy r
        (\<lparr>g_world = (w, []), g_circuit = c, g_metrics = m\<rparr>, [])))"
  unfolding run_inner_def Let_def
  by (rule upstream.invariant_run [OF _ prod.collapse [symmetric]])
    (simp add: upstream_ok_def upstream_log_def run_log_def initial_state_def)

section \<open>Gauges\<close>

definition gauges :: "'w gate \<Rightarrow> u64 \<times> u64" where
  "gauges g = (m_orchestrations_queued (g_metrics g), m_orchestrations_active (g_metrics g))"

lemma gauges_simps [simp]:
  "gauges (count_attempt g) = gauges g" "gauges (count_retry g) = gauges g"
  "gauges (count_failure g) = gauges g" "gauges (count_rejection g) = gauges g"
  "gauges (g\<lparr>g_world := w\<rparr>) = gauges g" "gauges (g\<lparr>g_circuit := c\<rparr>) = gauges g"
  "gauges (fst (retry_pause clk config e attempt g)) = gauges g"
  "gauges (give_up clk config e g) = gauges g"
  by (simp_all add: gauges_def count_attempt_def count_retry_def count_failure_def count_rejection_def
      retry_pause_def give_up_def Let_def)

lemma retry_loop_gauges: "gauges (fst (retry_loop clk config call attempt elapsed g)) = gauges g"
proof (induction "rz_max_retries config - attempt" arbitrary: attempt elapsed g rule: less_induct)
  case less
  have ind: "attempt < rz_max_retries config \<Longrightarrow> gauges (fst (retry_loop clk config call (attempt + 1) t g')) = gauges g'" for t g'
    by (rule less) simp
  show ?case
    by (subst retry_loop.simps) (auto simp: Let_def ind [simplified] case_prod_beta split: sum.split)
qed

lemma resilient_gauges: "gauges (fst (resilient_invoke clk config inner g req)) = gauges g"
  by (auto simp: resilient_invoke_def resilient_def retry_loop_gauges split: prod.split sum.split)

interpretation gauge: run_invariant "stacked_env clk config sem adm env" cx "\<lambda>_. True"
    "\<lambda>s. gauges (rs_world s) = q"
  for clk config sem adm env cx q
proof (unfold_locales, goal_cases)
  case (3 s req)
  then show ?case
    using resilient_gauges [of clk config "admission_invoke sem adm (ke_invoke env)" "rs_world s" req]
    by (simp add: invoke_on_def stacked_env_def case_prod_beta)
next
  case (9 s)
  then show ?case by (simp add: stacked_env_def case_prod_beta)
qed simp_all

lemma run_gauges:
  "gauges (rs_world (snd (run_inner (stacked_env clk config sem adm env) policy r g))) = gauges g"
  unfolding run_inner_def Let_def
  by (rule gauge.invariant_run [OF _ prod.collapse [symmetric]]) (simp add: initial_state_def)

lemma gauges_count_error [simp]:
  "gauges (g\<lparr>g_metrics := count_kernel_error e (g_metrics g)\<rparr>) = gauges g"
  by (simp add: gauges_def count_kernel_error_def split: kernel_error.split)

lemma acquire_gauges:
  assumes "acquire_for_parallelism sem oadm requested g = (g1, outcome)"
  shows "gauges g1 = (fst (gauges g), snd (gauges g) + (case outcome of Inr (Some _) \<Rightarrow> 1 | _ \<Rightarrow> 0))"
  using assms
  by (auto simp: acquire_for_parallelism_def gauges_def Let_def split: option.splits prod.splits acquire_outcome.splits)

lemma drop_gauges:
  "gauges (drop_orchestration_permit sem permit g)
     = (fst (gauges g), snd (gauges g) - (case permit of Some _ \<Rightarrow> 1 | None \<Rightarrow> 0))"
  by (simp add: drop_orchestration_permit_def gauges_def orch_released_def split: option.split)

lemma admitted_gauges:
  "gauges (fst (run_admitted_kernel (stacked_env clk config sem adm env) clock sem' oadm policy r g)) = gauges g"
proof -
  obtain g1 outcome where acq: "acquire_for_parallelism sem' oadm
      (unat (max (max_parallel_agents (kp_limits (for_request policy r))) 1)) g = (g1, outcome)"
    by fastforce
  show ?thesis
    using acq acquire_gauges [OF acq] run_gauges [of clk config sem adm env policy r g1]
    by (cases outcome)
      (auto simp: run_admitted_kernel_def Let_def drop_gauges intro: prod_eqI split: sum.split option.splits)
qed

end
