(* ===== verification/Api_Tenants.thy ===== *)
theory Api_Tenants
  imports Api_Admission
begin

text \<open>
  \<^verbatim>\<open>TenantConcurrencyLimiter\<close> of \<^verbatim>\<open>api-server/src/lib.rs\<close>: a semaphore for each tenant, made when a
  request needs one and forgotten when nobody holds a handle to it. The semaphores that were ever
  made are numbered; a handle (an \<^verbatim>\<open>Arc\<close>) is owned by a request that waits or by the permit it got,
  so the strong count of a semaphore is the number of these. The map of the limiter has weak handles.
\<close>

record tenant_semaphore =
  ts_tenant :: ustr
  ts_waiting :: nat
  ts_holding :: nat

definition strong_count :: "tenant_semaphore \<Rightarrow> nat" where
  "strong_count s = ts_waiting s + ts_holding s"

record tenants =
  tn_map :: "(ustr, nat) btree"
  tn_semaphores :: "tenant_semaphore list"

record tenant_limiter =
  tl_max_per_tenant :: "nat option"
  tl_wait_timeout_ms :: u64

definition tenant_limiter_disabled :: tenant_limiter where
  "tenant_limiter_disabled = \<lparr>tl_max_per_tenant = None, tl_wait_timeout_ms = 30000\<rparr>"

definition with_max_per_tenant_and_wait :: "nat \<Rightarrow> u64 \<Rightarrow> tenant_limiter" where
  "with_max_per_tenant_and_wait n wait_ms =
     (if n = 0 then tenant_limiter_disabled
      else \<lparr>tl_max_per_tenant = Some n, tl_wait_timeout_ms = wait_ms\<rparr>)"

definition tenant_limiter_from_env_values :: "ustr option \<Rightarrow> u64 \<Rightarrow> tenant_limiter" where
  "tenant_limiter_from_env_values v wait_ms =
     with_max_per_tenant_and_wait
       (case Option.bind v (parse_uint (2 ^ 64)) of Some n \<Rightarrow> n | None \<Rightarrow> 16) (max wait_ms 1)"

definition tenant_limiter_from_env :: "environment \<Rightarrow> tenant_limiter" where
  "tenant_limiter_from_env env =
     tenant_limiter_from_env_values (env (str ''TENANT_MAX_CONCURRENT_REQUESTS''))
       (case Option.bind (env (str ''MIYA_TENANT_QUEUE_TIMEOUT_MS'')) (\<lambda>v. parse_uint (2 ^ 64) (trim v)) of
          Some n \<Rightarrow> (if 0 < n then word_of_nat n else 30000)
        | None \<Rightarrow> 30000)"

section \<open>The critical section\<close>

text \<open>\<^verbatim>\<open>retain\<close> drops the entries without a strong handle; \<^verbatim>\<open>upgrade\<close> gives one of the others.\<close>

definition alive :: "tenants \<Rightarrow> nat \<Rightarrow> bool" where
  "alive st i \<longleftrightarrow> i < length (tn_semaphores st) \<and> 0 < strong_count (tn_semaphores st ! i)"

definition retain_alive :: "tenants \<Rightarrow> tenants" where
  "retain_alive st = st\<lparr>tn_map := filter (\<lambda>e. alive st (snd e)) (tn_map st)\<rparr>"

definition join_semaphore :: "nat \<Rightarrow> tenants \<Rightarrow> tenants" where
  "join_semaphore i st =
     st\<lparr>tn_semaphores := (tn_semaphores st)
          [i := (tn_semaphores st ! i)\<lparr>ts_waiting := Suc (ts_waiting (tn_semaphores st ! i))\<rparr>]\<rparr>"

definition tenant_enter :: "ustr \<Rightarrow> tenants \<Rightarrow> nat \<times> tenants" where
  "tenant_enter tenant st =
     (let kept = retain_alive st;
          fresh = length (tn_semaphores st)
      in case bt_get (tn_map kept) tenant of
           Some i \<Rightarrow>
             (if alive kept i then (i, join_semaphore i kept)
              else (fresh, \<lparr>tn_map = bt_insert tenant fresh (tn_map kept),
                            tn_semaphores = tn_semaphores kept
                              @ [\<lparr>ts_tenant = tenant, ts_waiting = 1, ts_holding = 0\<rparr>]\<rparr>))
         | None \<Rightarrow>
             (fresh, \<lparr>tn_map = bt_insert tenant fresh (tn_map kept),
                      tn_semaphores = tn_semaphores kept
                        @ [\<lparr>ts_tenant = tenant, ts_waiting = 1, ts_holding = 0\<rparr>]\<rparr>))"

section \<open>Waiting, holding, leaving\<close>

definition tenant_granted :: "nat \<Rightarrow> tenants \<Rightarrow> tenants" where
  "tenant_granted i st =
     (let s = tn_semaphores st ! i
      in st\<lparr>tn_semaphores := (tn_semaphores st)
              [i := s\<lparr>ts_waiting := ts_waiting s - 1, ts_holding := Suc (ts_holding s)\<rparr>]\<rparr>)"

definition tenant_gave_up :: "nat \<Rightarrow> tenants \<Rightarrow> tenants" where
  "tenant_gave_up i st =
     (let s = tn_semaphores st ! i
      in st\<lparr>tn_semaphores := (tn_semaphores st)[i := s\<lparr>ts_waiting := ts_waiting s - 1\<rparr>]\<rparr>)"

definition tenant_released :: "nat \<Rightarrow> tenants \<Rightarrow> tenants" where
  "tenant_released i st =
     (let s = tn_semaphores st ! i
      in st\<lparr>tn_semaphores := (tn_semaphores st)[i := s\<lparr>ts_holding := ts_holding s - 1\<rparr>]\<rparr>)"

text \<open>\<^verbatim>\<open>acquire\<close> of one request; the wait on the semaphore is \<^verbatim>\<open>tokio\<close>'s and a parameter.\<close>

definition tenant_acquire ::
  "(nat \<Rightarrow> u64 \<Rightarrow> 'w \<Rightarrow> 'w \<times> acquire_outcome) \<Rightarrow> tenant_limiter \<Rightarrow> ustr \<Rightarrow> tenants \<times> 'w
     \<Rightarrow> (tenants \<times> 'w) \<times> (provider_error + nat option)" where
  "tenant_acquire wait limiter tenant s =
     (case tl_max_per_tenant limiter of
        None \<Rightarrow> (s, Inr None)
      | Some _ \<Rightarrow>
          (case tenant_enter tenant (fst s) of
             (i, st) \<Rightarrow>
               (case wait i (tl_wait_timeout_ms limiter) (snd s) of
                  (w, Acquired) \<Rightarrow> ((tenant_granted i st, w), Inr (Some i))
                | (w, WaitElapsed) \<Rightarrow>
                    ((tenant_gave_up i st, w), Inl (QueueTimeout (tl_wait_timeout_ms limiter)))
                | (w, LimiterClosed) \<Rightarrow>
                    ((tenant_gave_up i st, w),
                     Inl (Rejected (str ''tenant concurrency limiter was closed''))))))"

section \<open>Requests of many tenants\<close>

text \<open>\<open>grants n\<close> is the semaphore's decision when \<open>n\<close> permits are held.\<close>

inductive tenant_step :: "(nat \<Rightarrow> bool) \<Rightarrow> tenants \<Rightarrow> tenants \<Rightarrow> bool" for grants :: "nat \<Rightarrow> bool" where
  arrive: "tenant_step grants st (snd (tenant_enter tenant st))"
| grant: "i < length (tn_semaphores st) \<Longrightarrow> 0 < ts_waiting (tn_semaphores st ! i) \<Longrightarrow>
    grants (ts_holding (tn_semaphores st ! i)) \<Longrightarrow> tenant_step grants st (tenant_granted i st)"
| give_up: "i < length (tn_semaphores st) \<Longrightarrow> 0 < ts_waiting (tn_semaphores st ! i) \<Longrightarrow>
    tenant_step grants st (tenant_gave_up i st)"
| release: "i < length (tn_semaphores st) \<Longrightarrow> 0 < ts_holding (tn_semaphores st ! i) \<Longrightarrow>
    tenant_step grants st (tenant_released i st)"

inductive tenant_reachable :: "(nat \<Rightarrow> bool) \<Rightarrow> tenants \<Rightarrow> bool" for grants :: "nat \<Rightarrow> bool" where
  nobody: "tenant_reachable grants \<lparr>tn_map = [], tn_semaphores = []\<rparr>"
| onward: "tenant_reachable grants st \<Longrightarrow> tenant_step grants st st' \<Longrightarrow> tenant_reachable grants st'"

text \<open>
  A semaphore that somebody holds a handle to is the one its tenant's entry names, so no tenant has
  two of them; none has given away more permits than it has.
\<close>

definition tenants_ok :: "nat \<Rightarrow> tenants \<Rightarrow> bool" where
  "tenants_ok limit st \<longleftrightarrow>
     (\<forall>i < length (tn_semaphores st).
        (0 < strong_count (tn_semaphores st ! i)
           \<longrightarrow> bt_get (tn_map st) (ts_tenant (tn_semaphores st ! i)) = Some i)
        \<and> ts_holding (tn_semaphores st ! i) \<le> limit)
     \<and> (\<forall>t i. bt_get (tn_map st) t = Some i
           \<longrightarrow> i < length (tn_semaphores st) \<and> ts_tenant (tn_semaphores st ! i) = t)
     \<and> bt_wf (tn_map st)"

lemma tenants_okD:
  assumes "tenants_ok limit st"
  shows "i < length (tn_semaphores st) \<Longrightarrow> 0 < strong_count (tn_semaphores st ! i) \<Longrightarrow>
      bt_get (tn_map st) (ts_tenant (tn_semaphores st ! i)) = Some i"
    and "i < length (tn_semaphores st) \<Longrightarrow> ts_holding (tn_semaphores st ! i) \<le> limit"
    and "bt_get (tn_map st) t = Some i \<Longrightarrow> i < length (tn_semaphores st) \<and> ts_tenant (tn_semaphores st ! i) = t"
    and "bt_wf (tn_map st)"
  using assms by (simp_all add: tenants_ok_def)

lemma bt_get_filter:
  assumes "bt_wf m"
  shows "bt_get (filter P m) k = Option.bind (bt_get m k) (\<lambda>v. if P (k, v) then Some v else None)"
proof -
  have "distinct (map fst m)"
    using assms by (rule bt_wf_distinct)
  then show ?thesis
    unfolding bt_get_def by (induction m) (auto simp: map_of_eq_None_iff split: option.split)
qed

lemma retain_alive_simps:
  assumes "bt_wf (tn_map st)"
  shows "bt_get (tn_map (retain_alive st)) t
      = (case bt_get (tn_map st) t of Some i \<Rightarrow> if alive st i then Some i else None | None \<Rightarrow> None)"
    and "tn_semaphores (retain_alive st) = tn_semaphores st"
    and "alive (retain_alive st) i = alive st i"
    and "bt_wf (tn_map (retain_alive st))"
  using assms
  by (auto simp: retain_alive_def bt_get_filter alive_def bt_wf_def sorted_wrt_map sorted_wrt_filter
      split: option.split)

text \<open>Changing one semaphore's counts without dropping its last handle or above its limit.\<close>

lemma tenants_ok_update:
  assumes "tenants_ok limit st" and "i < length (tn_semaphores st)"
    and "ts_tenant s = ts_tenant (tn_semaphores st ! i)"
    and "0 < strong_count s \<Longrightarrow> 0 < strong_count (tn_semaphores st ! i)"
    and "ts_holding s \<le> limit"
  shows "tenants_ok limit (st\<lparr>tn_semaphores := (tn_semaphores st)[i := s]\<rparr>)"
  using assms by (auto simp: tenants_ok_def nth_list_update)

text \<open>A new semaphore for a tenant whose entry is not alive: it has one handle, that of the request.\<close>

lemma tenants_ok_add:
  assumes "tenants_ok limit st" and "bt_get (tn_map st) tenant = None"
  shows "tenants_ok limit
    \<lparr>tn_map = bt_insert tenant (length (tn_semaphores st)) (tn_map st),
     tn_semaphores = tn_semaphores st @ [\<lparr>ts_tenant = tenant, ts_waiting = 1, ts_holding = 0\<rparr>]\<rparr>"
proof -
  have "i < length (tn_semaphores st)" if "bt_get (tn_map st) t = Some i" for t i
    using tenants_okD(3) [OF assms(1) that] by simp
  moreover have "ts_tenant (tn_semaphores st ! i) \<noteq> tenant"
    if "i < length (tn_semaphores st)" "0 < strong_count (tn_semaphores st ! i)" for i
    using tenants_okD(1) [OF assms(1) that] assms(2) by auto
  ultimately show ?thesis
    using assms(1) unfolding tenants_ok_def
    by (auto simp: bt_get_insert nth_append less_Suc_eq strong_count_def split: if_splits)
qed

lemma tenants_ok_enter:
  assumes "tenants_ok limit st"
  shows "tenants_ok limit (snd (tenant_enter tenant st))"
proof -
  note wf = tenants_okD(4) [OF assms]
  note kept = retain_alive_simps [OF wf]
  have ok: "tenants_ok limit (retain_alive st)"
    using assms by (auto simp: tenants_ok_def kept alive_def split: option.split)
  show ?thesis
  proof (cases "bt_get (tn_map (retain_alive st)) tenant")
    case (Some i)
    then have "alive st i" by (auto simp: kept split: option.splits if_splits)
    with Some have enter: "snd (tenant_enter tenant st) = join_semaphore i (retain_alive st)"
      by (simp add: tenant_enter_def Let_def kept)
    have "i < length (tn_semaphores st)" "0 < strong_count (tn_semaphores st ! i)"
      using \<open>alive st i\<close> by (simp_all add: alive_def)
    with ok show ?thesis
      unfolding enter join_semaphore_def
      by (intro tenants_ok_update) (auto simp: kept tenants_okD(2) [OF assms] strong_count_def)
  next
    case None
    let ?new = "\<lparr>tn_map = bt_insert tenant (length (tn_semaphores st)) (tn_map (retain_alive st)),
       tn_semaphores = tn_semaphores st @ [\<lparr>ts_tenant = tenant, ts_waiting = 1, ts_holding = 0\<rparr>]\<rparr>"
    have "snd (tenant_enter tenant st) = ?new"
      using None by (simp add: tenant_enter_def Let_def kept)
    then show ?thesis
      using tenants_ok_add [OF ok None] by (simp add: kept)
  qed
qed

lemma tenants_ok_step:
  assumes "tenant_step grants st st'" and "tenants_ok limit st" and "\<forall>n. grants n \<longrightarrow> n < limit"
  shows "tenants_ok limit st'"
  using assms(1)
proof (cases rule: tenant_step.cases)
  case (arrive tenant)
  then show ?thesis using tenants_ok_enter [OF assms(2)] by simp
next
  case (grant i)
  then show ?thesis
    unfolding grant(1) tenant_granted_def Let_def using assms(3)
    by (intro tenants_ok_update [OF assms(2)]) (auto simp: strong_count_def Suc_le_eq)
next
  case (give_up i)
  then show ?thesis
    unfolding give_up(1) tenant_gave_up_def Let_def
    by (intro tenants_ok_update [OF assms(2)])
      (auto simp: strong_count_def tenants_okD(2) [OF assms(2)])
next
  case (release i)
  have "ts_holding (tn_semaphores st ! i) \<le> limit"
    using release(2) by (rule tenants_okD(2) [OF assms(2)])
  with release show ?thesis
    unfolding release(1) tenant_released_def Let_def
    by (intro tenants_ok_update [OF assms(2)]) (auto simp: strong_count_def)
qed

lemma tenants_ok_reachable:
  assumes "tenant_reachable grants st" and "\<forall>n. grants n \<longrightarrow> n < limit"
  shows "tenants_ok limit st"
  using assms(1)
proof (induction rule: tenant_reachable.induct)
  case nobody
  then show ?case by (simp add: tenants_ok_def)
next
  case (onward st st')
  then show ?case using tenants_ok_step assms(2) by blast
qed

text \<open>The permits a tenant holds over all semaphores that were ever made for it.\<close>

definition tenant_holding :: "tenants \<Rightarrow> ustr \<Rightarrow> nat" where
  "tenant_holding st tenant =
     sum_list (map ts_holding (filter (\<lambda>s. ts_tenant s = tenant) (tn_semaphores st)))"

lemma sum_single_index:
  assumes "\<And>i j. i < length xs \<Longrightarrow> j < length xs \<Longrightarrow> 0 < f (xs ! i) \<Longrightarrow> 0 < f (xs ! j) \<Longrightarrow> i = j"
    and "\<And>i. i < length xs \<Longrightarrow> f (xs ! i) \<le> (b :: nat)"
  shows "sum_list (map f xs) \<le> b"
  using assms
proof (induction xs)
  case (Cons x xs)
  show ?case
  proof (cases "f x = 0")
    case True
    have "sum_list (map f xs) \<le> b"
    proof (rule Cons.IH)
      show "i = j" if "i < length xs" "j < length xs" "0 < f (xs ! i)" "0 < f (xs ! j)" for i j
        using Cons.prems(1) [of "Suc i" "Suc j"] that by simp
      show "f (xs ! i) \<le> b" if "i < length xs" for i
        using Cons.prems(2) [of "Suc i"] that by simp
    qed
    with True show ?thesis by simp
  next
    case False
    have "f (xs ! j) = 0" if "j < length xs" for j
      using Cons.prems(1) [of 0 "Suc j"] that False by auto
    then have "\<forall>x \<in> set xs. f x = 0"
      by (auto simp: in_set_conv_nth)
    then have "sum_list (map f xs) = 0"
      by (induction xs) auto
    moreover have "f x \<le> b"
      using Cons.prems(2) [of 0] by simp
    ultimately show ?thesis
      unfolding list.map sum_list.Cons by linarith
  qed
qed simp

lemma tenant_holding_le:
  assumes "tenants_ok limit st"
  shows "tenant_holding st tenant \<le> limit"
proof -
  let ?f = "\<lambda>s. if ts_tenant s = tenant then ts_holding s else 0"
  have sum: "sum_list (map ts_holding (filter (\<lambda>s. ts_tenant s = tenant) xs)) = sum_list (map ?f xs)" for xs
    by (induction xs) auto
  have live: "bt_get (tn_map st) tenant = Some i" if "i < length (tn_semaphores st)" "0 < ?f (tn_semaphores st ! i)" for i
    using tenants_okD(1) [OF assms that(1)] that(2) by (auto simp: strong_count_def split: if_splits)
  show ?thesis
    unfolding tenant_holding_def sum
  proof (rule sum_single_index)
    show "i = j" if "i < length (tn_semaphores st)" "j < length (tn_semaphores st)"
      "0 < ?f (tn_semaphores st ! i)" "0 < ?f (tn_semaphores st ! j)" for i j
      using live [OF that(1,3)] live [OF that(2,4)] by simp
    show "?f (tn_semaphores st ! i) \<le> limit" if "i < length (tn_semaphores st)" for i
      using tenants_okD(2) [OF assms that] by simp
  qed
qed

end
