(* ===== verification/Context_Select.thy ===== *)
theory Context_Select
  imports Miya_Collections
begin

text \<open>
  The crate \<^verbatim>\<open>context-store\<close>, the part without a store: the records of a conversation, how the
  chunks of a context are scored, chosen and rendered within their bounds, the options and the keys.
  The tables of Unicode (lower case, what is alphanumeric) are fields of \<open>unicode_env\<close>. A \<^verbatim>\<open>usize\<close> is
  a natural number, a \<^verbatim>\<open>u128\<close> of milliseconds too.
\<close>

definition default_max_context_bytes :: nat where
  "default_max_context_bytes = 1048576"

definition default_max_chunks :: nat where
  "default_max_chunks = 128"

definition default_recent_tail_chunks :: nat where
  "default_recent_tail_chunks = 12"

record unicode_env =
  ue_lowercase :: "ustr \<Rightarrow> ustr"
  ue_alphanumeric :: "nat \<Rightarrow> bool"

record context_append_record =
  car_role :: ustr
  car_text :: ustr

record context_head =
  ch_tenant_id :: ustr
  ch_context_id :: ustr
  ch_latest_revision :: u64
  ch_chunk_count :: nat
  ch_updated_at_ms :: nat

definition context_head_empty :: "ustr \<Rightarrow> ustr \<Rightarrow> context_head" where
  "context_head_empty tenant context_id =
     \<lparr>ch_tenant_id = tenant, ch_context_id = context_id, ch_latest_revision = 0, ch_chunk_count = 0,
      ch_updated_at_ms = 0\<rparr>"

record context_options =
  co_query :: "ustr option"
  co_cache_namespace :: ustr
  co_rewind_revision :: "u64 option"
  co_max_context_bytes :: nat
  co_max_chunks :: nat
  co_recent_tail_chunks :: nat
  co_cache_enabled :: bool

definition context_options_default :: context_options where
  "context_options_default =
     \<lparr>co_query = None, co_cache_namespace = str ''default'', co_rewind_revision = None,
      co_max_context_bytes = default_max_context_bytes, co_max_chunks = default_max_chunks,
      co_recent_tail_chunks = default_recent_tail_chunks, co_cache_enabled = True\<rparr>"

definition normalize_cache_namespace :: "ustr \<Rightarrow> ustr" where
  "normalize_cache_namespace v =
     (let normalized = trim v in if normalized = [] then str ''default'' else take 256 normalized)"

definition clamp_nat :: "nat \<Rightarrow> nat \<Rightarrow> nat \<Rightarrow> nat" where
  "clamp_nat x lo hi = (if x < lo then lo else if hi < x then hi else x)"

definition normalized_options :: "context_options \<Rightarrow> context_options" where
  "normalized_options o' =
     (let chunks = clamp_nat (co_max_chunks o') 1 default_max_chunks
      in o'\<lparr>co_max_context_bytes := clamp_nat (co_max_context_bytes o') 1 default_max_context_bytes,
           co_max_chunks := chunks,
           co_recent_tail_chunks := min (co_recent_tail_chunks o') chunks,
           co_cache_namespace := normalize_cache_namespace (co_cache_namespace o')\<rparr>)"

record context_assembly =
  ca_context_id :: ustr
  ca_cache_namespace :: ustr
  ca_revision :: u64
  ca_text :: ustr
  ca_included_chunks :: nat
  ca_included_bytes :: nat
  ca_cache_hit :: bool
  ca_base_cache_revision :: "u64 option"
  ca_tail_chunks :: nat

definition empty_with_namespace :: "ustr \<Rightarrow> ustr \<Rightarrow> context_assembly" where
  "empty_with_namespace context_id namespace =
     \<lparr>ca_context_id = context_id, ca_cache_namespace = namespace, ca_revision = 0, ca_text = [],
      ca_included_chunks = 0, ca_included_bytes = 0, ca_cache_hit = False,
      ca_base_cache_revision = None, ca_tail_chunks = 0\<rparr>"

record stored_chunk =
  sc_tenant_id :: ustr
  sc_context_id :: ustr
  sc_revision :: u64
  sc_role :: ustr
  sc_text_sha256 :: ustr
  sc_byte_len :: nat
  sc_text :: ustr
  sc_created_at_ms :: nat

record context_pack =
  cp_context_id :: ustr
  cp_cache_namespace :: ustr
  cp_revision :: u64
  cp_policy_hash :: ustr
  cp_text :: ustr
  cp_byte_len :: nat
  cp_included_chunks :: nat
  cp_created_at_ms :: nat

section \<open>Scores\<close>

text \<open>\<^verbatim>\<open>s.matches(p).count()\<close>: the occurrences of \<open>p\<close> from the left that do not overlap.\<close>

lemma split_once_shorter: "split_once p s = Some (a, b) \<Longrightarrow> length b + length p \<le> length s"
proof (induction p s arbitrary: a b rule: split_once.induct)
  case (2 p c s)
  have "length p \<le> length (c # s)" if "starts_with (c # s) p"
    using that unfolding starts_with_def by (metis length_take min.cobounded1)
  with 2 show ?case
    by (auto split: if_splits option.splits)
qed (simp split: if_splits)

function count_matches :: "ustr \<Rightarrow> ustr \<Rightarrow> nat" where
  "count_matches p s =
     (if p = [] then Suc (length s)
      else case split_once p s of None \<Rightarrow> 0 | Some (_, rest) \<Rightarrow> Suc (count_matches p rest))"
  by pat_completeness auto
termination count_matches
proof (relation "measure (\<lambda>(p, s). length s)")
  fix p s and before_rest :: "ustr \<times> ustr" and before rest
  assume "p \<noteq> []" and "split_once p s = Some before_rest" and "(before, rest) = before_rest"
  then have "length rest + length p \<le> length s"
    using split_once_shorter by metis
  then show "((p, rest), p, s) \<in> measure (\<lambda>(p, s). length s)"
    using \<open>p \<noteq> []\<close> by (cases p) auto
qed simp

declare count_matches.simps [simp del]

definition query_terms :: "unicode_env \<Rightarrow> ustr \<Rightarrow> ustr list" where
  "query_terms ue query =
     bs_of (filter (\<lambda>term. 2 \<le> length term)
       (split_on (\<lambda>c. \<not> ue_alphanumeric ue c) (ue_lowercase ue query)))"

definition score_chunk :: "unicode_env \<Rightarrow> stored_chunk \<Rightarrow> ustr list \<Rightarrow> u64" where
  "score_chunk ue chunk terms =
     (if terms = [] then 0
      else sum_list (map (\<lambda>term. word_of_nat (count_matches term (ue_lowercase ue (sc_text chunk)))) terms))"

section \<open>Choosing chunks\<close>

definition option_terms :: "unicode_env \<Rightarrow> context_options \<Rightarrow> ustr list" where
  "option_terms ue opts = (case co_query opts of Some q \<Rightarrow> query_terms ue q | None \<Rightarrow> [])"

definition recent_revisions :: "stored_chunk list \<Rightarrow> context_options \<Rightarrow> u64 list" where
  "recent_revisions chunks opts =
     map sc_revision (drop (min (length chunks - co_recent_tail_chunks opts) (length chunks)) chunks)"

definition chunk_priority :: "u64 \<Rightarrow> bool \<Rightarrow> u64 \<Rightarrow> u64" where
  "chunk_priority score recent revision =
     sat_mul score 10000 + (if recent then 5000 else 0) + min revision 4999"

definition candidate_of ::
  "unicode_env \<Rightarrow> ustr list \<Rightarrow> u64 list \<Rightarrow> stored_chunk \<Rightarrow> (u64 \<times> stored_chunk) option" where
  "candidate_of ue terms recent chunk =
     (let score = score_chunk ue chunk terms;
          is_recent = sc_revision chunk \<in> set recent
      in if terms = [] \<or> 0 < score \<or> is_recent
         then Some (chunk_priority score is_recent (sc_revision chunk), chunk) else None)"

text \<open>The highest priority first, then the newest; the sort is stable.\<close>

definition sort_candidates :: "(u64 \<times> stored_chunk) list \<Rightarrow> (u64 \<times> stored_chunk) list" where
  "sort_candidates = sort_key (\<lambda>c. (- uint (fst c), - uint (sc_revision (snd c))))"

text \<open>The loop with its \<^verbatim>\<open>break\<close> and \<^verbatim>\<open>continue\<close>.\<close>

fun take_candidates ::
  "context_options \<Rightarrow> stored_chunk list \<Rightarrow> (u64, stored_chunk) btree \<Rightarrow> nat \<Rightarrow> (u64, stored_chunk) btree" where
  "take_candidates opts [] selected bytes = selected"
| "take_candidates opts (chunk # rest) selected bytes =
     (if co_max_chunks opts \<le> length selected then selected
      else if selected \<noteq> [] \<and> co_max_context_bytes opts < bytes + sc_byte_len chunk
      then take_candidates opts rest selected bytes
      else take_candidates opts rest (bt_insert (sc_revision chunk) chunk selected)
             (bytes + sc_byte_len chunk))"

definition choose_chunks ::
  "unicode_env \<Rightarrow> stored_chunk list \<Rightarrow> context_options \<Rightarrow> stored_chunk list" where
  "choose_chunks ue chunks opts =
     (if chunks = [] then []
      else let terms = option_terms ue opts;
               recent = recent_revisions chunks opts;
               candidates = filter_map (candidate_of ue terms recent) chunks
           in bt_values (take_candidates opts (map snd (sort_candidates candidates)) [] 0))"

section \<open>Rendering\<close>

definition render_part :: "stored_chunk \<Rightarrow> ustr" where
  "render_part chunk =
     str ''[context revision='' @ show_nat (unat (sc_revision chunk)) @ str '' role=''
       @ sc_role chunk @ str '']'' @ [10] @ trim (sc_text chunk)"

definition render_step :: "nat \<Rightarrow> stored_chunk \<Rightarrow> ustr \<Rightarrow> ustr" where
  "render_step max_bytes chunk rendered =
     (let part = render_part chunk
      in if rendered = [] then (if utf8_len part \<le> max_bytes then part else rendered)
         else if utf8_len rendered + utf8_len part + 2 \<le> max_bytes then rendered @ [10, 10] @ part
         else rendered)"

definition render_chunks :: "stored_chunk list \<Rightarrow> nat \<Rightarrow> ustr" where
  "render_chunks chunks max_bytes = fold (render_step max_bytes) chunks []"

text \<open>
  \<^verbatim>\<open>trim_to_char_boundary\<close>: \<open>drop_bytes n s\<close> drops whole characters until at least \<open>n\<close> bytes are gone,
  which is where \<^verbatim>\<open>start\<close> arrives at a boundary.
\<close>

fun drop_bytes :: "nat \<Rightarrow> ustr \<Rightarrow> ustr" where
  "drop_bytes n [] = []"
| "drop_bytes n (c # s) = (if n = 0 then c # s else drop_bytes (n - utf8_width c) s)"

definition trim_to_char_boundary :: "ustr \<Rightarrow> nat \<Rightarrow> ustr" where
  "trim_to_char_boundary text' max_bytes =
     (if utf8_len text' \<le> max_bytes then text' else drop_bytes (utf8_len text' - max_bytes) text')"

section \<open>Lemmas\<close>

lemma query_terms_wf: "sorted_wrt (<) (query_terms ue q)" and query_terms_long: "term \<in> set (query_terms ue q) \<Longrightarrow> 2 \<le> length term"
proof -
  have "sorted_wrt (<) (fold bs_insert xs ys)" if "sorted_wrt (<) ys" for xs ys :: "ustr list"
    using that by (induction xs arbitrary: ys) (auto intro: wf_intros)
  then show "sorted_wrt (<) (query_terms ue q)"
    by (simp add: query_terms_def bs_of_def)
  show "term \<in> set (query_terms ue q) \<Longrightarrow> 2 \<le> length term"
    by (simp add: query_terms_def)
qed

lemma set_sort_candidates [simp]: "set (sort_candidates cs) = set cs"
  by (simp add: sort_candidates_def)

text \<open>What the selection keeps: at most the maximum of chunks, each from the candidates, by revision.\<close>

lemma take_candidates_wf:
  "bt_wf selected \<Longrightarrow> bt_wf (take_candidates opts cs selected bytes)"
proof (induction opts cs selected bytes rule: take_candidates.induct)
  case (2 opts chunk rest selected bytes)
  with bt_wf_insert [OF 2(3), of "sc_revision chunk" chunk] show ?case by simp
qed simp

lemma take_candidates_length:
  "length selected \<le> co_max_chunks opts \<Longrightarrow>
   length (take_candidates opts cs selected bytes) \<le> co_max_chunks opts"
proof (induction opts cs selected bytes rule: take_candidates.induct)
  case (2 opts chunk rest selected bytes)
  then show ?case
    using length_bt_insert_le [of "sc_revision chunk" chunk selected] by auto
qed simp

lemma take_candidates_subset:
  "set (take_candidates opts cs selected bytes)
     \<subseteq> set selected \<union> (\<lambda>c. (sc_revision c, c)) ` set cs"
proof (induction opts cs selected bytes rule: take_candidates.induct)
  case (2 opts chunk rest selected bytes)
  then show ?case
    using set_bt_insert_subset [of "sc_revision chunk" chunk selected] by auto
qed simp

definition selected_bytes :: "(u64, stored_chunk) btree \<Rightarrow> nat" where
  "selected_bytes m = sum_list (map (\<lambda>e. sc_byte_len (snd e)) m)"

lemma selected_bytes_insert:
  "selected_bytes (bt_insert k c m) \<le> selected_bytes m + sc_byte_len c"
  by (induction k c m rule: bt_insert.induct) (auto simp: selected_bytes_def)

text \<open>The bytes of the selection: within the maximum, or those of a single chunk.\<close>

lemma length_bt_insert_pos: "0 < length (bt_insert k v m)"
  by (induction k v m rule: bt_insert.induct) auto

lemma take_candidates_bytes:
  assumes "selected_bytes selected \<le> bytes"
    and "length selected \<le> 1 \<or> bytes \<le> co_max_context_bytes opts"
  shows "length (take_candidates opts cs selected bytes) \<le> 1
    \<or> selected_bytes (take_candidates opts cs selected bytes) \<le> co_max_context_bytes opts"
  using assms
proof (induction opts cs selected bytes rule: take_candidates.induct)
  case (1 opts selected bytes)
  then show ?case by auto
next
  case (2 opts chunk rest selected bytes)
  have ins: "selected_bytes (bt_insert (sc_revision chunk) chunk selected) \<le> bytes + sc_byte_len chunk"
    using selected_bytes_insert [of "sc_revision chunk" chunk selected] 2(3) by simp
  have one: "length (bt_insert (sc_revision chunk) chunk selected) \<le> 1" if "selected = []"
    using that by simp
  from 2 ins one show ?case
    by (cases "selected = []") auto
qed

lemma choose_chunks_subset: "set (choose_chunks ue chunks opts) \<subseteq> set chunks"
proof -
  let ?cs = "filter_map (candidate_of ue (option_terms ue opts) (recent_revisions chunks opts)) chunks"
  have "snd ` set ?cs \<subseteq> set chunks"
    by (auto simp: set_filter_map candidate_of_def Let_def split: if_splits)
  moreover have "snd ` set (take_candidates opts (map snd (sort_candidates ?cs)) [] 0) \<subseteq> snd ` set ?cs"
    using image_mono [OF take_candidates_subset [of opts "map snd (sort_candidates ?cs)" "[]" 0], of snd]
    by (simp add: image_image)
  ultimately have "snd ` set (take_candidates opts (map snd (sort_candidates ?cs)) [] 0) \<subseteq> set chunks"
    by (rule order_trans [rotated])
  then show ?thesis
    by (simp add: choose_chunks_def Let_def bt_values_def)
qed

lemma sorted_keys_values:
  assumes "bt_wf m" and "\<forall>e \<in> set m. fst e = f (snd e)"
  shows "sorted_wrt (<) (map f (bt_values m))"
proof -
  have "map f (bt_values m) = map fst m"
    using assms(2) by (simp add: bt_values_def)
  with assms(1) show ?thesis by (simp add: bt_wf_def)
qed

lemma choose_chunks_sorted: "sorted_wrt (<) (map sc_revision (choose_chunks ue chunks opts))"
proof -
  have "sorted_wrt (<) (map sc_revision (bt_values (take_candidates opts cs [] 0)))" for cs
    using take_candidates_subset [of opts cs "[]" 0]
    by (intro sorted_keys_values take_candidates_wf) auto
  then show ?thesis by (simp add: choose_chunks_def Let_def)
qed

lemma choose_chunks_length: "length (choose_chunks ue chunks opts) \<le> co_max_chunks opts"
  using take_candidates_length [of "[]" opts] by (simp add: choose_chunks_def Let_def bt_values_def)

lemma render_step_le:
  "utf8_len rendered \<le> max_bytes \<Longrightarrow> utf8_len (render_step max_bytes chunk rendered) \<le> max_bytes"
  by (auto simp: render_step_def Let_def utf8_width_def)

lemma render_chunks_le: "utf8_len (render_chunks chunks max_bytes) \<le> max_bytes"
proof -
  have "utf8_len rendered \<le> max_bytes \<Longrightarrow> utf8_len (fold (render_step max_bytes) chunks rendered) \<le> max_bytes" for rendered
    by (induction chunks arbitrary: rendered) (simp_all add: render_step_le)
  then show ?thesis by (simp add: render_chunks_def)
qed

text \<open>The trimmed text: a suffix within the bound, and no character more than needed was dropped.\<close>

lemma drop_bytes_suffix: "\<exists>pre. s = pre @ drop_bytes n s \<and> utf8_len pre < n + 4"
proof (induction n s rule: drop_bytes.induct)
  case (2 n c s)
  show ?case
  proof (cases "n = 0")
    case False
    with 2 obtain pre where pre: "s = pre @ drop_bytes (n - utf8_width c) s"
      "utf8_len pre < n - utf8_width c + 4"
      by blast
    show ?thesis
    proof (cases "n \<le> utf8_width c")
      case True
      have "drop_bytes 0 t = t" for t by (cases t) auto
      with True False show ?thesis
        using utf8_width_bounds [of c] by (intro exI [of _ "[c]"]) auto
    next
      case n: False
      with False pre show ?thesis by (intro exI [of _ "c # pre"]) auto
    qed
  qed simp
qed simp

lemma drop_bytes_len: "utf8_len (drop_bytes n s) \<le> utf8_len s - n"
proof (induction n s rule: drop_bytes.induct)
  case (2 n c s)
  then show ?case by auto
qed simp

lemma trim_to_char_boundary_spec:
  "utf8_len (trim_to_char_boundary s n) \<le> n
   \<and> (\<exists>pre. s = pre @ trim_to_char_boundary s n)
   \<and> min (utf8_len s) n < utf8_len (trim_to_char_boundary s n) + 4"
proof (cases "utf8_len s \<le> n")
  case False
  obtain pre where pre: "s = pre @ drop_bytes (utf8_len s - n) s" "utf8_len pre < utf8_len s - n + 4"
    using drop_bytes_suffix by blast
  then have "utf8_len s = utf8_len pre + utf8_len (drop_bytes (utf8_len s - n) s)"
    by (metis utf8_len_simps(3))
  with False pre drop_bytes_len [of "utf8_len s - n" s] show ?thesis
    by (auto simp: trim_to_char_boundary_def)
qed (auto simp: trim_to_char_boundary_def)

section \<open>A chunk larger than the bound\<close>

lemma hd_sort_key:
  assumes "x \<in> set xs" and "\<And>y. y \<in> set xs \<Longrightarrow> y \<noteq> x \<Longrightarrow> f x < f y"
  shows "\<exists>rest. sort_key f xs = x # rest"
proof -
  have "sort_key f xs \<noteq> []" using assms(1) by (metis empty_iff empty_set set_sort)
  then obtain y rest where y: "sort_key f xs = y # rest" by (cases "sort_key f xs") auto
  then have "y \<in> set xs" by (metis list.set_intros(1) set_sort)
  moreover have "f y \<le> f x"
    using sorted_sort_key [of f xs] assms(1) y
    by (metis (no_types, lifting) list.simps(9) order.refl set_ConsD set_sort sorted_simps(2) image_eqI list.set_map)
  ultimately have "y = x" using assms(2) [of y] leD by blast
  with y show ?thesis by simp
qed

lemma take_after_oversized:
  assumes "selected \<noteq> []" and "co_max_context_bytes opts < bytes"
  shows "take_candidates opts cs selected bytes = selected"
  using assms by (induction opts cs selected bytes rule: take_candidates.induct) auto

lemma utf8_len_trim: "utf8_len (trim s) \<le> utf8_len s"
proof -
  have "utf8_len (dropWhile P xs) \<le> utf8_len xs" for P xs by (induction xs) auto
  moreover have "utf8_len (rev xs) = utf8_len xs" for xs by (induction xs) auto
  ultimately show ?thesis
    unfolding trim_def trim_start_def trim_end_def by (metis order_trans)
qed

lemma render_part_length: "utf8_len (trim (sc_text c)) < utf8_len (render_part c)"
  by (simp add: render_part_def str_def utf8_width_def)

lemma unat_chunk_priority: "unat (chunk_priority 0 r v) = (if r then 5000 else 0) + unat (min v 4999)"
proof -
  have "unat (min v (4999 :: u64)) \<le> 4999" by (simp add: min_def word_le_nat_alt)
  moreover have "sat_mul (0 :: u64) 10000 = 0" by (simp add: sat_mul_def nat_to_word_or_max_def)
  ultimately show ?thesis by (simp add: chunk_priority_def unat_word_ariths)
qed

text \<open>
  Without a query the newest chunk comes first; when it is larger than the maximum it is selected all
  the same, nothing fits after it, and the rendering leaves it out.
\<close>

lemma newest_first:
  assumes "co_query opts = None" and "sorted_wrt (<) (map sc_revision (chunks @ [c]))"
  shows "\<exists>rest. sort_candidates (filter_map (candidate_of ue (option_terms ue opts)
           (recent_revisions (chunks @ [c]) opts)) (chunks @ [c]))
         = (chunk_priority 0 (sc_revision c \<in> set (recent_revisions (chunks @ [c]) opts)) (sc_revision c), c) # rest"
proof -
  let ?recent = "recent_revisions (chunks @ [c]) opts"
  let ?cand = "\<lambda>x. (chunk_priority 0 (sc_revision x \<in> set ?recent) (sc_revision x), x)"
  have cands: "filter_map (candidate_of ue (option_terms ue opts) ?recent) xs = map ?cand xs" for xs
    using assms(1)
    by (induction xs) (simp_all add: candidate_of_def option_terms_def score_chunk_def)
  have recent: "sc_revision c \<in> set ?recent" if "sc_revision x \<in> set ?recent" for x
  proof -
    let ?n = "min (length (chunks @ [c]) - co_recent_tail_chunks opts) (length (chunks @ [c]))"
    from that have "drop ?n (chunks @ [c]) \<noteq> []" by (auto simp: recent_revisions_def)
    then have "?n < length (chunks @ [c])" by (metis drop_eq_Nil not_le)
    then have "last (drop ?n (chunks @ [c])) = c" by simp
    with \<open>drop ?n (chunks @ [c]) \<noteq> []\<close> show ?thesis
      by (metis image_eqI last_in_set list.set_map recent_revisions_def)
  qed
  have less: "sc_revision x < sc_revision c" if "x \<in> set chunks" for x
    using assms(2) that by (simp add: sorted_wrt_append)
  have le: "fst (?cand x) \<le> fst (?cand c)" if "x \<in> set chunks" for x
    using less [OF that] recent [of x]
    by (auto simp: word_le_nat_alt word_less_nat_alt unat_chunk_priority min_def)
  show ?thesis
    unfolding cands sort_candidates_def
    by (intro hd_sort_key) (use le less in \<open>force simp: word_le_def word_less_def\<close>)+
qed

lemma newest_oversized_empty:
  assumes "co_query opts = None" and "sorted_wrt (<) (map sc_revision (chunks @ [c]))"
    and "sc_byte_len c = utf8_len (sc_text c)" and "co_max_context_bytes opts < utf8_len (trim (sc_text c))"
  shows "render_chunks (choose_chunks ue (chunks @ [c]) opts) (co_max_context_bytes opts) = []"
proof -
  obtain rest where "sort_candidates (filter_map (candidate_of ue (option_terms ue opts)
           (recent_revisions (chunks @ [c]) opts)) (chunks @ [c]))
         = (chunk_priority 0 (sc_revision c \<in> set (recent_revisions (chunks @ [c]) opts)) (sc_revision c), c) # rest"
    using newest_first [OF assms(1,2)] by blast
  then have "choose_chunks ue (chunks @ [c]) opts \<in> {[], [c]}"
    using assms(3,4) utf8_len_trim [of "sc_text c"] by (simp add: choose_chunks_def Let_def take_after_oversized bt_values_def)
  then show ?thesis
    using render_part_length [of c] assms(4)
    by (auto simp: render_chunks_def render_step_def Let_def)
qed

end
