(* ===== verification/Context_Store.thy ===== *)
theory Context_Store
  imports Context_Select Miya_Json
begin

text \<open>
  The crate \<^verbatim>\<open>context-store\<close> over its store. \<^verbatim>\<open>surrealkv\<close> (versioned keys, ranges, transactions),
  \<^verbatim>\<open>serde_json\<close>, \<^verbatim>\<open>sha2\<close>, \<^verbatim>\<open>hex\<close> and the clock are the fields of \<open>kv_env\<close>; a stored value is of the type
  \<open>'b\<close>. A transaction reads a snapshot and commits a list of writes at once; an error at its
  beginning or at one of its writes is the error of its first read or of its commit. Keys are ASCII,
  so a key is the list of its characters, which are its bytes.
\<close>

datatype context_store_error = SurrealKvError ustr | SerdeError ustr | InvalidInput ustr

datatype 'b kv_write = WriteAt 'b u64 | Write 'b | Erase

record ('w, 'b) kv_env =
  kv_get :: "ustr \<Rightarrow> 'w \<Rightarrow> ustr + 'b option"
  kv_get_at :: "ustr \<Rightarrow> u64 \<Rightarrow> 'w \<Rightarrow> ustr + 'b option"
  kv_range :: "ustr \<Rightarrow> ustr \<Rightarrow> 'w \<Rightarrow> ustr + 'b list"
  kv_commit :: "(ustr \<times> 'b kv_write) list \<Rightarrow> 'w \<Rightarrow> (ustr + unit) \<times> 'w"
  kv_now_ms :: "'w \<Rightarrow> nat \<times> 'w"
  kv_hex :: "nat list \<Rightarrow> ustr"
  kv_sha256 :: "nat list \<Rightarrow> nat list"
  kv_unicode :: unicode_env
  kv_enc_head :: "context_head \<Rightarrow> 'b"
  kv_dec_head :: "'b \<Rightarrow> ustr + context_head"
  kv_enc_chunk :: "stored_chunk \<Rightarrow> 'b"
  kv_dec_chunk :: "'b \<Rightarrow> ustr + stored_chunk"
  kv_enc_pack :: "context_pack \<Rightarrow> 'b"
  kv_dec_pack :: "'b \<Rightarrow> ustr + context_pack"
  kv_enc_json :: "json \<Rightarrow> 'b"
  kv_dec_json :: "'b \<Rightarrow> ustr + json"

section \<open>Bytes, hashes, keys\<close>

definition be_bytes :: "nat \<Rightarrow> nat list" where
  "be_bytes n = map (\<lambda>i. n div 256 ^ (7 - i) mod 256) [0..<8]"

definition encode_component :: "('w, 'b) kv_env \<Rightarrow> ustr \<Rightarrow> ustr" where
  "encode_component kv v = kv_hex kv (utf8_bytes v)"

definition sha256_hex :: "('w, 'b) kv_env \<Rightarrow> nat list \<Rightarrow> ustr" where
  "sha256_hex kv bytes = kv_hex kv (kv_sha256 kv bytes)"

definition assembly_policy_hash :: "('w, 'b) kv_env \<Rightarrow> context_options \<Rightarrow> ustr" where
  "assembly_policy_hash kv opts =
     sha256_hex kv (utf8_bytes (co_cache_namespace opts) @ [0]
       @ be_bytes (co_max_context_bytes opts) @ be_bytes (co_max_chunks opts)
       @ be_bytes (co_recent_tail_chunks opts)
       @ (case co_query opts of Some q \<Rightarrow> utf8_bytes q | None \<Rightarrow> []))"

definition context_prefix :: "('w, 'b) kv_env \<Rightarrow> ustr \<Rightarrow> ustr \<Rightarrow> ustr" where
  "context_prefix kv tenant context_id =
     str ''ctx/'' @ encode_component kv tenant @ str ''/'' @ encode_component kv context_id @ str ''/''"

definition head_key :: "('w, 'b) kv_env \<Rightarrow> ustr \<Rightarrow> ustr \<Rightarrow> ustr" where
  "head_key kv tenant context_id = context_prefix kv tenant context_id @ str ''head''"

definition chunk_prefix :: "('w, 'b) kv_env \<Rightarrow> ustr \<Rightarrow> ustr \<Rightarrow> ustr" where
  "chunk_prefix kv tenant context_id = context_prefix kv tenant context_id @ str ''chunk/''"

text \<open>\<^verbatim>\<open>{revision:020}\<close>.\<close>

definition pad20 :: "nat \<Rightarrow> ustr" where
  "pad20 n = replicate (20 - length (show_nat n)) 48 @ show_nat n"

definition chunk_key :: "('w, 'b) kv_env \<Rightarrow> ustr \<Rightarrow> ustr \<Rightarrow> u64 \<Rightarrow> ustr" where
  "chunk_key kv tenant context_id revision = chunk_prefix kv tenant context_id @ pad20 (unat revision)"

definition pack_key :: "('w, 'b) kv_env \<Rightarrow> ustr \<Rightarrow> ustr \<Rightarrow> ustr \<Rightarrow> ustr" where
  "pack_key kv tenant context_id hash = context_prefix kv tenant context_id @ str ''pack/'' @ hash"

definition json_prefix :: "('w, 'b) kv_env \<Rightarrow> ustr \<Rightarrow> ustr \<Rightarrow> ustr" where
  "json_prefix kv namespace tenant =
     str ''json/'' @ encode_component kv namespace @ str ''/'' @ encode_component kv tenant @ str ''/''"

definition json_key :: "('w, 'b) kv_env \<Rightarrow> ustr \<Rightarrow> ustr \<Rightarrow> ustr \<Rightarrow> ustr" where
  "json_key kv namespace tenant key = json_prefix kv namespace tenant @ encode_component kv key"

section \<open>Reading\<close>

definition validate_component :: "ustr \<Rightarrow> ustr \<Rightarrow> context_store_error + unit" where
  "validate_component name v =
     (if is_blank v then Inl (InvalidInput (name @ str '' must not be empty'')) else Inr ())"

definition validate_context :: "ustr \<Rightarrow> ustr \<Rightarrow> context_store_error + unit" where
  "validate_context tenant context_id =
     ebind (validate_component (str ''tenant_id'') tenant)
       (\<lambda>_. validate_component (str ''context_id'') context_id)"

definition kv_error :: "ustr + 'a \<Rightarrow> context_store_error + 'a" where
  "kv_error r = (case r of Inl m \<Rightarrow> Inl (SurrealKvError m) | Inr x \<Rightarrow> Inr x)"

definition serde_error :: "ustr + 'a \<Rightarrow> context_store_error + 'a" where
  "serde_error r = (case r of Inl m \<Rightarrow> Inl (SerdeError m) | Inr x \<Rightarrow> Inr x)"

text \<open>\<^verbatim>\<open>map(from_slice).transpose()\<close>.\<close>

definition decoded :: "('b \<Rightarrow> ustr + 'a) \<Rightarrow> 'b option \<Rightarrow> context_store_error + 'a option" where
  "decoded dec v =
     (case v of None \<Rightarrow> Inr None | Some b \<Rightarrow> ebind (serde_error (dec b)) (\<lambda>x. Inr (Some x)))"

fun decoded_all :: "('b \<Rightarrow> ustr + 'a) \<Rightarrow> 'b list \<Rightarrow> context_store_error + 'a list" where
  "decoded_all dec [] = Inr []"
| "decoded_all dec (b # bs) =
     ebind (serde_error (dec b)) (\<lambda>x. ebind (decoded_all dec bs) (\<lambda>xs. Inr (x # xs)))"

definition store_head ::
  "('w, 'b) kv_env \<Rightarrow> ustr \<Rightarrow> ustr \<Rightarrow> u64 option \<Rightarrow> 'w \<Rightarrow> context_store_error + context_head option" where
  "store_head kv tenant context_id rewind w =
     ebind (validate_context tenant context_id) (\<lambda>_.
     ebind (kv_error (case rewind of
              Some revision \<Rightarrow> kv_get_at kv (head_key kv tenant context_id) revision w
            | None \<Rightarrow> kv_get kv (head_key kv tenant context_id) w))
       (decoded (kv_dec_head kv)))"

definition load_chunks ::
  "('w, 'b) kv_env \<Rightarrow> ustr \<Rightarrow> ustr \<Rightarrow> u64 \<Rightarrow> u64 \<Rightarrow> 'w \<Rightarrow> context_store_error + stored_chunk list" where
  "load_chunks kv tenant context_id start stop w =
     (if stop < start then Inr []
      else let prefix = chunk_prefix kv tenant context_id
        in ebind (kv_error (kv_range kv prefix (prefix @ [255]) w)) (\<lambda>bytes.
           ebind (decoded_all (kv_dec_chunk kv) bytes) (\<lambda>chunks.
           Inr (sort_key sc_revision
                  (filter (\<lambda>c. start \<le> sc_revision c \<and> sc_revision c \<le> stop) chunks)))))"

definition read_pack_at ::
  "('w, 'b) kv_env \<Rightarrow> ustr \<Rightarrow> ustr \<Rightarrow> ustr \<Rightarrow> u64 \<Rightarrow> 'w \<Rightarrow> context_store_error + context_pack option" where
  "read_pack_at kv tenant context_id hash revision w =
     ebind (kv_error (kv_get_at kv (pack_key kv tenant context_id hash) revision w)) (decoded (kv_dec_pack kv))"

section \<open>Appending\<close>

text \<open>One record of the loop: its chunk is written at its revision and the head moves on.\<close>

definition stored_chunk_of ::
  "('w, 'b) kv_env \<Rightarrow> ustr \<Rightarrow> ustr \<Rightarrow> u64 \<Rightarrow> nat \<Rightarrow> context_append_record \<Rightarrow> stored_chunk" where
  "stored_chunk_of kv tenant context_id revision now r =
     \<lparr>sc_tenant_id = tenant, sc_context_id = context_id, sc_revision = revision, sc_role = car_role r,
      sc_text_sha256 = sha256_hex kv (utf8_bytes (car_text r)), sc_byte_len = utf8_len (car_text r),
      sc_text = car_text r, sc_created_at_ms = now\<rparr>"

fun append_records ::
  "('w, 'b) kv_env \<Rightarrow> ustr \<Rightarrow> ustr \<Rightarrow> context_append_record list
     \<Rightarrow> context_head \<times> (ustr \<times> 'b kv_write) list \<times> 'w \<Rightarrow> context_head \<times> (ustr \<times> 'b kv_write) list \<times> 'w" where
  "append_records kv tenant context_id [] s = s"
| "append_records kv tenant context_id (r # rs) (head, writes, w) =
     (let revision = ch_latest_revision head + 1
      in case kv_now_ms kv w of
           (now, w') \<Rightarrow>
             (let chunk = stored_chunk_of kv tenant context_id revision now r
              in append_records kv tenant context_id rs
                   (head\<lparr>ch_latest_revision := revision, ch_chunk_count := ch_chunk_count head + 1,
                         ch_updated_at_ms := now\<rparr>,
                    writes @ [(chunk_key kv tenant context_id revision, WriteAt (kv_enc_chunk kv chunk) revision)],
                    w')))"

definition head_or_empty :: "ustr \<Rightarrow> ustr \<Rightarrow> context_head option \<Rightarrow> context_head" where
  "head_or_empty tenant context_id h =
     (case h of Some h \<Rightarrow> h | None \<Rightarrow> context_head_empty tenant context_id)"

definition store_append ::
  "('w, 'b) kv_env \<Rightarrow> ustr \<Rightarrow> ustr \<Rightarrow> context_append_record list \<Rightarrow> 'w
     \<Rightarrow> (context_store_error + context_head) \<times> 'w" where
  "store_append kv tenant context_id rs w =
     (case validate_context tenant context_id of
        Inl e \<Rightarrow> (Inl e, w)
      | Inr _ \<Rightarrow>
          (let kept = filter (\<lambda>r. \<not> is_blank (car_text r)) rs
           in if kept = []
              then (ebind (store_head kv tenant context_id None w) (\<lambda>h. Inr (head_or_empty tenant context_id h)), w)
              else case ebind (kv_error (kv_get kv (head_key kv tenant context_id) w)) (decoded (kv_dec_head kv)) of
                     Inl e \<Rightarrow> (Inl e, w)
                   | Inr h \<Rightarrow>
                       (case append_records kv tenant context_id kept (head_or_empty tenant context_id h, [], w) of
                          (head, writes, w1) \<Rightarrow>
                            (case kv_commit kv (writes @ [(head_key kv tenant context_id,
                                     WriteAt (kv_enc_head kv head) (max (ch_latest_revision head) 1))]) w1 of
                               (Inl m, w2) \<Rightarrow> (Inl (SurrealKvError m), w2)
                             | (Inr _, w2) \<Rightarrow> (Inr head, w2)))))"

section \<open>Assembling\<close>

definition write_pack ::
  "('w, 'b) kv_env \<Rightarrow> ustr \<Rightarrow> ustr \<Rightarrow> ustr \<Rightarrow> context_assembly \<Rightarrow> 'w
     \<Rightarrow> (context_store_error + unit) \<times> 'w" where
  "write_pack kv tenant context_id hash a w =
     (if ca_revision a = 0 then (Inr (), w)
      else case kv_now_ms kv w of
        (now, w1) \<Rightarrow>
          (let pack = \<lparr>cp_context_id = context_id, cp_cache_namespace = ca_cache_namespace a,
                       cp_revision = ca_revision a, cp_policy_hash = hash, cp_text = ca_text a,
                       cp_byte_len = utf8_len (ca_text a), cp_included_chunks = ca_included_chunks a,
                       cp_created_at_ms = now\<rparr>
           in case kv_commit kv [(pack_key kv tenant context_id hash,
                                  WriteAt (kv_enc_pack kv pack) (ca_revision a))] w1 of
                (Inl m, w2) \<Rightarrow> (Inl (SurrealKvError m), w2)
              | (Inr _, w2) \<Rightarrow> (Inr (), w2)))"

text \<open>The assembly that extends a pack with the chunks after it.\<close>

definition extend_pack ::
  "('w, 'b) kv_env \<Rightarrow> ustr \<Rightarrow> context_options \<Rightarrow> u64 \<Rightarrow> context_pack \<Rightarrow> stored_chunk list \<Rightarrow> context_assembly" where
  "extend_pack kv context_id opts target pack tail_chunks =
     (let tail_text = render_chunks (choose_chunks (kv_unicode kv) tail_chunks opts)
                        (co_max_context_bytes opts - utf8_len (cp_text pack));
          joined = (if tail_text = [] then cp_text pack
                    else if cp_text pack = [] then tail_text
                    else cp_text pack @ [10, 10] @ tail_text);
          text' = trim_to_char_boundary joined (co_max_context_bytes opts)
      in \<lparr>ca_context_id = context_id, ca_cache_namespace = co_cache_namespace opts, ca_revision = target,
          ca_text = text', ca_included_chunks = cp_included_chunks pack + length tail_chunks,
          ca_included_bytes = utf8_len text', ca_cache_hit = True,
          ca_base_cache_revision = Some (cp_revision pack), ca_tail_chunks = length tail_chunks\<rparr>)"

definition reuse_pack ::
  "ustr \<Rightarrow> context_options \<Rightarrow> u64 \<Rightarrow> context_pack \<Rightarrow> context_assembly" where
  "reuse_pack context_id opts target pack =
     \<lparr>ca_context_id = context_id, ca_cache_namespace = co_cache_namespace opts, ca_revision = target,
      ca_text = cp_text pack, ca_included_chunks = cp_included_chunks pack,
      ca_included_bytes = cp_byte_len pack, ca_cache_hit = True,
      ca_base_cache_revision = Some (cp_revision pack), ca_tail_chunks = 0\<rparr>"

definition fresh_assembly ::
  "('w, 'b) kv_env \<Rightarrow> ustr \<Rightarrow> context_options \<Rightarrow> u64 \<Rightarrow> stored_chunk list \<Rightarrow> context_assembly" where
  "fresh_assembly kv context_id opts target chunks =
     (let text' = render_chunks (choose_chunks (kv_unicode kv) chunks opts) (co_max_context_bytes opts)
      in \<lparr>ca_context_id = context_id, ca_cache_namespace = co_cache_namespace opts, ca_revision = target,
          ca_text = text', ca_included_chunks = length chunks, ca_included_bytes = utf8_len text',
          ca_cache_hit = False, ca_base_cache_revision = None, ca_tail_chunks = 0\<rparr>)"

text \<open>Write the pack of an assembly, and return the assembly.\<close>

definition returning_pack ::
  "('w, 'b) kv_env \<Rightarrow> ustr \<Rightarrow> ustr \<Rightarrow> ustr \<Rightarrow> context_assembly \<Rightarrow> 'w
     \<Rightarrow> (context_store_error + context_assembly) \<times> 'w" where
  "returning_pack kv tenant context_id hash a w =
     (case write_pack kv tenant context_id hash a w of
        (Inl e, w') \<Rightarrow> (Inl e, w') | (Inr _, w') \<Rightarrow> (Inr a, w'))"

definition assemble_fresh ::
  "('w, 'b) kv_env \<Rightarrow> ustr \<Rightarrow> ustr \<Rightarrow> context_options \<Rightarrow> ustr \<Rightarrow> u64 \<Rightarrow> 'w
     \<Rightarrow> (context_store_error + context_assembly) \<times> 'w" where
  "assemble_fresh kv tenant context_id opts hash target w =
     (case load_chunks kv tenant context_id 1 target w of
        Inl e \<Rightarrow> (Inl e, w)
      | Inr chunks \<Rightarrow>
          (let a = fresh_assembly kv context_id opts target chunks
           in if co_cache_enabled opts then returning_pack kv tenant context_id hash a w else (Inr a, w)))"

definition assemble_at ::
  "('w, 'b) kv_env \<Rightarrow> ustr \<Rightarrow> ustr \<Rightarrow> context_options \<Rightarrow> u64 \<Rightarrow> 'w
     \<Rightarrow> (context_store_error + context_assembly) \<times> 'w" where
  "assemble_at kv tenant context_id opts target w =
     (let hash = assembly_policy_hash kv opts
      in case (if co_cache_enabled opts then read_pack_at kv tenant context_id hash target w else Inr None) of
           Inl e \<Rightarrow> (Inl e, w)
         | Inr None \<Rightarrow> assemble_fresh kv tenant context_id opts hash target w
         | Inr (Some pack) \<Rightarrow>
             (if cp_revision pack = target then (Inr (reuse_pack context_id opts target pack), w)
              else if cp_revision pack < target
              then (case load_chunks kv tenant context_id (cp_revision pack + 1) target w of
                      Inl e \<Rightarrow> (Inl e, w)
                    | Inr tail_chunks \<Rightarrow>
                        returning_pack kv tenant context_id hash
                          (extend_pack kv context_id opts target pack tail_chunks) w)
              else assemble_fresh kv tenant context_id opts hash target w))"

definition store_assemble ::
  "('w, 'b) kv_env \<Rightarrow> ustr \<Rightarrow> ustr \<Rightarrow> context_options \<Rightarrow> 'w
     \<Rightarrow> (context_store_error + context_assembly) \<times> 'w" where
  "store_assemble kv tenant context_id options w =
     (case validate_context tenant context_id of
        Inl e \<Rightarrow> (Inl e, w)
      | Inr _ \<Rightarrow>
          (let opts = normalized_options options
           in case store_head kv tenant context_id (co_rewind_revision opts) w of
                Inl e \<Rightarrow> (Inl e, w)
              | Inr None \<Rightarrow> (Inr (empty_with_namespace context_id (co_cache_namespace opts)), w)
              | Inr (Some head) \<Rightarrow>
                  (if ch_latest_revision head = 0
                   then (Inr (empty_with_namespace context_id (co_cache_namespace opts)), w)
                   else assemble_at kv tenant context_id opts
                          (min (case co_rewind_revision opts of Some r \<Rightarrow> r | None \<Rightarrow> ch_latest_revision head)
                             (ch_latest_revision head)) w)))"

section \<open>Values by name\<close>

definition validate_json :: "ustr \<Rightarrow> ustr \<Rightarrow> ustr \<Rightarrow> context_store_error + unit" where
  "validate_json namespace tenant key =
     ebind (validate_component (str ''namespace'') namespace) (\<lambda>_.
     ebind (validate_component (str ''tenant_id'') tenant) (\<lambda>_.
     validate_component (str ''key'') key))"

definition put_json ::
  "('w, 'b) kv_env \<Rightarrow> ustr \<Rightarrow> ustr \<Rightarrow> ustr \<Rightarrow> json \<Rightarrow> 'w \<Rightarrow> (context_store_error + unit) \<times> 'w" where
  "put_json kv namespace tenant key v w =
     (case validate_json namespace tenant key of
        Inl e \<Rightarrow> (Inl e, w)
      | Inr _ \<Rightarrow>
          (case kv_commit kv [(json_key kv namespace tenant key, Write (kv_enc_json kv v))] w of
             (Inl m, w') \<Rightarrow> (Inl (SurrealKvError m), w') | (Inr _, w') \<Rightarrow> (Inr (), w')))"

definition get_json ::
  "('w, 'b) kv_env \<Rightarrow> ustr \<Rightarrow> ustr \<Rightarrow> ustr \<Rightarrow> 'w \<Rightarrow> context_store_error + json option" where
  "get_json kv namespace tenant key w =
     ebind (validate_json namespace tenant key) (\<lambda>_.
     ebind (kv_error (kv_get kv (json_key kv namespace tenant key) w)) (decoded (kv_dec_json kv)))"

definition delete_json ::
  "('w, 'b) kv_env \<Rightarrow> ustr \<Rightarrow> ustr \<Rightarrow> ustr \<Rightarrow> 'w \<Rightarrow> (context_store_error + bool) \<times> 'w" where
  "delete_json kv namespace tenant key w =
     (case get_json kv namespace tenant key w of
        Inl e \<Rightarrow> (Inl e, w)
      | Inr None \<Rightarrow> (Inr False, w)
      | Inr (Some _) \<Rightarrow>
          (case kv_commit kv [(json_key kv namespace tenant key, Erase)] w of
             (Inl m, w') \<Rightarrow> (Inl (SurrealKvError m), w') | (Inr _, w') \<Rightarrow> (Inr True, w')))"

definition list_json ::
  "('w, 'b) kv_env \<Rightarrow> ustr \<Rightarrow> ustr \<Rightarrow> 'w \<Rightarrow> context_store_error + json list" where
  "list_json kv namespace tenant w =
     ebind (validate_component (str ''namespace'') namespace) (\<lambda>_.
     ebind (validate_component (str ''tenant_id'') tenant) (\<lambda>_.
     (let prefix = json_prefix kv namespace tenant
      in ebind (kv_error (kv_range kv prefix (prefix @ [255]) w)) (decoded_all (kv_dec_json kv)))))"

end
