(* ===== verification/Context_Log.thy ===== *)
theory Context_Log
  imports Context_Store
begin

text \<open>
  What the context store promises: for every tenant and context a log that is only appended to. The
  store is observed through \<open>latest\<close>, the newest value of every key; \<open>kv_lawful\<close> is what
  \<^verbatim>\<open>surrealkv\<close>, \<^verbatim>\<open>serde_json\<close> and \<^verbatim>\<open>hex\<close> document of reads, ranges, commits, round trips and digits.
  \<open>context_log\<close> relates a store to the log of one context, and the operations refine the log.
\<close>

section \<open>Keys\<close>

lemma utf8_encode_prefix:
  assumes "utf8_encode c @ x = utf8_encode d @ y"
  shows "c = d \<and> x = y"
proof -
  have two: "c div 64 = d div 64 \<Longrightarrow> c mod 64 = d mod 64 \<Longrightarrow> c = d" for c d :: nat
    by (metis div_mult_mod_eq)
  have split: "c div 4096 = c div 64 div 64" "c div 262144 = c div 64 div 64 div 64" for c :: nat
    by (simp_all add: div_mult2_eq [symmetric])
  have three: "c div 4096 = d div 4096 \<Longrightarrow> c div 64 mod 64 = d div 64 mod 64 \<Longrightarrow> c mod 64 = d mod 64 \<Longrightarrow> c = d" for c d :: nat
    unfolding split by (intro two [of c d] two [of "c div 64" "d div 64"])
  have four: "c div 262144 = d div 262144 \<Longrightarrow> c div 4096 mod 64 = d div 4096 mod 64 \<Longrightarrow>
      c div 64 mod 64 = d div 64 mod 64 \<Longrightarrow> c mod 64 = d mod 64 \<Longrightarrow> c = d" for c d :: nat
    unfolding split by (intro two [of c d] two [of "c div 64" "d div 64"] two [of "c div 64 div 64" "d div 64 div 64"])
  consider "c < 128" | "128 \<le> c" "c < 2048" | "2048 \<le> c" "c < 65536" | "65536 \<le> c"
    by linarith
  then show ?thesis
  proof cases
    case 1
    then show ?thesis using assms by (auto simp: utf8_encode_def split: if_splits)
  next
    case 2
    then have "c div 64 < 32" by simp
    with 2 assms show ?thesis
      by (auto simp: utf8_encode_def intro: two split: if_splits)
  next
    case 3
    then have "c div 4096 < 16" by simp
    with 3 assms show ?thesis
      by (auto simp: utf8_encode_def intro: three split: if_splits)
  next
    case 4
    then have first: "hd (utf8_encode d @ y) = 240 + c div 262144"
      unfolding assms [symmetric] by (simp add: utf8_encode_def)
    have "\<not> d < 65536"
    proof
      assume d: "d < 65536"
      then have "d div 64 < 32 \<or> 2048 \<le> d" and "d div 4096 < 16" by auto
      then have "hd (utf8_encode d @ y) < 240"
        using d by (auto simp: utf8_encode_def)
      with first show False by simp
    qed
    with 4 assms show ?thesis
      by (simp add: utf8_encode_def) (blast intro: four)
  qed
qed

lemma utf8_bytes_inject [simp]: "utf8_bytes s = utf8_bytes t \<longleftrightarrow> s = t"
proof
  have nonempty: "utf8_encode c \<noteq> []" for c by (simp add: utf8_encode_def)
  show "utf8_bytes s = utf8_bytes t \<Longrightarrow> s = t"
  proof (induction s arbitrary: t)
    case Nil
    then show ?case by (cases t) (auto simp: utf8_bytes_def nonempty)
  next
    case (Cons c s)
    then obtain d t' where t: "t = d # t'"
      by (cases t) (auto simp: utf8_bytes_def nonempty)
    with Cons.prems have "utf8_encode c @ utf8_bytes s = utf8_encode d @ utf8_bytes t'"
      by (simp add: utf8_bytes_def)
    with Cons.IH t show ?case by (auto dest: utf8_encode_prefix)
  qed
qed simp

lemma pad20_value: "digits_value 0 (pad20 n) = Some n"
proof -
  have "digits_value 0 (replicate k 48 @ s) = digits_value 0 s" for k s
    by (induction k) (simp_all add: is_ascii_digit_def)
  then show ?thesis by (simp add: pad20_def digits_value_show_nat)
qed

lemma pad20_inject [simp]: "pad20 m = pad20 n \<longleftrightarrow> m = n"
  by (metis pad20_value option.inject)

lemma pad20_digits: "c \<in> set (pad20 n) \<Longrightarrow> c < 58"
  using show_nat_digits [of c n] by (auto simp: pad20_def is_ascii_digit_def)

lemma length_pad20: "20 \<le> length (pad20 n)"
  by (simp add: pad20_def)

text \<open>Two texts that end at their first slash.\<close>

lemma split_at_slash:
  assumes "xs @ s # ys = xs' @ s # ys'" and "s \<notin> set xs" and "s \<notin> set xs'"
  shows "xs = xs' \<and> ys = ys'"
  using assms by (induction xs arbitrary: xs') (case_tac xs'; auto)+

lemma append_eq_common:
  assumes "xs @ ys = xs' @ ys'" and "length xs = length xs'"
  shows "xs = xs' \<and> ys = ys'"
  using assms by simp

section \<open>The laws of the store\<close>

definition written :: "'b kv_write \<Rightarrow> 'b option" where
  "written wr = (case wr of WriteAt b _ \<Rightarrow> Some b | Write b \<Rightarrow> Some b | Erase \<Rightarrow> None)"

definition apply_writes :: "(ustr \<times> 'b kv_write) list \<Rightarrow> (ustr \<Rightarrow> 'b option) \<Rightarrow> (ustr \<Rightarrow> 'b option)" where
  "apply_writes ws m = fold (\<lambda>(k, wr) m. m(k := written wr)) ws m"

definition lawful_reads :: "('w, 'b) kv_env \<Rightarrow> ('w \<Rightarrow> ustr \<Rightarrow> 'b option) \<Rightarrow> bool" where
  "lawful_reads kv latest \<longleftrightarrow>
     (\<forall>k w v. kv_get kv k w = Inr v \<longrightarrow> v = latest w k)
     \<and> (\<forall>lo hi w vs. kv_range kv lo hi w = Inr vs \<longrightarrow>
          (\<exists>ks. sorted_wrt (<) ks \<and> set ks = {k. lo \<le> k \<and> k < hi \<and> latest w k \<noteq> None}
            \<and> map Some vs = map (latest w) ks))"

text \<open>
  A commit writes all or nothing, and what was committed last is the newest value of its key, whatever
  revision it was given; a reading of the clock writes nothing.
\<close>

definition lawful_commits :: "('w, 'b) kv_env \<Rightarrow> ('w \<Rightarrow> ustr \<Rightarrow> 'b option) \<Rightarrow> bool" where
  "lawful_commits kv latest \<longleftrightarrow>
     (\<forall>ws w w'. kv_commit kv ws w = (Inr (), w') \<longrightarrow> latest w' = apply_writes ws (latest w))
     \<and> (\<forall>ws w e w'. kv_commit kv ws w = (Inl e, w') \<longrightarrow> latest w' = latest w)
     \<and> (\<forall>w. latest (snd (kv_now_ms kv w)) = latest w)"

definition lawful_codecs :: "('w, 'b) kv_env \<Rightarrow> bool" where
  "lawful_codecs kv \<longleftrightarrow>
     (\<forall>h. kv_dec_head kv (kv_enc_head kv h) = Inr h)
     \<and> (\<forall>c. kv_dec_chunk kv (kv_enc_chunk kv c) = Inr c)"

definition lawful_digits :: "('w, 'b) kv_env \<Rightarrow> bool" where
  "lawful_digits kv \<longleftrightarrow>
     inj (kv_hex kv) \<and> (\<forall>bs. \<forall>c \<in> set (kv_hex kv bs). 48 \<le> c \<and> c \<le> 102)"

definition kv_lawful :: "('w, 'b) kv_env \<Rightarrow> ('w \<Rightarrow> ustr \<Rightarrow> 'b option) \<Rightarrow> bool" where
  "kv_lawful kv latest \<longleftrightarrow>
     lawful_reads kv latest \<and> lawful_commits kv latest \<and> lawful_codecs kv \<and> lawful_digits kv"

lemma lawful_read:
  assumes "kv_lawful kv latest"
  shows lawful_get: "kv_get kv k w = Inr v \<Longrightarrow> v = latest w k"
    and lawful_range: "kv_range kv lo hi w = Inr vs \<Longrightarrow>
        \<exists>ks. sorted_wrt (<) ks \<and> set ks = {k. lo \<le> k \<and> k < hi \<and> latest w k \<noteq> None}
          \<and> map Some vs = map (latest w) ks"
  using assms by (simp_all add: kv_lawful_def lawful_reads_def)

lemma lawful_write:
  assumes "kv_lawful kv latest"
  shows lawful_commit: "kv_commit kv ws w = (Inr (), w') \<Longrightarrow> latest w' = apply_writes ws (latest w)"
    and lawful_abort: "kv_commit kv ws w = (Inl e, w') \<Longrightarrow> latest w' = latest w"
    and lawful_now: "latest (snd (kv_now_ms kv w)) = latest w"
  using assms by (simp_all add: kv_lawful_def lawful_commits_def)

lemma lawful_code:
  assumes "kv_lawful kv latest"
  shows lawful_head: "kv_dec_head kv (kv_enc_head kv h) = Inr h"
    and lawful_chunk: "kv_dec_chunk kv (kv_enc_chunk kv c) = Inr c"
    and lawful_hex: "kv_hex kv bs = kv_hex kv bs' \<longleftrightarrow> bs = bs'"
    and lawful_digit: "d \<in> set (kv_hex kv bs) \<Longrightarrow> 48 \<le> d \<and> d \<le> 102"
  using assms by (simp_all add: kv_lawful_def lawful_codecs_def lawful_digits_def inj_eq)

lemma encode_component_inject:
  "kv_lawful kv latest \<Longrightarrow> encode_component kv s = encode_component kv t \<longleftrightarrow> s = t"
  by (simp add: encode_component_def lawful_hex)

lemma encode_component_no_slash: "kv_lawful kv latest \<Longrightarrow> 47 \<notin> set (encode_component kv s)"
  using lawful_digit [of kv latest 47] by (auto simp: encode_component_def)

text \<open>A key with the prefix of a context is of that context.\<close>

lemma context_prefix_inject:
  assumes "kv_lawful kv latest" and "context_prefix kv t c @ x = context_prefix kv t' c' @ y"
  shows "t = t' \<and> c = c' \<and> x = y"
proof -
  let ?e = "encode_component kv"
  from assms(2) have "?e t @ 47 # ?e c @ 47 # x = ?e t' @ 47 # ?e c' @ 47 # y"
    by (simp add: context_prefix_def str_def)
  then have 1: "?e t = ?e t'" "?e c @ 47 # x = ?e c' @ 47 # y"
    using split_at_slash encode_component_no_slash [OF assms(1)] by metis+
  then have "?e c = ?e c'" "x = y"
    using split_at_slash encode_component_no_slash [OF assms(1)] by metis+
  with 1 show ?thesis
    by (simp add: encode_component_inject [OF assms(1)])
qed

text \<open>The range \<^verbatim>\<open>prefix .. prefix 0xff\<close> holds keys with the prefix only.\<close>

lemma range_prefix:
  fixes k :: ustr
  assumes "p \<le> k" and "k < p @ [255]"
  shows "\<exists>s. k = p @ s"
  using assms
proof (induction p arbitrary: k)
  case (Cons a p)
  then show ?case by (cases k) auto
qed simp

lemma in_range:
  fixes p :: ustr
  assumes "s \<noteq> []" and "hd s < 255"
  shows "p \<le> p @ s \<and> p @ s < p @ [255]"
  using assms by (induction p) (cases s; auto)+

lemma chunk_key_in_range:
  "chunk_prefix kv t c \<le> chunk_key kv t c r \<and> chunk_key kv t c r < chunk_prefix kv t c @ [255]"
proof -
  have "pad20 n \<noteq> []" for n using length_pad20 [of n] by auto
  moreover have "hd (pad20 n) < 255" for n
    using pad20_digits [OF hd_in_set [OF calculation [of n]]] by simp
  ultimately show ?thesis
    unfolding chunk_key_def by (rule in_range)
qed

lemma chunk_key_inject:
  assumes "kv_lawful kv latest" and "chunk_key kv t c r = chunk_key kv t' c' r'"
  shows "t = t' \<and> c = c' \<and> r = r'"
proof -
  have "context_prefix kv t c @ (str ''chunk/'' @ pad20 (unat r))
      = context_prefix kv t' c' @ (str ''chunk/'' @ pad20 (unat r'))"
    using assms(2) by (simp only: chunk_key_def chunk_prefix_def append.assoc)
  from context_prefix_inject [OF assms(1) this] show ?thesis
    by (auto simp: word_unat_eq_iff)
qed

section \<open>The log of a context\<close>

definition log_entry :: "stored_chunk \<Rightarrow> ustr \<times> ustr" where
  "log_entry c = (sc_role c, sc_text c)"

definition record_entry :: "context_append_record \<Rightarrow> ustr \<times> ustr" where
  "record_entry r = (car_role r, car_text r)"

text \<open>
  The head counts the chunks; chunk \<open>i\<close> has revision \<open>i + 1\<close> and is stored under the key of that
  revision; there is no other key in the range of the chunks.
\<close>

definition context_log ::
  "('w, 'b) kv_env \<Rightarrow> (ustr \<Rightarrow> 'b option) \<Rightarrow> ustr \<Rightarrow> ustr \<Rightarrow> stored_chunk list \<Rightarrow> bool" where
  "context_log kv m t c cs \<longleftrightarrow>
     (case m (head_key kv t c) of
        None \<Rightarrow> cs = []
      | Some b \<Rightarrow> (\<exists>h. kv_dec_head kv b = Inr h \<and> unat (ch_latest_revision h) = length cs
                     \<and> ch_chunk_count h = length cs))
     \<and> (\<forall>i < length cs. sc_revision (cs ! i) = word_of_nat (Suc i)
          \<and> m (chunk_key kv t c (word_of_nat (Suc i))) = Some (kv_enc_chunk kv (cs ! i)))
     \<and> (\<forall>k. chunk_prefix kv t c \<le> k \<and> k < chunk_prefix kv t c @ [255] \<and> m k \<noteq> None
          \<longrightarrow> (\<exists>i < length cs. k = chunk_key kv t c (word_of_nat (Suc i))))"

lemma context_log_length:
  assumes "context_log kv m t c cs"
  shows "length cs < 2 ^ 64"
proof (cases "m (head_key kv t c)")
  case None
  with assms show ?thesis by (simp add: context_log_def)
next
  case (Some b)
  with assms obtain h :: context_head where "unat (ch_latest_revision h) = length cs"
    by (auto simp: context_log_def)
  with unsigned_less [of "ch_latest_revision h", where 'a = nat] show ?thesis by simp
qed

lemma unat_index: "i < n \<Longrightarrow> n < 2 ^ 64 \<Longrightarrow> unat (word_of_nat (Suc i) :: u64) = Suc i"
  by (subst unsigned_of_nat, subst take_bit_nat_eq_self) simp_all

lemma context_log_revisions:
  assumes "context_log kv m t c cs"
  shows "sorted_wrt (<) (map sc_revision cs)"
proof -
  have "sc_revision (cs ! i) < sc_revision (cs ! j)" if "i < j" "j < length cs" for i j
    using assms that unat_index [of _ "length cs"] context_log_length [OF assms]
    by (simp add: context_log_def word_less_nat_alt)
  then show ?thesis by (simp add: sorted_wrt_iff_nth_less)
qed

section \<open>Reading the log\<close>

lemma sort_key_unique:
  assumes "set xs = set ys" and "distinct xs" and "sorted_wrt (<) (map f ys)"
  shows "sort_key f xs = ys"
proof -
  have "distinct (map f ys)" and ys: "sorted (map f ys)"
    using assms(3) by (simp_all add: strict_sorted_iff)
  then have inj: "inj_on f (set ys)"
    by (simp add: distinct_map)
  have "distinct (map f (sort_key f xs))"
    using assms(1,2) inj by (simp add: distinct_map)
  moreover have "set (map f (sort_key f xs)) = set (map f ys)"
    using assms(1) by simp
  ultimately have "map f (sort_key f xs) = map f ys"
    using ys \<open>distinct (map f ys)\<close> by (intro sorted_distinct_set_unique) simp_all
  then show ?thesis
    using inj assms(1) by (intro map_inj_on [of f]) simp_all
qed

lemma decoded_all_map:
  assumes "decoded_all dec bs = Inr xs" and "map Some bs = map m ks"
    and "\<forall>k \<in> set ks. m k = Some (enc (g k))" and "\<And>c. dec (enc c) = Inr c"
  shows "xs = map g ks"
  using assms(1-3)
proof (induction bs arbitrary: xs ks)
  case (Cons b bs)
  then obtain k ks' where ks: "ks = k # ks'" by (cases ks) auto
  with Cons obtain x xs' where "dec b = Inr x" "decoded_all dec bs = Inr xs'" "xs = x # xs'"
    by (auto simp: ebind_Inr_iff serde_error_def split: sum.splits)
  moreover from Cons ks assms(4) have "b = enc (g k)" by simp
  ultimately show ?case
    using Cons.IH [of xs' ks'] Cons.prems ks assms(4) by simp
qed simp

lemma load_chunks_log:
  assumes "kv_lawful kv latest" and log: "context_log kv (latest w) t c cs"
    and load: "load_chunks kv t c start stop w = Inr loaded"
  shows "loaded = filter (\<lambda>x. start \<le> sc_revision x \<and> sc_revision x \<le> stop) cs"
proof (cases "stop < start")
  case True
  then have "filter (\<lambda>x. start \<le> sc_revision x \<and> sc_revision x \<le> stop) cs = []"
    by (auto simp: filter_empty_conv)
  with True load show ?thesis by (simp add: load_chunks_def)
next
  case False
  let ?p = "chunk_prefix kv t c" and ?P = "\<lambda>x. start \<le> sc_revision x \<and> sc_revision x \<le> stop"
  let ?key = "\<lambda>i. chunk_key kv t c (word_of_nat (Suc i))"
  let ?g = "\<lambda>k. cs ! (THE i. i < length cs \<and> k = ?key i)"
  from load False obtain bytes chunks where
    range: "kv_range kv ?p (?p @ [255]) w = Inr bytes" and
    dec: "decoded_all (kv_dec_chunk kv) bytes = Inr chunks" and
    loaded: "loaded = sort_key sc_revision (filter ?P chunks)"
    by (auto simp: load_chunks_def Let_def ebind_Inr_iff kv_error_def split: sum.splits)
  obtain ks where ks: "sorted_wrt (<) ks" "map Some bytes = map (latest w) ks"
    "set ks = {k. ?p \<le> k \<and> k < ?p @ [255] \<and> latest w k \<noteq> None}"
    using lawful_range [OF assms(1) range] by blast
  have "?key i = ?key j \<longleftrightarrow> i = j" if "i < length cs" "j < length cs" for i j
    using chunk_key_inject [OF assms(1)] unat_index [OF that(1)] unat_index [OF that(2)]
      context_log_length [OF log] by (metis Suc_inject)
  then have index: "(THE i. i < length cs \<and> ?key j = ?key i) = j" if "j < length cs" for j
    using that by (intro the_equality) auto
  have keys: "set ks = ?key ` {..<length cs}"
    using log chunk_key_in_range [of kv t c] unfolding ks(3) context_log_def by blast
  then have "\<forall>k \<in> set ks. latest w k = Some (kv_enc_chunk kv (?g k))"
    using log index by (auto simp: context_log_def)
  from decoded_all_map [OF dec ks(2) this] lawful_chunk [OF assms(1)]
  have chunks: "chunks = map ?g ks" by blast
  have "?g ` set ks = (\<lambda>i. cs ! i) ` {..<length cs}"
    unfolding keys image_image by (intro image_cong) (simp_all only: index lessThan_iff)
  moreover have "set cs = (\<lambda>i. cs ! i) ` {..<length cs}"
    by (auto simp: set_conv_nth)
  ultimately have set: "set chunks = set cs"
    unfolding chunks by (simp only: set_map)
  have distinct_cs: "distinct cs"
    using context_log_revisions [OF log] by (simp add: strict_sorted_iff distinct_map)
  have "inj_on ?g (set ks)"
    unfolding keys using distinct_cs by (auto simp: inj_on_def index nth_eq_iff_index_eq simp del: of_nat_Suc)
  then have "distinct chunks"
    using ks(1) unfolding chunks by (simp add: distinct_map strict_sorted_iff)
  then show ?thesis
    unfolding loaded using set context_log_revisions [OF log]
    by (intro sort_key_unique) (simp_all add: sorted_wrt_map sorted_wrt_filter)
qed

section \<open>Writing the log\<close>

text \<open>A change of other keys leaves the log as it is.\<close>

lemma context_log_frame:
  assumes "context_log kv m t c cs" and "\<And>s. m' (context_prefix kv t c @ s) = m (context_prefix kv t c @ s) \<or> (\<exists>x. s = str ''pack/'' @ x)"
  shows "context_log kv m' t c cs"
proof -
  have head: "m' (head_key kv t c) = m (head_key kv t c)"
    using assms(2) [of "str ''head''"] by (auto simp: head_key_def str_def)
  have "m' (chunk_prefix kv t c @ s) = m (chunk_prefix kv t c @ s)" for s
    using assms(2) [of "str ''chunk/'' @ s"] by (auto simp: chunk_prefix_def str_def)
  then have chunk: "m' k = m k" if "chunk_prefix kv t c \<le> k" "k < chunk_prefix kv t c @ [255]" for k
    using range_prefix [OF that] by blast
  show ?thesis
    unfolding context_log_def head
  proof (intro conjI allI impI)
    fix i assume "i < length cs"
    with assms(1) chunk chunk_key_in_range [of kv t c "word_of_nat (Suc i)"]
    show "sc_revision (cs ! i) = word_of_nat (Suc i)"
      and "m' (chunk_key kv t c (word_of_nat (Suc i))) = Some (kv_enc_chunk kv (cs ! i))"
      unfolding context_log_def by simp_all
  next
    fix k assume "chunk_prefix kv t c \<le> k \<and> k < chunk_prefix kv t c @ [255] \<and> m' k \<noteq> None"
    with assms(1) chunk [of k] show "\<exists>i<length cs. k = chunk_key kv t c (word_of_nat (Suc i))"
      unfolding context_log_def by simp
  qed (use assms(1) in \<open>simp add: context_log_def\<close>)
qed

text \<open>The chunks an append writes, and its head.\<close>

definition chunk_write :: "('w, 'b) kv_env \<Rightarrow> ustr \<Rightarrow> ustr \<Rightarrow> stored_chunk \<Rightarrow> ustr \<times> 'b kv_write" where
  "chunk_write kv t c x = (chunk_key kv t c (sc_revision x), WriteAt (kv_enc_chunk kv x) (sc_revision x))"

lemma append_records_writes:
  assumes "append_records kv t c rs (h, ws, w) = (h', ws', w')"
    and now: "\<And>w. latest (snd (kv_now_ms kv w)) = latest w"
  shows "\<exists>new. ws' = ws @ map (chunk_write kv t c) new \<and> map log_entry new = map record_entry rs
    \<and> (\<forall>i < length new. sc_revision (new ! i) = ch_latest_revision h + word_of_nat (Suc i))
    \<and> ch_latest_revision h' = ch_latest_revision h + word_of_nat (length rs)
    \<and> ch_chunk_count h' = ch_chunk_count h + length rs
    \<and> latest w' = latest w"
  using assms(1)
proof (induction rs arbitrary: h ws w)
  case (Cons r rs)
  let ?rev = "ch_latest_revision h + 1"
  obtain n w1 where n: "kv_now_ms kv w = (n, w1)" by fastforce
  let ?x = "stored_chunk_of kv t c ?rev n r"
  let ?h = "h\<lparr>ch_latest_revision := ?rev, ch_chunk_count := ch_chunk_count h + 1, ch_updated_at_ms := n\<rparr>"
  have "append_records kv t c rs (?h, ws @ [chunk_write kv t c ?x], w1) = (h', ws', w')"
    using Cons.prems n by (simp add: Let_def chunk_write_def stored_chunk_of_def)
  from Cons.IH [OF this] obtain new where new: "ws' = (ws @ [chunk_write kv t c ?x]) @ map (chunk_write kv t c) new"
    "map log_entry new = map record_entry rs"
    "\<forall>i < length new. sc_revision (new ! i) = ?rev + word_of_nat (Suc i)"
    "ch_latest_revision h' = ?rev + word_of_nat (length rs)"
    "ch_chunk_count h' = ch_chunk_count h + 1 + length rs" "latest w' = latest w1"
    by auto
  have "latest w1 = latest w" using now [of w] n by simp
  moreover have "log_entry ?x = record_entry r" and "sc_revision ?x = ?rev"
    by (simp_all add: log_entry_def record_entry_def stored_chunk_of_def)
  ultimately show ?case
    using new by (intro exI [of _ "?x # new"]) (auto simp: nth_Cons algebra_simps split: nat.split)
qed simp

lemma apply_writes_append: "apply_writes (ws @ ws') m = apply_writes ws' (apply_writes ws m)"
  by (simp add: apply_writes_def)

lemma apply_writes_simps [simp]:
  "apply_writes [] m = m" "apply_writes ((k, wr) # ws) m = apply_writes ws (m(k := written wr))"
  by (simp_all add: apply_writes_def)

lemma apply_writes_other: "k \<notin> fst ` set ws \<Longrightarrow> apply_writes ws m k = m k"
  by (induction ws arbitrary: m) auto

lemma apply_chunk_writes:
  assumes "distinct (map (chunk_key kv t c \<circ> sc_revision) new)" and "x \<in> set new"
  shows "apply_writes (map (chunk_write kv t c) new) m (chunk_key kv t c (sc_revision x)) = Some (kv_enc_chunk kv x)"
  using assms
proof (induction new arbitrary: m)
  case (Cons y new)
  show ?case
  proof (cases "x = y")
    case True
    have "chunk_key kv t c (sc_revision y) \<notin> fst ` set (map (chunk_write kv t c) new)"
      using Cons.prems(1) by (auto simp: chunk_write_def)
    from apply_writes_other [OF this] True show ?thesis
      by (simp add: chunk_write_def [of kv t c y] written_def)
  next
    case False
    with Cons show ?thesis by (simp add: chunk_write_def [of kv t c y])
  qed
qed simp

lemma chunk_key_not_head: "kv_lawful kv latest \<Longrightarrow> chunk_key kv t c r \<noteq> head_key kv t' c'"
  unfolding chunk_key_def chunk_prefix_def head_key_def append.assoc
  by (auto simp: str_def dest!: context_prefix_inject)

text \<open>The keys an append writes are the head of its context and the chunks of new revisions.\<close>

definition new_revisions :: "nat \<Rightarrow> stored_chunk list \<Rightarrow> bool" where
  "new_revisions n new \<longleftrightarrow> (\<forall>i < length new. sc_revision (new ! i) = word_of_nat (Suc (n + i)))"

lemma new_revisions_key:
  assumes "kv_lawful kv latest" and "new_revisions n new" and "n + length new < 2 ^ 64"
  shows "distinct (map (chunk_key kv t c \<circ> sc_revision) new)"
    and "i < n \<Longrightarrow> chunk_key kv t c (word_of_nat (Suc i)) \<notin> fst ` set (map (chunk_write kv t c) new)"
proof -
  have key: "chunk_key kv t c (word_of_nat (Suc i)) = chunk_key kv t c (word_of_nat (Suc j)) \<longleftrightarrow> i = j"
    if "i < n + length new" "j < n + length new" for i j
    using chunk_key_inject [OF assms(1)] unat_index [OF that(1) assms(3)] unat_index [OF that(2) assms(3)]
    by (metis Suc_inject)
  show "distinct (map (chunk_key kv t c \<circ> sc_revision) new)"
    using assms(2) key by (auto simp: distinct_conv_nth new_revisions_def simp del: of_nat_Suc)
  show "chunk_key kv t c (word_of_nat (Suc i)) \<notin> fst ` set (map (chunk_write kv t c) new)" if "i < n"
  proof
    assume "chunk_key kv t c (word_of_nat (Suc i)) \<in> fst ` set (map (chunk_write kv t c) new)"
    then obtain j where "j < length new"
      "chunk_key kv t c (word_of_nat (Suc i)) = chunk_key kv t c (word_of_nat (Suc (n + j)))"
      using assms(2) by (auto simp: chunk_write_def new_revisions_def in_set_conv_nth simp del: of_nat_Suc)
    with key [of i "n + j"] that show False by simp
  qed
qed

lemma context_log_extended:
  assumes lawful: "kv_lawful kv latest" and log: "context_log kv m t c cs"
    and rev: "new_revisions (length cs) new" and fits: "length cs + length new < 2 ^ 64"
    and h: "unat (ch_latest_revision h) = length cs + length new" "ch_chunk_count h = length cs + length new"
  shows "context_log kv ((apply_writes (map (chunk_write kv t c) new) m)(head_key kv t c \<mapsto> kv_enc_head kv h))
           t c (cs @ new)"
proof -
  let ?m = "apply_writes (map (chunk_write kv t c) new) m"
  let ?m' = "?m(head_key kv t c \<mapsto> kv_enc_head kv h)"
  note key = new_revisions_key [OF lawful rev fits]
  have old: "?m' (chunk_key kv t c (word_of_nat (Suc i))) = Some (kv_enc_chunk kv (cs ! i))" if "i < length cs" for i
    using that log apply_writes_other [OF key(2) [OF that]] chunk_key_not_head [OF lawful]
    by (simp add: context_log_def del: of_nat_Suc)
  have added: "?m' (chunk_key kv t c (word_of_nat (Suc (length cs + i)))) = Some (kv_enc_chunk kv (new ! i))"
    if "i < length new" for i
    using that apply_chunk_writes [OF key(1) nth_mem [OF that]] chunk_key_not_head [OF lawful] rev
    by (simp add: new_revisions_def del: of_nat_Suc)
  have "?m' (head_key kv t c) = Some (kv_enc_head kv h)" by simp
  moreover have "sc_revision ((cs @ new) ! i) = word_of_nat (Suc i)
      \<and> ?m' (chunk_key kv t c (word_of_nat (Suc i))) = Some (kv_enc_chunk kv ((cs @ new) ! i))"
    if "i < length (cs @ new)" for i
  proof (cases "i < length cs")
    case True
    with old log show ?thesis by (simp add: context_log_def nth_append del: of_nat_Suc)
  next
    case False
    with added [of "i - length cs"] that rev show ?thesis
      by (simp add: nth_append new_revisions_def del: of_nat_Suc)
  qed
  moreover have "\<exists>i < length (cs @ new). k = chunk_key kv t c (word_of_nat (Suc i))"
    if k: "chunk_prefix kv t c \<le> k" "k < chunk_prefix kv t c @ [255]" and present: "?m' k \<noteq> None" for k
  proof (cases "k \<in> fst ` set (map (chunk_write kv t c) new)")
    case True
    then obtain j where j: "j < length new" "k = chunk_key kv t c (word_of_nat (Suc (length cs + j)))"
      using rev by (auto simp: chunk_write_def new_revisions_def in_set_conv_nth simp del: of_nat_Suc)
    then show ?thesis by (intro exI [of _ "length cs + j"]) simp
  next
    case False
    obtain s where "k = context_prefix kv t c @ str ''chunk/'' @ s"
      using range_prefix [OF k] by (auto simp: chunk_prefix_def)
    then have "k \<noteq> head_key kv t c"
      by (auto simp: head_key_def str_def)
    with present apply_writes_other [OF False] have "m k \<noteq> None" by simp
    with log k obtain i where "i < length cs" "k = chunk_key kv t c (word_of_nat (Suc i))"
      unfolding context_log_def by blast
    then show ?thesis by (intro exI [of _ i]) simp
  qed
  ultimately show ?thesis
    unfolding context_log_def using h by (simp add: lawful_head [OF lawful] del: of_nat_Suc)
qed

end
