(* ===== verification/Context_Refine.thy ===== *)
theory Context_Refine
  imports Context_Log
begin

text \<open>
  The operations of the context store against the logs of its contexts: an append extends one log and
  leaves the others, every other operation leaves all of them, and an assembly without the cache is
  the rendering of the chunks it chose from the log.
\<close>

section \<open>Append\<close>

lemma head_of_log:
  assumes "context_log kv m t c cs" and "decoded (kv_dec_head kv) (m (head_key kv t c)) = Inr h"
  shows "unat (ch_latest_revision (head_or_empty t c h)) = length cs"
    and "ch_chunk_count (head_or_empty t c h) = length cs"
    and "h = None \<Longrightarrow> cs = []"
  using assms
  by (auto simp: context_log_def decoded_def head_or_empty_def context_head_empty_def serde_error_def
        ebind_Inr_iff split: option.splits sum.splits)

lemma read_head:
  assumes "kv_lawful kv latest"
    and "ebind (kv_error (kv_get kv k w)) (decoded (kv_dec_head kv)) = Inr h"
  shows "decoded (kv_dec_head kv) (latest w k) = Inr h"
  using assms(2) lawful_get [OF assms(1), of k w]
  by (auto simp: ebind_Inr_iff kv_error_def split: sum.splits)

lemma store_append_cases:
  assumes "store_append kv t c rs w = (r, w')"
  obtains e where "r = Inl e" "w' = w"
  | h where "filter (\<lambda>r. \<not> is_blank (car_text r)) rs = []" "w' = w" "r = Inr (head_or_empty t c h)"
      "ebind (kv_error (kv_get kv (head_key kv t c) w)) (decoded (kv_dec_head kv)) = Inr h"
  | h h' writes w1 res where
      "ebind (kv_error (kv_get kv (head_key kv t c) w)) (decoded (kv_dec_head kv)) = Inr h"
      "append_records kv t c (filter (\<lambda>r. \<not> is_blank (car_text r)) rs) (head_or_empty t c h, [], w) = (h', writes, w1)"
      "kv_commit kv (writes @ [(head_key kv t c, WriteAt (kv_enc_head kv h') (max (ch_latest_revision h') 1))]) w1
         = (res, w')"
      "r = (case res of Inl m \<Rightarrow> Inl (SurrealKvError m) | Inr _ \<Rightarrow> Inr h')"
  using assms
  by (fastforce simp: store_append_def Let_def store_head_def split: sum.splits prod.splits if_splits)

lemma unat_plus_index:
  fixes r :: u64
  assumes "unat r + n < 2 ^ 64"
  shows "unat (r + word_of_nat n) = unat r + n"
proof -
  have "r + word_of_nat n = word_of_nat (unat r + n)" by simp
  then show ?thesis
    using assms by (simp only:) (subst unsigned_of_nat, subst take_bit_nat_eq_self, simp_all)
qed

lemma store_append_log:
  assumes lawful: "kv_lawful kv latest" and log: "context_log kv (latest w) t c cs"
    and fits: "length cs + length rs < 2 ^ 64" and append: "store_append kv t c rs w = (Inr h, w')"
  shows "\<exists>new. context_log kv (latest w') t c (cs @ new)
    \<and> map log_entry new = map record_entry (filter (\<lambda>r. \<not> is_blank (car_text r)) rs)
    \<and> unat (ch_latest_revision h) = length cs + length new"
  using append
proof (cases rule: store_append_cases)
  case (2 h0)
  from head_of_log(1) [OF log read_head [OF lawful 2(4)]] 2 log show ?thesis
    by (intro exI [of _ "[]"]) simp
next
  case (3 h0 h' writes w1 res)
  let ?kept = "filter (\<lambda>r. \<not> is_blank (car_text r)) rs"
  let ?h = "head_or_empty t c h0"
  note head = head_of_log [OF log read_head [OF lawful 3(1)]]
  obtain new where new: "writes = map (chunk_write kv t c) new" "map log_entry new = map record_entry ?kept"
    "\<forall>i < length new. sc_revision (new ! i) = ch_latest_revision ?h + word_of_nat (Suc i)"
    "ch_latest_revision h' = ch_latest_revision ?h + word_of_nat (length ?kept)"
    "ch_chunk_count h' = ch_chunk_count ?h + length ?kept" "latest w1 = latest w"
    using append_records_writes [OF 3(2), of latest] lawful_now [OF lawful] by auto
  from new(2) have len: "length new = length ?kept" by (rule map_eq_imp_length_eq)
  have count: "length cs + length new < 2 ^ 64"
    unfolding len using fits length_filter_le [of "\<lambda>r. \<not> is_blank (car_text r)" rs] by linarith
  have "ch_latest_revision ?h = word_of_nat (length cs)"
    by (simp add: head(1) [symmetric])
  then have rev: "new_revisions (length cs) new"
    using new(3) by (simp add: new_revisions_def)
  have latest': "unat (ch_latest_revision h') = length cs + length new"
    unfolding new(4) using unat_plus_index [of "ch_latest_revision ?h" "length ?kept"] head(1) count len by simp
  from 3(4) have "res = Inr ()" and h: "h = h'" by (auto split: sum.splits)
  from lawful_commit [OF lawful 3(3) [unfolded this(1)]] new(1,6)
  have "latest w' = (apply_writes (map (chunk_write kv t c) new) (latest w))(head_key kv t c \<mapsto> kv_enc_head kv h')"
    by (simp add: apply_writes_append written_def)
  with context_log_extended [OF lawful log rev count latest'] new(5) head(2) len new(2) latest' h
  show ?thesis by (intro exI [of _ new]) simp
qed simp

lemma context_log_other:
  assumes lawful: "kv_lawful kv latest" and log: "context_log kv m t c cs" and ne: "(t, c) \<noteq> (t', c')"
    and ws: "\<forall>k \<in> fst ` set ws. \<exists>x. k = context_prefix kv t' c' @ x"
  shows "context_log kv (apply_writes ws m) t c cs"
proof (rule context_log_frame [OF log], rule disjI1, rule apply_writes_other)
  fix s
  show "context_prefix kv t c @ s \<notin> fst ` set ws"
    using ws ne context_prefix_inject [OF lawful, of t c s t' c'] by blast
qed

lemma store_append_other:
  assumes lawful: "kv_lawful kv latest" and log: "context_log kv (latest w) t c cs" and ne: "(t, c) \<noteq> (t', c')"
    and append: "store_append kv t' c' rs w = (r, w')"
  shows "context_log kv (latest w') t c cs"
  using append
proof (cases rule: store_append_cases)
  case (3 h h' writes w1 res)
  let ?ws = "writes @ [(head_key kv t' c', WriteAt (kv_enc_head kv h') (max (ch_latest_revision h') 1))]"
  obtain new where new: "writes = map (chunk_write kv t' c') new" "latest w1 = latest w"
    using append_records_writes [OF 3(2), of latest] lawful_now [OF lawful] by auto
  then have "\<forall>k \<in> fst ` set ?ws. \<exists>x. k = context_prefix kv t' c' @ x"
    by (auto simp: chunk_write_def chunk_key_def chunk_prefix_def head_key_def)
  from context_log_other [OF lawful log ne this] log new(2)
    lawful_commit [OF lawful, of ?ws w1 w'] lawful_abort [OF lawful, of ?ws w1 _ w'] 3(3)
  show ?thesis by (cases res) auto
qed (use log in simp_all)

lemma store_append_failed:
  assumes lawful: "kv_lawful kv latest" and append: "store_append kv t c rs w = (Inl e, w')"
  shows "latest w' = latest w"
  using append
proof (cases rule: store_append_cases)
  case (3 h h' writes w1 res)
  then obtain m where "res = Inl m" by (auto split: sum.splits)
  from lawful_abort [OF lawful 3(3) [unfolded this]] show ?thesis
    using append_records_writes [OF 3(2), of latest] lawful_now [OF lawful] by auto
qed simp_all

section \<open>Assembly\<close>

text \<open>
  A pack is a write below \<^verbatim>\<open>pack/\<close> of its context: no log sees it. A value by name is below \<^verbatim>\<open>json/\<close>,
  which is the prefix of no context.
\<close>

lemma context_log_pack:
  assumes lawful: "kv_lawful kv latest" and log: "context_log kv m t c cs"
  shows "context_log kv (apply_writes [(pack_key kv t' c' hash, wr)] m) t c cs"
proof (rule context_log_frame [OF log])
  fix s
  show "apply_writes [(pack_key kv t' c' hash, wr)] m (context_prefix kv t c @ s) = m (context_prefix kv t c @ s)
    \<or> (\<exists>x. s = str ''pack/'' @ x)"
    using context_prefix_inject [OF lawful, of t c s t' c' "str ''pack/'' @ hash"]
    by (auto simp: pack_key_def)
qed

lemma context_log_json:
  assumes "context_log kv m t c cs"
  shows "context_log kv (apply_writes [(json_key kv ns t' k, wr)] m) t c cs"
  by (rule context_log_frame [OF assms])
    (simp add: json_key_def json_prefix_def context_prefix_def str_def)

lemma commit_frame:
  assumes lawful: "kv_lawful kv latest" and commit: "kv_commit kv ws w = (r, w')" and "latest w = latest w0"
    and log: "context_log kv (latest w0) t c cs" and frame: "context_log kv (apply_writes ws (latest w0)) t c cs"
  shows "context_log kv (latest w') t c cs"
  using assms lawful_commit [OF lawful, of ws w w'] lawful_abort [OF lawful, of ws w _ w'] by (cases r) auto

lemma returning_pack_log:
  assumes lawful: "kv_lawful kv latest" and log: "context_log kv (latest w) t c cs"
    and pack: "returning_pack kv t' c' hash a w = (r, w')"
  shows "context_log kv (latest w') t c cs"
proof -
  obtain now w1 where now: "kv_now_ms kv w = (now, w1)" by fastforce
  have "latest w1 = latest w" using lawful_now [OF lawful, of w] now by simp
  with pack now show ?thesis
    using commit_frame [OF lawful _ _ log context_log_pack [OF lawful log]] log
    by (auto simp: returning_pack_def write_pack_def Let_def split: if_splits sum.splits prod.splits)
qed

lemma store_assemble_log:
  assumes lawful: "kv_lawful kv latest" and log: "context_log kv (latest w) t c cs"
    and assemble: "store_assemble kv t' c' opts w = (r, w')"
  shows "context_log kv (latest w') t c cs"
  using assemble log returning_pack_log [OF lawful log]
  by (auto simp: store_assemble_def assemble_at_def assemble_fresh_def Let_def
        split: if_splits sum.splits option.splits)

lemma json_log:
  assumes lawful: "kv_lawful kv latest" and log: "context_log kv (latest w) t c cs"
  shows put_json_log: "put_json kv ns t' k v w = (r, w') \<Longrightarrow> context_log kv (latest w') t c cs"
    and delete_json_log: "delete_json kv ns t' k w = (r', w') \<Longrightarrow> context_log kv (latest w') t c cs"
  using commit_frame [OF lawful _ refl log context_log_json [OF log]] log
  by (auto simp: put_json_def delete_json_def split: sum.splits prod.splits option.splits)

text \<open>An assembly without the cache: the rendering of the chunks chosen from the head of the log.\<close>

lemma assemble_uncached:
  assumes lawful: "kv_lawful kv latest" and log: "context_log kv (latest w) t c cs"
    and opts: "\<not> co_cache_enabled opts" "co_rewind_revision opts = None"
    and assemble: "store_assemble kv t c opts w = (Inr a, w')"
  shows "ca_text a = render_chunks (choose_chunks (kv_unicode kv) cs (normalized_options opts))
                      (co_max_context_bytes (normalized_options opts))
    \<and> ca_included_chunks a = length cs \<and> unat (ca_revision a) = length cs \<and> w' = w"
proof -
  let ?opts = "normalized_options opts"
  have n: "\<not> co_cache_enabled ?opts" "co_rewind_revision ?opts = None"
    using opts by (simp_all add: normalized_options_def Let_def)
  obtain h where h: "ebind (kv_error (kv_get kv (head_key kv t c) w)) (decoded (kv_dec_head kv)) = Inr h"
    using assemble n
    by (auto simp: store_assemble_def Let_def store_head_def split: sum.splits)
  note head = head_of_log [OF log read_head [OF lawful h]]
  have empty: "render_chunks (choose_chunks (kv_unicode kv) [] ?opts) x = []" for x
    using choose_chunks_subset [of "kv_unicode kv" "[]" ?opts] by (simp add: render_chunks_def)
  show ?thesis
  proof (cases "cs = []")
    case True
    with head(1) have "ch_latest_revision (head_or_empty t c h) = 0"
      by (simp add: unat_eq_zero)
    with assemble h n True empty show ?thesis
      by (auto simp: store_assemble_def Let_def store_head_def empty_with_namespace_def head_or_empty_def
          split: sum.splits option.splits)
  next
    case False
    with head obtain h' where h': "h = Some h'" by (cases h) auto
    with head have rev: "unat (ch_latest_revision h') = length cs" by (simp add: head_or_empty_def)
    with False have "ch_latest_revision h' \<noteq> 0" by auto
    with assemble h n h' obtain loaded where
      "load_chunks kv t c 1 (ch_latest_revision h') w = Inr loaded" and
      a: "a = fresh_assembly kv c ?opts (ch_latest_revision h') loaded" "w' = w"
      by (auto simp: store_assemble_def Let_def store_head_def assemble_at_def assemble_fresh_def
          split: sum.splits if_splits)
    from load_chunks_log [OF lawful log this(1)]
    have "loaded = filter (\<lambda>x. 1 \<le> sc_revision x \<and> sc_revision x \<le> ch_latest_revision h') cs" .
    also have "\<dots> = cs"
    proof (rule filter_True, rule ballI)
      fix x assume "x \<in> set cs"
      then obtain i where "i < length cs" "x = cs ! i" by (metis in_set_conv_nth)
      with log have "sc_revision x = word_of_nat (Suc i)" by (simp add: context_log_def)
      then have "unat (sc_revision x) = Suc i"
        using unat_index [OF \<open>i < length cs\<close> context_log_length [OF log]] by simp
      with rev \<open>i < length cs\<close> show "1 \<le> sc_revision x \<and> sc_revision x \<le> ch_latest_revision h'"
        by (simp add: word_le_nat_alt)
    qed
    finally show ?thesis
      using a rev by (simp add: fresh_assembly_def Let_def)
  qed
qed

text \<open>The text fits unless it is a stored pack returned as it is.\<close>

definition assembly_fits :: "context_options \<Rightarrow> context_assembly \<Rightarrow> bool" where
  "assembly_fits opts a \<longleftrightarrow>
     ca_included_bytes a = utf8_len (ca_text a) \<and> utf8_len (ca_text a) \<le> co_max_context_bytes opts"

lemma fresh_fits: "assembly_fits opts (fresh_assembly kv c opts target chunks)"
  by (simp add: assembly_fits_def fresh_assembly_def Let_def render_chunks_le)

lemma extend_fits: "assembly_fits opts (extend_pack kv c opts target pack tail_chunks)"
  using trim_to_char_boundary_spec by (simp add: assembly_fits_def extend_pack_def Let_def)

lemma empty_fits: "assembly_fits opts (empty_with_namespace c ns)"
  by (simp add: assembly_fits_def empty_with_namespace_def)

lemma returning_pack_result:
  "returning_pack kv t c hash a w = (Inr a', w') \<Longrightarrow> a' = a"
  by (auto simp: returning_pack_def split: sum.splits prod.splits)

lemma store_assemble_fits:
  assumes "store_assemble kv t c opts w = (Inr a, w')"
  shows "assembly_fits (normalized_options opts) a \<or> ca_base_cache_revision a = Some (ca_revision a)"
  using assms fresh_fits extend_fits empty_fits
  by (auto simp: store_assemble_def assemble_at_def assemble_fresh_def Let_def reuse_pack_def
      dest!: returning_pack_result split: if_splits sum.splits option.splits)

end
