(* ===== verification/Context_Runs.thy ===== *)
theory Context_Runs
  imports Context_Refine
begin

text \<open>
  The values stored by name, the runs of a store as sequences of its operations, and a store in memory
  that has the laws, for concrete inputs.
\<close>

section \<open>Values by name\<close>

lemma json_key_inject:
  assumes "kv_lawful kv latest" and "json_key kv ns t k = json_key kv ns' t' k'"
  shows "ns = ns' \<and> t = t' \<and> k = k'"
proof -
  let ?e = "encode_component kv"
  from assms(2) have "?e ns @ 47 # ?e t @ 47 # ?e k = ?e ns' @ 47 # ?e t' @ 47 # ?e k'"
    by (simp add: json_key_def json_prefix_def str_def)
  then have 1: "?e ns = ?e ns'" "?e t @ 47 # ?e k = ?e t' @ 47 # ?e k'"
    using split_at_slash encode_component_no_slash [OF assms(1)] by metis+
  then have "?e t = ?e t'" "?e k = ?e k'"
    using split_at_slash encode_component_no_slash [OF assms(1)] by metis+
  with 1 show ?thesis
    by (simp add: encode_component_inject [OF assms(1)])
qed

definition json_at :: "('w, 'b) kv_env \<Rightarrow> ustr \<Rightarrow> ustr \<Rightarrow> ustr \<Rightarrow> (ustr \<Rightarrow> 'b option) \<Rightarrow> context_store_error + json option" where
  "json_at kv ns t k m = decoded (kv_dec_json kv) (m (json_key kv ns t k))"

lemma get_json_at:
  assumes "kv_lawful kv latest" and "get_json kv ns t k w = Inr r"
  shows "json_at kv ns t k (latest w) = Inr r"
  using assms(2) lawful_get [OF assms(1), of "json_key kv ns t k" w]
  by (auto simp: get_json_def json_at_def ebind_Inr_iff kv_error_def split: sum.splits)

lemma put_json_at:
  assumes lawful: "kv_lawful kv latest" and "kv_dec_json kv (kv_enc_json kv v) = Inr v"
    and "put_json kv ns t k v w = (Inr (), w')"
  shows "json_at kv ns' t' k' (latest w')
    = (if ns' = ns \<and> t' = t \<and> k' = k then Inr (Some v) else json_at kv ns' t' k' (latest w))"
proof -
  have "latest w' = apply_writes [(json_key kv ns t k, Write (kv_enc_json kv v))] (latest w)"
    using assms(3) lawful_commit [OF lawful] by (auto simp: put_json_def split: sum.splits prod.splits)
  then show ?thesis
    using json_key_inject [OF lawful, of ns t k ns' t' k'] assms(2)
    by (auto simp: json_at_def decoded_def written_def serde_error_def)
qed

lemma delete_json_at:
  assumes lawful: "kv_lawful kv latest" and "delete_json kv ns t k w = (Inr d, w')"
  shows "json_at kv ns' t' k' (latest w')
    = (if ns' = ns \<and> t' = t \<and> k' = k then Inr None else json_at kv ns' t' k' (latest w))"
    and "d \<longleftrightarrow> json_at kv ns t k (latest w) \<noteq> Inr None"
proof -
  obtain r where r: "get_json kv ns t k w = Inr r"
    using assms(2) by (auto simp: delete_json_def split: sum.splits)
  note at = get_json_at [OF lawful r]
  show "d \<longleftrightarrow> json_at kv ns t k (latest w) \<noteq> Inr None"
    using assms(2) r at by (auto simp: delete_json_def split: sum.splits prod.splits option.splits)
  show "json_at kv ns' t' k' (latest w')
    = (if ns' = ns \<and> t' = t \<and> k' = k then Inr None else json_at kv ns' t' k' (latest w))"
  proof (cases r)
    case None
    with assms(2) r at show ?thesis by (auto simp: delete_json_def)
  next
    case (Some v)
    then have "latest w' = apply_writes [(json_key kv ns t k, Erase)] (latest w)"
      using assms(2) r lawful_commit [OF lawful]
      by (auto simp: delete_json_def split: sum.splits prod.splits)
    then show ?thesis
      using json_key_inject [OF lawful, of ns t k ns' t' k']
      by (auto simp: json_at_def decoded_def written_def)
  qed
qed

section \<open>Runs of the store\<close>

text \<open>
  The events of a store: an append that returned a head, with its records, or any other operation:
  an append that failed, an assembly, a value put or deleted.
\<close>

datatype store_event = Appended ustr ustr "context_append_record list" | OtherOperation

inductive store_step :: "('w, 'b) kv_env \<Rightarrow> 'w \<Rightarrow> store_event \<Rightarrow> 'w \<Rightarrow> bool" for kv where
  step_append: "store_append kv t c rs w = (Inr h, w') \<Longrightarrow> store_step kv w (Appended t c rs) w'"
| step_failed: "store_append kv t c rs w = (Inl e, w') \<Longrightarrow> store_step kv w OtherOperation w'"
| step_assemble: "store_assemble kv t c opts w = (r, w') \<Longrightarrow> store_step kv w OtherOperation w'"
| step_put: "put_json kv ns t k v w = (r, w') \<Longrightarrow> store_step kv w OtherOperation w'"
| step_delete: "delete_json kv ns t k w = (r, w') \<Longrightarrow> store_step kv w OtherOperation w'"

inductive store_run :: "('w, 'b) kv_env \<Rightarrow> 'w \<Rightarrow> store_event list \<Rightarrow> 'w \<Rightarrow> bool" for kv where
  run_start: "store_run kv w [] w"
| run_step: "store_run kv w es w' \<Longrightarrow> store_step kv w' e w'' \<Longrightarrow> store_run kv w (es @ [e]) w''"

text \<open>The records a context was given: those of its appends, in order, without the blank ones.\<close>

fun given_by :: "ustr \<Rightarrow> ustr \<Rightarrow> store_event \<Rightarrow> context_append_record list" where
  "given_by t c (Appended t' c' rs) = (if t' = t \<and> c' = c then filter (\<lambda>r. \<not> is_blank (car_text r)) rs else [])"
| "given_by t c OtherOperation = []"

definition given :: "ustr \<Rightarrow> ustr \<Rightarrow> store_event list \<Rightarrow> context_append_record list" where
  "given t c es = concat (map (given_by t c) es)"

fun records_of :: "store_event \<Rightarrow> nat" where
  "records_of (Appended t c rs) = length rs"
| "records_of OtherOperation = 0"

lemma length_given: "length (given t c es) \<le> sum_list (map records_of es)"
proof -
  have "length (given_by t c e) \<le> records_of e" for e by (cases e) simp_all
  then show ?thesis
    by (induction es) (simp_all add: given_def add_mono)
qed

lemma store_step_log:
  assumes lawful: "kv_lawful kv latest" and step: "store_step kv w e w'"
    and log: "context_log kv (latest w) t c cs" and fits: "length cs + records_of e < 2 ^ 64"
  shows "\<exists>new. context_log kv (latest w') t c (cs @ new) \<and> map log_entry new = map record_entry (given_by t c e)"
proof -
  have same: "context_log kv (latest w') t c cs \<Longrightarrow> given_by t c e = [] \<Longrightarrow> ?thesis"
    by (intro exI [of _ "[]"]) simp
  from step show ?thesis
  proof (cases rule: store_step.cases)
    case (step_append t' c' rs h)
    show ?thesis
    proof (cases "(t, c) = (t', c')")
      case True
      with step_append fits store_append_log [OF lawful log, of rs h w'] show ?thesis by auto
    next
      case False
      with step_append store_append_other [OF lawful log False] same show ?thesis by auto
    qed
  next
    case (step_failed t' c' rs e')
    with same log store_append_failed [OF lawful step_failed(2)] show ?thesis by simp
  qed (use same store_assemble_log [OF lawful log] put_json_log [OF lawful log] delete_json_log [OF lawful log]
      in auto)
qed

lemma empty_log: "context_log kv Map.empty t c []"
  by (simp add: context_log_def)

lemma store_run_log:
  assumes "kv_lawful kv latest" and "store_run kv w es w'" and "latest w = Map.empty"
    and "sum_list (map records_of es) < 2 ^ 64"
  shows "\<exists>cs. context_log kv (latest w') t c cs \<and> map log_entry cs = map record_entry (given t c es)"
  using assms(2-4)
proof (induction rule: store_run.induct)
  case (run_start w)
  then show ?case
    using empty_log [of kv t c] by (auto simp: given_def)
next
  case (run_step w es w' e w'')
  then obtain cs where cs: "context_log kv (latest w') t c cs" "map log_entry cs = map record_entry (given t c es)"
    by auto
  then have "length cs \<le> sum_list (map records_of es)"
    using length_given [of t c es] by (metis length_map)
  with run_step.prems store_step_log [OF assms(1) run_step.hyps(2) cs(1)] obtain new where
    "context_log kv (latest w'') t c (cs @ new)" "map log_entry new = map record_entry (given_by t c e)"
    by auto
  with cs(2) show ?case
    by (intro exI [of _ "cs @ new"]) (simp add: given_def)
qed

section \<open>A store in memory\<close>

text \<open>
  An instance of the store for concrete inputs: the world is the list of the writes, a value is stored
  as it is, a byte is written as that many ones and a zero.
\<close>

datatype stored = StoredHead context_head | StoredChunk stored_chunk | StoredPack context_pack | StoredJson json

definition memory_latest :: "(ustr \<times> 'b kv_write) list \<Rightarrow> ustr \<Rightarrow> 'b option" where
  "memory_latest w = apply_writes w Map.empty"

definition memory_range :: "ustr \<Rightarrow> ustr \<Rightarrow> (ustr \<times> 'b kv_write) list \<Rightarrow> 'b list" where
  "memory_range lo hi w =
     map (\<lambda>k. the (memory_latest w k))
       (filter (\<lambda>k. lo \<le> k \<and> k < hi \<and> memory_latest w k \<noteq> None) (remdups (sort (map fst w))))"

definition unary :: "nat list \<Rightarrow> ustr" where
  "unary bs = concat (map (\<lambda>b. replicate b 49 @ [48]) bs)"

definition memory_kv :: "((ustr \<times> stored kv_write) list, stored) kv_env" where
  "memory_kv =
     \<lparr>kv_get = (\<lambda>k w. Inr (memory_latest w k)),
      kv_get_at = (\<lambda>k r w. Inr (memory_latest w k)),
      kv_range = (\<lambda>lo hi w. Inr (memory_range lo hi w)),
      kv_commit = (\<lambda>ws w. (Inr (), w @ ws)),
      kv_now_ms = (\<lambda>w. (0, w)),
      kv_hex = unary, kv_sha256 = (\<lambda>bs. []),
      kv_unicode = \<lparr>ue_lowercase = id, ue_alphanumeric = (\<lambda>c. True)\<rparr>,
      kv_enc_head = StoredHead, kv_dec_head = (\<lambda>b. case b of StoredHead h \<Rightarrow> Inr h | _ \<Rightarrow> Inl []),
      kv_enc_chunk = StoredChunk, kv_dec_chunk = (\<lambda>b. case b of StoredChunk c \<Rightarrow> Inr c | _ \<Rightarrow> Inl []),
      kv_enc_pack = StoredPack, kv_dec_pack = (\<lambda>b. case b of StoredPack p \<Rightarrow> Inr p | _ \<Rightarrow> Inl []),
      kv_enc_json = StoredJson, kv_dec_json = (\<lambda>b. case b of StoredJson j \<Rightarrow> Inr j | _ \<Rightarrow> Inl [])\<rparr>"

lemma unary_inj: "inj unary"
proof -
  have one: "m = n \<and> x = y" if "replicate m (49::nat) @ 48 # x = replicate n 49 @ 48 # y" for m n x y
    using split_at_slash [OF that] that by (auto simp: in_set_replicate dest: arg_cong [where f = length])
  have "unary xs = unary ys \<Longrightarrow> xs = ys" for xs ys
  proof (induction xs arbitrary: ys)
    case Nil
    then show ?case by (cases ys) (auto simp: unary_def)
  next
    case (Cons x xs)
    then show ?case by (cases ys) (auto simp: unary_def dest!: one)
  qed
  then show ?thesis by (simp add: inj_def)
qed

lemma memory_latest_keys: "memory_latest w k \<noteq> None \<Longrightarrow> k \<in> fst ` set w"
  unfolding memory_latest_def using apply_writes_other [of k w Map.empty] by metis

lemma memory_kv_lawful: "kv_lawful memory_kv memory_latest"
proof -
  have "\<exists>ks. sorted_wrt (<) ks \<and> set ks = {k. lo \<le> k \<and> k < hi \<and> memory_latest w k \<noteq> None}
      \<and> map Some (memory_range lo hi w) = map (memory_latest w) ks"
    for lo hi and w :: "(ustr \<times> stored kv_write) list"
    by (intro exI [of _ "filter (\<lambda>k. lo \<le> k \<and> k < hi \<and> memory_latest w k \<noteq> None) (remdups (sort (map fst w)))"])
      (use memory_latest_keys [of w] in \<open>auto simp: memory_range_def strict_sorted_iff sorted_remdups sorted_wrt_filter\<close>)
  then have "lawful_reads memory_kv memory_latest"
    by (simp add: lawful_reads_def memory_kv_def)
  moreover have "\<forall>c \<in> set (unary bs). 48 \<le> c \<and> c \<le> 102" for bs
    by (auto simp: unary_def in_set_replicate)
  ultimately show ?thesis
    unfolding kv_lawful_def
    by (auto simp: lawful_commits_def lawful_codecs_def lawful_digits_def memory_kv_def unary_inj
        memory_latest_def apply_writes_append)
qed

end
