(* ===== verification/Api_Identity.thy ===== *)
theory Api_Identity
  imports Api_Config
begin

text \<open>
  \<^verbatim>\<open>api-server/src/lib.rs\<close>: who a request is from. The identities a client may state in headers or in
  its metadata (\<^verbatim>\<open>RequestContext\<close>), the shared key of the deployment, the mode of public reasoning and
  the context of a usage record. A header map is the list of its entries, with lower-case names and the
  bytes of the values. SHA-256 in hexadecimal, the random identifiers and the texts of \<^verbatim>\<open>Debug\<close> are
  parameters.
\<close>

type_synonym header_map = "(ustr \<times> nat list) list"

text \<open>\<^verbatim>\<open>headers.get(name)\<close> and \<^verbatim>\<open>to_str().ok()\<close>: the first value, when it is visible ASCII or a tab.\<close>

definition header_str :: "header_map \<Rightarrow> ustr \<Rightarrow> ustr option" where
  "header_str headers name =
     (case map_of headers name of
        Some v \<Rightarrow> (if list_all (\<lambda>b. 32 \<le> b \<and> b < 127 \<or> b = 9) v then Some v else None)
      | None \<Rightarrow> None)"

section \<open>Identities\<close>

definition is_safe_char :: "nat \<Rightarrow> bool" where
  "is_safe_char ch \<longleftrightarrow> is_ascii_alphanumeric ch \<or> ch \<in> set (str ''-_.:@'')"

definition identity_component :: "(ustr \<Rightarrow> ustr) \<Rightarrow> ustr \<Rightarrow> ustr option" where
  "identity_component sha v =
     (let trimmed = trim v
      in if trimmed = [] then None
         else if utf8_len trimmed \<le> 128 \<and> list_all is_safe_char trimmed then Some trimmed
         else Some (str ''sha256-'' @ take 32 (sha trimmed)))"

definition header_identity :: "(ustr \<Rightarrow> ustr) \<Rightarrow> header_map \<Rightarrow> string list \<Rightarrow> ustr option" where
  "header_identity sha headers names =
     find_map (\<lambda>name. Option.bind (header_str headers (str name)) (identity_component sha)) names"

definition metadata_identity :: "(ustr \<Rightarrow> ustr) \<Rightarrow> json \<Rightarrow> string list \<Rightarrow> ustr option" where
  "metadata_identity sha metadata names =
     find_map (\<lambda>name. Option.bind (Option.bind (json_get (str name) metadata) json_as_str)
                        (identity_component sha)) names"

record request_context =
  rx_tenant_id :: "ustr option"
  rx_request_id :: "ustr option"
  rx_conversation_id :: "ustr option"

definition context_from_headers :: "(ustr \<Rightarrow> ustr) \<Rightarrow> header_map \<Rightarrow> request_context" where
  "context_from_headers sha headers =
     \<lparr>rx_tenant_id = header_identity sha headers
        [''x-tenant-id'', ''x-organization-id'', ''x-project-id'', ''x-user-id''],
      rx_request_id = header_identity sha headers [''x-request-id'', ''x-correlation-id''],
      rx_conversation_id = header_identity sha headers [''x-conversation-id'', ''x-thread-id'']\<rparr>"

definition or_else :: "'a option \<Rightarrow> 'a option \<Rightarrow> 'a option" where
  "or_else a b = (case a of Some x \<Rightarrow> Some x | None \<Rightarrow> b)"

definition request_context_overrides :: "(ustr \<Rightarrow> ustr) \<Rightarrow> request_context \<Rightarrow> json \<Rightarrow> request_context" where
  "request_context_overrides sha c metadata =
     \<lparr>rx_tenant_id = or_else (metadata_identity sha metadata
        [''tenant_id'', ''tenant'', ''organization_id'', ''project_id'', ''user_id'']) (rx_tenant_id c),
      rx_request_id = or_else (metadata_identity sha metadata [''request_id'', ''correlation_id''])
        (rx_request_id c),
      rx_conversation_id = or_else (metadata_identity sha metadata
        [''conversation_id'', ''thread_id'', ''session_id'']) (rx_conversation_id c)\<rparr>"

definition default_tenant_id :: ustr where
  "default_tenant_id = str ''default''"

definition context_tenant_id :: "request_context \<Rightarrow> ustr" where
  "context_tenant_id c = (case rx_tenant_id c of Some t \<Rightarrow> t | None \<Rightarrow> default_tenant_id)"

definition context_request_id :: "ustr \<Rightarrow> request_context \<Rightarrow> ustr" where
  "context_request_id fresh c = (case rx_request_id c of Some r \<Rightarrow> r | None \<Rightarrow> fresh)"

definition conversation_fingerprint_of ::
  "(ustr \<Rightarrow> ustr) \<Rightarrow> request_context \<Rightarrow> ustr \<Rightarrow> ustr \<Rightarrow> ustr \<Rightarrow> ustr" where
  "conversation_fingerprint_of sha c source_format tenant messages_debug =
     sha (case rx_conversation_id c of
            Some conversation \<Rightarrow>
              source_format @ str '':tenant='' @ tenant @ str '':conversation='' @ conversation
          | None \<Rightarrow> source_format @ str '':tenant='' @ tenant @ str '':messages='' @ messages_debug)"

section \<open>The shared key\<close>

definition eq_ignore_ascii_case :: "ustr \<Rightarrow> ustr \<Rightarrow> bool" where
  "eq_ignore_ascii_case s t \<longleftrightarrow> map to_ascii_lowercase s = map to_ascii_lowercase t"

definition bearer_credentials :: "ustr \<Rightarrow> ustr option" where
  "bearer_credentials v =
     (case split_once [32] (trim v) of
        None \<Rightarrow> None
      | Some (scheme, credentials) \<Rightarrow>
          (if eq_ignore_ascii_case scheme (str ''bearer'') \<and> trim credentials \<noteq> []
           then Some (trim credentials) else None))"

definition shared_api_key_from_headers :: "header_map \<Rightarrow> ustr option" where
  "shared_api_key_from_headers headers =
     or_else (Option.bind (header_str headers (str ''authorization'')) bearer_credentials)
       (case map_option trim (header_str headers (str ''x-api-key'')) of
          Some v \<Rightarrow> (if v = [] then None else Some v)
        | None \<Rightarrow> None)"

definition constant_time_eq :: "8 word list \<Rightarrow> 8 word list \<Rightarrow> bool" where
  "constant_time_eq left right =
     (if length left \<noteq> length right then False
      else fold (\<lambda>(l, r) difference. or difference (xor l r)) (zip left right) 0 = 0)"

definition as_bytes :: "ustr \<Rightarrow> 8 word list" where
  "as_bytes s = map word_of_nat (utf8_bytes s)"

definition is_public_health_path :: "ustr \<Rightarrow> bool" where
  "is_public_health_path path \<longleftrightarrow> path \<in> {str ''/health'', str ''/v1/health'', str ''/v1/v1/health''}"

text \<open>
  The middleware: \<open>Some\<close> runs the request, \<open>None\<close> is the answer 401 of
  \<^verbatim>\<open>shared_api_key_error_response\<close>, in one of two shapes.
\<close>

definition shared_api_key_auth :: "ustr option \<Rightarrow> ustr \<Rightarrow> header_map \<Rightarrow> 'a \<Rightarrow> 'a option" where
  "shared_api_key_auth configured path headers run =
     (if is_public_health_path path then Some run
      else case configured of
             None \<Rightarrow> Some run
           | Some expected \<Rightarrow>
               (case shared_api_key_from_headers headers of
                  Some provided \<Rightarrow>
                    (if constant_time_eq (as_bytes provided) (as_bytes expected) then Some run else None)
                | None \<Rightarrow> None))"

definition shared_api_key_error_body :: "ustr \<Rightarrow> json" where
  "shared_api_key_error_body path =
     (if contains_str path (str ''/messages'')
      then json_object [(str ''type'', JString (str ''error'')),
             (str ''error'', json_object
                [(str ''type'', JString (str ''authentication_error'')),
                 (str ''message'', JString (str ''invalid or missing shared API key''))])]
      else json_object [(str ''error'', json_object
                [(str ''message'', JString (str ''invalid or missing shared API key'')),
                 (str ''type'', JString (str ''authentication_error'')),
                 (str ''code'', JString (str ''invalid_api_key''))])])"

section \<open>Public reasoning\<close>

datatype public_reasoning_mode = ReasoningOnRequest | ReasoningAlways | ReasoningNever

definition reasoning_mode_from_value :: "ustr option \<Rightarrow> public_reasoning_mode" where
  "reasoning_mode_from_value v =
     (case map_option (\<lambda>v. map to_ascii_lowercase (trim v)) v of
        None \<Rightarrow> ReasoningAlways
      | Some s \<Rightarrow>
          (if s \<in> str ` {''always'', ''on'', ''true'', ''1'', ''yes'', ''include'', ''enabled''} then ReasoningAlways
           else if s \<in> str ` {''never'', ''off'', ''false'', ''0'', ''no'', ''strip'', ''none'', ''disabled''}
           then ReasoningNever
           else if s \<in> str ` {''request'', ''requested'', ''client'', ''client_requested''}
           then ReasoningOnRequest
           else ReasoningAlways))"

definition reasoning_mode_from_env :: "environment \<Rightarrow> public_reasoning_mode" where
  "reasoning_mode_from_env vars =
     (case find_map (\<lambda>name. vars (str name))
             [''MIYA_PUBLIC_REASONING'', ''MIYA_PUBLIC_REASONING_MODE'', ''MULTI_AGENT_PUBLIC_REASONING'',
              ''PUBLIC_REASONING_MODE''] of
        Some v \<Rightarrow> reasoning_mode_from_value (Some v)
      | None \<Rightarrow> reasoning_mode_from_value None)"

fun resolve_reasoning :: "public_reasoning_mode \<Rightarrow> bool \<Rightarrow> bool" where
  "resolve_reasoning ReasoningOnRequest requested = requested"
| "resolve_reasoning ReasoningAlways requested = True"
| "resolve_reasoning ReasoningNever requested = False"

section \<open>Usage records\<close>

record telemetry_context =
  tx_route :: ustr
  tx_model :: ustr
  tx_source_format :: ustr
  tx_tenant_id :: ustr
  tx_request_id :: ustr
  tx_conversation_fingerprint :: ustr
  tx_reasoning_effort :: ustr
  tx_stream :: bool
  tx_batch_index :: "u64 option"

fun source_format_label :: "source_format \<Rightarrow> ustr" where
  "source_format_label OpenAIChat = str ''openai_chat''"
| "source_format_label AnthropicMessages = str ''anthropic_messages''"

fun reasoning_effort_label :: "reasoning_effort \<Rightarrow> ustr" where
  "reasoning_effort_label EffortNone = str ''none''"
| "reasoning_effort_label EffortLow = str ''low''"
| "reasoning_effort_label EffortMedium = str ''medium''"
| "reasoning_effort_label EffortHigh = str ''high''"
| "reasoning_effort_label EffortXHigh = str ''xhigh''"

definition telemetry_context_from_normalized ::
  "ustr \<Rightarrow> normalized_request \<Rightarrow> bool \<Rightarrow> u64 option \<Rightarrow> telemetry_context" where
  "telemetry_context_from_normalized route r stream batch_index =
     \<lparr>tx_route = route, tx_model = nr_model r, tx_source_format = source_format_label (nr_source_format r),
      tx_tenant_id = nr_tenant_id r, tx_request_id = nr_request_id r,
      tx_conversation_fingerprint = nr_conversation_fingerprint r,
      tx_reasoning_effort = reasoning_effort_label (nr_reasoning_effort r),
      tx_stream = stream, tx_batch_index = batch_index\<rparr>"

definition direct_telemetry_context ::
  "(ustr \<Rightarrow> ustr) \<Rightarrow> ustr \<Rightarrow> ustr \<Rightarrow> ustr \<Rightarrow> ustr \<Rightarrow> request_context \<Rightarrow> bool \<Rightarrow> u64 option \<Rightarrow> telemetry_context" where
  "direct_telemetry_context sha fresh route model source_format c stream batch_index =
     (let tenant = context_tenant_id c
      in \<lparr>tx_route = route, tx_model = model, tx_source_format = source_format, tx_tenant_id = tenant,
          tx_request_id = context_request_id fresh c,
          tx_conversation_fingerprint = conversation_fingerprint_of sha c source_format tenant (str ''direct''),
          tx_reasoning_effort = str ''none'', tx_stream = stream, tx_batch_index = batch_index\<rparr>)"

definition usage_telemetry_json :: "provider_usage \<Rightarrow> json" where
  "usage_telemetry_json usage = json_object
     [(str ''input_tokens'', json_u64 (ucast (pu_input_tokens usage))),
      (str ''output_tokens'', json_u64 (ucast (pu_output_tokens usage))),
      (str ''total_tokens'', json_u64 (ucast (sat_add (pu_input_tokens usage) (pu_output_tokens usage))))]"

definition json_option :: "('a \<Rightarrow> json) \<Rightarrow> 'a option \<Rightarrow> json" where
  "json_option f v = (case v of Some x \<Rightarrow> f x | None \<Rightarrow> JNull)"

text \<open>The fields the three kinds of usage records share, and the record of a stream.\<close>

definition telemetry_fields :: "u64 \<Rightarrow> telemetry_context \<Rightarrow> bool \<Rightarrow> provider_usage \<Rightarrow> (ustr \<times> json) list" where
  "telemetry_fields now c stream usage =
     [(str ''event'', JString (str ''api_usage'')), (str ''event_version'', json_u64 1),
      (str ''timestamp_ms'', json_u64 now), (str ''route'', JString (tx_route c)),
      (str ''model'', JString (tx_model c)), (str ''source_format'', JString (tx_source_format c)),
      (str ''tenant_id'', JString (tx_tenant_id c)), (str ''request_id'', JString (tx_request_id c)),
      (str ''conversation_fingerprint'', JString (tx_conversation_fingerprint c)),
      (str ''reasoning_effort'', JString (tx_reasoning_effort c)), (str ''stream'', JBool stream),
      (str ''batch_index'', json_option json_u64 (tx_batch_index c)),
      (str ''usage'', usage_telemetry_json usage),
      (str ''input_tokens'', json_u64 (ucast (pu_input_tokens usage))),
      (str ''output_tokens'', json_u64 (ucast (pu_output_tokens usage))),
      (str ''total_tokens'', json_u64 (ucast (sat_add (pu_input_tokens usage) (pu_output_tokens usage))))]"

definition stream_provider_telemetry_record ::
  "u64 \<Rightarrow> telemetry_context \<Rightarrow> provider_usage \<Rightarrow> ustr option \<Rightarrow> ustr option \<Rightarrow> bool \<Rightarrow> json" where
  "stream_provider_telemetry_record now c usage finish_reason error_type saw_tool_delta =
     json_object (telemetry_fields now c True usage @
       [(str ''direct_passthrough'', JBool False), (str ''provider_call_count'', json_u64 1),
        (str ''task_count'', json_u64 1), (str ''child_agent_count'', json_u64 0),
        (str ''tool_delta_seen'', JBool saw_tool_delta),
        (str ''finish_reason'', json_option JString finish_reason),
        (str ''error_type'', json_option JString error_type),
        (str ''verification'', JNull), (str ''context'', JNull)])"

definition direct_telemetry_record :: "u64 \<Rightarrow> telemetry_context \<Rightarrow> provider_usage \<Rightarrow> json" where
  "direct_telemetry_record now c usage =
     json_object (telemetry_fields now c (tx_stream c) usage @
       [(str ''direct_passthrough'', JBool True), (str ''provider_call_count'', json_u64 1),
        (str ''task_count'', json_u64 0), (str ''child_agent_count'', json_u64 0),
        (str ''tool_call_count'', json_u64 0), (str ''verification'', JNull), (str ''context'', JNull)])"

section \<open>Lemmas\<close>

lemma fold_difference:
  "fold (\<lambda>(l, r) difference. or difference (xor l r)) ps d = 0 \<longleftrightarrow> d = 0 \<and> (\<forall>(l, r) \<in> set ps. l = r)"
  for d :: "8 word"
proof (induction ps arbitrary: d)
  case (Cons p ps)
  have "xor l r = 0 \<longleftrightarrow> l = r" for l r :: "8 word"
    by (metis bit.xor_cancel_right xor_self_eq xor.left_neutral xor.assoc)
  with Cons show ?case by (cases p) (auto simp: or_eq_0_iff)
qed simp

lemma constant_time_eq_iff: "constant_time_eq l r \<longleftrightarrow> l = r"
proof -
  have "(\<forall>(x, y) \<in> set (zip l r). x = y) \<longleftrightarrow> l = r" if "length l = length r"
    using that by (induction l r rule: list_induct2) auto
  then show ?thesis by (auto simp: constant_time_eq_def fold_difference)
qed

text \<open>
  What \<open>identity_component\<close> returns is short, safe and a fixed point, whatever the client sent; of
  \<^verbatim>\<open>sha256_hex\<close> it needs the hexadecimal digits only.
\<close>

definition hex_text :: "(ustr \<Rightarrow> ustr) \<Rightarrow> bool" where
  "hex_text sha \<longleftrightarrow> (\<forall>s. list_all is_ascii_alphanumeric (sha s))"

lemma utf8_len_ascii: "list_all (\<lambda>c. c < 128) s \<Longrightarrow> utf8_len s = length s"
  by (induction s) (simp_all add: utf8_width_def)

lemma safe_char_ascii: "is_safe_char c \<Longrightarrow> c < 128 \<and> \<not> is_whitespace c"
  by (auto simp: is_safe_char_def char_class_defs str_def)

lemma trim_safe: "list_all is_safe_char s \<Longrightarrow> trim s = s"
proof -
  have "list_all is_safe_char xs \<Longrightarrow> dropWhile is_whitespace xs = xs" for xs
    by (cases xs) (auto dest: safe_char_ascii)
  moreover have "list_all is_safe_char (rev xs) = list_all is_safe_char xs" for xs
    by (simp add: list_all_iff)
  ultimately show "list_all is_safe_char s \<Longrightarrow> trim s = s"
    unfolding trim_def trim_start_def trim_end_def by simp
qed

lemma identity_component_wf:
  assumes "hex_text sha" and "identity_component sha v = Some i"
  shows "i \<noteq> [] \<and> length i \<le> 128 \<and> list_all is_safe_char i \<and> identity_component sha i = Some i"
proof -
  let ?t = "trim v"
  have ok: "i \<noteq> [] \<and> length i \<le> 128 \<and> list_all is_safe_char i"
  proof (cases "utf8_len ?t \<le> 128 \<and> list_all is_safe_char ?t")
    case True
    then have "utf8_len ?t = length ?t"
      by (intro utf8_len_ascii) (auto simp: list_all_iff dest: safe_char_ascii)
    with True assms(2) show ?thesis
      by (auto simp: identity_component_def Let_def split: if_splits)
  next
    case False
    with assms(2) have i: "i = str ''sha256-'' @ take 32 (sha ?t)"
      by (auto simp: identity_component_def Let_def split: if_splits)
    have "list_all is_safe_char (take 32 (sha ?t))"
      using assms(1) by (auto simp: hex_text_def list_all_iff is_safe_char_def dest: in_set_takeD)
    moreover have "list_all is_safe_char (str ''sha256-'')"
      by (simp add: str_def is_safe_char_def char_class_defs)
    ultimately show ?thesis
      unfolding i by simp
  qed
  then have "utf8_len i = length i"
    by (intro utf8_len_ascii) (auto simp: list_all_iff dest: safe_char_ascii)
  with ok show ?thesis
    by (simp add: identity_component_def trim_safe)
qed

end
