(* ===== verification/Api_Sse.thy ===== *)
theory Api_Sse
  imports Api_Identity
begin

text \<open>
  \<^verbatim>\<open>api-server/src/lib.rs\<close>: the loop that four handlers share to answer with server-sent events while
  the provider streams (\<^verbatim>\<open>futures::stream::unfold\<close> over a state with a queue of frames): a pending
  frame is sent; a finished stream ends; otherwise the next item of the provider is handled. The
  states of the four handlers extend \<open>sse_state\<close>. A frame is kept as its parts; \<open>frame_text\<close> is the
  text that is sent.
\<close>

section \<open>Frames\<close>

datatype sse_frame = SseEvent ustr json | SseData json | SseDone | SsePlaceholder

definition sse_data :: "(json \<Rightarrow> ustr) \<Rightarrow> json \<Rightarrow> ustr" where
  "sse_data json_text v = str ''data: '' @ json_text v @ [10, 10]"

definition sse_event :: "(json \<Rightarrow> ustr) \<Rightarrow> ustr \<Rightarrow> json \<Rightarrow> ustr" where
  "sse_event json_text event v = str ''event: '' @ event @ [10] @ str ''data: '' @ json_text v @ [10, 10]"

fun frame_text :: "(json \<Rightarrow> ustr) \<Rightarrow> sse_frame \<Rightarrow> ustr" where
  "frame_text json_text (SseEvent event v) = sse_event json_text event v"
| "frame_text json_text (SseData v) = sse_data json_text v"
| "frame_text json_text SseDone = str ''data: [DONE]'' @ [10, 10]"
| "frame_text json_text SsePlaceholder = str ''__placeholder__''"

text \<open>Most events repeat their name in the field \<^verbatim>\<open>type\<close> of their value.\<close>

definition typed_event :: "string \<Rightarrow> (ustr \<times> json) list \<Rightarrow> sse_frame" where
  "typed_event name parts = SseEvent (str name) (json_object ((str ''type'', JString (str name)) # parts))"

section \<open>The state\<close>

text \<open>
  What does not change in the life of a stream: its identifier, the model it names, the context of
  its usage record and the time of that record.
\<close>

record stream_env =
  se_id :: ustr
  se_model :: ustr
  se_context :: telemetry_context
  se_now_ms :: u64

record sse_state =
  ss_items :: "(provider_error + provider_stream_event) list"
  ss_usage :: provider_usage
  ss_pending :: "sse_frame list"
  ss_finished :: bool
  ss_saw_tool_delta :: bool
  ss_telemetry_emitted :: bool
  ss_telemetry :: "json list"

definition push_frame :: "sse_frame \<Rightarrow> 'a sse_state_scheme \<Rightarrow> 'a sse_state_scheme" where
  "push_frame f s = s\<lparr>ss_pending := ss_pending s @ [f]\<rparr>"

definition emit_stream_telemetry ::
  "stream_env \<Rightarrow> ustr option \<Rightarrow> ustr option \<Rightarrow> 'a sse_state_scheme \<Rightarrow> 'a sse_state_scheme" where
  "emit_stream_telemetry env finish_reason error_type s =
     (if ss_telemetry_emitted s then s
      else s\<lparr>ss_telemetry_emitted := True,
             ss_telemetry := ss_telemetry s @
               [stream_provider_telemetry_record (se_now_ms env) (se_context env) (ss_usage s)
                  finish_reason error_type (ss_saw_tool_delta s)]\<rparr>)"

lemma push_frame_simps [simp]:
  "ss_items (push_frame f s) = ss_items s" "ss_usage (push_frame f s) = ss_usage s"
  "ss_pending (push_frame f s) = ss_pending s @ [f]" "ss_finished (push_frame f s) = ss_finished s"
  "ss_saw_tool_delta (push_frame f s) = ss_saw_tool_delta s"
  "ss_telemetry_emitted (push_frame f s) = ss_telemetry_emitted s"
  "ss_telemetry (push_frame f s) = ss_telemetry s"
  "sse_state.more (push_frame f s) = sse_state.more s"
  by (simp_all add: push_frame_def)

lemma emit_stream_telemetry_simps [simp]:
  "ss_items (emit_stream_telemetry env fr er s) = ss_items s"
  "ss_usage (emit_stream_telemetry env fr er s) = ss_usage s"
  "ss_pending (emit_stream_telemetry env fr er s) = ss_pending s"
  "ss_finished (emit_stream_telemetry env fr er s) = ss_finished s"
  "ss_saw_tool_delta (emit_stream_telemetry env fr er s) = ss_saw_tool_delta s"
  "ss_telemetry_emitted (emit_stream_telemetry env fr er s)"
  "sse_state.more (emit_stream_telemetry env fr er s) = sse_state.more s"
  by (simp_all add: emit_stream_telemetry_def)

section \<open>The loop\<close>

text \<open>
  One turn of the loop of the closure. \<open>present\<close> is what is done to a frame as it is sent; \<open>handle\<close> is
  the match on the next item, \<open>None\<close> when the provider's stream has ended.
\<close>

datatype 's polled = Yield sse_frame 's | Ended | Again 's

definition sse_poll ::
  "(sse_frame \<Rightarrow> sse_frame) \<Rightarrow>
   ((provider_error + provider_stream_event) option \<Rightarrow> 'a sse_state_scheme \<Rightarrow> 'a sse_state_scheme)
     \<Rightarrow> 'a sse_state_scheme \<Rightarrow> 'a sse_state_scheme polled" where
  "sse_poll present handle s =
     (case ss_pending s of
        f # fs \<Rightarrow> Yield (present f) (s\<lparr>ss_pending := fs\<rparr>)
      | [] \<Rightarrow>
          (if ss_finished s then Ended
           else case ss_items s of
                  [] \<Rightarrow> Again (handle None s)
                | i # rest \<Rightarrow> Again (handle (Some i) (s\<lparr>ss_items := rest\<rparr>))))"

text \<open>The body of the answer, with the state at its end; \<open>None\<close> when the loop does not end.\<close>

partial_function (option) sse_body ::
  "(sse_frame \<Rightarrow> sse_frame) \<Rightarrow>
   ((provider_error + provider_stream_event) option \<Rightarrow> 'a sse_state_scheme \<Rightarrow> 'a sse_state_scheme)
     \<Rightarrow> 'a sse_state_scheme \<Rightarrow> (sse_frame list \<times> 'a sse_state_scheme) option" where
  "sse_body present handle s =
     (case sse_poll present handle s of
        Yield f s' \<Rightarrow> Option.bind (sse_body present handle s') (\<lambda>r. Some (f # fst r, snd r))
      | Ended \<Rightarrow> Some ([], s)
      | Again s' \<Rightarrow> sse_body present handle s')"

section \<open>What the handlers owe the loop\<close>

text \<open>
  The end of the provider's stream finishes the answer, and no handler touches the items to come.
  Then the loop ends, all that was queued is sent in order, and an invariant of the frames with the
  state holds of the whole body.
\<close>

locale sse_machine =
  fixes present :: "sse_frame \<Rightarrow> sse_frame"
    and handle :: "(provider_error + provider_stream_event) option \<Rightarrow> 'a sse_state_scheme \<Rightarrow> 'a sse_state_scheme"
  assumes end_finishes: "ss_finished (handle None s)"
    and items_kept: "ss_items (handle i s) = ss_items s"
begin

lemma body_finished:
  "ss_finished s \<Longrightarrow> ss_pending s = [] \<Longrightarrow> sse_body present handle s = Some ([], s)"
  by (subst sse_body.simps) (simp add: sse_poll_def)

lemma body_drains:
  "sse_body present handle s
     = Option.bind (sse_body present handle (s\<lparr>ss_pending := []\<rparr>)) (\<lambda>r. Some (map present (ss_pending s) @ fst r, snd r))"
proof (induction "ss_pending s" arbitrary: s)
  case Nil
  from Nil [symmetric] have same: "s\<lparr>ss_pending := []\<rparr> = s" by simp
  show ?case
    unfolding same using Nil [symmetric] by (cases "sse_body present handle s") simp_all
next
  case (Cons f fs)
  have "sse_body present handle s
      = Option.bind (sse_body present handle (s\<lparr>ss_pending := fs\<rparr>)) (\<lambda>r. Some (present f # fst r, snd r))"
    by (subst sse_body.simps) (simp add: sse_poll_def Cons(2) [symmetric])
  also have "sse_body present handle (s\<lparr>ss_pending := fs\<rparr>)
      = Option.bind (sse_body present handle (s\<lparr>ss_pending := []\<rparr>)) (\<lambda>r. Some (map present fs @ fst r, snd r))"
    using Cons(1) [of "s\<lparr>ss_pending := fs\<rparr>"] by simp
  finally show ?case
    using Cons(2) by (cases "sse_body present handle (s\<lparr>ss_pending := []\<rparr>)") (simp_all flip: Cons(2))
qed

lemma body_invariant:
  assumes start: "I [] (map present (ss_pending s)) (s\<lparr>ss_pending := []\<rparr>)"
    and step: "\<And>seen out s i rest. I seen out s \<Longrightarrow> \<not> ss_finished s \<Longrightarrow> ss_pending s = [] \<Longrightarrow> ss_items s = i # rest \<Longrightarrow>
        I (seen @ [i]) (out @ map present (ss_pending (handle (Some i) (s\<lparr>ss_items := rest\<rparr>))))
          ((handle (Some i) (s\<lparr>ss_items := rest\<rparr>))\<lparr>ss_pending := []\<rparr>)"
    and stop: "\<And>seen out s. I seen out s \<Longrightarrow> \<not> ss_finished s \<Longrightarrow> ss_pending s = [] \<Longrightarrow> ss_items s = [] \<Longrightarrow>
        I seen (out @ map present (ss_pending (handle None s))) ((handle None s)\<lparr>ss_pending := []\<rparr>)"
  shows "\<exists>fs t seen. sse_body present handle s = Some (fs, t) \<and> I seen fs t \<and> ss_finished t
    \<and> seen @ ss_items t = ss_items s"
proof -
  have "\<exists>fs t seen'. sse_body present handle s = Some (fs, t) \<and> I (seen @ seen') (out @ fs) t \<and> ss_finished t
      \<and> seen' @ ss_items t = ss_items s"
    if "I seen out s" "ss_pending s = []" for seen out s
    using that
  proof (induction "ss_items s" arbitrary: seen out s)
    case Nil
    let ?s = "handle None s"
    show ?case
    proof (cases "ss_finished s")
      case False
      have "sse_body present handle s = sse_body present handle ?s"
        by (subst sse_body.simps) (simp add: sse_poll_def Nil False flip: Nil(1))
      also have "\<dots> = Some (map present (ss_pending ?s), ?s\<lparr>ss_pending := []\<rparr>)"
        by (subst body_drains) (simp add: body_finished end_finishes)
      finally show ?thesis
        using stop [OF Nil(2) False Nil(3)] Nil(1) by (intro exI) (auto simp: end_finishes items_kept)
    next
      case True
      with Nil body_finished [OF True Nil(3)] show ?thesis
        by (intro exI [of _ "[]"] exI [of _ s]) simp
    qed
  next
    case (Cons i rest)
    let ?s = "handle (Some i) (s\<lparr>ss_items := rest\<rparr>)"
    show ?case
    proof (cases "ss_finished s")
      case False
      have body: "sse_body present handle s = sse_body present handle ?s"
        by (subst sse_body.simps) (simp add: sse_poll_def Cons(4) False flip: Cons(2))
      have "I (seen @ [i]) (out @ map present (ss_pending ?s)) (?s\<lparr>ss_pending := []\<rparr>)"
        by (rule step [OF Cons(3) False Cons(4) Cons(2) [symmetric]])
      from Cons(1) [OF _ this] obtain fs t seen' where t:
        "sse_body present handle (?s\<lparr>ss_pending := []\<rparr>) = Some (fs, t)"
        "I ((seen @ [i]) @ seen') ((out @ map present (ss_pending ?s)) @ fs) t" "ss_finished t" "seen' @ ss_items t = rest"
        by (auto simp: items_kept)
      then show ?thesis
        unfolding body using Cons(2)
        by (intro exI [of _ "map present (ss_pending ?s) @ fs"] exI [of _ t] exI [of _ "i # seen'"])
          (subst body_drains, simp)
    next
      case True
      with Cons body_finished [OF True Cons(4)] show ?thesis
        by (intro exI [of _ "[]"] exI [of _ s]) simp
    qed
  qed
  from this [OF start] obtain fs t seen where
    "sse_body present handle (s\<lparr>ss_pending := []\<rparr>) = Some (fs, t)" "I seen (map present (ss_pending s) @ fs) t"
    "ss_finished t" "seen @ ss_items t = ss_items s"
    by auto
  then show ?thesis
    by (intro exI [of _ "map present (ss_pending s) @ fs"] exI [of _ t] exI [of _ seen]) (subst body_drains, simp)
qed

end

section \<open>What the provider says before the end\<close>

definition is_final :: "provider_error + provider_stream_event \<Rightarrow> bool" where
  "is_final i \<longleftrightarrow> (case i of Inl e \<Rightarrow> True | Inr e \<Rightarrow> is_finish e)"

definition live :: "(provider_error + provider_stream_event) list \<Rightarrow> (provider_error + provider_stream_event) list" where
  "live is = takeWhile (\<lambda>i. \<not> is_final i) is"

fun item_text :: "provider_error + provider_stream_event \<Rightarrow> ustr" where
  "item_text (Inr (TextDelta t)) = t"
| "item_text i = []"

definition provider_text :: "(provider_error + provider_stream_event) list \<Rightarrow> ustr" where
  "provider_text is = concat (map item_text (live is))"

text \<open>
  The items a handler has seen: none of them final while the answer is open, and at the end either the
  last one or the end of the stream.
\<close>

definition seen_ok :: "(provider_error + provider_stream_event) list \<Rightarrow> 'a sse_state_scheme \<Rightarrow> bool" where
  "seen_ok seen s \<longleftrightarrow>
     (if ss_finished s
      then ss_items s = [] \<and> live seen = seen \<or> (\<exists>pre f. seen = pre @ [f] \<and> live pre = pre \<and> is_final f)
      else live seen = seen)"

lemma live_all: "live is = is \<longleftrightarrow> (\<forall>i \<in> set is. \<not> is_final i)"
  by (simp add: live_def takeWhile_eq_all_conv)

lemma live_snoc: "live pre = pre \<Longrightarrow> live (pre @ [i]) = (if is_final i then pre else pre @ [i])"
  by (simp add: live_all) (simp add: live_def)

lemma seen_ok_live:
  assumes "seen_ok seen s" and "ss_finished s"
  shows "live (seen @ ss_items s) = live seen"
  using assms by (auto simp: seen_ok_def live_all) (auto simp: live_def)

end
