(* ===== verification/Api_Types.thy ===== *)
theory Api_Types
  imports Api_Identity
begin

text \<open>
  \<^verbatim>\<open>api-server/src/lib.rs\<close>: the requests of the two public interfaces as the gateway reads them. A
  content block of the second interface has a reader of its own; the derived readers and printers of
  the others are \<^verbatim>\<open>serde\<close>'s. A floating-point number is its 64 bits.
\<close>

record openai_function =
  of_name :: ustr
  of_description :: "ustr option"
  of_parameters :: json

record openai_tool =
  ot_type :: ustr
  ot_function :: openai_function

datatype openai_content_part =
    PartText ustr
  | PartImageUrl ustr
  | PartInputAudio json json_map
  | PartFile json json_map
  | PartRefusal ustr

datatype openai_content = ContentText ustr | ContentParts "openai_content_part list"

record openai_called_function =
  cf_name :: ustr
  cf_arguments :: json

record openai_message_tool_call =
  otc_id :: ustr
  otc_type :: ustr
  otc_function :: openai_called_function

record openai_message =
  om_role :: ustr
  om_content :: "openai_content option"
  om_tool_calls :: "openai_message_tool_call list"
  om_function_call :: "openai_called_function option"
  om_tool_call_id :: "ustr option"
  om_name :: "ustr option"

record openai_chat_request =
  oc_model :: ustr
  oc_messages :: "openai_message list"
  oc_tools :: "openai_tool list"
  oc_tool_choice :: json
  oc_functions :: "openai_function list"
  oc_function_call :: json
  oc_parallel_tool_calls :: "bool option"
  oc_thinking :: json
  oc_reasoning :: json
  oc_chat_template_kwargs :: json
  oc_enable_thinking :: "bool option"
  oc_preserve_thinking :: "bool option"
  oc_stream :: bool
  oc_metadata :: json
  oc_extra :: json_map

record openai_completion_request =
  ol_model :: ustr
  ol_prompt :: json
  ol_stream :: bool
  ol_thinking :: json
  ol_reasoning :: json
  ol_chat_template_kwargs :: json
  ol_enable_thinking :: "bool option"
  ol_preserve_thinking :: "bool option"
  ol_metadata :: json
  ol_extra :: json_map

record openai_responses_request =
  or_model :: ustr
  or_input :: json
  or_instructions :: json
  or_tools :: "json list"
  or_tool_choice :: json
  or_parallel_tool_calls :: "bool option"
  or_thinking :: json
  or_reasoning :: json
  or_max_output_tokens :: "u64 option"
  or_temperature :: "64 word option"
  or_top_p :: "64 word option"
  or_top_logprobs :: "u64 option"
  or_stream :: bool
  or_background :: bool
  or_store :: "bool option"
  or_previous_response_id :: "ustr option"
  or_include :: json
  or_metadata :: json
  or_extra :: json_map

datatype anthropic_image_source = SourceBase64 ustr ustr | SourceUrl ustr

datatype anthropic_content_block =
    BlockText ustr
  | BlockImage anthropic_image_source
  | BlockToolUse ustr ustr json
  | BlockToolResult ustr json
  | BlockProviderContent json

datatype anthropic_system = SystemText ustr | SystemBlocks "anthropic_content_block list"

datatype anthropic_content = MessageText ustr | MessageBlocks "anthropic_content_block list"

record anthropic_message =
  am_role :: ustr
  am_content :: anthropic_content

record anthropic_tool =
  at_name :: ustr
  at_description :: "ustr option"
  at_input_schema :: json

record anthropic_messages_request =
  ar_model :: ustr
  ar_messages :: "anthropic_message list"
  ar_system :: "anthropic_system option"
  ar_tools :: "anthropic_tool list"
  ar_tool_choice :: json
  ar_thinking :: json
  ar_reasoning :: json
  ar_stream :: bool
  ar_metadata :: json
  ar_extra :: json_map

datatype tool_response_format = ToolsFormat | LegacyFunctions

section \<open>Reading a content block\<close>

definition required :: "string \<Rightarrow> 'a option \<Rightarrow> ustr + 'a" where
  "required message v = (case v of Some x \<Rightarrow> Inr x | None \<Rightarrow> Inl (str message))"

definition only_keys :: "json_map \<Rightarrow> string list \<Rightarrow> bool" where
  "only_keys object names \<longleftrightarrow> list_all (\<lambda>k. k \<in> set (map str names)) (map fst object)"

definition field_str :: "json_map \<Rightarrow> string \<Rightarrow> ustr option" where
  "field_str object name = Option.bind (bt_get object (str name)) json_as_str"

definition field_or_null :: "json_map \<Rightarrow> string \<Rightarrow> json" where
  "field_or_null object name = (case bt_get object (str name) of Some v \<Rightarrow> v | None \<Rightarrow> JNull)"

text \<open>\<open>source_of\<close> is the derived reader of \<^verbatim>\<open>AnthropicImageSource\<close>.\<close>

definition content_block_of_json ::
  "(json \<Rightarrow> ustr + anthropic_image_source) \<Rightarrow> json \<Rightarrow> ustr + anthropic_content_block" where
  "content_block_of_json source_of v =
     ebind (required ''Anthropic content blocks must be objects'' (json_as_object v)) (\<lambda>object.
     ebind (required ''Anthropic content blocks must include type'' (field_str object ''type'')) (\<lambda>kind.
     if kind = str ''text'' \<and> only_keys object [''type'', ''text''] then
       ebind (required ''text block must include text'' (field_str object ''text'')) (\<lambda>t. Inr (BlockText t))
     else if kind = str ''image'' \<and> only_keys object [''type'', ''source''] then
       ebind (required ''image block must include source'' (bt_get object (str ''source''))) (\<lambda>s.
       ebind (source_of s) (\<lambda>source. Inr (BlockImage source)))
     else if kind = str ''tool_use'' \<and> only_keys object [''type'', ''id'', ''name'', ''input''] then
       ebind (required ''tool_use block must include id'' (field_str object ''id'')) (\<lambda>i.
       ebind (required ''tool_use block must include name'' (field_str object ''name'')) (\<lambda>n.
       Inr (BlockToolUse i n (field_or_null object ''input''))))
     else if kind = str ''tool_result''
             \<and> only_keys object [''type'', ''tool_use_id'', ''content'', ''is_error''] then
       ebind (required ''tool_result block must include tool_use_id'' (field_str object ''tool_use_id'')) (\<lambda>i.
       Inr (BlockToolResult i (field_or_null object ''content'')))
     else Inr (BlockProviderContent v)))"

end
