(* ===== verification/Api_Stream_Chat.thy ===== *)
theory Api_Stream_Chat
  imports Api_Sse Api_Types
begin

text \<open>
  \<^verbatim>\<open>api-server/src/lib.rs\<close>: the streams of the chat and of the completion interface
  (\<^verbatim>\<open>format_openai_provider_stream_response\<close>, \<^verbatim>\<open>format_openai_completion_provider_stream_response\<close>):
  one chunk for each delta of the provider, a chunk with the reason of the end, and the mark of the
  end.
\<close>

section \<open>Chunks\<close>

definition openai_stream_chunk :: "ustr \<Rightarrow> ustr \<Rightarrow> json \<Rightarrow> json \<Rightarrow> json" where
  "openai_stream_chunk chunk_id model delta finish_reason = json_object
     [(str ''id'', JString chunk_id), (str ''object'', JString (str ''chat.completion.chunk'')),
      (str ''created'', json_u64 0), (str ''model'', JString model),
      (str ''choices'', JArray [json_object
         [(str ''index'', json_u64 0), (str ''delta'', delta), (str ''finish_reason'', finish_reason)]])]"

definition openai_stream_role_chunk :: "ustr \<Rightarrow> ustr \<Rightarrow> sse_frame" where
  "openai_stream_role_chunk chunk_id model =
     SseData (openai_stream_chunk chunk_id model (json_object [(str ''role'', JString (str ''assistant''))]) JNull)"

definition openai_stream_finish_chunk :: "ustr \<Rightarrow> ustr \<Rightarrow> ustr \<Rightarrow> sse_frame" where
  "openai_stream_finish_chunk chunk_id model finish_reason =
     SseData (openai_stream_chunk chunk_id model (json_object []) (JString finish_reason))"

definition openai_completion_stream_chunk :: "ustr \<Rightarrow> ustr \<Rightarrow> ustr \<Rightarrow> json \<Rightarrow> json" where
  "openai_completion_stream_chunk chunk_id model t finish_reason = json_object
     [(str ''id'', JString chunk_id), (str ''object'', JString (str ''text_completion'')),
      (str ''created'', json_u64 0), (str ''model'', JString model),
      (str ''choices'', JArray [json_object
         [(str ''text'', JString t), (str ''index'', json_u64 0), (str ''logprobs'', JNull),
          (str ''finish_reason'', finish_reason)]])]"

definition stream_error_frame :: "provider_error \<Rightarrow> sse_frame" where
  "stream_error_frame e = SseData (json_object [(str ''error'', json_object
     [(str ''message'', JString (show_provider_error e)),
      (str ''type'', JString (str ''provider_stream_error''))])])"

definition function_fields :: "ustr option \<Rightarrow> ustr \<Rightarrow> (ustr \<times> json) list" where
  "function_fields name arguments_delta =
     (case name of Some n \<Rightarrow> [(str ''name'', JString n)] | None \<Rightarrow> [])
       @ (if arguments_delta = [] then [] else [(str ''arguments'', JString arguments_delta)])"

definition openai_provider_tool_call_delta :: "nat \<Rightarrow> tool_call_id option \<Rightarrow> ustr option \<Rightarrow> ustr \<Rightarrow> json" where
  "openai_provider_tool_call_delta index call_id name arguments_delta = json_object
     ([(str ''index'', json_u64 (word_of_nat index))]
      @ (case call_id of
           Some i \<Rightarrow> [(str ''id'', JString i), (str ''type'', JString (str ''function''))] | None \<Rightarrow> [])
      @ [(str ''function'', json_object (function_fields name arguments_delta))])"

definition openai_legacy_function_call_delta :: "ustr option \<Rightarrow> ustr \<Rightarrow> json" where
  "openai_legacy_function_call_delta name arguments_delta =
     json_object [(str ''function_call'', json_object (function_fields name arguments_delta))]"

fun openai_finish_reason :: "provider_finish_reason \<Rightarrow> tool_response_format \<Rightarrow> bool \<Rightarrow> ustr" where
  "openai_finish_reason FinishStop format saw_tool_delta =
     (if saw_tool_delta
      then (if format = LegacyFunctions then str ''function_call'' else str ''tool_calls'')
      else str ''stop'')"
| "openai_finish_reason FinishToolCalls format _ =
     (if format = LegacyFunctions then str ''function_call'' else str ''tool_calls'')"
| "openai_finish_reason FinishFunctionCall _ _ = str ''function_call''"
| "openai_finish_reason FinishLength _ _ = str ''length''"
| "openai_finish_reason (FinishOther _) _ _ = str ''stop''"

fun openai_completion_finish_reason :: "provider_finish_reason \<Rightarrow> ustr" where
  "openai_completion_finish_reason FinishLength = str ''length''"
| "openai_completion_finish_reason (FinishOther _) = str ''stop''"
| "openai_completion_finish_reason _ = str ''stop''"

section \<open>The chat stream\<close>

text \<open>The last chunks, and the end of the answer with its usage record.\<close>

definition close_stream :: "stream_env \<Rightarrow> sse_frame \<Rightarrow> ustr option \<Rightarrow> ustr option \<Rightarrow> sse_state \<Rightarrow> sse_state" where
  "close_stream env f finish_reason error_type s =
     emit_stream_telemetry env finish_reason error_type
       ((push_frame SseDone (push_frame f s))\<lparr>ss_finished := True\<rparr>)"

fun push_openai_event :: "stream_env \<Rightarrow> tool_response_format \<Rightarrow> provider_stream_event \<Rightarrow> sse_state \<Rightarrow> sse_state" where
  "push_openai_event env format (TextDelta t) s =
     (if t = [] then s
      else push_frame (SseData (openai_stream_chunk (se_id env) (se_model env)
             (json_object [(str ''content'', JString t)]) JNull)) s)"
| "push_openai_event env format (ToolCallDelta index call_id name arguments_delta) s =
     (let delta = (if format = LegacyFunctions then openai_legacy_function_call_delta name arguments_delta
                   else json_object [(str ''tool_calls'',
                     JArray [openai_provider_tool_call_delta index call_id name arguments_delta])])
      in push_frame (SseData (openai_stream_chunk (se_id env) (se_model env) delta JNull))
           (s\<lparr>ss_saw_tool_delta := True\<rparr>))"
| "push_openai_event env format (Finish reason) s =
     (let finish_reason = openai_finish_reason reason format (ss_saw_tool_delta s)
      in close_stream env (openai_stream_finish_chunk (se_id env) (se_model env) finish_reason)
           (Some finish_reason) None s)"
| "push_openai_event env format (Usage usage) s = s\<lparr>ss_usage := usage\<rparr>"

fun chat_handle ::
  "stream_env \<Rightarrow> tool_response_format \<Rightarrow> (provider_error + provider_stream_event) option \<Rightarrow> sse_state \<Rightarrow> sse_state" where
  "chat_handle env format (Some (Inr e)) s = push_openai_event env format e s"
| "chat_handle env format (Some (Inl e)) s =
     close_stream env (stream_error_frame e) None (Some (str ''provider_stream_error'')) s"
| "chat_handle env format None s =
     close_stream env (openai_stream_finish_chunk (se_id env) (se_model env) (str ''stop'')) (Some (str ''stop'')) None s"

definition chat_present :: "stream_env \<Rightarrow> sse_frame \<Rightarrow> sse_frame" where
  "chat_present env f = (if f = SsePlaceholder then openai_stream_role_chunk (se_id env) (se_model env) else f)"

definition stream_start :: "sse_frame list \<Rightarrow> (provider_error + provider_stream_event) list \<Rightarrow> sse_state" where
  "stream_start pending items =
     \<lparr>ss_items = items, ss_usage = provider_usage_default, ss_pending = pending, ss_finished = False,
      ss_saw_tool_delta = False, ss_telemetry_emitted = False, ss_telemetry = []\<rparr>"

definition chat_stream ::
  "stream_env \<Rightarrow> tool_response_format \<Rightarrow> (provider_error + provider_stream_event) list
     \<Rightarrow> (sse_frame list \<times> sse_state) option" where
  "chat_stream env format items =
     sse_body (chat_present env) (chat_handle env format) (stream_start [SsePlaceholder] items)"

section \<open>The completion stream\<close>

fun push_openai_completion_event :: "stream_env \<Rightarrow> provider_stream_event \<Rightarrow> sse_state \<Rightarrow> sse_state" where
  "push_openai_completion_event env (TextDelta t) s =
     (if t = [] then s
      else push_frame (SseData (openai_completion_stream_chunk (se_id env) (se_model env) t JNull)) s)"
| "push_openai_completion_event env (Finish reason) s =
     (let finish_reason = openai_completion_finish_reason reason
      in close_stream env
           (SseData (openai_completion_stream_chunk (se_id env) (se_model env) [] (JString finish_reason)))
           (Some finish_reason) None s)"
| "push_openai_completion_event env (Usage usage) s = s\<lparr>ss_usage := usage\<rparr>"
| "push_openai_completion_event env (ToolCallDelta _ _ _ _) s = s"

fun completion_handle ::
  "stream_env \<Rightarrow> (provider_error + provider_stream_event) option \<Rightarrow> sse_state \<Rightarrow> sse_state" where
  "completion_handle env (Some (Inr e)) s = push_openai_completion_event env e s"
| "completion_handle env (Some (Inl e)) s =
     close_stream env (stream_error_frame e) None (Some (str ''provider_stream_error'')) s"
| "completion_handle env None s =
     close_stream env
       (SseData (openai_completion_stream_chunk (se_id env) (se_model env) [] (JString (str ''stop''))))
       (Some (str ''stop'')) None s"

definition completion_stream ::
  "stream_env \<Rightarrow> (provider_error + provider_stream_event) list \<Rightarrow> (sse_frame list \<times> sse_state) option" where
  "completion_stream env items = sse_body id (completion_handle env) (stream_start [] items)"

section \<open>What a client reads\<close>

definition chunk_choice :: "sse_frame \<Rightarrow> json option" where
  "chunk_choice f =
     (case f of
        SseData v \<Rightarrow> (case json_get (str ''choices'') v of Some (JArray (c # _)) \<Rightarrow> Some c | _ \<Rightarrow> None)
      | _ \<Rightarrow> None)"

definition chunk_content :: "sse_frame \<Rightarrow> ustr" where
  "chunk_content f =
     (case Option.bind (Option.bind (chunk_choice f) (json_get (str ''delta''))) (json_get (str ''content'')) of
        Some (JString t) \<Rightarrow> t | _ \<Rightarrow> [])"

definition chunk_text :: "sse_frame \<Rightarrow> ustr" where
  "chunk_text f =
     (case Option.bind (chunk_choice f) (json_get (str ''text'')) of Some (JString t) \<Rightarrow> t | _ \<Rightarrow> [])"

definition chunk_finish :: "sse_frame \<Rightarrow> ustr option" where
  "chunk_finish f =
     (case Option.bind (chunk_choice f) (json_get (str ''finish_reason'')) of Some (JString t) \<Rightarrow> Some t | _ \<Rightarrow> None)"

definition is_error_frame :: "sse_frame \<Rightarrow> bool" where
  "is_error_frame f \<longleftrightarrow> (case f of SseData v \<Rightarrow> json_get (str ''error'') v \<noteq> None | _ \<Rightarrow> False)"

text \<open>
  A closed body: frames of the answer that neither finish it nor report an error, one that does, and
  the mark of the end.
\<close>

definition closed_body :: "sse_frame list \<Rightarrow> bool" where
  "closed_body fs \<longleftrightarrow>
     (\<exists>answer f. fs = answer @ [f, SseDone]
        \<and> (\<forall>x \<in> set answer. x \<noteq> SseDone \<and> chunk_finish x = None \<and> \<not> is_error_frame x)
        \<and> (chunk_finish f \<noteq> None) \<noteq> is_error_frame f)"

lemmas chunk_defs = chunk_choice_def chunk_content_def chunk_text_def chunk_finish_def is_error_frame_def
  openai_stream_chunk_def openai_completion_stream_chunk_def openai_stream_role_chunk_def
  openai_stream_finish_chunk_def stream_error_frame_def openai_legacy_function_call_delta_def json_get_object

lemma chunk_facts [simp]:
  "chunk_content (SseData (openai_stream_chunk i m (json_object [(str ''content'', JString t)]) fr)) = t"
  "chunk_content (SseData (openai_stream_chunk i m (json_object [(str ''tool_calls'', v)]) fr)) = []"
  "chunk_content (SseData (openai_stream_chunk i m (openai_legacy_function_call_delta n a) fr)) = []"
  "chunk_content (openai_stream_finish_chunk i m r) = []" "chunk_content (openai_stream_role_chunk i m) = []"
  "chunk_content (stream_error_frame e) = []" "chunk_content SseDone = []"
  "chunk_text (SseData (openai_completion_stream_chunk i m t fr)) = t"
  "chunk_text (stream_error_frame e) = []" "chunk_text SseDone = []"
  by (simp_all add: chunk_defs)

lemma finish_facts [simp]:
  "chunk_finish (SseData (openai_stream_chunk i m d JNull)) = None"
  "chunk_finish (openai_stream_role_chunk i m) = None"
  "chunk_finish (openai_stream_finish_chunk i m r) = Some r"
  "chunk_finish (SseData (openai_completion_stream_chunk i m t JNull)) = None"
  "chunk_finish (SseData (openai_completion_stream_chunk i m t (JString r))) = Some r"
  "chunk_finish (stream_error_frame e) = None"
  "\<not> is_error_frame (SseData (openai_stream_chunk i m d fr))"
  "\<not> is_error_frame (openai_stream_role_chunk i m)" "\<not> is_error_frame (openai_stream_finish_chunk i m r)"
  "\<not> is_error_frame (SseData (openai_completion_stream_chunk i m t fr))"
  "is_error_frame (stream_error_frame e)"
  by (simp_all add: chunk_defs)

section \<open>The streams are complete\<close>

text \<open>
  What holds at every turn: the text read so far is the text of the items seen, and the usage record
  is written as the body is closed. The two streams differ in the reader of a chunk's text.
\<close>

definition open_frame :: "sse_frame \<Rightarrow> bool" where
  "open_frame x \<longleftrightarrow> x \<noteq> SseDone \<and> chunk_finish x = None \<and> \<not> is_error_frame x"

definition stream_inv ::
  "(sse_frame \<Rightarrow> ustr) \<Rightarrow> (provider_error + provider_stream_event) list \<Rightarrow> sse_frame list \<Rightarrow> sse_state \<Rightarrow> bool" where
  "stream_inv reader seen out s \<longleftrightarrow>
     seen_ok seen s \<and> concat (map reader out) = concat (map item_text (live seen))
     \<and> (if ss_finished s then closed_body out \<and> length (ss_telemetry s) = 1
        else list_all open_frame out \<and> ss_telemetry s = [] \<and> \<not> ss_telemetry_emitted s)"

lemma close_stream_simps [simp]:
  "ss_items (close_stream env f fr er s) = ss_items s"
  "ss_pending (close_stream env f fr er s) = ss_pending s @ [f, SseDone]"
  "ss_finished (close_stream env f fr er s)"
  by (simp_all add: close_stream_def)

lemma close_stream_telemetry:
  "\<not> ss_telemetry_emitted s \<Longrightarrow> ss_telemetry s = [] \<Longrightarrow> length (ss_telemetry (close_stream env f fr er s)) = 1"
  by (simp add: close_stream_def emit_stream_telemetry_def)

lemma stream_inv_step:
  assumes "stream_inv reader seen out s" and "\<not> ss_finished s" and "\<not> is_final i"
    and "concat (map reader fs) = item_text i" and "list_all open_frame fs" and "\<not> ss_finished s'"
    and "ss_telemetry s' = ss_telemetry s" and "ss_telemetry_emitted s' = ss_telemetry_emitted s"
  shows "stream_inv reader (seen @ [i]) (out @ fs) s'"
  using assms by (simp add: stream_inv_def seen_ok_def live_snoc)

lemma stream_inv_close:
  assumes "stream_inv reader seen out s" and "\<not> ss_finished s"
    and seen': "seen' = seen \<and> ss_items s = [] \<or> (\<exists>i. seen' = seen @ [i] \<and> is_final i)"
    and f: "reader f = []" "reader SseDone = []" "(chunk_finish f \<noteq> None) \<noteq> is_error_frame f"
    and s': "ss_finished s'" "ss_items s' = [] \<or> seen' \<noteq> seen" "length (ss_telemetry s') = 1"
  shows "stream_inv reader seen' (out @ [f, SseDone]) s'"
proof -
  have live: "live seen = seen" and out: "list_all open_frame out"
    and "concat (map reader out) = concat (map item_text (live seen))"
    using assms(1,2) by (simp_all add: stream_inv_def seen_ok_def)
  moreover have "live seen' = seen"
    using seen' live by (auto simp: live_snoc)
  moreover have "seen_ok seen' s'"
    using seen' live s' by (auto simp: seen_ok_def live_snoc)
  moreover have "closed_body (out @ [f, SseDone])"
    using out f(3) by (auto simp: closed_body_def list_all_iff open_frame_def)
  ultimately show ?thesis
    using f s' by (simp add: stream_inv_def)
qed

interpretation chat_machine: sse_machine "chat_present env" "chat_handle env format" for env format
proof
  show "ss_finished (chat_handle env format None s)" for s by simp
  show "ss_items (chat_handle env format i s) = ss_items s" for i s
  proof (cases i)
    case (Some x)
    show ?thesis
    proof (cases x)
      case (Inr e)
      with Some show ?thesis by (cases e) (simp_all add: Let_def)
    qed (simp add: Some)
  qed simp
qed

interpretation completion_machine: sse_machine id "completion_handle env" for env
proof
  show "ss_finished (completion_handle env None s)" for s by simp
  show "ss_items (completion_handle env i s) = ss_items s" for i s
  proof (cases i)
    case (Some x)
    show ?thesis
    proof (cases x)
      case (Inr e)
      with Some show ?thesis by (cases e) (simp_all add: Let_def)
    qed (simp add: Some)
  qed simp
qed

lemma present_simps [simp]:
  "chat_present env (SseData v) = SseData v" "chat_present env SseDone = SseDone"
  "chat_present env (openai_stream_finish_chunk i m r) = openai_stream_finish_chunk i m r"
  "chat_present env (stream_error_frame e) = stream_error_frame e"
  "chat_present env SsePlaceholder = openai_stream_role_chunk (se_id env) (se_model env)"
  by (simp_all add: chat_present_def openai_stream_finish_chunk_def stream_error_frame_def)

lemma chat_step:
  assumes inv: "stream_inv chunk_content seen out s" and "\<not> ss_finished s" and "ss_pending s = []"
    and "ss_items s = i # rest"
  shows "stream_inv chunk_content (seen @ [i])
     (out @ map (chat_present env) (ss_pending (chat_handle env format (Some i) (s\<lparr>ss_items := rest\<rparr>))))
     ((chat_handle env format (Some i) (s\<lparr>ss_items := rest\<rparr>))\<lparr>ss_pending := []\<rparr>)"
proof -
  have t: "\<not> ss_telemetry_emitted s" "ss_telemetry s = []"
    using inv assms(2) by (simp_all add: stream_inv_def)
  note step = stream_inv_step [OF inv assms(2)] stream_inv_step [OF inv assms(2), where fs = "[]", simplified] and close = stream_inv_close [OF inv assms(2)]
  show ?thesis
  proof (cases i)
    case (Inl e)
    with assms(3) t show ?thesis
      by (simp add: close_stream_telemetry, intro close) (auto simp: is_final_def close_stream_telemetry)
  next
    case (Inr e)
    show ?thesis
    proof (cases e)
      case (Finish r)
      with Inr assms(3) t show ?thesis
        by (simp add: Let_def, intro close) (auto simp: is_final_def close_stream_telemetry)
    qed (use Inr assms(2,3) in \<open>auto simp: Let_def is_final_def open_frame_def intro!: step\<close>)
  qed
qed

lemma completion_step:
  assumes inv: "stream_inv chunk_text seen out s" and "\<not> ss_finished s" and "ss_pending s = []"
    and "ss_items s = i # rest"
  shows "stream_inv chunk_text (seen @ [i])
     (out @ map id (ss_pending (completion_handle env (Some i) (s\<lparr>ss_items := rest\<rparr>))))
     ((completion_handle env (Some i) (s\<lparr>ss_items := rest\<rparr>))\<lparr>ss_pending := []\<rparr>)"
proof -
  have t: "\<not> ss_telemetry_emitted s" "ss_telemetry s = []"
    using inv assms(2) by (simp_all add: stream_inv_def)
  note step = stream_inv_step [OF inv assms(2)] stream_inv_step [OF inv assms(2), where fs = "[]", simplified] and close = stream_inv_close [OF inv assms(2)]
  show ?thesis
  proof (cases i)
    case (Inl e)
    with assms(3) t show ?thesis
      by (simp, intro close) (auto simp: is_final_def close_stream_telemetry)
  next
    case (Inr e)
    show ?thesis
    proof (cases e)
      case (Finish r)
      with Inr assms(3) t show ?thesis
        by (simp add: Let_def, intro close) (auto simp: is_final_def close_stream_telemetry)
    qed (use Inr assms(2,3) in \<open>auto simp: is_final_def open_frame_def intro!: step\<close>)
  qed
qed

lemma stream_inv_result:
  assumes "stream_inv reader seen fs t" and "ss_finished t" and "seen @ ss_items t = items"
  shows "concat (map reader fs) = provider_text items \<and> closed_body fs \<and> length (ss_telemetry t) = 1"
  using assms seen_ok_live [of seen t] by (auto simp: stream_inv_def provider_text_def)

lemma chat_stream_complete:
  "\<exists>fs t. chat_stream env format items = Some (fs, t) \<and> concat (map chunk_content fs) = provider_text items
     \<and> closed_body fs \<and> length (ss_telemetry t) = 1"
proof -
  have "\<exists>fs t seen. chat_stream env format items = Some (fs, t) \<and> stream_inv chunk_content seen fs t
      \<and> ss_finished t \<and> seen @ ss_items t = ss_items (stream_start [SsePlaceholder] items)"
    unfolding chat_stream_def
  proof (rule chat_machine.body_invariant)
    show "stream_inv chunk_content [] (map (chat_present env) (ss_pending (stream_start [SsePlaceholder] items)))
        ((stream_start [SsePlaceholder] items)\<lparr>ss_pending := []\<rparr>)"
      by (simp add: stream_inv_def seen_ok_def live_def stream_start_def open_frame_def)
        (simp add: openai_stream_role_chunk_def)
  next
    fix seen out s
    assume inv: "stream_inv chunk_content seen out s" and s: "\<not> ss_finished s" "ss_pending s = []" "ss_items s = []"
    then show "stream_inv chunk_content seen (out @ map (chat_present env) (ss_pending (chat_handle env format None s)))
        ((chat_handle env format None s)\<lparr>ss_pending := []\<rparr>)"
      by (simp, intro stream_inv_close [OF inv]) (auto simp: close_stream_telemetry stream_inv_def)
  qed (rule chat_step)
  then show ?thesis
    using stream_inv_result by (fastforce simp: stream_start_def)
qed

lemma completion_stream_complete:
  "\<exists>fs t. completion_stream env items = Some (fs, t) \<and> concat (map chunk_text fs) = provider_text items
     \<and> closed_body fs \<and> length (ss_telemetry t) = 1"
proof -
  have "\<exists>fs t seen. completion_stream env items = Some (fs, t) \<and> stream_inv chunk_text seen fs t
      \<and> ss_finished t \<and> seen @ ss_items t = ss_items (stream_start [] items)"
    unfolding completion_stream_def
  proof (rule completion_machine.body_invariant)
    show "stream_inv chunk_text [] (map id (ss_pending (stream_start [] items)))
        ((stream_start [] items)\<lparr>ss_pending := []\<rparr>)"
      by (simp add: stream_inv_def seen_ok_def live_def stream_start_def)
  next
    fix seen out s
    assume inv: "stream_inv chunk_text seen out s" and s: "\<not> ss_finished s" "ss_pending s = []" "ss_items s = []"
    then show "stream_inv chunk_text seen (out @ map id (ss_pending (completion_handle env None s)))
        ((completion_handle env None s)\<lparr>ss_pending := []\<rparr>)"
      by (simp, intro stream_inv_close [OF inv]) (auto simp: close_stream_telemetry stream_inv_def)
  qed (rule completion_step)
  then show ?thesis
    using stream_inv_result by (fastforce simp: stream_start_def)
qed

end
