(* ===== verification/Api_Stream_Messages.thy ===== *)
theory Api_Stream_Messages
  imports Api_Sse
begin

text \<open>
  \<^verbatim>\<open>api-server/src/lib.rs\<close>: the stream of the messages interface
  (\<^verbatim>\<open>format_anthropic_provider_stream_response\<close>): a message made of blocks, each opened, filled by
  deltas and closed. The text is the block 0; a tool call is a block at the index the provider gave it.
\<close>

section \<open>Events\<close>

definition anthropic_message_start_event :: "ustr \<Rightarrow> ustr \<Rightarrow> sse_frame" where
  "anthropic_message_start_event message_id model = typed_event ''message_start''
     [(str ''message'', json_object
        [(str ''id'', JString message_id), (str ''type'', JString (str ''message'')),
         (str ''role'', JString (str ''assistant'')), (str ''model'', JString model),
         (str ''content'', JArray []), (str ''stop_reason'', JNull), (str ''stop_sequence'', JNull),
         (str ''usage'', json_object [(str ''input_tokens'', json_u64 0), (str ''output_tokens'', json_u64 0)])])]"

definition block_event :: "string \<Rightarrow> nat \<Rightarrow> (ustr \<times> json) list \<Rightarrow> sse_frame" where
  "block_event name index parts = typed_event name ((str ''index'', json_u64 (word_of_nat index)) # parts)"

definition text_block_start :: sse_frame where
  "text_block_start = block_event ''content_block_start'' 0
     [(str ''content_block'', json_object [(str ''type'', JString (str ''text'')), (str ''text'', JString [])])]"

definition text_block_delta :: "ustr \<Rightarrow> sse_frame" where
  "text_block_delta t = block_event ''content_block_delta'' 0
     [(str ''delta'', json_object [(str ''type'', JString (str ''text_delta'')), (str ''text'', JString t)])]"

definition tool_block_start :: "nat \<Rightarrow> tool_call_id option \<Rightarrow> ustr option \<Rightarrow> sse_frame" where
  "tool_block_start index call_id name = block_event ''content_block_start'' index
     [(str ''content_block'', json_object
        [(str ''type'', JString (str ''tool_use'')),
         (str ''id'', JString (case call_id of Some i \<Rightarrow> i | None \<Rightarrow> str ''toolu_'' @ show_nat index)),
         (str ''name'', JString (case name of Some n \<Rightarrow> n | None \<Rightarrow> str ''unknown'')),
         (str ''input'', json_object [])])]"

definition tool_block_delta :: "nat \<Rightarrow> ustr \<Rightarrow> sse_frame" where
  "tool_block_delta index arguments_delta = block_event ''content_block_delta'' index
     [(str ''delta'', json_object
        [(str ''type'', JString (str ''input_json_delta'')), (str ''partial_json'', JString arguments_delta)])]"

definition anthropic_content_block_stop_event :: "nat \<Rightarrow> sse_frame" where
  "anthropic_content_block_stop_event index = block_event ''content_block_stop'' index []"

definition anthropic_message_delta_event :: "ustr \<Rightarrow> sse_frame" where
  "anthropic_message_delta_event stop_reason = typed_event ''message_delta''
     [(str ''delta'', json_object [(str ''stop_reason'', JString stop_reason), (str ''stop_sequence'', JNull)]),
      (str ''usage'', json_object [(str ''output_tokens'', json_u64 0)])]"

definition message_stop_event :: sse_frame where
  "message_stop_event = typed_event ''message_stop'' []"

definition anthropic_error_event :: "provider_error \<Rightarrow> sse_frame" where
  "anthropic_error_event e = typed_event ''error''
     [(str ''error'', json_object
        [(str ''type'', JString (str ''provider_stream_error'')), (str ''message'', JString (show_provider_error e))])]"

fun anthropic_stop_reason :: "provider_finish_reason \<Rightarrow> bool \<Rightarrow> ustr" where
  "anthropic_stop_reason FinishStop saw_tool_delta =
     (if saw_tool_delta then str ''tool_use'' else str ''end_turn'')"
| "anthropic_stop_reason FinishToolCalls _ = str ''tool_use''"
| "anthropic_stop_reason FinishFunctionCall _ = str ''tool_use''"
| "anthropic_stop_reason FinishLength _ = str ''max_tokens''"
| "anthropic_stop_reason (FinishOther _) _ = str ''end_turn''"

section \<open>The state machine\<close>

record anthropic_state = sse_state +
  as_text_block_open :: bool
  as_tool_blocks_open :: "nat list"

definition close_open_blocks :: "anthropic_state \<Rightarrow> anthropic_state" where
  "close_open_blocks s =
     s\<lparr>ss_pending := ss_pending s
         @ (if as_text_block_open s then [anthropic_content_block_stop_event 0] else [])
         @ map anthropic_content_block_stop_event (as_tool_blocks_open s),
       as_text_block_open := False, as_tool_blocks_open := []\<rparr>"

definition finish_with_reason :: "stream_env \<Rightarrow> ustr \<Rightarrow> anthropic_state \<Rightarrow> anthropic_state" where
  "finish_with_reason env stop_reason s =
     emit_stream_telemetry env (Some stop_reason) None
       ((push_frame message_stop_event
           (push_frame (anthropic_message_delta_event stop_reason) (close_open_blocks s)))\<lparr>ss_finished := True\<rparr>)"

definition finish_with_error :: "stream_env \<Rightarrow> provider_error \<Rightarrow> anthropic_state \<Rightarrow> anthropic_state" where
  "finish_with_error env e s =
     emit_stream_telemetry env None (Some (str ''provider_stream_error''))
       ((push_frame message_stop_event
           (push_frame (anthropic_error_event e) (close_open_blocks s)))\<lparr>ss_finished := True\<rparr>)"

definition open_text_block :: "anthropic_state \<Rightarrow> anthropic_state" where
  "open_text_block s =
     (if as_text_block_open s then s else (push_frame text_block_start s)\<lparr>as_text_block_open := True\<rparr>)"

definition open_tool_block :: "nat \<Rightarrow> tool_call_id option \<Rightarrow> ustr option \<Rightarrow> anthropic_state \<Rightarrow> anthropic_state" where
  "open_tool_block index call_id name s =
     (if index \<in> set (as_tool_blocks_open s) then s
      else (push_frame (tool_block_start index call_id name) s)
             \<lparr>as_tool_blocks_open := bs_insert index (as_tool_blocks_open s)\<rparr>)"

fun push_anthropic_event :: "stream_env \<Rightarrow> provider_stream_event \<Rightarrow> anthropic_state \<Rightarrow> anthropic_state" where
  "push_anthropic_event env (TextDelta t) s =
     (if t = [] then s else push_frame (text_block_delta t) (open_text_block s))"
| "push_anthropic_event env (ToolCallDelta index call_id name arguments_delta) s =
     (let opened = open_tool_block index call_id name (s\<lparr>ss_saw_tool_delta := True\<rparr>)
      in if arguments_delta = [] then opened else push_frame (tool_block_delta index arguments_delta) opened)"
| "push_anthropic_event env (Finish reason) s =
     finish_with_reason env (anthropic_stop_reason reason (ss_saw_tool_delta s)) s"
| "push_anthropic_event env (Usage usage) s = s\<lparr>ss_usage := usage\<rparr>"

fun anthropic_handle ::
  "stream_env \<Rightarrow> (provider_error + provider_stream_event) option \<Rightarrow> anthropic_state \<Rightarrow> anthropic_state" where
  "anthropic_handle env (Some (Inr e)) s = push_anthropic_event env e s"
| "anthropic_handle env (Some (Inl e)) s = finish_with_error env e s"
| "anthropic_handle env None s = finish_with_reason env (str ''end_turn'') s"

definition anthropic_present :: "stream_env \<Rightarrow> sse_frame \<Rightarrow> sse_frame" where
  "anthropic_present env f =
     (if f = SsePlaceholder then anthropic_message_start_event (se_id env) (se_model env) else f)"

definition anthropic_start :: "(provider_error + provider_stream_event) list \<Rightarrow> anthropic_state" where
  "anthropic_start items =
     \<lparr>ss_items = items, ss_usage = provider_usage_default, ss_pending = [SsePlaceholder], ss_finished = False,
      ss_saw_tool_delta = False, ss_telemetry_emitted = False, ss_telemetry = [],
      as_text_block_open = False, as_tool_blocks_open = []\<rparr>"

definition anthropic_stream ::
  "stream_env \<Rightarrow> (provider_error + provider_stream_event) list \<Rightarrow> (sse_frame list \<times> anthropic_state) option" where
  "anthropic_stream env items =
     sse_body (anthropic_present env) (anthropic_handle env) (anthropic_start items)"

section \<open>What a client reads\<close>

definition event_index :: "json \<Rightarrow> nat option" where
  "event_index v = map_option unat (Option.bind (json_get (str ''index'') v) json_as_u64)"

definition delta_field :: "string \<Rightarrow> sse_frame \<Rightarrow> ustr option" where
  "delta_field name f =
     (case f of
        SseEvent _ v \<Rightarrow> Option.bind (Option.bind (json_get (str ''delta'') v) (json_get (str name))) json_as_str
      | _ \<Rightarrow> None)"

definition client_text :: "sse_frame \<Rightarrow> ustr" where
  "client_text f = (case delta_field ''text'' f of Some t \<Rightarrow> t | None \<Rightarrow> [])"

definition client_arguments :: "nat \<Rightarrow> sse_frame \<Rightarrow> ustr" where
  "client_arguments i f =
     (case f of
        SseEvent _ v \<Rightarrow>
          (if event_index v = Some i
           then (case delta_field ''partial_json'' f of Some t \<Rightarrow> t | None \<Rightarrow> []) else [])
      | _ \<Rightarrow> [])"

datatype block_mark = Opened nat | Filled nat | Closed nat

definition frame_mark :: "sse_frame \<Rightarrow> block_mark option" where
  "frame_mark f =
     (case f of
        SseEvent name v \<Rightarrow>
          (case event_index v of
             Some i \<Rightarrow>
               (if name = str ''content_block_start'' then Some (Opened i)
                else if name = str ''content_block_delta'' then Some (Filled i)
                else if name = str ''content_block_stop'' then Some (Closed i) else None)
           | None \<Rightarrow> None)
      | _ \<Rightarrow> None)"

text \<open>
  The protocol of blocks: an index is opened once, filled while it is open, closed once. The state is
  the indices that are open and those that were ever opened.
\<close>

fun block_step :: "block_mark \<Rightarrow> nat set \<times> nat set \<Rightarrow> (nat set \<times> nat set) option" where
  "block_step (Opened i) (opn, used) = (if i \<in> used then None else Some (insert i opn, insert i used))"
| "block_step (Filled i) (opn, used) = (if i \<in> opn then Some (opn, used) else None)"
| "block_step (Closed i) (opn, used) = (if i \<in> opn then Some (opn - {i}, used) else None)"

fun block_run :: "block_mark list \<Rightarrow> nat set \<times> nat set \<Rightarrow> (nat set \<times> nat set) option" where
  "block_run [] s = Some s"
| "block_run (m # ms) s = Option.bind (block_step m s) (block_run ms)"

definition marks :: "sse_frame list \<Rightarrow> block_mark list" where
  "marks fs = filter_map frame_mark fs"

lemma block_run_append: "block_run (xs @ ys) s = Option.bind (block_run xs s) (block_run ys)"
  by (induction xs arbitrary: s) (auto split: Option.bind_splits)

lemma marks_append [simp]: "marks (xs @ ys) = marks xs @ marks ys"
  by (simp add: marks_def)

lemmas event_defs = typed_event_def block_event_def text_block_start_def text_block_delta_def
  tool_block_start_def tool_block_delta_def anthropic_content_block_stop_event_def
  anthropic_message_delta_event_def message_stop_event_def anthropic_error_event_def
  anthropic_message_start_event_def event_index_def delta_field_def client_text_def client_arguments_def
  frame_mark_def json_get_object json_u64_def

lemma mark_facts [simp]:
  "frame_mark text_block_start = Some (Opened 0)" "frame_mark (text_block_delta t) = Some (Filled 0)"
  "frame_mark (anthropic_message_delta_event r) = None" "frame_mark message_stop_event = None"
  "frame_mark (anthropic_error_event e) = None" "frame_mark (anthropic_message_start_event i m) = None"
  by (simp_all add: event_defs)

lemma indexed_mark_facts [simp]:
  assumes "i < 2 ^ 64"
  shows "frame_mark (tool_block_start i c n) = Some (Opened i)"
    and "frame_mark (tool_block_delta i a) = Some (Filled i)"
    and "frame_mark (anthropic_content_block_stop_event i) = Some (Closed i)"
  using assms by (simp_all add: event_defs unsigned_of_nat take_bit_nat_eq_self)

lemma text_facts [simp]:
  "client_text text_block_start = []" "client_text (text_block_delta t) = t"
  "client_text (tool_block_start i c n) = []" "client_text (tool_block_delta i a) = []"
  "client_text (anthropic_content_block_stop_event i) = []" "client_text (anthropic_message_delta_event r) = []"
  "client_text message_stop_event = []" "client_text (anthropic_error_event e) = []"
  "client_text (anthropic_message_start_event d m) = []"
  by (simp_all add: event_defs)

lemma argument_facts [simp]:
  "client_arguments k text_block_start = []" "client_arguments k (text_block_delta t) = []"
  "client_arguments k (tool_block_start i c n) = []"
  "client_arguments k (anthropic_content_block_stop_event i) = []"
  "client_arguments k (anthropic_message_delta_event r) = []" "client_arguments k message_stop_event = []"
  "client_arguments k (anthropic_error_event e) = []" "client_arguments k (anthropic_message_start_event d m) = []"
  "i < 2 ^ 64 \<Longrightarrow> client_arguments k (tool_block_delta i a) = (if i = k then a else [])"
  by (simp_all add: event_defs unsigned_of_nat take_bit_nat_eq_self)

end
