(* ===== verification/Api_Messages_Facts.thy ===== *)
theory Api_Messages_Facts
  imports Api_Stream_Messages
begin

text \<open>
  The stream of the messages interface is complete: its body ends, its texts and arguments are those
  of the provider, and its blocks follow the protocol unless a text meets a tool call of index 0.
\<close>

lemma close_open_blocks_simps [simp]:
  "ss_items (close_open_blocks s) = ss_items s" "ss_finished (close_open_blocks s) = ss_finished s"
  "ss_telemetry (close_open_blocks s) = ss_telemetry s"
  "ss_telemetry_emitted (close_open_blocks s) = ss_telemetry_emitted s"
  by (simp_all add: close_open_blocks_def)

definition block_stops :: "anthropic_state \<Rightarrow> sse_frame list" where
  "block_stops s = (if as_text_block_open s then [anthropic_content_block_stop_event 0] else [])
     @ map anthropic_content_block_stop_event (as_tool_blocks_open s)"

text \<open>Both ends of an answer: the open blocks are closed, then a last event, then the stop.\<close>

definition ends_with_frame :: "sse_frame \<Rightarrow> anthropic_state \<Rightarrow> anthropic_state \<Rightarrow> bool" where
  "ends_with_frame f s s' \<longleftrightarrow>
     ss_items s' = ss_items s \<and> ss_finished s' \<and> \<not> as_text_block_open s' \<and> as_tool_blocks_open s' = []
     \<and> ss_pending s' = ss_pending s @ block_stops s @ [f, message_stop_event]
     \<and> (\<not> ss_telemetry_emitted s \<longrightarrow> ss_telemetry s = [] \<longrightarrow> length (ss_telemetry s') = 1)"

lemma message_finish_ends: "ends_with_frame (anthropic_message_delta_event r) s (finish_with_reason env r s)"
  and error_ends: "ends_with_frame (anthropic_error_event e) s (finish_with_error env e s)"
  by (simp_all add: ends_with_frame_def finish_with_reason_def finish_with_error_def close_open_blocks_def
      block_stops_def) (simp_all add: emit_stream_telemetry_def push_frame_def)

lemma open_simps [simp]:
  "ss_items (open_text_block s) = ss_items s" "ss_items (open_tool_block i c n s) = ss_items s"
  by (simp_all add: open_text_block_def open_tool_block_def)

interpretation anthropic_machine: sse_machine "anthropic_present env" "anthropic_handle env" for env
proof
  show "ss_finished (anthropic_handle env None s)" for s
    using message_finish_ends by (simp add: ends_with_frame_def)
  show "ss_items (anthropic_handle env i s) = ss_items s" for i s
  proof (cases i)
    case None
    then show ?thesis using message_finish_ends by (simp add: ends_with_frame_def)
  next
    case (Some x)
    show ?thesis
    proof (cases x)
      case (Inl e)
      with Some show ?thesis using error_ends by (simp add: ends_with_frame_def)
    next
      case (Inr e)
      with Some show ?thesis
        using message_finish_ends by (cases e) (simp_all add: Let_def ends_with_frame_def)
    qed
  qed
qed

text \<open>A turn on an item that is not final: the frames it adds and the blocks it opens.\<close>

fun new_frames :: "provider_stream_event \<Rightarrow> anthropic_state \<Rightarrow> sse_frame list" where
  "new_frames (TextDelta t) s =
     (if t = [] then [] else (if as_text_block_open s then [] else [text_block_start]) @ [text_block_delta t])"
| "new_frames (ToolCallDelta i c n a) s =
     (if i \<in> set (as_tool_blocks_open s) then [] else [tool_block_start i c n])
       @ (if a = [] then [] else [tool_block_delta i a])"
| "new_frames _ s = []"

lemma push_event_adds:
  assumes "\<not> is_finish e"
  shows "ss_pending (push_anthropic_event env e s) = ss_pending s @ new_frames e s"
    and "ss_finished (push_anthropic_event env e s) = ss_finished s"
    and "ss_telemetry (push_anthropic_event env e s) = ss_telemetry s"
    and "ss_telemetry_emitted (push_anthropic_event env e s) = ss_telemetry_emitted s"
    and "as_text_block_open (push_anthropic_event env e s)
       = (as_text_block_open s \<or> (\<exists>t. e = TextDelta t \<and> t \<noteq> []))"
    and "as_tool_blocks_open (push_anthropic_event env e s)
       = (case e of ToolCallDelta i c n a \<Rightarrow>
            (if i \<in> set (as_tool_blocks_open s) then as_tool_blocks_open s
             else bs_insert i (as_tool_blocks_open s))
          | _ \<Rightarrow> as_tool_blocks_open s)"
  using assms
  by (cases e; auto simp: Let_def open_text_block_def open_tool_block_def push_frame_def)+

section \<open>Nothing is lost\<close>

fun item_arguments :: "nat \<Rightarrow> provider_error + provider_stream_event \<Rightarrow> ustr" where
  "item_arguments k (Inr (ToolCallDelta i c n a)) = (if i = k then a else [])"
| "item_arguments k i = []"

definition provider_arguments :: "nat \<Rightarrow> (provider_error + provider_stream_event) list \<Rightarrow> ustr" where
  "provider_arguments k is = concat (map (item_arguments k) (live is))"

text \<open>The indices of the source are machine words.\<close>

definition usize_items :: "(provider_error + provider_stream_event) list \<Rightarrow> bool" where
  "usize_items is \<longleftrightarrow> (\<forall>i c n a. Inr (ToolCallDelta i c n a) \<in> set is \<longrightarrow> i < 2 ^ 64)"

definition is_message_stop :: "sse_frame \<Rightarrow> bool" where
  "is_message_stop f \<longleftrightarrow> (case f of SseEvent name v \<Rightarrow> name = str ''message_stop'' | _ \<Rightarrow> False)"

lemma stop_facts [simp]:
  "is_message_stop message_stop_event" "\<not> is_message_stop text_block_start" "\<not> is_message_stop (text_block_delta t)"
  "\<not> is_message_stop (tool_block_start i c n)" "\<not> is_message_stop (tool_block_delta i a)"
  "\<not> is_message_stop (anthropic_content_block_stop_event i)" "\<not> is_message_stop (anthropic_message_delta_event r)"
  "\<not> is_message_stop (anthropic_error_event e)"
  by (simp_all add: is_message_stop_def event_defs)

lemma new_frames_content:
  assumes "\<not> is_finish e" and "usize_items [Inr e]"
  shows "concat (map client_text (new_frames e s)) = item_text (Inr e)"
    and "concat (map (client_arguments k) (new_frames e s)) = item_arguments k (Inr e)"
    and "list_all (\<lambda>f. \<not> is_message_stop f) (new_frames e s)"
  using assms by (cases e; auto simp: usize_items_def)+

definition message_inv ::
  "stream_env \<Rightarrow> (provider_error + provider_stream_event) list \<Rightarrow> (provider_error + provider_stream_event) list
     \<Rightarrow> sse_frame list \<Rightarrow> anthropic_state \<Rightarrow> bool" where
  "message_inv env items seen out s \<longleftrightarrow>
     seen @ ss_items s = items \<and> seen_ok seen s
     \<and> concat (map client_text out) = concat (map item_text (live seen))
     \<and> (\<forall>k. concat (map (client_arguments k) out) = concat (map (item_arguments k) (live seen)))
     \<and> (\<exists>body. list_all (\<lambda>f. \<not> is_message_stop f) body
          \<and> out = anthropic_message_start_event (se_id env) (se_model env) # body
              @ (if ss_finished s then [message_stop_event] else []))
     \<and> (if ss_finished s then length (ss_telemetry s) = 1 else ss_telemetry s = [] \<and> \<not> ss_telemetry_emitted s)"

lemma message_present_simps [simp]:
  "anthropic_present env SsePlaceholder = anthropic_message_start_event (se_id env) (se_model env)"
  "f \<noteq> SsePlaceholder \<Longrightarrow> anthropic_present env f = f"
  by (simp_all add: anthropic_present_def)

lemma frames_no_placeholder:
  "f \<in> set (new_frames e s) \<Longrightarrow> f \<noteq> SsePlaceholder" "f \<in> set (block_stops s) \<Longrightarrow> f \<noteq> SsePlaceholder"
  "message_stop_event \<noteq> SsePlaceholder" "anthropic_message_delta_event r \<noteq> SsePlaceholder"
  "anthropic_error_event er \<noteq> SsePlaceholder"
  by (cases e; auto simp: event_defs split: if_splits) (auto simp: block_stops_def event_defs)

lemma present_frames [simp]:
  "map (anthropic_present env) (new_frames e s) = new_frames e s"
  "map (anthropic_present env) (block_stops s) = block_stops s"
  using frames_no_placeholder by (auto intro!: map_idI)

lemma message_step:
  assumes "message_inv env items seen out s" and "\<not> ss_finished s" and "ss_pending s = []"
    and "ss_items s = Inr e # rest" and "\<not> is_finish e" and "usize_items items"
  shows "message_inv env items (seen @ [Inr e])
     (out @ map (anthropic_present env) (ss_pending (push_anthropic_event env e (s\<lparr>ss_items := rest\<rparr>))))
     ((push_anthropic_event env e (s\<lparr>ss_items := rest\<rparr>))\<lparr>ss_pending := []\<rparr>)"
proof -
  let ?s = "s\<lparr>ss_items := rest\<rparr>"
  have "Inr e \<in> set items" using assms(1,4) by (auto simp: message_inv_def)
  with assms(6) have "usize_items [Inr e]" by (auto simp: usize_items_def)
  note new = new_frames_content [OF assms(5) this, where s = ?s]
  have items: "ss_items (push_anthropic_event env e ?s) = rest"
    using anthropic_machine.items_kept [of env "Some (Inr e)" ?s] by simp
  have "live seen = seen" using assms(1,2) by (simp add: message_inv_def seen_ok_def)
  then have live: "live (seen @ [Inr e]) = seen @ [Inr e]"
    using assms(5) by (simp add: live_snoc is_final_def)
  from assms(1,2) obtain body where "list_all (\<lambda>f. \<not> is_message_stop f) body"
    "out = anthropic_message_start_event (se_id env) (se_model env) # body"
    by (auto simp: message_inv_def)
  with new(3) have "list_all (\<lambda>f. \<not> is_message_stop f) (body @ new_frames e ?s)
      \<and> out @ new_frames e ?s = anthropic_message_start_event (se_id env) (se_model env) # body @ new_frames e ?s"
    by simp
  moreover have "ss_pending ?s = []" "\<not> ss_finished ?s" using assms(2,3) by simp_all
  ultimately show ?thesis
    using assms(1,2,4) new(1,2) live \<open>live seen = seen\<close>
    unfolding message_inv_def
    by (simp add: push_event_adds [OF assms(5)] items seen_ok_def)
qed

lemma message_end:
  assumes inv: "message_inv env items seen out s" and "\<not> ss_finished s" and "ss_pending s = []"
    and seen': "seen' = seen \<and> ss_items s = [] \<or> (\<exists>i. seen' = seen @ [i] \<and> is_final i \<and> ss_items s = i # ss_items s1)"
    and s1: "s1 = s\<lparr>ss_items := ss_items s1\<rparr>" "seen' @ ss_items s1 = items"
    and ends: "ends_with_frame f s1 s'" and f: "f \<in> range anthropic_message_delta_event \<union> range anthropic_error_event"
  shows "message_inv env items seen' (out @ map (anthropic_present env) (ss_pending s')) (s'\<lparr>ss_pending := []\<rparr>)"
proof -
  have same: "ss_pending s1 = []" "block_stops s1 = block_stops s" "ss_telemetry s1 = ss_telemetry s"
    "ss_telemetry_emitted s1 = ss_telemetry_emitted s"
    using assms(3) by (subst s1(1); simp add: block_stops_def)+
  have quiet: "concat (map client_text (block_stops s)) = []" "concat (map (client_arguments k) (block_stops s)) = []" for k
    by (auto simp: block_stops_def)
  have f': "anthropic_present env f = f" "client_text f = []" "client_arguments k f = []" "\<not> is_message_stop f" for k
    using f frames_no_placeholder by auto
  have stop: "anthropic_present env message_stop_event = message_stop_event"
    using frames_no_placeholder by simp
  have "live seen = seen" using inv assms(2) by (simp add: message_inv_def seen_ok_def)
  then have live: "live seen' = seen" using seen' by (auto simp: live_snoc)
  have ok: "seen_ok seen' (s'\<lparr>ss_pending := []\<rparr>)"
    using ends seen' \<open>live seen = seen\<close> s1(2) inv
    by (auto simp: seen_ok_def ends_with_frame_def message_inv_def)
  from inv assms(2) obtain body where body: "list_all (\<lambda>f. \<not> is_message_stop f) body"
    "out = anthropic_message_start_event (se_id env) (se_model env) # body"
    by (auto simp: message_inv_def)
  have "list_all (\<lambda>f. \<not> is_message_stop f) (body @ block_stops s @ [f])"
    using body(1) f'(4) by (auto simp: block_stops_def list_all_iff)
  with body(2) have "\<exists>b. list_all (\<lambda>f. \<not> is_message_stop f) b
      \<and> out @ block_stops s @ [f, message_stop_event]
        = anthropic_message_start_event (se_id env) (se_model env) # b @ [message_stop_event]"
    by (intro exI [of _ "body @ block_stops s @ [f]"]) simp
  with inv assms(2) ends s1(2) live ok quiet f' stop \<open>live seen = seen\<close> show ?thesis
    by (simp add: message_inv_def ends_with_frame_def same)
qed

text \<open>The turns of the machine, once for all invariants: a plain item, a final item, the end.\<close>

lemma anthropic_body_rule:
  assumes start: "I [] [anthropic_message_start_event (se_id env) (se_model env)] ((anthropic_start items)\<lparr>ss_pending := []\<rparr>)"
    and plain: "\<And>seen out s e rest. I seen out s \<Longrightarrow> \<not> ss_finished s \<Longrightarrow> ss_pending s = [] \<Longrightarrow>
        ss_items s = Inr e # rest \<Longrightarrow> \<not> is_finish e \<Longrightarrow>
        I (seen @ [Inr e])
          (out @ map (anthropic_present env) (ss_pending (push_anthropic_event env e (s\<lparr>ss_items := rest\<rparr>))))
          ((push_anthropic_event env e (s\<lparr>ss_items := rest\<rparr>))\<lparr>ss_pending := []\<rparr>)"
    and ended: "\<And>seen out s s1 s' seen' f. I seen out s \<Longrightarrow> \<not> ss_finished s \<Longrightarrow> ss_pending s = [] \<Longrightarrow>
        seen' = seen \<and> ss_items s = [] \<or> (\<exists>i. seen' = seen @ [i] \<and> is_final i \<and> ss_items s = i # ss_items s1) \<Longrightarrow>
        s1 = s\<lparr>ss_items := ss_items s1\<rparr> \<Longrightarrow> seen' @ ss_items s1 = seen @ ss_items s \<Longrightarrow>
        ends_with_frame f s1 s' \<Longrightarrow> f \<in> range anthropic_message_delta_event \<union> range anthropic_error_event \<Longrightarrow>
        I seen' (out @ map (anthropic_present env) (ss_pending s')) (s'\<lparr>ss_pending := []\<rparr>)"
  shows "\<exists>fs t seen. anthropic_stream env items = Some (fs, t) \<and> I seen fs t \<and> ss_finished t
    \<and> seen @ ss_items t = items"
proof -
  have "\<exists>fs t seen. anthropic_stream env items = Some (fs, t) \<and> I seen fs t \<and> ss_finished t
    \<and> seen @ ss_items t = ss_items (anthropic_start items)"
    unfolding anthropic_stream_def
  proof (rule anthropic_machine.body_invariant)
    show "I [] (map (anthropic_present env) (ss_pending (anthropic_start items))) ((anthropic_start items)\<lparr>ss_pending := []\<rparr>)"
      using start by (simp add: anthropic_start_def)
  next
    fix seen out s i rest
    assume s: "I seen out s" "\<not> ss_finished s" "ss_pending s = []" "ss_items s = i # rest"
    let ?s = "s\<lparr>ss_items := rest\<rparr>"
    show "I (seen @ [i]) (out @ map (anthropic_present env) (ss_pending (anthropic_handle env (Some i) ?s)))
        ((anthropic_handle env (Some i) ?s)\<lparr>ss_pending := []\<rparr>)"
    proof (cases "is_final i")
      case False
      then obtain e where "i = Inr e" "\<not> is_finish e" by (auto simp: is_final_def split: sum.splits)
      with plain [OF s(1-3)] s(4) show ?thesis by simp
    next
      case True
      have "\<exists>f. ends_with_frame f ?s (anthropic_handle env (Some i) ?s)
          \<and> f \<in> range anthropic_message_delta_event \<union> range anthropic_error_event"
      proof (cases i)
        case (Inl e)
        then show ?thesis using error_ends by auto
      next
        case (Inr e)
        with True obtain r where "e = Finish r" by (cases e) (auto simp: is_final_def)
        with Inr show ?thesis using message_finish_ends by auto
      qed
      then show ?thesis
        using ended [OF s(1-3), of "seen @ [i]" ?s] s(4) True by auto
    qed
  next
    fix seen out s
    assume s: "I seen out s" "\<not> ss_finished s" "ss_pending s = []" "ss_items s = []"
    then show "I seen (out @ map (anthropic_present env) (ss_pending (anthropic_handle env None s)))
        ((anthropic_handle env None s)\<lparr>ss_pending := []\<rparr>)"
      using ended [OF s(1-3), of seen s "anthropic_message_delta_event (str ''end_turn'')"] s(4)
        message_finish_ends [of "str ''end_turn''" s env] by simp
  qed
  then show ?thesis by (simp add: anthropic_start_def)
qed

lemma anthropic_stream_complete:
  assumes "usize_items items"
  shows "\<exists>body t. anthropic_stream env items
       = Some (anthropic_message_start_event (se_id env) (se_model env) # body @ [message_stop_event], t)
     \<and> list_all (\<lambda>f. \<not> is_message_stop f) body
     \<and> concat (map client_text body) = provider_text items
     \<and> (\<forall>k. concat (map (client_arguments k) body) = provider_arguments k items)
     \<and> length (ss_telemetry t) = 1"
proof -
  have "\<exists>fs t seen. anthropic_stream env items = Some (fs, t) \<and> message_inv env items seen fs t \<and> ss_finished t
      \<and> seen @ ss_items t = items"
  proof (rule anthropic_body_rule)
    show "message_inv env items [] [anthropic_message_start_event (se_id env) (se_model env)]
        ((anthropic_start items)\<lparr>ss_pending := []\<rparr>)"
      by (simp add: message_inv_def seen_ok_def live_def anthropic_start_def)
  next
    fix seen out s s1 s' seen' f
    assume inv: "message_inv env items seen out s" and s: "\<not> ss_finished s" "ss_pending s = []"
      and seen': "seen' = seen \<and> ss_items s = [] \<or> (\<exists>i. seen' = seen @ [i] \<and> is_final i \<and> ss_items s = i # ss_items s1)"
      and "s1 = s\<lparr>ss_items := ss_items s1\<rparr>" "seen' @ ss_items s1 = seen @ ss_items s"
      and "ends_with_frame f s1 s'" "f \<in> range anthropic_message_delta_event \<union> range anthropic_error_event"
    moreover from inv have "seen @ ss_items s = items" by (simp add: message_inv_def)
    ultimately show "message_inv env items seen' (out @ map (anthropic_present env) (ss_pending s')) (s'\<lparr>ss_pending := []\<rparr>)"
      using message_end [OF inv s seen'] by simp
  qed (rule message_step [OF _ _ _ _ _ assms])
  then obtain fs t seen where "anthropic_stream env items = Some (fs, t)" and inv: "message_inv env items seen fs t"
    and fin: "ss_finished t" and "seen @ ss_items t = items"
    by blast
  moreover from inv fin obtain body where "list_all (\<lambda>f. \<not> is_message_stop f) body"
    "fs = anthropic_message_start_event (se_id env) (se_model env) # body @ [message_stop_event]"
    by (auto simp: message_inv_def)
  moreover have "live seen = live items"
    using seen_ok_live [of seen t] inv fin \<open>seen @ ss_items t = items\<close> by (simp add: message_inv_def)
  ultimately show ?thesis
    using inv fin by (intro exI [of _ body] exI [of _ t])
      (simp add: message_inv_def provider_text_def provider_arguments_def)
qed

end
