(* ===== verification/Api_Messages_Blocks.thy ===== *)
theory Api_Messages_Blocks
  imports Api_Messages_Facts
begin

text \<open>
  The blocks of a streamed message against the protocol: every block is opened once, filled while it
  is open and closed once, provided a text does not come with a tool call of index 0. When it does,
  two blocks are open at the index 0.
\<close>

definition open_blocks :: "anthropic_state \<Rightarrow> nat set" where
  "open_blocks s = (if as_text_block_open s then {0} else {}) \<union> set (as_tool_blocks_open s)"

definition has_text :: "(provider_error + provider_stream_event) list \<Rightarrow> bool" where
  "has_text is \<longleftrightarrow> (\<exists>t. t \<noteq> [] \<and> Inr (TextDelta t) \<in> set is)"

definition has_tool :: "nat \<Rightarrow> (provider_error + provider_stream_event) list \<Rightarrow> bool" where
  "has_tool i is \<longleftrightarrow> (\<exists>c n a. Inr (ToolCallDelta i c n a) \<in> set is)"

definition block_inv ::
  "(provider_error + provider_stream_event) list \<Rightarrow> (provider_error + provider_stream_event) list
     \<Rightarrow> sse_frame list \<Rightarrow> anthropic_state \<Rightarrow> bool" where
  "block_inv items seen out s \<longleftrightarrow>
     seen @ ss_items s = items
     \<and> (as_text_block_open s \<longrightarrow> has_text items) \<and> (\<forall>i \<in> set (as_tool_blocks_open s). has_tool i items)
     \<and> distinct (as_tool_blocks_open s) \<and> sorted_wrt (<) (as_tool_blocks_open s)
     \<and> (\<exists>used. block_run (marks out) ({}, {}) = Some (if ss_finished s then {} else open_blocks s, used)
          \<and> (\<not> ss_finished s \<longrightarrow> used = open_blocks s))"

lemma marks_new_frames:
  assumes "usize_items [Inr e]" and "\<not> is_finish e"
  shows "marks (new_frames e s) =
    (case e of
       TextDelta t \<Rightarrow> (if t = [] then [] else (if as_text_block_open s then [] else [Opened 0]) @ [Filled 0])
     | ToolCallDelta i c n a \<Rightarrow>
         (if i \<in> set (as_tool_blocks_open s) then [] else [Opened i]) @ (if a = [] then [] else [Filled i])
     | _ \<Rightarrow> [])"
  using assms by (cases e) (auto simp: marks_def usize_items_def)

lemma marks_Nil [simp]: "marks [] = []"
  by (simp add: marks_def)

lemma block_run_stops:
  assumes "distinct is" and "set is \<subseteq> opn"
  shows "block_run (map Closed is) (opn, used) = Some (opn - set is, used)"
  using assms
proof (induction "is" arbitrary: opn)
  case (Cons i "is")
  then have "opn - {i} - set is = opn - set (i # is)" and "set is \<subseteq> opn - {i}" by auto
  with Cons show ?case by simp
qed simp

lemma block_step_inv:
  assumes inv: "block_inv items seen out s" and "\<not> ss_finished s" and "ss_pending s = []"
    and "ss_items s = Inr e # rest" and "\<not> is_finish e" and "usize_items items"
    and apart: "\<not> (has_text items \<and> has_tool 0 items)"
  shows "block_inv items (seen @ [Inr e])
     (out @ map (anthropic_present env) (ss_pending (push_anthropic_event env e (s\<lparr>ss_items := rest\<rparr>))))
     ((push_anthropic_event env e (s\<lparr>ss_items := rest\<rparr>))\<lparr>ss_pending := []\<rparr>)"
proof -
  let ?s = "s\<lparr>ss_items := rest\<rparr>"
  define s' where "s' = push_anthropic_event env e ?s"
  have e: "Inr e \<in> set items" using inv assms(4) by (auto simp: block_inv_def)
  with assms(6) have "usize_items [Inr e]" by (auto simp: usize_items_def)
  define fs where "fs = new_frames e ?s"
  note marks = marks_new_frames [OF \<open>usize_items [Inr e]\<close> assms(5), of ?s, folded fs_def]
  have items: "ss_items s' = rest"
    using anthropic_machine.items_kept [of env "Some (Inr e)" ?s] by (simp add: s'_def)
  have fin: "\<not> ss_finished s'" and textb: "as_text_block_open s' = (as_text_block_open s \<or> (\<exists>t. e = TextDelta t \<and> t \<noteq> []))"
    and tools: "as_tool_blocks_open s' = (case e of ToolCallDelta i c n a \<Rightarrow>
            (if i \<in> set (as_tool_blocks_open s) then as_tool_blocks_open s
             else bs_insert i (as_tool_blocks_open s))
          | _ \<Rightarrow> as_tool_blocks_open s)"
    unfolding s'_def push_event_adds [OF assms(5)] using assms(2) by (simp_all split: provider_stream_event.split)
  have frames: "map (anthropic_present env) (ss_pending s') = fs"
    unfolding fs_def s'_def push_event_adds [OF assms(5)] using assms(3) by simp
  show ?thesis
    unfolding s'_def [symmetric] frames
  proof (cases e)
    case (TextDelta t)
    then have has: "t \<noteq> [] \<Longrightarrow> has_text items" using e by (auto simp: has_text_def)
    with apart inv have "t \<noteq> [] \<Longrightarrow> 0 \<notin> set (as_tool_blocks_open s)"
      by (auto simp: block_inv_def)
    with inv assms(2,4) TextDelta has show "block_inv items (seen @ [Inr e]) (out @ fs) (s'\<lparr>ss_pending := []\<rparr>)"
      by (auto simp: block_inv_def textb tools fin marks items open_blocks_def block_run_append)
  next
    case (ToolCallDelta i c n a)
    then have has: "has_tool i items" using e by (auto simp: has_tool_def)
    with apart inv have "as_text_block_open s \<Longrightarrow> i \<noteq> 0"
      by (cases "i = 0") (auto simp: block_inv_def)
    with inv assms(2,4) ToolCallDelta has sorted_bs_insert [of "as_tool_blocks_open s" i]
    show "block_inv items (seen @ [Inr e]) (out @ fs) (s'\<lparr>ss_pending := []\<rparr>)"
      by (auto simp: block_inv_def textb tools fin marks items open_blocks_def block_run_append strict_sorted_iff)
  qed (use inv assms(2,4,5) in \<open>auto simp: block_inv_def textb tools fin marks items open_blocks_def\<close>)
qed

lemma marks_stops:
  assumes "\<forall>i \<in> set (as_tool_blocks_open s). i < 2 ^ 64"
  shows "marks (block_stops s @ [f, message_stop_event])
    = (if as_text_block_open s then [Closed 0] else []) @ map Closed (as_tool_blocks_open s) @ marks [f]"
proof -
  have "marks (map anthropic_content_block_stop_event is) = map Closed is" if "\<forall>i \<in> set is. i < 2 ^ 64" for "is"
    using that by (induction "is") (simp_all add: marks_def)
  moreover have "marks [anthropic_content_block_stop_event 0] = [Closed 0]" by (simp add: marks_def)
  ultimately show ?thesis
    using assms by (simp add: block_stops_def) (simp add: marks_def split: option.split)
qed

lemma block_end_inv:
  assumes inv: "block_inv items seen out s" and "\<not> ss_finished s" and "ss_pending s = []"
    and s1: "s1 = s\<lparr>ss_items := ss_items s1\<rparr>" "seen' @ ss_items s1 = items"
    and ends: "ends_with_frame f s1 s'" and f: "f \<in> range anthropic_message_delta_event \<union> range anthropic_error_event"
    and usize: "usize_items items" and apart: "\<not> (has_text items \<and> has_tool 0 items)"
  shows "block_inv items seen' (out @ map (anthropic_present env) (ss_pending s')) (s'\<lparr>ss_pending := []\<rparr>)"
proof -
  have same: "ss_pending s1 = []" "block_stops s1 = block_stops s"
    using assms(3) by (subst s1(1); simp add: block_stops_def)+
  have pending: "map (anthropic_present env) (ss_pending s') = block_stops s @ [f, message_stop_event]"
    using ends f frames_no_placeholder by (auto simp: ends_with_frame_def same)
  have "\<forall>i \<in> set (as_tool_blocks_open s). i < 2 ^ 64"
    using inv usize by (auto simp: block_inv_def has_tool_def usize_items_def)
  then have marks: "marks (block_stops s @ [f, message_stop_event])
      = (if as_text_block_open s then [Closed 0] else []) @ map Closed (as_tool_blocks_open s)"
    using marks_stops [of s f] f by (auto simp: marks_def)
  have "block_run (marks (block_stops s @ [f, message_stop_event])) (open_blocks s, used) = Some ({}, used)" for used
  proof (cases "as_text_block_open s")
    case True
    then have "0 \<notin> set (as_tool_blocks_open s)" using inv apart by (auto simp: block_inv_def)
    with True inv block_run_stops [of "as_tool_blocks_open s" "open_blocks s - {0}"] show ?thesis
      unfolding marks by (auto simp: open_blocks_def block_inv_def)
  next
    case False
    with inv block_run_stops [of "as_tool_blocks_open s" "open_blocks s"] show ?thesis
      unfolding marks by (auto simp: open_blocks_def block_inv_def)
  qed
  with inv assms(2) have "block_run (marks (out @ block_stops s @ [f, message_stop_event])) ({}, {}) = Some ({}, open_blocks s)"
    by (simp add: block_inv_def block_run_append del: marks_append) (simp only: marks_append block_run_append bind.bind_lunit)
  with inv ends s1(2) show ?thesis
    unfolding pending by (simp add: block_inv_def ends_with_frame_def)
qed

lemma anthropic_blocks_ok:
  assumes "usize_items items" and "\<not> (has_text items \<and> has_tool 0 items)"
  shows "\<exists>fs t used. anthropic_stream env items = Some (fs, t) \<and> block_run (marks fs) ({}, {}) = Some ({}, used)"
proof -
  have "\<exists>fs t seen. anthropic_stream env items = Some (fs, t) \<and> block_inv items seen fs t \<and> ss_finished t
      \<and> seen @ ss_items t = items"
  proof (rule anthropic_body_rule)
    show "block_inv items [] [anthropic_message_start_event (se_id env) (se_model env)]
        ((anthropic_start items)\<lparr>ss_pending := []\<rparr>)"
      by (simp add: block_inv_def anthropic_start_def open_blocks_def) (simp add: marks_def)
  next
    fix seen out s s1 s' seen' f
    assume inv: "block_inv items seen out s" and s: "\<not> ss_finished s" "ss_pending s = []"
      and "s1 = s\<lparr>ss_items := ss_items s1\<rparr>" "seen' @ ss_items s1 = seen @ ss_items s"
      and "ends_with_frame f s1 s'" "f \<in> range anthropic_message_delta_event \<union> range anthropic_error_event"
    moreover from inv have "seen @ ss_items s = items" by (simp add: block_inv_def)
    ultimately show "block_inv items seen' (out @ map (anthropic_present env) (ss_pending s')) (s'\<lparr>ss_pending := []\<rparr>)"
      using block_end_inv [OF inv s _ _ _ _ assms] by simp
  qed (rule block_step_inv [OF _ _ _ _ _ assms])
  then show ?thesis
    by (auto simp: block_inv_def)
qed

text \<open>A text and then a tool call of index 0: the block 0 is opened a second time while it is open.\<close>

definition clash_inv :: "(provider_error + provider_stream_event) list
     \<Rightarrow> (provider_error + provider_stream_event) list \<Rightarrow> sse_frame list \<Rightarrow> anthropic_state \<Rightarrow> bool" where
  "clash_inv items seen out s \<longleftrightarrow>
     seen @ ss_items s = items \<and> (length seen < 2 \<longrightarrow> \<not> ss_finished s)
     \<and> (seen = [] \<longrightarrow> marks out = [] \<and> \<not> as_text_block_open s \<and> as_tool_blocks_open s = [])
     \<and> (length seen = 1 \<longrightarrow> marks out = [Opened 0, Filled 0] \<and> as_tool_blocks_open s = [])
     \<and> (2 \<le> length seen \<longrightarrow> (\<exists>ms. marks out = [Opened 0, Filled 0, Opened 0] @ ms))"

lemma clash_step:
  assumes items: "items = Inr (TextDelta t) # Inr (ToolCallDelta 0 c n a) # rest'" and "t \<noteq> []"
    and inv: "clash_inv items seen out s" and "\<not> ss_finished s" and "ss_pending s = []"
    and "ss_items s = Inr e # rest" and "\<not> is_finish e"
  shows "clash_inv items (seen @ [Inr e])
     (out @ map (anthropic_present env) (ss_pending (push_anthropic_event env e (s\<lparr>ss_items := rest\<rparr>))))
     ((push_anthropic_event env e (s\<lparr>ss_items := rest\<rparr>))\<lparr>ss_pending := []\<rparr>)"
proof -
  let ?s = "s\<lparr>ss_items := rest\<rparr>"
  define s' where "s' = push_anthropic_event env e ?s"
  have s': "ss_items s' = rest" "\<not> ss_finished s'"
    using anthropic_machine.items_kept [of env "Some (Inr e)" ?s] assms(4)
    by (simp_all add: s'_def push_event_adds [OF assms(7)] del: push_anthropic_event.simps)
  have frames: "map (anthropic_present env) (ss_pending s') = new_frames e ?s"
    unfolding s'_def push_event_adds [OF assms(7)] using assms(5) by simp
  have seen: "seen @ Inr e # rest = items" using inv assms(6) by (simp add: clash_inv_def)
  consider "seen = []" | "length seen = 1" | "2 \<le> length seen" by (cases seen) (auto simp: Suc_le_eq)
  then show ?thesis
    unfolding s'_def [symmetric] frames
  proof cases
    case 1
    then have "e = TextDelta t" using seen items by simp
    then have "as_tool_blocks_open s' = as_tool_blocks_open s"
      using assms(2) by (simp add: s'_def open_text_block_def push_frame_def)
    with 1 \<open>e = TextDelta t\<close> inv assms(2) s' seen
    show "clash_inv items (seen @ [Inr e]) (out @ new_frames e ?s) (s'\<lparr>ss_pending := []\<rparr>)"
      by (simp add: clash_inv_def) (simp add: marks_def)
  next
    case 2
    then obtain x where "seen = [x]" by (cases seen) auto
    then have "e = ToolCallDelta 0 c n a" using seen items by simp
    with 2 inv s' seen
    show "clash_inv items (seen @ [Inr e]) (out @ new_frames e ?s) (s'\<lparr>ss_pending := []\<rparr>)"
      by (auto simp: clash_inv_def) (simp_all add: marks_def)
  next
    case 3
    with inv s' seen
    show "clash_inv items (seen @ [Inr e]) (out @ new_frames e ?s) (s'\<lparr>ss_pending := []\<rparr>)"
      by (auto simp: clash_inv_def)
  qed
qed

lemma anthropic_blocks_clash:
  assumes items: "items = Inr (TextDelta t) # Inr (ToolCallDelta 0 c n a) # rest" and "t \<noteq> []"
  shows "\<exists>fs s ms. anthropic_stream env items = Some (fs, s) \<and> marks fs = [Opened 0, Filled 0, Opened 0] @ ms"
proof -
  have "\<exists>fs s seen. anthropic_stream env items = Some (fs, s) \<and> clash_inv items seen fs s \<and> ss_finished s
      \<and> seen @ ss_items s = items"
  proof (rule anthropic_body_rule)
    show "clash_inv items [] [anthropic_message_start_event (se_id env) (se_model env)]
        ((anthropic_start items)\<lparr>ss_pending := []\<rparr>)"
      by (simp add: clash_inv_def anthropic_start_def) (simp add: marks_def)
  next
    fix seen out s s1 s' seen' f
    assume inv: "clash_inv items seen out s" and s: "\<not> ss_finished s" "ss_pending s = []"
      and seen': "seen' = seen \<and> ss_items s = [] \<or> (\<exists>i. seen' = seen @ [i] \<and> is_final i \<and> ss_items s = i # ss_items s1)"
      and "s1 = s\<lparr>ss_items := ss_items s1\<rparr>" and same: "seen' @ ss_items s1 = seen @ ss_items s"
      and ends: "ends_with_frame f s1 s'"
    have all: "seen @ ss_items s = items" using inv by (simp add: clash_inv_def)
    have "2 \<le> length seen"
    proof (rule ccontr)
      assume "\<not> 2 \<le> length seen"
      then have "seen = [] \<or> (\<exists>x. seen = [x])" by (cases seen) (auto simp: Suc_le_eq)
      with all seen' items show False by (auto simp: is_final_def)
    qed
    with inv seen' same all ends show "clash_inv items seen' (out @ map (anthropic_present env) (ss_pending s')) (s'\<lparr>ss_pending := []\<rparr>)"
      by (auto simp: clash_inv_def ends_with_frame_def)
  qed (rule clash_step [OF assms])
  then obtain fs s seen where "anthropic_stream env items = Some (fs, s)" "clash_inv items seen fs s" "ss_finished s"
    by blast
  then show ?thesis
    by (cases "length seen < 2") (auto simp: clash_inv_def)
qed

end
