(* ===== verification/Api_Tool_Items.thy ===== *)
theory Api_Tool_Items
  imports Api_Types
begin

text \<open>
  \<^verbatim>\<open>api-server/src/lib.rs\<close>: the items of the Responses interface. A call to a tool the client did not
  offer is translated to the shell tool it did offer, and a call is shown in the shape of the tool's
  kind. The printer of \<^verbatim>\<open>serde_json\<close> and the hash are parameters.
\<close>

record responses_execution =
  re_response_id :: ustr
  re_created_at :: u64
  re_tenant_id :: ustr
  re_request_model :: ustr
  re_previous_response_id :: "ustr option"
  re_store :: bool
  re_background :: bool
  re_metadata :: json
  re_tools :: "json list"
  re_tool_choice :: json
  re_tool_kinds :: "(ustr, ustr) btree"
  re_parallel_tool_calls :: bool
  re_instructions :: json
  re_input_items :: "json list"
  re_conversation_messages :: "openai_message list"
  re_chat_request :: openai_chat_request

section \<open>Calls to tools that were not offered\<close>

definition argument_string :: "json \<Rightarrow> string list \<Rightarrow> ustr option" where
  "argument_string arguments keys =
     find_map (\<lambda>k. Option.bind (json_get (str k) arguments) json_as_str) keys"

definition canonical_tool_alias :: "ustr \<Rightarrow> ustr" where
  "canonical_tool_alias name = map to_ascii_lowercase (filter is_ascii_alphanumeric name)"

text \<open>\<^verbatim>\<open>value.replace('\'', "'\"'\"'")\<close> between single quotes.\<close>

definition escape_quotes :: "ustr \<Rightarrow> ustr" where
  "escape_quotes v = concat (map (\<lambda>c. if c = 39 then [39, 34, 39, 34, 39] else [c]) v)"

definition shell_quote :: "ustr \<Rightarrow> ustr" where
  "shell_quote v = (if v = [] then [39, 39] else 39 # escape_quotes v @ [39])"

definition available_shell_exec_tool_name :: "responses_execution \<Rightarrow> ustr option" where
  "available_shell_exec_tool_name x =
     find (\<lambda>name. bt_contains (re_tool_kinds x) name) (map str [''exec_command'', ''local_shell'', ''shell''])"

definition or_dot :: "ustr option \<Rightarrow> ustr" where
  "or_dot v = (case v of Some p \<Rightarrow> p | None \<Rightarrow> str ''.'')"

definition read_command :: "json \<Rightarrow> ustr option" where
  "read_command arguments =
     map_option (\<lambda>path. str ''cat -- '' @ shell_quote path)
       (argument_string arguments [''path'', ''file_path'', ''filepath'', ''filename''])"

definition list_command :: "json \<Rightarrow> ustr" where
  "list_command arguments =
     str ''ls -la -- '' @ shell_quote (or_dot (argument_string arguments [''path'', ''directory'', ''dir'']))"

definition search_command :: "json \<Rightarrow> ustr option" where
  "search_command arguments =
     map_option (\<lambda>pattern. str ''rg --line-number --hidden --glob '' @ shell_quote (str ''!.git'') @ str '' -- ''
          @ shell_quote pattern @ str '' ''
          @ shell_quote (or_dot (argument_string arguments [''path'', ''directory'', ''dir''])))
       (argument_string arguments [''pattern'', ''query'', ''regex''])"

definition adapted_command :: "ustr \<Rightarrow> json \<Rightarrow> ustr option" where
  "adapted_command alias arguments =
     (if alias \<in> str ` {''readfile'', ''readtextfile'', ''openfile'', ''getfilecontents''}
      then read_command arguments
      else if alias \<in> str ` {''listfiles'', ''listdirectory'', ''listdir''}
      then Some (list_command arguments)
      else if alias \<in> str ` {''searchfiles'', ''searchfilecontents'', ''grepfiles''}
      then search_command arguments
      else None)"

definition adapt_unknown_tool_call :: "responses_execution \<Rightarrow> ustr \<Rightarrow> json \<Rightarrow> (ustr \<times> json) option" where
  "adapt_unknown_tool_call x tool_name arguments =
     Option.bind (available_shell_exec_tool_name x) (\<lambda>exec.
     map_option (\<lambda>command. (exec, json_object [(str ''cmd'', JString command)]))
       (adapted_command (canonical_tool_alias tool_name) arguments))"

definition normalize_tool_call ::
  "(json \<Rightarrow> ustr) \<Rightarrow> (ustr \<Rightarrow> ustr) \<Rightarrow> responses_execution \<Rightarrow> tool_call_record \<Rightarrow> tool_call_record" where
  "normalize_tool_call json_text sha x call =
     (if bt_contains (re_tool_kinds x) (tc_tool_name call) then call
      else case adapt_unknown_tool_call x (tc_tool_name call) (tc_arguments_json call) of
             None \<Rightarrow> call
           | Some (tool_name, arguments) \<Rightarrow>
               call\<lparr>tc_tool_name := tool_name, tc_arguments_sha256 := sha (json_text arguments),
                    tc_arguments_json := arguments\<rparr>)"

section \<open>Items\<close>

definition get_or :: "string \<Rightarrow> json \<Rightarrow> json \<Rightarrow> json" where
  "get_or k dflt v = (case json_get (str k) v of Some x \<Rightarrow> x | None \<Rightarrow> dflt)"

definition command_array_from_arguments :: "json \<Rightarrow> json" where
  "command_array_from_arguments arguments =
     (let array = (\<lambda>k. Option.bind (json_get (str k) arguments) json_as_array);
          string = (\<lambda>k. Option.bind (json_get (str k) arguments) json_as_str);
          shell = (\<lambda>c. JArray [JString (str ''sh''), JString (str ''-lc''), JString c])
      in case array ''command'' of
           Some command \<Rightarrow> JArray command
         | None \<Rightarrow> (case array ''commands'' of
             Some commands \<Rightarrow> JArray commands
           | None \<Rightarrow> (case string ''cmd'' of
               Some cmd \<Rightarrow> shell cmd
             | None \<Rightarrow> (case string ''command'' of Some command \<Rightarrow> shell command | None \<Rightarrow> JArray []))))"

definition local_shell_action_from_arguments :: "json \<Rightarrow> json" where
  "local_shell_action_from_arguments arguments =
     (case json_get (str ''action'') arguments of
        Some action \<Rightarrow> action
      | None \<Rightarrow> json_object
          [(str ''type'', JString (str ''exec'')), (str ''command'', command_array_from_arguments arguments),
           (str ''env'', get_or ''env'' (json_object []) arguments),
           (str ''working_directory'', get_or ''working_directory'' JNull arguments),
           (str ''timeout_ms'', get_or ''timeout_ms'' JNull arguments)])"

definition shell_action_from_arguments :: "json \<Rightarrow> json" where
  "shell_action_from_arguments arguments =
     (case json_get (str ''action'') arguments of
        Some action \<Rightarrow> action
      | None \<Rightarrow> json_object
          [(str ''commands'', command_array_from_arguments arguments),
           (str ''timeout_ms'', get_or ''timeout_ms'' JNull arguments),
           (str ''max_output_length'', get_or ''max_output_length'' JNull arguments)])"

definition str_or_empty :: "json option \<Rightarrow> json" where
  "str_or_empty v = JString (case Option.bind v json_as_str of Some s \<Rightarrow> s | None \<Rightarrow> [])"

definition apply_patch_operation_from_arguments :: "json \<Rightarrow> json" where
  "apply_patch_operation_from_arguments arguments =
     (case json_get (str ''operation'') arguments of
        Some operation \<Rightarrow> operation
      | None \<Rightarrow> json_object
          [(str ''type'', JString (str ''update_file'')),
           (str ''path'', str_or_empty (json_get (str ''path'') arguments)),
           (str ''diff'', str_or_empty (or_else (json_get (str ''patch'') arguments) (json_get (str ''diff'') arguments)))])"

definition custom_tool_input_from_arguments :: "(json \<Rightarrow> ustr) \<Rightarrow> json \<Rightarrow> ustr" where
  "custom_tool_input_from_arguments json_text arguments =
     (case Option.bind (json_get (str ''input'') arguments) json_as_str of
        Some s \<Rightarrow> s | None \<Rightarrow> json_text arguments)"

definition openai_response_message_item :: "ustr \<Rightarrow> ustr \<Rightarrow> ustr \<Rightarrow> json" where
  "openai_response_message_item item_id t status = json_object
     [(str ''id'', JString item_id), (str ''type'', JString (str ''message'')), (str ''status'', JString status),
      (str ''role'', JString (str ''assistant'')),
      (str ''content'', JArray [json_object
         [(str ''type'', JString (str ''output_text'')), (str ''text'', JString t), (str ''annotations'', JArray [])]])]"

definition tool_kind :: "responses_execution \<Rightarrow> ustr \<Rightarrow> ustr" where
  "tool_kind x name = (case bt_get (re_tool_kinds x) name of Some k \<Rightarrow> k | None \<Rightarrow> str ''function'')"

definition call_item :: "string \<Rightarrow> string \<Rightarrow> tool_call_record \<Rightarrow> (ustr \<times> json) list \<Rightarrow> json" where
  "call_item prefix kind call parts = json_object
     ([(str ''id'', JString (str prefix @ tc_tool_call_id call)), (str ''type'', JString (str kind)),
       (str ''call_id'', JString (tc_tool_call_id call)), (str ''status'', JString (str ''completed''))] @ parts)"

definition openai_response_tool_call_item ::
  "(json \<Rightarrow> ustr) \<Rightarrow> responses_execution \<Rightarrow> tool_call_record \<Rightarrow> json" where
  "openai_response_tool_call_item json_text x call =
     (let kind = tool_kind x (tc_tool_name call); arguments = tc_arguments_json call
      in if kind = str ''local_shell'' then
           call_item ''ls_'' ''local_shell_call'' call
             [(str ''action'', local_shell_action_from_arguments arguments)]
         else if kind = str ''shell'' then
           call_item ''sh_'' ''shell_call'' call [(str ''action'', shell_action_from_arguments arguments)]
         else if kind = str ''apply_patch'' then
           call_item ''ap_'' ''apply_patch_call'' call
             [(str ''operation'', apply_patch_operation_from_arguments arguments)]
         else if kind = str ''custom'' then
           call_item ''ct_'' ''custom_tool_call'' call
             [(str ''name'', JString (tc_tool_name call)),
              (str ''input'', JString (custom_tool_input_from_arguments json_text arguments))]
         else
           call_item ''fc_'' ''function_call'' call
             [(str ''name'', JString (tc_tool_name call)), (str ''arguments'', JString (json_text arguments))])"

section \<open>The response object\<close>

definition null_or :: "json \<Rightarrow> json \<Rightarrow> json" where
  "null_or dflt v = (if v = JNull then dflt else v)"

definition extra_or_null :: "responses_execution \<Rightarrow> string \<Rightarrow> json" where
  "extra_or_null x k = (case bt_get (oc_extra (re_chat_request x)) (str k) of Some v \<Rightarrow> v | None \<Rightarrow> JNull)"

definition response_value_with_status ::
  "responses_execution \<Rightarrow> ustr \<Rightarrow> json list \<Rightarrow> ustr \<Rightarrow> json \<Rightarrow> ustr \<Rightarrow> ustr option \<Rightarrow> json" where
  "response_value_with_status x model output output_text usage status incomplete_reason = json_object
     [(str ''id'', JString (re_response_id x)), (str ''object'', JString (str ''response'')),
      (str ''created_at'', json_u64 (re_created_at x)), (str ''status'', JString status),
      (str ''background'', JBool (re_background x)), (str ''error'', JNull),
      (str ''incomplete_details'', json_option (\<lambda>r. json_object [(str ''reason'', JString r)]) incomplete_reason),
      (str ''instructions'', null_or JNull (re_instructions x)), (str ''metadata'', re_metadata x),
      (str ''model'', JString model), (str ''output'', JArray output), (str ''output_text'', JString output_text),
      (str ''parallel_tool_calls'', JBool (re_parallel_tool_calls x)),
      (str ''previous_response_id'', json_option JString (re_previous_response_id x)),
      (str ''store'', JBool (re_store x)), (str ''temperature'', extra_or_null x ''temperature''),
      (str ''tool_choice'', null_or (JString (str ''auto'')) (re_tool_choice x)),
      (str ''tools'', JArray (re_tools x)), (str ''top_p'', extra_or_null x ''top_p''),
      (str ''truncation'', JString (str ''disabled'')), (str ''usage'', usage)]"

definition openai_response_value ::
  "responses_execution \<Rightarrow> ustr \<Rightarrow> json list \<Rightarrow> ustr \<Rightarrow> json \<Rightarrow> json" where
  "openai_response_value x model output output_text usage =
     response_value_with_status x model output output_text usage (str ''completed'') None"

definition openai_responses_usage_json :: "provider_usage \<Rightarrow> json" where
  "openai_responses_usage_json usage = json_object
     [(str ''input_tokens'', json_u64 (ucast (pu_input_tokens usage))),
      (str ''input_tokens_details'', json_object [(str ''cached_tokens'', json_u64 0)]),
      (str ''output_tokens'', json_u64 (ucast (pu_output_tokens usage))),
      (str ''output_tokens_details'', json_object [(str ''reasoning_tokens'', json_u64 0)]),
      (str ''total_tokens'', json_u64 (ucast (sat_add (pu_input_tokens usage) (pu_output_tokens usage))))]"

definition openai_text_message :: "string \<Rightarrow> ustr \<Rightarrow> openai_message" where
  "openai_text_message role t =
     \<lparr>om_role = str role, om_content = Some (ContentText t), om_tool_calls = [], om_function_call = None,
      om_tool_call_id = None, om_name = None\<rparr>"

definition message_tool_call_from_record :: "tool_call_record \<Rightarrow> openai_message_tool_call" where
  "message_tool_call_from_record call =
     \<lparr>otc_id = tc_tool_call_id call, otc_type = str ''function'',
      otc_function = \<lparr>cf_name = tc_tool_name call, cf_arguments = tc_arguments_json call\<rparr>\<rparr>"

end
