(* ===== verification/Api_Tool_Facts.thy ===== *)
theory Api_Tool_Facts
  imports Api_Tool_Items
begin

text \<open>
  The commands an unknown tool is translated to, as a POSIX shell reads them: \<open>shell_words\<close> splits a
  simple command into its words, with single quotes (everything literal) and double quotes (literal up
  to \<^verbatim>\<open>$\<close>, the backquote and the backslash); a character with another meaning to the shell is refused.
  A path or a pattern of the client is always one word of its own, after the mark of the end of the
  options.
\<close>

datatype quoting = Bare | InSingle | InDouble

definition plain_char :: "nat \<Rightarrow> bool" where
  "plain_char c \<longleftrightarrow> is_ascii_alphanumeric c \<or> c \<in> set (str ''-_./'')"

definition double_literal :: "nat \<Rightarrow> bool" where
  "double_literal c \<longleftrightarrow> c \<noteq> 36 \<and> c \<noteq> 92 \<and> c \<noteq> 96"

definition finish_word :: "ustr option \<Rightarrow> ustr list \<Rightarrow> ustr list" where
  "finish_word w rest = (case w of Some v \<Rightarrow> v # rest | None \<Rightarrow> rest)"

definition grow_word :: "ustr option \<Rightarrow> ustr \<Rightarrow> ustr option" where
  "grow_word w v = Some ((case w of Some u \<Rightarrow> u | None \<Rightarrow> []) @ v)"

fun shell_scan :: "quoting \<Rightarrow> ustr option \<Rightarrow> ustr \<Rightarrow> ustr list option" where
  "shell_scan Bare w [] = Some (finish_word w [])"
| "shell_scan InSingle w [] = None"
| "shell_scan InDouble w [] = None"
| "shell_scan Bare w (c # s) =
     (if c = 32 then map_option (finish_word w) (shell_scan Bare None s)
      else if c = 39 then shell_scan InSingle (grow_word w []) s
      else if c = 34 then shell_scan InDouble (grow_word w []) s
      else if plain_char c then shell_scan Bare (grow_word w [c]) s
      else None)"
| "shell_scan InSingle w (c # s) =
     (if c = 39 then shell_scan Bare w s else shell_scan InSingle (grow_word w [c]) s)"
| "shell_scan InDouble w (c # s) =
     (if c = 34 then shell_scan Bare w s
      else if double_literal c then shell_scan InDouble (grow_word w [c]) s else None)"

definition shell_words :: "ustr \<Rightarrow> ustr list option" where
  "shell_words s = shell_scan Bare None s"

lemma grow_word_simps [simp]:
  "grow_word (Some u) v = Some (u @ v)" "grow_word None v = Some v"
  by (simp_all add: grow_word_def)

lemma finish_word_Some [simp]: "finish_word (Some v) = (#) v"
  by (simp add: finish_word_def fun_eq_iff)

lemma scan_escaped: "shell_scan InSingle (Some u) (escape_quotes v @ 39 # rest) = shell_scan Bare (Some (u @ v)) rest"
proof (induction v arbitrary: u)
  case (Cons c v)
  then show ?case
    using Cons.IH [of "u @ [c]"] by (cases "c = 39") (simp_all add: escape_quotes_def double_literal_def)
qed (simp add: escape_quotes_def)

lemma scan_quoted: "shell_scan Bare None (shell_quote v @ rest) = shell_scan Bare (Some v) rest"
  using scan_escaped [of "[]" v rest] by (simp add: shell_quote_def)

lemma scan_word:
  "list_all plain_char s \<Longrightarrow> shell_scan Bare (Some u) (s @ 32 # rest) = map_option ((#) (u @ s)) (shell_scan Bare None rest)"
proof (induction s arbitrary: u)
  case (Cons c s)
  then have "c \<noteq> 32 \<and> c \<noteq> 39 \<and> c \<noteq> 34" by (auto simp: plain_char_def char_class_defs str_def)
  with Cons show ?case by simp
qed simp

lemma scan_first_word:
  assumes "list_all plain_char s" and "s \<noteq> []"
  shows "shell_scan Bare None (s @ 32 # rest) = map_option ((#) s) (shell_scan Bare None rest)"
proof -
  from assms obtain c s' where s: "s = c # s'" by (cases s) auto
  with assms(1) have "c \<noteq> 32 \<and> c \<noteq> 39 \<and> c \<noteq> 34" by (auto simp: plain_char_def char_class_defs str_def)
  with assms s scan_word [of s' "[c]" rest] show ?thesis by simp
qed

text \<open>A command is a list of bare words followed by quoted ones.\<close>

lemma shell_words_quoted: "shell_words (shell_quote v) = Some [v]"
  using scan_quoted [of v "[]"] by (simp add: shell_words_def)

lemma shell_words_quoted_Cons: "shell_words (shell_quote v @ 32 # rest) = map_option ((#) v) (shell_words rest)"
  using scan_quoted [of v "32 # rest"] by (simp add: shell_words_def)

lemma shell_words_bare_Cons:
  "list_all plain_char s \<Longrightarrow> s \<noteq> [] \<Longrightarrow> shell_words (s @ 32 # rest) = map_option ((#) s) (shell_words rest)"
  by (simp add: shell_words_def scan_first_word)

lemma command_text:
  "str ''cat -- '' @ x = str ''cat'' @ 32 # str ''--'' @ 32 # x"
  "str ''ls -la -- '' @ x = str ''ls'' @ 32 # str ''-la'' @ 32 # str ''--'' @ 32 # x"
  "str ''rg --line-number --hidden --glob '' @ x
     = str ''rg'' @ 32 # str ''--line-number'' @ 32 # str ''--hidden'' @ 32 # str ''--glob'' @ 32 # x"
  "str '' -- '' @ x = 32 # str ''--'' @ 32 # x" "str '' '' @ x = 32 # x"
  by (simp_all add: str_def)

lemma command_words:
  "list_all plain_char (str ''cat'')" "list_all plain_char (str ''--'')" "list_all plain_char (str ''ls'')"
  "list_all plain_char (str ''-la'')" "list_all plain_char (str ''rg'')" "list_all plain_char (str ''--line-number'')"
  "list_all plain_char (str ''--hidden'')" "list_all plain_char (str ''--glob'')"
  by (simp_all add: str_def plain_char_def char_class_defs)

lemmas shell_command_simps = command_text shell_words_bare_Cons [OF command_words(1)]
  shell_words_bare_Cons [OF command_words(2)] shell_words_bare_Cons [OF command_words(3)]
  shell_words_bare_Cons [OF command_words(4)] shell_words_bare_Cons [OF command_words(5)]
  shell_words_bare_Cons [OF command_words(6)] shell_words_bare_Cons [OF command_words(7)]
  shell_words_bare_Cons [OF command_words(8)] shell_words_quoted shell_words_quoted_Cons

lemma read_command_words:
  "read_command arguments = Some cmd \<Longrightarrow>
   \<exists>path. argument_string arguments [''path'', ''file_path'', ''filepath'', ''filename''] = Some path
     \<and> shell_words cmd = Some [str ''cat'', str ''--'', path]"
  by (auto simp: read_command_def shell_command_simps)

lemma list_command_words:
  "shell_words (list_command arguments)
     = Some [str ''ls'', str ''-la'', str ''--'', or_dot (argument_string arguments [''path'', ''directory'', ''dir''])]"
  by (simp add: list_command_def shell_command_simps)

lemma search_command_words:
  "search_command arguments = Some cmd \<Longrightarrow>
   \<exists>pattern. argument_string arguments [''pattern'', ''query'', ''regex''] = Some pattern
     \<and> shell_words cmd = Some [str ''rg'', str ''--line-number'', str ''--hidden'', str ''--glob'', str ''!.git'',
          str ''--'', pattern, or_dot (argument_string arguments [''path'', ''directory'', ''dir''])]"
  by (auto simp: search_command_def shell_command_simps)

lemma adapted_command_words:
  assumes "adapted_command alias arguments = Some cmd"
  shows "\<exists>program options operands. shell_words cmd = Some (program # options @ str ''--'' # operands)
     \<and> (program, options) \<in> {(str ''cat'', []), (str ''ls'', [str ''-la'']),
          (str ''rg'', [str ''--line-number'', str ''--hidden'', str ''--glob'', str ''!.git''])}
     \<and> (\<forall>v \<in> set operands. v = str ''.'' \<or> (\<exists>k. json_get k arguments = Some (JString v)))"
proof -
  have given: "argument_string arguments ks = Some v \<Longrightarrow> \<exists>k. json_get k arguments = Some (JString v)" for ks v
    by (induction ks) (auto simp: argument_string_def Option.bind_eq_Some_conv split: option.splits
        elim!: json_as_str.elims)
  have dot: "or_dot (argument_string arguments ks) = str ''.'' \<or> (\<exists>k. json_get k arguments = Some (JString (or_dot (argument_string arguments ks))))" for ks
    using given [of ks] by (cases "argument_string arguments ks") (auto simp: or_dot_def)
  consider "read_command arguments = Some cmd" | "cmd = list_command arguments" | "search_command arguments = Some cmd"
    using assms unfolding adapted_command_def by (metis option.distinct(1) option.inject)
  then show ?thesis
  proof cases
    case 1
    from read_command_words [OF this] obtain path where
      "argument_string arguments [''path'', ''file_path'', ''filepath'', ''filename''] = Some path"
      "shell_words cmd = Some [str ''cat'', str ''--'', path]"
      by blast
    with given show ?thesis
      by (intro exI [of _ "str ''cat''"] exI [of _ "[]"] exI [of _ "[path]"]) simp
  next
    case 2
    let ?path = "or_dot (argument_string arguments [''path'', ''directory'', ''dir''])"
    show ?thesis
      unfolding 2 list_command_words using dot [of "[''path'', ''directory'', ''dir'']"]
      by (intro exI [of _ "str ''ls''"] exI [of _ "[str ''-la'']"] exI [of _ "[?path]"]) simp
  next
    case 3
    let ?path = "or_dot (argument_string arguments [''path'', ''directory'', ''dir''])"
    from search_command_words [OF 3] obtain pattern where
      p: "argument_string arguments [''pattern'', ''query'', ''regex''] = Some pattern" and
      w: "shell_words cmd = Some [str ''rg'', str ''--line-number'', str ''--hidden'', str ''--glob'', str ''!.git'',
          str ''--'', pattern, ?path]"
      by blast
    show ?thesis
      unfolding w using given [OF p] dot [of "[''path'', ''directory'', ''dir'']"]
      by (intro exI [of _ "str ''rg''"] exI [of _ "[str ''--line-number'', str ''--hidden'', str ''--glob'', str ''!.git'']"]
          exI [of _ "[pattern, ?path]"]) simp
  qed
qed

end
