(* ===== verification/Api_Responses_Store.thy ===== *)
theory Api_Responses_Store
  imports Api_Types Context_Runs
begin

text \<open>
  \<^verbatim>\<open>api-server/src/lib.rs\<close>: \<^verbatim>\<open>ResponsesStore\<close>, the answers kept for the Responses interface: in the
  context store, when there is one, and in a map in memory. The derived reader and printer of
  \<^verbatim>\<open>StoredOpenAiResponse\<close> are the two fields of \<open>response_codec\<close>. A poisoned lock is not modelled.
\<close>

record stored_response =
  sr_tenant_id :: ustr
  sr_id :: ustr
  sr_created_at :: u64
  sr_response :: json
  sr_conversation_messages :: "openai_message list"
  sr_input_items :: "json list"

record response_codec =
  rc_to_value :: "stored_response \<Rightarrow> ustr + json"
  rc_from_value :: "json \<Rightarrow> ustr + stored_response"

definition responses_store_namespace :: ustr where
  "responses_store_namespace = str ''openai_responses''"

definition response_store_memory_key :: "ustr \<Rightarrow> ustr \<Rightarrow> ustr" where
  "response_store_memory_key tenant response_id = tenant @ str '':'' @ response_id"

definition show_store_error :: "context_store_error \<Rightarrow> ustr" where
  "show_store_error e =
     (case e of
        SurrealKvError m \<Rightarrow> str ''surrealkv error: '' @ m
      | SerdeError m \<Rightarrow> str ''serialization error: '' @ m
      | InvalidInput m \<Rightarrow> str ''invalid context input: '' @ m)"

definition store_error_text :: "context_store_error + 'a \<Rightarrow> ustr + 'a" where
  "store_error_text r = (case r of Inl e \<Rightarrow> Inl (show_store_error e) | Inr x \<Rightarrow> Inr x)"

type_synonym 'w responses_world = "(ustr, stored_response) btree \<times> 'w"

definition responses_put ::
  "response_codec \<Rightarrow> ('w, 'b) kv_env option \<Rightarrow> stored_response \<Rightarrow> 'w responses_world
     \<Rightarrow> (ustr + unit) \<times> 'w responses_world" where
  "responses_put cd kv r s =
     (case s of (memory, w) \<Rightarrow>
       let remember = (\<lambda>w'. (Inr (), (bt_insert (response_store_memory_key (sr_tenant_id r) (sr_id r)) r memory, w')))
       in case kv of
            None \<Rightarrow> remember w
          | Some kv \<Rightarrow>
              (case rc_to_value cd r of
                 Inl e \<Rightarrow> (Inl e, (memory, w))
               | Inr v \<Rightarrow>
                   (case put_json kv responses_store_namespace (sr_tenant_id r) (sr_id r) v w of
                      (Inl e, w') \<Rightarrow> (Inl (show_store_error e), (memory, w'))
                    | (Inr _, w') \<Rightarrow> remember w')))"

definition responses_get ::
  "response_codec \<Rightarrow> ('w, 'b) kv_env option \<Rightarrow> ustr \<Rightarrow> ustr \<Rightarrow> 'w responses_world
     \<Rightarrow> ustr + stored_response option" where
  "responses_get cd kv tenant response_id s =
     ebind (case kv of
              None \<Rightarrow> Inr None
            | Some kv \<Rightarrow> store_error_text (get_json kv responses_store_namespace tenant response_id (snd s)))
       (\<lambda>v. case v of
              Some v \<Rightarrow> ebind (rc_from_value cd v) (\<lambda>r. Inr (Some r))
            | None \<Rightarrow> Inr (bt_get (fst s) (response_store_memory_key tenant response_id)))"

text \<open>Newest first, then by identifier backwards: a stable sort by the two keys.\<close>

definition newest_first_order :: "stored_response list \<Rightarrow> stored_response list" where
  "newest_first_order rs =
     sort_key (\<lambda>r. - uint (sr_created_at r)) (rev (sort_key sr_id (rev rs)))"

definition responses_list ::
  "response_codec \<Rightarrow> ('w, 'b) kv_env option \<Rightarrow> ustr \<Rightarrow> 'w responses_world \<Rightarrow> ustr + stored_response list" where
  "responses_list cd kv tenant s =
     ebind (case kv of
              Some kv \<Rightarrow>
                ebind (store_error_text (list_json kv responses_store_namespace tenant (snd s)))
                  (\<lambda>vs. collect_answers (map (rc_from_value cd) vs))
            | None \<Rightarrow> Inr (filter (\<lambda>r. sr_tenant_id r = tenant) (bt_values (fst s))))
       (\<lambda>rs. Inr (newest_first_order rs))"

definition responses_delete ::
  "('w, 'b) kv_env option \<Rightarrow> ustr \<Rightarrow> ustr \<Rightarrow> 'w responses_world \<Rightarrow> (ustr + bool) \<times> 'w responses_world" where
  "responses_delete kv tenant response_id s =
     (case s of (memory, w) \<Rightarrow>
       let key = response_store_memory_key tenant response_id;
           forget = (\<lambda>deleted w'. (Inr (deleted \<or> bt_contains memory key), (bt_remove key memory, w')))
       in case kv of
            None \<Rightarrow> forget False w
          | Some kv \<Rightarrow>
              (case delete_json kv responses_store_namespace tenant response_id w of
                 (Inl e, w') \<Rightarrow> (Inl (show_store_error e), (memory, w'))
               | (Inr deleted, w') \<Rightarrow> forget deleted w'))"

section \<open>Lemmas\<close>

lemma memory_key_inject:
  "58 \<notin> set t \<Longrightarrow> 58 \<notin> set t' \<Longrightarrow>
   response_store_memory_key t i = response_store_memory_key t' i' \<longleftrightarrow> t = t' \<and> i = i'"
  using split_at_slash [of t 58 i t' i'] by (auto simp: response_store_memory_key_def str_def)

text \<open>What is put is found again, under its tenant and identifier.\<close>

lemma responses_put_get_memory:
  assumes "responses_put cd None r s = (Inr (), s')"
  shows "responses_get cd None (sr_tenant_id r) (sr_id r) s' = Inr (Some r)"
  using assms by (auto simp: responses_put_def responses_get_def bt_get_insert split: prod.splits)

text \<open>
  A tenant identifier may contain a colon, and so may the path of a request: the keys of two tenants
  meet.
\<close>

lemma memory_key_collision:
  "response_store_memory_key (t @ str '':'' @ u) i = response_store_memory_key t (u @ str '':'' @ i)"
  by (simp add: response_store_memory_key_def)

lemma responses_leak:
  assumes "responses_put cd None r s = (Inr (), s')" and "sr_tenant_id r = t @ str '':'' @ u"
  shows "responses_get cd None t (u @ str '':'' @ sr_id r) s' = Inr (Some r)"
    and "fst (responses_delete None t (u @ str '':'' @ sr_id r) s') = Inr True"
  using assms memory_key_collision [of t u "sr_id r"]
  by (auto simp: responses_put_def responses_get_def responses_delete_def bt_get_insert bt_contains_def Let_def
      split: prod.splits)

end
