(* ===== verification/Api_Stream_Responses.thy ===== *)
theory Api_Stream_Responses
  imports Api_Sse Api_Tool_Items Api_Responses_Store
begin

text \<open>
  \<^verbatim>\<open>api-server/src/lib.rs\<close>: the stream of the Responses interface
  (\<^verbatim>\<open>format_openai_responses_provider_stream_response\<close>): numbered events that open, fill and close the
  items of a response, with the response itself at its creation and at its end, when it is stored. The
  reader and the printer of \<^verbatim>\<open>serde_json\<close>, the hash and the random identifier of the text item are
  fields of the environment.
\<close>

record pending_call =
  pc_index :: nat
  pc_id :: tool_call_id
  pc_name :: ustr
  pc_arguments :: ustr

record 'w responses_state = sse_state +
  rt_output_text :: ustr
  rt_text_item_id :: "ustr option"
  rt_tool_calls :: "(nat, pending_call) btree"
  rt_sequence :: u64
  rt_output_started :: bool
  rt_world :: "'w responses_world"

record ('w, 'b) responses_env =
  rv_stream :: stream_env
  rv_execution :: responses_execution
  rv_json_text :: "json \<Rightarrow> ustr"
  rv_json_parse :: "ustr \<Rightarrow> json option"
  rv_sha :: "ustr \<Rightarrow> ustr"
  rv_uuid :: ustr
  rv_codec :: response_codec
  rv_kv :: "('w, 'b) kv_env option"

section \<open>Calls\<close>

definition pending_call_record :: "('w, 'b) responses_env \<Rightarrow> pending_call \<Rightarrow> tool_call_record" where
  "pending_call_record env call =
     (let x = rv_execution env;
          arguments = (case rv_json_parse env (pc_arguments call) of
                         Some v \<Rightarrow> v | None \<Rightarrow> JString (pc_arguments call))
      in normalize_tool_call (rv_json_text env) (rv_sha env) x
           \<lparr>tc_tool_call_id = pc_id call,
            tc_scope = isolation_key_new (re_tenant_id x) (re_response_id x) (re_response_id x),
            tc_task_id = str ''root'', tc_agent_id = str ''agent-root'', tc_tool_name = pc_name call,
            tc_arguments_json = arguments, tc_arguments_sha256 = rv_sha env (rv_json_text env arguments),
            tc_status = Pending, tc_created_at_ms = sat_mul (re_created_at x) 1000, tc_resolved_at_ms = None\<rparr>)"

definition pending_call_item :: "('w, 'b) responses_env \<Rightarrow> pending_call \<Rightarrow> json" where
  "pending_call_item env call =
     openai_response_tool_call_item (rv_json_text env) (rv_execution env) (pending_call_record env call)"

definition response_tool_item_id :: "('w, 'b) responses_env \<Rightarrow> pending_call \<Rightarrow> ustr" where
  "response_tool_item_id env call =
     (case Option.bind (json_get (str ''id'') (pending_call_item env call)) json_as_str of
        Some i \<Rightarrow> i | None \<Rightarrow> str ''tool'')"

definition response_item_with_status :: "json \<Rightarrow> string \<Rightarrow> json" where
  "response_item_with_status item status =
     (if json_get (str ''status'') item \<noteq> None then json_set (str ''status'') (JString (str status)) item else item)"

definition messages_with_pending_calls ::
  "('w, 'b) responses_env \<Rightarrow> openai_message list \<Rightarrow> pending_call list \<Rightarrow> openai_message list" where
  "messages_with_pending_calls env messages calls =
     (if calls = [] then messages
      else messages @
        [\<lparr>om_role = str ''assistant'', om_content = None,
          om_tool_calls = map (\<lambda>c. message_tool_call_from_record (pending_call_record env c)) calls,
          om_function_call = None, om_tool_call_id = None, om_name = None\<rparr>])"

section \<open>The response so far\<close>

definition current_output :: "('w, 'b) responses_env \<Rightarrow> string \<Rightarrow> 'w responses_state \<Rightarrow> json list" where
  "current_output env status s =
     (if ss_saw_tool_delta s then map (pending_call_item env) (bt_values (rt_tool_calls s))
      else case rt_text_item_id s of
             Some item_id \<Rightarrow>
               [openai_response_message_item item_id (rt_output_text s)
                  (if status = ''completed'' then str ''completed'' else str ''in_progress'')]
           | None \<Rightarrow> [])"

definition current_response :: "('w, 'b) responses_env \<Rightarrow> string \<Rightarrow> 'w responses_state \<Rightarrow> json" where
  "current_response env status s =
     json_set (str ''status'') (JString (str status))
       (openai_response_value (rv_execution env) (re_request_model (rv_execution env))
          (current_output env status s) (rt_output_text s) (openai_responses_usage_json (ss_usage s)))"

section \<open>Events\<close>

text \<open>\<^verbatim>\<open>next_sequence\<close> and an event with the number it returns.\<close>

definition sequence_event :: "string \<Rightarrow> (ustr \<times> json) list \<Rightarrow> 'w responses_state \<Rightarrow> 'w responses_state" where
  "sequence_event name parts s =
     push_frame (typed_event name ((str ''sequence_number'', json_u64 (rt_sequence s)) # parts))
       (s\<lparr>rt_sequence := sat_add (rt_sequence s) 1\<rparr>)"

definition ensure_created :: "('w, 'b) responses_env \<Rightarrow> 'w responses_state \<Rightarrow> 'w responses_state" where
  "ensure_created env s =
     (if rt_output_started s then s
      else let s = s\<lparr>rt_output_started := True\<rparr>;
               s = sequence_event ''response.created'' [(str ''response'', current_response env ''in_progress'' s)] s
           in sequence_event ''response.in_progress'' [(str ''response'', current_response env ''in_progress'' s)] s)"

definition text_part :: "ustr \<Rightarrow> json" where
  "text_part t = json_object
     [(str ''type'', JString (str ''output_text'')), (str ''text'', JString t), (str ''annotations'', JArray [])]"

definition text_place :: "ustr \<Rightarrow> (ustr \<times> json) list" where
  "text_place item_id =
     [(str ''item_id'', JString item_id), (str ''output_index'', json_u64 0), (str ''content_index'', json_u64 0)]"

definition ensure_text_output :: "('w, 'b) responses_env \<Rightarrow> 'w responses_state \<Rightarrow> 'w responses_state" where
  "ensure_text_output env s =
     (if rt_text_item_id s \<noteq> None then s
      else let item_id = str ''msg_'' @ rv_uuid env
           in sequence_event ''response.content_part.added'' (text_place item_id @ [(str ''part'', text_part [])])
                (sequence_event ''response.output_item.added''
                   [(str ''output_index'', json_u64 0),
                    (str ''item'', openai_response_message_item item_id [] (str ''in_progress''))]
                   (s\<lparr>rt_text_item_id := Some item_id\<rparr>)))"

definition text_item_id :: "'w responses_state \<Rightarrow> ustr" where
  "text_item_id s = (case rt_text_item_id s of Some i \<Rightarrow> i | None \<Rightarrow> [])"

definition push_text_delta :: "('w, 'b) responses_env \<Rightarrow> ustr \<Rightarrow> 'w responses_state \<Rightarrow> 'w responses_state" where
  "push_text_delta env t s =
     (let s = ensure_text_output env (ensure_created env s)
      in sequence_event ''response.output_text.delta''
           (text_place (text_item_id s) @ [(str ''delta'', JString t), (str ''logprobs'', JArray [])])
           (s\<lparr>rt_output_text := rt_output_text s @ t\<rparr>))"

definition entered_call ::
  "'w responses_state \<Rightarrow> nat \<Rightarrow> tool_call_id option \<Rightarrow> ustr option \<Rightarrow> pending_call" where
  "entered_call s index call_id name =
     (case bt_get (rt_tool_calls s) index of
        Some call \<Rightarrow> call
      | None \<Rightarrow> \<lparr>pc_index = index,
                 pc_id = (case call_id of Some i \<Rightarrow> i | None \<Rightarrow> str ''call-'' @ show_nat index),
                 pc_name = (case name of Some n \<Rightarrow> n | None \<Rightarrow> str ''unknown''), pc_arguments = []\<rparr>)"

definition push_tool_delta ::
  "('w, 'b) responses_env \<Rightarrow> nat \<Rightarrow> tool_call_id option \<Rightarrow> ustr option \<Rightarrow> ustr
     \<Rightarrow> 'w responses_state \<Rightarrow> 'w responses_state" where
  "push_tool_delta env index call_id name arguments_delta s =
     (let s = (ensure_created env s)\<lparr>ss_saw_tool_delta := True\<rparr>;
          entered = entered_call s index call_id name;
          named = (case name of Some n \<Rightarrow> entered\<lparr>pc_name := n\<rparr> | None \<Rightarrow> entered);
          was_empty = (pc_arguments named = []);
          call = named\<lparr>pc_arguments := pc_arguments named @ arguments_delta\<rparr>;
          s = s\<lparr>rt_tool_calls := bt_insert index call (rt_tool_calls s)\<rparr>;
          s = (if was_empty
               then sequence_event ''response.output_item.added''
                      [(str ''output_index'', json_u64 (word_of_nat index)),
                       (str ''item'', response_item_with_status (pending_call_item env call) ''in_progress'')] s
               else s)
      in if arguments_delta = [] then s
         else sequence_event ''response.function_call_arguments.delta''
                [(str ''item_id'', JString (response_tool_item_id env call)),
                 (str ''output_index'', json_u64 (word_of_nat index)),
                 (str ''delta'', JString arguments_delta)] s)"

section \<open>The end\<close>

definition finish_text :: "('w, 'b) responses_env \<Rightarrow> 'w responses_state \<Rightarrow> 'w responses_state" where
  "finish_text env s =
     (let s = ensure_text_output env s; item_id = text_item_id s; t = rt_output_text s
      in sequence_event ''response.output_item.done''
           [(str ''output_index'', json_u64 0),
            (str ''item'', openai_response_message_item item_id t (str ''completed''))]
           (sequence_event ''response.content_part.done'' (text_place item_id @ [(str ''part'', text_part t)])
             (sequence_event ''response.output_text.done''
                (text_place item_id @ [(str ''text'', JString t), (str ''logprobs'', JArray [])]) s)))"

definition finish_tool_call :: "('w, 'b) responses_env \<Rightarrow> pending_call \<Rightarrow> 'w responses_state \<Rightarrow> 'w responses_state" where
  "finish_tool_call env call s =
     (let r = pending_call_record env call
      in sequence_event ''response.output_item.done''
           [(str ''output_index'', json_u64 (word_of_nat (pc_index call))), (str ''item'', pending_call_item env call)]
           (sequence_event ''response.function_call_arguments.done''
              [(str ''item_id'', JString (response_tool_item_id env call)),
               (str ''output_index'', json_u64 (word_of_nat (pc_index call))),
               (str ''name'', JString (tc_tool_name r)),
               (str ''arguments'', JString (rv_json_text env (tc_arguments_json r)))] s))"

definition finish_tool_calls :: "('w, 'b) responses_env \<Rightarrow> 'w responses_state \<Rightarrow> 'w responses_state" where
  "finish_tool_calls env s = fold (finish_tool_call env) (bt_values (rt_tool_calls s)) s"

definition stored_response_of ::
  "responses_execution \<Rightarrow> json \<Rightarrow> openai_message list \<Rightarrow> stored_response" where
  "stored_response_of x response messages =
     \<lparr>sr_tenant_id = re_tenant_id x, sr_id = re_response_id x, sr_created_at = re_created_at x,
      sr_response = response, sr_conversation_messages = messages, sr_input_items = re_input_items x\<rparr>"

definition store_openai_response ::
  "response_codec \<Rightarrow> ('w, 'b) kv_env option \<Rightarrow> responses_execution \<Rightarrow> json \<Rightarrow> openai_message list \<Rightarrow> bool
     \<Rightarrow> 'w responses_world \<Rightarrow> (ustr + unit) \<times> 'w responses_world" where
  "store_openai_response cd kv x response messages force w =
     (if \<not> force \<and> \<not> re_store x then (Inr (), w)
      else responses_put cd kv (stored_response_of x response messages) w)"

definition conversation_so_far :: "('w, 'b) responses_env \<Rightarrow> 'w responses_state \<Rightarrow> openai_message list" where
  "conversation_so_far env s =
     (let messages = re_conversation_messages (rv_execution env)
      in if ss_saw_tool_delta s then messages_with_pending_calls env messages (bt_values (rt_tool_calls s))
         else messages @ [openai_text_message ''assistant'' (rt_output_text s)])"

fun openai_responses_finish_reason :: "provider_finish_reason \<Rightarrow> ustr" where
  "openai_responses_finish_reason FinishToolCalls = str ''tool_calls''"
| "openai_responses_finish_reason FinishFunctionCall = str ''tool_calls''"
| "openai_responses_finish_reason FinishLength = str ''length''"
| "openai_responses_finish_reason _ = str ''stop''"

text \<open>The items are closed; then the response is stored, and sent.\<close>

definition finish_items :: "('w, 'b) responses_env \<Rightarrow> 'w responses_state \<Rightarrow> 'w responses_state" where
  "finish_items env s =
     (let s = ensure_created env s
      in if ss_saw_tool_delta s then finish_tool_calls env s else finish_text env s)"

definition finish_response ::
  "('w, 'b) responses_env \<Rightarrow> provider_finish_reason \<Rightarrow> 'w responses_state \<Rightarrow> 'w responses_state" where
  "finish_response env reason s0 =
     (let s = finish_items env s0;
          response = current_response env ''completed'' s;
          stored = store_openai_response (rv_codec env) (rv_kv env) (rv_execution env) response
                     (conversation_so_far env s) False (rt_world s);
          s = s\<lparr>rt_world := snd stored\<rparr>;
          s = (case fst stored of
                 Inl e \<Rightarrow> push_frame (typed_event ''error'' [(str ''message'', JString e)]) s | Inr _ \<Rightarrow> s);
          s = push_frame SseDone (sequence_event ''response.completed'' [(str ''response'', response)] s)
      in emit_stream_telemetry (rv_stream env) (Some (openai_responses_finish_reason reason)) None
           (s\<lparr>ss_finished := True\<rparr>))"

definition fail_response :: "('w, 'b) responses_env \<Rightarrow> provider_error \<Rightarrow> 'w responses_state \<Rightarrow> 'w responses_state" where
  "fail_response env e s0 =
     (let s = sequence_event ''response.failed'' [(str ''response'', current_response env ''failed'' s0)] s0;
          s = push_frame SseDone
                (push_frame (typed_event ''error'' [(str ''message'', JString (show_provider_error e))]) s)
      in emit_stream_telemetry (rv_stream env) None (Some (str ''provider_stream_error'')) (s\<lparr>ss_finished := True\<rparr>))"

fun push_provider_event ::
  "('w, 'b) responses_env \<Rightarrow> provider_stream_event \<Rightarrow> 'w responses_state \<Rightarrow> 'w responses_state" where
  "push_provider_event env (TextDelta t) s = (if t = [] then s else push_text_delta env t s)"
| "push_provider_event env (ToolCallDelta index call_id name arguments_delta) s =
     push_tool_delta env index call_id name arguments_delta s"
| "push_provider_event env (Finish reason) s = finish_response env reason s"
| "push_provider_event env (Usage usage) s = s\<lparr>ss_usage := usage\<rparr>"

fun responses_handle ::
  "('w, 'b) responses_env \<Rightarrow> (provider_error + provider_stream_event) option \<Rightarrow> 'w responses_state \<Rightarrow> 'w responses_state" where
  "responses_handle env (Some (Inr e)) s = push_provider_event env e s"
| "responses_handle env (Some (Inl e)) s = fail_response env e s"
| "responses_handle env None s = finish_response env FinishStop s"

definition responses_start ::
  "(provider_error + provider_stream_event) list \<Rightarrow> 'w responses_world \<Rightarrow> 'w responses_state" where
  "responses_start items w =
     \<lparr>ss_items = items, ss_usage = provider_usage_default, ss_pending = [], ss_finished = False,
      ss_saw_tool_delta = False, ss_telemetry_emitted = False, ss_telemetry = [],
      rt_output_text = [], rt_text_item_id = None, rt_tool_calls = [], rt_sequence = 0,
      rt_output_started = False, rt_world = w\<rparr>"

definition responses_stream ::
  "('w, 'b) responses_env \<Rightarrow> (provider_error + provider_stream_event) list \<Rightarrow> 'w responses_world
     \<Rightarrow> (sse_frame list \<times> 'w responses_state) option" where
  "responses_stream env items w = sse_body id (responses_handle env) (responses_start items w)"

end
