(* ===== verification/Api_Responses_Facts.thy ===== *)
theory Api_Responses_Facts
  imports Api_Stream_Responses
begin

text \<open>
  The stream of the Responses interface: its events are numbered from zero without a gap, its text is
  the provider's, it ends with one last event and the mark of the end, and what the last event carries
  is what is stored.
\<close>

section \<open>What a client reads\<close>

definition frame_sequence :: "sse_frame \<Rightarrow> u64 option" where
  "frame_sequence f =
     (case f of SseEvent _ v \<Rightarrow> Option.bind (json_get (str ''sequence_number'') v) json_as_u64 | _ \<Rightarrow> None)"

definition sequences :: "sse_frame list \<Rightarrow> u64 list" where
  "sequences fs = filter_map frame_sequence fs"

definition frame_name :: "sse_frame \<Rightarrow> ustr" where
  "frame_name f = (case f of SseEvent name _ \<Rightarrow> name | _ \<Rightarrow> [])"

definition delta_text :: "sse_frame \<Rightarrow> ustr" where
  "delta_text f =
     (case f of
        SseEvent name v \<Rightarrow>
          (if name = str ''response.output_text.delta''
           then (case json_get (str ''delta'') v of Some (JString t) \<Rightarrow> t | _ \<Rightarrow> []) else [])
      | _ \<Rightarrow> [])"

text \<open>A frame that does not end the answer.\<close>

definition inner_frame :: "sse_frame \<Rightarrow> bool" where
  "inner_frame f \<longleftrightarrow> f \<noteq> SseDone
     \<and> frame_name f \<notin> {str ''response.completed'', str ''response.failed'', str ''error''}"

lemma sequences_append [simp]: "sequences (xs @ ys) = sequences xs @ sequences ys"
  and sequences_Nil [simp]: "sequences [] = []"
  by (simp_all add: sequences_def)

section \<open>What a turn adds\<close>

definition word_at :: "nat \<Rightarrow> u64" where
  "word_at n = nat_to_word_or_max n"

lemma word_at_Suc: "sat_add (word_at n) 1 = word_at (Suc n)"
  by (rule word_unat_eq_iff [THEN iffD2])
    (simp add: word_at_def unat_nat_to_word_or_max unat_sat_add min_def)

text \<open>
  \<open>advances t s s'\<close>: from \<open>s\<close> to \<open>s'\<close> frames were queued, numbered on, with \<open>t\<close> as their text.
\<close>

definition advances :: "ustr \<Rightarrow> 'w responses_state \<Rightarrow> 'w responses_state \<Rightarrow> bool" where
  "advances t s s' \<longleftrightarrow>
     (\<exists>fs. ss_pending s' = ss_pending s @ fs \<and> list_all inner_frame fs \<and> concat (map delta_text fs) = t
        \<and> (\<forall>n. rt_sequence s = word_at n \<longrightarrow>
             sequences fs = map word_at [n..<n + length (sequences fs)]
             \<and> rt_sequence s' = word_at (n + length (sequences fs))))
     \<and> rt_output_text s' = rt_output_text s @ t \<and> ss_items s' = ss_items s \<and> ss_finished s' = ss_finished s
     \<and> ss_telemetry s' = ss_telemetry s \<and> ss_telemetry_emitted s' = ss_telemetry_emitted s
     \<and> rt_world s' = rt_world s"

lemma advances_refl [intro]: "advances [] s s"
  by (auto simp: advances_def)

lemma advances_trans [trans]:
  assumes "advances t s s'" and "advances u s' s''"
  shows "advances (t @ u) s s''"
proof -
  obtain fs where fs: "ss_pending s' = ss_pending s @ fs" "list_all inner_frame fs" "concat (map delta_text fs) = t"
    "\<forall>n. rt_sequence s = word_at n \<longrightarrow> sequences fs = map word_at [n..<n + length (sequences fs)]
         \<and> rt_sequence s' = word_at (n + length (sequences fs))"
    using assms(1) by (auto simp: advances_def)
  obtain gs where gs: "ss_pending s'' = ss_pending s' @ gs" "list_all inner_frame gs" "concat (map delta_text gs) = u"
    "\<forall>n. rt_sequence s' = word_at n \<longrightarrow> sequences gs = map word_at [n..<n + length (sequences gs)]
         \<and> rt_sequence s'' = word_at (n + length (sequences gs))"
    using assms(2) by (auto simp: advances_def)
  have "sequences (fs @ gs) = map word_at [n..<n + length (sequences (fs @ gs))]
      \<and> rt_sequence s'' = word_at (n + length (sequences (fs @ gs)))" if "rt_sequence s = word_at n" for n
  proof -
    let ?k = "length (sequences fs)" and ?m = "length (sequences gs)"
    from fs(4) that have "sequences fs = map word_at [n..<n + ?k]" "rt_sequence s' = word_at (n + ?k)" by auto
    moreover from gs(4) this(2) have "sequences gs = map word_at [n + ?k..<n + ?k + ?m]"
      "rt_sequence s'' = word_at (n + ?k + ?m)" by auto
    moreover have "[n..<n + (?k + ?m)] = [n..<n + ?k] @ [n + ?k..<n + ?k + ?m]"
      using upt_add_eq_append [of n "n + ?k" ?m] by (simp add: add.assoc)
    ultimately show ?thesis by (simp add: add.assoc)
  qed
  with fs gs assms show ?thesis
    unfolding advances_def by (intro conjI exI [of _ "fs @ gs"]) auto
qed

lemma advances_trans_quiet: "advances [] s s' \<Longrightarrow> advances [] s' s'' \<Longrightarrow> advances [] s s''"
  using advances_trans [of "[]" s s' "[]" s''] by simp

lemma frame_sequence_event:
  "str ''sequence_number'' \<notin> fst ` set parts \<Longrightarrow>
   frame_sequence (typed_event name ((str ''sequence_number'', json_u64 n) # parts)) = Some n"
proof -
  assume "str ''sequence_number'' \<notin> fst ` set parts"
  then have "map_of (rev parts) (str ''sequence_number'') = None"
    by (simp add: map_of_eq_None_iff)
  then show ?thesis
    by (simp add: frame_sequence_def typed_event_def json_get_object map_add_def json_u64_def)
qed

lemma sequence_event_simps [simp]:
  "ss_items (sequence_event name parts s) = ss_items s" "ss_finished (sequence_event name parts s) = ss_finished s"
  "ss_telemetry (sequence_event name parts s) = ss_telemetry s"
  "ss_telemetry_emitted (sequence_event name parts s) = ss_telemetry_emitted s"
  "ss_saw_tool_delta (sequence_event name parts s) = ss_saw_tool_delta s"
  "ss_usage (sequence_event name parts s) = ss_usage s"
  "rt_output_text (sequence_event name parts s) = rt_output_text s"
  "rt_text_item_id (sequence_event name parts s) = rt_text_item_id s"
  "rt_tool_calls (sequence_event name parts s) = rt_tool_calls s"
  "rt_output_started (sequence_event name parts s) = rt_output_started s"
  "rt_world (sequence_event name parts s) = rt_world s"
  "rt_sequence (sequence_event name parts s) = sat_add (rt_sequence s) 1"
  "ss_pending (sequence_event name parts s)
     = ss_pending s @ [typed_event name ((str ''sequence_number'', json_u64 (rt_sequence s)) # parts)]"
  by (simp_all add: sequence_event_def push_frame_def)

text \<open>A numbered event that is neither a text nor an end.\<close>

definition quiet_name :: "string \<Rightarrow> bool" where
  "quiet_name name \<longleftrightarrow> name \<notin> {''response.output_text.delta'', ''response.completed'', ''response.failed'', ''error''}"

lemma advances_event:
  assumes "quiet_name name" and "str ''sequence_number'' \<notin> fst ` set parts"
  shows "advances [] s (sequence_event name parts s)"
proof -
  let ?f = "typed_event name ((str ''sequence_number'', json_u64 (rt_sequence s)) # parts)"
  have "sequences [typed_event name ((str ''sequence_number'', json_u64 n) # parts)] = [n]" for n
    by (simp add: sequences_def frame_sequence_event [OF assms(2)])
  moreover have "inner_frame ?f" and "delta_text ?f = []"
    using assms(1) by (simp_all add: inner_frame_def frame_name_def delta_text_def typed_event_def quiet_name_def)
  ultimately show ?thesis
    unfolding advances_def by (intro conjI exI [of _ "[?f]"]) (simp_all add: word_at_Suc)
qed

lemma advances_text_event:
  assumes "str ''sequence_number'' \<notin> fst ` set place" and "str ''delta'' \<notin> fst ` set others"
    and "str ''sequence_number'' \<notin> fst ` set others"
  shows "advances t s (sequence_event ''response.output_text.delta'' (place @ (str ''delta'', JString t) # others)
           (s\<lparr>rt_output_text := rt_output_text s @ t\<rparr>))"
proof -
  let ?f = "typed_event ''response.output_text.delta''
      ((str ''sequence_number'', json_u64 (rt_sequence s)) # place @ (str ''delta'', JString t) # others)"
  have "sequences [typed_event ''response.output_text.delta''
      ((str ''sequence_number'', json_u64 n) # place @ (str ''delta'', JString t) # others)] = [n]" for n
  proof -
    have "str ''sequence_number'' \<notin> fst ` set (place @ (str ''delta'', JString t) # others)"
      using assms by auto
    from frame_sequence_event [OF this] show ?thesis by (simp add: sequences_def)
  qed
  moreover have "map_of (rev others) (str ''delta'') = None"
    using assms(2) by (simp add: map_of_eq_None_iff)
  then have "delta_text ?f = t"
    by (simp add: delta_text_def typed_event_def json_get_object map_add_def)
  moreover have "inner_frame ?f" by (simp add: inner_frame_def frame_name_def typed_event_def)
  ultimately show ?thesis
    unfolding advances_def by (intro conjI exI [of _ "[?f]"]) (simp_all add: word_at_Suc)
qed

lemma advances_update:
  "advances t s s' \<Longrightarrow> advances t s (s'\<lparr>rt_output_started := b\<rparr>)"
  "advances t s s' \<Longrightarrow> advances t s (s'\<lparr>rt_text_item_id := i\<rparr>)"
  "advances t s s' \<Longrightarrow> advances t s (s'\<lparr>rt_tool_calls := c\<rparr>)"
  "advances t s s' \<Longrightarrow> advances t s (s'\<lparr>ss_saw_tool_delta := b\<rparr>)"
  "advances t s s' \<Longrightarrow> advances t s (s'\<lparr>ss_usage := us\<rparr>)"
  by (simp_all add: advances_def)

lemma advances_quiet_event:
  "advances [] s s' \<Longrightarrow> quiet_name name \<Longrightarrow> str ''sequence_number'' \<notin> fst ` set parts \<Longrightarrow>
   advances [] s (sequence_event name parts s')"
  by (rule advances_trans_quiet [OF _ advances_event])

lemmas advances_intros = advances_refl advances_update advances_quiet_event

lemma advances_created: "advances [] s (ensure_created env s)"
  by (auto simp: ensure_created_def Let_def quiet_name_def intro!: advances_intros)

lemma advances_text_output: "advances [] s (ensure_text_output env s)"
  by (auto simp: ensure_text_output_def Let_def quiet_name_def text_place_def intro!: advances_intros)

lemma advances_text_delta: "advances t s (push_text_delta env t s)"
proof -
  let ?s = "ensure_text_output env (ensure_created env s)"
  have "advances [] s ?s"
    by (rule advances_trans_quiet [OF advances_created advances_text_output])
  moreover have "advances t ?s (push_text_delta env t s)"
    unfolding push_text_delta_def Let_def text_place_def append.simps
    using advances_text_event [of "text_place (text_item_id ?s)" "[(str ''logprobs'', JArray [])]" t ?s]
    by (simp add: text_place_def)
  ultimately show ?thesis using advances_trans [of "[]"] by fastforce
qed

lemma advances_tool_delta: "advances [] s (push_tool_delta env index call_id name a s)"
proof -
  let ?s = "(ensure_created env s)\<lparr>ss_saw_tool_delta := True\<rparr>"
  have 0: "advances [] s ?s" by (intro advances_update advances_created)
  show ?thesis
    unfolding push_tool_delta_def Let_def
    by (auto simp: quiet_name_def intro!: advances_quiet_event advances_update(3) 0)
qed

lemma advances_finish_text: "advances [] s (finish_text env s)"
  by (auto simp: finish_text_def Let_def quiet_name_def text_place_def
      intro!: advances_quiet_event advances_text_output)

lemma advances_finish_calls: "advances [] s (finish_tool_calls env s)"
proof -
  have "advances [] s (fold (finish_tool_call env) calls s)" for calls
  proof (induction calls arbitrary: s)
    case (Cons c calls)
    have "advances [] s (finish_tool_call env c s)"
      by (auto simp: finish_tool_call_def Let_def quiet_name_def intro!: advances_intros)
    with Cons show ?case by (auto intro: advances_trans_quiet)
  qed (simp add: advances_refl)
  then show ?thesis by (simp add: finish_tool_calls_def)
qed

lemma advances_finish_items: "advances [] s (finish_items env s)"
  unfolding finish_items_def Let_def
  by (cases "ss_saw_tool_delta (ensure_created env s)")
    (simp_all add: advances_trans_quiet [OF advances_created [of s env]] advances_finish_calls advances_finish_text)

section \<open>The end of an answer\<close>

definition numbered :: "sse_frame list \<Rightarrow> 'w responses_state \<Rightarrow> bool" where
  "numbered out s \<longleftrightarrow>
     sequences out = map word_at [0..<length (sequences out)] \<and> rt_sequence s = word_at (length (sequences out))"

text \<open>The two ends: what is sent last and what becomes of the store.\<close>

definition failed_end :: "sse_frame list \<Rightarrow> bool" where
  "failed_end end_frames \<longleftrightarrow>
     (\<exists>n r e. end_frames = [typed_event ''response.failed'' [(str ''sequence_number'', json_u64 n), (str ''response'', r)],
                     typed_event ''error'' [(str ''message'', JString e)], SseDone])"

definition completed_end ::
  "('w, 'b) responses_env \<Rightarrow> 'w responses_world \<Rightarrow> ustr \<Rightarrow> sse_frame list \<Rightarrow> 'w responses_world \<Rightarrow> bool" where
  "completed_end env w t end_frames w' \<longleftrightarrow>
     (\<exists>n r messages. json_get (str ''output_text'') r = Some (JString t)
        \<and> json_get (str ''status'') r = Some (JString (str ''completed''))
        \<and> (let stored = store_openai_response (rv_codec env) (rv_kv env) (rv_execution env) r messages False w
           in w' = snd stored
              \<and> end_frames = (case fst stored of
                          Inl e \<Rightarrow> [typed_event ''error'' [(str ''message'', JString e)]] | Inr _ \<Rightarrow> [])
                       @ [typed_event ''response.completed''
                            [(str ''sequence_number'', json_u64 n), (str ''response'', r)], SseDone]))"

lemma sequences_end:
  "sequences [typed_event ''error'' [(str ''message'', v)]] = []" "sequences [SseDone] = []"
  "sequences [typed_event name [(str ''sequence_number'', json_u64 n), (str ''response'', r)]] = [n]"
  by (simp_all add: sequences_def frame_sequence_def typed_event_def json_get_object json_u64_def)

lemma sequences_Cons: "sequences (f # fs) = sequences [f] @ sequences fs"
  by (simp add: sequences_def split: option.split)

lemma response_value_fields:
  "json_get (str ''output_text'') (current_response env ''completed'' s) = Some (JString (rt_output_text s))"
  "json_get (str ''status'') (current_response env ''completed'' s) = Some (JString (str ''completed''))"
proof -
  have "\<exists>m. openai_response_value x md o' t u = JObject m" for x md o' t u
    by (simp add: openai_response_value_def response_value_with_status_def json_object_def)
  then obtain m where m: "openai_response_value (rv_execution env) (re_request_model (rv_execution env))
      (current_output env ''completed'' s) (rt_output_text s) (openai_responses_usage_json (ss_usage s)) = JObject m"
    by blast
  show "json_get (str ''status'') (current_response env ''completed'' s) = Some (JString (str ''completed''))"
    unfolding current_response_def m by (simp add: bt_get_insert)
  have "json_get (str ''output_text'') (current_response env ''completed'' s) = json_get (str ''output_text'') (JObject m)"
    unfolding current_response_def m by (simp add: bt_get_insert)
  then show "json_get (str ''output_text'') (current_response env ''completed'' s) = Some (JString (rt_output_text s))"
    unfolding m [symmetric]
    by (simp add: openai_response_value_def response_value_with_status_def json_get_object)
qed

definition end_inv ::
  "('w, 'b) responses_env \<Rightarrow> 'w responses_world \<Rightarrow> ustr \<Rightarrow> sse_frame list \<Rightarrow> 'w responses_state \<Rightarrow> bool" where
  "end_inv env w t out s \<longleftrightarrow>
     sequences out = map word_at [0..<length (sequences out)] \<and> length (ss_telemetry s) = 1
     \<and> (\<exists>body end_frames. out = body @ end_frames \<and> list_all inner_frame body \<and> concat (map delta_text body) = t
          \<and> (failed_end end_frames \<and> rt_world s = w \<or> completed_end env w t end_frames (rt_world s)))"

definition turn_inv ::
  "('w, 'b) responses_env \<Rightarrow> 'w responses_world \<Rightarrow> ustr \<Rightarrow> sse_frame list \<Rightarrow> 'w responses_state \<Rightarrow> bool" where
  "turn_inv env w t out s \<longleftrightarrow>
     numbered out s \<and> list_all inner_frame out \<and> concat (map delta_text out) = t \<and> rt_output_text s = t
     \<and> rt_world s = w \<and> ss_telemetry s = [] \<and> \<not> ss_telemetry_emitted s \<and> \<not> ss_finished s"

lemma turn_advances:
  assumes "turn_inv env w t out s" and "advances u s s'" and "ss_pending s = []"
  shows "turn_inv env w (t @ u) (out @ ss_pending s') (s'\<lparr>ss_pending := []\<rparr>)"
proof -
  obtain fs where fs: "ss_pending s' = fs" "list_all inner_frame fs" "concat (map delta_text fs) = u"
    "\<forall>n. rt_sequence s = word_at n \<longrightarrow> sequences fs = map word_at [n..<n + length (sequences fs)]
         \<and> rt_sequence s' = word_at (n + length (sequences fs))"
    using assms(2,3) by (auto simp: advances_def)
  let ?n = "length (sequences out)" and ?k = "length (sequences fs)"
  have "sequences fs = map word_at [?n..<?n + ?k]" "rt_sequence s' = word_at (?n + ?k)"
    using fs(4) assms(1) by (auto simp: turn_inv_def numbered_def)
  moreover have "[0..<?n + ?k] = [0..<?n] @ [?n..<?n + ?k]"
    using upt_add_eq_append [of 0 ?n ?k] by simp
  ultimately have "numbered (out @ fs) (s'\<lparr>ss_pending := []\<rparr>)"
    using assms(1) by (simp add: numbered_def turn_inv_def)
  with assms fs show ?thesis by (simp add: turn_inv_def advances_def)
qed

text \<open>Both ends come after an advance without text.\<close>

lemma end_after_turn:
  assumes turn: "turn_inv env w t out s" and num: "rt_sequence s = n"
    and ends: "failed_end end_frames \<and> w' = w \<or> completed_end env w t end_frames w'"
    and seq: "sequences end_frames = [n]" and "length (ss_telemetry s') = 1" and "rt_world s' = w'"
  shows "end_inv env w t (out @ end_frames) s'"
proof -
  have "sequences (out @ end_frames) = map word_at [0..<Suc (length (sequences out))]"
    using turn num seq by (simp add: turn_inv_def numbered_def)
  then have "sequences (out @ end_frames) = map word_at [0..<length (sequences (out @ end_frames))]"
    using seq by simp
  with assms show ?thesis
    unfolding end_inv_def by (auto simp: turn_inv_def)
qed

lemma fail_ends:
  assumes "turn_inv env w t out s" and "ss_pending s = []"
  shows "end_inv env w t (out @ ss_pending (fail_response env e s)) ((fail_response env e s)\<lparr>ss_pending := []\<rparr>)
    \<and> ss_finished (fail_response env e s) \<and> ss_items (fail_response env e s) = ss_items s"
proof -
  let ?final = "[typed_event ''response.failed'' [(str ''sequence_number'', json_u64 (rt_sequence s)),
                   (str ''response'', current_response env ''failed'' s)],
               typed_event ''error'' [(str ''message'', JString (show_provider_error e))], SseDone]"
  have "failed_end ?final" by (auto simp: failed_end_def)
  moreover have "sequences ?final = [rt_sequence s]"
    by (simp add: sequences_Cons [of _ "_ # _"] sequences_end)
  moreover have "ss_pending (fail_response env e s) = ?final" "ss_finished (fail_response env e s)"
    "ss_items (fail_response env e s) = ss_items s" "rt_world (fail_response env e s) = rt_world s"
    "length (ss_telemetry (fail_response env e s)) = 1"
    using assms by (simp_all add: fail_response_def Let_def turn_inv_def emit_stream_telemetry_def push_frame_def)
  ultimately show ?thesis
    using end_after_turn [OF assms(1) refl, of ?final w "(fail_response env e s)\<lparr>ss_pending := []\<rparr>"] assms(1)
    by (auto simp: turn_inv_def)
qed

lemma finish_ends:
  assumes turn: "turn_inv env w t out s" and "ss_pending s = []"
  shows "end_inv env w t (out @ ss_pending (finish_response env reason s)) ((finish_response env reason s)\<lparr>ss_pending := []\<rparr>)
    \<and> ss_finished (finish_response env reason s) \<and> ss_items (finish_response env reason s) = ss_items s"
proof -
  let ?s = "finish_items env s" and ?f = "finish_response env reason s"
  have adv: "advances [] s ?s" by (rule advances_finish_items)
  have turn': "turn_inv env w t (out @ ss_pending ?s) (?s\<lparr>ss_pending := []\<rparr>)"
    using turn_advances [OF turn adv assms(2)] by simp
  have quiet: "rt_world ?s = w" "rt_output_text ?s = t" "ss_telemetry ?s = []" "\<not> ss_telemetry_emitted ?s"
    using turn' by (simp_all add: turn_inv_def)
  let ?r = "current_response env ''completed'' ?s" and ?m = "conversation_so_far env ?s"
  let ?stored = "store_openai_response (rv_codec env) (rv_kv env) (rv_execution env) ?r ?m False w"
  let ?final = "(case fst ?stored of Inl e \<Rightarrow> [typed_event ''error'' [(str ''message'', JString e)]] | Inr _ \<Rightarrow> [])
      @ [typed_event ''response.completed''
           [(str ''sequence_number'', json_u64 (rt_sequence ?s)), (str ''response'', ?r)], SseDone]"
  have "completed_end env w t ?final (snd ?stored)"
    unfolding completed_end_def Let_def
    using response_value_fields [of env ?s] quiet
    by (intro exI [of _ "rt_sequence ?s"] exI [of _ ?r] exI [of _ ?m]) simp
  moreover have "sequences ?final = [rt_sequence ?s]"
    by (simp add: sequences_Cons [of _ "_ # _"] sequences_end split: sum.split)
  moreover have "ss_pending ?f = ss_pending ?s @ ?final" "ss_finished ?f" "ss_items ?f = ss_items s"
    "rt_world ?f = snd ?stored" "length (ss_telemetry ?f) = 1"
    using quiet adv
    by (simp_all add: finish_response_def Let_def advances_def emit_stream_telemetry_def push_frame_def split: sum.split)
  ultimately show ?thesis
    using end_after_turn [OF turn', of "rt_sequence ?s" ?final "snd ?stored" "?f\<lparr>ss_pending := []\<rparr>"] by simp
qed

end
