(* ===== verification/Api_Responses_Stream.thy ===== *)
theory Api_Responses_Stream
  imports Api_Responses_Facts
begin

text \<open>The whole body of a streamed response, by the invariant of the turns.\<close>

lemma push_keeps:
  "\<not> is_finish e \<Longrightarrow> \<exists>t. t = item_text (Inr e) \<and> advances t s (push_provider_event env e s)"
  by (cases e) (auto intro: advances_text_delta advances_tool_delta advances_update)

lemma end_keeps [simp]:
  "ss_items (finish_response env r s) = ss_items s" "ss_items (fail_response env e s) = ss_items s"
  "ss_finished (finish_response env r s)"
proof -
  have "ss_items (finish_items env s) = ss_items s"
    using advances_finish_items [of s env] by (simp add: advances_def)
  then show "ss_items (finish_response env r s) = ss_items s"
    by (simp add: finish_response_def Let_def split: sum.split)
  show "ss_items (fail_response env e s) = ss_items s" "ss_finished (finish_response env r s)"
    by (simp_all add: finish_response_def fail_response_def Let_def)
qed

interpretation responses_machine: sse_machine id "responses_handle env" for env :: "('w, 'b) responses_env"
proof
  show "ss_finished (responses_handle env None s)" for s by simp
  show "ss_items (responses_handle env i s) = ss_items s" for i s
  proof (cases i)
    case (Some x)
    show ?thesis
    proof (cases x)
      case (Inr e)
      show ?thesis
      proof (cases "is_finish e")
        case False
        from push_keeps [OF this, of s env] Some Inr show ?thesis by (auto simp: advances_def)
      next
        case True
        with Some Inr show ?thesis by (cases e) simp_all
      qed
    qed (simp add: Some)
  qed simp
qed

definition body_inv ::
  "('w, 'b) responses_env \<Rightarrow> 'w responses_world \<Rightarrow> (provider_error + provider_stream_event) list
     \<Rightarrow> sse_frame list \<Rightarrow> 'w responses_state \<Rightarrow> bool" where
  "body_inv env w seen out s \<longleftrightarrow>
     seen_ok seen s
     \<and> (if ss_finished s then end_inv env w (concat (map item_text (live seen))) out s
        else turn_inv env w (concat (map item_text (live seen))) out s)"

lemma body_step:
  assumes inv: "body_inv env w seen out s" and open': "\<not> ss_finished s" and pending: "ss_pending s = []"
    and "ss_items s = i # rest"
  shows "body_inv env w (seen @ [i])
     (out @ map id (ss_pending (responses_handle env (Some i) (s\<lparr>ss_items := rest\<rparr>))))
     ((responses_handle env (Some i) (s\<lparr>ss_items := rest\<rparr>))\<lparr>ss_pending := []\<rparr>)"
proof -
  let ?s = "s\<lparr>ss_items := rest\<rparr>" and ?t = "concat (map item_text (live seen))"
  let ?s' = "responses_handle env (Some i) ?s"
  have live: "live seen = seen" using inv open' by (simp add: body_inv_def seen_ok_def)
  have turn: "turn_inv env w ?t out ?s" "ss_pending ?s = []"
    using inv open' pending by (simp_all add: body_inv_def turn_inv_def numbered_def)
  show ?thesis
  proof (cases "is_final i")
    case False
    then obtain e where e: "i = Inr e" "\<not> is_finish e" by (auto simp: is_final_def split: sum.splits)
    from push_keeps [OF e(2), of ?s env] have adv: "advances (item_text i) ?s ?s'" using e(1) by auto
    have "turn_inv env w (?t @ item_text i) (out @ ss_pending ?s') (?s'\<lparr>ss_pending := []\<rparr>)"
      by (rule turn_advances [OF turn(1) adv turn(2)])
    with False live show ?thesis
      by (simp add: body_inv_def seen_ok_def live_snoc turn_inv_def)
  next
    case True
    have "end_inv env w ?t (out @ ss_pending ?s') (?s'\<lparr>ss_pending := []\<rparr>) \<and> ss_finished ?s'"
    proof (cases i)
      case (Inl e)
      with fail_ends [OF turn] show ?thesis by simp
    next
      case (Inr e)
      with True obtain r where "e = Finish r" by (cases e) (auto simp: is_final_def)
      with Inr finish_ends [OF turn] show ?thesis by simp
    qed
    with True live show ?thesis
      by (auto simp: body_inv_def seen_ok_def live_snoc)
  qed
qed

lemma responses_stream_complete:
  "\<exists>fs t. responses_stream env items w = Some (fs, t) \<and> end_inv env w (provider_text items) fs t"
proof -
  have "\<exists>fs t seen. responses_stream env items w = Some (fs, t) \<and> body_inv env w seen fs t \<and> ss_finished t
      \<and> seen @ ss_items t = ss_items (responses_start items w)"
    unfolding responses_stream_def
  proof (rule responses_machine.body_invariant)
    show "body_inv env w [] (map id (ss_pending (responses_start items w))) ((responses_start items w)\<lparr>ss_pending := []\<rparr>)"
      by (simp add: body_inv_def seen_ok_def live_def responses_start_def turn_inv_def numbered_def word_at_def
          nat_to_word_or_max_def)
  next
    fix seen out s
    assume inv: "body_inv env w seen out s" and s: "\<not> ss_finished s" "ss_pending s = []" "ss_items s = []"
    then have turn: "turn_inv env w (concat (map item_text (live seen))) out s"
      by (simp add: body_inv_def)
    from finish_ends [OF turn s(2)] inv s
    show "body_inv env w seen (out @ map id (ss_pending (responses_handle env None s)))
        ((responses_handle env None s)\<lparr>ss_pending := []\<rparr>)"
      by (simp add: body_inv_def seen_ok_def)
  qed (rule body_step)
  then obtain fs t seen where "responses_stream env items w = Some (fs, t)" "body_inv env w seen fs t" "ss_finished t"
    "seen @ ss_items t = items"
    by (auto simp: responses_start_def)
  then show ?thesis
    using seen_ok_live [of seen t] by (auto simp: body_inv_def provider_text_def)
qed

section \<open>An item opened twice\<close>

text \<open>
  The event that opens a call's item is sent while its arguments are empty, not when the call is
  new: a call whose first delta carries no arguments is opened again by the next one.
\<close>

definition opens_item :: "nat \<Rightarrow> sse_frame \<Rightarrow> bool" where
  "opens_item index f \<longleftrightarrow>
     (case f of
        SseEvent name v \<Rightarrow> name = str ''response.output_item.added''
          \<and> json_get (str ''output_index'') v = Some (json_u64 (word_of_nat index))
      | _ \<Rightarrow> False)"

definition openings :: "nat \<Rightarrow> sse_frame list \<Rightarrow> nat" where
  "openings index fs = length (filter (opens_item index) fs)"

lemma openings_append [simp]: "openings i (xs @ ys) = openings i xs + openings i ys"
  by (simp add: openings_def)

lemma push_tool_delta_opens:
  assumes "case bt_get (rt_tool_calls s) index of None \<Rightarrow> True | Some call \<Rightarrow> pc_arguments call = []"
  shows "\<exists>fs. ss_pending (push_tool_delta env index call_id name a s) = ss_pending s @ fs \<and> 1 \<le> openings index fs"
    and "\<exists>call. bt_get (rt_tool_calls (push_tool_delta env index call_id name a s)) index = Some call \<and> pc_arguments call = a"
proof -
  let ?c = "ensure_created env s"
  obtain cs where cs: "ss_pending ?c = ss_pending s @ cs"
    using advances_created [of s env] by (auto simp: advances_def)
  have calls: "rt_tool_calls ?c = rt_tool_calls s" by (simp add: ensure_created_def Let_def)
  have empty: "pc_arguments (entered_call (?c\<lparr>ss_saw_tool_delta := True\<rparr>) index call_id name) = []"
    using assms by (simp add: entered_call_def calls split: option.splits)
  have named: "pc_arguments (case name of Some n \<Rightarrow> x\<lparr>pc_name := n\<rparr> | None \<Rightarrow> x) = pc_arguments x" for x
    by (cases name) simp_all
  have opens: "opens_item index (typed_event ''response.output_item.added''
      [(str ''sequence_number'', json_u64 n), (str ''output_index'', json_u64 (word_of_nat index)), (str ''item'', v)])" for n v
    by (simp add: opens_item_def typed_event_def json_get_object)
  show "\<exists>fs. ss_pending (push_tool_delta env index call_id name a s) = ss_pending s @ fs \<and> 1 \<le> openings index fs"
    by (auto simp: push_tool_delta_def Let_def named empty cs openings_def opens)
  show "\<exists>call. bt_get (rt_tool_calls (push_tool_delta env index call_id name a s)) index = Some call \<and> pc_arguments call = a"
    by (simp add: push_tool_delta_def Let_def named empty bt_get_insert)
qed

definition twice_inv :: "nat \<Rightarrow> (provider_error + provider_stream_event) list
     \<Rightarrow> (provider_error + provider_stream_event) list \<Rightarrow> sse_frame list \<Rightarrow> 'w responses_state \<Rightarrow> bool" where
  "twice_inv index items seen out s \<longleftrightarrow>
     seen @ ss_items s = items \<and> (length seen < 2 \<longrightarrow> \<not> ss_finished s)
     \<and> (seen = [] \<longrightarrow> bt_get (rt_tool_calls s) index = None)
     \<and> (length seen = 1 \<longrightarrow> 1 \<le> openings index out
          \<and> (\<exists>call. bt_get (rt_tool_calls s) index = Some call \<and> pc_arguments call = []))
     \<and> (2 \<le> length seen \<longrightarrow> 2 \<le> openings index out)"

lemma twice_step:
  assumes items: "items = Inr (ToolCallDelta index c n []) # Inr (ToolCallDelta index c' n' a) # rest'"
    and inv: "twice_inv index items seen out s" and "ss_pending s = []"
    and "ss_items s = i # rest" and "\<not> ss_finished s"
  shows "twice_inv index items (seen @ [i])
     (out @ map id (ss_pending (responses_handle env (Some i) (s\<lparr>ss_items := rest\<rparr>))))
     ((responses_handle env (Some i) (s\<lparr>ss_items := rest\<rparr>))\<lparr>ss_pending := []\<rparr>)"
proof -
  let ?s = "s\<lparr>ss_items := rest\<rparr>" and ?s' = "responses_handle env (Some i) (s\<lparr>ss_items := rest\<rparr>)"
  have s': "ss_items ?s' = rest" by (simp only: responses_machine.items_kept) simp
  have seen: "seen @ i # rest = items" using inv assms(4) by (simp add: twice_inv_def)
  consider "seen = []" | "length seen = 1" | "2 \<le> length seen" by (cases seen) (auto simp: Suc_le_eq)
  then show ?thesis
  proof cases
    case 1
    then have i: "i = Inr (ToolCallDelta index c n [])" using seen items by simp
    have "\<not> ss_finished ?s'"
      using advances_tool_delta [of ?s env index c n "[]"] assms(5) by (simp add: i advances_def)
    then show ?thesis
      using push_tool_delta_opens [of ?s index env c n "[]"] inv 1 s' seen i assms(3)
      by (auto simp: twice_inv_def)
  next
    case 2
    then obtain x where "seen = [x]" by (cases seen) auto
    then have "i = Inr (ToolCallDelta index c' n' a)" using seen items by simp
    then show ?thesis
      using push_tool_delta_opens(1) [of ?s index env c' n' a] inv 2 s' seen assms(3)
      by (auto simp: twice_inv_def)
  next
    case 3
    with inv s' seen show ?thesis by (auto simp: twice_inv_def)
  qed
qed

lemma responses_item_opened_twice:
  assumes items: "items = Inr (ToolCallDelta index c n []) # Inr (ToolCallDelta index c' n' a) # rest"
  shows "\<exists>fs t. responses_stream env items w = Some (fs, t) \<and> 2 \<le> openings index fs"
proof -
  have "\<exists>fs t seen. responses_stream env items w = Some (fs, t) \<and> twice_inv index items seen fs t \<and> ss_finished t
      \<and> seen @ ss_items t = ss_items (responses_start items w)"
    unfolding responses_stream_def
  proof (rule responses_machine.body_invariant)
    show "twice_inv index items [] (map id (ss_pending (responses_start items w))) ((responses_start items w)\<lparr>ss_pending := []\<rparr>)"
      by (simp add: twice_inv_def responses_start_def)
  next
    fix seen out and s :: "'a responses_state"
    assume inv: "twice_inv index items seen out s" and s: "\<not> ss_finished s" "ss_pending s = []" "ss_items s = []"
    have "2 \<le> length seen" using inv s(3) items by (simp add: twice_inv_def)
    with inv s show "twice_inv index items seen (out @ map id (ss_pending (responses_handle env None s)))
        ((responses_handle env None s)\<lparr>ss_pending := []\<rparr>)"
      by (auto simp: twice_inv_def)
  qed (rule twice_step [OF items])
  then obtain fs t seen where "responses_stream env items w = Some (fs, t)" "twice_inv index items seen fs t" "ss_finished t"
    by blast
  then show ?thesis
    by (cases "length seen < 2") (auto simp: twice_inv_def)
qed

end

