(* ===== verification/Api_Jobs.thy ===== *)
theory Api_Jobs
  imports Api_Resilience
begin

text \<open>
  \<^verbatim>\<open>api-server/src/lib.rs\<close>: \<^verbatim>\<open>JobRuntime\<close>, which runs at most one background job for a key and a
  bounded number of jobs at a time. A job passes through the sections of its code that take a lock or
  a permit; each section is one step, and steps of different jobs interleave. Cancellation tokens are
  numbered. The permit of a job is held until its task has ended; the end of the task, which drops it,
  and the removal of its key from the running jobs just before are one step.
\<close>

datatype job_phase = Reserved | Launched | Working | Worked | Unregistered

record job_task =
  jt_key :: ustr
  jt_token :: nat
  jt_phase :: job_phase

record job_runtime =
  jr_running :: "ustr list"
  jr_cancellations :: "(ustr, nat) btree"
  jr_tasks :: "job_task list"
  jr_next_token :: nat
  jr_cancelled :: "nat list"
  jr_metrics :: runtime_metrics

definition job_runtime_new :: "runtime_metrics \<Rightarrow> job_runtime" where
  "job_runtime_new m =
     \<lparr>jr_running = [], jr_cancellations = [], jr_tasks = [], jr_next_token = 0, jr_cancelled = [], jr_metrics = m\<rparr>"

definition job_limit :: "nat \<Rightarrow> nat" where
  "job_limit max_concurrent = max max_concurrent 1"

section \<open>The sections of a job\<close>

definition set_phase :: "nat \<Rightarrow> job_phase \<Rightarrow> job_runtime \<Rightarrow> job_runtime" where
  "set_phase i p st = st\<lparr>jr_tasks := (jr_tasks st)[i := (jr_tasks st ! i)\<lparr>jt_phase := p\<rparr>]\<rparr>"

text \<open>\<^verbatim>\<open>spawn\<close>: \<^verbatim>\<open>running.insert\<close>, and nothing more when the key was there.\<close>

definition job_reserve :: "ustr \<Rightarrow> job_runtime \<Rightarrow> bool \<times> job_runtime" where
  "job_reserve key st =
     (if key \<in> set (jr_running st) then (False, st)
      else (True, st\<lparr>jr_running := bs_insert key (jr_running st),
                     jr_tasks := jr_tasks st @ [\<lparr>jt_key = key, jt_token = jr_next_token st, jt_phase = Reserved\<rparr>],
                     jr_next_token := Suc (jr_next_token st)\<rparr>))"

definition job_launch :: "nat \<Rightarrow> job_runtime \<Rightarrow> job_runtime" where
  "job_launch i st =
     (set_phase i Launched st)
       \<lparr>jr_cancellations := bt_insert (jt_key (jr_tasks st ! i)) (jt_token (jr_tasks st ! i)) (jr_cancellations st)\<rparr>"

definition job_begin :: "nat \<Rightarrow> job_runtime \<Rightarrow> job_runtime" where
  "job_begin i st =
     (set_phase i Working st)\<lparr>jr_metrics := (jr_metrics st)\<lparr>m_jobs_started := m_jobs_started (jr_metrics st) + 1\<rparr>\<rparr>"

definition job_end :: "nat \<Rightarrow> job_runtime \<Rightarrow> job_runtime" where
  "job_end i st =
     (set_phase i Worked st)\<lparr>jr_metrics := (jr_metrics st)\<lparr>m_jobs_finished := m_jobs_finished (jr_metrics st) + 1\<rparr>\<rparr>"

definition job_unregister :: "nat \<Rightarrow> job_runtime \<Rightarrow> job_runtime" where
  "job_unregister i st =
     (set_phase i Unregistered st)\<lparr>jr_cancellations := bt_remove (jt_key (jr_tasks st ! i)) (jr_cancellations st)\<rparr>"

definition job_release :: "nat \<Rightarrow> job_runtime \<Rightarrow> job_runtime" where
  "job_release i st =
     st\<lparr>jr_running := filter (\<lambda>k. k \<noteq> jt_key (jr_tasks st ! i)) (jr_running st),
        jr_tasks := take i (jr_tasks st) @ drop (Suc i) (jr_tasks st)\<rparr>"

definition job_cancel :: "ustr \<Rightarrow> job_runtime \<Rightarrow> bool \<times> job_runtime" where
  "job_cancel key st =
     (case bt_get (jr_cancellations st) key of
        Some token \<Rightarrow>
          (True, st\<lparr>jr_cancelled := token # jr_cancelled st,
                    jr_metrics := (jr_metrics st)\<lparr>m_jobs_cancelled := m_jobs_cancelled (jr_metrics st) + 1\<rparr>\<rparr>)
      | None \<Rightarrow> (False, st))"

text \<open>The tasks that hold a permit.\<close>

definition holds_permit :: "job_task \<Rightarrow> bool" where
  "holds_permit t \<longleftrightarrow> jt_phase t \<in> {Working, Worked, Unregistered}"

definition permits_held :: "job_runtime \<Rightarrow> nat" where
  "permits_held st = length (filter holds_permit (jr_tasks st))"

definition in_phase :: "job_phase \<Rightarrow> nat \<Rightarrow> job_runtime \<Rightarrow> bool" where
  "in_phase p i st \<longleftrightarrow> i < length (jr_tasks st) \<and> jt_phase (jr_tasks st ! i) = p"

inductive job_step :: "nat \<Rightarrow> job_runtime \<Rightarrow> job_runtime \<Rightarrow> bool" for limit where
  reserve: "job_step limit st (snd (job_reserve key st))"
| launch: "in_phase Reserved i st \<Longrightarrow> job_step limit st (job_launch i st)"
| begin_work: "in_phase Launched i st \<Longrightarrow> permits_held st < limit \<Longrightarrow> job_step limit st (job_begin i st)"
| end_work: "in_phase Working i st \<Longrightarrow> job_step limit st (job_end i st)"
| unregister: "in_phase Worked i st \<Longrightarrow> job_step limit st (job_unregister i st)"
| release: "in_phase Unregistered i st \<Longrightarrow> job_step limit st (job_release i st)"
| cancel: "job_step limit st (snd (job_cancel key st))"

inductive job_reachable :: "nat \<Rightarrow> runtime_metrics \<Rightarrow> job_runtime \<Rightarrow> bool" for limit m where
  idle: "job_reachable limit m (job_runtime_new m)"
| after: "job_reachable limit m st \<Longrightarrow> job_step limit st st' \<Longrightarrow> job_reachable limit m st'"

section \<open>The invariant\<close>

text \<open>The tasks whose token can be found by their key.\<close>

definition cancellable :: "job_task \<Rightarrow> bool" where
  "cancellable t \<longleftrightarrow> jt_phase t \<in> {Launched, Working, Worked}"

definition jobs_ok :: "nat \<Rightarrow> job_runtime \<Rightarrow> bool" where
  "jobs_ok limit st \<longleftrightarrow>
     distinct (map jt_key (jr_tasks st)) \<and> set (map jt_key (jr_tasks st)) = set (jr_running st)
     \<and> distinct (map jt_token (jr_tasks st)) \<and> (\<forall>t \<in> set (jr_tasks st). jt_token t < jr_next_token st)
     \<and> (\<forall>k n. bt_get (jr_cancellations st) k = Some n
          \<longleftrightarrow> (\<exists>t \<in> set (jr_tasks st). jt_key t = k \<and> jt_token t = n \<and> cancellable t))
     \<and> permits_held st \<le> limit
     \<and> m_jobs_started (jr_metrics st)
         = m_jobs_finished (jr_metrics st) + word_of_nat (length (filter (\<lambda>t. jt_phase t = Working) (jr_tasks st)))"

lemma split_at: "i < length xs \<Longrightarrow> xs = take i xs @ xs ! i # drop (Suc i) xs"
  by (rule id_take_nth_drop)

text \<open>A task that moves on between others.\<close>

lemma set_phase_split:
  assumes "in_phase p i st"
  obtains before' t rest where "jr_tasks st = before' @ t # rest" and "jt_phase t = p" and "jr_tasks st ! i = t"
    and "\<And>q. jr_tasks (set_phase i q st) = before' @ t\<lparr>jt_phase := q\<rparr> # rest"
    and "take i (jr_tasks st) @ drop (Suc i) (jr_tasks st) = before' @ rest"
proof -
  let ?ts = "jr_tasks st"
  have i: "i < length ?ts" using assms by (simp add: in_phase_def)
  show thesis
  proof
    show "?ts = take i ?ts @ ?ts ! i # drop (Suc i) ?ts" by (rule split_at [OF i])
    show "jt_phase (?ts ! i) = p" using assms by (simp add: in_phase_def)
    show "jr_tasks (set_phase i q st) = take i ?ts @ (?ts ! i)\<lparr>jt_phase := q\<rparr> # drop (Suc i) ?ts" for q
      using i by (simp add: set_phase_def upd_conv_take_nth_drop)
  qed simp_all
qed

lemma remove_key_set:
  "k \<notin> A \<Longrightarrow> insert k A = set ks \<Longrightarrow> A = set (filter (\<lambda>l. l \<noteq> k) ks)"
  by auto

lemma jobs_ok_step:
  assumes "job_step limit st st'" and ok: "jobs_ok limit st"
  shows "jobs_ok limit st'"
  using assms(1)
proof (cases rule: job_step.cases)
  case (reserve key)
  with ok show ?thesis
    by (auto simp: jobs_ok_def job_reserve_def permits_held_def holds_permit_def cancellable_def less_Suc_eq)
next
  case (launch i)
  obtain bs t rest where s: "jr_tasks st = bs @ t # rest" "jt_phase t = Reserved" "jr_tasks st ! i = t"
    "\<And>q. jr_tasks (set_phase i q st) = bs @ t\<lparr>jt_phase := q\<rparr> # rest"
    using set_phase_split [OF launch(2)] by metis
  have canc: "jr_cancellations (job_launch i st) = bt_insert (jt_key t) (jt_token t) (jr_cancellations st)"
    by (simp add: job_launch_def s(3))
  have old: "bt_get (jr_cancellations st) k = Some n
      \<longleftrightarrow> (\<exists>u \<in> set (bs @ t # rest). jt_key u = k \<and> jt_token u = n \<and> cancellable u)" for k n
    using ok unfolding jobs_ok_def s(1) by blast
  have "jt_key t \<notin> jt_key ` (set bs \<union> set rest)"
    using ok unfolding jobs_ok_def s(1) by auto
  then have other: "jt_key u \<noteq> jt_key t" if "u \<in> set bs \<union> set rest" for u
    using that by (metis image_eqI)
  have "bt_get (jr_cancellations (job_launch i st)) k = Some n
      \<longleftrightarrow> (\<exists>u \<in> set (bs @ t\<lparr>jt_phase := Launched\<rparr> # rest). jt_key u = k \<and> jt_token u = n \<and> cancellable u)" for k n
    unfolding canc using old [of k n] other by (auto simp: bt_get_insert cancellable_def)
  with ok s show ?thesis
    unfolding launch(1) by (auto simp: jobs_ok_def job_launch_def permits_held_def holds_permit_def set_phase_def)
next
  case (begin_work i)
  obtain bs t rest where s: "jr_tasks st = bs @ t # rest" "jt_phase t = Launched" "jr_tasks st ! i = t"
    "\<And>q. jr_tasks (set_phase i q st) = bs @ t\<lparr>jt_phase := q\<rparr> # rest"
    using set_phase_split [OF begin_work(2)] by metis
  with ok begin_work(3) show ?thesis
    unfolding begin_work(1)
    by (auto simp: jobs_ok_def job_begin_def permits_held_def holds_permit_def cancellable_def set_phase_def)
next
  case (end_work i)
  obtain bs t rest where s: "jr_tasks st = bs @ t # rest" "jt_phase t = Working" "jr_tasks st ! i = t"
    "\<And>q. jr_tasks (set_phase i q st) = bs @ t\<lparr>jt_phase := q\<rparr> # rest"
    using set_phase_split [OF end_work(2)] by metis
  with ok show ?thesis
    unfolding end_work(1)
    by (auto simp: jobs_ok_def job_end_def permits_held_def holds_permit_def cancellable_def set_phase_def)
next
  case (unregister i)
  obtain bs t rest where s: "jr_tasks st = bs @ t # rest" "jt_phase t = Worked" "jr_tasks st ! i = t"
    "\<And>q. jr_tasks (set_phase i q st) = bs @ t\<lparr>jt_phase := q\<rparr> # rest"
    using set_phase_split [OF unregister(2)] by metis
  have canc: "jr_cancellations (job_unregister i st) = bt_remove (jt_key t) (jr_cancellations st)"
    by (simp add: job_unregister_def s(3))
  have old: "bt_get (jr_cancellations st) k = Some n
      \<longleftrightarrow> (\<exists>u \<in> set (bs @ t # rest). jt_key u = k \<and> jt_token u = n \<and> cancellable u)" for k n
    using ok unfolding jobs_ok_def s(1) by blast
  have "jt_key t \<notin> jt_key ` (set bs \<union> set rest)"
    using ok unfolding jobs_ok_def s(1) by auto
  then have other: "jt_key u \<noteq> jt_key t" if "u \<in> set bs \<union> set rest" for u
    using that by (metis image_eqI)
  have "bt_get (jr_cancellations (job_unregister i st)) k = Some n
      \<longleftrightarrow> (\<exists>u \<in> set (bs @ t\<lparr>jt_phase := Unregistered\<rparr> # rest). jt_key u = k \<and> jt_token u = n \<and> cancellable u)" for k n
    unfolding canc using old [of k n] other by (auto simp: bt_get_remove cancellable_def)
  with ok s show ?thesis
    unfolding unregister(1) by (auto simp: jobs_ok_def job_unregister_def permits_held_def holds_permit_def set_phase_def)
next
  case (release i)
  obtain bs t rest where s: "jr_tasks st = bs @ t # rest" "jt_phase t = Unregistered" "jr_tasks st ! i = t"
    "take i (jr_tasks st) @ drop (Suc i) (jr_tasks st) = bs @ rest"
    using set_phase_split [OF release(2)] by metis
  have idle: "\<not> cancellable t" "holds_permit t" "jt_phase t \<noteq> Working" using s(2) by (simp_all add: cancellable_def holds_permit_def)
  have tasks: "jr_tasks (job_release i st) = bs @ rest"
    and running: "jr_running (job_release i st) = filter (\<lambda>k. k \<noteq> jt_key t) (jr_running st)"
    and same: "jr_cancellations (job_release i st) = jr_cancellations st"
      "jr_next_token (job_release i st) = jr_next_token st" "jr_metrics (job_release i st) = jr_metrics st"
    by (simp_all add: job_release_def s(3,4))
  have "jt_key t \<notin> set (map jt_key (bs @ rest))" "insert (jt_key t) (set (map jt_key (bs @ rest))) = set (jr_running st)"
    using ok unfolding jobs_ok_def s(1) by simp_all
  then have keys: "set (map jt_key (bs @ rest)) = set (filter (\<lambda>k. k \<noteq> jt_key t) (jr_running st))"
    by (rule remove_key_set)
  have canc: "bt_get (jr_cancellations st) k = Some n
      \<longleftrightarrow> (\<exists>u \<in> set (bs @ rest). jt_key u = k \<and> jt_token u = n \<and> cancellable u)" for k n
    using ok idle(1) unfolding jobs_ok_def s(1) by auto
  show ?thesis
    unfolding release(1) jobs_ok_def permits_held_def tasks running same
  proof (intro conjI allI)
    show "set (map jt_key (bs @ rest)) = set (filter (\<lambda>k. k \<noteq> jt_key t) (jr_running st))" by (rule keys)
    show "bt_get (jr_cancellations st) k = Some n
      \<longleftrightarrow> (\<exists>u \<in> set (bs @ rest). jt_key u = k \<and> jt_token u = n \<and> cancellable u)" for k n
      by (rule canc)
  qed (use ok idle in \<open>simp_all add: jobs_ok_def permits_held_def s(1)\<close>)
next
  case (cancel key)
  with ok show ?thesis
    by (auto simp: jobs_ok_def job_cancel_def permits_held_def split: option.splits)
qed

lemma jobs_ok_new: "m_jobs_started m = m_jobs_finished m \<Longrightarrow> jobs_ok limit (job_runtime_new m)"
  by (simp add: jobs_ok_def job_runtime_new_def permits_held_def bt_get_def)

lemma jobs_ok_reachable:
  assumes "job_reachable limit m st" and "m_jobs_started m = m_jobs_finished m"
  shows "jobs_ok limit st"
  using assms(1)
proof (induction rule: job_reachable.induct)
  case idle
  show ?case by (rule jobs_ok_new [OF assms(2)])
next
  case (after st st')
  then show ?case by (blast intro: jobs_ok_step)
qed

text \<open>A cancellation finds the one task of its key, and marks the token of that task only.\<close>

lemma job_cancel_marks:
  assumes ok: "jobs_ok limit st" and t: "t \<in> set (jr_tasks st)" and c: "cancellable t"
  shows "fst (job_cancel (jt_key t) st)" and "jr_cancelled (snd (job_cancel (jt_key t) st)) = jt_token t # jr_cancelled st"
proof -
  have "bt_get (jr_cancellations st) (jt_key t) = Some (jt_token t)"
    using ok t c by (auto simp: jobs_ok_def)
  then show "fst (job_cancel (jt_key t) st)"
    and "jr_cancelled (snd (job_cancel (jt_key t) st)) = jt_token t # jr_cancelled st"
    by (simp_all add: job_cancel_def)
qed

lemma job_cancel_refused:
  assumes ok: "jobs_ok limit st" and none: "\<And>t. t \<in> set (jr_tasks st) \<Longrightarrow> jt_key t = key \<Longrightarrow> \<not> cancellable t"
  shows "job_cancel key st = (False, st)"
proof -
  have "bt_get (jr_cancellations st) key = None"
    using ok none unfolding jobs_ok_def by (metis not_None_eq)
  then show ?thesis by (simp add: job_cancel_def)
qed

text \<open>A launched or ending job is never stuck: the limit is at least one, so some task can move on.\<close>

lemma jobs_never_stuck:
  assumes "jr_tasks st \<noteq> []" and "0 < limit"
  shows "\<exists>i < length (jr_tasks st). in_phase Reserved i st \<or> (in_phase Launched i st \<and> permits_held st < limit)
           \<or> in_phase Working i st \<or> in_phase Worked i st \<or> in_phase Unregistered i st"
proof (cases "\<exists>i < length (jr_tasks st). jt_phase (jr_tasks st ! i) \<noteq> Launched")
  case True
  then obtain i where "i < length (jr_tasks st)" "jt_phase (jr_tasks st ! i) \<noteq> Launched" by blast
  then show ?thesis by (intro exI [of _ i]) (cases "jt_phase (jr_tasks st ! i)"; simp add: in_phase_def)
next
  case False
  then have "filter holds_permit (jr_tasks st) = []"
    by (auto simp: filter_empty_conv holds_permit_def in_set_conv_nth)
  then have "permits_held st = 0" by (simp add: permits_held_def)
  with assms False show ?thesis by (intro exI [of _ 0]) (auto simp: in_phase_def)
qed

end
