(* ===== verification/Miya_Text.thy ===== *)
theory Miya_Text
  imports Miya_Collections
begin

text \<open>
  More of the standard library's text operations, which the adapters of the providers and the API share:
  replacing, suffixes, trimming a character, positions of a text in another, and the decoding of bytes
  (\<^verbatim>\<open>String::from_utf8_lossy\<close>) with its inverse property.
\<close>

section \<open>Replacing\<close>

text \<open>\<^verbatim>\<open>str::replace\<close>: from the left, without overlaps. The sources never replace the empty text.\<close>

function replace_str :: "ustr \<Rightarrow> ustr \<Rightarrow> ustr \<Rightarrow> ustr" where
  "replace_str p r [] = []"
| "replace_str p r (c # s) =
     (if p \<noteq> [] \<and> starts_with (c # s) p then r @ replace_str p r (drop (length p) (c # s))
      else c # replace_str p r s)"
  by pat_completeness auto

termination
proof (relation "measure (\<lambda>(p, r, s). length s)")
  fix p r :: ustr and c :: nat and s :: ustr
  assume "p \<noteq> [] \<and> starts_with (c # s) p"
  then have "0 < length p" by simp
  then show "((p, r, drop (length p) (c # s)), p, r, c # s) \<in> measure (\<lambda>(p, r, s). length s)"
    by simp
qed simp_all

text \<open>\<^verbatim>\<open>trim_matches\<close> of one character, and \<^verbatim>\<open>trim_start_matches\<close> of a text.\<close>

definition trim_char :: "nat \<Rightarrow> ustr \<Rightarrow> ustr" where
  "trim_char c s = rev (dropWhile (\<lambda>x. x = c) (rev (dropWhile (\<lambda>x. x = c) s)))"

function trim_prefixes :: "ustr \<Rightarrow> ustr \<Rightarrow> ustr" where
  "trim_prefixes p s = (if p \<noteq> [] \<and> s \<noteq> [] \<and> starts_with s p then trim_prefixes p (drop (length p) s) else s)"
  by pat_completeness auto

termination
  by (relation "measure (\<lambda>(p, s). length s)") auto

declare trim_prefixes.simps [simp del]

section \<open>Suffixes and positions\<close>

definition strip_suffix :: "ustr \<Rightarrow> ustr \<Rightarrow> ustr option" where
  "strip_suffix suffix s = (if ends_with s suffix then Some (take (length s - length suffix) s) else None)"

lemma ends_with_append: "ends_with (s @ t) t"
  by (simp add: ends_with_def starts_with_def)

lemma strip_suffix_append: "strip_suffix t (s @ t) = Some s"
  by (simp add: strip_suffix_def ends_with_append)

lemma strip_suffix_Some: "strip_suffix t s = Some r \<longleftrightarrow> s = r @ t"
proof
  assume a: "strip_suffix t s = Some r"
  then have "take (length t) (rev s) = rev t"
    by (simp add: strip_suffix_def ends_with_def starts_with_def split: if_splits)
  then have "rev s = rev t @ drop (length t) (rev s)"
    by (metis append_take_drop_id)
  then have "s = rev (drop (length t) (rev s)) @ t"
    by (metis rev_append rev_rev_ident)
  then obtain u where u: "s = u @ t" ..
  with a show "s = r @ t"
    by (simp add: strip_suffix_append)
qed (simp add: strip_suffix_append)

lemma starts_with_iff: "starts_with s p \<longleftrightarrow> (\<exists>r. s = p @ r)"
  by (metis append_eq_conv_conj append_take_drop_id starts_with_def)

lemma split_once_append:
  "split_once p s = Some (a, b) \<Longrightarrow> s = a @ p @ b"
proof (induction p s arbitrary: a b rule: split_once.induct)
  case (2 p c s)
  show ?case
  proof (cases "starts_with (c # s) p")
    case True
    with 2 show ?thesis by (auto simp: starts_with_iff)
  next
    case False
    with 2 show ?thesis by auto
  qed
qed (auto split: if_splits)

lemma rsplit_once_append: "rsplit_once p s = Some (a, b) \<Longrightarrow> s = a @ p @ b"
proof -
  assume "rsplit_once p s = Some (a, b)"
  then obtain x y where "split_once (rev p) (rev s) = Some (x, y)" and ab: "a = rev y" "b = rev x"
    by (auto simp: rsplit_once_def)
  then have "rev s = x @ rev p @ y" by (intro split_once_append)
  then have "s = rev (x @ rev p @ y)" by (metis rev_rev_ident)
  with ab show "s = a @ p @ b" by simp
qed

lemma contains_str_iff: "contains_str s p \<longleftrightarrow> (\<exists>a b. s = a @ p @ b)"
proof
  assume "contains_str s p"
  then obtain a b where "split_once p s = Some (a, b)" by (auto simp: contains_str_def)
  from split_once_append [OF this] show "\<exists>a b. s = a @ p @ b" by blast
next
  assume "\<exists>a b. s = a @ p @ b"
  then obtain a b where "s = a @ p @ b" by blast
  then have "split_once p s \<noteq> None"
  proof (induction a arbitrary: s)
    case Nil
    show ?case
    proof (cases s)
      case (Cons d t)
      moreover have "starts_with s p" using Nil by (auto simp: starts_with_iff)
      ultimately show ?thesis by simp
    qed (use Nil in simp)
  next
    case (Cons c a)
    then show ?case by auto
  qed
  then show "contains_str s p" by (simp add: contains_str_def)
qed

lemma contains_str_rev: "contains_str (rev s) (rev p) = contains_str s p"
proof -
  have "contains_str s p \<Longrightarrow> contains_str (rev s) (rev p)" for s p :: ustr
    unfolding contains_str_iff by (elim exE) (metis append_assoc rev_append)
  from this [of s p] this [of "rev s" "rev p"] show ?thesis by auto
qed

text \<open>The first occurrence of a text whose first character does not come back in it.\<close>

lemma split_once_first:
  assumes "q \<noteq> []" and "hd q \<notin> set (tl q)" and "\<not> contains_str x q"
  shows "split_once q (x @ q @ y) = Some (x, y)"
  using assms(3)
proof (induction x)
  case Nil
  from assms(1) show ?case by (cases q) (simp_all add: starts_with_def)
next
  case (Cons c x)
  have "\<not> starts_with (c # x @ q @ y) q"
  proof
    assume "starts_with (c # x @ q @ y) q"
    then obtain r where r: "(c # x) @ q @ y = q @ r" by (auto simp: starts_with_iff)
    from append_eq_append_conv2 [THEN iffD1, OF this]
    obtain us where "c # x = q @ us \<or> (c # x) @ us = q \<and> q @ y = us @ r" by blast
    then show False
    proof
      assume "c # x = q @ us"
      then have "c # x = [] @ q @ us" by simp
      with Cons.prems show False unfolding contains_str_iff by blast
    next
      assume us: "(c # x) @ us = q \<and> q @ y = us @ r"
      show False
      proof (cases us)
        case Nil
        with us have "c # x = [] @ q @ []" by simp
        with Cons.prems show False unfolding contains_str_iff by blast
      next
        case (Cons d vs)
        with us assms(1) have "d = hd q" by (cases q) auto
        moreover have "d \<in> set (tl q)" using us Cons by (cases q) auto
        ultimately show False using assms(2) by simp
      qed
    qed
  qed
  moreover have "\<not> contains_str x q"
    using Cons.prems unfolding contains_str_iff by (metis append_Cons)
  ultimately show ?case using Cons.IH by simp
qed

lemma rsplit_once_last:
  assumes "p \<noteq> []" and "last p \<notin> set (butlast p)" and "\<not> contains_str b p"
  shows "rsplit_once p (a @ p @ b) = Some (a, b)"
proof -
  have "hd (rev p) \<notin> set (tl (rev p))"
    using assms(1,2) by (cases p rule: rev_cases) auto
  then have "split_once (rev p) (rev b @ rev p @ rev a) = Some (rev b, rev a)"
    using assms(1,3) by (intro split_once_first) (simp_all add: contains_str_rev)
  then show ?thesis by (simp add: rsplit_once_def)
qed

lemma rsplit_once_None: "rsplit_once p s = None \<longleftrightarrow> \<not> contains_str s p"
  unfolding contains_str_rev [of s p, symmetric]
  by (cases "split_once (rev p) (rev s)") (simp_all add: rsplit_once_def contains_str_def)

lemma trim_trim [simp]: "trim (trim t) = trim t"
proof (cases "trim t = []")
  case True
  moreover have "trim [] = []" by (simp add: trim_def trim_start_def trim_end_def)
  ultimately show ?thesis by simp
next
  case False
  have twice: "dropWhile P (dropWhile P s) = dropWhile P s" for P :: "nat \<Rightarrow> bool" and s by (induction s) auto
  have e: "trim t = rev (dropWhile is_whitespace (rev (trim_start t)))" by (simp add: trim_def trim_end_def)
  have "trim_start (trim t) = trim t"
  proof -
    obtain w where w: "trim_start t = trim t @ w"
      unfolding e by (metis rev_append rev_rev_ident takeWhile_dropWhile_id)
    have "trim_start t \<noteq> []" using w False by simp
    then have "\<not> is_whitespace (hd (trim_start t))" by (simp add: trim_start_def hd_dropWhile)
    then have "\<not> is_whitespace (hd (trim t))" using w False by simp
    then show ?thesis using False by (cases "trim t") (simp_all add: trim_start_def)
  qed
  then show ?thesis by (simp add: trim_def [of "trim t"] trim_end_def) (simp add: e twice)
qed

text \<open>The part after the last occurrence of a text, and its position in characters.\<close>

definition rfind_str :: "ustr \<Rightarrow> ustr \<Rightarrow> nat option" where
  "rfind_str p s = map_option (\<lambda>(a, b). length a) (rsplit_once p s)"

section \<open>Decoding bytes\<close>

text \<open>
  A decoder of UTF-8 that never fails: bytes that start no character, and the longest start of a
  character that breaks off, each become one replacement character.
\<close>

definition replacement_char :: nat where
  "replacement_char = 0xFFFD"

definition utf8_cont :: "nat \<Rightarrow> bool" where
  "utf8_cont b \<longleftrightarrow> 128 \<le> b \<and> b < 192"

text \<open>Which second bytes may follow a first one: no overlong forms, no surrogates, nothing above 0x10FFFF.\<close>

definition utf8_second :: "nat \<Rightarrow> nat \<Rightarrow> bool" where
  "utf8_second b0 b1 \<longleftrightarrow>
     (if b0 = 0xE0 then 0xA0 \<le> b1 \<and> b1 < 192
      else if b0 = 0xED then 128 \<le> b1 \<and> b1 < 0xA0
      else if b0 = 0xF0 then 0x90 \<le> b1 \<and> b1 < 192
      else if b0 = 0xF4 then 128 \<le> b1 \<and> b1 < 0x90
      else utf8_cont b1)"

definition utf8_tail :: "nat \<Rightarrow> (nat \<Rightarrow> bool) \<Rightarrow> (nat \<Rightarrow> nat list \<Rightarrow> nat \<times> nat list) \<Rightarrow> nat list \<Rightarrow> nat \<times> nat list" where
  "utf8_tail acc ok k bs =
     (case bs of b # r \<Rightarrow> (if ok b then k (acc * 64 + (b - 128)) r else (replacement_char, bs))
      | [] \<Rightarrow> (replacement_char, []))"

definition utf8_char :: "nat \<Rightarrow> nat list \<Rightarrow> nat \<times> nat list" where
  "utf8_char b bs =
     (if b < 128 then (b, bs)
      else if 0xC2 \<le> b \<and> b \<le> 0xDF then utf8_tail (b - 192) utf8_cont Pair bs
      else if 0xE0 \<le> b \<and> b \<le> 0xEF then
        utf8_tail (b - 224) (utf8_second b) (\<lambda>a. utf8_tail a utf8_cont Pair) bs
      else if 0xF0 \<le> b \<and> b \<le> 0xF4 then
        utf8_tail (b - 240) (utf8_second b) (\<lambda>a. utf8_tail a utf8_cont (\<lambda>a. utf8_tail a utf8_cont Pair)) bs
      else (replacement_char, bs))"

lemma utf8_tail_le:
  "(\<And>a r. length (snd (f a r)) \<le> length r) \<Longrightarrow> length (snd (utf8_tail acc ok f bs)) \<le> length bs"
  by (auto simp: utf8_tail_def intro: le_SucI split: list.split)

lemma utf8_char_le: "length (snd (utf8_char b bs)) \<le> length bs"
  by (simp add: utf8_char_def utf8_tail_le)

function from_utf8_lossy :: "nat list \<Rightarrow> ustr" where
  "from_utf8_lossy [] = []"
| "from_utf8_lossy (b # bs) = fst (utf8_char b bs) # from_utf8_lossy (snd (utf8_char b bs))"
  by pat_completeness auto

termination
  by (relation "measure length") (simp_all add: less_Suc_eq_le utf8_char_le)

definition is_scalar :: "nat \<Rightarrow> bool" where
  "is_scalar c \<longleftrightarrow> c < 0xD800 \<or> 0xE000 \<le> c \<and> c < 0x110000"

lemma three_parts: "(c div 4096 * 64 + c div 64 mod 64) * 64 + c mod 64 = (c :: nat)"
proof -
  have "c div 4096 = c div 64 div 64" by (simp add: div_mult2_eq [symmetric])
  then have "c div 4096 * 64 + c div 64 mod 64 = c div 64" by simp
  then show ?thesis by simp
qed

lemma four_parts: "((c div 262144 * 64 + c div 4096 mod 64) * 64 + c div 64 mod 64) * 64 + c mod 64 = (c :: nat)"
proof -
  have "c div 262144 = c div 4096 div 64" by (simp add: div_mult2_eq [symmetric])
  then have "c div 262144 * 64 + c div 4096 mod 64 = c div 4096" by simp
  then show ?thesis using three_parts [of c] by simp
qed

lemma decode_char: "is_scalar c \<Longrightarrow> from_utf8_lossy (utf8_encode c @ bs) = c # from_utf8_lossy bs"
proof -
  assume c: "is_scalar c"
  consider "c < 128" | "128 \<le> c" "c < 2048" | "2048 \<le> c" "c < 65536" | "65536 \<le> c" by linarith
  then show ?thesis
  proof cases
    case 2
    then have "2 \<le> c div 64" "c div 64 < 32" by auto
    moreover have "c mod 64 < 64" by simp
    ultimately show ?thesis
      using 2 by (simp add: utf8_encode_def utf8_char_def utf8_tail_def utf8_cont_def)
  next
    case 3
    define x y z where "x = c div 4096" and "y = c div 64 mod 64" and "z = c mod 64"
    have enc: "utf8_encode c = [224 + x, 128 + y, 128 + z]" using 3 by (simp add: utf8_encode_def x_def y_def z_def)
    have lt: "x < 16" "y < 64" "z < 64" using 3 by (auto simp: x_def y_def z_def)
    have sum: "(x * 64 + y) * 64 + z = c" unfolding x_def y_def z_def by (rule three_parts)
    have "x = 0 \<Longrightarrow> 32 \<le> y" "x = 13 \<Longrightarrow> y < 32" using sum lt 3 c by (auto simp: is_scalar_def)
    then have "utf8_second (224 + x) (128 + y)" using lt by (auto simp: utf8_second_def utf8_cont_def)
    with lt sum show ?thesis by (simp add: enc utf8_char_def utf8_tail_def utf8_cont_def)
  next
    case 4
    define w x y z where "w = c div 262144" and "x = c div 4096 mod 64" and "y = c div 64 mod 64" and "z = c mod 64"
    have enc: "utf8_encode c = [240 + w, 128 + x, 128 + y, 128 + z]"
      using 4 by (simp add: utf8_encode_def w_def x_def y_def z_def)
    have "w < 5" using 4 c by (auto simp: is_scalar_def w_def)
    then have lt: "w < 5" "x < 64" "y < 64" "z < 64" by (simp_all add: x_def y_def z_def)
    have sum: "((w * 64 + x) * 64 + y) * 64 + z = c" unfolding w_def x_def y_def z_def by (rule four_parts)
    have "w = 0 \<Longrightarrow> 16 \<le> x" "w = 4 \<Longrightarrow> x < 16" using sum lt 4 c by (auto simp: is_scalar_def)
    then have "utf8_second (240 + w) (128 + x)" using lt by (auto simp: utf8_second_def utf8_cont_def)
    with lt sum show ?thesis by (simp add: enc utf8_char_def utf8_tail_def utf8_cont_def)
  qed (simp add: utf8_encode_def utf8_char_def)
qed

lemma decode_bytes_append:
  "list_all is_scalar s \<Longrightarrow> from_utf8_lossy (utf8_bytes s @ bs) = s @ from_utf8_lossy bs"
  by (induction s) (simp_all add: utf8_bytes_def decode_char)

lemma decode_bytes: "list_all is_scalar s \<Longrightarrow> from_utf8_lossy (utf8_bytes s) = s"
  using decode_bytes_append [of s "[]"] by simp

end
