(* ===== verification/Api_Models.thy ===== *)
theory Api_Models
  imports Api_Identity Api_Errors Miya_Text
begin

text \<open>
  \<^verbatim>\<open>api-server/src/lib.rs\<close>: the models a deployment offers and the aliases that name a model with a
  reasoning effort. The environment and the parser of \<^verbatim>\<open>serde_json\<close> are parameters.
\<close>

section \<open>Aliases\<close>

definition effort_model_suffixes :: "(ustr \<times> reasoning_effort) list" where
  "effort_model_suffixes =
     [(str ''-none'', EffortNone), (str ''-low'', EffortLow), (str ''-medium'', EffortMedium),
      (str ''-high'', EffortHigh), (str ''-xhigh'', EffortXHigh)]"

definition model_supports_effort_aliases :: "ustr \<Rightarrow> bool" where
  "model_supports_effort_aliases model \<longleftrightarrow> \<not> eq_ignore_ascii_case (trim model) (str ''mock'')"

definition split_effort_model_alias :: "ustr \<Rightarrow> (ustr \<times> reasoning_effort) option" where
  "split_effort_model_alias model =
     find_map (\<lambda>(suffix, effort).
        (case strip_suffix suffix (trim model) of
           None \<Rightarrow> None
         | Some base \<Rightarrow>
             (if base = [] \<or> \<not> model_supports_effort_aliases base then None else Some (base, effort))))
       effort_model_suffixes"

definition provider_model_for_request_model :: "ustr \<Rightarrow> ustr" where
  "provider_model_for_request_model model =
     (case split_effort_model_alias model of Some (base, _) \<Rightarrow> base | None \<Rightarrow> model)"

definition raw_request_with_provider_model :: "json \<Rightarrow> ustr \<Rightarrow> json" where
  "raw_request_with_provider_model raw request_model =
     (let provider_model = provider_model_for_request_model request_model
      in if provider_model \<noteq> request_model then json_set (str ''model'') (JString provider_model) raw else raw)"

section \<open>Lists of models\<close>

definition push_model_id :: "ustr \<Rightarrow> ustr list \<Rightarrow> ustr list" where
  "push_model_id v ids = (if trim v = [] \<or> trim v \<in> set ids then ids else ids @ [trim v])"

text \<open>\<^verbatim>\<open>serde_json::from_str::<Vec<String>>\<close>.\<close>

definition string_list_of_json :: "json \<Rightarrow> ustr list option" where
  "string_list_of_json v =
     (case v of
        JArray xs \<Rightarrow> (if list_all (\<lambda>x. json_as_str x \<noteq> None) xs then Some (filter_map json_as_str xs) else None)
      | _ \<Rightarrow> None)"

definition listed_models :: "(ustr \<Rightarrow> json option) \<Rightarrow> ustr \<Rightarrow> ustr list" where
  "listed_models json_parse raw =
     (if starts_with (trim_start raw) (str ''['')
      then (case Option.bind (json_parse raw) string_list_of_json of Some vs \<Rightarrow> vs | None \<Rightarrow> [])
      else split_on (\<lambda>c. c = 44 \<or> c = 59 \<or> c = 10) raw)"

definition parse_model_list :: "(ustr \<Rightarrow> json option) \<Rightarrow> ustr option \<Rightarrow> ustr list" where
  "parse_model_list json_parse raw =
     (case raw of None \<Rightarrow> [] | Some raw \<Rightarrow> fold push_model_id (listed_models json_parse raw) [])"

definition model_list_from_env :: "environment \<Rightarrow> (ustr \<Rightarrow> json option) \<Rightarrow> string list \<Rightarrow> ustr list" where
  "model_list_from_env vars json_parse names = parse_model_list json_parse (find_map (\<lambda>n. vars (str n)) names)"

definition push_effort_model_aliases :: "ustr \<Rightarrow> ustr list \<Rightarrow> ustr list" where
  "push_effort_model_aliases base ids =
     (if \<not> model_supports_effort_aliases base \<or> split_effort_model_alias base \<noteq> None then ids
      else fold (\<lambda>(suffix, _). push_model_id (base @ suffix)) effort_model_suffixes ids)"

definition configured_model_ids_from :: "(ustr \<Rightarrow> json option) \<Rightarrow> ustr option \<Rightarrow> ustr list" where
  "configured_model_ids_from json_parse raw =
     (let base_ids = push_model_id (str ''mock'') (parse_model_list json_parse raw)
      in fold (\<lambda>b ids. push_effort_model_aliases b (push_model_id b ids)) base_ids [])"

definition configured_model_ids :: "environment \<Rightarrow> (ustr \<Rightarrow> json option) \<Rightarrow> ustr list" where
  "configured_model_ids vars json_parse =
     configured_model_ids_from json_parse
       (find_map (\<lambda>n. vars (str n)) [''MULTI_AGENT_MODELS'', ''MIYA_MODELS'', ''OPENAI_MODELS''])"

definition model_compatibility_json :: "ustr \<Rightarrow> json" where
  "model_compatibility_json i = json_object
     [(str ''id'', JString i), (str ''object'', JString (str ''model'')), (str ''created'', json_u64 0),
      (str ''owned_by'', JString (str ''miya-api'')), (str ''type'', JString (str ''model'')),
      (str ''display_name'', JString i), (str ''created_at'', JString (str ''1970-01-01T00:00:00Z''))]"

definition models_body :: "ustr list \<Rightarrow> json" where
  "models_body ids =
     (let data = map model_compatibility_json ids;
          end_id = (\<lambda>m. case json_get (str ''id'') m of Some i \<Rightarrow> i | None \<Rightarrow> JNull)
      in json_object
           [(str ''object'', JString (str ''list'')), (str ''data'', JArray data),
            (str ''has_more'', JBool False),
            (str ''first_id'', if data = [] then JNull else end_id (hd data)),
            (str ''last_id'', if data = [] then JNull else end_id (last data))])"

definition model_retrieve :: "ustr list \<Rightarrow> ustr \<Rightarrow> http_error + json" where
  "model_retrieve ids model_id =
     (if model_id \<in> set ids then Inr (model_compatibility_json model_id)
      else Inl (not_found_response (str ''model not found: '' @ model_id)))"

section \<open>Lemmas\<close>

text \<open>No suffix is the end of another, so an alias names one model and one effort.\<close>

lemma suffix_unique:
  assumes "(s, e) \<in> set effort_model_suffixes" and "(s', e') \<in> set effort_model_suffixes"
    and "base @ s = base' @ s'"
  shows "s = s' \<and> e = e' \<and> base = base'"
proof -
  have "rev s @ rev base = rev s' @ rev base'" using assms(3) by (metis rev_append)
  then show ?thesis
    using assms(1,2) by (auto simp: effort_model_suffixes_def str_def)
qed

lemma split_alias_iff:
  "split_effort_model_alias model = Some (base, effort)
     \<longleftrightarrow> (\<exists>suffix. (suffix, effort) \<in> set effort_model_suffixes \<and> trim model = base @ suffix
           \<and> base \<noteq> [] \<and> model_supports_effort_aliases base)"
    (is "?l \<longleftrightarrow> ?r")
proof
  assume ?l
  then obtain p where "p \<in> set effort_model_suffixes"
    "(case p of (suffix, e) \<Rightarrow> (case strip_suffix suffix (trim model) of None \<Rightarrow> None
       | Some b \<Rightarrow> (if b = [] \<or> \<not> model_supports_effort_aliases b then None else Some (b, e)))) = Some (base, effort)"
    unfolding split_effort_model_alias_def by (elim find_map_SomeE) blast
  moreover obtain suffix e where "p = (suffix, e)" by fastforce
  ultimately show ?r
    by (intro exI [of _ suffix]) (simp add: strip_suffix_Some split: option.splits if_splits)
next
  assume ?r
  then obtain suffix where s: "(suffix, effort) \<in> set effort_model_suffixes" "trim model = base @ suffix"
    "base \<noteq> []" "model_supports_effort_aliases base"
    by blast
  let ?f = "\<lambda>(t, e). (case strip_suffix t (trim model) of None \<Rightarrow> None
       | Some b \<Rightarrow> (if b = [] \<or> \<not> model_supports_effort_aliases b then None else Some (b, e)))"
  have hit: "?f (suffix, effort) = Some (base, effort)" using s by (simp add: strip_suffix_append)
  have only: "?f (t, e) = None \<or> ?f (t, e) = Some (base, effort)" if "(t, e) \<in> set effort_model_suffixes" for t e
  proof (cases "strip_suffix t (trim model)")
    case (Some b)
    with s(2) have "base @ suffix = b @ t" by (simp add: strip_suffix_Some)
    from suffix_unique [OF s(1) that this] Some s show ?thesis by simp
  qed simp
  have "find_map ?f ps = Some (base, effort)"
    if "(suffix, effort) \<in> set ps" "set ps \<subseteq> set effort_model_suffixes" for ps
    using that
  proof (induction ps)
    case (Cons p ps)
    show ?case
    proof (cases "p = (suffix, effort)")
      case True
      with hit show ?thesis by simp
    next
      case False
      with Cons have "find_map ?f ps = Some (base, effort)" by auto
      moreover have "?f p = None \<or> ?f p = Some (base, effort)" using only Cons.prems(2) by (cases p) auto
      ultimately show ?thesis by (auto simp del: split_paired_All)
    qed
  qed simp
  with s(1) show ?l by (simp add: split_effort_model_alias_def)
qed

lemma push_model_id_ok:
  "distinct ids \<Longrightarrow> distinct (push_model_id v ids)" "set ids \<subseteq> set (push_model_id v ids)"
  "[] \<notin> set ids \<Longrightarrow> [] \<notin> set (push_model_id v ids)"
  by (auto simp: push_model_id_def)

lemma fold_push_ok:
  assumes "distinct ids \<and> [] \<notin> set ids"
  shows "distinct (fold push_model_id vs ids) \<and> [] \<notin> set (fold push_model_id vs ids)
    \<and> set ids \<subseteq> set (fold push_model_id vs ids)"
  using assms
proof (induction vs arbitrary: ids)
  case (Cons v vs)
  then have "distinct (push_model_id v ids) \<and> [] \<notin> set (push_model_id v ids)"
    using push_model_id_ok by blast
  from Cons.IH [OF this] show ?case
    using push_model_id_ok(2) [of ids v] by auto
qed simp

end
