(* ===== verification/Api_Normalize.thy ===== *)
theory Api_Normalize
  imports Api_Models Api_Types
begin

text \<open>
  \<^verbatim>\<open>api-server/src/lib.rs\<close>: the normalisation of a chat request and of a messages request into the one
  request the kernel runs. What the code takes from outside are the fields of \<open>normalize_env\<close>: the
  environment, Unicode lower case, the hash, the printer and the parser of \<^verbatim>\<open>serde_json\<close>, a fresh
  identifier and the texts of \<^verbatim>\<open>Debug\<close>.
\<close>

record normalize_env =
  ne_vars :: environment
  ne_lowercase :: "ustr \<Rightarrow> ustr"
  ne_sha :: "ustr \<Rightarrow> ustr"
  ne_json_text :: "json \<Rightarrow> ustr"
  ne_json_parse :: "ustr \<Rightarrow> json option"
  ne_fresh_id :: ustr
  ne_debug_openai :: "openai_message list \<Rightarrow> ustr"
  ne_debug_anthropic :: "anthropic_message list \<Rightarrow> ustr"

section \<open>Thinking and effort\<close>

definition is_gemma_system_token_model :: "normalize_env \<Rightarrow> ustr \<Rightarrow> bool" where
  "is_gemma_system_token_model env model \<longleftrightarrow>
     (let provider_model = provider_model_for_request_model model
      in contains_str (ne_lowercase env provider_model) (str ''gemma'')
         \<or> list_ex (\<lambda>m. eq_ignore_ascii_case m provider_model)
             (model_list_from_env (ne_vars env) (ne_json_parse env)
                [''MIYA_GEMMA_MODELS'', ''MULTI_AGENT_GEMMA_MODELS'', ''GEMMA_MODELS'']))"

definition thinking_format_of :: "normalize_env \<Rightarrow> ustr \<Rightarrow> json \<Rightarrow> thinking_format" where
  "thinking_format_of env model metadata =
     (let named = Option.bind (json_get (str ''thinking_format'') metadata) json_as_str
      in if named = Some (str ''qwen_dashscope'') then QwenDashScope
         else if named = Some (str ''qwen_chat_template'') then QwenChatTemplate
         else if named = Some (str ''gemma_system_token'') then GemmaSystemToken
         else if is_gemma_system_token_model env model then GemmaSystemToken
         else if contains_str (ne_lowercase env model) (str ''gemma'') then GemmaSystemToken
         else if contains_str (ne_lowercase env model) (str ''qwen'') then QwenChatTemplate
         else ThinkAuto)"

definition json_flag :: "string \<Rightarrow> json \<Rightarrow> bool option" where
  "json_flag k v = Option.bind (json_get (str k) v) json_as_bool"

definition json_text_field :: "string \<Rightarrow> json \<Rightarrow> ustr option" where
  "json_text_field k v = Option.bind (json_get (str k) v) json_as_str"

definition openai_thinking_explicitly_disabled :: "openai_chat_request \<Rightarrow> bool" where
  "openai_thinking_explicitly_disabled r \<longleftrightarrow>
     oc_enable_thinking r = Some False \<or> oc_preserve_thinking r = Some False
     \<or> json_flag ''thinking_mode'' (oc_metadata r) = Some False
     \<or> json_flag ''enable_thinking'' (oc_chat_template_kwargs r) = Some False
     \<or> json_flag ''enabled'' (oc_thinking r) = Some False
     \<or> json_flag ''enabled'' (oc_reasoning r) = Some False"

definition openai_thinking_enabled :: "normalize_env \<Rightarrow> openai_chat_request \<Rightarrow> bool" where
  "openai_thinking_enabled env r \<longleftrightarrow>
     \<not> openai_thinking_explicitly_disabled r
     \<and> (oc_enable_thinking r = Some True \<or> oc_preserve_thinking r = Some True
        \<or> json_flag ''thinking_mode'' (oc_metadata r) = Some True
        \<or> json_flag ''enable_thinking'' (oc_chat_template_kwargs r) = Some True
        \<or> json_text_field ''type'' (oc_thinking r) = Some (str ''enabled'')
        \<or> json_flag ''enabled'' (oc_thinking r) = Some True
        \<or> json_flag ''enabled'' (oc_reasoning r) = Some True
        \<or> is_gemma_system_token_model env (oc_model r))"

definition anthropic_thinking_enabled :: "normalize_env \<Rightarrow> anthropic_messages_request \<Rightarrow> bool" where
  "anthropic_thinking_enabled env r \<longleftrightarrow>
     \<not> (json_flag ''thinking_mode'' (ar_metadata r) = Some False
        \<or> json_flag ''enabled'' (ar_thinking r) = Some False)
     \<and> (json_flag ''thinking_mode'' (ar_metadata r) = Some True
        \<or> json_text_field ''type'' (ar_thinking r) = Some (str ''enabled'')
        \<or> json_flag ''enabled'' (ar_thinking r) = Some True
        \<or> is_gemma_system_token_model env (ar_model r))"

definition parse_reasoning_effort :: "ustr \<Rightarrow> api_error + reasoning_effort" where
  "parse_reasoning_effort v =
     (let name = map to_ascii_lowercase (trim v)
      in if name = str ''none'' then Inr EffortNone
         else if name = str ''low'' then Inr EffortLow
         else if name = str ''medium'' then Inr EffortMedium
         else if name = str ''high'' then Inr EffortHigh
         else if name \<in> {str ''xhigh'', str ''x_high'', str ''extra_high''} then Inr EffortXHigh
         else Inl (InvalidRequest (str ''unsupported reasoning.effort='' @ name
                @ str ''; expected none, low, medium, high, or xhigh'')))"

text \<open>
  The first value that names an effort decides, whether its text can be read or not. A field
  \<^verbatim>\<open>effort\<close> that is no text hides the field \<^verbatim>\<open>reasoning_effort\<close> beside it.
\<close>

definition named_effort :: "json \<Rightarrow> ustr option" where
  "named_effort v = Option.bind (or_else (json_get (str ''effort'') v) (json_get (str ''reasoning_effort'') v)) json_as_str"

definition reasoning_effort_from_values :: "json list \<Rightarrow> api_error + reasoning_effort" where
  "reasoning_effort_from_values vs =
     (case find_map named_effort vs of
        Some effort \<Rightarrow> parse_reasoning_effort effort
      | None \<Rightarrow> Inr EffortMedium)"

definition top_level_reasoning_effort :: "json_map \<Rightarrow> api_error + reasoning_effort option" where
  "top_level_reasoning_effort extra =
     (case Option.bind (bt_get extra (str ''reasoning_effort'')) json_as_str of
        None \<Rightarrow> Inr None
      | Some v \<Rightarrow> ebind (parse_reasoning_effort v) (\<lambda>e. Inr (Some e)))"

definition effort_of_request :: "ustr \<Rightarrow> json_map \<Rightarrow> json list \<Rightarrow> api_error + reasoning_effort" where
  "effort_of_request model extra values =
     (case split_effort_model_alias model of
        Some (_, effort) \<Rightarrow> Inr effort
      | None \<Rightarrow> ebind (top_level_reasoning_effort extra) (\<lambda>top.
          (case top of Some effort \<Rightarrow> Inr effort | None \<Rightarrow> reasoning_effort_from_values values)))"

definition get_or_null :: "string \<Rightarrow> json \<Rightarrow> json" where
  "get_or_null k v = (case json_get (str k) v of Some x \<Rightarrow> x | None \<Rightarrow> JNull)"

definition openai_reasoning_effort :: "openai_chat_request \<Rightarrow> api_error + reasoning_effort" where
  "openai_reasoning_effort r =
     effort_of_request (oc_model r) (oc_extra r)
       [oc_reasoning r, get_or_null ''reasoning'' (oc_metadata r), oc_metadata r]"

definition anthropic_reasoning_effort :: "anthropic_messages_request \<Rightarrow> api_error + reasoning_effort" where
  "anthropic_reasoning_effort r =
     effort_of_request (ar_model r) (ar_extra r)
       [ar_reasoning r, get_or_null ''reasoning'' (ar_metadata r), ar_thinking r, ar_metadata r]"

section \<open>Options for the provider\<close>

definition gateway_extra_options :: "ustr list" where
  "gateway_extra_options = map str
     [''include_reasoning'', ''include_thinking'', ''show_reasoning'', ''return_reasoning'',
      ''reasoning_content'', ''reasoning_effort'']"

definition is_gateway_extra_option :: "ustr \<Rightarrow> bool" where
  "is_gateway_extra_option key \<longleftrightarrow> key \<in> set gateway_extra_options"

definition non_empty_object :: "json_map \<Rightarrow> json option" where
  "non_empty_object m = (if m = [] then None else Some (JObject m))"

definition sanitized_reasoning_options :: "json \<Rightarrow> json option" where
  "sanitized_reasoning_options v =
     Option.bind (json_as_object v) (\<lambda>object. non_empty_object (bt_remove (str ''effort'') object))"

definition gateway_metadata_keys :: "ustr list" where
  "gateway_metadata_keys = map str
     [''tenant_id'', ''tenant'', ''organization_id'', ''project_id'', ''request_id'', ''correlation_id'',
      ''conversation_id'', ''thread_id'', ''session_id'', ''context'', ''include_context_report'',
      ''include_encrypted_subagent_state'', ''include_reasoning'', ''include_thinking'', ''show_reasoning'',
      ''return_reasoning'', ''reasoning_content'', ''agent'', ''orchestration'', ''max_parallel_agents'',
      ''parallel_agents'', ''thinking_mode'', ''thinking_format'']"

definition sanitized_provider_metadata :: "json \<Rightarrow> json option" where
  "sanitized_provider_metadata v =
     Option.bind (json_as_object v) (\<lambda>object. non_empty_object (fold bt_remove gateway_metadata_keys object))"

definition insert_some :: "string \<Rightarrow> json option \<Rightarrow> json_map \<Rightarrow> json_map" where
  "insert_some k v m = (case v of Some x \<Rightarrow> bt_insert (str k) x m | None \<Rightarrow> m)"

definition client_options :: "json_map \<Rightarrow> json_map" where
  "client_options extra =
     fold (\<lambda>(k, v) m. if is_gateway_extra_option k then m else bt_insert k v m) extra []"

definition openai_provider_options :: "openai_chat_request \<Rightarrow> json" where
  "openai_provider_options r =
     JObject (insert_some ''metadata'' (sanitized_provider_metadata (oc_metadata r))
       (insert_some ''reasoning'' (sanitized_reasoning_options (oc_reasoning r)) (client_options (oc_extra r))))"

definition anthropic_provider_options :: "anthropic_messages_request \<Rightarrow> json" where
  "anthropic_provider_options r =
     JObject (insert_some ''thinking'' (if ar_thinking r = JNull then None else Some (ar_thinking r))
       (insert_some ''metadata'' (sanitized_provider_metadata (ar_metadata r)) (client_options (ar_extra r))))"

section \<open>The choice of a tool\<close>

definition invalid :: "string \<Rightarrow> api_error + 'a" where
  "invalid message = Inl (InvalidRequest (str message))"

definition tool_name_of :: "json option \<Rightarrow> string \<Rightarrow> api_error + tool_choice" where
  "tool_name_of v message =
     (case Option.bind v json_as_str of
        Some name \<Rightarrow> (if is_blank name then invalid message else Inr (ToolNamed name))
      | None \<Rightarrow> invalid message)"

definition openai_tool_choice :: "json \<Rightarrow> api_error + tool_choice" where
  "openai_tool_choice v =
     (case v of
        JNull \<Rightarrow> Inr ToolAuto
      | JString choice \<Rightarrow>
          (if choice = str ''auto'' then Inr ToolAuto
           else if choice = str ''none'' then Inr ToolNone
           else if choice = str ''required'' then Inr ToolRequired
           else Inl (InvalidRequest (str ''unsupported OpenAI tool_choice='' @ choice)))
      | JObject object \<Rightarrow>
          (if Option.bind (bt_get object (str ''type'')) json_as_str \<noteq> Some (str ''function'')
           then invalid ''OpenAI object tool_choice must use type=function''
           else tool_name_of (Option.bind (bt_get object (str ''function'')) (json_get (str ''name'')))
                  ''OpenAI named tool_choice must include function.name'')
      | _ \<Rightarrow> invalid ''OpenAI tool_choice must be a string or object'')"

definition openai_function_call_choice :: "json \<Rightarrow> api_error + tool_choice" where
  "openai_function_call_choice v =
     (case v of
        JNull \<Rightarrow> Inr ToolAuto
      | JString choice \<Rightarrow>
          (if choice = str ''auto'' then Inr ToolAuto
           else if choice = str ''none'' then Inr ToolNone
           else Inl (InvalidRequest (str ''unsupported OpenAI function_call='' @ choice)))
      | JObject object \<Rightarrow>
          tool_name_of (bt_get object (str ''name'')) ''OpenAI function_call object must include name''
      | _ \<Rightarrow> invalid ''OpenAI function_call must be a string or object'')"

definition openai_effective_tool_choice :: "openai_chat_request \<Rightarrow> api_error + tool_choice" where
  "openai_effective_tool_choice r =
     (if oc_tool_choice r \<noteq> JNull then openai_tool_choice (oc_tool_choice r)
      else openai_function_call_choice (oc_function_call r))"

definition anthropic_choice_of_type :: "json_map \<Rightarrow> ustr \<Rightarrow> api_error + tool_choice" where
  "anthropic_choice_of_type object kind =
     (if kind = str ''auto'' then Inr ToolAuto
      else if kind = str ''none'' then Inr ToolNone
      else if kind = str ''any'' then Inr ToolRequired
      else if kind = str ''tool''
      then tool_name_of (bt_get object (str ''name'')) ''Anthropic tool tool_choice must include name''
      else Inl (InvalidRequest (str ''unsupported Anthropic tool_choice.type='' @ kind)))"

definition anthropic_tool_choice :: "json \<Rightarrow> api_error + tool_choice \<times> bool option" where
  "anthropic_tool_choice v =
     (case v of
        JNull \<Rightarrow> Inr (ToolAuto, None)
      | JString choice \<Rightarrow>
          (if choice = str ''auto'' then Inr (ToolAuto, None)
           else if choice = str ''none'' then Inr (ToolNone, None)
           else if choice \<in> {str ''any'', str ''required''} then Inr (ToolRequired, None)
           else Inl (InvalidRequest (str ''unsupported Anthropic tool_choice='' @ choice)))
      | JObject object \<Rightarrow>
          (case Option.bind (bt_get object (str ''type'')) json_as_str of
             None \<Rightarrow> invalid ''Anthropic tool_choice must include type''
           | Some kind \<Rightarrow>
               ebind (anthropic_choice_of_type object kind) (\<lambda>choice.
                 Inr (choice, map_option Not
                   (Option.bind (bt_get object (str ''disable_parallel_tool_use'')) json_as_bool))))
      | _ \<Rightarrow> invalid ''Anthropic tool_choice must be a string or object'')"

fun validate_tool_choice :: "tool_choice \<Rightarrow> tool_definition list \<Rightarrow> api_error + unit" where
  "validate_tool_choice ToolAuto tools = Inr ()"
| "validate_tool_choice ToolNone tools = Inr ()"
| "validate_tool_choice ToolRequired tools =
     (if tools = [] then invalid ''tool_choice=required requires at least one tool'' else Inr ())"
| "validate_tool_choice (ToolNamed name) tools =
     (if list_ex (\<lambda>t. td_name t = name) tools then Inr ()
      else Inl (InvalidRequest (str ''unknown tool_choice named tool: '' @ name)))"

definition tool_of_function :: "openai_function \<Rightarrow> tool_definition" where
  "tool_of_function f =
     \<lparr>td_name = of_name f, td_description = of_description f, td_input_schema = of_parameters f\<rparr>"

definition openai_tool_definitions :: "openai_tool list \<Rightarrow> openai_function list \<Rightarrow> tool_definition list" where
  "openai_tool_definitions tools functions =
     map (\<lambda>t. tool_of_function (ot_function t)) tools @ map tool_of_function functions"

definition tool_of_anthropic :: "anthropic_tool \<Rightarrow> tool_definition" where
  "tool_of_anthropic t =
     \<lparr>td_name = at_name t, td_description = at_description t, td_input_schema = at_input_schema t\<rparr>"

definition legacy_function_call_id :: "ustr \<Rightarrow> tool_call_id" where
  "legacy_function_call_id name = str ''legacy-function-'' @ name"

end
