(* ===== verification/Api_Normalize_Messages.thy ===== *)
theory Api_Normalize_Messages
  imports Api_Normalize
begin

text \<open>
  \<^verbatim>\<open>api-server/src/lib.rs\<close>: the messages of a request as the kernel takes them, with the media and the
  tool results they bring (\<^verbatim>\<open>normalize_openai_chat_with_context\<close>,
  \<^verbatim>\<open>normalize_anthropic_messages_with_context\<close>). The three vectors the loops fill are the state
  \<open>norm_state\<close>.
\<close>

section \<open>Media\<close>

definition media_type_from_data_url :: "ustr \<Rightarrow> ustr" where
  "media_type_from_data_url url =
     (case Option.bind (strip_prefix (str ''data:'') url) (split_once [59]) of
        Some (media_type, _) \<Rightarrow> (if media_type = [] then str ''application/octet-stream'' else media_type)
      | None \<Rightarrow> str ''application/octet-stream'')"

definition media_id :: "nat \<Rightarrow> artifact_id" where
  "media_id index = str ''media-'' @ show_nat index"

definition media_of :: "normalize_env \<Rightarrow> isolation_key \<Rightarrow> nat \<Rightarrow> ustr \<Rightarrow> ustr \<Rightarrow> media_source \<Rightarrow> media_artifact" where
  "media_of env scope index media_type content source =
     \<lparr>ma_id = media_id index, ma_scope = scope, ma_media_type = media_type, ma_source = source,
      ma_sha256 = ne_sha env content, ma_byte_len = Some (word_of_nat (utf8_len content))\<rparr>"

definition media_from_openai_url :: "normalize_env \<Rightarrow> isolation_key \<Rightarrow> nat \<Rightarrow> ustr \<Rightarrow> media_artifact" where
  "media_from_openai_url env scope index url =
     (if starts_with url (str ''data:'')
      then media_of env scope index (media_type_from_data_url url) url (DataUrl url)
      else media_of env scope index (str ''image/unknown'') url (RemoteUrl url))"

definition media_from_anthropic_source ::
  "normalize_env \<Rightarrow> isolation_key \<Rightarrow> nat \<Rightarrow> anthropic_image_source \<Rightarrow> media_artifact" where
  "media_from_anthropic_source env scope index source =
     (case source of
        SourceBase64 media_type data \<Rightarrow> media_of env scope index media_type data (Base64 data)
      | SourceUrl url \<Rightarrow> media_of env scope index (str ''image/unknown'') url (RemoteUrl url))"

section \<open>Parts\<close>

record norm_state =
  ns_media :: "media_artifact list"
  ns_messages :: "normalized_message list"
  ns_results :: "tool_result_record list"
  ns_last_legacy :: "tool_call_id option"

definition normalize_role :: "ustr \<Rightarrow> message_role" where
  "normalize_role role =
     (if role = str ''system'' \<or> role = str ''developer'' then RoleSystem
      else if role = str ''assistant'' then RoleAssistant
      else if role = str ''tool'' then RoleTool
      else RoleUser)"

definition content_to_tool_result_json :: "normalize_env \<Rightarrow> openai_content option \<Rightarrow> json" where
  "content_to_tool_result_json env content =
     (case content of
        Some (ContentText t) \<Rightarrow> (case ne_json_parse env t of Some v \<Rightarrow> v | None \<Rightarrow> JString t)
      | _ \<Rightarrow> JNull)"

definition openai_tool_arguments :: "normalize_env \<Rightarrow> json \<Rightarrow> json" where
  "openai_tool_arguments env arguments =
     (case arguments of
        JString t \<Rightarrow> (case ne_json_parse env t of Some v \<Rightarrow> v | None \<Rightarrow> JString t)
      | other \<Rightarrow> other)"

definition tagged_provider_content :: "string \<Rightarrow> string \<Rightarrow> json \<Rightarrow> json_map \<Rightarrow> json" where
  "tagged_provider_content kind field payload extra =
     JObject (fold (\<lambda>(k, v). bt_insert k v) extra
       (bt_insert (str field) payload (bt_insert (str ''type'') (JString (str kind)) [])))"

definition tool_result_of ::
  "normalize_env \<Rightarrow> isolation_key \<Rightarrow> tool_call_id \<Rightarrow> json \<Rightarrow> tool_result_record" where
  "tool_result_of env scope call_id v =
     \<lparr>tr_tool_call_id = call_id, tr_scope = scope, tr_result_json = v,
      tr_result_sha256 = ne_sha env (ne_json_text env v), tr_status = Accepted\<rparr>"

definition add_media ::
  "isolation_key \<Rightarrow> (nat \<Rightarrow> media_artifact) \<Rightarrow> media_artifact list \<Rightarrow> normalized_content_part \<times> media_artifact list" where
  "add_media scope artifact_at media =
     (let artifact = artifact_at (length media)
      in (ImagePart \<lparr>ar_scope = scope, ar_artifact_id = ma_id artifact\<rparr>, media @ [artifact]))"

fun openai_part ::
  "normalize_env \<Rightarrow> isolation_key \<Rightarrow> openai_content_part \<Rightarrow> media_artifact list
     \<Rightarrow> normalized_content_part \<times> media_artifact list" where
  "openai_part env scope (PartText t) media = (TextPart t, media)"
| "openai_part env scope (PartImageUrl url) media =
     add_media scope (\<lambda>i. media_from_openai_url env scope i url) media"
| "openai_part env scope (PartInputAudio audio extra) media =
     (ProviderContentPart OpenAIChat (tagged_provider_content ''input_audio'' ''input_audio'' audio extra), media)"
| "openai_part env scope (PartFile file extra) media =
     (ProviderContentPart OpenAIChat (tagged_provider_content ''file'' ''file'' file extra), media)"
| "openai_part env scope (PartRefusal refusal) media =
     (ProviderContentPart OpenAIChat
        (json_object [(str ''type'', JString (str ''refusal'')), (str ''refusal'', JString refusal)]), media)"

fun parts_loop ::
  "('a \<Rightarrow> media_artifact list \<Rightarrow> normalized_content_part \<times> media_artifact list) \<Rightarrow> 'a list
     \<Rightarrow> media_artifact list \<Rightarrow> normalized_content_part list \<times> media_artifact list" where
  "parts_loop f [] media = ([], media)"
| "parts_loop f (x # xs) media =
     (case f x media of
        (p, media') \<Rightarrow> (case parts_loop f xs media' of (ps, media'') \<Rightarrow> (p # ps, media'')))"

definition openai_content_parts ::
  "normalize_env \<Rightarrow> isolation_key \<Rightarrow> openai_content option \<Rightarrow> media_artifact list
     \<Rightarrow> normalized_content_part list \<times> media_artifact list" where
  "openai_content_parts env scope content media =
     (case content of
        Some (ContentText t) \<Rightarrow> ([TextPart t], media)
      | Some (ContentParts parts) \<Rightarrow> parts_loop (openai_part env scope) parts media
      | None \<Rightarrow> ([], media))"

definition call_parts :: "normalize_env \<Rightarrow> openai_message \<Rightarrow> normalized_content_part list" where
  "call_parts env m =
     map (\<lambda>c. ToolCallPart (otc_id c) (cf_name (otc_function c)) (openai_tool_arguments env (cf_arguments (otc_function c))))
       (om_tool_calls m)
     @ (case om_function_call m of
          Some f \<Rightarrow> [ToolCallPart (legacy_function_call_id (cf_name f)) (cf_name f)
                      (openai_tool_arguments env (cf_arguments f))]
        | None \<Rightarrow> [])"

section \<open>Messages\<close>

definition push_tool_result :: "normalize_env \<Rightarrow> isolation_key \<Rightarrow> tool_call_id \<Rightarrow> json \<Rightarrow> norm_state \<Rightarrow> norm_state" where
  "push_tool_result env scope call_id v s =
     s\<lparr>ns_results := ns_results s @ [tool_result_of env scope call_id v],
       ns_messages := ns_messages s @ [\<lparr>nm_role = RoleTool, nm_content = [ToolResultPart call_id]\<rparr>]\<rparr>"

definition normalize_openai_message ::
  "normalize_env \<Rightarrow> isolation_key \<Rightarrow> openai_message \<Rightarrow> norm_state \<Rightarrow> api_error + norm_state" where
  "normalize_openai_message env scope m s =
     (if om_role m = str ''function'' then
        (case om_name m of
           None \<Rightarrow> invalid ''OpenAI function messages must include name''
         | Some name \<Rightarrow>
             Inr (push_tool_result env scope
                    (case ns_last_legacy s of Some i \<Rightarrow> i | None \<Rightarrow> legacy_function_call_id name)
                    (content_to_tool_result_json env (om_content m)) s))
      else if om_role m = str ''tool'' then
        (case om_tool_call_id m of
           None \<Rightarrow> invalid ''OpenAI tool messages must include tool_call_id''
         | Some call_id \<Rightarrow>
             Inr (push_tool_result env scope call_id (content_to_tool_result_json env (om_content m)) s))
      else
        (case openai_content_parts env scope (om_content m) (ns_media s) of
           (parts, media) \<Rightarrow>
             (let assistant = (om_role m = str ''assistant'')
              in Inr (s\<lparr>ns_media := media,
                        ns_messages := ns_messages s @
                          [\<lparr>nm_role = normalize_role (om_role m),
                            nm_content = parts @ (if assistant then call_parts env m else [])\<rparr>],
                        ns_last_legacy :=
                          (if assistant
                           then (case om_function_call m of
                                   Some f \<Rightarrow> Some (legacy_function_call_id (cf_name f)) | None \<Rightarrow> ns_last_legacy s)
                           else ns_last_legacy s)\<rparr>))))"

fun normalize_all :: "('m \<Rightarrow> norm_state \<Rightarrow> api_error + norm_state) \<Rightarrow> 'm list \<Rightarrow> norm_state \<Rightarrow> api_error + norm_state" where
  "normalize_all f [] s = Inr s"
| "normalize_all f (m # ms) s = ebind (f m s) (normalize_all f ms)"

definition norm_start :: norm_state where
  "norm_start = \<lparr>ns_media = [], ns_messages = [], ns_results = [], ns_last_legacy = None\<rparr>"

definition request_scope :: "normalize_env \<Rightarrow> request_context \<Rightarrow> ustr \<Rightarrow> ustr \<Rightarrow> isolation_key" where
  "request_scope env c source_format messages_debug =
     \<lparr>ik_tenant = context_tenant_id c, ik_request = context_request_id (ne_fresh_id env) c,
      ik_conversation = conversation_fingerprint_of (ne_sha env) c source_format (context_tenant_id c) messages_debug\<rparr>"

definition normalize_openai_chat ::
  "normalize_env \<Rightarrow> request_context \<Rightarrow> openai_chat_request \<Rightarrow> api_error + normalized_request" where
  "normalize_openai_chat env base r =
     (if oc_stream r then Inl StreamUnsupported
      else
       (let c = request_context_overrides (ne_sha env) base (oc_metadata r);
            scope = request_scope env c (str ''openai_chat'')
                      (ne_json_text env (JString (ne_debug_openai env (oc_messages r))));
            provider_model = provider_model_for_request_model (oc_model r)
        in ebind (openai_reasoning_effort r) (\<lambda>effort.
           ebind (openai_effective_tool_choice r) (\<lambda>choice.
           ebind (normalize_all (normalize_openai_message env scope) (oc_messages r) norm_start) (\<lambda>s.
           let tools = openai_tool_definitions (oc_tools r) (oc_functions r)
           in ebind (validate_tool_choice choice tools) (\<lambda>_.
             Inr \<lparr>nr_request_id = ik_request scope, nr_tenant_id = ik_tenant scope,
                  nr_conversation_fingerprint = ik_conversation scope, nr_source_format = OpenAIChat,
                  nr_model = provider_model, nr_messages = ns_messages s, nr_media_artifacts = ns_media s,
                  nr_tools = tools, nr_tool_choice = choice,
                  nr_parallel_tool_calls = oc_parallel_tool_calls r, nr_tool_results = ns_results s,
                  nr_stream = False, nr_thinking_enabled = openai_thinking_enabled env r,
                  nr_thinking_format = thinking_format_of env provider_model (oc_metadata r),
                  nr_reasoning_effort = effort, nr_public_reasoning_enabled = False,
                  nr_provider_options = openai_provider_options r, nr_metadata = oc_metadata r\<rparr>))))))"

section \<open>The messages interface\<close>

definition system_part ::
  "normalize_env \<Rightarrow> isolation_key \<Rightarrow> anthropic_content_block \<Rightarrow> media_artifact list
     \<Rightarrow> normalized_content_part option \<times> media_artifact list" where
  "system_part env scope b media =
     (case b of
        BlockText t \<Rightarrow> (Some (TextPart t), media)
      | BlockImage source \<Rightarrow>
          (case add_media scope (\<lambda>i. media_from_anthropic_source env scope i source) media of
             (p, media') \<Rightarrow> (Some p, media'))
      | BlockToolUse _ _ _ \<Rightarrow> (None, media)
      | BlockToolResult _ _ \<Rightarrow> (None, media)
      | BlockProviderContent v \<Rightarrow> (Some (ProviderContentPart AnthropicMessages v), media))"

fun system_parts_loop ::
  "normalize_env \<Rightarrow> isolation_key \<Rightarrow> anthropic_content_block list \<Rightarrow> media_artifact list
     \<Rightarrow> normalized_content_part list \<times> media_artifact list" where
  "system_parts_loop env scope [] media = ([], media)"
| "system_parts_loop env scope (b # bs) media =
     (case system_part env scope b media of
        (p, media') \<Rightarrow>
          (case system_parts_loop env scope bs media' of
             (ps, media'') \<Rightarrow> ((case p of Some q \<Rightarrow> q # ps | None \<Rightarrow> ps), media'')))"

definition anthropic_system_to_parts ::
  "normalize_env \<Rightarrow> isolation_key \<Rightarrow> anthropic_system \<Rightarrow> media_artifact list
     \<Rightarrow> normalized_content_part list \<times> media_artifact list" where
  "anthropic_system_to_parts env scope system media =
     (case system of
        SystemText t \<Rightarrow> ([TextPart t], media)
      | SystemBlocks bs \<Rightarrow> system_parts_loop env scope bs media)"

fun anthropic_part ::
  "normalize_env \<Rightarrow> isolation_key \<Rightarrow> anthropic_content_block \<Rightarrow> media_artifact list
     \<Rightarrow> normalized_content_part \<times> media_artifact list" where
  "anthropic_part env scope (BlockText t) media = (TextPart t, media)"
| "anthropic_part env scope (BlockImage source) media =
     add_media scope (\<lambda>i. media_from_anthropic_source env scope i source) media"
| "anthropic_part env scope (BlockToolUse i name input) media = (ToolCallPart i name input, media)"
| "anthropic_part env scope (BlockToolResult tool_use_id v) media = (ToolResultPart tool_use_id, media)"
| "anthropic_part env scope (BlockProviderContent v) media = (ProviderContentPart AnthropicMessages v, media)"

fun block_result :: "normalize_env \<Rightarrow> isolation_key \<Rightarrow> anthropic_content_block \<Rightarrow> tool_result_record option" where
  "block_result env scope (BlockToolResult tool_use_id v) = Some (tool_result_of env scope tool_use_id v)"
| "block_result env scope _ = None"

definition normalize_anthropic_message ::
  "normalize_env \<Rightarrow> isolation_key \<Rightarrow> anthropic_message \<Rightarrow> norm_state \<Rightarrow> api_error + norm_state" where
  "normalize_anthropic_message env scope m s =
     (let blocks = (case am_content m of MessageText t \<Rightarrow> [BlockText t] | MessageBlocks bs \<Rightarrow> bs)
      in case parts_loop (anthropic_part env scope) blocks (ns_media s) of
           (parts, media) \<Rightarrow>
             Inr (s\<lparr>ns_media := media,
                    ns_results := ns_results s @ filter_map (block_result env scope) blocks,
                    ns_messages := ns_messages s @ [\<lparr>nm_role = normalize_role (am_role m), nm_content = parts\<rparr>]\<rparr>))"

definition with_system ::
  "normalize_env \<Rightarrow> isolation_key \<Rightarrow> anthropic_system option \<Rightarrow> norm_state \<Rightarrow> norm_state" where
  "with_system env scope system s =
     (case system of
        None \<Rightarrow> s
      | Some system \<Rightarrow>
          (case anthropic_system_to_parts env scope system (ns_media s) of
             (parts, media) \<Rightarrow>
               s\<lparr>ns_media := media, ns_messages := ns_messages s @ [\<lparr>nm_role = RoleSystem, nm_content = parts\<rparr>]\<rparr>))"

definition normalize_anthropic_messages ::
  "normalize_env \<Rightarrow> request_context \<Rightarrow> anthropic_messages_request \<Rightarrow> api_error + normalized_request" where
  "normalize_anthropic_messages env base r =
     (if ar_stream r then Inl StreamUnsupported
      else
       (let c = request_context_overrides (ne_sha env) base (ar_metadata r);
            scope = request_scope env c (str ''anthropic_messages'')
                      (ne_json_text env (JString (ne_debug_anthropic env (ar_messages r))));
            provider_model = provider_model_for_request_model (ar_model r)
        in ebind (anthropic_reasoning_effort r) (\<lambda>effort.
           ebind (anthropic_tool_choice (ar_tool_choice r)) (\<lambda>(choice, parallel_tool_calls).
           ebind (normalize_all (normalize_anthropic_message env scope) (ar_messages r)
                    (with_system env scope (ar_system r) norm_start)) (\<lambda>s.
           let tools = map tool_of_anthropic (ar_tools r)
           in ebind (validate_tool_choice choice tools) (\<lambda>_.
             Inr \<lparr>nr_request_id = ik_request scope, nr_tenant_id = ik_tenant scope,
                  nr_conversation_fingerprint = ik_conversation scope, nr_source_format = AnthropicMessages,
                  nr_model = provider_model, nr_messages = ns_messages s, nr_media_artifacts = ns_media s,
                  nr_tools = tools, nr_tool_choice = choice,
                  nr_parallel_tool_calls = parallel_tool_calls, nr_tool_results = ns_results s,
                  nr_stream = False, nr_thinking_enabled = anthropic_thinking_enabled env r,
                  nr_thinking_format = thinking_format_of env provider_model (ar_metadata r),
                  nr_reasoning_effort = effort, nr_public_reasoning_enabled = False,
                  nr_provider_options = anthropic_provider_options r, nr_metadata = ar_metadata r\<rparr>))))))"

section \<open>Completions\<close>

definition completion_prompt_text :: "json \<Rightarrow> api_error + ustr" where
  "completion_prompt_text v =
     (case json_as_str v of
        Some t \<Rightarrow> Inr t
      | None \<Rightarrow>
          (case string_list_of_json v of
             Some parts \<Rightarrow> Inr (join [10] parts)
           | None \<Rightarrow> invalid ''OpenAI completions prompt must be a string or string array''))"

definition into_chat_request :: "openai_completion_request \<Rightarrow> api_error + openai_chat_request" where
  "into_chat_request r =
     ebind (completion_prompt_text (ol_prompt r)) (\<lambda>prompt.
       Inr \<lparr>oc_model = ol_model r,
            oc_messages = [\<lparr>om_role = str ''user'', om_content = Some (ContentText prompt), om_tool_calls = [],
              om_function_call = None, om_tool_call_id = None, om_name = None\<rparr>],
            oc_tools = [], oc_tool_choice = JNull, oc_functions = [], oc_function_call = JNull,
            oc_parallel_tool_calls = None, oc_thinking = ol_thinking r, oc_reasoning = ol_reasoning r,
            oc_chat_template_kwargs = ol_chat_template_kwargs r, oc_enable_thinking = ol_enable_thinking r,
            oc_preserve_thinking = ol_preserve_thinking r, oc_stream = ol_stream r,
            oc_metadata = ol_metadata r, oc_extra = ol_extra r\<rparr>)"

definition openai_tool_response_format :: "openai_chat_request \<Rightarrow> tool_response_format" where
  "openai_tool_response_format r =
     (if oc_functions r \<noteq> [] \<or> oc_function_call r \<noteq> JNull then LegacyFunctions else ToolsFormat)"

end
