(* ===== verification/Api_Normalize_Facts.thy ===== *)
theory Api_Normalize_Facts
  imports Api_Normalize_Messages
begin

text \<open>
  What normalisation guarantees: the media of a request are numbered without a repeat, every image part
  names one of them, every tool result belongs to a part of a message in the same order, and all of
  them carry the scope of the request; the options for the provider hold none of the gateway's keys.
\<close>

section \<open>The vectors the loops fill\<close>

definition numbered_media :: "isolation_key \<Rightarrow> media_artifact list \<Rightarrow> bool" where
  "numbered_media scope media \<longleftrightarrow>
     map ma_id media = map media_id [0..<length media] \<and> list_all (\<lambda>m. ma_scope m = scope) media"

definition resolves :: "isolation_key \<Rightarrow> media_artifact list \<Rightarrow> normalized_content_part \<Rightarrow> bool" where
  "resolves scope media p \<longleftrightarrow>
     (case p of
        ImagePart r \<Rightarrow> ar_scope r = scope \<and> (\<exists>m \<in> set media. ma_id m = ar_artifact_id r)
      | _ \<Rightarrow> True)"

definition result_part :: "normalized_content_part \<Rightarrow> tool_call_id option" where
  "result_part p = (case p of ToolResultPart i \<Rightarrow> Some i | _ \<Rightarrow> None)"

definition message_parts :: "normalized_message list \<Rightarrow> normalized_content_part list" where
  "message_parts ms = concat (map nm_content ms)"

definition norm_ok :: "isolation_key \<Rightarrow> norm_state \<Rightarrow> bool" where
  "norm_ok scope s \<longleftrightarrow>
     numbered_media scope (ns_media s)
     \<and> list_all (resolves scope (ns_media s)) (message_parts (ns_messages s))
     \<and> list_all (\<lambda>r. tr_scope r = scope) (ns_results s)
     \<and> map tr_tool_call_id (ns_results s) = filter_map result_part (message_parts (ns_messages s))"

lemma message_parts_simps [simp]:
  "message_parts [] = []" "message_parts (ms @ [m]) = message_parts ms @ nm_content m"
  by (simp_all add: message_parts_def)

lemma media_id_inject [simp]: "media_id i = media_id j \<longleftrightarrow> i = j"
  by (simp add: media_id_def)

lemma numbered_media_distinct: "numbered_media scope media \<Longrightarrow> distinct (map ma_id media)"
  by (simp add: numbered_media_def distinct_map inj_on_def)

lemma resolves_more:
  assumes "list_all (resolves scope media) ps"
  shows "list_all (resolves scope (media @ more')) ps"
  using assms unfolding list_all_iff
proof (intro ballI)
  fix p assume "\<forall>p \<in> set ps. resolves scope media p" and "p \<in> set ps"
  then have "resolves scope media p" by blast
  then show "resolves scope (media @ more') p" by (cases p) (auto simp: resolves_def)
qed

text \<open>A step on one part: the media grow at the end, and the part resolves among them.\<close>

definition grows :: "isolation_key \<Rightarrow> media_artifact list \<Rightarrow> normalized_content_part list \<Rightarrow> media_artifact list \<Rightarrow> bool" where
  "grows scope media ps media' \<longleftrightarrow>
     (numbered_media scope media \<longrightarrow> numbered_media scope media') \<and> (\<exists>more'. media' = media @ more')
     \<and> list_all (resolves scope media') ps"

lemma grows_same: "list_all (\<lambda>p. \<forall>r. p \<noteq> ImagePart r) ps \<Longrightarrow> grows scope media ps media"
  by (auto simp: grows_def resolves_def list_all_iff split: normalized_content_part.split)

lemma grows_media:
  assumes "\<And>i. ma_id (f i) = media_id i \<and> ma_scope (f i) = scope" and "add_media scope f media = (p, media')"
  shows "grows scope media [p] media'"
  using assms by (auto simp: add_media_def grows_def numbered_media_def resolves_def Let_def)

lemma grows_Cons:
  assumes "grows scope media [p] media'" and "grows scope media' ps media''"
  shows "grows scope media (p # ps) media''"
  using assms resolves_more [of scope media' "[p]"] by (auto simp: grows_def)

lemma media_facts:
  "ma_id (media_from_openai_url env scope i url) = media_id i \<and> ma_scope (media_from_openai_url env scope i url) = scope"
  "ma_id (media_from_anthropic_source env scope i source) = media_id i
   \<and> ma_scope (media_from_anthropic_source env scope i source) = scope"
  by (simp_all add: media_from_openai_url_def media_from_anthropic_source_def media_of_def split: anthropic_image_source.split)

lemma grows_openai_media:
  "add_media scope (\<lambda>i. media_from_openai_url env scope i url) media = (p, media') \<Longrightarrow> grows scope media [p] media'"
  by (rule grows_media [OF media_facts(1)])

lemma grows_anthropic_media:
  "add_media scope (\<lambda>i. media_from_anthropic_source env scope i source) media = (p, media') \<Longrightarrow> grows scope media [p] media'"
  by (rule grows_media [OF media_facts(2)])

lemma openai_part_grows: "openai_part env scope x media = (p, media') \<Longrightarrow> grows scope media [p] media'"
  by (cases x) (auto intro: grows_same grows_openai_media)

lemma anthropic_part_grows: "anthropic_part env scope x media = (p, media') \<Longrightarrow> grows scope media [p] media'"
  by (cases x) (auto intro: grows_same grows_anthropic_media)

lemma parts_loop_grows:
  assumes "\<And>x media p media'. f x media = (p, media') \<Longrightarrow> grows scope media [p] media'"
    and "parts_loop f xs media = (ps, media')"
  shows "grows scope media ps media'"
  using assms(2)
proof (induction xs arbitrary: media ps)
  case Nil
  then show ?case by (auto intro: grows_same)
next
  case (Cons x xs)
  obtain p m1 where p: "f x media = (p, m1)" by fastforce
  obtain qs m2 where q: "parts_loop f xs m1 = (qs, m2)" by fastforce
  with Cons p have "m2 = media'" "ps = p # qs" by simp_all
  with grows_Cons [OF assms(1) [OF p]] Cons.IH [of m1 qs] q show ?case by simp
qed

lemma system_parts_grows:
  "system_parts_loop env scope bs media = (ps, media') \<Longrightarrow> grows scope media ps media'"
proof (induction bs arbitrary: media ps media')
  case Nil
  then show ?case by (auto intro: grows_same)
next
  case (Cons b bs)
  obtain p m1 where p: "system_part env scope b media = (p, m1)" by fastforce
  obtain qs m2 where q: "system_parts_loop env scope bs m1 = (qs, m2)" by fastforce
  from Cons.IH [OF q] have rest: "grows scope m1 qs m2" .
  have "p = None \<and> m1 = media \<or> (\<exists>r. p = Some r \<and> grows scope media [r] m1)"
    using p grows_same [of _ scope media]
    by (cases b) (auto simp: system_part_def split: prod.splits dest: grows_anthropic_media)
  with rest Cons.prems p q show ?case by (auto intro: grows_Cons)
qed

lemma openai_parts_results: "parts_loop (openai_part env scope) xs media = (ps, media') \<Longrightarrow> filter_map result_part ps = []"
proof (induction xs arbitrary: media ps)
  case (Cons x xs)
  then show ?case by (cases x) (auto simp: add_media_def result_part_def Let_def split: prod.splits)
qed simp

lemma anthropic_parts_results:
  "parts_loop (anthropic_part env scope) xs media = (ps, media')
   \<Longrightarrow> filter_map result_part ps = map tr_tool_call_id (filter_map (block_result env scope) xs)"
proof (induction xs arbitrary: media ps)
  case (Cons x xs)
  then show ?case by (cases x) (auto simp: add_media_def result_part_def tool_result_of_def Let_def split: prod.splits)
qed simp

lemma system_parts_results:
  "system_parts_loop env scope bs media = (ps, media') \<Longrightarrow> filter_map result_part ps = []"
proof (induction bs arbitrary: media ps)
  case (Cons b bs)
  then show ?case
    by (cases b) (auto simp: system_part_def add_media_def result_part_def Let_def split: prod.splits)
qed simp

section \<open>Every message keeps them\<close>

lemma norm_ok_message:
  assumes "norm_ok scope s" and "grows scope (ns_media s) ps media'" and "list_all (\<lambda>r. tr_scope r = scope) rs"
    and "filter_map result_part ps = map tr_tool_call_id rs"
    and "ns_media s' = media'" and "ns_messages s' = ns_messages s @ [m]" and "nm_content m = ps"
    and "ns_results s' = ns_results s @ rs"
  shows "norm_ok scope s'"
  using assms resolves_more [of scope "ns_media s" "message_parts (ns_messages s)"]
  by (auto simp: norm_ok_def grows_def)

lemma filter_map_None: "\<forall>x \<in> set xs. f x = None \<Longrightarrow> filter_map f xs = []"
  by (induction xs) simp_all

lemma call_parts_facts:
  "filter_map result_part (call_parts env m) = []"
  "list_all (\<lambda>p. \<forall>r. p \<noteq> ImagePart r) (call_parts env m)"
proof -
  have "\<forall>p \<in> set (call_parts env m). result_part p = None"
    by (auto simp: call_parts_def result_part_def split: option.splits)
  then show "filter_map result_part (call_parts env m) = []" by (rule filter_map_None)
  show "list_all (\<lambda>p. \<forall>r. p \<noteq> ImagePart r) (call_parts env m)"
    by (auto simp: call_parts_def list_all_iff split: option.split)
qed

lemma grows_append:
  assumes "grows scope media ps media'" and "list_all (\<lambda>p. \<forall>r. p \<noteq> ImagePart r) qs"
  shows "grows scope media (ps @ qs) media'"
  using assms grows_same [OF assms(2), of scope media'] by (auto simp: grows_def)

lemma norm_ok_push_result: "norm_ok scope s \<Longrightarrow> norm_ok scope (push_tool_result env scope i v s)"
  by (simp add: norm_ok_def push_tool_result_def tool_result_of_def resolves_def result_part_def)

lemma norm_ok_openai_message:
  assumes "normalize_openai_message env scope m s = Inr s'" and "norm_ok scope s"
  shows "norm_ok scope s'"
proof -
  obtain ps media where c: "openai_content_parts env scope (om_content m) (ns_media s) = (ps, media)" by fastforce
  then have grow: "grows scope (ns_media s) ps media" and none: "filter_map result_part ps = []"
    using parts_loop_grows [OF openai_part_grows] openai_parts_results
    by (auto simp: openai_content_parts_def result_part_def intro: grows_same split: option.splits openai_content.splits)
  have calls: "grows scope (ns_media s) (ps @ (if b then call_parts env m else [])) media
      \<and> filter_map result_part (ps @ (if b then call_parts env m else [])) = []" for b
    using grows_append [OF grow call_parts_facts(2)] grow none call_parts_facts(1) by simp
  show ?thesis
  proof (cases "om_role m = str ''function'' \<or> om_role m = str ''tool''")
    case True
    with assms show ?thesis
      by (auto simp: normalize_openai_message_def invalid_def intro: norm_ok_push_result split: if_splits option.splits)
  next
    case False
    let ?b = "om_role m = str ''assistant''"
    from calls [of ?b] have "grows scope (ns_media s) (ps @ (if ?b then call_parts env m else [])) media"
      "filter_map result_part (ps @ (if ?b then call_parts env m else [])) = map tr_tool_call_id []"
      by simp_all
    note keep = norm_ok_message [OF assms(2) this(1) _ this(2)]
    from False assms(1) c show ?thesis
      by (intro keep) (auto simp: normalize_openai_message_def Let_def)
  qed
qed

lemma norm_ok_anthropic_message:
  assumes "normalize_anthropic_message env scope m s = Inr s'" and "norm_ok scope s"
  shows "norm_ok scope s'"
proof -
  define blocks where "blocks = (case am_content m of MessageText t \<Rightarrow> [BlockText t] | MessageBlocks bs \<Rightarrow> bs)"
  obtain ps media where c: "parts_loop (anthropic_part env scope) blocks (ns_media s) = (ps, media)" by fastforce
  have "list_all (\<lambda>r. tr_scope r = scope) (filter_map (block_result env scope) blocks)"
    by (auto simp: list_all_iff set_filter_map tool_result_of_def elim!: block_result.elims)
  with norm_ok_message [OF assms(2) parts_loop_grows [OF anthropic_part_grows c] this anthropic_parts_results [OF c]]
    assms(1) c
  show ?thesis
    by (auto simp: normalize_anthropic_message_def blocks_def [symmetric])
qed

lemma normalize_all_ok:
  assumes "\<And>m s s'. f m s = Inr s' \<Longrightarrow> norm_ok scope s \<Longrightarrow> norm_ok scope s'"
    and "normalize_all f ms s = Inr s'" and "norm_ok scope s"
  shows "norm_ok scope s'"
  using assms(2,3) by (induction ms arbitrary: s) (auto simp: ebind_Inr_iff intro: assms(1))

lemma norm_ok_start: "norm_ok scope norm_start"
  by (simp add: norm_ok_def norm_start_def numbered_media_def)

lemma norm_ok_system: "norm_ok scope (with_system env scope system norm_start)"
proof (cases system)
  case (Some sys)
  obtain ps media where c: "anthropic_system_to_parts env scope sys [] = (ps, media)" by fastforce
  then have "grows scope [] ps media" and "filter_map result_part ps = []"
    by (auto simp: anthropic_system_to_parts_def result_part_def
        intro: grows_same system_parts_grows system_parts_results split: anthropic_system.splits)
  then show ?thesis
    using Some c by (auto simp: with_system_def norm_ok_def norm_start_def grows_def numbered_media_def message_parts_def)
qed (simp add: with_system_def norm_ok_start)

section \<open>The options of the provider\<close>

lemma bt_get_fold_remove: "bt_get (fold bt_remove ks m) k = (if k \<in> set ks then None else bt_get m k)"
  by (induction ks arbitrary: m) (auto simp: bt_get_remove)

lemma client_options_get: "bt_get (client_options extra) k = (if is_gateway_extra_option k then None else map_of (rev extra) k)"
proof -
  have "bt_get (fold (\<lambda>(k, v) m. if is_gateway_extra_option k then m else bt_insert k v m) es m) k
      = (if is_gateway_extra_option k then bt_get m k
         else case map_of (rev es) k of Some v \<Rightarrow> Some v | None \<Rightarrow> bt_get m k)" for es m :: json_map
    by (induction es arbitrary: m) (auto simp: bt_get_insert map_add_def split: option.splits)
  then show ?thesis
    by (auto simp: client_options_def split: option.split)
qed

lemma map_of_rev_wf: "bt_wf m \<Longrightarrow> map_of (rev m) k = bt_get m k"
proof -
  assume "bt_wf m"
  then have "distinct (map fst m)" by (rule bt_wf_distinct)
  then show ?thesis
  proof (induction m)
    case (Cons e m)
    then have "fst e = k \<Longrightarrow> map_of m k = None" by (auto simp: map_of_eq_None_iff)
    with Cons show ?case
      by (cases e) (auto simp: bt_get_def map_add_def split: option.split)
  qed (simp add: bt_get_def)
qed

section \<open>Normalised requests\<close>

text \<open>The state of the loops, read off the request they build.\<close>

definition request_state :: "normalized_request \<Rightarrow> norm_state" where
  "request_state n =
     \<lparr>ns_media = nr_media_artifacts n, ns_messages = nr_messages n, ns_results = nr_tool_results n, ns_last_legacy = None\<rparr>"

lemma norm_ok_state:
  "norm_ok scope s \<Longrightarrow> ns_media s' = ns_media s \<Longrightarrow> ns_messages s' = ns_messages s \<Longrightarrow> ns_results s' = ns_results s
    \<Longrightarrow> norm_ok scope s'"
  by (simp add: norm_ok_def)

lemma normalize_openai_ok:
  assumes "normalize_openai_chat env base r = Inr n"
  shows "norm_ok (isolation_key_of n) (request_state n) \<and> validate_tool_choice (nr_tool_choice n) (nr_tools n) = Inr ()
    \<and> \<not> nr_stream n"
proof -
  let ?c = "request_context_overrides (ne_sha env) base (oc_metadata r)"
  let ?scope = "request_scope env ?c (str ''openai_chat'') (ne_json_text env (JString (ne_debug_openai env (oc_messages r))))"
  from assms obtain s where s: "normalize_all (normalize_openai_message env ?scope) (oc_messages r) norm_start = Inr s"
    and n: "nr_media_artifacts n = ns_media s" "nr_messages n = ns_messages s" "nr_tool_results n = ns_results s"
      "isolation_key_of n = ?scope" "\<not> nr_stream n" "validate_tool_choice (nr_tool_choice n) (nr_tools n) = Inr ()"
    by (auto simp: normalize_openai_chat_def Let_def ebind_Inr_iff isolation_key_of_def split: if_splits)
  from normalize_all_ok [OF norm_ok_openai_message s norm_ok_start] have "norm_ok ?scope s" .
  with n show ?thesis by (auto simp: request_state_def intro: norm_ok_state)
qed

lemma normalize_anthropic_ok:
  assumes "normalize_anthropic_messages env base r = Inr n"
  shows "norm_ok (isolation_key_of n) (request_state n) \<and> validate_tool_choice (nr_tool_choice n) (nr_tools n) = Inr ()
    \<and> \<not> nr_stream n"
proof -
  let ?c = "request_context_overrides (ne_sha env) base (ar_metadata r)"
  let ?scope = "request_scope env ?c (str ''anthropic_messages'')
    (ne_json_text env (JString (ne_debug_anthropic env (ar_messages r))))"
  from assms obtain s where s: "normalize_all (normalize_anthropic_message env ?scope) (ar_messages r)
      (with_system env ?scope (ar_system r) norm_start) = Inr s"
    and n: "nr_media_artifacts n = ns_media s" "nr_messages n = ns_messages s" "nr_tool_results n = ns_results s"
      "isolation_key_of n = ?scope" "\<not> nr_stream n" "validate_tool_choice (nr_tool_choice n) (nr_tools n) = Inr ()"
    by (auto simp: normalize_anthropic_messages_def Let_def ebind_Inr_iff isolation_key_of_def split: if_splits)
  from normalize_all_ok [OF norm_ok_anthropic_message s norm_ok_system] have "norm_ok ?scope s" .
  with n show ?thesis by (auto simp: request_state_def intro: norm_ok_state)
qed

text \<open>What reaches the provider beside the messages.\<close>

lemma insert_some_get:
  "bt_get (insert_some k v m) k' = (if k' = str k \<and> v \<noteq> None then v else bt_get m k')"
  by (cases v) (auto simp: insert_some_def bt_get_insert)

lemma sanitized_metadata_get:
  "sanitized_provider_metadata v = Some m \<Longrightarrow> json_get k m = (if k \<in> set gateway_metadata_keys then None else json_get k v)"
  by (cases v) (auto simp: sanitized_provider_metadata_def non_empty_object_def bt_get_fold_remove split: if_splits)

lemma sanitized_reasoning_get:
  "sanitized_reasoning_options v = Some m \<Longrightarrow> json_get k m = (if k = str ''effort'' then None else json_get k v)"
  by (cases v) (auto simp: sanitized_reasoning_options_def non_empty_object_def bt_get_remove split: if_splits)

lemma openai_options_get:
  "json_get k (openai_provider_options r) =
     (if k = str ''metadata'' \<and> sanitized_provider_metadata (oc_metadata r) \<noteq> None
      then sanitized_provider_metadata (oc_metadata r)
      else if k = str ''reasoning'' \<and> sanitized_reasoning_options (oc_reasoning r) \<noteq> None
      then sanitized_reasoning_options (oc_reasoning r)
      else if is_gateway_extra_option k then None else map_of (rev (oc_extra r)) k)"
  by (auto simp: openai_provider_options_def insert_some_get client_options_get)

lemma anthropic_options_get:
  "json_get k (anthropic_provider_options r) =
     (if k = str ''thinking'' \<and> ar_thinking r \<noteq> JNull then Some (ar_thinking r)
      else if k = str ''metadata'' \<and> sanitized_provider_metadata (ar_metadata r) \<noteq> None
      then sanitized_provider_metadata (ar_metadata r)
      else if is_gateway_extra_option k then None else map_of (rev (ar_extra r)) k)"
  by (auto simp: anthropic_provider_options_def insert_some_get client_options_get)

lemma request_state_simps:
  "ns_media (request_state n) = nr_media_artifacts n" "ns_messages (request_state n) = nr_messages n"
  "ns_results (request_state n) = nr_tool_results n"
  by (simp_all add: request_state_def)

lemma norm_ok_unfold:
  assumes "norm_ok scope s"
  shows "distinct (map ma_id (ns_media s)) \<and> (\<forall>m \<in> set (ns_media s). ma_scope m = scope)
    \<and> (\<forall>m \<in> set (ns_messages s). \<forall>i. ImagePart i \<in> set (nm_content m) \<longrightarrow>
         ar_scope i = scope \<and> ar_artifact_id i \<in> ma_id ` set (ns_media s))
    \<and> map tr_tool_call_id (ns_results s) = filter_map result_part (concat (map nm_content (ns_messages s)))
    \<and> (\<forall>t \<in> set (ns_results s). tr_scope t = scope)"
proof -
  have n: "numbered_media scope (ns_media s)" and r: "list_all (resolves scope (ns_media s)) (message_parts (ns_messages s))"
    using assms by (simp_all add: norm_ok_def)
  have "ar_scope i = scope \<and> ar_artifact_id i \<in> ma_id ` set (ns_media s)"
    if "m \<in> set (ns_messages s)" "ImagePart i \<in> set (nm_content m)" for m i
  proof -
    have "resolves scope (ns_media s) (ImagePart i)" using r that by (auto simp: list_all_iff message_parts_def)
    then show ?thesis unfolding resolves_def image_iff by (simp; metis)
  qed
  then have "\<forall>m \<in> set (ns_messages s). \<forall>i. ImagePart i \<in> set (nm_content m) \<longrightarrow>
         ar_scope i = scope \<and> ar_artifact_id i \<in> ma_id ` set (ns_media s)"
    by blast
  with n numbered_media_distinct [OF n] assms show ?thesis
    by (auto simp: norm_ok_def numbered_media_def list_all_iff message_parts_def)
qed

section \<open>Aliases\<close>

lemma trim_append_ink:
  assumes "trim base = base" and "base \<noteq> []" and "suffix \<noteq> []" and "\<not> is_whitespace (last suffix)"
  shows "trim (base @ suffix) = base @ suffix"
proof -
  have "\<not> is_whitespace (hd base)"
  proof
    assume w: "is_whitespace (hd base)"
    have "length (trim base) \<le> length (trim_start base)"
      using length_dropWhile_le [of is_whitespace "rev (trim_start base)"] by (simp add: trim_def trim_end_def)
    also have "length (trim_start base) < length base"
      using w assms(2) length_dropWhile_le [of is_whitespace "tl base"] by (cases base) (auto simp: trim_start_def)
    finally show False using assms(1) by simp
  qed
  then have "trim_start (base @ suffix) = base @ suffix" using assms(2) by (cases base) (simp_all add: trim_start_def)
  moreover have "dropWhile is_whitespace (rev (base @ suffix)) = rev (base @ suffix)"
    using assms(3,4) by (cases suffix rule: rev_cases) simp_all
  ultimately show ?thesis by (simp add: trim_def trim_end_def)
qed

lemma suffix_ink: "(suffix, effort) \<in> set effort_model_suffixes \<Longrightarrow> suffix \<noteq> [] \<and> \<not> is_whitespace (last suffix)"
  by (auto simp: effort_model_suffixes_def str_def is_whitespace_def)

lemma alias_split:
  assumes "trim base = base" and "base \<noteq> []" and "model_supports_effort_aliases base"
    and "(suffix, effort) \<in> set effort_model_suffixes"
  shows "split_effort_model_alias (base @ suffix) = Some (base, effort)"
  using assms suffix_ink [OF assms(4)] trim_append_ink [of base suffix] by (auto simp: split_alias_iff)

end
