(* ===== verification/Api_Text_Tools.thy ===== *)
theory Api_Text_Tools
  imports Api_Tool_Items Api_Normalize_Messages Miya_Text
begin

text \<open>
  \<^verbatim>\<open>api-server/src/lib.rs\<close>: tool calls that a model writes as text, and the markup around generated
  text. The scanners of the source run over an array of characters with an index; here they take the
  characters from the index on and return those that are left.
\<close>

definition sanitize_tool_name :: "ustr \<Rightarrow> ustr" where
  "sanitize_tool_name name =
     trim_char 95 (take 64 (map (\<lambda>ch. if is_ascii_alphanumeric ch \<or> ch = 95 \<or> ch = 45 then ch else 95) name))"

section \<open>Scanners\<close>

text \<open>After an opening quote: the text up to the closing one, with escaped characters as they are.\<close>

fun quoted_rest :: "bool \<Rightarrow> ustr \<Rightarrow> ustr \<Rightarrow> (ustr \<times> ustr) option" where
  "quoted_rest escaped output [] = None"
| "quoted_rest True output (ch # s) = quoted_rest False (output @ [ch]) s"
| "quoted_rest False output (ch # s) =
     (if ch = 92 then quoted_rest True output s
      else if ch = 34 then Some (output, s)
      else quoted_rest False (output @ [ch]) s)"

definition parse_quoted_fragment :: "ustr \<Rightarrow> (ustr \<times> ustr) option" where
  "parse_quoted_fragment s = (case s of ch # rest \<Rightarrow> (if ch = 34 then quoted_rest False [] rest else None) | [] \<Rightarrow> None)"

definition skip_summary_whitespace :: "ustr \<Rightarrow> ustr" where
  "skip_summary_whitespace s = dropWhile is_whitespace s"

definition skip_tool_call_separators :: "ustr \<Rightarrow> ustr" where
  "skip_tool_call_separators s = dropWhile (\<lambda>ch. is_whitespace ch \<or> ch = 44) s"

definition parse_tool_call_key :: "ustr \<Rightarrow> (ustr \<times> ustr) option" where
  "parse_tool_call_key s =
     (if s \<noteq> [] \<and> hd s = 34 then parse_quoted_fragment s
      else let stop = (\<lambda>ch. ch \<in> {58, 61, 44, 125});
               key = trim (takeWhile (\<lambda>ch. \<not> stop ch) s)
           in if key = [] then None else Some (key, dropWhile (\<lambda>ch. \<not> stop ch) s))"

fun marker_rest :: "ustr \<Rightarrow> ustr \<Rightarrow> ustr \<Rightarrow> (ustr \<times> ustr) option" where
  "marker_rest marker output [] = None"
| "marker_rest marker output (ch # s) =
     (if starts_with (ch # s) marker then Some (output, drop (length marker) (ch # s))
      else marker_rest marker (output @ [ch]) s)"

definition parse_marker_quoted_fragment :: "ustr \<Rightarrow> ustr \<Rightarrow> (ustr \<times> ustr) option" where
  "parse_marker_quoted_fragment marker s =
     (if starts_with s marker then marker_rest marker [] (drop (length marker) s) else None)"

definition quote_markers :: "ustr list" where
  "quote_markers = [str ''<|'' @ [34] @ str ''|>'', str ''<|quote|>'']"

definition string_value :: "(ustr \<times> ustr) option \<Rightarrow> (json \<times> ustr) option" where
  "string_value r = map_option (\<lambda>(v, rest). (JString v, rest)) r"

definition parse_tool_call_value :: "(ustr \<Rightarrow> json option) \<Rightarrow> ustr \<Rightarrow> (json \<times> ustr) option" where
  "parse_tool_call_value json_parse s =
     (case find (\<lambda>m. starts_with s m) quote_markers of
        Some m \<Rightarrow> string_value (parse_marker_quoted_fragment m s)
      | None \<Rightarrow>
          (if s \<noteq> [] \<and> hd s = 34 then string_value (parse_quoted_fragment s)
           else let raw = trim (takeWhile (\<lambda>ch. ch \<noteq> 44) s)
                in if raw = [] then None
                   else Some (case json_parse raw of Some v \<Rightarrow> v | None \<Rightarrow> JString raw, dropWhile (\<lambda>ch. ch \<noteq> 44) s)))"

text \<open>One turn of the loop over the arguments: a key, a colon or an equals sign, a value.\<close>

definition parse_tool_call_entry :: "(ustr \<Rightarrow> json option) \<Rightarrow> ustr \<Rightarrow> ((ustr \<times> json) \<times> ustr) option" where
  "parse_tool_call_entry json_parse s =
     Option.bind (parse_tool_call_key s) (\<lambda>(key, after_key).
       (case skip_summary_whitespace after_key of
          ch # rest \<Rightarrow>
            (if ch = 58 \<or> ch = 61
             then map_option (\<lambda>(v, after_value). ((key, v), after_value))
                    (parse_tool_call_value json_parse (skip_summary_whitespace rest))
             else None)
        | [] \<Rightarrow> None))"

section \<open>Every turn reads something\<close>

lemma quoted_rest_shorter: "quoted_rest e out s = Some (v, rest) \<Longrightarrow> length rest < length s"
  by (induction e out s rule: quoted_rest.induct) (auto split: if_splits)

lemma quoted_shorter: "parse_quoted_fragment s = Some (v, rest) \<Longrightarrow> length rest < length s"
  by (auto simp: parse_quoted_fragment_def dest!: quoted_rest_shorter split: list.splits if_splits)

lemma marker_rest_le: "marker_rest m out s = Some (v, rest) \<Longrightarrow> length rest \<le> length s"
  by (induction m out s rule: marker_rest.induct) (auto split: if_splits)

lemma dropWhile_le: "length (dropWhile P s) \<le> length s"
  by (rule length_dropWhile_le)

lemma key_le: "parse_tool_call_key s = Some (k, rest) \<Longrightarrow> length rest \<le> length s"
  by (auto simp: parse_tool_call_key_def Let_def dropWhile_le dest!: quoted_shorter split: if_splits)

lemma value_le: "parse_tool_call_value p s = Some (v, rest) \<Longrightarrow> length rest \<le> length s"
  by (auto simp: parse_tool_call_value_def Let_def string_value_def dropWhile_le parse_marker_quoted_fragment_def
      dest!: quoted_shorter marker_rest_le split: option.splits if_splits)

lemma entry_shorter:
  assumes "parse_tool_call_entry p s = Some (kv, rest)"
  shows "length rest < length s"
proof -
  obtain k ak where k: "parse_tool_call_key s = Some (k, ak)"
    using assms by (cases "parse_tool_call_key s") (auto simp: parse_tool_call_entry_def)
  obtain ch r where c: "skip_summary_whitespace ak = ch # r"
    using assms k by (cases "skip_summary_whitespace ak") (simp_all add: parse_tool_call_entry_def)
  obtain v where v: "parse_tool_call_value p (skip_summary_whitespace r) = Some (v, rest)"
    using assms k c by (auto simp: parse_tool_call_entry_def split: if_splits)
  have "length (ch # r) \<le> length ak" using c dropWhile_le [of is_whitespace ak] by (simp add: skip_summary_whitespace_def)
  moreover have "length rest \<le> length r"
    using value_le [OF v] dropWhile_le [of is_whitespace r] by (simp add: skip_summary_whitespace_def)
  ultimately show ?thesis using key_le [OF k] by simp
qed

function parse_entries :: "(ustr \<Rightarrow> json option) \<Rightarrow> json_map \<Rightarrow> ustr \<Rightarrow> json_map option" where
  "parse_entries json_parse object s =
     (let s' = skip_tool_call_separators s
      in if s' = [] then Some object
         else case parse_tool_call_entry json_parse s' of
                None \<Rightarrow> None
              | Some ((k, v), rest) \<Rightarrow> parse_entries json_parse (bt_insert k v object) rest)"
  by pat_completeness auto

termination
proof (relation "measure (\<lambda>(p, m, s). length s)")
  fix p m s s' e kv rest k v
  assume "s' = skip_tool_call_separators s" "s' \<noteq> []" "parse_tool_call_entry p s' = Some e" "(kv, rest) = e" "(k, v) = kv"
  then have "length rest < length s'" by (auto dest: entry_shorter)
  also have "\<dots> \<le> length s" using \<open>s' = _\<close> by (simp add: skip_tool_call_separators_def dropWhile_le)
  finally show "((p, bt_insert k v m, rest), p, m, s) \<in> measure (\<lambda>(p, m, s). length s)" by simp
qed simp

declare parse_entries.simps [simp del]

section \<open>Calls\<close>

record parsed_text_tool_call =
  pt_name :: ustr
  pt_arguments :: json

definition normalize_text_tool_call_quotes :: "ustr \<Rightarrow> ustr" where
  "normalize_text_tool_call_quotes t =
     replace_str (str ''&quot;'') [34] (replace_str (str ''<|quote|>'') [34]
       (replace_str (str ''<|'' @ [34] @ str ''|>'') [34] t))"

definition strip_braces :: "ustr \<Rightarrow> ustr option" where
  "strip_braces s = Option.bind (strip_prefix [123] s) (strip_suffix [125])"

definition parse_text_tool_call_arguments :: "normalize_env \<Rightarrow> ustr \<Rightarrow> json option" where
  "parse_text_tool_call_arguments env t =
     (case ne_json_parse env (normalize_text_tool_call_quotes t) of
        Some v \<Rightarrow> Some (openai_tool_arguments env v)
      | None \<Rightarrow>
          Option.bind (strip_braces (trim t)) (\<lambda>inner.
          Option.bind (parse_entries (ne_json_parse env) [] inner) (\<lambda>object.
            if object = [] then None else Some (JObject object))))"

text \<open>The first of the keys that is there, whatever its value.\<close>

definition first_of :: "json option list \<Rightarrow> json option" where
  "first_of vs = find_map (\<lambda>v. v) vs"

definition function_field :: "json_map \<Rightarrow> string \<Rightarrow> json option" where
  "function_field object k = Option.bind (bt_get object (str ''function'')) (json_get (str k))"

definition parse_text_tool_call_json :: "normalize_env \<Rightarrow> json \<Rightarrow> parsed_text_tool_call option" where
  "parse_text_tool_call_json env v =
     Option.bind (json_as_object v) (\<lambda>object.
     Option.bind (first_of [bt_get object (str ''name''), bt_get object (str ''tool_name''), function_field object ''name''])
       (\<lambda>n.
     Option.bind (json_as_str n) (\<lambda>n.
       let name = sanitize_tool_name n
       in if name = [] then None
          else Some \<lparr>pt_name = name,
            pt_arguments =
              (case first_of [bt_get object (str ''arguments''), bt_get object (str ''args''),
                              bt_get object (str ''parameters''), function_field object ''arguments''] of
                 Some a \<Rightarrow> openai_tool_arguments env a | None \<Rightarrow> JObject [])\<rparr>)))"

definition call_body :: "ustr \<Rightarrow> ustr" where
  "call_body inner =
     (case strip_prefix (str ''call:'') inner of
        Some b \<Rightarrow> b
      | None \<Rightarrow> (case strip_prefix (str ''function:'') inner of Some b \<Rightarrow> b | None \<Rightarrow> inner))"

definition parse_call_body :: "normalize_env \<Rightarrow> ustr \<Rightarrow> parsed_text_tool_call option" where
  "parse_call_body env body =
     (case (find_idx (\<lambda>c. c = 123) body, rfind_idx (\<lambda>c. c = 125) body) of
        (Some open_at, Some close_at) \<Rightarrow>
          (if close_at \<le> open_at then None
           else let name = sanitize_tool_name (trim (take open_at body))
                in if name = [] then None
                   else map_option (\<lambda>a. \<lparr>pt_name = name, pt_arguments = a\<rparr>)
                          (parse_text_tool_call_arguments env (drop open_at (take (Suc close_at) body))))
      | _ \<Rightarrow> None)"

definition parse_text_tool_call_inner :: "normalize_env \<Rightarrow> ustr \<Rightarrow> parsed_text_tool_call option" where
  "parse_text_tool_call_inner env inner =
     (case Option.bind (ne_json_parse env (normalize_text_tool_call_quotes (trim inner))) (parse_text_tool_call_json env) of
        Some call \<Rightarrow> Some call
      | None \<Rightarrow> parse_call_body env (call_body (trim inner)))"

definition extract_text_tool_call_inner :: "ustr \<Rightarrow> ustr option" where
  "extract_text_tool_call_inner t =
     find_map (\<lambda>(start_marker, end_marker).
        map_option (\<lambda>(inner, _). trim inner)
          (Option.bind (split_once (str start_marker) t) (\<lambda>(_, after). split_once (str end_marker) after)))
       [(''<|tool_call>'', ''<tool_call|>''), (''<tool_call>'', ''</tool_call>''), (''<tool_call>'', ''<tool_call|>'')]"

definition ignored_message :: "ustr \<Rightarrow> ustr" where
  "ignored_message name =
     str ''Unsupported model-emitted tool '' @ [39] @ name @ [39]
       @ str '' was ignored. Continue using only declared tools.''"

definition observation_command :: "ustr \<Rightarrow> ustr" where
  "observation_command name =
     str ''printf '' @ [39] @ str ''%s'' @ [92, 110] @ [39] @ str '' '' @ shell_quote (ignored_message name)"

definition adapt_unknown_text_tool_call :: "parsed_text_tool_call \<Rightarrow> ustr list \<Rightarrow> parsed_text_tool_call option" where
  "adapt_unknown_text_tool_call call names =
     map_option (\<lambda>exec. \<lparr>pt_name = exec,
         pt_arguments = json_object [(str ''cmd'', JString (observation_command (pt_name call)))]\<rparr>)
       (find (\<lambda>n. n \<in> set names) (map str [''exec_command'', ''local_shell'', ''shell'']))"

definition parse_text_tool_call :: "normalize_env \<Rightarrow> ustr \<Rightarrow> ustr list \<Rightarrow> parsed_text_tool_call option" where
  "parse_text_tool_call env t names =
     (if names = [] then None
      else Option.bind (extract_text_tool_call_inner (trim t)) (\<lambda>inner.
           Option.bind (parse_text_tool_call_inner env inner) (\<lambda>call.
             if pt_name call \<in> set names then Some call else adapt_unknown_text_tool_call call names)))"

section \<open>Markup\<close>

definition strip_wrapper_prefix :: "ustr \<Rightarrow> ustr" where
  "strip_wrapper_prefix t =
     (case find_map (\<lambda>m. rsplit_once (str m) t) [''<start_of_turn>model'', ''<start_of_turn>assistant''] of
        Some (_, after) \<Rightarrow> after | None \<Rightarrow> t)"

definition wrapper_tokens :: "ustr list" where
  "wrapper_tokens = map str
     [''<bos>'', ''<eos>'', ''<start_of_turn>'', ''<end_of_turn>'', ''<|start_of_turn|>'', ''<|end_of_turn|>'']"

definition strip_direct_generation_wrappers :: "ustr \<Rightarrow> ustr" where
  "strip_direct_generation_wrappers content =
     (let t = strip_wrapper_prefix (trim content);
          t = (case split_once (str ''<end_of_turn>'') t of Some (before', _) \<Rightarrow> before' | None \<Rightarrow> t)
      in trim (fold (\<lambda>token t. replace_str token [] t) wrapper_tokens t))"

definition strip_direct_thinking_markup :: "ustr \<Rightarrow> ustr" where
  "strip_direct_thinking_markup content =
     strip_direct_generation_wrappers
       (case rsplit_once (str ''<channel|>'') content of
          Some (_, after) \<Rightarrow> after
        | None \<Rightarrow> (case rsplit_once (str ''</think>'') content of Some (_, after) \<Rightarrow> after | None \<Rightarrow> content))"

end
