(* ===== verification/Api_Text_Facts.thy ===== *)
theory Api_Text_Facts
  imports Api_Text_Tools Api_Tool_Facts
begin

text \<open>
  Facts on tool calls written as text: the names they may call, the command an unsupported one is
  replaced by, and the round trip of quoted arguments.
\<close>

section \<open>Names\<close>

definition tool_name_char :: "nat \<Rightarrow> bool" where
  "tool_name_char ch \<longleftrightarrow> is_ascii_alphanumeric ch \<or> ch = 95 \<or> ch = 45"

definition tool_name_ok :: "ustr \<Rightarrow> bool" where
  "tool_name_ok s \<longleftrightarrow> length s \<le> 64 \<and> list_all tool_name_char s \<and> (s \<noteq> [] \<longrightarrow> hd s \<noteq> 95 \<and> last s \<noteq> 95)"

lemma trim_char_set: "set (trim_char c s) \<subseteq> set s"
  by (auto simp: trim_char_def dest!: set_dropWhileD [of _ _ "rev (dropWhile (\<lambda>x. x = c) s)"] dest: set_dropWhileD)

lemma trim_char_length: "length (trim_char c s) \<le> length s"
proof -
  have "length (trim_char c s) \<le> length (dropWhile (\<lambda>x. x = c) s)"
    using length_dropWhile_le [of "\<lambda>x. x = c" "rev (dropWhile (\<lambda>x. x = c) s)"] by (simp add: trim_char_def)
  then show ?thesis using length_dropWhile_le [of "\<lambda>x. x = c" s] by linarith
qed

lemma trim_char_last: "trim_char c s \<noteq> [] \<Longrightarrow> last (trim_char c s) \<noteq> c"
  using hd_dropWhile [of "\<lambda>x. x = c" "rev (dropWhile (\<lambda>x. x = c) s)"]
  by (auto simp: trim_char_def last_rev)

lemma trim_char_hd:
  assumes "trim_char c s \<noteq> []"
  shows "hd (trim_char c s) \<noteq> c"
proof -
  let ?d = "dropWhile (\<lambda>x. x = c) s"
  have t: "trim_char c s = rev (dropWhile (\<lambda>x. x = c) (rev ?d))" by (simp add: trim_char_def)
  have "rev ?d = takeWhile (\<lambda>x. x = c) (rev ?d) @ rev (trim_char c s)" by (simp add: t)
  then have "?d = trim_char c s @ rev (takeWhile (\<lambda>x. x = c) (rev ?d))" by (metis rev_append rev_rev_ident)
  then have "hd ?d = hd (trim_char c s) \<and> ?d \<noteq> []" using assms by (metis append_is_Nil_conv hd_append2)
  then show ?thesis using hd_dropWhile [of "\<lambda>x. x = c" s] by metis
qed

lemma dropWhile_hd: "s \<noteq> [] \<Longrightarrow> \<not> P (hd s) \<Longrightarrow> dropWhile P s = s"
  by (cases s) auto

lemma trim_char_id: "(s \<noteq> [] \<Longrightarrow> hd s \<noteq> c \<and> last s \<noteq> c) \<Longrightarrow> trim_char c s = s"
  by (cases "s = []") (simp_all add: trim_char_def hd_rev dropWhile_hd)

lemma sanitize_tool_name_ok: "tool_name_ok (sanitize_tool_name s)"
proof -
  let ?m = "map (\<lambda>ch. if is_ascii_alphanumeric ch \<or> ch = 95 \<or> ch = 45 then ch else 95) s"
  have "list_all tool_name_char ?m" by (auto simp: list_all_iff tool_name_char_def)
  then have "list_all tool_name_char (sanitize_tool_name s)"
    using trim_char_set [of 95 "take 64 ?m"] set_take_subset [of 64 ?m]
    by (fastforce simp: sanitize_tool_name_def list_all_iff)
  moreover have "length (sanitize_tool_name s) \<le> 64"
    using trim_char_length [of 95 "take 64 ?m"] by (simp add: sanitize_tool_name_def)
  ultimately show ?thesis
    using trim_char_hd [of 95 "take 64 ?m"] trim_char_last [of 95 "take 64 ?m"]
    by (auto simp: tool_name_ok_def sanitize_tool_name_def)
qed

lemma sanitize_id: "tool_name_ok s \<Longrightarrow> sanitize_tool_name s = s"
proof -
  assume ok: "tool_name_ok s"
  then have "map (\<lambda>ch. if is_ascii_alphanumeric ch \<or> ch = 95 \<or> ch = 45 then ch else 95) s = s"
    by (auto simp: tool_name_ok_def list_all_iff tool_name_char_def intro!: map_idI)
  with ok show ?thesis by (simp add: sanitize_tool_name_def tool_name_ok_def trim_char_id)
qed

lemma sanitize_idem: "sanitize_tool_name (sanitize_tool_name s) = sanitize_tool_name s"
  by (rule sanitize_id [OF sanitize_tool_name_ok])

lemma json_call_name:
  "parse_text_tool_call_json env v = Some call \<Longrightarrow> pt_name call \<noteq> [] \<and> tool_name_ok (pt_name call)"
  by (auto simp: parse_text_tool_call_json_def bind_eq_Some_conv Let_def sanitize_tool_name_ok split: if_splits)

lemma body_call_name:
  "parse_call_body env b = Some call \<Longrightarrow> pt_name call \<noteq> [] \<and> tool_name_ok (pt_name call)"
  by (auto simp: parse_call_body_def Let_def sanitize_tool_name_ok split: option.splits if_splits)

lemma inner_call_name:
  "parse_text_tool_call_inner env s = Some call \<Longrightarrow> pt_name call \<noteq> [] \<and> tool_name_ok (pt_name call)"
  by (auto simp: parse_text_tool_call_inner_def bind_eq_Some_conv
      dest: body_call_name json_call_name split: option.splits)

section \<open>The command for an unsupported tool\<close>

lemma scan_in_single:
  "list_all (\<lambda>c. c \<noteq> 39) s \<Longrightarrow> shell_scan InSingle (Some u) (s @ 39 # rest) = shell_scan Bare (Some (u @ s)) rest"
  by (induction s arbitrary: u) auto

lemma observation_words:
  "shell_words (observation_command name)
     = Some [str ''printf'', str ''%s'' @ [92, 110], ignored_message name]"
proof -
  have t: "observation_command name
             = str ''printf'' @ 32 # (39 # (str ''%s'' @ [92, 110]) @ 39 # 32 # shell_quote (ignored_message name))"
    by (simp add: observation_command_def str_def)
  have w: "list_all plain_char (str ''printf'')" "str ''printf'' \<noteq> []"
    by (simp_all add: str_def plain_char_def char_class_defs)
  have q: "shell_words (39 # (str ''%s'' @ [92, 110]) @ 39 # 32 # x)
             = map_option ((#) (str ''%s'' @ [92, 110])) (shell_words x)" for x
    using scan_in_single [of "str ''%s'' @ [92, 110]" "[]" "32 # x"]
    by (simp add: shell_words_def str_def)
  show ?thesis
    using shell_words_bare_Cons [OF w] q shell_words_quoted by (simp only: t) simp
qed

section \<open>A call stays among the declared tools\<close>

lemma parse_text_tool_call_iff:
  "parse_text_tool_call env t names = Some call
     \<longleftrightarrow> names \<noteq> [] \<and> (\<exists>inner written.
           extract_text_tool_call_inner (trim t) = Some inner \<and> parse_text_tool_call_inner env inner = Some written
         \<and> (if pt_name written \<in> set names then call = written
            else adapt_unknown_text_tool_call written names = Some call))"
  by (auto simp: parse_text_tool_call_def bind_eq_Some_conv split: if_splits)

lemma adapted_call:
  assumes "adapt_unknown_text_tool_call written names = Some call"
  shows "find (\<lambda>n. n \<in> set names) (map str [''exec_command'', ''local_shell'', ''shell'']) = Some (pt_name call)"
    and "pt_name call \<in> set names"
    and "pt_arguments call = json_object [(str ''cmd'', JString (observation_command (pt_name written)))]"
proof -
  from assms obtain exec where e: "find (\<lambda>n. n \<in> set names) (map str [''exec_command'', ''local_shell'', ''shell'']) = Some exec"
    and call: "call = \<lparr>pt_name = exec, pt_arguments = json_object [(str ''cmd'', JString (observation_command (pt_name written)))]\<rparr>"
    by (auto simp: adapt_unknown_text_tool_call_def)
  have "exec \<in> set names" using e by (auto split: if_splits)
  with e call show "find (\<lambda>n. n \<in> set names) (map str [''exec_command'', ''local_shell'', ''shell'']) = Some (pt_name call)"
    "pt_name call \<in> set names"
    "pt_arguments call = json_object [(str ''cmd'', JString (observation_command (pt_name written)))]" by simp_all
qed

section \<open>Quoted arguments\<close>

text \<open>The inverse of the scanner of quoted fragments: quotes and backslashes are escaped.\<close>

definition escape_fragment :: "ustr \<Rightarrow> ustr" where
  "escape_fragment v = concat (map (\<lambda>c. if c = 34 \<or> c = 92 then [92, c] else [c]) v)"

definition quote_fragment :: "ustr \<Rightarrow> ustr" where
  "quote_fragment v = 34 # escape_fragment v @ [34]"

lemma escape_fragment_simps [simp]:
  "escape_fragment [] = []"
  "escape_fragment (c # v) = (if c = 34 \<or> c = 92 then 92 # c # escape_fragment v else c # escape_fragment v)"
  by (simp_all add: escape_fragment_def)

lemma quoted_rest_escaped: "quoted_rest False out (escape_fragment v @ 34 # rest) = Some (out @ v, rest)"
  by (induction v arbitrary: out) auto

lemma parse_quote_fragment: "parse_quoted_fragment (quote_fragment v @ rest) = Some (v, rest)"
  by (simp add: parse_quoted_fragment_def quote_fragment_def quoted_rest_escaped)

definition print_entries :: "(ustr \<times> ustr) list \<Rightarrow> ustr" where
  "print_entries es = concat (map (\<lambda>(k, v). quote_fragment k @ 58 # quote_fragment v @ [44]) es)"

lemma print_entries_simps [simp]:
  "print_entries [] = []"
  "print_entries ((k, v) # es) = quote_fragment k @ 58 # quote_fragment v @ 44 # print_entries es"
  by (simp_all add: print_entries_def)

lemma blank_34 [simp]: "is_whitespace 34 = False" "is_whitespace 58 = False"
  by (simp_all add: is_whitespace_def)

lemma skip_quote [simp]:
  "skip_tool_call_separators (quote_fragment k @ s) = quote_fragment k @ s"
  "skip_tool_call_separators (44 # s) = skip_tool_call_separators s"
  "skip_summary_whitespace (quote_fragment k @ s) = quote_fragment k @ s"
  "skip_summary_whitespace (58 # s) = 58 # s"
  by (simp_all add: quote_fragment_def skip_tool_call_separators_def skip_summary_whitespace_def)

lemma no_marker: "find (\<lambda>m. starts_with (quote_fragment v @ s) m) quote_markers = None"
  by (simp add: quote_markers_def quote_fragment_def str_def starts_with_def)

lemma entry_printed:
  "parse_tool_call_entry p (quote_fragment k @ 58 # quote_fragment v @ s) = Some ((k, JString v), s)"
proof -
  have q: "quote_fragment x @ y \<noteq> []" "hd (quote_fragment x @ y) = 34" for x y by (simp_all add: quote_fragment_def)
  have k: "parse_tool_call_key (quote_fragment k @ x) = Some (k, x)" for x
    by (simp only: parse_tool_call_key_def q simp_thms if_True parse_quote_fragment)
  have v: "parse_tool_call_value p (quote_fragment v @ s) = Some (JString v, s)"
    by (simp only: parse_tool_call_value_def q no_marker simp_thms if_True parse_quote_fragment option.case string_value_def
        option.map prod.case)
  show ?thesis by (simp add: parse_tool_call_entry_def k v)
qed

lemma entries_printed:
  "parse_entries p object (print_entries es) = Some (fold (\<lambda>(k, v). bt_insert k (JString v)) es object)"
proof (induction es arbitrary: object)
  case Nil
  then show ?case by (simp add: parse_entries.simps skip_tool_call_separators_def)
next
  case (Cons e es)
  obtain k v where e: "e = (k, v)" by (cases e)
  have sep: "parse_entries p m (44 # s) = parse_entries p m s" for m s
    by (subst (1 2) parse_entries.simps) simp
  have ne: "quote_fragment k @ s \<noteq> []" for s by (simp add: quote_fragment_def)
  show ?case
    by (subst parse_entries.simps) (simp add: e ne entry_printed sep Cons.IH)
qed

lemma insert_not_Nil [simp]: "bt_insert k v m \<noteq> []"
  by (cases m) (auto split: prod.splits if_splits)

lemma fold_insert_not_Nil: "es \<noteq> [] \<or> m \<noteq> [] \<Longrightarrow> fold (\<lambda>(k, v). bt_insert k (JString v)) es m \<noteq> []"
proof (induction es arbitrary: m)
  case (Cons e es)
  then show ?case by (cases e) simp
qed simp

lemma trim_braces: "trim (123 # s @ [125]) = 123 # s @ [125]"
  by (simp add: trim_def trim_start_def trim_end_def is_whitespace_def)

lemma strip_braces_braces: "strip_braces (123 # s @ [125]) = Some s"
  using strip_suffix_append [of "[125]" s] by (simp add: strip_braces_def strip_prefix_def starts_with_def)

lemma arguments_printed:
  assumes "ne_json_parse env (normalize_text_tool_call_quotes (123 # print_entries es @ [125])) = None"
    and "es \<noteq> []"
  shows "parse_text_tool_call_arguments env (123 # print_entries es @ [125])
       = Some (JObject (fold (\<lambda>(k, v). bt_insert k (JString v)) es []))"
  using assms by (simp add: parse_text_tool_call_arguments_def trim_braces strip_braces_braces entries_printed
      fold_insert_not_Nil)

end
