(* ===== verification/Provider_Sse.thy ===== *)
theory Provider_Sse
  imports Provider_Core Miya_Text
begin

text \<open>
  What the adapters \<^verbatim>\<open>provider-openai\<close> and \<^verbatim>\<open>provider-anthropic\<close> do alike: the HTTP client they call,
  the errors they make of its answers, and the loop that turns the bytes of an answer into the events
  of a provider stream. The client \<^verbatim>\<open>reqwest\<close> is a parameter; the loop takes the adapter's reader of
  one frame as a parameter and is instantiated by both.
\<close>

section \<open>The client\<close>

record http_response =
  hr_status :: u16
  hr_headers :: "(ustr \<times> ustr) list"
  hr_url :: ustr
  hr_body :: "ustr + ustr"
  hr_json :: "ustr + json"
  hr_chunks :: "(ustr + nat list) list"

text \<open>
  A request that was not answered has a text and the flags \<^verbatim>\<open>is_timeout\<close>, \<^verbatim>\<open>is_connect\<close> and
  \<^verbatim>\<open>is_request\<close>. A body is its text or the error of reading it, its value or the error of decoding it,
  and for a stream its chunks.
\<close>

record http_failure =
  hf_message :: ustr
  hf_timeout :: bool
  hf_connect :: bool
  hf_request :: bool

record http_request =
  hq_url :: ustr
  hq_headers :: "(ustr \<times> ustr) list"
  hq_json :: json

type_synonym 'w http_client = "'w \<Rightarrow> http_request \<Rightarrow> 'w \<times> nat \<times> (http_failure + http_response)"

definition transport_error :: "string \<Rightarrow> http_failure \<Rightarrow> provider_error" where
  "transport_error provider e = Transport (str provider) (hf_message e) (hf_timeout e \<or> hf_connect e \<or> hf_request e)"

definition json_body :: "string \<Rightarrow> http_response \<Rightarrow> provider_error + json" where
  "json_body provider resp =
     (case hr_json resp of Inl e \<Rightarrow> Inl (InvalidResponse (str provider) e) | Inr v \<Rightarrow> Inr v)"

definition is_success :: "u16 \<Rightarrow> bool" where
  "is_success status \<longleftrightarrow> 200 \<le> status \<and> status < 300"

text \<open>\<^verbatim>\<open>headers().get(name)\<close>; the names are in lower case in both.\<close>

definition header_u64 :: "string \<Rightarrow> (ustr \<times> ustr) list \<Rightarrow> u64 option" where
  "header_u64 name headers =
     map_option word_of_nat (Option.bind (map_of headers (str name)) (\<lambda>v. parse_uint (2 ^ 64) (trim v)))"

definition header_retry_after_ms :: "(ustr \<times> ustr) list \<Rightarrow> u64 option" where
  "header_retry_after_ms headers = map_option (\<lambda>s. sat_mul s 1000) (header_u64 ''retry-after'' headers)"

section \<open>The loop over the bytes of an answer\<close>

type_synonym stream_item = "provider_error + provider_stream_event"

record sse_source =
  so_upstream :: "(ustr + nat list) list"
  so_buffer :: ustr
  so_pending :: "stream_item list"

definition sse_source_start :: "(ustr + nat list) list \<Rightarrow> sse_source" where
  "sse_source_start chunks = \<lparr>so_upstream = chunks, so_buffer = [], so_pending = []\<rparr>"

definition pop_sse_frame :: "ustr \<Rightarrow> (ustr \<times> ustr) option" where
  "pop_sse_frame buffer = split_once [10, 10] buffer"

text \<open>The state as the size the loop brings down: chunks to come, text to frame, events to hand out.\<close>

definition so_measure :: "sse_source \<Rightarrow> nat \<times> nat \<times> nat" where
  "so_measure s = (length (so_upstream s), length (so_buffer s), length (so_pending s))"

lemma pop_frame_shorter: "pop_sse_frame b = Some (frame, rest) \<Longrightarrow> length rest < length b"
  by (auto simp: pop_sse_frame_def dest!: split_once_append)

text \<open>One call of the closure: it runs until it has an item or the end.\<close>

function sse_next :: "(ustr \<Rightarrow> stream_item list) \<Rightarrow> sse_source \<Rightarrow> (stream_item \<times> sse_source) option" where
  "sse_next parse s =
     (case so_pending s of
        event # rest \<Rightarrow> Some (event, s\<lparr>so_pending := rest\<rparr>)
      | [] \<Rightarrow>
          (case pop_sse_frame (so_buffer s) of
             Some (frame, rest) \<Rightarrow> sse_next parse (s\<lparr>so_buffer := rest, so_pending := parse frame\<rparr>)
           | None \<Rightarrow>
               (case so_upstream s of
                  Inr bytes # chunks \<Rightarrow>
                    sse_next parse (s\<lparr>so_upstream := chunks, so_buffer := so_buffer s @ from_utf8_lossy bytes\<rparr>)
                | Inl e # chunks \<Rightarrow> Some (Inl (Rejected e), s\<lparr>so_upstream := chunks\<rparr>)
                | [] \<Rightarrow>
                    (if \<not> is_blank (so_buffer s)
                     then sse_next parse (s\<lparr>so_buffer := [], so_pending := parse (so_buffer s)\<rparr>)
                     else None))))"
  by pat_completeness auto

termination
proof (relation "measures [\<lambda>(p, s). length (so_upstream s), \<lambda>(p, s). length (so_buffer s)]")
  fix s :: sse_source
  assume "\<not> is_blank (so_buffer s)"
  then have "0 < length (so_buffer s)" by (cases "so_buffer s") (simp_all add: is_blank_def trim_def trim_start_def trim_end_def)
  then show "((parse, s\<lparr>so_buffer := [], so_pending := parse (so_buffer s)\<rparr>), parse, s)
      \<in> measures [\<lambda>(p, s). length (so_upstream s), \<lambda>(p, s). length (so_buffer s)]" for parse
    by simp
qed (auto dest: pop_frame_shorter)

declare sse_next.simps [simp del]

lemmas sse_next_unfold = sse_next.simps

lemma sse_next_smaller:
  "sse_next parse s = Some (i, s') \<Longrightarrow> (so_measure s', so_measure s) \<in> less_than <*lex*> less_than <*lex*> less_than"
proof (induction parse s rule: sse_next.induct)
  case (1 parse s)
  show ?case
  proof (cases "so_pending s")
    case (Cons e es)
    with "1.prems" show ?thesis by (auto simp: sse_next_unfold [of parse s] so_measure_def)
  next
    case Nil
    show ?thesis
    proof (cases "pop_sse_frame (so_buffer s)")
      case (Some p)
      obtain frame rest where p: "p = (frame, rest)" by (cases p)
      have "sse_next parse (s\<lparr>so_buffer := rest, so_pending := parse frame\<rparr>) = Some (i, s')"
        using "1.prems" Nil Some p by (simp add: sse_next_unfold [of parse s])
      from "1.IH"(3) [OF Nil Some p [symmetric] this] pop_frame_shorter [of "so_buffer s" frame rest] Some p
      show ?thesis by (auto simp: so_measure_def)
    next
      case None
      show ?thesis
      proof (cases "so_upstream s")
        case c: (Cons x chunks)
        show ?thesis
        proof (cases x)
          case (Inl e)
          with "1.prems" Nil None c show ?thesis by (auto simp: sse_next_unfold [of parse s] so_measure_def)
        next
          case (Inr bytes)
          have "sse_next parse (s\<lparr>so_upstream := chunks, so_buffer := so_buffer s @ from_utf8_lossy bytes\<rparr>) = Some (i, s')"
            using "1.prems" Nil None c Inr by (simp add: sse_next_unfold [of parse s])
          from "1.IH"(2) [OF Nil None c Inr this] c show ?thesis by (auto simp: so_measure_def)
        qed
      next
        case u: Nil
        then have nb: "\<not> is_blank (so_buffer s)"
          and "sse_next parse (s\<lparr>so_buffer := [], so_pending := parse (so_buffer s)\<rparr>) = Some (i, s')"
          using "1.prems" Nil None by (auto simp: sse_next_unfold [of parse s] split: if_splits)
        from "1.IH"(1) [OF Nil None u this] u nb show ?thesis
          by (auto simp: so_measure_def is_blank_def trim_def trim_start_def trim_end_def)
      qed
    qed
  qed
qed

text \<open>The stream the closure is unfolded to, until its end.\<close>

function sse_items :: "(ustr \<Rightarrow> stream_item list) \<Rightarrow> sse_source \<Rightarrow> stream_item list" where
  "sse_items parse s = (case sse_next parse s of None \<Rightarrow> [] | Some (i, s') \<Rightarrow> i # sse_items parse s')"
  by pat_completeness auto

termination
  by (relation "inv_image (less_than <*lex*> less_than <*lex*> less_than) (\<lambda>(p, s). so_measure s)")
    (auto simp del: in_lex_prod dest: sse_next_smaller)

declare sse_items.simps [simp del]

text \<open>The lines of a frame that carry data.\<close>

definition frame_data :: "ustr \<Rightarrow> ustr" where
  "frame_data frame = join [10] (map trim_start (filter_map (strip_prefix (str ''data:'')) (lines frame)))"

section \<open>What the loop yields\<close>

text \<open>The events of a text: its frames in order, and what is left at its end as one frame more.\<close>

function text_items :: "(ustr \<Rightarrow> stream_item list) \<Rightarrow> ustr \<Rightarrow> stream_item list" where
  "text_items parse t =
     (case pop_sse_frame t of
        Some (frame, rest) \<Rightarrow> parse frame @ text_items parse rest
      | None \<Rightarrow> (if is_blank t then [] else parse t))"
  by pat_completeness auto

termination
  by (relation "measure (\<lambda>(p, t). length t)") (auto dest: pop_frame_shorter)

declare text_items.simps [simp del]

lemma items_pending: "sse_items parse (s\<lparr>so_pending := es @ ps\<rparr>) = es @ sse_items parse (s\<lparr>so_pending := ps\<rparr>)"
proof (induction es)
  case (Cons e es)
  have "sse_items parse (s\<lparr>so_pending := e # es @ ps\<rparr>) = e # sse_items parse (s\<lparr>so_pending := es @ ps\<rparr>)"
    by (subst sse_items.simps) (simp add: sse_next_unfold [of parse "s\<lparr>so_pending := e # es @ ps\<rparr>"])
  with Cons show ?case by simp
qed simp

lemma items_step:
  assumes "sse_next parse s = sse_next parse s'"
  shows "sse_items parse s = sse_items parse s'"
  using assms by (simp add: sse_items.simps [of parse s] sse_items.simps [of parse s'])

lemma items_frame:
  assumes "so_pending s = []" and "pop_sse_frame (so_buffer s) = Some (frame, rest)"
  shows "sse_items parse s = parse frame @ sse_items parse (s\<lparr>so_buffer := rest\<rparr>)"
proof -
  have "sse_items parse s = sse_items parse (s\<lparr>so_buffer := rest, so_pending := parse frame @ []\<rparr>)"
    by (rule items_step) (subst sse_next_unfold, simp add: assms)
  also have "\<dots> = parse frame @ sse_items parse (s\<lparr>so_buffer := rest, so_pending := []\<rparr>)"
    by (rule items_pending)
  also have "s\<lparr>so_buffer := rest, so_pending := []\<rparr> = s\<lparr>so_buffer := rest\<rparr>" using assms(1) by (cases s) simp
  finally show ?thesis .
qed

lemma pop_frame_append:
  "pop_sse_frame b = Some (frame, rest) \<Longrightarrow> pop_sse_frame (b @ t) = Some (frame, rest @ t)"
  unfolding pop_sse_frame_def
proof (induction "[10, 10] :: ustr" b arbitrary: frame rest rule: split_once.induct)
  case (2 c s)
  show ?case
  proof (cases "starts_with (c # s) [10, 10]")
    case True
    with 2 show ?thesis by (auto simp: starts_with_iff)
  next
    case False
    then have "\<not> starts_with (c # s @ t) [10, 10] \<or> s = []"
      by (cases s) (auto simp: starts_with_def)
    with 2 False show ?thesis by auto
  qed
qed simp

lemma text_items_append:
  assumes "pop_sse_frame b = Some (frame, rest)"
  shows "text_items parse (b @ t) = parse frame @ text_items parse (rest @ t)"
  using pop_frame_append [OF assms] by (simp add: text_items.simps [of parse "b @ t"])

text \<open>
  A stream whose chunks end at the ends of characters yields the events of the whole text, wherever it
  was cut: in the middle of a frame, of a line or between the two newlines as well.
\<close>

lemma items_text:
  assumes "so_pending s = []" and "so_upstream s = map (\<lambda>t. Inr (utf8_bytes t)) ts"
    and "list_all (list_all is_scalar) ts"
  shows "sse_items parse s = text_items parse (so_buffer s @ concat ts)"
  using assms
proof (induction "length ts" arbitrary: s ts rule: less_induct)
  case outer: less
  from outer.prems show ?case
  proof (induction "length (so_buffer s)" arbitrary: s rule: less_induct)
    case less
    show ?case
    proof (cases "pop_sse_frame (so_buffer s)")
      case (Some p)
      obtain frame rest where p: "pop_sse_frame (so_buffer s) = Some (frame, rest)" using Some by (cases p) auto
      have "sse_items parse (s\<lparr>so_buffer := rest\<rparr>) = text_items parse (rest @ concat ts)"
        using less(1) [of "s\<lparr>so_buffer := rest\<rparr>"] less.prems pop_frame_shorter [OF p] by simp
      with items_frame [OF less.prems(1) p] text_items_append [OF p] show ?thesis by simp
    next
      case None
      show ?thesis
      proof (cases ts)
        case (Cons t us)
        let ?s = "s\<lparr>so_upstream := map (\<lambda>t. Inr (utf8_bytes t)) us, so_buffer := so_buffer s @ t\<rparr>"
        have "sse_items parse s = sse_items parse ?s"
          using less.prems Cons by (intro items_step, subst sse_next_unfold) (simp add: None decode_bytes)
        also have "\<dots> = text_items parse (so_buffer ?s @ concat us)"
          using outer.hyps [of us ?s] less.prems Cons by simp
        finally show ?thesis using Cons by simp
      next
        case Nil
        show ?thesis
        proof (cases "is_blank (so_buffer s)")
          case True
          with Nil None less.prems show ?thesis
            by (simp add: sse_items.simps [of parse s] sse_next_unfold [of parse s] text_items.simps [of parse "so_buffer s"])
        next
          case False
          have "sse_items parse s = sse_items parse (s\<lparr>so_buffer := [], so_pending := parse (so_buffer s) @ []\<rparr>)"
            by (rule items_step) (subst sse_next_unfold, simp add: less.prems None Nil False)
          also have "\<dots> = parse (so_buffer s) @ sse_items parse (s\<lparr>so_buffer := [], so_pending := []\<rparr>)"
            by (rule items_pending)
          also have "sse_items parse (s\<lparr>so_buffer := [], so_pending := []\<rparr>) = []"
            using less.prems Nil by (subst sse_items.simps, subst sse_next_unfold) (simp add: pop_sse_frame_def is_blank_def trim_def trim_start_def trim_end_def)
          finally show ?thesis using Nil None False by (simp add: text_items.simps [of parse "so_buffer s"])
        qed
      qed
    qed
  qed
qed

lemma stream_chunking:
  assumes "list_all (list_all is_scalar) ts"
  shows "sse_items parse (sse_source_start (map (\<lambda>t. Inr (utf8_bytes t)) ts)) = text_items parse (concat ts)"
  using items_text [of "sse_source_start (map (\<lambda>t. Inr (utf8_bytes t)) ts)" ts] assms
  by (simp add: sse_source_start_def)

end
