(* ===== verification/Provider_Wire.thy ===== *)
theory Provider_Wire
  imports Provider_Sse
begin

text \<open>
  What the two adapters say in the same words: which requests fall back to a text, the result of a tool
  call, the record of a call, the system prompt, and the merging of the client's options. The fields of
  \<open>wire_env\<close> are what they take from outside: the environment, the hash, Unicode lower case, the
  printers and the parser of \<^verbatim>\<open>serde_json\<close> and the derived readers of the protocol's records.
\<close>

record wire_env =
  we_vars :: "ustr \<Rightarrow> ustr option"
  we_sha :: "ustr \<Rightarrow> ustr"
  we_lowercase :: "ustr \<Rightarrow> ustr"
  we_json_text :: "json \<Rightarrow> ustr"
  we_json_pretty :: "json \<Rightarrow> ustr"
  we_json_parse :: "ustr \<Rightarrow> ustr + json"
  we_spawn_plan :: "json \<Rightarrow> spawn_plan option"
  we_budget_request :: "json \<Rightarrow> budget_request option"
  we_agent_limits :: "json \<Rightarrow> agent_limits option"
  we_agent_role :: "json \<Rightarrow> agent_role option"
  we_artifact_refs :: "json \<Rightarrow> artifact_ref list option"
  we_artifact_kinds :: "json \<Rightarrow> artifact_kind list option"
  we_capability_set :: "json \<Rightarrow> capability_set option"
  we_usage :: "json \<Rightarrow> provider_usage option"

section \<open>Reading values\<close>

definition str_field :: "string \<Rightarrow> json \<Rightarrow> ustr option" where
  "str_field k v = Option.bind (json_get (str k) v) json_as_str"

definition field_or :: "string \<Rightarrow> ustr \<Rightarrow> json \<Rightarrow> ustr" where
  "field_or k d v = (case str_field k v of Some t \<Rightarrow> t | None \<Rightarrow> d)"

definition first_choice :: "json \<Rightarrow> json option" where
  "first_choice v =
     Option.bind (Option.bind (json_get (str ''choices'') v) json_as_array)
       (\<lambda>xs. case xs of x # _ \<Rightarrow> Some x | [] \<Rightarrow> None)"

definition parsed :: "wire_env \<Rightarrow> ustr \<Rightarrow> json option" where
  "parsed env t = (case we_json_parse env t of Inr v \<Rightarrow> Some v | Inl _ \<Rightarrow> None)"

definition usage_of :: "wire_env \<Rightarrow> json \<Rightarrow> provider_usage option" where
  "usage_of env v = Option.bind (json_get (str ''usage'') v) (we_usage env)"

definition stream_index :: "json \<Rightarrow> nat" where
  "stream_index v = (case Option.bind (json_get (str ''index'') v) json_as_u64 of Some i \<Rightarrow> unat i | None \<Rightarrow> 0)"

section \<open>Requests\<close>

definition messages_contain_tool_calls :: "normalized_message list \<Rightarrow> bool" where
  "messages_contain_tool_calls ms \<longleftrightarrow>
     list_ex (\<lambda>m. list_ex (\<lambda>p. case p of ToolCallPart _ _ _ \<Rightarrow> True | _ \<Rightarrow> False) (nm_content m)) ms"

definition should_fallback_to_text_tool_results :: "provider_request \<Rightarrow> bool" where
  "should_fallback_to_text_tool_results r \<longleftrightarrow>
     pr_tool_results r \<noteq> [] \<and> \<not> messages_contain_tool_calls (pr_messages r)"

definition tool_result_json :: "tool_call_id \<Rightarrow> provider_request \<Rightarrow> json" where
  "tool_result_json call_id r =
     (case find (\<lambda>t. tr_tool_call_id t = call_id) (pr_tool_results r) of
        Some t \<Rightarrow> tr_result_json t | None \<Rightarrow> JNull)"

definition text_block :: "ustr \<Rightarrow> json" where
  "text_block t = json_object [(str ''type'', JString (str ''text'')), (str ''text'', JString t)]"

definition result_status_text :: "tool_result_status \<Rightarrow> ustr" where
  "result_status_text s = (case s of Accepted \<Rightarrow> str ''Accepted'' | ResultRejected \<Rightarrow> str ''Rejected'')"

definition foreign_content :: "wire_env \<Rightarrow> string \<Rightarrow> json \<Rightarrow> json" where
  "foreign_content env origin v =
     (case str_field ''text'' v of
        Some t \<Rightarrow> text_block t
      | None \<Rightarrow> text_block (str ''['' @ field_or ''type'' (str ''provider_content'') v @ str '' content preserved from ''
                  @ str origin @ str '' input] '' @ we_json_text env v))"

definition merge_options :: "(ustr \<Rightarrow> bool) \<Rightarrow> json \<Rightarrow> json \<Rightarrow> json" where
  "merge_options core body options =
     (case (body, options) of
        (JObject b, JObject os) \<Rightarrow>
          JObject (fold (\<lambda>(k, v) m. if v \<noteq> JNull \<and> \<not> core k then bt_insert k v m else m) os b)
      | _ \<Rightarrow> body)"

section \<open>The system prompt\<close>

definition role_debug :: "agent_role \<Rightarrow> ustr" where
  "role_debug role =
     (case role of Leader \<Rightarrow> str ''Leader'' | Worker \<Rightarrow> str ''Worker'' | Verifier \<Rightarrow> str ''Verifier''
      | ReasoningSummarizer \<Rightarrow> str ''ReasoningSummarizer'' | Synthesizer \<Rightarrow> str ''Synthesizer'')"

definition wire_worker_contract :: "agent_role \<Rightarrow> ustr" where
  "wire_worker_contract role =
     (if role = Worker
      then str '' Worker agents have no client-visible tools in this turn; do not request, invent, or simulate tool calls. Return a concise intermediate artifact only.''
      else [])"

definition user_instructions :: "ustr list \<Rightarrow> ustr" where
  "user_instructions instructions =
     (if instructions = [] then []
      else str ''\<newline>\<newline>User/system instructions to preserve:\<newline>'' @ join [10] instructions)"

definition base_system_prompt :: "agent_role \<Rightarrow> ustr \<Rightarrow> ustr list \<Rightarrow> ustr" where
  "base_system_prompt role objective instructions =
     str ''You are a bounded multi-agent worker. Role: '' @ role_debug role @ str ''. Objective: '' @ objective
     @ str ''. If proposing child agents, return JSON with type=spawn_plan and a plan object. Final answers must be natural, directly useful, and must not expose sub-agent state, internal tool calls, or orchestration details.''
     @ wire_worker_contract role
     @ str '' Preserve formatting exactly when the answer contains XML/HTML-like tags, Markdown, fenced code, lists, tables, or delimiter-separated blocks. Do not minify, collapse line breaks, remove spaces around headings, or merge tag-delimited sections.''
     @ user_instructions instructions"

section \<open>Responses\<close>

definition wire_tool_call :: "wire_env \<Rightarrow> isolation_key \<Rightarrow> task_id \<Rightarrow> ustr \<Rightarrow> ustr \<Rightarrow> json \<Rightarrow> tool_call_record" where
  "wire_tool_call env scope task i name arguments =
     \<lparr>tc_tool_call_id = i, tc_scope = scope, tc_task_id = task, tc_agent_id = str ''agent-'' @ task,
      tc_tool_name = name, tc_arguments_json = arguments,
      tc_arguments_sha256 = we_sha env (we_json_text env arguments), tc_status = Pending,
      tc_created_at_ms = 0, tc_resolved_at_ms = None\<rparr>"

definition plan_artifact :: "isolation_key \<Rightarrow> task_id \<Rightarrow> spawn_plan \<Rightarrow> agent_artifact" where
  "plan_artifact scope task p = ASpawnPlan (str ''spawn-plan-'' @ task) scope p"

definition text_artifact :: "isolation_key \<Rightarrow> task_id \<Rightarrow> ustr \<Rightarrow> agent_artifact" where
  "text_artifact scope task t = AText (str ''text-'' @ task) scope t"

section \<open>Lemmas\<close>

text \<open>An option of the client never takes the place of a core field, and every other one arrives.\<close>

lemma merge_options_get:
  "json_get k (merge_options core (JObject b) (JObject os))
     = (if core k then bt_get b k
        else case map_of (rev (filter (\<lambda>(k, v). v \<noteq> JNull) os)) k of Some v \<Rightarrow> Some v | None \<Rightarrow> bt_get b k)"
proof -
  have "bt_get (fold (\<lambda>(k, v) m. if v \<noteq> JNull \<and> \<not> core k then bt_insert k v m else m) os b) k
      = (if core k then bt_get b k
         else case map_of (rev (filter (\<lambda>(k, v). v \<noteq> JNull) os)) k of Some v \<Rightarrow> Some v | None \<Rightarrow> bt_get b k)" for b :: json_map
    by (induction os arbitrary: b) (auto simp: bt_get_insert map_add_def split: option.splits)
  then show ?thesis by (simp add: merge_options_def)
qed

lemma merge_options_object: "\<exists>m. merge_options core (JObject b) options = JObject m"
  by (simp add: merge_options_def split: json.split)

lemma merge_options_core: "core k \<Longrightarrow> json_get k (merge_options core (JObject b) options) = bt_get b k"
  by (cases options) (simp_all add: merge_options_get, simp_all add: merge_options_def)

text \<open>Setting fields of an object, one field at a time.\<close>

definition is_jobject :: "json \<Rightarrow> bool" where
  "is_jobject v \<longleftrightarrow> (\<exists>m. v = JObject m)"

lemma is_jobject_set [simp]: "is_jobject v \<Longrightarrow> is_jobject (json_set k x v)"
  by (auto simp: is_jobject_def)

lemma json_get_set_object [simp]: "is_jobject v \<Longrightarrow> json_get k (json_set j x v) = (if k = j then Some x else json_get k v)"
  by (auto simp: is_jobject_def bt_get_insert)


section \<open>Streams\<close>

text \<open>Two ways to cut the bytes of one text, both at the ends of characters.\<close>

lemma stream_cut_anywhere:
  assumes "list_all (list_all is_scalar) ts" and "list_all (list_all is_scalar) us" and "concat ts = concat us"
  shows "sse_items parse (sse_source_start (map (\<lambda>t. Inr (utf8_bytes t)) ts))
       = sse_items parse (sse_source_start (map (\<lambda>t. Inr (utf8_bytes t)) us))"
  using assms by (simp add: stream_chunking)

end
