(* ===== verification/Openai_Request.thy ===== *)
theory Openai_Request
  imports Provider_Wire
begin

text \<open>
  \<^verbatim>\<open>provider-openai/src/lib.rs\<close>: the body of a chat completion request.
\<close>

section \<open>Models\<close>

definition normalize_model_id :: "ustr \<Rightarrow> ustr" where
  "normalize_model_id model = map to_ascii_lowercase (trim model)"

definition configured_model_list_contains :: "ustr \<Rightarrow> ustr \<Rightarrow> bool" where
  "configured_model_list_contains raw normalized_model \<longleftrightarrow>
     normalized_model \<in> set (map normalize_model_id (split_on (\<lambda>c. c = 44) raw))"

definition is_gemma_generation_model_with_config :: "ustr \<Rightarrow> ustr list \<Rightarrow> bool" where
  "is_gemma_generation_model_with_config model configured \<longleftrightarrow>
     (let normalized = normalize_model_id model
      in normalized \<noteq> []
         \<and> (contains_str normalized (str ''gemma'')
            \<or> list_ex (\<lambda>raw. configured_model_list_contains raw normalized) configured))"

definition is_gemma_generation_model :: "wire_env \<Rightarrow> ustr \<Rightarrow> bool" where
  "is_gemma_generation_model env model \<longleftrightarrow>
     is_gemma_generation_model_with_config model
       (filter_map (\<lambda>name. we_vars env (str name)) [''MIYA_GEMMA_MODELS'', ''MULTI_AGENT_GEMMA_MODELS'', ''GEMMA_MODELS''])"

definition effective_thinking_format :: "wire_env \<Rightarrow> provider_request \<Rightarrow> thinking_format" where
  "effective_thinking_format env r =
     (if pr_thinking_format r = ThinkAuto
      then (if is_gemma_generation_model env (pr_model r) then GemmaSystemToken else QwenChatTemplate)
      else pr_thinking_format r)"

section \<open>The system prompt\<close>

definition openai_system_prompt :: "agent_role \<Rightarrow> ustr \<Rightarrow> ustr list \<Rightarrow> bool \<Rightarrow> thinking_format \<Rightarrow> ustr" where
  "openai_system_prompt role objective instructions thinking_enabled thinking_format =
     (let prompt = base_system_prompt role objective instructions;
          prompt =
            (if contains_str objective (str ''orchestration plan'')
             then prompt @ str ''\<newline>\<newline>For this orchestration-planner turn, return ONLY valid JSON for type=spawn_plan. Do not answer the user, do not ask whether to proceed, and do not include markdown fences unless the model backend requires them. The exact child-agent count is part of the task objective and must be satisfied. The kernel will validate limits, isolate child agents, run them in bounded parallelism, and synthesize the final answer.''
             else prompt)
      in if thinking_enabled \<and> thinking_format = GemmaSystemToken
         then str ''<|think|>\<newline>'' @ prompt else prompt)"

section \<open>Messages\<close>

definition openai_image_url :: "media_artifact \<Rightarrow> ustr" where
  "openai_image_url m =
     (case ma_source m of
        DataUrl url \<Rightarrow> url
      | RemoteUrl url \<Rightarrow> url
      | Base64 data \<Rightarrow> str ''data:'' @ ma_media_type m @ str '';base64,'' @ data)"

definition image_url_block :: "media_artifact \<Rightarrow> json" where
  "image_url_block m = json_object
     [(str ''type'', JString (str ''image_url'')),
      (str ''image_url'', json_object [(str ''url'', JString (openai_image_url m))])]"

definition openai_message_value :: "string \<Rightarrow> json \<Rightarrow> json" where
  "openai_message_value role content = json_object [(str ''role'', JString (str role)), (str ''content'', content)]"

definition tool_call_line :: "wire_env \<Rightarrow> normalized_content_part \<Rightarrow> ustr option" where
  "tool_call_line env p =
     (case p of
        ToolCallPart call_id name arguments \<Rightarrow>
          Some (str ''Tool call '' @ call_id @ str '' ('' @ name @ str '') arguments:\<newline>'' @ we_json_pretty env arguments)
      | _ \<Rightarrow> None)"

definition tool_result_line :: "wire_env \<Rightarrow> tool_result_record \<Rightarrow> ustr" where
  "tool_result_line env t =
     str ''Tool result '' @ tr_tool_call_id t @ str '' ('' @ result_status_text (tr_status t) @ str ''):\<newline>''
       @ we_json_pretty env (tr_result_json t)"

definition input_text_with_tool_context :: "wire_env \<Rightarrow> provider_request \<Rightarrow> ustr" where
  "input_text_with_tool_context env r =
     (let tool_lines =
        concat (map (\<lambda>m. filter_map (tool_call_line env) (nm_content m)) (pr_messages r))
          @ map (tool_result_line env) (pr_tool_results r)
      in join (str ''\<newline>\<newline>'')
           ((if \<not> is_blank (pr_input_text r) then [pr_input_text r] else [])
            @ (if tool_lines \<noteq> []
               then [str ''Root-visible tool context observed so far:\<newline>'' @ join (str ''\<newline>\<newline>'') tool_lines] else [])))"

definition openai_fallback_user_message :: "wire_env \<Rightarrow> provider_request \<Rightarrow> json" where
  "openai_fallback_user_message env r =
     openai_message_value ''user''
       (JArray (text_block (input_text_with_tool_context env r) # map image_url_block (pr_media_artifacts r)))"

definition should_render_tool_history_as_text :: "wire_env \<Rightarrow> provider_request \<Rightarrow> bool" where
  "should_render_tool_history_as_text env r \<longleftrightarrow>
     pr_tool_results r \<noteq> [] \<and> is_gemma_generation_model env (pr_model r)"

definition openai_tool_result_message :: "wire_env \<Rightarrow> provider_request \<Rightarrow> tool_call_id \<Rightarrow> json" where
  "openai_tool_result_message env r call_id = json_object
     [(str ''role'', JString (str ''tool'')), (str ''tool_call_id'', JString call_id),
      (str ''content'', JString (we_json_text env (tool_result_json call_id r)))]"

definition openai_provider_content :: "wire_env \<Rightarrow> source_format \<Rightarrow> json \<Rightarrow> json" where
  "openai_provider_content env source_format v =
     (if source_format = OpenAIChat then v else foreign_content env ''Anthropic'' v)"

definition openai_content_block :: "wire_env \<Rightarrow> provider_request \<Rightarrow> normalized_content_part \<Rightarrow> json option" where
  "openai_content_block env r p =
     (case p of
        TextPart t \<Rightarrow> Some (text_block t)
      | ImagePart i \<Rightarrow> map_option image_url_block (find (\<lambda>m. ma_id m = ar_artifact_id i) (pr_media_artifacts r))
      | ProviderContentPart f v \<Rightarrow> Some (openai_provider_content env f v)
      | ToolCallPart _ _ _ \<Rightarrow> None
      | ToolResultPart _ \<Rightarrow> None)"

definition openai_content_blocks :: "wire_env \<Rightarrow> provider_request \<Rightarrow> normalized_content_part list \<Rightarrow> json" where
  "openai_content_blocks env r parts = JArray (filter_map (openai_content_block env r) parts)"

definition openai_call_value :: "wire_env \<Rightarrow> normalized_content_part \<Rightarrow> json option" where
  "openai_call_value env p =
     (case p of
        ToolCallPart call_id name arguments \<Rightarrow>
          Some (json_object
            [(str ''id'', JString call_id), (str ''type'', JString (str ''function'')),
             (str ''function'', json_object
               [(str ''name'', JString name), (str ''arguments'', JString (we_json_text env arguments))])])
      | _ \<Rightarrow> None)"

definition openai_assistant_message :: "wire_env \<Rightarrow> normalized_message \<Rightarrow> json" where
  "openai_assistant_message env m =
     (let t = join [10] (filter_map (\<lambda>p. case p of TextPart t \<Rightarrow> Some t | _ \<Rightarrow> None) (nm_content m));
          provider_content =
            filter_map (\<lambda>p. case p of ProviderContentPart OpenAIChat v \<Rightarrow> Some v | _ \<Rightarrow> None) (nm_content m);
          tool_calls = filter_map (openai_call_value env) (nm_content m);
          content =
            (if provider_content = [] then (if t = [] then JNull else JString t)
             else JArray ((if t \<noteq> [] then [text_block t] else []) @ provider_content));
          v = openai_message_value ''assistant'' content
      in if tool_calls \<noteq> [] then json_set (str ''tool_calls'') (JArray tool_calls) v else v)"

definition openai_role :: "message_role \<Rightarrow> string" where
  "openai_role role =
     (case role of RoleSystem \<Rightarrow> ''system'' | RoleUser \<Rightarrow> ''user'' | RoleAssistant \<Rightarrow> ''assistant'' | RoleTool \<Rightarrow> ''tool'')"

definition openai_normalized_message :: "wire_env \<Rightarrow> provider_request \<Rightarrow> normalized_message \<Rightarrow> json list" where
  "openai_normalized_message env r m =
     (let tool_results =
        filter_map (\<lambda>p. case p of ToolResultPart call_id \<Rightarrow> Some (openai_tool_result_message env r call_id) | _ \<Rightarrow> None)
          (nm_content m)
      in if tool_results \<noteq> [] then tool_results
         else (case nm_role m of
                 RoleAssistant \<Rightarrow> [openai_assistant_message env m]
               | RoleTool \<Rightarrow> []
               | role \<Rightarrow> [openai_message_value (openai_role role) (openai_content_blocks env r (nm_content m))]))"

definition openai_messages :: "wire_env \<Rightarrow> provider_request \<Rightarrow> json list" where
  "openai_messages env r =
     (let system = openai_message_value ''system''
            (JString (openai_system_prompt (st_role (pr_task r)) (st_objective (pr_task r)) (pr_system_instructions r)
               (pr_thinking_enabled r) (effective_thinking_format env r)))
      in if pr_messages r = [] \<or> should_fallback_to_text_tool_results r \<or> should_render_tool_history_as_text env r
         then [system, openai_fallback_user_message env r]
         else (let messages = system # concat (map (openai_normalized_message env r)
                                (filter (\<lambda>m. nm_role m \<noteq> RoleSystem) (pr_messages r)))
               in if length messages = 1 then messages @ [openai_fallback_user_message env r] else messages))"

section \<open>Tools\<close>

definition normalized_openai_tool_parameters :: "json \<Rightarrow> json" where
  "normalized_openai_tool_parameters input_schema =
     (let o1 = (case input_schema of JObject m \<Rightarrow> m | _ \<Rightarrow> []);
          o2 = (if bt_contains o1 (str ''type'') then o1 else bt_insert (str ''type'') (JString (str ''object'')) o1);
          o3 = (if bt_contains o2 (str ''properties'') then o2 else bt_insert (str ''properties'') (JObject []) o2)
      in JObject
           (if \<not> (case bt_get o3 (str ''properties'') of Some v \<Rightarrow> json_is_object v | None \<Rightarrow> False)
            then bt_insert (str ''properties'') (JObject []) o3 else o3))"

definition openai_tool_definition :: "tool_definition \<Rightarrow> json" where
  "openai_tool_definition t = json_object
     [(str ''type'', JString (str ''function'')),
      (str ''function'', json_object
        ([(str ''name'', JString (td_name t))]
         @ (case td_description t of Some d \<Rightarrow> [(str ''description'', JString d)] | None \<Rightarrow> [])
         @ [(str ''parameters'', normalized_openai_tool_parameters (td_input_schema t))]))]"

definition should_adapt_named_tool_choice_for_local_backend :: "wire_env \<Rightarrow> provider_request \<Rightarrow> bool" where
  "should_adapt_named_tool_choice_for_local_backend env r \<longleftrightarrow>
     is_gemma_generation_model env (pr_model r) \<and> (case pr_tool_choice r of ToolNamed _ \<Rightarrow> True | _ \<Rightarrow> False)"

definition openai_tools_for_request :: "wire_env \<Rightarrow> provider_request \<Rightarrow> tool_definition list" where
  "openai_tools_for_request env r =
     (case pr_tool_choice r of
        ToolNamed name \<Rightarrow>
          (if should_adapt_named_tool_choice_for_local_backend env r
           then filter (\<lambda>t. td_name t = name) (pr_tools r) else pr_tools r)
      | _ \<Rightarrow> pr_tools r)"

definition openai_wire_tool_choice :: "tool_choice \<Rightarrow> json" where
  "openai_wire_tool_choice choice =
     (case choice of
        ToolAuto \<Rightarrow> JString (str ''auto'')
      | ToolNone \<Rightarrow> JString (str ''none'')
      | ToolRequired \<Rightarrow> JString (str ''required'')
      | ToolNamed name \<Rightarrow> json_object
          [(str ''type'', JString (str ''function'')), (str ''function'', json_object [(str ''name'', JString name)])])"

definition openai_tool_choice_for_request :: "wire_env \<Rightarrow> provider_request \<Rightarrow> json" where
  "openai_tool_choice_for_request env r =
     (if should_adapt_named_tool_choice_for_local_backend env r then JString (str ''required'')
      else openai_wire_tool_choice (pr_tool_choice r))"

section \<open>The body\<close>

definition openai_core_fields :: "ustr list" where
  "openai_core_fields = map str
     [''model'', ''messages'', ''tools'', ''tool_choice'', ''parallel_tool_calls'', ''stream'', ''functions'', ''function_call'']"

definition is_openai_core_field :: "ustr \<Rightarrow> bool" where
  "is_openai_core_field key \<longleftrightarrow> key \<in> set openai_core_fields"

definition openai_thinking_fields :: "wire_env \<Rightarrow> provider_request \<Rightarrow> json \<Rightarrow> json" where
  "openai_thinking_fields env r body =
     (let flag = JBool (pr_thinking_enabled r)
      in case effective_thinking_format env r of
           QwenDashScope \<Rightarrow> json_set (str ''preserve_thinking'') flag (json_set (str ''enable_thinking'') flag body)
         | GemmaSystemToken \<Rightarrow> body
         | _ \<Rightarrow> json_set (str ''chat_template_kwargs'')
                  (json_object [(str ''enable_thinking'', flag), (str ''preserve_thinking'', flag)]) body)"

definition openai_tool_fields :: "wire_env \<Rightarrow> provider_request \<Rightarrow> json \<Rightarrow> json" where
  "openai_tool_fields env r body =
     (if pr_tools r = [] then body
      else (let with_tools = json_set (str ''tool_choice'') (openai_tool_choice_for_request env r)
                  (json_set (str ''tools'') (JArray (map openai_tool_definition (openai_tools_for_request env r))) body)
            in case pr_parallel_tool_calls r of
                 Some p \<Rightarrow> json_set (str ''parallel_tool_calls'') (JBool p) with_tools
               | None \<Rightarrow> with_tools))"

definition openai_request_body :: "wire_env \<Rightarrow> provider_request \<Rightarrow> json" where
  "openai_request_body env r =
     openai_tool_fields env r
       (openai_thinking_fields env r
         (merge_options is_openai_core_field
           (json_object [(str ''model'', JString (pr_model r)), (str ''messages'', JArray (openai_messages env r))])
           (pr_provider_options r)))"

definition openai_stream_request_body :: "wire_env \<Rightarrow> provider_request \<Rightarrow> json" where
  "openai_stream_request_body env r = json_set (str ''stream'') (JBool True) (openai_request_body env r)"

end
