(* ===== verification/Openai_Response.thy ===== *)
theory Openai_Response
  imports Openai_Request
begin

text \<open>
  \<^verbatim>\<open>provider-openai/src/lib.rs\<close>: what a chat completion becomes. Markup around the generated text is
  removed, a spawn plan is read from the text (in full or in the minimal form models write), the tool
  calls are recorded, and a final answer is recovered from a reasoning field when there is no content.
\<close>

section \<open>Markup\<close>

definition after_turn_marker :: "ustr \<Rightarrow> ustr" where
  "after_turn_marker t =
     (case find_map (\<lambda>m. rsplit_once (str m) t) [''<start_of_turn>model'', ''<start_of_turn>assistant''] of
        Some (_, after) \<Rightarrow> after | None \<Rightarrow> t)"

definition generation_tokens :: "ustr list" where
  "generation_tokens = map str
     [''<bos>'', ''<eos>'', ''<start_of_turn>'', ''<end_of_turn>'', ''<|start_of_turn|>'', ''<|end_of_turn|>'']"

definition strip_generation_wrappers :: "ustr \<Rightarrow> ustr" where
  "strip_generation_wrappers content =
     (let t = after_turn_marker (trim content);
          t = (case split_once (str ''<end_of_turn>'') t of Some (before', _) \<Rightarrow> before' | None \<Rightarrow> t)
      in trim (fold (\<lambda>token t. replace_str token [] t) generation_tokens t))"

definition strip_thinking_markup :: "ustr \<Rightarrow> ustr" where
  "strip_thinking_markup content =
     (case rsplit_once (str ''<channel|>'') content of
        Some (_, after) \<Rightarrow> strip_generation_wrappers after
      | None \<Rightarrow>
          (case rsplit_once (str ''</think>'') content of
             Some (_, after) \<Rightarrow> strip_generation_wrappers after
           | None \<Rightarrow> strip_generation_wrappers content))"

section \<open>A final answer inside reasoning\<close>

definition final_markers :: "ustr list" where
  "final_markers =
     map str [''Final answer:'', ''Final Answer:'', ''final answer:'', ''Final output:'', ''Final Output:'',
              ''Final Output Generation'', ''Final Polish'', ''Final:'', ''final:'']
     @ [[0x6700, 0x7D42, 0x7B54, 0x6848, 0xFF1A], [0x6700, 0x7EC8, 0x7B54, 0x6848, 0xFF1A],
        [0x6700, 0x7D42, 0x56DE, 0x7B54, 0xFF1A], [0x6700, 0x7EC8, 0x56DE, 0x7B54, 0xFF1A],
        [0x6700, 0x7D42, 0x8F38, 0x51FA, 0xFF1A], [0x6700, 0x7EC8, 0x8F93, 0x51FA, 0xFF1A],
        [0x6700, 0x7D42, 0x56DE, 0x8986, 0xFF1A], [0x6700, 0x7EC8, 0x56DE, 0x590D, 0xFF1A],
        [0x7B54, 0x6848, 0xFF1A], [0x56DE, 0x7B54, 0xFF1A]]"

text \<open>\<^verbatim>\<open>max_by_key\<close> takes the last of several greatest positions.\<close>

definition after_last_final_marker :: "ustr \<Rightarrow> ustr option" where
  "after_last_final_marker reasoning =
     map_option (\<lambda>(i, n). drop (i + n) reasoning)
       (fold (\<lambda>(i, n) best. (case best of Some (j, _) \<Rightarrow> (if j \<le> i then Some (i, n) else best) | None \<Rightarrow> Some (i, n)))
          (filter_map (\<lambda>m. map_option (\<lambda>i. (i, length m)) (rfind_str m reasoning)) final_markers) None)"

definition last_enclosed :: "ustr \<Rightarrow> nat \<times> nat \<Rightarrow> ustr option" where
  "last_enclosed content marks =
     Option.bind (rfind_idx (\<lambda>c. c = snd marks) content) (\<lambda>close_index.
     let before_close = take close_index content
     in map_option (\<lambda>open_index. trim (drop (Suc open_index) before_close))
          (rfind_idx (\<lambda>c. c = fst marks) before_close))"

definition answer_line_prefixes :: "ustr list" where
  "answer_line_prefixes =
     map str [''Final answer:'', ''Final Answer:'', ''final answer:'', ''Final:'', ''final:'']
     @ [[0x6700, 0x7D42, 0x7B54, 0x6848, 0xFF1A], [0x6700, 0x7EC8, 0x7B54, 0x6848, 0xFF1A],
        [0x6700, 0x7D42, 0x56DE, 0x7B54, 0xFF1A], [0x6700, 0x7EC8, 0x56DE, 0x7B54, 0xFF1A],
        [0x7B54, 0x6848, 0xFF1A], [0x56DE, 0x7B54, 0xFF1A]]"

definition clean_final_answer_line :: "ustr \<Rightarrow> ustr" where
  "clean_final_answer_line line =
     trim (fold trim_prefixes answer_line_prefixes
       (dropWhile (\<lambda>c. c \<in> {45, 42, 32, 9}) (trim line)))"

definition is_public_answer_candidate :: "ustr \<Rightarrow> bool" where
  "is_public_answer_candidate candidate \<longleftrightarrow>
     (let trimmed = trim candidate
      in trimmed \<noteq> [] \<and> 4 \<le> length trimmed \<and> length (lines trimmed) \<le> 6 \<and> length trimmed \<le> 1200)"

definition reasoning_words :: "ustr list" where
  "reasoning_words =
     map str [''analyze'', ''reasoning'', ''thought'', ''step by step'', ''private'']
     @ [[0x601D, 0x8003], [0x63A8, 0x7406], [0x5206, 0x6790]]"

definition looks_like_reasoning :: "wire_env \<Rightarrow> ustr \<Rightarrow> bool" where
  "looks_like_reasoning env candidate \<longleftrightarrow>
     list_ex (\<lambda>m. contains_str (we_lowercase env candidate) m) reasoning_words"

definition is_final_candidate :: "wire_env \<Rightarrow> ustr \<Rightarrow> bool" where
  "is_final_candidate env c \<longleftrightarrow> is_public_answer_candidate c \<and> \<not> looks_like_reasoning env c"

definition extract_final_answer_from_reasoning :: "wire_env \<Rightarrow> ustr \<Rightarrow> ustr option" where
  "extract_final_answer_from_reasoning env reasoning =
     Option.bind (after_last_final_marker reasoning) (\<lambda>marked.
       case find_map (\<lambda>marks. Option.bind (last_enclosed marked marks)
                        (\<lambda>c. if is_final_candidate env c then Some c else None))
              [(0x300C, 0x300D), (0x201C, 0x201D), (34, 34), (96, 96)] of
         Some c \<Rightarrow> Some c
       | None \<Rightarrow> find (is_final_candidate env) (map clean_final_answer_line (rev (lines marked))))"

section \<open>Spawn plans\<close>

definition fenced_object :: "ustr \<Rightarrow> ustr option" where
  "fenced_object trimmed =
     Option.bind (strip_prefix (str ''```'') trimmed) (\<lambda>after_fence.
       let after_language = (case split_once [10] after_fence of Some (_, rest) \<Rightarrow> rest | None \<Rightarrow> after_fence);
           fenced = trim (case rsplit_once (str ''```'') after_language of
                            Some (before', _) \<Rightarrow> before' | None \<Rightarrow> after_language)
       in if starts_with fenced [123] then Some fenced else None)"

definition json_object_candidate :: "ustr \<Rightarrow> ustr option" where
  "json_object_candidate content =
     (let trimmed = trim content
      in if trimmed = [] then None
         else case fenced_object trimmed of
                Some fenced \<Rightarrow> Some fenced
              | None \<Rightarrow>
                  (if starts_with trimmed [123] \<and> ends_with trimmed [125] then Some trimmed
                   else case (find_idx (\<lambda>c. c = 123) trimmed, rfind_idx (\<lambda>c. c = 125) trimmed) of
                          (Some start_at, Some end_at) \<Rightarrow>
                            (if start_at < end_at then Some (drop start_at (take (Suc end_at) trimmed)) else None)
                        | _ \<Rightarrow> None))"

fun slug_loop :: "bool \<Rightarrow> ustr \<Rightarrow> ustr" where
  "slug_loop last_dash [] = []"
| "slug_loop last_dash (ch # s) =
     (if is_ascii_alphanumeric ch then to_ascii_lowercase ch # slug_loop False s
      else if \<not> last_dash then 45 # slug_loop True s
      else slug_loop last_dash s)"

definition slugify_task_id :: "ustr \<Rightarrow> ustr" where
  "slugify_task_id v = trim_char 45 (slug_loop False v)"

definition suffixed_id :: "ustr \<Rightarrow> nat \<Rightarrow> ustr" where
  "suffixed_id base suffix = base @ [45] @ show_nat suffix"

lemma suffixed_id_inject [simp]: "suffixed_id base m = suffixed_id base n \<longleftrightarrow> m = n"
  by (simp add: suffixed_id_def)

lemma finite_taken: "finite {n. suffix \<le> n \<and> suffixed_id base n \<in> set seen}"
proof -
  have "finite (suffixed_id base -` set seen)" by (intro finite_vimageI) (auto simp: inj_def)
  then show ?thesis by (rule rev_finite_subset) auto
qed

text \<open>The \<^verbatim>\<open>loop\<close>: the first suffix whose identifier was not seen. It ends because the seen ones are finite.\<close>

function free_task_id :: "ustr list \<Rightarrow> ustr \<Rightarrow> nat \<Rightarrow> ustr" where
  "free_task_id seen base suffix =
     (if suffixed_id base suffix \<in> set seen then free_task_id seen base (Suc suffix) else suffixed_id base suffix)"
  by pat_completeness auto

termination
proof (relation "measure (\<lambda>(seen, base, suffix). card {n. suffix \<le> n \<and> suffixed_id base n \<in> set seen})")
  fix seen :: "ustr list" and base suffix
  assume "suffixed_id base suffix \<in> set seen"
  then have "suffix \<in> {n. suffix \<le> n \<and> suffixed_id base n \<in> set seen}"
    "suffix \<notin> {n. Suc suffix \<le> n \<and> suffixed_id base n \<in> set seen}"
    by simp_all
  then have "{n. Suc suffix \<le> n \<and> suffixed_id base n \<in> set seen} \<subset> {n. suffix \<le> n \<and> suffixed_id base n \<in> set seen}"
    by (metis (mono_tags, lifting) Collect_mono Suc_leD psubsetI)
  then show "((seen, base, Suc suffix), seen, base, suffix)
      \<in> measure (\<lambda>(seen, base, suffix). card {n. suffix \<le> n \<and> suffixed_id base n \<in> set seen})"
    by (simp add: psubset_card_mono finite_taken)
qed simp

declare free_task_id.simps [simp del]

definition unique_task_id :: "ustr \<Rightarrow> nat \<Rightarrow> ustr list \<Rightarrow> ustr \<times> ustr list" where
  "unique_task_id preferred index seen =
     (let preferred = (if preferred = [] then str ''worker-'' @ pad2 (index + 1) else preferred);
          chosen = (if preferred \<notin> set seen then preferred else free_task_id seen preferred 2)
      in (chosen, bs_insert chosen seen))"

definition first_field :: "json_map \<Rightarrow> string list \<Rightarrow> json option" where
  "first_field object keys = find_map (\<lambda>k. bt_get object (str k)) keys"

definition parse_artifact_kinds :: "wire_env \<Rightarrow> json option \<Rightarrow> artifact_kind list option" where
  "parse_artifact_kinds env v =
     Option.bind (Option.bind v (we_artifact_kinds env)) (\<lambda>ks. if ks = [] then None else Some ks)"

definition or_default :: "'a \<Rightarrow> 'a option \<Rightarrow> 'a" where
  "or_default d v = (case v of Some x \<Rightarrow> x | None \<Rightarrow> d)"

definition child_objective :: "json_map \<Rightarrow> ustr option" where
  "child_objective object =
     Option.bind (Option.bind (first_field object [''objective'', ''task'', ''description'']) json_as_str)
       (\<lambda>t. if trim t = [] then None else Some (trim t))"

definition child_preferred_id :: "json_map \<Rightarrow> ustr \<Rightarrow> ustr" where
  "child_preferred_id object objective =
     (case map_option slugify_task_id (Option.bind (first_field object [''task_id'', ''id'', ''name'']) json_as_str) of
        Some slug \<Rightarrow> (if slug = [] then slugify_task_id objective else slug)
      | None \<Rightarrow> slugify_task_id objective)"

definition normalize_minimal_child ::
  "wire_env \<Rightarrow> json \<Rightarrow> nat \<Rightarrow> ustr list \<Rightarrow> (subtask_spec \<times> ustr list) option" where
  "normalize_minimal_child env v index seen =
     Option.bind (json_as_object v) (\<lambda>object.
     Option.bind (child_objective object) (\<lambda>objective.
       let field = (\<lambda>k. bt_get object (str k));
           (task_id, seen') = unique_task_id (child_preferred_id object objective) index seen;
           limits = or_default agent_limits_default (Option.bind (field ''limits'') (we_agent_limits env))
       in Some
         (\<lparr>st_task_id = task_id,
           st_parent_task_id = Some (or_default (str ''root'') (Option.bind (field ''parent_task_id'') json_as_str)),
           st_spawn_depth = or_default 1
             (Option.bind (Option.bind (field ''spawn_depth'') json_as_u64) (\<lambda>n. nat_to_word (unat n))),
           st_role = or_default Worker (Option.bind (field ''role'') (we_agent_role env)),
           st_objective = objective,
           st_input_artifact_refs = or_default [] (Option.bind (field ''input_artifact_refs'') (we_artifact_refs env)),
           st_expected_outputs = or_default [KindText] (parse_artifact_kinds env (field ''expected_outputs'')),
           st_allowed_capabilities =
             or_default (capability_set_from [CapText])
               (Option.bind (field ''allowed_capabilities'') (we_capability_set env)),
           st_limits = limits\<lparr>al_max_tool_calls := 0\<rparr>\<rparr>, seen')))"

fun minimal_children :: "wire_env \<Rightarrow> nat \<Rightarrow> ustr list \<Rightarrow> json list \<Rightarrow> subtask_spec list" where
  "minimal_children env index seen [] = []"
| "minimal_children env index seen (v # vs) =
     (case normalize_minimal_child env v index seen of
        None \<Rightarrow> minimal_children env (Suc index) seen vs
      | Some (child, seen') \<Rightarrow> child # minimal_children env (Suc index) seen' vs)"

definition normalize_minimal_spawn_plan :: "wire_env \<Rightarrow> json \<Rightarrow> spawn_plan option" where
  "normalize_minimal_spawn_plan env v =
     Option.bind (json_as_object v) (\<lambda>object.
     Option.bind (Option.bind (bt_get object (str ''children'')) json_as_array) (\<lambda>children_value.
       let field = (\<lambda>k. bt_get object (str k));
           children = minimal_children env 0 [] children_value;
           max_tokens = sat_mul (al_max_tokens agent_limits_default) (nat_to_word_or_max (length children))
       in Some
         \<lparr>sp_parent_task_id = or_default (str ''root'') (Option.bind (field ''parent_task_id'') json_as_str),
          sp_reason =
            or_default (str ''model selected child-agent division'')
              (Option.bind (Option.bind (field ''reason'') json_as_str) (\<lambda>t. if is_blank t then None else Some t)),
          sp_children = children,
          sp_expected_artifacts = or_default [KindText] (parse_artifact_kinds env (field ''expected_artifacts'')),
          sp_budget_request =
            or_default \<lparr>br_max_tokens = max_tokens, br_max_tool_calls = 0\<rparr>
              (Option.bind (field ''budget_request'') (we_budget_request env))\<rparr>))"

definition plan_value_of :: "json \<Rightarrow> json" where
  "plan_value_of v =
     (case json_get (str ''plan'') v of
        Some p \<Rightarrow> p
      | None \<Rightarrow> (if str_field ''type'' v = Some (str ''spawn_plan'') then JNull else v))"

definition parse_spawn_plan_from_content :: "wire_env \<Rightarrow> ustr \<Rightarrow> spawn_plan option" where
  "parse_spawn_plan_from_content env content =
     Option.bind (json_object_candidate content) (\<lambda>candidate.
     Option.bind (parsed env candidate) (\<lambda>v.
       case we_spawn_plan env (plan_value_of v) of
         Some p \<Rightarrow> Some p
       | None \<Rightarrow> normalize_minimal_spawn_plan env (plan_value_of v)))"

definition openai_artifact :: "wire_env \<Rightarrow> isolation_key \<Rightarrow> task_id \<Rightarrow> ustr \<Rightarrow> agent_artifact" where
  "openai_artifact env scope task content =
     (let content = strip_thinking_markup content
      in case parse_spawn_plan_from_content env content of
           Some p \<Rightarrow> plan_artifact scope task p
         | None \<Rightarrow> text_artifact scope task content)"

section \<open>The response\<close>

definition openai_response_tool_call :: "wire_env \<Rightarrow> isolation_key \<Rightarrow> task_id \<Rightarrow> json \<Rightarrow> tool_call_record" where
  "openai_response_tool_call env scope task call =
     (let function_value = or_default JNull (json_get (str ''function'') call);
          arguments = or_default JNull (Option.bind (str_field ''arguments'' function_value) (parsed env))
      in wire_tool_call env scope task (field_or ''id'' (str ''tool-call'') call)
           (field_or ''name'' (str ''unknown'') function_value) arguments)"

definition content_artifact :: "wire_env \<Rightarrow> isolation_key \<Rightarrow> task_id \<Rightarrow> json \<Rightarrow> agent_artifact option" where
  "content_artifact env scope task message =
     Option.bind (str_field ''content'' message)
       (\<lambda>c. if is_blank (strip_thinking_markup c) then None else Some (openai_artifact env scope task c))"

definition reasoning_artifact :: "wire_env \<Rightarrow> isolation_key \<Rightarrow> task_id \<Rightarrow> json \<Rightarrow> agent_artifact option" where
  "reasoning_artifact env scope task message =
     map_option (openai_artifact env scope task)
       (find_map (extract_final_answer_from_reasoning env)
          (filter_map (\<lambda>k. str_field k message) [''reasoning'', ''reasoning_content'']))"

definition openai_parse_response :: "wire_env \<Rightarrow> isolation_key \<Rightarrow> task_id \<Rightarrow> json \<Rightarrow> provider_result" where
  "openai_parse_response env scope task v =
     (case Option.bind (first_choice v) (json_get (str ''message'')) of
        None \<Rightarrow> Inl (Rejected (str ''OpenAI response missing message''))
      | Some message \<Rightarrow>
          Inr \<lparr>ps_artifacts =
                 (case content_artifact env scope task message of
                    Some a \<Rightarrow> [a]
                  | None \<Rightarrow> (case reasoning_artifact env scope task message of Some a \<Rightarrow> [a] | None \<Rightarrow> [])),
               ps_tool_calls =
                 map (openai_response_tool_call env scope task)
                   (or_default [] (Option.bind (json_get (str ''tool_calls'') message) json_as_array)),
               ps_usage = or_default provider_usage_default (usage_of env v)\<rparr>)"

end
