(* ===== verification/Openai_Stream.thy ===== *)
theory Openai_Stream
  imports Openai_Response
begin

text \<open>
  \<^verbatim>\<open>provider-openai/src/lib.rs\<close>: the frames of a streamed completion, the errors of the HTTP layer, and
  the provider itself over a client.
\<close>

section \<open>Frames\<close>

definition openai_provider_finish_reason :: "ustr \<Rightarrow> provider_finish_reason" where
  "openai_provider_finish_reason reason =
     (if reason = str ''stop'' then FinishStop
      else if reason = str ''tool_calls'' then FinishToolCalls
      else if reason = str ''function_call'' then FinishFunctionCall
      else if reason = str ''length'' then FinishLength
      else FinishOther reason)"

definition delta_text_event :: "json \<Rightarrow> provider_stream_event list" where
  "delta_text_event delta =
     (case str_field ''content'' delta of
        Some t \<Rightarrow> (if t = [] then [] else [TextDelta (strip_thinking_markup t)])
      | None \<Rightarrow> [])"

definition delta_call_event :: "json \<Rightarrow> provider_stream_event" where
  "delta_call_event call =
     (let function_value = or_default JNull (json_get (str ''function'') call)
      in ToolCallDelta (stream_index call) (str_field ''id'' call) (str_field ''name'' function_value)
           (field_or ''arguments'' [] function_value))"

definition delta_function_event :: "json \<Rightarrow> provider_stream_event list" where
  "delta_function_event delta =
     (case json_get (str ''function_call'') delta of
        Some f \<Rightarrow> [ToolCallDelta 0 None (str_field ''name'' f) (field_or ''arguments'' [] f)]
      | None \<Rightarrow> [])"

definition delta_events :: "json \<Rightarrow> provider_stream_event list" where
  "delta_events delta =
     delta_text_event delta
     @ map delta_call_event (or_default [] (Option.bind (json_get (str ''tool_calls'') delta) json_as_array))
     @ delta_function_event delta"

definition openai_stream_events_from_chunk :: "wire_env \<Rightarrow> json \<Rightarrow> provider_stream_event list" where
  "openai_stream_events_from_chunk env v =
     (case usage_of env v of Some u \<Rightarrow> [Usage u] | None \<Rightarrow> [])
     @ (case first_choice v of
          None \<Rightarrow> []
        | Some choice \<Rightarrow>
            (case json_get (str ''delta'') choice of Some delta \<Rightarrow> delta_events delta | None \<Rightarrow> [])
            @ (case str_field ''finish_reason'' choice of
                 Some reason \<Rightarrow> [Finish (openai_provider_finish_reason reason)] | None \<Rightarrow> []))"

definition parse_openai_sse_frame :: "wire_env \<Rightarrow> ustr \<Rightarrow> stream_item list" where
  "parse_openai_sse_frame env frame =
     (let data = frame_data frame
      in if is_blank data \<or> trim data = str ''[DONE]'' then []
         else case we_json_parse env data of
                Inl e \<Rightarrow> [Inl (Rejected (str ''invalid OpenAI stream chunk: '' @ e))]
              | Inr v \<Rightarrow>
                  (case json_get (str ''error'') v of
                     Some e \<Rightarrow> [Inl (Rejected (we_json_text env e))]
                   | None \<Rightarrow> map Inr (openai_stream_events_from_chunk env v)))"

definition openai_sse_provider_stream :: "wire_env \<Rightarrow> (ustr + nat list) list \<Rightarrow> stream_item list" where
  "openai_sse_provider_stream env chunks = sse_items (parse_openai_sse_frame env) (sse_source_start chunks)"

section \<open>The provider\<close>

record openai_provider =
  op_base_url :: ustr
  op_api_key :: ustr

text \<open>\<^verbatim>\<open>trim_end_matches('/')\<close>.\<close>

definition trim_slashes :: "ustr \<Rightarrow> ustr" where
  "trim_slashes u = rev (dropWhile (\<lambda>c. c = 47) (rev u))"

definition openai_provider_new :: "ustr \<Rightarrow> ustr \<Rightarrow> openai_provider" where
  "openai_provider_new base_url api_key = \<lparr>op_base_url = trim_slashes base_url, op_api_key = api_key\<rparr>"

definition openai_provider_from_env :: "(ustr \<Rightarrow> ustr option) \<Rightarrow> provider_error + openai_provider" where
  "openai_provider_from_env vars =
     (case vars (str ''OPENAI_API_KEY'') of
        None \<Rightarrow> Inl (Rejected (str ''OPENAI_API_KEY is required''))
      | Some api_key \<Rightarrow>
          Inr (openai_provider_new
                 (case vars (str ''OPENAI_BASE_URL'') of Some u \<Rightarrow> u | None \<Rightarrow> str ''https://api.openai.com/v1'') api_key))"

definition openai_retry_after_ms :: "(ustr \<times> ustr) list \<Rightarrow> u64 option" where
  "openai_retry_after_ms headers =
     (case header_retry_after_ms headers of
        Some ms \<Rightarrow> Some ms
      | None \<Rightarrow> header_u64 ''x-ratelimit-reset-ms'' headers)"

definition body_text :: "http_response \<Rightarrow> ustr" where
  "body_text resp =
     (case hr_body resp of Inr t \<Rightarrow> t | Inl e \<Rightarrow> str ''<failed to read error body: '' @ e @ str ''>'')"

definition json_or_error :: "wire_env \<Rightarrow> string \<Rightarrow> http_response \<Rightarrow> provider_error + http_response" where
  "json_or_error env context_text resp =
     (if is_success (hr_status resp) then Inr resp
      else
       (let body = body_text resp;
            error = Option.bind (parsed env body) (json_get (str ''error''));
            code = Option.bind error (str_field ''code'');
            message = or_default (str context_text @ str '' failed for '' @ hr_url resp @ str ''; body: '' @ body)
                        (Option.bind error (str_field ''message''))
        in Inl (Http (str ''openai'') (hr_status resp) code message (openai_retry_after_ms (hr_headers resp)))))"

definition openai_http_request :: "openai_provider \<Rightarrow> json \<Rightarrow> http_request" where
  "openai_http_request p body =
     \<lparr>hq_url = op_base_url p @ str ''/chat/completions'',
      hq_headers = [(str ''authorization'', str ''Bearer '' @ op_api_key p)], hq_json = body\<rparr>"

definition openai_read_response ::
  "wire_env \<Rightarrow> provider_request \<Rightarrow> http_failure + http_response \<Rightarrow> provider_result" where
  "openai_read_response env r answer =
     (case answer of
        Inl e \<Rightarrow> Inl (transport_error ''openai'' e)
      | Inr resp \<Rightarrow>
          ebind (json_or_error env ''OpenAI chat completion'' resp) (\<lambda>resp.
          ebind (json_body ''openai'' resp) (\<lambda>v.
            openai_parse_response env (pr_scope r) (st_task_id (pr_task r)) v)))"

definition openai_invoke :: "wire_env \<Rightarrow> 'w http_client \<Rightarrow> openai_provider \<Rightarrow> 'w provider" where
  "openai_invoke env send p w r =
     (case send w (openai_http_request p (openai_request_body env r)) of
        (w', ms, answer) \<Rightarrow> (w', ms, openai_read_response env r answer))"

definition openai_stream ::
  "wire_env \<Rightarrow> 'w http_client \<Rightarrow> openai_provider \<Rightarrow> 'w \<Rightarrow> provider_request
     \<Rightarrow> 'w \<times> nat \<times> (provider_error + stream_item list)" where
  "openai_stream env send p w r =
     (case send w (openai_http_request p (openai_stream_request_body env r)) of
        (w', ms, Inl e) \<Rightarrow> (w', ms, Inl (transport_error ''openai'' e))
      | (w', ms, Inr resp) \<Rightarrow>
          (w', ms, ebind (json_or_error env ''OpenAI chat completion stream'' resp)
             (\<lambda>resp. Inr (openai_sse_provider_stream env (hr_chunks resp)))))"

end
