(* ===== verification/Openai_Facts.thy ===== *)
theory Openai_Facts
  imports Openai_Stream
begin

text \<open>
  Facts on the OpenAI adapter: the fields of a request body the client cannot replace, the shape of the
  messages, the children of a minimal plan, the text before the last mark of thinking, and the fields of
  a response.
\<close>

section \<open>The body\<close>

lemma thinking_fields_object: "is_jobject v \<Longrightarrow> is_jobject (openai_thinking_fields env r v)"
  by (simp add: openai_thinking_fields_def Let_def split: thinking_format.split)

lemma tool_fields_object: "is_jobject v \<Longrightarrow> is_jobject (openai_tool_fields env r v)"
  by (simp add: openai_tool_fields_def Let_def split: option.split)

definition thinking_field :: "ustr \<Rightarrow> bool" where
  "thinking_field k \<longleftrightarrow> k \<in> str ` {''enable_thinking'', ''preserve_thinking'', ''chat_template_kwargs''}"

lemma thinking_fields_get:
  "is_jobject v \<Longrightarrow> \<not> thinking_field k \<Longrightarrow> json_get k (openai_thinking_fields env r v) = json_get k v"
  by (auto simp: openai_thinking_fields_def thinking_field_def Let_def split: thinking_format.split)

definition openai_base_body :: "wire_env \<Rightarrow> provider_request \<Rightarrow> json" where
  "openai_base_body env r =
     merge_options is_openai_core_field
       (json_object [(str ''model'', JString (pr_model r)), (str ''messages'', JArray (openai_messages env r))])
       (pr_provider_options r)"

lemma base_body_object: "is_jobject (openai_base_body env r)"
  unfolding openai_base_body_def is_jobject_def json_object_def by (rule merge_options_object)

lemma base_body_core:
  "is_openai_core_field k \<Longrightarrow> json_get k (openai_base_body env r)
     = map_of [(str ''model'', JString (pr_model r)), (str ''messages'', JArray (openai_messages env r))] k"
  using merge_options_core [of is_openai_core_field k]
    json_get_object [of k "[(str ''model'', JString (pr_model r)), (str ''messages'', JArray (openai_messages env r))]"]
  by (auto simp: openai_base_body_def json_object_def)

lemma core_not_thinking: "is_openai_core_field k \<Longrightarrow> \<not> thinking_field k"
  by (auto simp: is_openai_core_field_def openai_core_fields_def thinking_field_def)

lemma body_core:
  assumes "is_openai_core_field k"
  shows "json_get k (openai_request_body env r) =
    (if k = str ''model'' then Some (JString (pr_model r))
     else if k = str ''messages'' then Some (JArray (openai_messages env r))
     else if pr_tools r = [] then None
     else if k = str ''tools'' then Some (JArray (map openai_tool_definition (openai_tools_for_request env r)))
     else if k = str ''tool_choice'' then Some (openai_tool_choice_for_request env r)
     else if k = str ''parallel_tool_calls'' then map_option JBool (pr_parallel_tool_calls r)
     else None)"
proof -
  let ?v = "openai_thinking_fields env r (openai_base_body env r)"
  have o: "is_jobject ?v" by (rule thinking_fields_object [OF base_body_object])
  have g: "json_get k ?v = map_of [(str ''model'', JString (pr_model r)), (str ''messages'', JArray (openai_messages env r))] k"
    using thinking_fields_get [OF base_body_object core_not_thinking [OF assms]] base_body_core [OF assms] by metis
  show ?thesis
    using o g by (auto simp: openai_request_body_def openai_base_body_def [symmetric] openai_tool_fields_def Let_def
        split: option.split)
qed

lemma body_option:
  assumes "\<not> is_openai_core_field k" and "\<not> thinking_field k" and "pr_provider_options r = JObject os"
  shows "json_get k (openai_request_body env r) = map_of (rev (filter (\<lambda>(k, v). v \<noteq> JNull) os)) k"
proof -
  let ?v = "openai_thinking_fields env r (openai_base_body env r)"
  have o: "is_jobject ?v" by (rule thinking_fields_object [OF base_body_object])
  have n: "k \<noteq> str ''tools''" "k \<noteq> str ''tool_choice''" "k \<noteq> str ''parallel_tool_calls''" "k \<noteq> str ''model''" "k \<noteq> str ''messages''"
    using assms(1) by (auto simp: is_openai_core_field_def openai_core_fields_def)
  have "json_get k (openai_request_body env r) = json_get k ?v"
    using o n by (auto simp: openai_request_body_def openai_base_body_def [symmetric] openai_tool_fields_def Let_def
        split: option.split)
  also have "\<dots> = json_get k (openai_base_body env r)" by (rule thinking_fields_get [OF base_body_object assms(2)])
  also have "\<dots> = map_of (rev (filter (\<lambda>(k, v). v \<noteq> JNull) os)) k"
    using assms(1,3) n merge_options_get [of k is_openai_core_field]
      json_get_object [of k "[(str ''model'', JString (pr_model r)), (str ''messages'', JArray (openai_messages env r))]"]
    by (auto simp: openai_base_body_def json_object_def split: option.splits)
  finally show ?thesis .
qed

lemma body_object: "is_jobject (openai_request_body env r)"
  unfolding openai_request_body_def openai_base_body_def [symmetric]
  by (intro tool_fields_object thinking_fields_object base_body_object)

section \<open>Messages\<close>

definition message_role_of :: "json \<Rightarrow> json option" where
  "message_role_of m = json_get (str ''role'') m"

lemma role_simps [simp]:
  "message_role_of (openai_message_value role c) = Some (JString (str role))"
  "message_role_of (openai_tool_result_message env r i) = Some (JString (str ''tool''))"
  "message_role_of (openai_fallback_user_message env r) = Some (JString (str ''user''))"
  by (simp_all add: message_role_of_def openai_message_value_def openai_tool_result_message_def
      openai_fallback_user_message_def json_get_object)

lemma role_assistant [simp]: "message_role_of (openai_assistant_message env m) = Some (JString (str ''assistant''))"
proof -
  have "is_jobject (openai_message_value role c)" for role c
    by (auto simp: openai_message_value_def json_object_def is_jobject_def)
  then show ?thesis
    by (simp add: openai_assistant_message_def Let_def message_role_of_def openai_message_value_def json_get_object)
qed

lemma message_not_system:
  assumes "v \<in> set (openai_normalized_message env r m)" and "nm_role m \<noteq> RoleSystem"
  shows "message_role_of v \<noteq> Some (JString (str ''system''))"
proof -
  have results: "\<forall>v \<in> set (filter_map (\<lambda>p. case p of ToolResultPart i \<Rightarrow> Some (openai_tool_result_message env r i) | _ \<Rightarrow> None) ps).
      message_role_of v = Some (JString (str ''tool''))" for ps
    by (induction ps) (simp_all split: normalized_content_part.split)
  show ?thesis
    using assms results [of "nm_content m"]
    by (cases "nm_role m") (auto simp: openai_normalized_message_def Let_def openai_role_def split: if_splits)
qed

lemma openai_messages_shape:
  "\<exists>system rest. openai_messages env r = system # rest \<and> rest \<noteq> []
     \<and> message_role_of system = Some (JString (str ''system''))
     \<and> (\<forall>v \<in> set rest. message_role_of v \<noteq> Some (JString (str ''system'')))"
proof -
  let ?rest = "concat (map (openai_normalized_message env r) (filter (\<lambda>m. nm_role m \<noteq> RoleSystem) (pr_messages r)))"
  have "\<forall>v \<in> set ?rest. message_role_of v \<noteq> Some (JString (str ''system''))"
    using message_not_system by fastforce
  then show ?thesis by (auto simp: openai_messages_def Let_def)
qed

section \<open>Minimal plans\<close>

definition child_ok :: "subtask_spec \<Rightarrow> bool" where
  "child_ok c \<longleftrightarrow> st_task_id c \<noteq> [] \<and> st_parent_task_id c \<noteq> None \<and> \<not> is_blank (st_objective c)
     \<and> al_max_tool_calls (st_limits c) = 0"

lemma free_task_id_fresh: "free_task_id seen base n \<notin> set seen"
  by (induction seen base n rule: free_task_id.induct) (simp add: free_task_id.simps [where suffix = suffix for suffix])

lemma free_task_id_nonempty: "free_task_id seen base n \<noteq> []"
proof (induction seen base n rule: free_task_id.induct)
  case (1 seen base n)
  then show ?case by (subst free_task_id.simps) (simp add: suffixed_id_def)
qed

lemma unique_task_id_fresh:
  assumes "unique_task_id preferred index seen = (i, seen')"
  shows "i \<notin> set seen \<and> i \<noteq> [] \<and> set seen' = insert i (set seen)"
  using assms free_task_id_fresh free_task_id_nonempty
  by (auto simp: unique_task_id_def Let_def str_def split: if_splits)

lemma minimal_child_ok:
  assumes "normalize_minimal_child env v index seen = Some (c, seen')"
  shows "child_ok c \<and> st_task_id c \<notin> set seen \<and> set seen' = insert (st_task_id c) (set seen)"
proof -
  obtain object objective where v: "json_as_object v = Some object" and o: "child_objective object = Some objective"
    using assms by (auto simp: normalize_minimal_child_def bind_eq_Some_conv)
  obtain i s' where u': "unique_task_id (child_preferred_id object objective) index seen = (i, s')" by fastforce
  have c: "st_objective c = objective" "st_parent_task_id c \<noteq> None" "al_max_tool_calls (st_limits c) = 0"
    and u: "unique_task_id (child_preferred_id object objective) index seen = (st_task_id c, seen')"
    using assms v o u' by (auto simp: normalize_minimal_child_def Let_def)
  have "\<not> is_blank objective" using o by (auto simp: child_objective_def bind_eq_Some_conv is_blank_def split: if_splits)
  then show ?thesis using unique_task_id_fresh [OF u] c by (simp add: child_ok_def)
qed

lemma minimal_children_ok:
  "list_all child_ok (minimal_children env index seen vs) \<and> distinct (map st_task_id (minimal_children env index seen vs))
   \<and> st_task_id ` set (minimal_children env index seen vs) \<inter> set seen = {}
   \<and> length (minimal_children env index seen vs) \<le> length vs"
proof (induction vs arbitrary: index seen)
  case (Cons v vs)
  show ?case
  proof (cases "normalize_minimal_child env v index seen")
    case None
    with Cons.IH [of "Suc index" seen] show ?thesis by (simp add: le_SucI)
  next
    case (Some p)
    obtain c seen' where p: "normalize_minimal_child env v index seen = Some (c, seen')" using Some by (cases p) auto
    with minimal_child_ok [OF p] Cons.IH [of "Suc index" seen'] show ?thesis by auto
  qed
qed simp

lemma minimal_plan_ok:
  assumes "normalize_minimal_spawn_plan env v = Some p"
  shows "distinct (map st_task_id (sp_children p))
    \<and> (\<forall>c \<in> set (sp_children p). st_task_id c \<noteq> [] \<and> st_parent_task_id c \<noteq> None
         \<and> \<not> is_blank (st_objective c) \<and> al_max_tool_calls (st_limits c) = 0)
    \<and> (\<exists>vs. Option.bind (json_get (str ''children'') v) json_as_array = Some vs \<and> length (sp_children p) \<le> length vs)
    \<and> sp_expected_artifacts p \<noteq> [] \<and> \<not> is_blank (sp_reason p)"
proof -
  obtain object cv vs where v: "v = JObject object" "bt_get object (str ''children'') = Some cv" "json_as_array cv = Some vs"
    using assms by (cases v) (auto simp: normalize_minimal_spawn_plan_def bind_eq_Some_conv)
  have c: "sp_children p = minimal_children env 0 [] vs" using assms v by (auto simp: normalize_minimal_spawn_plan_def Let_def)
  have k: "or_default [KindText] (parse_artifact_kinds env x) \<noteq> []" for x
    by (cases "parse_artifact_kinds env x") (auto simp: or_default_def parse_artifact_kinds_def bind_eq_Some_conv split: if_splits)
  have "\<not> is_blank (str ''model selected child-agent division'')"
    by (simp add: str_def is_blank_def trim_def trim_start_def trim_end_def is_whitespace_def)
  then have b: "\<not> is_blank (or_default (str ''model selected child-agent division'')
      (Option.bind x (\<lambda>y. Option.bind (json_as_str y) (\<lambda>t. if is_blank t then None else Some t))))" for x
    by (cases "Option.bind x json_as_str") (auto simp: or_default_def bind_eq_Some_conv bind_eq_None_conv split: option.splits)
  have "sp_expected_artifacts p \<noteq> [] \<and> \<not> is_blank (sp_reason p)"
    using assms v k b by (auto simp: normalize_minimal_spawn_plan_def Let_def)
  then show ?thesis using minimal_children_ok [of env 0 "[]" vs] v c by (auto simp: list_all_iff child_ok_def)
qed

section \<open>Thinking\<close>

lemma strip_after_channel:
  assumes "\<not> contains_str b (str ''<channel|>'')"
  shows "strip_thinking_markup (a @ str ''<channel|>'' @ b) = strip_generation_wrappers b"
proof -
  have "rsplit_once (str ''<channel|>'') (a @ str ''<channel|>'' @ b) = Some (a, b)"
    by (rule rsplit_once_last [OF _ _ assms]) (simp_all add: str_def)
  then show ?thesis by (simp add: strip_thinking_markup_def)
qed

lemma strip_after_think:
  assumes "\<not> contains_str b (str ''</think>'')" and "\<not> contains_str (a @ str ''</think>'' @ b) (str ''<channel|>'')"
  shows "strip_thinking_markup (a @ str ''</think>'' @ b) = strip_generation_wrappers b"
proof -
  have "rsplit_once (str ''</think>'') (a @ str ''</think>'' @ b) = Some (a, b)"
    by (rule rsplit_once_last [OF _ _ assms(1)]) (simp_all add: str_def)
  then show ?thesis using assms(2) by (simp add: strip_thinking_markup_def rsplit_once_None [symmetric])
qed

section \<open>Responses\<close>

lemma openai_artifact_scope: "artifact_scope_of (openai_artifact env scope task content) = scope"
  by (simp add: openai_artifact_def Let_def plan_artifact_def text_artifact_def split: option.split)

lemma parse_response_confined:
  assumes "openai_parse_response env scope task v = Inr r"
  shows "length (ps_artifacts r) \<le> 1 \<and> (\<forall>a \<in> set (ps_artifacts r). artifact_scope_of a = scope)
    \<and> (\<forall>c \<in> set (ps_tool_calls r). tc_scope c = scope \<and> tc_task_id c = task \<and> tc_status c = Pending)"
  using assms by (auto simp: openai_parse_response_def content_artifact_def reasoning_artifact_def bind_eq_Some_conv
      openai_artifact_scope openai_response_tool_call_def wire_tool_call_def Let_def split: option.splits if_splits)

section \<open>Streamed text\<close>

lemma contains_needs_head: "p \<noteq> [] \<Longrightarrow> hd p \<notin> set s \<Longrightarrow> \<not> contains_str s p"
  by (cases p) (auto simp: contains_str_iff)

lemma replace_absent: "p \<noteq> [] \<Longrightarrow> hd p \<notin> set s \<Longrightarrow> replace_str p r s = s"
  by (induction s) (auto simp: starts_with_def, metis hd_take list.sel(1) length_greater_0_conv)

lemma trim_subset: "set (trim s) \<subseteq> set s"
  unfolding trim_def trim_end_def trim_start_def by (auto dest!: set_dropWhileD)

lemma strip_plain:
  assumes "60 \<notin> set t"
  shows "strip_thinking_markup t = trim t"
proof -
  have no: "rsplit_once (str m) s = None \<and> split_once (str m) s = None" if "m \<noteq> []" "hd m = CHR ''<''" "60 \<notin> set s" for m s
  proof -
    have "\<not> contains_str s (str m)" using contains_needs_head [of "str m" s] that by (cases m) (auto simp: str_Cons_append)
    then show ?thesis by (cases "split_once (str m) s") (simp_all add: rsplit_once_None, simp add: contains_str_def)
  qed
  have t: "60 \<notin> set (trim t)" using assms trim_subset [of t] by blast
  have tokens: "fold (\<lambda>token s. replace_str token [] s) ts s = s"
    if "list_all (\<lambda>token. token \<noteq> [] \<and> hd token = 60) ts" "60 \<notin> set s" for ts s
    using that by (induction ts) (simp_all add: replace_absent)
  have g: "list_all (\<lambda>token. token \<noteq> [] \<and> hd token = 60) generation_tokens"
    by (simp add: generation_tokens_def str_def)
  have "strip_generation_wrappers t = trim t"
    using no [OF _ _ t] tokens [OF g t]
    by (simp add: strip_generation_wrappers_def after_turn_marker_def Let_def)
  then show ?thesis using no [OF _ _ assms] by (simp add: strip_thinking_markup_def)
qed

lemma plain_delta:
  assumes "str_field ''content'' delta = Some t" and "t \<noteq> []" and "60 \<notin> set t"
  shows "delta_text_event delta = [TextDelta (trim t)]"
  using assms strip_plain by (simp add: delta_text_event_def)

section \<open>Errors\<close>

lemma openai_error_answer:
  assumes "\<not> is_success (hr_status resp)"
  shows "\<exists>code message. openai_read_response env r (Inr resp)
     = Inl (Http (str ''openai'') (hr_status resp) code message (openai_retry_after_ms (hr_headers resp)))"
  using assms by (simp add: openai_read_response_def json_or_error_def Let_def)

end
