(* ===== verification/Anthropic_Wire.thy ===== *)
theory Anthropic_Wire
  imports Provider_Wire
begin

text \<open>
  \<^verbatim>\<open>provider-anthropic/src/lib.rs\<close>: the body of a messages request, the reading of its answer, the
  frames of a streamed one, and the provider over a client.
\<close>

section \<open>Messages\<close>

definition split_data_url :: "ustr \<Rightarrow> (ustr \<times> ustr) option" where
  "split_data_url data_url = Option.bind (strip_prefix (str ''data:'') data_url) (split_once (str '';base64,''))"

definition image_block :: "(ustr \<times> json) list \<Rightarrow> json" where
  "image_block source = json_object [(str ''type'', JString (str ''image'')), (str ''source'', json_object source)]"

definition base64_source :: "ustr \<Rightarrow> ustr \<Rightarrow> (ustr \<times> json) list" where
  "base64_source media_type data =
     [(str ''type'', JString (str ''base64'')), (str ''media_type'', JString media_type), (str ''data'', JString data)]"

definition anthropic_media_block :: "media_artifact \<Rightarrow> json" where
  "anthropic_media_block m =
     (case ma_source m of
        Base64 data \<Rightarrow> image_block (base64_source (ma_media_type m) data)
      | DataUrl data_url \<Rightarrow>
          (case (case split_data_url data_url of Some p \<Rightarrow> p | None \<Rightarrow> (ma_media_type m, data_url)) of
             (media_type, data) \<Rightarrow> image_block (base64_source media_type data))
      | RemoteUrl url \<Rightarrow> image_block [(str ''type'', JString (str ''url'')), (str ''url'', JString url)])"

definition result_line :: "wire_env \<Rightarrow> tool_result_record \<Rightarrow> ustr" where
  "result_line env t =
     str ''- tool_call_id='' @ tr_tool_call_id t @ str '' status='' @ result_status_text (tr_status t)
       @ str '' result='' @ we_json_text env (tr_result_json t)"

definition input_text_with_tool_results :: "wire_env \<Rightarrow> ustr \<Rightarrow> tool_result_record list \<Rightarrow> ustr" where
  "input_text_with_tool_results env input results =
     (if results = [] then input
      else (let result_lines = join [10] (map (result_line env) results)
            in if is_blank input then str ''Tool results available to the main agent:\<newline>'' @ result_lines
               else input @ str ''\<newline>\<newline>Tool results available to the main agent:\<newline>'' @ result_lines))"

definition anthropic_message_value :: "string \<Rightarrow> json list \<Rightarrow> json" where
  "anthropic_message_value role content =
     json_object [(str ''role'', JString (str role)), (str ''content'', JArray content)]"

definition anthropic_fallback_user_message :: "wire_env \<Rightarrow> provider_request \<Rightarrow> json" where
  "anthropic_fallback_user_message env r =
     anthropic_message_value ''user''
       (text_block (input_text_with_tool_results env (pr_input_text r) (pr_tool_results r))
          # map anthropic_media_block (pr_media_artifacts r))"

definition anthropic_provider_content :: "wire_env \<Rightarrow> source_format \<Rightarrow> json \<Rightarrow> json" where
  "anthropic_provider_content env source_format v =
     (if source_format = AnthropicMessages then v else foreign_content env ''OpenAI'' v)"

definition anthropic_wire_block :: "wire_env \<Rightarrow> provider_request \<Rightarrow> normalized_content_part \<Rightarrow> json option" where
  "anthropic_wire_block env r p =
     (case p of
        TextPart t \<Rightarrow> Some (text_block t)
      | ImagePart i \<Rightarrow> map_option anthropic_media_block (find (\<lambda>m. ma_id m = ar_artifact_id i) (pr_media_artifacts r))
      | ProviderContentPart f v \<Rightarrow> Some (anthropic_provider_content env f v)
      | ToolCallPart call_id name arguments \<Rightarrow>
          Some (json_object
            [(str ''type'', JString (str ''tool_use'')), (str ''id'', JString call_id), (str ''name'', JString name),
             (str ''input'', arguments)])
      | ToolResultPart call_id \<Rightarrow>
          Some (json_object
            [(str ''type'', JString (str ''tool_result'')), (str ''tool_use_id'', JString call_id),
             (str ''content'', tool_result_json call_id r)]))"

definition anthropic_role :: "message_role \<Rightarrow> string" where
  "anthropic_role role = (case role of RoleAssistant \<Rightarrow> ''assistant'' | _ \<Rightarrow> ''user'')"

definition anthropic_normalized_message :: "wire_env \<Rightarrow> provider_request \<Rightarrow> normalized_message \<Rightarrow> json option" where
  "anthropic_normalized_message env r m =
     (let content = filter_map (anthropic_wire_block env r) (nm_content m)
      in if content = [] then None else Some (anthropic_message_value (anthropic_role (nm_role m)) content))"

definition anthropic_wire_messages :: "wire_env \<Rightarrow> provider_request \<Rightarrow> json list" where
  "anthropic_wire_messages env r =
     (if pr_messages r = [] \<or> should_fallback_to_text_tool_results r then [anthropic_fallback_user_message env r]
      else (let messages = filter_map (anthropic_normalized_message env r)
                             (filter (\<lambda>m. nm_role m \<noteq> RoleSystem) (pr_messages r))
            in if messages = [] then [anthropic_fallback_user_message env r] else messages))"

section \<open>The body\<close>

definition anthropic_tool_definition :: "tool_definition \<Rightarrow> json" where
  "anthropic_tool_definition t = json_object
     ([(str ''name'', JString (td_name t))]
      @ (case td_description t of Some d \<Rightarrow> [(str ''description'', JString d)] | None \<Rightarrow> [])
      @ [(str ''input_schema'', td_input_schema t)])"

definition effective_wire_choice :: "bool \<Rightarrow> tool_choice \<Rightarrow> tool_choice" where
  "effective_wire_choice thinking_enabled choice =
     (if thinking_enabled \<and> (case choice of ToolRequired \<Rightarrow> True | ToolNamed _ \<Rightarrow> True | _ \<Rightarrow> False)
      then ToolAuto else choice)"

definition anthropic_choice_value :: "tool_choice \<Rightarrow> json" where
  "anthropic_choice_value choice =
     (case choice of
        ToolAuto \<Rightarrow> json_object [(str ''type'', JString (str ''auto''))]
      | ToolNone \<Rightarrow> json_object [(str ''type'', JString (str ''none''))]
      | ToolRequired \<Rightarrow> json_object [(str ''type'', JString (str ''any''))]
      | ToolNamed name \<Rightarrow> json_object [(str ''type'', JString (str ''tool'')), (str ''name'', JString name)])"

definition anthropic_wire_tool_choice :: "tool_choice \<Rightarrow> bool option \<Rightarrow> bool \<Rightarrow> json option" where
  "anthropic_wire_tool_choice choice parallel thinking_enabled =
     (let effective = effective_wire_choice thinking_enabled choice
      in if effective = ToolAuto \<and> parallel = None then None
         else Some (if parallel = Some False
                    then json_set (str ''disable_parallel_tool_use'') (JBool True) (anthropic_choice_value effective)
                    else anthropic_choice_value effective))"

definition anthropic_core_fields :: "ustr list" where
  "anthropic_core_fields = map str [''model'', ''system'', ''messages'', ''tools'', ''tool_choice'', ''stream'']"

definition is_anthropic_core_field :: "ustr \<Rightarrow> bool" where
  "is_anthropic_core_field key \<longleftrightarrow> key \<in> set anthropic_core_fields"

definition anthropic_thinking_config :: json where
  "anthropic_thinking_config =
     json_object [(str ''type'', JString (str ''enabled'')), (str ''budget_tokens'', json_u64 1024)]"

definition anthropic_tool_fields :: "provider_request \<Rightarrow> json \<Rightarrow> json" where
  "anthropic_tool_fields r body =
     (if pr_tools r = [] then body
      else (let with_tools = json_set (str ''tools'') (JArray (map anthropic_tool_definition (pr_tools r))) body
            in case anthropic_wire_tool_choice (pr_tool_choice r) (pr_parallel_tool_calls r) (pr_thinking_enabled r) of
                 Some choice \<Rightarrow> json_set (str ''tool_choice'') choice with_tools
               | None \<Rightarrow> with_tools))"

definition anthropic_start_body :: "wire_env \<Rightarrow> provider_request \<Rightarrow> json" where
  "anthropic_start_body env r = json_object
     [(str ''model'', JString (pr_model r)),
      (str ''max_tokens'', json_u64 (ucast (al_max_tokens (st_limits (pr_task r))))),
      (str ''system'', JString (base_system_prompt (st_role (pr_task r)) (st_objective (pr_task r)) (pr_system_instructions r))),
      (str ''messages'', JArray (anthropic_wire_messages env r))]"

definition anthropic_request_body :: "wire_env \<Rightarrow> provider_request \<Rightarrow> json" where
  "anthropic_request_body env r =
     (let body = anthropic_start_body env r;
          body = (if pr_thinking_enabled r then json_set (str ''thinking'') anthropic_thinking_config body else body)
      in merge_options is_anthropic_core_field (anthropic_tool_fields r body) (pr_provider_options r))"

definition anthropic_stream_request_body :: "wire_env \<Rightarrow> provider_request \<Rightarrow> json" where
  "anthropic_stream_request_body env r = json_set (str ''stream'') (JBool True) (anthropic_request_body env r)"

section \<open>The response\<close>

definition anthropic_artifact :: "wire_env \<Rightarrow> isolation_key \<Rightarrow> task_id \<Rightarrow> ustr \<Rightarrow> agent_artifact" where
  "anthropic_artifact env scope task content =
     (case Option.bind (parsed env content)
             (\<lambda>v. if str_field ''type'' v = Some (str ''spawn_plan'')
                  then Option.bind (json_get (str ''plan'') v) (we_spawn_plan env) else None) of
        Some p \<Rightarrow> plan_artifact scope task p
      | None \<Rightarrow> text_artifact scope task content)"

definition response_block_artifact :: "wire_env \<Rightarrow> isolation_key \<Rightarrow> task_id \<Rightarrow> json \<Rightarrow> agent_artifact option" where
  "response_block_artifact env scope task block =
     (if str_field ''type'' block = Some (str ''text'')
      then map_option (anthropic_artifact env scope task) (str_field ''text'' block) else None)"

definition response_block_call :: "wire_env \<Rightarrow> isolation_key \<Rightarrow> task_id \<Rightarrow> json \<Rightarrow> tool_call_record option" where
  "response_block_call env scope task block =
     (if str_field ''type'' block = Some (str ''tool_use'')
      then Some (wire_tool_call env scope task (field_or ''id'' (str ''tool-call'') block)
             (field_or ''name'' (str ''unknown'') block)
             (case json_get (str ''input'') block of Some v \<Rightarrow> v | None \<Rightarrow> JNull))
      else None)"

definition anthropic_parse_response :: "wire_env \<Rightarrow> isolation_key \<Rightarrow> task_id \<Rightarrow> json \<Rightarrow> provider_result" where
  "anthropic_parse_response env scope task v =
     (case Option.bind (json_get (str ''content'') v) json_as_array of
        None \<Rightarrow> Inl (Rejected (str ''Anthropic response missing content''))
      | Some content \<Rightarrow>
          Inr \<lparr>ps_artifacts = filter_map (response_block_artifact env scope task) content,
               ps_tool_calls = filter_map (response_block_call env scope task) content,
               ps_usage = (case usage_of env v of Some u \<Rightarrow> u | None \<Rightarrow> provider_usage_default)\<rparr>)"

section \<open>Frames\<close>

definition anthropic_provider_finish_reason :: "ustr \<Rightarrow> provider_finish_reason" where
  "anthropic_provider_finish_reason reason =
     (if reason = str ''end_turn'' \<or> reason = str ''stop_sequence'' then FinishStop
      else if reason = str ''tool_use'' then FinishToolCalls
      else if reason = str ''max_tokens'' then FinishLength
      else FinishOther reason)"

definition anthropic_content_block_start_event :: "json \<Rightarrow> provider_stream_event list" where
  "anthropic_content_block_start_event v =
     (case json_get (str ''content_block'') v of
        None \<Rightarrow> []
      | Some block \<Rightarrow>
          (if str_field ''type'' block \<noteq> Some (str ''tool_use'') then []
           else [ToolCallDelta (stream_index v) (str_field ''id'' block) (str_field ''name'' block) []]))"

definition anthropic_content_block_delta_event :: "json \<Rightarrow> provider_stream_event list" where
  "anthropic_content_block_delta_event v =
     (case json_get (str ''delta'') v of
        None \<Rightarrow> []
      | Some delta \<Rightarrow>
          (let kind = str_field ''type'' delta
           in if kind = Some (str ''text_delta'')
              then (case str_field ''text'' delta of
                      Some t \<Rightarrow> (if t = [] then [] else [TextDelta t]) | None \<Rightarrow> [])
              else if kind = Some (str ''input_json_delta'')
              then [ToolCallDelta (stream_index v) None None (field_or ''partial_json'' [] delta)]
              else []))"

definition anthropic_message_delta_stream_event :: "wire_env \<Rightarrow> json \<Rightarrow> provider_stream_event list" where
  "anthropic_message_delta_stream_event env v =
     (let reason = (case Option.bind (json_get (str ''delta'') v) (str_field ''stop_reason'') of
                      Some r \<Rightarrow> anthropic_provider_finish_reason r | None \<Rightarrow> FinishStop)
      in (case usage_of env v of Some u \<Rightarrow> [Usage u] | None \<Rightarrow> []) @ [Finish reason])"

definition anthropic_stream_events_from_event :: "wire_env \<Rightarrow> ustr option \<Rightarrow> json \<Rightarrow> provider_stream_event list" where
  "anthropic_stream_events_from_event env event v =
     (let event_type = (case str_field ''type'' v of Some t \<Rightarrow> Some t | None \<Rightarrow> event)
      in if event_type = Some (str ''content_block_start'') then anthropic_content_block_start_event v
         else if event_type = Some (str ''content_block_delta'') then anthropic_content_block_delta_event v
         else if event_type = Some (str ''message_delta'') then anthropic_message_delta_stream_event env v
         else [])"

definition frame_event :: "ustr \<Rightarrow> ustr option" where
  "frame_event frame = map_option trim (find_map (strip_prefix (str ''event:'')) (lines frame))"

definition parse_anthropic_sse_frame :: "wire_env \<Rightarrow> ustr \<Rightarrow> stream_item list" where
  "parse_anthropic_sse_frame env frame =
     (let event = frame_event frame; data = frame_data frame
      in if is_blank data \<or> event = Some (str ''ping'') then []
         else case we_json_parse env data of
                Inl e \<Rightarrow> [Inl (Rejected (str ''invalid Anthropic stream event: '' @ e))]
              | Inr v \<Rightarrow>
                  (if event = Some (str ''error'') \<or> str_field ''type'' v = Some (str ''error'')
                   then [Inl (Rejected (we_json_text env v))]
                   else map Inr (anthropic_stream_events_from_event env event v)))"

definition anthropic_sse_provider_stream :: "wire_env \<Rightarrow> (ustr + nat list) list \<Rightarrow> stream_item list" where
  "anthropic_sse_provider_stream env chunks = sse_items (parse_anthropic_sse_frame env) (sse_source_start chunks)"

section \<open>The provider\<close>

record anthropic_provider =
  np_base_url :: ustr
  np_api_key :: ustr
  np_api_version :: ustr

definition anthropic_provider_new :: "ustr \<Rightarrow> ustr \<Rightarrow> ustr \<Rightarrow> anthropic_provider" where
  "anthropic_provider_new base_url api_key api_version =
     \<lparr>np_base_url = rev (dropWhile (\<lambda>c. c = 47) (rev base_url)), np_api_key = api_key, np_api_version = api_version\<rparr>"

definition anthropic_provider_from_env :: "(ustr \<Rightarrow> ustr option) \<Rightarrow> provider_error + anthropic_provider" where
  "anthropic_provider_from_env vars =
     (case vars (str ''ANTHROPIC_API_KEY'') of
        None \<Rightarrow> Inl (Rejected (str ''ANTHROPIC_API_KEY is required''))
      | Some api_key \<Rightarrow>
          Inr (anthropic_provider_new
                 (case vars (str ''ANTHROPIC_BASE_URL'') of Some u \<Rightarrow> u | None \<Rightarrow> str ''https://api.anthropic.com'') api_key
                 (case vars (str ''ANTHROPIC_VERSION'') of Some v \<Rightarrow> v | None \<Rightarrow> str ''2023-06-01'')))"

definition anthropic_json_or_error :: "wire_env \<Rightarrow> http_response \<Rightarrow> provider_error + http_response" where
  "anthropic_json_or_error env resp =
     (if is_success (hr_status resp) then Inr resp
      else
       (let body = (case hr_body resp of Inr t \<Rightarrow> t | Inl e \<Rightarrow> str ''<failed to read error body: '' @ e @ str ''>'');
            error = Option.bind (parsed env body) (json_get (str ''error''));
            code = Option.bind error (str_field ''type'');
            message = (case Option.bind error (str_field ''message'') of Some t \<Rightarrow> t | None \<Rightarrow> body)
        in Inl (Http (str ''anthropic'') (hr_status resp) code message (header_retry_after_ms (hr_headers resp)))))"

definition anthropic_http_request :: "anthropic_provider \<Rightarrow> json \<Rightarrow> http_request" where
  "anthropic_http_request p body =
     \<lparr>hq_url = np_base_url p @ str ''/v1/messages'',
      hq_headers = [(str ''x-api-key'', np_api_key p), (str ''anthropic-version'', np_api_version p)], hq_json = body\<rparr>"

definition anthropic_read_response ::
  "wire_env \<Rightarrow> provider_request \<Rightarrow> http_failure + http_response \<Rightarrow> provider_result" where
  "anthropic_read_response env r answer =
     (case answer of
        Inl e \<Rightarrow> Inl (transport_error ''anthropic'' e)
      | Inr resp \<Rightarrow>
          ebind (anthropic_json_or_error env resp) (\<lambda>resp.
          ebind (json_body ''anthropic'' resp) (\<lambda>v.
            anthropic_parse_response env (pr_scope r) (st_task_id (pr_task r)) v)))"

definition anthropic_invoke :: "wire_env \<Rightarrow> 'w http_client \<Rightarrow> anthropic_provider \<Rightarrow> 'w provider" where
  "anthropic_invoke env send p w r =
     (case send w (anthropic_http_request p (anthropic_request_body env r)) of
        (w', ms, answer) \<Rightarrow> (w', ms, anthropic_read_response env r answer))"

definition anthropic_stream_call ::
  "wire_env \<Rightarrow> 'w http_client \<Rightarrow> anthropic_provider \<Rightarrow> 'w \<Rightarrow> provider_request
     \<Rightarrow> 'w \<times> nat \<times> (provider_error + stream_item list)" where
  "anthropic_stream_call env send p w r =
     (case send w (anthropic_http_request p (anthropic_stream_request_body env r)) of
        (w', ms, Inl e) \<Rightarrow> (w', ms, Inl (transport_error ''anthropic'' e))
      | (w', ms, Inr resp) \<Rightarrow>
          (w', ms, ebind (anthropic_json_or_error env resp)
             (\<lambda>resp. Inr (anthropic_sse_provider_stream env (hr_chunks resp)))))"

end
