(* ===== verification/Anthropic_Facts.thy ===== *)
theory Anthropic_Facts
  imports Anthropic_Wire
begin

text \<open>
  Facts on the Anthropic adapter: the fields of a request body the client cannot replace, the tool
  choice beside thinking, the scope of what a response brings, and what a streamed frame may show.
\<close>

section \<open>The body\<close>

definition body_before_options :: "wire_env \<Rightarrow> provider_request \<Rightarrow> json" where
  "body_before_options env r =
     anthropic_tool_fields r
       (if pr_thinking_enabled r then json_set (str ''thinking'') anthropic_thinking_config (anthropic_start_body env r)
        else anthropic_start_body env r)"

lemma start_body_object: "is_jobject (anthropic_start_body env r)"
  by (simp add: anthropic_start_body_def is_jobject_def json_object_def)

lemma body_before_object: "is_jobject (body_before_options env r)"
  using start_body_object by (simp add: body_before_options_def anthropic_tool_fields_def Let_def split: option.split)

lemma body_before_get:
  assumes "is_anthropic_core_field k"
  shows "json_get k (body_before_options env r) =
    (if k = str ''model'' then Some (JString (pr_model r))
     else if k = str ''system'' then Some (JString (base_system_prompt (st_role (pr_task r)) (st_objective (pr_task r)) (pr_system_instructions r)))
     else if k = str ''messages'' then Some (JArray (anthropic_wire_messages env r))
     else if pr_tools r = [] then None
     else if k = str ''tools'' then Some (JArray (map anthropic_tool_definition (pr_tools r)))
     else if k = str ''tool_choice''
     then anthropic_wire_tool_choice (pr_tool_choice r) (pr_parallel_tool_calls r) (pr_thinking_enabled r)
     else None)"
proof -
  have k: "k \<in> str ` {''model'', ''system'', ''messages'', ''tools'', ''tool_choice'', ''stream''}"
    using assms by (simp add: is_anthropic_core_field_def anthropic_core_fields_def)
  have start: "json_get k (anthropic_start_body env r) =
    (if k = str ''model'' then Some (JString (pr_model r))
     else if k = str ''system'' then Some (JString (base_system_prompt (st_role (pr_task r)) (st_objective (pr_task r)) (pr_system_instructions r)))
     else if k = str ''messages'' then Some (JArray (anthropic_wire_messages env r)) else None)"
    using k by (auto simp: anthropic_start_body_def json_get_object)
  show ?thesis
    using k start start_body_object
    by (auto simp: body_before_options_def anthropic_tool_fields_def Let_def split: option.split)
qed

lemma anthropic_body_core:
  "is_anthropic_core_field k \<Longrightarrow> json_get k (anthropic_request_body env r) = json_get k (body_before_options env r)"
proof -
  assume k: "is_anthropic_core_field k"
  obtain b where b: "body_before_options env r = JObject b" using body_before_object by (auto simp: is_jobject_def)
  have "anthropic_request_body env r = merge_options is_anthropic_core_field (JObject b) (pr_provider_options r)"
    by (simp add: anthropic_request_body_def Let_def body_before_options_def flip: b)
  then show ?thesis using merge_options_core [of is_anthropic_core_field k, OF k] b by simp
qed

lemma anthropic_body_object: "is_jobject (anthropic_request_body env r)"
proof -
  obtain b where b: "body_before_options env r = JObject b" using body_before_object by (auto simp: is_jobject_def)
  have "anthropic_request_body env r = merge_options is_anthropic_core_field (JObject b) (pr_provider_options r)"
    by (simp add: anthropic_request_body_def Let_def body_before_options_def flip: b)
  then show ?thesis using merge_options_object unfolding is_jobject_def by metis
qed

text \<open>With thinking no tool is forced, which the interface would refuse.\<close>

lemma thinking_forces_no_tool:
  assumes "anthropic_wire_tool_choice choice parallel True = Some v"
  shows "json_get (str ''type'') v \<in> {Some (JString (str ''auto'')), Some (JString (str ''none''))}"
proof -
  have o: "is_jobject (anthropic_choice_value c)" for c
    by (auto simp: anthropic_choice_value_def is_jobject_def json_object_def split: tool_choice.split)
  have t: "json_get (str ''type'') (anthropic_choice_value (effective_wire_choice True choice))
      \<in> {Some (JString (str ''auto'')), Some (JString (str ''none''))}"
    by (cases choice) (simp_all add: effective_wire_choice_def anthropic_choice_value_def json_get_object)
  show ?thesis using assms o t by (auto simp: anthropic_wire_tool_choice_def Let_def split: if_splits)
qed

section \<open>Responses\<close>

lemma anthropic_artifact_scope: "artifact_scope_of (anthropic_artifact env scope task content) = scope"
  by (simp add: anthropic_artifact_def plan_artifact_def text_artifact_def split: option.split)

lemma anthropic_response_confined:
  assumes "anthropic_parse_response env scope task v = Inr r"
  shows "(\<forall>a \<in> set (ps_artifacts r). artifact_scope_of a = scope)
    \<and> (\<forall>c \<in> set (ps_tool_calls r). tc_scope c = scope \<and> tc_task_id c = task \<and> tc_status c = Pending)"
  using assms by (auto simp: anthropic_parse_response_def response_block_artifact_def response_block_call_def
      anthropic_artifact_scope wire_tool_call_def set_filter_map split: option.splits if_splits)

text \<open>Only a text delta shows text: what the model thinks and signs never does.\<close>

lemma event_text:
  assumes "TextDelta t \<in> set (anthropic_stream_events_from_event env event v)"
  shows "\<exists>delta. json_get (str ''delta'') v = Some delta \<and> str_field ''type'' delta = Some (str ''text_delta'')
    \<and> str_field ''text'' delta = Some t"
proof -
  have "TextDelta t \<notin> set (anthropic_content_block_start_event v)"
    by (auto simp: anthropic_content_block_start_event_def split: option.split)
  moreover have "TextDelta t \<notin> set (anthropic_message_delta_stream_event env v)"
    by (simp add: anthropic_message_delta_stream_event_def Let_def split: option.split)
  ultimately have d: "TextDelta t \<in> set (anthropic_content_block_delta_event v)"
    using assms by (simp add: anthropic_stream_events_from_event_def Let_def split: if_splits)
  then obtain delta where delta: "json_get (str ''delta'') v = Some delta"
    by (cases "json_get (str ''delta'') v") (simp_all add: anthropic_content_block_delta_event_def)
  with d have "str_field ''type'' delta = Some (str ''text_delta'')"
    by (simp add: anthropic_content_block_delta_event_def Let_def split: if_splits)
  with d delta show ?thesis
    by (cases "str_field ''text'' delta") (simp_all add: anthropic_content_block_delta_event_def split: if_splits)
qed

lemma anthropic_error_answer:
  assumes "\<not> is_success (hr_status resp)"
  shows "\<exists>code message. anthropic_read_response env r (Inr resp)
     = Inl (Http (str ''anthropic'') (hr_status resp) code message (header_retry_after_ms (hr_headers resp)))"
  using assms by (simp add: anthropic_read_response_def anthropic_json_or_error_def Let_def)

end
