(* ===== verification/Api_Durable.thy ===== *)
theory Api_Durable
  imports Miya_Text Miya_Json
begin

text \<open>
  \<^verbatim>\<open>api-server/src/durable.rs\<close>: \<^verbatim>\<open>DurableStore\<close>, which keeps JSON objects and blobs for a namespace, a
  tenant and an identifier, in two maps in memory or in files under a root directory. The calls of
  \<^verbatim>\<open>tokio::fs\<close> are modelled over a tree of directories and files, as the operating system documents
  them: each takes the next entry of a list of faults, and a fault is the text of an error with the
  number of bytes a failing write has written. A failing call leaves the tree as it was otherwise.
  Printing and parsing JSON, SHA-256 in hexadecimal, random identifiers and the order in which a
  directory lists its entries are the fields of \<open>durable_env\<close>. A poisoned lock is not modelled; the
  write lock makes each write of a store one step.
\<close>

section \<open>Files\<close>

type_synonym path = "ustr list"

datatype fs_node = FsDir | FsFile "nat list"

datatype io_error = IoNotFound | IoOther ustr

record file_system =
  fs_nodes :: "(path, fs_node) btree"
  fs_faults :: "(ustr \<times> nat) option list"
  fs_uuids :: nat

type_synonym 'a io = "file_system \<Rightarrow> (io_error + 'a) \<times> file_system"
type_synonym 'a text_io = "file_system \<Rightarrow> (ustr + 'a) \<times> file_system"

definition io_error_text :: "io_error \<Rightarrow> ustr" where
  "io_error_text e =
     (case e of IoNotFound \<Rightarrow> str ''No such file or directory (os error 2)'' | IoOther m \<Rightarrow> m)"

definition node_at :: "file_system \<Rightarrow> path \<Rightarrow> fs_node option" where
  "node_at fs p = (if p = [] then Some FsDir else bt_get (fs_nodes fs) p)"

definition set_node :: "path \<Rightarrow> fs_node \<Rightarrow> file_system \<Rightarrow> file_system" where
  "set_node p n fs = fs\<lparr>fs_nodes := bt_insert p n (fs_nodes fs)\<rparr>"

definition drop_node :: "path \<Rightarrow> file_system \<Rightarrow> file_system" where
  "drop_node p fs = fs\<lparr>fs_nodes := bt_remove p (fs_nodes fs)\<rparr>"

definition next_fault :: "file_system \<Rightarrow> (ustr \<times> nat) option \<times> file_system" where
  "next_fault fs =
     (case fs_faults fs of [] \<Rightarrow> (None, fs) | f # rest \<Rightarrow> (f, fs\<lparr>fs_faults := rest\<rparr>))"

definition fs_call :: "'a io \<Rightarrow> 'a io" where
  "fs_call act fs =
     (case next_fault fs of
        (None, fs') \<Rightarrow> act fs'
      | (Some f, fs') \<Rightarrow> (Inl (IoOther (fst f)), fs'))"

definition path_prefixes :: "path \<Rightarrow> path list" where
  "path_prefixes p = map (\<lambda>n. take n p) [1..<Suc (length p)]"

fun is_file :: "fs_node option \<Rightarrow> bool" where
  "is_file (Some (FsFile _)) = True"
| "is_file _ = False"

definition create_dir_all :: "path \<Rightarrow> unit io" where
  "create_dir_all p = fs_call (\<lambda>fs.
     if \<exists>q \<in> set (path_prefixes p). is_file (node_at fs q)
     then (Inl (IoOther (str ''Not a directory (os error 20)'')), fs)
     else (Inr (), fold (\<lambda>q. set_node q FsDir) (path_prefixes p) fs))"

definition create_file :: "path \<Rightarrow> unit io" where
  "create_file p = fs_call (\<lambda>fs.
     if node_at fs p = Some FsDir then (Inl (IoOther (str ''Is a directory (os error 21)'')), fs)
     else if node_at fs (butlast p) \<noteq> Some FsDir then (Inl IoNotFound, fs)
     else (Inr (), set_node p (FsFile []) fs))"

definition write_all :: "path \<Rightarrow> nat list \<Rightarrow> unit io" where
  "write_all p bytes fs =
     (case next_fault fs of
        (None, fs') \<Rightarrow> (Inr (), set_node p (FsFile bytes) fs')
      | (Some f, fs') \<Rightarrow> (Inl (IoOther (fst f)), set_node p (FsFile (take (snd f) bytes)) fs'))"

definition sync_all :: "unit io" where
  "sync_all = fs_call (\<lambda>fs. (Inr (), fs))"

definition rename_file :: "path \<Rightarrow> path \<Rightarrow> unit io" where
  "rename_file p q = fs_call (\<lambda>fs.
     case node_at fs p of
       None \<Rightarrow> (Inl IoNotFound, fs)
     | Some n \<Rightarrow>
         if node_at fs q = Some FsDir then (Inl (IoOther (str ''Is a directory (os error 21)'')), fs)
         else if node_at fs (butlast q) \<noteq> Some FsDir then (Inl IoNotFound, fs)
         else (Inr (), set_node q n (drop_node p fs)))"

definition remove_file :: "path \<Rightarrow> unit io" where
  "remove_file p = fs_call (\<lambda>fs.
     case node_at fs p of
       None \<Rightarrow> (Inl IoNotFound, fs)
     | Some FsDir \<Rightarrow> (Inl (IoOther (str ''Is a directory (os error 21)'')), fs)
     | Some (FsFile _) \<Rightarrow> (Inr (), drop_node p fs))"

definition read_file :: "path \<Rightarrow> nat list io" where
  "read_file p = fs_call (\<lambda>fs.
     case node_at fs p of
       None \<Rightarrow> (Inl IoNotFound, fs)
     | Some FsDir \<Rightarrow> (Inl (IoOther (str ''Is a directory (os error 21)'')), fs)
     | Some (FsFile bytes) \<Rightarrow> (Inr bytes, fs))"

definition child_paths :: "file_system \<Rightarrow> path \<Rightarrow> path list" where
  "child_paths fs p = filter (\<lambda>q. q \<noteq> [] \<and> butlast q = p) (map fst (fs_nodes fs))"

definition read_dir :: "(path list \<Rightarrow> path list) \<Rightarrow> path \<Rightarrow> path list io" where
  "read_dir order p = fs_call (\<lambda>fs.
     case node_at fs p of
       None \<Rightarrow> (Inl IoNotFound, fs)
     | Some (FsFile _) \<Rightarrow> (Inl (IoOther (str ''Not a directory (os error 20)'')), fs)
     | Some FsDir \<Rightarrow> (Inr (order (child_paths fs p)), fs))"

text \<open>\<^verbatim>\<open>map_err(|error| error.to_string())?\<close> after a call.\<close>

definition text_bind :: "'a io \<Rightarrow> ('a \<Rightarrow> 'b text_io) \<Rightarrow> 'b text_io" where
  "text_bind m f fs =
     (case m fs of (Inl e, fs') \<Rightarrow> (Inl (io_error_text e), fs') | (Inr x, fs') \<Rightarrow> f x fs')"

section \<open>The store\<close>

record durable_env =
  du_sha256_hex :: "nat list \<Rightarrow> ustr"
  du_uuid :: "nat \<Rightarrow> ustr"
  du_to_vec :: "json \<Rightarrow> ustr + nat list"
  du_from_slice :: "nat list \<Rightarrow> ustr + json"
  du_entry_order :: "path list \<Rightarrow> path list"

datatype durable_store =
    MemoryStore "(ustr, json) btree" "(ustr, nat list) btree"
  | FilesystemStore path file_system

definition durable_memory :: durable_store where
  "durable_memory = MemoryStore [] []"

definition durable_filesystem :: "(path \<Rightarrow> ustr) \<Rightarrow> path \<Rightarrow> file_system \<Rightarrow> (ustr + durable_store) \<times> file_system" where
  "durable_filesystem display root fs =
     (case create_dir_all (root @ [str ''objects'']) fs of
        (Inl e, fs') \<Rightarrow>
          (Inl (str ''failed to create durable object directory '' @ display root @ str '': '' @ io_error_text e), fs')
      | (Inr _, fs') \<Rightarrow>
          (case create_dir_all (root @ [str ''blobs'']) fs' of
             (Inl e, fs'') \<Rightarrow>
               (Inl (str ''failed to create durable blob directory '' @ display root @ str '': '' @ io_error_text e), fs'')
           | (Inr _, fs'') \<Rightarrow> (Inr (FilesystemStore root fs''), fs'')))"

definition is_component_char :: "nat \<Rightarrow> bool" where
  "is_component_char c \<longleftrightarrow> is_ascii_alphanumeric c \<or> c = 45 \<or> c = 95"

definition component_ok :: "ustr \<Rightarrow> bool" where
  "component_ok v \<longleftrightarrow> v \<noteq> [] \<and> utf8_len v \<le> 160 \<and> list_all is_component_char v"

definition validate_durable :: "ustr \<Rightarrow> ustr \<Rightarrow> ustr + unit" where
  "validate_durable name v =
     (if component_ok v then Inr () else Inl (str ''invalid durable '' @ name))"

definition validate_key :: "ustr \<Rightarrow> ustr \<Rightarrow> ustr + unit" where
  "validate_key namespace i =
     ebind (validate_durable (str ''namespace'') namespace) (\<lambda>_. validate_durable (str ''id'') i)"

definition tenant_hash :: "durable_env \<Rightarrow> ustr \<Rightarrow> ustr" where
  "tenant_hash env tenant = du_sha256_hex env (utf8_bytes tenant)"

definition hashed_key :: "ustr \<Rightarrow> ustr \<Rightarrow> ustr \<Rightarrow> ustr" where
  "hashed_key namespace hash i = namespace @ str '':'' @ hash @ str '':'' @ i"

definition memory_key :: "durable_env \<Rightarrow> ustr \<Rightarrow> ustr \<Rightarrow> ustr \<Rightarrow> ustr" where
  "memory_key env namespace tenant i = hashed_key namespace (tenant_hash env tenant) i"

definition object_directory :: "durable_env \<Rightarrow> path \<Rightarrow> ustr \<Rightarrow> ustr \<Rightarrow> path" where
  "object_directory env root namespace tenant = root @ [str ''objects'', namespace, tenant_hash env tenant]"

definition object_path :: "durable_env \<Rightarrow> path \<Rightarrow> ustr \<Rightarrow> ustr \<Rightarrow> ustr \<Rightarrow> path" where
  "object_path env root namespace tenant i = object_directory env root namespace tenant @ [i @ str ''.json'']"

definition blob_path :: "durable_env \<Rightarrow> path \<Rightarrow> ustr \<Rightarrow> ustr \<Rightarrow> ustr \<Rightarrow> path" where
  "blob_path env root namespace tenant i = root @ [str ''blobs'', namespace, tenant_hash env tenant, i]"

text \<open>\<^verbatim>\<open>Path::extension\<close> of the last component.\<close>

definition path_extension :: "path \<Rightarrow> ustr option" where
  "path_extension p =
     (if p = [] then None
      else case rsplit_once (str ''.'') (last p) of
             Some (a, b) \<Rightarrow> (if a = [] then None else Some b)
           | None \<Rightarrow> None)"

definition temporary_path :: "durable_env \<Rightarrow> nat \<Rightarrow> path \<Rightarrow> path" where
  "temporary_path env n p = butlast p @ [str ''.'' @ last p @ str ''.'' @ du_uuid env n @ str ''.tmp'']"

definition write_atomic :: "durable_env \<Rightarrow> path \<Rightarrow> nat list \<Rightarrow> unit text_io" where
  "write_atomic env p bytes fs =
     (if p = [] then (Inl (str ''durable path has no parent''), fs)
      else
        text_bind (create_dir_all (butlast p)) (\<lambda>_ fs.
          let temporary = temporary_path env (fs_uuids fs) p
          in text_bind (create_file temporary) (\<lambda>_.
             text_bind (write_all temporary bytes) (\<lambda>_.
             text_bind sync_all (\<lambda>_ fs.
               case rename_file temporary p fs of
                 (Inr _, fs') \<Rightarrow> (Inr (), fs')
               | (Inl e, fs') \<Rightarrow>
                   (case remove_file p fs' of
                      (_, fs'') \<Rightarrow>
                        (case rename_file temporary p fs'' of
                           (Inr _, fs''') \<Rightarrow> (Inr (), fs''')
                         | (Inl _, fs''') \<Rightarrow> (Inl (io_error_text e), fs''')))))) (fs\<lparr>fs_uuids := Suc (fs_uuids fs)\<rparr>)) fs)"

definition keep_root :: "path \<Rightarrow> (ustr + 'a) \<times> file_system \<Rightarrow> (ustr + 'a) \<times> durable_store" where
  "keep_root root r = (fst r, FilesystemStore root (snd r))"

definition durable_put_json ::
  "durable_env \<Rightarrow> ('v \<Rightarrow> ustr + json) \<Rightarrow> ustr \<Rightarrow> ustr \<Rightarrow> ustr \<Rightarrow> 'v \<Rightarrow> durable_store \<Rightarrow> (ustr + unit) \<times> durable_store" where
  "durable_put_json env to_value namespace tenant i v st =
     (case ebind (validate_key namespace i) (\<lambda>_. to_value v) of
        Inl e \<Rightarrow> (Inl e, st)
      | Inr j \<Rightarrow>
          (case st of
             MemoryStore objects blobs \<Rightarrow>
               (Inr (), MemoryStore (bt_insert (memory_key env namespace tenant i) j objects) blobs)
           | FilesystemStore root fs \<Rightarrow>
               (case du_to_vec env j of
                  Inl e \<Rightarrow> (Inl e, st)
                | Inr bytes \<Rightarrow> keep_root root (write_atomic env (object_path env root namespace tenant i) bytes fs))))"

text \<open>Reading a file, where a missing one is no error.\<close>

definition read_present :: "path \<Rightarrow> nat list option text_io" where
  "read_present p fs =
     (case read_file p fs of
        (Inr bytes, fs') \<Rightarrow> (Inr (Some bytes), fs')
      | (Inl IoNotFound, fs') \<Rightarrow> (Inr None, fs')
      | (Inl e, fs') \<Rightarrow> (Inl (io_error_text e), fs'))"

definition remove_present :: "path \<Rightarrow> bool text_io" where
  "remove_present p fs =
     (case remove_file p fs of
        (Inr _, fs') \<Rightarrow> (Inr True, fs')
      | (Inl IoNotFound, fs') \<Rightarrow> (Inr False, fs')
      | (Inl e, fs') \<Rightarrow> (Inl (io_error_text e), fs'))"

definition get_value :: "durable_env \<Rightarrow> ustr \<Rightarrow> ustr \<Rightarrow> ustr \<Rightarrow> durable_store \<Rightarrow> (ustr + json option) \<times> durable_store" where
  "get_value env namespace tenant i st =
     (case st of
        MemoryStore objects _ \<Rightarrow> (Inr (bt_get objects (memory_key env namespace tenant i)), st)
      | FilesystemStore root fs \<Rightarrow>
          keep_root root
            (case read_present (object_path env root namespace tenant i) fs of
               (Inl e, fs') \<Rightarrow> (Inl e, fs')
             | (Inr None, fs') \<Rightarrow> (Inr None, fs')
             | (Inr (Some bytes), fs') \<Rightarrow> (ebind (du_from_slice env bytes) (\<lambda>v. Inr (Some v)), fs')))"

definition durable_get_json ::
  "durable_env \<Rightarrow> (json \<Rightarrow> ustr + 'v) \<Rightarrow> ustr \<Rightarrow> ustr \<Rightarrow> ustr \<Rightarrow> durable_store \<Rightarrow> (ustr + 'v option) \<times> durable_store" where
  "durable_get_json env from_value namespace tenant i st =
     (case validate_key namespace i of
        Inl e \<Rightarrow> (Inl e, st)
      | Inr _ \<Rightarrow>
          (case get_value env namespace tenant i st of
             (r, st') \<Rightarrow>
               (ebind r (\<lambda>v. case v of None \<Rightarrow> Inr None | Some j \<Rightarrow> ebind (from_value j) (\<lambda>x. Inr (Some x))), st')))"

text \<open>\<^verbatim>\<open>next_entry\<close> and \<^verbatim>\<open>file_type().is_dir()\<close>.\<close>

definition next_entry :: "unit io" where
  "next_entry = fs_call (\<lambda>fs. (Inr (), fs))"

definition entry_is_dir :: "path \<Rightarrow> bool io" where
  "entry_is_dir p = fs_call (\<lambda>fs.
     case node_at fs p of None \<Rightarrow> (Inl IoNotFound, fs) | Some n \<Rightarrow> (Inr (n = FsDir), fs))"

fun read_entries :: "durable_env \<Rightarrow> path list \<Rightarrow> json list text_io" where
  "read_entries env [] = text_bind next_entry (\<lambda>_ fs. (Inr [], fs))"
| "read_entries env (p # ps) =
     text_bind next_entry (\<lambda>_.
       if path_extension p \<noteq> Some (str ''json'') then read_entries env ps
       else text_bind (read_file p) (\<lambda>bytes fs.
              case du_from_slice env bytes of
                Inl e \<Rightarrow> (Inl e, fs)
              | Inr v \<Rightarrow>
                  (case read_entries env ps fs of
                     (Inl e, fs') \<Rightarrow> (Inl e, fs')
                   | (Inr vs, fs') \<Rightarrow> (Inr (v # vs), fs'))))"

definition read_object_directory :: "durable_env \<Rightarrow> path \<Rightarrow> json list text_io" where
  "read_object_directory env directory fs =
     (case read_dir (du_entry_order env) directory fs of
        (Inr ps, fs') \<Rightarrow> read_entries env ps fs'
      | (Inl IoNotFound, fs') \<Rightarrow> (Inr [], fs')
      | (Inl e, fs') \<Rightarrow> (Inl (io_error_text e), fs'))"

fun read_tenant_entries :: "durable_env \<Rightarrow> path list \<Rightarrow> json list text_io" where
  "read_tenant_entries env [] = text_bind next_entry (\<lambda>_ fs. (Inr [], fs))"
| "read_tenant_entries env (d # ds) =
     text_bind next_entry (\<lambda>_.
     text_bind (entry_is_dir d) (\<lambda>dir.
       if \<not> dir then read_tenant_entries env ds
       else text_bind (read_dir (du_entry_order env) d) (\<lambda>ps fs.
              case read_entries env ps fs of
                (Inl e, fs') \<Rightarrow> (Inl e, fs')
              | (Inr vs, fs') \<Rightarrow>
                  (case read_tenant_entries env ds fs' of
                     (Inl e, fs'') \<Rightarrow> (Inl e, fs'')
                   | (Inr ws, fs'') \<Rightarrow> (Inr (vs @ ws), fs'')))))"

definition read_namespace_directory :: "durable_env \<Rightarrow> path \<Rightarrow> json list text_io" where
  "read_namespace_directory env directory fs =
     (case read_dir (du_entry_order env) directory fs of
        (Inr ds, fs') \<Rightarrow> read_tenant_entries env ds fs'
      | (Inl IoNotFound, fs') \<Rightarrow> (Inr [], fs')
      | (Inl e, fs') \<Rightarrow> (Inl (io_error_text e), fs'))"

definition decode_answers :: "(json \<Rightarrow> ustr + 'v) \<Rightarrow> (ustr + json list) \<times> durable_store \<Rightarrow> (ustr + 'v list) \<times> durable_store" where
  "decode_answers from_value r = (ebind (fst r) (\<lambda>vs. collect_answers (map from_value vs)), snd r)"

definition durable_list_json ::
  "durable_env \<Rightarrow> (json \<Rightarrow> ustr + 'v) \<Rightarrow> ustr \<Rightarrow> ustr \<Rightarrow> durable_store \<Rightarrow> (ustr + 'v list) \<times> durable_store" where
  "durable_list_json env from_value namespace tenant st =
     (case validate_durable (str ''namespace'') namespace of
        Inl e \<Rightarrow> (Inl e, st)
      | Inr _ \<Rightarrow>
          decode_answers from_value
            (case st of
               MemoryStore objects _ \<Rightarrow>
                 (Inr (map snd (filter (\<lambda>e. starts_with (fst e) (hashed_key namespace (tenant_hash env tenant) [])) objects)), st)
             | FilesystemStore root fs \<Rightarrow>
                 keep_root root (read_object_directory env (object_directory env root namespace tenant) fs)))"

definition durable_list_all_json ::
  "durable_env \<Rightarrow> (json \<Rightarrow> ustr + 'v) \<Rightarrow> ustr \<Rightarrow> durable_store \<Rightarrow> (ustr + 'v list) \<times> durable_store" where
  "durable_list_all_json env from_value namespace st =
     (case validate_durable (str ''namespace'') namespace of
        Inl e \<Rightarrow> (Inl e, st)
      | Inr _ \<Rightarrow>
          decode_answers from_value
            (case st of
               MemoryStore objects _ \<Rightarrow>
                 (Inr (map snd (filter (\<lambda>e. starts_with (fst e) (namespace @ str '':'')) objects)), st)
             | FilesystemStore root fs \<Rightarrow>
                 keep_root root (read_namespace_directory env (root @ [str ''objects'', namespace]) fs)))"

definition durable_delete_json ::
  "durable_env \<Rightarrow> ustr \<Rightarrow> ustr \<Rightarrow> ustr \<Rightarrow> durable_store \<Rightarrow> (ustr + bool) \<times> durable_store" where
  "durable_delete_json env namespace tenant i st =
     (case validate_key namespace i of
        Inl e \<Rightarrow> (Inl e, st)
      | Inr _ \<Rightarrow>
          (case st of
             MemoryStore objects blobs \<Rightarrow>
               (let key = memory_key env namespace tenant i
                in (Inr (bt_contains objects key), MemoryStore (bt_remove key objects) blobs))
           | FilesystemStore root fs \<Rightarrow>
               keep_root root (remove_present (object_path env root namespace tenant i) fs)))"

definition durable_put_blob ::
  "durable_env \<Rightarrow> ustr \<Rightarrow> ustr \<Rightarrow> ustr \<Rightarrow> nat list \<Rightarrow> durable_store \<Rightarrow> (ustr + unit) \<times> durable_store" where
  "durable_put_blob env namespace tenant i bytes st =
     (case validate_key namespace i of
        Inl e \<Rightarrow> (Inl e, st)
      | Inr _ \<Rightarrow>
          (case st of
             MemoryStore objects blobs \<Rightarrow>
               (Inr (), MemoryStore objects (bt_insert (memory_key env namespace tenant i) bytes blobs))
           | FilesystemStore root fs \<Rightarrow>
               keep_root root (write_atomic env (blob_path env root namespace tenant i) bytes fs)))"

definition durable_get_blob ::
  "durable_env \<Rightarrow> ustr \<Rightarrow> ustr \<Rightarrow> ustr \<Rightarrow> durable_store \<Rightarrow> (ustr + nat list option) \<times> durable_store" where
  "durable_get_blob env namespace tenant i st =
     (case validate_key namespace i of
        Inl e \<Rightarrow> (Inl e, st)
      | Inr _ \<Rightarrow>
          (case st of
             MemoryStore _ blobs \<Rightarrow> (Inr (bt_get blobs (memory_key env namespace tenant i)), st)
           | FilesystemStore root fs \<Rightarrow>
               keep_root root (read_present (blob_path env root namespace tenant i) fs)))"

definition durable_delete_blob ::
  "durable_env \<Rightarrow> ustr \<Rightarrow> ustr \<Rightarrow> ustr \<Rightarrow> durable_store \<Rightarrow> (ustr + bool) \<times> durable_store" where
  "durable_delete_blob env namespace tenant i st =
     (case validate_key namespace i of
        Inl e \<Rightarrow> (Inl e, st)
      | Inr _ \<Rightarrow>
          (case st of
             MemoryStore objects blobs \<Rightarrow>
               (let key = memory_key env namespace tenant i
                in (Inr (bt_contains blobs key), MemoryStore objects (bt_remove key blobs)))
           | FilesystemStore root fs \<Rightarrow>
               keep_root root (remove_present (blob_path env root namespace tenant i) fs)))"

section \<open>Keys\<close>

lemma component_chars: "component_ok v \<Longrightarrow> c \<in> set v \<Longrightarrow> c \<noteq> 58 \<and> c \<noteq> 46 \<and> c \<noteq> 47"
  by (auto simp: component_ok_def list_all_iff is_component_char_def is_ascii_alphanumeric_def
      is_ascii_alphabetic_def is_ascii_uppercase_def is_ascii_lowercase_def is_ascii_digit_def)

text \<open>A namespace, the hash of a tenant and an identifier.\<close>

type_synonym cell = "ustr \<times> ustr \<times> ustr"

definition hash_ok :: "ustr \<Rightarrow> bool" where
  "hash_ok h \<longleftrightarrow> list_all is_ascii_alphanumeric h"

definition cell_ok :: "cell \<Rightarrow> bool" where
  "cell_ok c \<longleftrightarrow> (case c of (n, h, i) \<Rightarrow> component_ok n \<and> hash_ok h \<and> component_ok i)"

lemma hash_chars: "hash_ok h \<Longrightarrow> c \<in> set h \<Longrightarrow> c \<noteq> 58 \<and> c \<noteq> 46"
  by (auto simp: hash_ok_def list_all_iff is_ascii_alphanumeric_def
      is_ascii_alphabetic_def is_ascii_uppercase_def is_ascii_lowercase_def is_ascii_digit_def)

lemma split_at_char:
  assumes "a @ c # b = a' @ c # b'" and "c \<notin> set a" and "c \<notin> set a'"
  shows "a = a' \<and> b = b'"
  using assms by (induction a arbitrary: a') (auto simp: Cons_eq_append_conv)

lemma hashed_key_inject:
  assumes "component_ok n" and "component_ok n'" and "hash_ok h" and "hash_ok h'"
  shows "hashed_key n h i = hashed_key n' h' i' \<longleftrightarrow> n = n' \<and> h = h' \<and> i = i'"
proof
  assume "hashed_key n h i = hashed_key n' h' i'"
  then have e: "n @ 58 # h @ 58 # i = n' @ 58 # h' @ 58 # i'"
    by (simp add: hashed_key_def str_def)
  with split_at_char [OF e] assms(1,2) have "n = n'" and "h @ 58 # i = h' @ 58 # i'"
    by (auto dest: component_chars)
  with split_at_char [OF this(2)] assms(3,4) show "n = n' \<and> h = h' \<and> i = i'"
    by (auto dest: hash_chars)
qed simp

lemma hashed_key_prefix:
  assumes "component_ok n" and "component_ok n'" and "hash_ok h" and "hash_ok h'"
  shows "starts_with (hashed_key n h i) (hashed_key n' h' []) \<longleftrightarrow> n = n' \<and> h = h'"
proof
  assume "starts_with (hashed_key n h i) (hashed_key n' h' [])"
  then obtain r where "hashed_key n h i = hashed_key n' h' [] @ r"
    unfolding starts_with_iff by blast
  then have "hashed_key n h i = hashed_key n' h' r" by (simp add: hashed_key_def)
  with hashed_key_inject [OF assms] show "n = n' \<and> h = h'" by blast
qed (auto simp: starts_with_iff hashed_key_def)

lemma namespace_prefix:
  assumes "component_ok n" and "component_ok n'"
  shows "starts_with (hashed_key n h i) (n' @ str '':'') \<longleftrightarrow> n = n'"
proof
  assume "starts_with (hashed_key n h i) (n' @ str '':'')"
  then obtain r where "hashed_key n h i = n' @ str '':'' @ r"
    unfolding starts_with_iff by auto
  then have e: "n @ 58 # h @ 58 # i = n' @ 58 # r"
    by (simp add: hashed_key_def str_def)
  from split_at_char [OF this] assms show "n = n'"
    by (auto dest: component_chars)
qed (auto simp: starts_with_iff hashed_key_def)

lemma str_single: "str '':'' = [58]" "str ''.'' = [46]"
  by (simp_all add: str_def)

lemma extension_json: "component_ok i \<Longrightarrow> path_extension (p @ [i @ str ''.json'']) = Some (str ''json'')"
proof -
  assume i: "component_ok i"
  have "rsplit_once [46] (i @ [46] @ str ''json'') = Some (i, str ''json'')"
    by (intro rsplit_once_last) (simp_all add: str_def contains_str_def starts_with_def)
  moreover have "i \<noteq> []" using i by (simp add: component_ok_def)
  ultimately show ?thesis by (simp add: path_extension_def str_def)
qed

lemma extension_temporary: "path_extension (temporary_path env n p) = Some (str ''tmp'')"
proof -
  have "rsplit_once [46] ((46 # last p @ 46 # du_uuid env n) @ [46] @ str ''tmp'')
      = Some (46 # last p @ 46 # du_uuid env n, str ''tmp'')"
    by (intro rsplit_once_last) (simp_all add: str_def contains_str_def starts_with_def)
  then show ?thesis by (simp add: path_extension_def temporary_path_def str_def)
qed

end
