(* ===== verification/Api_Durable_Facts.thy ===== *)
theory Api_Durable_Facts
  imports Api_Durable "HOL-Library.Multiset"
begin

text \<open>
  The files of the durable store: what a write, a removal and the listing of a directory do when no
  call of the operating system fails, the invariant of the directory, and what a write that does fail
  leaves behind.
\<close>

section \<open>Files without faults\<close>

lemma fs_call_quiet: "fs_faults fs = [] \<Longrightarrow> fs_call act fs = act fs"
  by (simp add: fs_call_def next_fault_def)

lemma write_all_quiet: "fs_faults fs = [] \<Longrightarrow> write_all p bs fs = (Inr (), set_node p (FsFile bs) fs)"
  by (simp add: write_all_def next_fault_def)

lemma node_at_set: "p \<noteq> [] \<Longrightarrow> node_at (set_node p n fs) q = (if q = p then Some n else node_at fs q)"
  by (simp add: node_at_def set_node_def bt_get_insert)

lemma node_at_drop: "p \<noteq> [] \<Longrightarrow> node_at (drop_node p fs) q = (if q = p then None else node_at fs q)"
  by (simp add: node_at_def drop_node_def bt_get_remove)

lemma node_at_uuids [simp]: "node_at (fs\<lparr>fs_uuids := n\<rparr>) q = node_at fs q"
  by (simp add: node_at_def)

lemma faults_set [simp]: "fs_faults (set_node p n fs) = fs_faults fs" "fs_faults (drop_node p fs) = fs_faults fs"
  by (simp_all add: set_node_def drop_node_def)

lemma uuids_set [simp]: "fs_uuids (set_node p n fs) = fs_uuids fs" "fs_uuids (drop_node p fs) = fs_uuids fs"
  by (simp_all add: set_node_def drop_node_def)

lemma uuids_fold_set [simp]: "fs_uuids (fold (\<lambda>q. set_node q n) qs fs) = fs_uuids fs"
  by (induction qs arbitrary: fs) simp_all

lemma faults_fold_set [simp]: "fs_faults (fold (\<lambda>q. set_node q n) qs fs) = fs_faults fs"
  by (induction qs arbitrary: fs) simp_all

lemma node_at_fold_set:
  "[] \<notin> set qs \<Longrightarrow> node_at (fold (\<lambda>q. set_node q n) qs fs) q = (if q \<in> set qs then Some n else node_at fs q)"
  by (induction qs arbitrary: fs) (auto simp: node_at_set)

definition nodes_ok :: "file_system \<Rightarrow> bool" where
  "nodes_ok fs \<longleftrightarrow> fs_faults fs = [] \<and> bt_wf (fs_nodes fs) \<and> (\<forall>e \<in> set (fs_nodes fs). fst e \<noteq> [])"

lemma nodes_ok_set: "nodes_ok fs \<Longrightarrow> p \<noteq> [] \<Longrightarrow> nodes_ok (set_node p n fs)"
  using set_bt_insert_subset [of p n "fs_nodes fs"] by (fastforce simp: nodes_ok_def set_node_def)

lemma nodes_ok_drop: "nodes_ok fs \<Longrightarrow> nodes_ok (drop_node p fs)"
  by (auto simp: nodes_ok_def drop_node_def bt_remove_def [of p] bt_wf_remove [unfolded bt_remove_def])

lemma nodes_ok_fold_set: "[] \<notin> set qs \<Longrightarrow> nodes_ok fs \<Longrightarrow> nodes_ok (fold (\<lambda>q. set_node q n) qs fs)"
  by (induction qs arbitrary: fs) (auto simp: nodes_ok_set)

lemma nodes_ok_uuids [simp]: "nodes_ok (fs\<lparr>fs_uuids := n\<rparr>) = nodes_ok fs"
  by (simp add: nodes_ok_def)

lemma prefixes_nonempty: "[] \<notin> set (path_prefixes p)"
  by (auto simp: path_prefixes_def)

lemma prefixes_length: "q \<in> set (path_prefixes p) \<Longrightarrow> length q \<le> length p"
  by (auto simp: path_prefixes_def)

lemma path_prefixes_snoc: "path_prefixes (p @ [x]) = path_prefixes p @ [p @ [x]]"
  by (auto simp: path_prefixes_def)

lemma prefixes_snoc: "set (path_prefixes (p @ [x])) = insert (p @ [x]) (set (path_prefixes p))"
  by (simp add: path_prefixes_snoc)

lemma prefixes_self: "p \<noteq> [] \<Longrightarrow> p \<in> set (path_prefixes p)"
  by (cases p rule: rev_cases) (simp_all add: prefixes_snoc)

lemma temporary_shape:
  "length (temporary_path env n p) = Suc (length p - 1)" "butlast (temporary_path env n p) = butlast p"
  "temporary_path env n p \<noteq> []"
  by (simp_all add: temporary_path_def)

lemma temporary_differs: "temporary_path env n p \<noteq> p"
proof
  assume a: "temporary_path env n p = p"
  then have "p \<noteq> []" using temporary_shape(3) by metis
  have "length (last (temporary_path env n p)) = length (last p)" using a by simp
  then show False
    by (simp add: temporary_path_def str_def)
qed

text \<open>What a write does when nothing fails.\<close>

lemma write_atomic_quiet:
  assumes ok: "nodes_ok fs" and p: "p \<noteq> []"
    and dirs: "\<forall>q \<in> set (path_prefixes (butlast p)). \<not> is_file (node_at fs q)"
    and target: "node_at fs p \<noteq> Some FsDir" and tmp: "node_at fs (temporary_path env (fs_uuids fs) p) \<noteq> Some FsDir"
  obtains fs' where "write_atomic env p bs fs = (Inr (), fs')" and "nodes_ok fs'"
    and "\<And>q. node_at fs' q = (if q = p then Some (FsFile bs) else if q = temporary_path env (fs_uuids fs) p then None
           else if q \<in> set (path_prefixes (butlast p)) then Some FsDir else node_at fs q)"
proof -
  let ?t = "temporary_path env (fs_uuids fs) p"
  let ?d = "fold (\<lambda>q. set_node q FsDir) (path_prefixes (butlast p)) fs"
  let ?u = "?d\<lparr>fs_uuids := Suc (fs_uuids fs)\<rparr>"
  let ?c = "set_node ?t (FsFile bs) (set_node ?t (FsFile []) ?u)"
  let ?r = "set_node p (FsFile bs) (drop_node ?t ?c)"
  have quiet: "fs_faults fs = []" using ok by (simp add: nodes_ok_def)
  have nd: "node_at ?d q = (if q \<in> set (path_prefixes (butlast p)) then Some FsDir else node_at fs q)" for q
    by (rule node_at_fold_set [OF prefixes_nonempty])
  have far: "q \<in> set (path_prefixes (butlast p)) \<Longrightarrow> length q < length p" for q
    using prefixes_length [of q "butlast p"] p by (cases p rule: rev_cases) auto
  have tp: "?t \<notin> set (path_prefixes (butlast p))" "p \<notin> set (path_prefixes (butlast p))"
    using far [of ?t] far [of p] p by (auto simp: temporary_shape)
  have tne: "?t \<noteq> []" by (rule temporary_shape)
  have parent: "node_at ?d (butlast p) = Some FsDir"
  proof (cases "butlast p = []")
    case True
    then show ?thesis by (simp add: node_at_def)
  next
    case False
    with prefixes_self [OF this] show ?thesis by (simp add: nd)
  qed
  have bp: "butlast p \<noteq> ?t" "butlast p \<noteq> p"
    using p temporary_shape(1) [of env "fs_uuids fs" p] by (metis length_butlast n_not_Suc_n,
      metis append_butlast_last_id append_self_conv not_Cons_self)
  have "write_atomic env p bs fs = (Inr (), ?r)"
    using p dirs target tmp tp parent tne bp temporary_differs [of env "fs_uuids fs" p] quiet
    by (simp add: write_atomic_def text_bind_def create_dir_all_def fs_call_quiet create_file_def nd temporary_shape
        write_all_quiet sync_all_def rename_file_def node_at_set Let_def node_at_drop)
  moreover have "nodes_ok ?r"
    using ok p tne by (simp add: nodes_ok_set nodes_ok_drop nodes_ok_fold_set prefixes_nonempty)
  moreover have "node_at ?r q = (if q = p then Some (FsFile bs) else if q = ?t then None
           else if q \<in> set (path_prefixes (butlast p)) then Some FsDir else node_at fs q)" for q
    using p tne by (simp add: node_at_set node_at_drop nd)
  ultimately show thesis by (rule that)
qed

section \<open>The invariant of a directory\<close>

definition file_value :: "durable_env \<Rightarrow> file_system \<Rightarrow> path \<Rightarrow> json option" where
  "file_value env fs p =
     (case node_at fs p of
        Some (FsFile bs) \<Rightarrow> (case du_from_slice env bs of Inr v \<Rightarrow> Some v | Inl _ \<Rightarrow> None)
      | _ \<Rightarrow> None)"

definition kind_ok :: "path \<Rightarrow> file_system \<Rightarrow> ustr \<Rightarrow> bool" where
  "kind_ok root fs k \<longleftrightarrow>
     \<not> is_file (node_at fs (root @ [k])) \<and> (\<forall>n. \<not> is_file (node_at fs (root @ [k, n])))
     \<and> (\<forall>n h. \<not> is_file (node_at fs (root @ [k, n, h])))
     \<and> (\<forall>n h x. node_at fs (root @ [k, n, h, x]) \<noteq> Some FsDir)
     \<and> (\<forall>n h x. node_at fs (root @ [k, n, h, x]) \<noteq> None \<longrightarrow> node_at fs (root @ [k, n, h]) = Some FsDir)
     \<and> (\<forall>n h. node_at fs (root @ [k, n, h]) \<noteq> None \<longrightarrow> node_at fs (root @ [k, n]) = Some FsDir)"

definition object_file_ok :: "durable_env \<Rightarrow> ustr \<Rightarrow> ustr \<Rightarrow> ustr \<Rightarrow> nat list \<Rightarrow> bool" where
  "object_file_ok env n h x bs \<longleftrightarrow>
     component_ok n \<and> hash_ok h \<and> (\<exists>i. component_ok i \<and> x = i @ str ''.json'') \<and> (\<exists>v. du_from_slice env bs = Inr v)"

definition fs_ok :: "durable_env \<Rightarrow> path \<Rightarrow> file_system \<Rightarrow> bool" where
  "fs_ok env root fs \<longleftrightarrow>
     nodes_ok fs \<and> (\<forall>q \<in> set (path_prefixes root). \<not> is_file (node_at fs q))
     \<and> kind_ok root fs (str ''objects'') \<and> kind_ok root fs (str ''blobs'')
     \<and> (\<forall>n h x bs. node_at fs (root @ [str ''objects'', n, h, x]) = Some (FsFile bs)
          \<longrightarrow> path_extension [x] = Some (str ''json'') \<longrightarrow> object_file_ok env n h x bs)"

lemma kinds_differ: "str ''objects'' \<noteq> str ''blobs''" "str ''json'' \<noteq> str ''tmp''"
  by (simp_all add: str_def)

lemma path_extension_last: "path_extension (p @ [x]) = path_extension [x]"
  by (simp add: path_extension_def)

lemma extension_four: "path_extension (root @ [k, n, h, x]) = path_extension [x]"
  using path_extension_last [of "root @ [k, n, h]" x] by simp

lemma extension_component: "component_ok i \<Longrightarrow> path_extension [i] = None"
proof -
  assume i: "component_ok i"
  then have "46 \<notin> set i" by (auto dest: component_chars)
  then have "\<not> contains_str i [46]" by (auto simp: contains_str_iff)
  then show ?thesis
    by (simp add: path_extension_def str_single rsplit_once_None [THEN iffD2])
qed

lemma prefixes_four:
  "set (path_prefixes (root @ [k, n, h])) = set (path_prefixes root) \<union> {root @ [k], root @ [k, n], root @ [k, n, h]}"
  using prefixes_snoc [of root k] prefixes_snoc [of "root @ [k]" n] prefixes_snoc [of "root @ [k, n]" h] by auto

lemma not_prefix: "length root < length q \<Longrightarrow> q \<notin> set (path_prefixes root)"
  by (auto dest: prefixes_length)

lemma kind_okD:
  assumes "kind_ok root fs k"
  shows "\<not> is_file (node_at fs (root @ [k]))" "\<not> is_file (node_at fs (root @ [k, n]))"
    "\<not> is_file (node_at fs (root @ [k, n, h]))" "node_at fs (root @ [k, n, h, x]) \<noteq> Some FsDir"
    "node_at fs (root @ [k, n, h, x]) = Some f \<Longrightarrow> node_at fs (root @ [k, n, h]) = Some FsDir"
    "node_at fs (root @ [k, n, h]) = Some f \<Longrightarrow> node_at fs (root @ [k, n]) = Some FsDir"
  using assms unfolding kind_ok_def by (simp, simp, simp, simp, metis option.distinct(1), metis option.distinct(1))

text \<open>A write under one kind.\<close>

lemma fs_put:
  assumes ok: "fs_ok env root fs" and k: "k \<in> {str ''objects'', str ''blobs''}"
    and obj: "k = str ''objects'' \<Longrightarrow> object_file_ok env n h x bs"
  obtains fs' where "write_atomic env (root @ [k, n, h, x]) bs fs = (Inr (), fs')" and "fs_ok env root fs'"
    and "\<And>k' n' h' x'. path_extension [x'] \<noteq> Some (str ''tmp'') \<Longrightarrow>
           node_at fs' (root @ [k', n', h', x']) =
             (if (k', n', h', x') = (k, n, h, x) then Some (FsFile bs) else node_at fs (root @ [k', n', h', x']))"
proof -
  let ?p = "root @ [k, n, h, x]"
  let ?dirs = "{root @ [k], root @ [k, n], root @ [k, n, h]}"
  have ko: "kind_ok root fs k" and nok: "nodes_ok fs" and pre: "\<forall>q \<in> set (path_prefixes root). \<not> is_file (node_at fs q)"
    using ok k by (auto simp: fs_ok_def)
  have bl: "butlast ?p = root @ [k, n, h]" by (simp add: butlast_append)
  obtain t where t: "temporary_path env (fs_uuids fs) ?p = root @ [k, n, h, t]"
    and te: "path_extension [t] = Some (str ''tmp'')"
    using extension_temporary [of env "fs_uuids fs" ?p] by (simp add: temporary_path_def butlast_append path_extension_def)
  obtain fs' where w: "write_atomic env ?p bs fs = (Inr (), fs')" and nok': "nodes_ok fs'"
    and nd: "\<And>q. node_at fs' q = (if q = ?p then Some (FsFile bs) else if q = root @ [k, n, h, t] then None
           else if q \<in> set (path_prefixes (root @ [k, n, h])) then Some FsDir else node_at fs q)"
  proof (rule write_atomic_quiet [OF nok, of ?p env bs])
    show "\<forall>q \<in> set (path_prefixes (butlast ?p)). \<not> is_file (node_at fs q)"
      using pre ko by (auto simp: bl prefixes_four kind_okD)
    show "node_at fs ?p \<noteq> Some FsDir" by (rule kind_okD(4) [OF ko])
    show "node_at fs (temporary_path env (fs_uuids fs) ?p) \<noteq> Some FsDir"
      using kind_okD(4) [OF ko] by (simp add: t)
  qed (simp_all add: t bl)
  have four: "node_at fs' (root @ [k', n', h', x']) =
      (if (k', n', h', x') = (k, n, h, x) then Some (FsFile bs) else if (k', n', h', x') = (k, n, h, t) then None
       else node_at fs (root @ [k', n', h', x']))" for k' n' h' x'
    by (simp add: nd prefixes_four not_prefix)
  have three: "node_at fs' (root @ [k', n', h']) = (if (k', n', h') = (k, n, h) then Some FsDir else node_at fs (root @ [k', n', h']))" for k' n' h'
    by (simp add: nd prefixes_four not_prefix)
  have two: "node_at fs' (root @ [k', n']) = (if (k', n') = (k, n) then Some FsDir else node_at fs (root @ [k', n']))" for k' n'
    by (simp add: nd prefixes_four not_prefix)
  have one: "node_at fs' (root @ [k']) = (if k' = k then Some FsDir else node_at fs (root @ [k']))" for k'
    by (simp add: nd prefixes_four not_prefix)
  have kinds: "kind_ok root fs' k'" if "kind_ok root fs k'" for k'
    using that by (simp add: kind_ok_def one two three four) blast
  have tj: "path_extension [t] \<noteq> Some (str ''json'')" using te kinds_differ by simp
  have "fs_ok env root fs'"
    unfolding fs_ok_def
  proof (intro conjI ballI allI impI)
    fix q assume q: "q \<in> set (path_prefixes root)"
    then have "length q \<le> length root" by (rule prefixes_length)
    then have "q \<noteq> ?p" "q \<noteq> root @ [k, n, h, t]" by auto
    then show "\<not> is_file (node_at fs' q)" using q by (simp add: nd prefixes_four)
  next
    fix n' h' x' bs'
    assume "node_at fs' (root @ [str ''objects'', n', h', x']) = Some (FsFile bs')"
      and "path_extension [x'] = Some (str ''json'')"
    then show "object_file_ok env n' h' x' bs'"
      using ok obj tj unfolding fs_ok_def four by (auto split: if_splits)
  qed (use ok nok' kinds in \<open>simp_all add: fs_ok_def\<close>)
  moreover have "node_at fs' (root @ [k', n', h', x']) =
             (if (k', n', h', x') = (k, n, h, x) then Some (FsFile bs) else node_at fs (root @ [k', n', h', x']))"
    if "path_extension [x'] \<noteq> Some (str ''tmp'')" for k' n' h' x'
    using that te by (auto simp: four)
  ultimately show thesis by (rule that [OF w])
qed

lemma fs_remove:
  assumes ok: "fs_ok env root fs" and k: "k \<in> {str ''objects'', str ''blobs''}"
  obtains fs' where "remove_present (root @ [k, n, h, x]) fs = (Inr (node_at fs (root @ [k, n, h, x]) \<noteq> None), fs')"
    and "fs_ok env root fs'"
    and "\<And>k' n' h' x'. node_at fs' (root @ [k', n', h', x']) =
             (if (k', n', h', x') = (k, n, h, x) then None else node_at fs (root @ [k', n', h', x']))"
proof -
  let ?p = "root @ [k, n, h, x]"
  have ko: "kind_ok root fs k" and nok: "nodes_ok fs" using ok k by (auto simp: fs_ok_def)
  then have quiet: "fs_faults fs = []" by (simp add: nodes_ok_def)
  show thesis
  proof (cases "node_at fs ?p")
    case None
    then show thesis
      by (intro that [of fs]) (auto simp: ok remove_present_def remove_file_def fs_call_quiet quiet)
  next
    case (Some f)
    with kind_okD(4) [OF ko, of n h x] obtain b where f: "f = FsFile b" by (cases f) auto
    let ?d = "drop_node ?p fs"
    have nd: "node_at ?d q = (if q = ?p then None else node_at fs q)" for q
      by (simp add: node_at_drop)
    have kinds: "kind_ok root ?d k'" if "kind_ok root fs k'" for k'
      using that by (simp add: kind_ok_def nd) blast
    have "fs_ok env root ?d"
      unfolding fs_ok_def
    proof (intro conjI ballI allI impI)
      fix q assume q: "q \<in> set (path_prefixes root)"
      then show "\<not> is_file (node_at ?d q)" using ok by (simp add: fs_ok_def nd)
    next
      fix n' h' x' bs'
      assume "node_at ?d (root @ [str ''objects'', n', h', x']) = Some (FsFile bs')"
        and "path_extension [x'] = Some (str ''json'')"
      then show "object_file_ok env n' h' x' bs'"
        using ok unfolding fs_ok_def nd by (auto split: if_splits)
    qed (use ok nok kinds in \<open>simp_all add: fs_ok_def nodes_ok_drop\<close>)
    then show thesis
      using Some f by (intro that [of ?d]) (auto simp: remove_present_def remove_file_def fs_call_quiet quiet nd)
  qed
qed

section \<open>Listing a directory\<close>

lemma read_entries_quiet:
  assumes "fs_faults fs = []"
    and "\<forall>p \<in> set ps. path_extension p = Some (str ''json'') \<longrightarrow> file_value env fs p \<noteq> None"
  shows "read_entries env ps fs =
    (Inr (map (\<lambda>p. the (file_value env fs p)) (filter (\<lambda>p. path_extension p = Some (str ''json'')) ps)), fs)"
  using assms(2)
proof (induction ps)
  case Nil
  show ?case using assms(1) by (simp add: text_bind_def next_entry_def fs_call_quiet)
next
  case (Cons p ps)
  show ?case
  proof (cases "path_extension p = Some (str ''json'')")
    case True
    with Cons.prems obtain v where "file_value env fs p = Some v" by auto
    then obtain bs where "node_at fs p = Some (FsFile bs)" and "du_from_slice env bs = Inr v"
      by (auto simp: file_value_def split: option.splits fs_node.splits sum.splits)
    with True Cons assms(1) show ?thesis
      by (simp add: text_bind_def next_entry_def fs_call_quiet read_file_def file_value_def)
  next
    case False
    with Cons assms(1) show ?thesis by (simp add: text_bind_def next_entry_def fs_call_quiet)
  qed
qed

lemma read_tenant_entries_quiet:
  assumes "fs_faults fs = []"
    and "\<forall>d \<in> set ds. node_at fs d = Some FsDir
      \<and> (\<forall>p \<in> set (du_entry_order env (child_paths fs d)).
           path_extension p = Some (str ''json'') \<longrightarrow> file_value env fs p \<noteq> None)"
  shows "read_tenant_entries env ds fs =
    (Inr (map (\<lambda>p. the (file_value env fs p))
       (filter (\<lambda>p. path_extension p = Some (str ''json''))
          (concat (map (\<lambda>d. du_entry_order env (child_paths fs d)) ds)))), fs)"
  using assms(2)
proof (induction ds)
  case Nil
  show ?case using assms(1) by (simp add: text_bind_def next_entry_def fs_call_quiet)
next
  case (Cons d ds)
  have "read_entries env (du_entry_order env (child_paths fs d)) fs =
      (Inr (map (\<lambda>p. the (file_value env fs p))
         (filter (\<lambda>p. path_extension p = Some (str ''json'')) (du_entry_order env (child_paths fs d)))), fs)"
    using Cons.prems assms(1) by (intro read_entries_quiet) auto
  with Cons assms(1) show ?case
    by (simp add: text_bind_def next_entry_def fs_call_quiet entry_is_dir_def read_dir_def)
qed

section \<open>Writes that fail\<close>

text \<open>The fault that the \<open>n\<close>th of the next calls meets.\<close>

definition fault_at :: "nat \<Rightarrow> file_system \<Rightarrow> (ustr \<times> nat) option" where
  "fault_at n fs = (if n < length (fs_faults fs) then fs_faults fs ! n else None)"

definition calls_made :: "nat \<Rightarrow> file_system \<Rightarrow> file_system" where
  "calls_made n fs = fs\<lparr>fs_faults := drop n (fs_faults fs)\<rparr>"

lemma next_fault_at: "next_fault fs = (fault_at 0 fs, calls_made (Suc 0) fs)"
  by (cases "fs_faults fs") (simp_all add: next_fault_def fault_at_def calls_made_def)

lemma calls_made_set: "calls_made n (set_node p x fs) = set_node p x (calls_made n fs)"
  by (simp add: calls_made_def set_node_def)

lemma calls_made_simps [simp]:
  "node_at (calls_made n fs) q = node_at fs q" "fs_uuids (calls_made n fs) = fs_uuids fs"
  "calls_made n (set_node p x fs) = set_node p x (calls_made n fs)"
  "calls_made n (fs\<lparr>fs_uuids := u\<rparr>) = (calls_made n fs)\<lparr>fs_uuids := u\<rparr>"
  "calls_made n (fold (\<lambda>q. set_node q x) qs fs) = fold (\<lambda>q. set_node q x) qs (calls_made n fs)"
  "calls_made n (calls_made m fs) = calls_made (n + m) fs"
  "fault_at m (calls_made n fs) = fault_at (m + n) fs"
  "fault_at m (set_node p x fs) = fault_at m fs" "fault_at m (fs\<lparr>fs_uuids := u\<rparr>) = fault_at m fs"
  "fault_at m (fold (\<lambda>q. set_node q x) qs fs) = fault_at m fs" "fault_at m (drop_node p fs) = fault_at m fs"
  "calls_made n (drop_node p fs) = drop_node p (calls_made n fs)"
proof -
  show "calls_made n (fold (\<lambda>q. set_node q x) qs fs) = fold (\<lambda>q. set_node q x) qs (calls_made n fs)"
    by (induction qs arbitrary: fs) (simp_all add: calls_made_set)
  show "fault_at m (calls_made n fs) = fault_at (m + n) fs"
    by (auto simp: fault_at_def calls_made_def add.commute)
qed (simp_all add: calls_made_def node_at_def set_node_def drop_node_def fault_at_def add.commute)

lemma fs_call_at:
  "fs_call act fs = (case fault_at 0 fs of None \<Rightarrow> act (calls_made (Suc 0) fs) | Some f \<Rightarrow> (Inl (IoOther (fst f)), calls_made (Suc 0) fs))"
  by (simp add: fs_call_def next_fault_at)

text \<open>
  The five calls of a write, each with the fault it meets: the directories, the new file, its bytes,
  the flush, and the renaming with its retry.
\<close>

lemma write_atomic_faults:
  assumes p: "p \<noteq> []"
    and dirs: "\<forall>q \<in> set (path_prefixes (butlast p)). \<not> is_file (node_at fs q)"
    and target: "node_at fs p \<noteq> Some FsDir" and tmp: "node_at fs (temporary_path env (fs_uuids fs) p) \<noteq> Some FsDir"
    and w: "write_atomic env p bs fs = (r, fs')"
  shows "case (fault_at 0 fs, fault_at 1 fs, fault_at 2 fs, fault_at 3 fs) of
      (None, None, None, None) \<Rightarrow>
        (case fault_at 4 fs of
           None \<Rightarrow> r = Inr () \<and> node_at fs' p = Some (FsFile bs)
         | Some f \<Rightarrow>
             (case fault_at 6 fs of
                None \<Rightarrow> r = Inr () \<and> node_at fs' p = Some (FsFile bs)
              | Some g \<Rightarrow> r = Inl (fst f)
                  \<and> node_at fs' p = (if fault_at 5 fs = None then None else node_at fs p)))
    | _ \<Rightarrow> (\<exists>e. r = Inl e) \<and> node_at fs' p = node_at fs p"
proof -
  let ?t = "temporary_path env (fs_uuids fs) p"
  let ?d = "\<lambda>fs. fold (\<lambda>q. set_node q FsDir) (path_prefixes (butlast p)) fs"
  have nd: "node_at (?d x) q = (if q \<in> set (path_prefixes (butlast p)) then Some FsDir else node_at x q)" for x q
    by (rule node_at_fold_set [OF prefixes_nonempty])
  have far: "q \<in> set (path_prefixes (butlast p)) \<Longrightarrow> length q < length p" for q
    using prefixes_length [of q "butlast p"] p by (cases p rule: rev_cases) auto
  have tp: "?t \<notin> set (path_prefixes (butlast p))" "p \<notin> set (path_prefixes (butlast p))"
    using far [of ?t] far [of p] p by (auto simp: temporary_shape)
  have tne: "?t \<noteq> []" by (rule temporary_shape)
  have parent: "node_at (?d x) (butlast p) = Some FsDir" for x
  proof (cases "butlast p = []")
    case True
    then show ?thesis by (simp add: node_at_def)
  next
    case False
    with prefixes_self [OF this] show ?thesis by (simp add: nd)
  qed
  have bp: "butlast p \<noteq> ?t" "butlast p \<noteq> p"
    using p temporary_shape(1) [of env "fs_uuids fs" p] by (metis length_butlast n_not_Suc_n,
      metis append_butlast_last_id append_self_conv not_Cons_self)
  note step = write_atomic_def text_bind_def create_dir_all_def fs_call_at create_file_def nd temporary_shape
    write_all_def next_fault_at sync_all_def rename_file_def node_at_set Let_def node_at_drop remove_file_def
  note given = p dirs target tmp tp parent tne bp temporary_differs [of env "fs_uuids fs" p] not_sym [OF temporary_differs [of env "fs_uuids fs" p]]
  show ?thesis
  proof (cases "fault_at 0 fs")
    case f0: None
    show ?thesis
    proof (cases "fault_at (Suc 0) fs")
      case f1: None
      show ?thesis
      proof (cases "fault_at (Suc (Suc 0)) fs")
        case f2: None
        show ?thesis
        proof (cases "fault_at (Suc (Suc (Suc 0))) fs")
          case f3: None
          show ?thesis
            using w given by (cases "node_at fs p"; cases "the (node_at fs p)";
              cases "fault_at (Suc (Suc (Suc (Suc 0)))) fs"; cases "fault_at (Suc (Suc (Suc (Suc (Suc 0))))) fs"; cases "fault_at (Suc (Suc (Suc (Suc (Suc (Suc 0)))))) fs")
              (auto simp: step f0 f1 f2 f3 eval_nat_numeral io_error_text_def)
        qed (use w given in \<open>auto simp: step f0 f1 f2 eval_nat_numeral\<close>)
      qed (use w given in \<open>auto simp: step f0 f1 eval_nat_numeral\<close>)
    qed (use w given in \<open>auto simp: step f0 eval_nat_numeral\<close>)
  qed (use w given in \<open>auto simp: step\<close>)
qed

end
