(* ===== verification/Api_Durable_Refine.thy ===== *)
theory Api_Durable_Refine
  imports Api_Durable_Facts
begin

text \<open>
  The durable store over an abstract one. Both of its backends, as long as no call of the operating
  system fails, do what a pair of maps from cells to values and to bytes does. The laws are the locales
  \<open>cell_store\<close> and \<open>listed_store\<close>, interpreted for the objects and for the blobs of either backend.
\<close>

section \<open>The contract\<close>

locale cell_store =
  fixes put :: "'k \<Rightarrow> 'v \<Rightarrow> 's \<Rightarrow> (ustr + unit) \<times> 's"
    and get :: "'k \<Rightarrow> 's \<Rightarrow> (ustr + 'v option) \<times> 's"
    and delete :: "'k \<Rightarrow> 's \<Rightarrow> (ustr + bool) \<times> 's"
    and lookup :: "'s \<Rightarrow> 'c \<Rightarrow> 'v option"
    and cell :: "'k \<Rightarrow> 'c"
    and good :: "'k \<Rightarrow> bool"
    and storable :: "'v \<Rightarrow> bool"
    and inv :: "'s \<Rightarrow> bool"
    and frame :: "'s \<Rightarrow> 'x"
  assumes put_law: "inv s \<Longrightarrow> good k \<Longrightarrow> storable v \<Longrightarrow>
      \<exists>s'. put k v s = (Inr (), s') \<and> inv s' \<and> lookup s' = (lookup s)(cell k \<mapsto> v) \<and> frame s' = frame s"
    and get_law: "inv s \<Longrightarrow> good k \<Longrightarrow> get k s = (Inr (lookup s (cell k)), s)"
    and delete_law: "inv s \<Longrightarrow> good k \<Longrightarrow>
      \<exists>s'. delete k s = (Inr (lookup s (cell k) \<noteq> None), s') \<and> inv s'
        \<and> lookup s' = (lookup s)(cell k := None) \<and> frame s' = frame s"
begin

lemma put_then_get:
  assumes "inv s" and "good k" and "storable v" and "put k v s = (r, s')" and "good k'"
  shows "r = Inr () \<and> inv s' \<and> get k' s' = (Inr (if cell k' = cell k then Some v else lookup s (cell k')), s')"
  using put_law [OF assms(1-3)] assms(4,5) get_law by auto

lemma delete_then_get:
  assumes "inv s" and "good k" and "delete k s = (r, s')" and "good k'"
  shows "get k' s' = (Inr (if cell k' = cell k then None else lookup s (cell k')), s')"
  using delete_law [OF assms(1,2)] assms(3,4) get_law by auto

end

locale listed_store = cell_store put get delete lookup cell good storable inv frame
  for put :: "'k \<Rightarrow> 'v \<Rightarrow> 's \<Rightarrow> (ustr + unit) \<times> 's"
    and get :: "'k \<Rightarrow> 's \<Rightarrow> (ustr + 'v option) \<times> 's"
    and delete :: "'k \<Rightarrow> 's \<Rightarrow> (ustr + bool) \<times> 's"
    and lookup :: "'s \<Rightarrow> 'c \<Rightarrow> 'v option"
    and cell :: "'k \<Rightarrow> 'c"
    and good :: "'k \<Rightarrow> bool"
    and storable :: "'v \<Rightarrow> bool"
    and inv :: "'s \<Rightarrow> bool"
    and frame :: "'s \<Rightarrow> 'x" +
  fixes listing :: "'q \<Rightarrow> 's \<Rightarrow> (ustr + 'v list) \<times> 's"
    and scope :: "'q \<Rightarrow> 'c set"
    and askable :: "'q \<Rightarrow> bool"
  assumes list_law: "inv s \<Longrightarrow> askable q \<Longrightarrow>
      \<exists>cs. distinct cs \<and> set cs = {c \<in> scope q. lookup s c \<noteq> None}
        \<and> listing q s = (Inr (map (\<lambda>c. the (lookup s c)) cs), s)"
begin

lemma listed_values:
  assumes "inv s" and "askable q"
  obtains vs where "listing q s = (Inr vs, s)"
    and "mset vs = image_mset (\<lambda>c. the (lookup s c)) (mset_set {c \<in> scope q. lookup s c \<noteq> None})"
  using list_law [OF assms] by (metis mset_map mset_set_set)

lemma put_listed:
  assumes "inv s" and "good k" and "storable v" and "put k v s = (r, s')" and "askable q"
    and "cell k \<notin> scope q" and "listing q s = (Inr vs, s)"
  shows "\<exists>ws. listing q s' = (Inr ws, s') \<and> mset ws = mset vs"
proof -
  have s': "inv s'" "lookup s' = (lookup s)(cell k \<mapsto> v)" using put_law [OF assms(1-3)] assms(4) by auto
  have same: "{c \<in> scope q. lookup s' c \<noteq> None} = {c \<in> scope q. lookup s c \<noteq> None}"
    using assms(6) by (auto simp: s')
  have "image_mset (\<lambda>c. the (lookup s' c)) (mset_set {c \<in> scope q. lookup s' c \<noteq> None})
      = image_mset (\<lambda>c. the (lookup s c)) (mset_set {c \<in> scope q. lookup s c \<noteq> None})"
  proof (unfold same, rule image_mset_cong)
    fix c assume c: "c \<in># mset_set {c \<in> scope q. lookup s c \<noteq> None}"
    then have "c \<in> {c \<in> scope q. lookup s c \<noteq> None}"
      by (metis (no_types, lifting) count_mset_set(2) count_mset_set(3) not_in_iff)
    then show "the (lookup s' c) = the (lookup s c)" using assms(6) by (auto simp: s')
  qed
  with listed_values [OF assms(1,5)] listed_values [OF s'(1) assms(5)] assms(7) show ?thesis
    by (metis Pair_inject sum.inject(2))
qed

end

section \<open>The cells of a store\<close>

definition durable_lawful :: "durable_env \<Rightarrow> bool" where
  "durable_lawful env \<longleftrightarrow>
     (\<forall>bs. hash_ok (du_sha256_hex env bs)) \<and> (\<forall>ps. mset (du_entry_order env ps) = mset ps)"

text \<open>A value that printing and parsing give back.\<close>

definition json_storable :: "durable_env \<Rightarrow> json \<Rightarrow> bool" where
  "json_storable env v \<longleftrightarrow> (\<exists>bs. du_to_vec env v = Inr bs \<and> du_from_slice env bs = Inr v)"

definition cell_key :: "cell \<Rightarrow> ustr" where
  "cell_key c = (case c of (n, h, i) \<Rightarrow> hashed_key n h i)"

definition cell_object_path :: "path \<Rightarrow> cell \<Rightarrow> path" where
  "cell_object_path root c = (case c of (n, h, i) \<Rightarrow> root @ [str ''objects'', n, h, i @ str ''.json''])"

definition cell_blob_path :: "path \<Rightarrow> cell \<Rightarrow> path" where
  "cell_blob_path root c = (case c of (n, h, i) \<Rightarrow> root @ [str ''blobs'', n, h, i])"

definition file_bytes :: "file_system \<Rightarrow> path \<Rightarrow> nat list option" where
  "file_bytes fs p = (case node_at fs p of Some (FsFile bs) \<Rightarrow> Some bs | _ \<Rightarrow> None)"

definition object_at :: "durable_env \<Rightarrow> durable_store \<Rightarrow> cell \<Rightarrow> json option" where
  "object_at env st c =
     (if \<not> cell_ok c then None
      else case st of
             MemoryStore objects _ \<Rightarrow> bt_get objects (cell_key c)
           | FilesystemStore root fs \<Rightarrow> file_value env fs (cell_object_path root c))"

definition blob_at :: "durable_store \<Rightarrow> cell \<Rightarrow> nat list option" where
  "blob_at st c =
     (if \<not> cell_ok c then None
      else case st of
             MemoryStore _ blobs \<Rightarrow> bt_get blobs (cell_key c)
           | FilesystemStore root fs \<Rightarrow> file_bytes fs (cell_blob_path root c))"

definition keys_ok :: "(ustr, 'v) btree \<Rightarrow> bool" where
  "keys_ok m \<longleftrightarrow> bt_wf m \<and> fst ` set m \<subseteq> cell_key ` {c. cell_ok c}"

definition durable_inv :: "durable_env \<Rightarrow> durable_store \<Rightarrow> bool" where
  "durable_inv env st \<longleftrightarrow> durable_lawful env \<and>
     (case st of
        MemoryStore objects blobs \<Rightarrow> keys_ok objects \<and> keys_ok blobs
      | FilesystemStore root fs \<Rightarrow> fs_ok env root fs)"

definition key_cell :: "durable_env \<Rightarrow> ustr \<times> ustr \<times> ustr \<Rightarrow> cell" where
  "key_cell env k = (case k of (n, t, i) \<Rightarrow> (n, tenant_hash env t, i))"

definition key_ok :: "ustr \<times> ustr \<times> ustr \<Rightarrow> bool" where
  "key_ok k \<longleftrightarrow> (case k of (n, t, i) \<Rightarrow> component_ok n \<and> component_ok i)"

lemma cell_key_inject: "cell_ok c \<Longrightarrow> cell_ok d \<Longrightarrow> cell_key c = cell_key d \<longleftrightarrow> c = d"
  using hashed_key_inject by (cases c, cases d) (simp add: cell_ok_def cell_key_def)

lemma key_cell_ok: "durable_lawful env \<Longrightarrow> key_ok k \<Longrightarrow> cell_ok (key_cell env k)"
  by (cases k) (simp add: cell_ok_def key_cell_def key_ok_def durable_lawful_def tenant_hash_def)

lemma key_cell_paths:
  "memory_key env n t i = cell_key (key_cell env (n, t, i))"
  "object_path env root n t i = cell_object_path root (key_cell env (n, t, i))"
  "blob_path env root n t i = cell_blob_path root (key_cell env (n, t, i))"
  by (simp_all add: memory_key_def cell_key_def key_cell_def object_path_def object_directory_def
      cell_object_path_def blob_path_def cell_blob_path_def)

lemma validate_key_ok: "key_ok (n, t, i) \<Longrightarrow> validate_key n i = Inr ()"
  by (simp add: key_ok_def validate_key_def validate_durable_def)

lemma keys_ok_insert: "keys_ok m \<Longrightarrow> cell_ok c \<Longrightarrow> keys_ok (bt_insert (cell_key c) v m)"
  by (simp add: keys_ok_def bt_keys_insert bt_wf_insert)

lemma keys_ok_remove: "keys_ok m \<Longrightarrow> keys_ok (bt_remove k m)"
  unfolding keys_ok_def using bt_wf_remove [of m k] by (simp add: bt_remove_def) blast

lemma memory_lookup_insert:
  assumes "cell_ok c"
  shows "(\<lambda>d. if cell_ok d then bt_get (bt_insert (cell_key c) v m) (cell_key d) else None)
    = (\<lambda>d. if cell_ok d then bt_get m (cell_key d) else None)(c \<mapsto> v)"
  using assms by (auto simp: bt_get_insert cell_key_inject)

lemma memory_lookup_remove:
  assumes "cell_ok c"
  shows "(\<lambda>d. if cell_ok d then bt_get (bt_remove (cell_key c) m) (cell_key d) else None)
    = (\<lambda>d. if cell_ok d then bt_get m (cell_key d) else None)(c := None)"
  using assms by (auto simp: bt_get_remove cell_key_inject)

lemma object_at_memory: "object_at env (MemoryStore os bs) = (\<lambda>c. if cell_ok c then bt_get os (cell_key c) else None)"
  by (auto simp: object_at_def)

lemma blob_at_memory: "blob_at (MemoryStore os bs) = (\<lambda>c. if cell_ok c then bt_get bs (cell_key c) else None)"
  by (auto simp: blob_at_def)

subsection \<open>Files\<close>

lemma object_extension: "cell_ok c \<Longrightarrow> path_extension (cell_object_path root c) = Some (str ''json'')"
  using extension_json [of _ "root @ [str ''objects'', fst c, fst (snd c)]"]
  by (cases c) (simp add: cell_object_path_def cell_ok_def)

lemma blob_extension: "cell_ok c \<Longrightarrow> path_extension (cell_blob_path root c) = None"
  by (cases c) (simp add: cell_blob_path_def extension_four extension_component cell_ok_def)

lemma object_path_inject: "cell_object_path root c = cell_object_path root d \<longleftrightarrow> c = d"
  by (cases c, cases d) (simp add: cell_object_path_def)

lemma blob_path_inject: "cell_blob_path root c = cell_blob_path root d \<longleftrightarrow> c = d"
  by (cases c, cases d) (simp add: cell_blob_path_def)

lemma paths_differ: "cell_blob_path root c \<noteq> cell_object_path root d"
  by (cases c, cases d) (simp add: cell_blob_path_def cell_object_path_def str_def)

lemma put_object_file:
  assumes "fs_ok env root fs" and "cell_ok c" and "du_from_slice env bs = Inr v"
  obtains fs' where "write_atomic env (cell_object_path root c) bs fs = (Inr (), fs')" and "fs_ok env root fs'"
    and "object_at env (FilesystemStore root fs') = (object_at env (FilesystemStore root fs))(c \<mapsto> v)"
    and "blob_at (FilesystemStore root fs') = blob_at (FilesystemStore root fs)"
proof -
  obtain n h i where c: "c = (n, h, i)" by (cases c)
  have "object_file_ok env n h (i @ str ''.json'') bs"
    using assms(2,3) by (auto simp: object_file_ok_def c cell_ok_def)
  then obtain fs' where w: "write_atomic env (cell_object_path root c) bs fs = (Inr (), fs')" and ok: "fs_ok env root fs'"
    and nd: "\<And>k' n' h' x'. path_extension [x'] \<noteq> Some (str ''tmp'') \<Longrightarrow>
       node_at fs' (root @ [k', n', h', x']) =
         (if (k', n', h', x') = (str ''objects'', n, h, i @ str ''.json'') then Some (FsFile bs) else node_at fs (root @ [k', n', h', x']))"
    using fs_put [OF assms(1), of "str ''objects''" n h "i @ str ''.json''" bs] by (auto simp: c cell_object_path_def)
  have o: "node_at fs' (cell_object_path root d) = (if d = c then Some (FsFile bs) else node_at fs (cell_object_path root d))"
    if "cell_ok d" for d
    using object_extension [OF that, of root] kinds_differ nd that
    by (cases d) (auto simp: cell_object_path_def c extension_four)
  have b: "node_at fs' (cell_blob_path root d) = node_at fs (cell_blob_path root d)" if "cell_ok d" for d
    using blob_extension [OF that, of root] nd
    by (cases d) (auto simp: cell_blob_path_def extension_four str_def)
  show thesis
    by (rule that [OF w ok]) (auto simp: object_at_def blob_at_def file_value_def file_bytes_def o b assms(2,3))
qed

lemma put_blob_file:
  assumes "fs_ok env root fs" and "cell_ok c"
  obtains fs' where "write_atomic env (cell_blob_path root c) bs fs = (Inr (), fs')" and "fs_ok env root fs'"
    and "blob_at (FilesystemStore root fs') = (blob_at (FilesystemStore root fs))(c \<mapsto> bs)"
    and "object_at env (FilesystemStore root fs') = object_at env (FilesystemStore root fs)"
proof -
  obtain n h i where c: "c = (n, h, i)" by (cases c)
  obtain fs' where w: "write_atomic env (cell_blob_path root c) bs fs = (Inr (), fs')" and ok: "fs_ok env root fs'"
    and nd: "\<And>k' n' h' x'. path_extension [x'] \<noteq> Some (str ''tmp'') \<Longrightarrow>
       node_at fs' (root @ [k', n', h', x']) =
         (if (k', n', h', x') = (str ''blobs'', n, h, i) then Some (FsFile bs) else node_at fs (root @ [k', n', h', x']))"
    using fs_put [OF assms(1), of "str ''blobs''" n h i bs] kinds_differ by (auto simp: c cell_blob_path_def)
  have o: "node_at fs' (cell_object_path root d) = node_at fs (cell_object_path root d)" if "cell_ok d" for d
    using object_extension [OF that, of root] kinds_differ nd
    by (cases d) (auto simp: cell_object_path_def extension_four)
  have b: "node_at fs' (cell_blob_path root d) = (if d = c then Some (FsFile bs) else node_at fs (cell_blob_path root d))"
    if "cell_ok d" for d
    using blob_extension [OF that, of root] nd
    by (cases d) (auto simp: cell_blob_path_def extension_four c)
  show thesis
    by (rule that [OF w ok]) (auto simp: object_at_def blob_at_def file_value_def file_bytes_def o b assms(2))
qed

lemma node_is_file:
  assumes "fs_ok env root fs" and "cell_ok c"
  shows "node_at fs (cell_object_path root c) \<noteq> None \<longleftrightarrow> object_at env (FilesystemStore root fs) c \<noteq> None"
    and "node_at fs (cell_blob_path root c) \<noteq> None \<longleftrightarrow> blob_at (FilesystemStore root fs) c \<noteq> None"
proof -
  obtain n h i where c: "c = (n, h, i)" by (cases c)
  have ko: "kind_ok root fs (str ''objects'')" "kind_ok root fs (str ''blobs'')" using assms(1) by (auto simp: fs_ok_def)
  have "file_value env fs (cell_object_path root c) \<noteq> None" if n: "node_at fs (cell_object_path root c) = Some f" for f
  proof -
    obtain bs where f: "f = FsFile bs" using kind_okD(4) [OF ko(1)] n by (cases f) (auto simp: c cell_object_path_def)
    have "path_extension [i @ str ''.json''] = Some (str ''json'')"
      using object_extension [OF assms(2), of root] by (simp add: c cell_object_path_def extension_four)
    then have "object_file_ok env n h (i @ str ''.json'') bs"
      using assms(1) n unfolding fs_ok_def f c cell_object_path_def by auto
    then show ?thesis using n f by (auto simp: file_value_def object_file_ok_def)
  qed
  then show "node_at fs (cell_object_path root c) \<noteq> None \<longleftrightarrow> object_at env (FilesystemStore root fs) c \<noteq> None"
    using assms(2) by (auto simp: object_at_def file_value_def split: option.splits)
  show "node_at fs (cell_blob_path root c) \<noteq> None \<longleftrightarrow> blob_at (FilesystemStore root fs) c \<noteq> None"
    using assms(2) kind_okD(4) [OF ko(2)]
    by (auto simp: blob_at_def file_bytes_def c cell_blob_path_def split: option.splits fs_node.splits)
qed

lemma remove_object_file:
  assumes "fs_ok env root fs" and "cell_ok c"
  obtains fs' where "remove_present (cell_object_path root c) fs =
      (Inr (object_at env (FilesystemStore root fs) c \<noteq> None), fs')" and "fs_ok env root fs'"
    and "object_at env (FilesystemStore root fs') = (object_at env (FilesystemStore root fs))(c := None)"
    and "blob_at (FilesystemStore root fs') = blob_at (FilesystemStore root fs)"
proof -
  obtain n h i where c: "c = (n, h, i)" by (cases c)
  obtain fs' where w: "remove_present (cell_object_path root c) fs = (Inr (node_at fs (cell_object_path root c) \<noteq> None), fs')"
    and ok: "fs_ok env root fs'"
    and nd: "\<And>k' n' h' x'. node_at fs' (root @ [k', n', h', x']) =
         (if (k', n', h', x') = (str ''objects'', n, h, i @ str ''.json'') then None else node_at fs (root @ [k', n', h', x']))"
    using fs_remove [OF assms(1), of "str ''objects''" n h "i @ str ''.json''"] by (auto simp: c cell_object_path_def)
  have o: "node_at fs' (cell_object_path root d) = (if d = c then None else node_at fs (cell_object_path root d))" for d
    by (cases d) (auto simp: cell_object_path_def c nd)
  have b: "node_at fs' (cell_blob_path root d) = node_at fs (cell_blob_path root d)" for d
    by (cases d) (auto simp: cell_blob_path_def str_def nd)
  show thesis
    by (rule that [OF w [unfolded node_is_file(1) [OF assms]] ok])
      (auto simp: object_at_def blob_at_def file_value_def file_bytes_def o b)
qed

lemma remove_blob_file:
  assumes "fs_ok env root fs" and "cell_ok c"
  obtains fs' where "remove_present (cell_blob_path root c) fs =
      (Inr (blob_at (FilesystemStore root fs) c \<noteq> None), fs')" and "fs_ok env root fs'"
    and "blob_at (FilesystemStore root fs') = (blob_at (FilesystemStore root fs))(c := None)"
    and "object_at env (FilesystemStore root fs') = object_at env (FilesystemStore root fs)"
proof -
  obtain n h i where c: "c = (n, h, i)" by (cases c)
  obtain fs' where w: "remove_present (cell_blob_path root c) fs = (Inr (node_at fs (cell_blob_path root c) \<noteq> None), fs')"
    and ok: "fs_ok env root fs'"
    and nd: "\<And>k' n' h' x'. node_at fs' (root @ [k', n', h', x']) =
         (if (k', n', h', x') = (str ''blobs'', n, h, i) then None else node_at fs (root @ [k', n', h', x']))"
    using fs_remove [OF assms(1), of "str ''blobs''" n h i] by (auto simp: c cell_blob_path_def)
  have o: "node_at fs' (cell_object_path root d) = node_at fs (cell_object_path root d)" for d
    by (cases d) (auto simp: cell_object_path_def str_def nd)
  have b: "node_at fs' (cell_blob_path root d) = (if d = c then None else node_at fs (cell_blob_path root d))" for d
    by (cases d) (auto simp: cell_blob_path_def c nd)
  show thesis
    by (rule that [OF w [unfolded node_is_file(2) [OF assms]] ok])
      (auto simp: object_at_def blob_at_def file_value_def file_bytes_def o b)
qed

lemma quiet_ok: "fs_ok env root fs \<Longrightarrow> fs_faults fs = []"
  by (simp add: fs_ok_def nodes_ok_def)

lemma read_blob_file:
  assumes "fs_ok env root fs" and "cell_ok c"
  shows "read_present (cell_blob_path root c) fs = (Inr (blob_at (FilesystemStore root fs) c), fs)"
proof -
  obtain n h i where c: "c = (n, h, i)" by (cases c)
  have "kind_ok root fs (str ''blobs'')" using assms(1) by (simp add: fs_ok_def)
  then have "node_at fs (cell_blob_path root c) \<noteq> Some FsDir" by (simp add: c cell_blob_path_def kind_okD)
  then show ?thesis
    using assms quiet_ok [OF assms(1)]
    by (auto simp: read_present_def read_file_def fs_call_quiet blob_at_def file_bytes_def
        split: option.splits fs_node.splits)
qed

lemma read_object_file:
  assumes "fs_ok env root fs" and "cell_ok c"
  shows "(case read_present (cell_object_path root c) fs of
       (Inl e, fs') \<Rightarrow> (Inl e, fs')
     | (Inr None, fs') \<Rightarrow> (Inr None, fs')
     | (Inr (Some bytes), fs') \<Rightarrow> (ebind (du_from_slice env bytes) (\<lambda>v. Inr (Some v)), fs'))
    = (Inr (object_at env (FilesystemStore root fs) c), fs)"
proof -
  have e: "object_at env (FilesystemStore root fs) c = file_value env fs (cell_object_path root c)"
    using assms(2) by (simp add: object_at_def)
  show ?thesis
  proof (cases "node_at fs (cell_object_path root c)")
    case None
    then show ?thesis
      using quiet_ok [OF assms(1)] by (simp add: read_present_def read_file_def fs_call_quiet e file_value_def)
  next
    case (Some f)
    with node_is_file(1) [OF assms] obtain v where v: "file_value env fs (cell_object_path root c) = Some v"
      by (auto simp: e)
    then obtain bs where "f = FsFile bs" and "du_from_slice env bs = Inr v"
      using Some by (auto simp: file_value_def split: fs_node.splits sum.splits)
    then show ?thesis
      using Some v quiet_ok [OF assms(1)] by (simp add: read_present_def read_file_def fs_call_quiet e)
  qed
qed

subsection \<open>Listings\<close>

lemma ex_preimages: "\<forall>x \<in> set xs. \<exists>c. Q c \<and> x = f c \<Longrightarrow> \<exists>cs. xs = map f cs \<and> (\<forall>c \<in> set cs. Q c)"
proof (induction xs)
  case Nil
  show ?case by simp
next
  case (Cons x xs)
  then obtain cs c where "xs = map f cs" "\<forall>c \<in> set cs. Q c" "Q c" "x = f c" by auto
  then show ?case by (intro exI [of _ "c # cs"]) simp
qed

lemma memory_listing:
  assumes m: "keys_ok m" and P: "\<And>c. cell_ok c \<Longrightarrow> P (cell_key c) \<longleftrightarrow> c \<in> S"
  obtains cs where "distinct cs"
    and "set cs = {c \<in> S. (if cell_ok c then bt_get m (cell_key c) else None) \<noteq> None}"
    and "map snd (filter (\<lambda>e. P (fst e)) m) = map (\<lambda>c. the (if cell_ok c then bt_get m (cell_key c) else None)) cs"
proof -
  let ?es = "filter (\<lambda>e. P (fst e)) m"
  have "set (map fst ?es) \<subseteq> cell_key ` {c. cell_ok c}" using m by (auto simp: keys_ok_def)
  then have "\<forall>k \<in> set (map fst ?es). \<exists>c. cell_ok c \<and> k = cell_key c" by blast
  then obtain cs where cs: "map fst ?es = map cell_key cs" and ok: "\<forall>c \<in> set cs. cell_ok c"
    using ex_preimages [of "map fst ?es" cell_ok cell_key] by blast
  have wf: "bt_wf m" using m by (simp add: keys_ok_def)
  then have "distinct (map fst ?es)" by (simp add: bt_wf_distinct distinct_map_filter)
  then have d: "distinct cs" unfolding cs by (simp add: distinct_map)
  have mem: "c \<in> set cs \<longleftrightarrow> cell_ok c \<and> c \<in> S \<and> bt_get m (cell_key c) \<noteq> None" for c
  proof
    assume c: "c \<in> set cs"
    then have "cell_key c \<in> set (map fst ?es)" by (simp add: cs)
    then show "cell_ok c \<and> c \<in> S \<and> bt_get m (cell_key c) \<noteq> None"
      using ok c P [of c] by (auto simp: bt_get_None_iff)
  next
    assume c: "cell_ok c \<and> c \<in> S \<and> bt_get m (cell_key c) \<noteq> None"
    then obtain v where "(cell_key c, v) \<in> set m" using bt_get_SomeD by fastforce
    then have "(cell_key c, v) \<in> set ?es" using P [of c] c by simp
    then have "cell_key c \<in> set (map fst ?es)" by force
    then have "cell_key c \<in> cell_key ` set cs" by (simp add: cs)
    then obtain d where "d \<in> set cs" and "cell_key c = cell_key d" by blast
    with c ok cell_key_inject [of c d] show "c \<in> set cs" by simp
  qed
  have "map snd ?es = map (\<lambda>k. the (bt_get m k)) (map fst ?es)"
    using wf by (auto simp: bt_get_eq_Some_iff [symmetric])
  also have "\<dots> = map (\<lambda>c. the (if cell_ok c then bt_get m (cell_key c) else None)) cs"
    using ok by (simp add: cs)
  finally show thesis using d mem by (intro that [of cs]) auto
qed

lemma children_of: "nodes_ok fs \<Longrightarrow> q \<in> set (child_paths fs p) \<longleftrightarrow> (\<exists>x. q = p @ [x]) \<and> node_at fs q \<noteq> None"
  by (cases q rule: rev_cases)
    (auto simp: child_paths_def node_at_def bt_get_None_iff nodes_ok_def image_iff)

lemma distinct_children: "nodes_ok fs \<Longrightarrow> distinct (child_paths fs p)"
  by (simp add: child_paths_def nodes_ok_def bt_wf_distinct)

lemma distinct_concat_parents:
  assumes "distinct ds" and "\<forall>d \<in> set ds. distinct (f d) \<and> (\<forall>p \<in> set (f d). butlast p = d)"
  shows "distinct (concat (map f ds))"
  using assms by (induction ds) auto

text \<open>The files of a listing, as cells.\<close>

lemma file_listing:
  assumes ok: "fs_ok env root fs" and d: "distinct ps"
    and ps: "\<And>p. p \<in> set ps \<Longrightarrow> node_at fs p \<noteq> None \<and> (\<exists>n h x. p = root @ [str ''objects'', n, h, x])"
    and S: "\<And>c. cell_ok c \<Longrightarrow> node_at fs (cell_object_path root c) \<noteq> None \<Longrightarrow> c \<in> S \<longleftrightarrow> cell_object_path root c \<in> set ps"
  obtains cs where "distinct cs" and "set cs = {c \<in> S. object_at env (FilesystemStore root fs) c \<noteq> None}"
    and "read_entries env ps fs = (Inr (map (\<lambda>c. the (object_at env (FilesystemStore root fs) c)) cs), fs)"
proof -
  let ?js = "filter (\<lambda>p. path_extension p = Some (str ''json'')) ps"
  have pre: "\<exists>c. cell_ok c \<and> p = cell_object_path root c" if "p \<in> set ?js" for p
  proof -
    from that ps obtain n h x f where p: "p = root @ [str ''objects'', n, h, x]" and f: "node_at fs p = Some f"
      and e: "path_extension [x] = Some (str ''json'')" by (fastforce simp: extension_four)
    have "kind_ok root fs (str ''objects'')" using ok by (simp add: fs_ok_def)
    then obtain bs where "f = FsFile bs" using f p kind_okD(4) by (cases f) auto
    then have "object_file_ok env n h x bs" using ok f p e unfolding fs_ok_def by blast
    then show ?thesis by (auto simp: object_file_ok_def cell_ok_def cell_object_path_def p)
  qed
  then obtain cs where cs: "?js = map (cell_object_path root) cs" and good: "\<forall>c \<in> set cs. cell_ok c"
    using ex_preimages [of ?js cell_ok "cell_object_path root"] by blast
  have "distinct ?js" using d by simp
  then have dc: "distinct cs" unfolding cs by (simp add: distinct_map)
  have mem: "c \<in> set cs \<longleftrightarrow> c \<in> S \<and> object_at env (FilesystemStore root fs) c \<noteq> None" for c
  proof
    assume c: "c \<in> set cs"
    then have "cell_object_path root c \<in> set ?js" by (simp add: cs)
    then have "cell_object_path root c \<in> set ps" by simp
    with ps c good S node_is_file(1) [OF ok] show "c \<in> S \<and> object_at env (FilesystemStore root fs) c \<noteq> None" by metis
  next
    assume c: "c \<in> S \<and> object_at env (FilesystemStore root fs) c \<noteq> None"
    then have k: "cell_ok c" by (auto simp: object_at_def split: if_splits)
    with c S node_is_file(1) [OF ok k] object_extension [OF k] have "cell_object_path root c \<in> set ?js" by auto
    then show "c \<in> set cs" unfolding cs by (auto simp: object_path_inject)
  qed
  have val: "file_value env fs (cell_object_path root c) = object_at env (FilesystemStore root fs) c" if "c \<in> set cs" for c
    using that good by (simp add: object_at_def)
  have "\<forall>p \<in> set ps. path_extension p = Some (str ''json'') \<longrightarrow> file_value env fs p \<noteq> None"
  proof (intro ballI impI)
    fix p assume "p \<in> set ps" and "path_extension p = Some (str ''json'')"
    then have "p \<in> set ?js" by simp
    then obtain c where "c \<in> set cs" and "p = cell_object_path root c" unfolding cs by auto
    then show "file_value env fs p \<noteq> None" using val mem by simp
  qed
  from read_entries_quiet [OF quiet_ok [OF ok] this] have
    "read_entries env ps fs = (Inr (map (\<lambda>c. the (object_at env (FilesystemStore root fs) c)) cs), fs)"
    unfolding cs using val by simp
  then show thesis using dc mem by (intro that [of cs]) auto
qed

lemma lawful_order:
  assumes "durable_lawful env"
  shows "set (du_entry_order env ps) = set ps" and "distinct (du_entry_order env ps) = distinct ps"
  using assms mset_eq_setD mset_eq_imp_distinct_iff unfolding durable_lawful_def by metis+

lemma directory_listing:
  assumes ok: "fs_ok env root fs" and law: "durable_lawful env"
  obtains cs where "distinct cs"
    and "set cs = {c \<in> {c. fst c = n \<and> fst (snd c) = tenant_hash env t}. object_at env (FilesystemStore root fs) c \<noteq> None}"
    and "read_object_directory env (object_directory env root n t) fs
      = (Inr (map (\<lambda>c. the (object_at env (FilesystemStore root fs) c)) cs), fs)"
proof -
  let ?d = "root @ [str ''objects'', n, tenant_hash env t]"
  let ?S = "{c :: cell. fst c = n \<and> fst (snd c) = tenant_hash env t}"
  have dir: "object_directory env root n t = ?d" by (simp add: object_directory_def)
  have ko: "kind_ok root fs (str ''objects'')" and nok: "nodes_ok fs" using ok by (simp_all add: fs_ok_def)
  have quiet: "fs_faults fs = []" by (rule quiet_ok [OF ok])
  show thesis
  proof (cases "node_at fs ?d")
    case None
    have "object_at env (FilesystemStore root fs) c = None" if c: "c \<in> ?S" for c
    proof (rule ccontr)
      assume a: "object_at env (FilesystemStore root fs) c \<noteq> None"
      then have "cell_ok c" by (auto simp: object_at_def split: if_splits)
      with a node_is_file(1) [OF ok] have "node_at fs (cell_object_path root c) \<noteq> None" by blast
      then obtain f where "node_at fs (root @ [str ''objects'', n, tenant_hash env t, snd (snd c) @ str ''.json'']) = Some f"
        using c by (cases c) (auto simp: cell_object_path_def)
      from kind_okD(5) [OF ko this] None show False by simp
    qed
    then show thesis
      using None quiet by (intro that [of "[]"]) (auto simp: dir read_object_directory_def read_dir_def fs_call_quiet)
  next
    case (Some f)
    with kind_okD(3) [OF ko, of n "tenant_hash env t"] have f: "node_at fs ?d = Some FsDir" by (cases f) auto
    let ?ps = "du_entry_order env (child_paths fs ?d)"
    have paths: "\<And>p. p \<in> set ?ps \<Longrightarrow> node_at fs p \<noteq> None \<and> (\<exists>n h x. p = root @ [str ''objects'', n, h, x])"
      by (auto simp: lawful_order [OF law] children_of [OF nok])
    have members: "\<And>c. cell_ok c \<Longrightarrow> node_at fs (cell_object_path root c) \<noteq> None \<Longrightarrow>
        c \<in> ?S \<longleftrightarrow> cell_object_path root c \<in> set ?ps"
      by (auto simp: lawful_order [OF law] children_of [OF nok] cell_object_path_def split: prod.splits)
    have d: "distinct ?ps" by (simp add: lawful_order [OF law] distinct_children [OF nok])
    have run: "read_object_directory env (object_directory env root n t) fs = read_entries env ?ps fs"
      using f quiet by (simp add: dir read_object_directory_def read_dir_def fs_call_quiet)
    show thesis
      by (rule file_listing [OF ok d paths members]) (assumption, assumption, assumption, rule that, simp_all add: run)
  qed
qed

lemma read_entries_values:
  assumes "fs_faults fs = []"
    and "\<forall>d \<in> set ds. node_at fs d = Some FsDir
      \<and> (\<forall>p \<in> set (du_entry_order env (child_paths fs d)).
           path_extension p = Some (str ''json'') \<longrightarrow> file_value env fs p \<noteq> None)"
  shows "read_tenant_entries env ds fs = read_entries env (concat (map (\<lambda>d. du_entry_order env (child_paths fs d)) ds)) fs"
  using read_tenant_entries_quiet [OF assms] assms(2)
  by (subst read_entries_quiet [OF assms(1)]) auto

lemma json_files_parse:
  assumes ok: "fs_ok env root fs" and "node_at fs p \<noteq> None" and p: "p = root @ [str ''objects'', n, h, x]"
    and e: "path_extension p = Some (str ''json'')"
  shows "file_value env fs p \<noteq> None"
proof -
  from assms(2) obtain f where f: "node_at fs p = Some f" by auto
  have "kind_ok root fs (str ''objects'')" using ok by (simp add: fs_ok_def)
  then obtain bs where b: "f = FsFile bs" using f p kind_okD(4) by (cases f) auto
  then have "object_file_ok env n h x bs" using ok f p e unfolding fs_ok_def by (auto simp: extension_four)
  then show ?thesis using f b by (auto simp: file_value_def object_file_ok_def)
qed

lemma namespace_listing:
  assumes ok: "fs_ok env root fs" and law: "durable_lawful env"
  obtains cs where "distinct cs"
    and "set cs = {c \<in> {c. fst c = n}. object_at env (FilesystemStore root fs) c \<noteq> None}"
    and "read_namespace_directory env (root @ [str ''objects'', n]) fs
      = (Inr (map (\<lambda>c. the (object_at env (FilesystemStore root fs) c)) cs), fs)"
proof -
  let ?d = "root @ [str ''objects'', n]"
  let ?S = "{c :: cell. fst c = n}"
  have ko: "kind_ok root fs (str ''objects'')" and nok: "nodes_ok fs" using ok by (simp_all add: fs_ok_def)
  have quiet: "fs_faults fs = []" by (rule quiet_ok [OF ok])
  have up: "node_at fs (root @ [str ''objects'', n, h]) \<noteq> None"
    if "object_at env (FilesystemStore root fs) (n, h, i) \<noteq> None" for h i
  proof -
    from that have "cell_ok (n, h, i)" by (auto simp: object_at_def split: if_splits)
    with that node_is_file(1) [OF ok] have "node_at fs (cell_object_path root (n, h, i)) \<noteq> None" by blast
    then obtain f where "node_at fs (root @ [str ''objects'', n, h, i @ str ''.json'']) = Some f"
      by (auto simp: cell_object_path_def)
    from kind_okD(5) [OF ko this] show ?thesis by simp
  qed
  show thesis
  proof (cases "node_at fs ?d")
    case None
    have "object_at env (FilesystemStore root fs) c = None" if "c \<in> ?S" for c
      using up kind_okD(6) [OF ko] None that by (cases c) fastforce
    then show thesis
      using None quiet by (intro that [of "[]"]) (auto simp: read_namespace_directory_def read_dir_def fs_call_quiet)
  next
    case (Some f)
    with kind_okD(2) [OF ko, of n] have f: "node_at fs ?d = Some FsDir" by (cases f) auto
    let ?ds = "du_entry_order env (child_paths fs ?d)"
    let ?f = "\<lambda>d. du_entry_order env (child_paths fs d)"
    let ?ps = "concat (map ?f ?ds)"
    have ds: "d \<in> set ?ds \<longleftrightarrow> (\<exists>h. d = root @ [str ''objects'', n, h]) \<and> node_at fs d \<noteq> None" for d
      by (auto simp: lawful_order [OF law] children_of [OF nok])
    have ds_dir: "node_at fs d = Some FsDir" if "d \<in> set ?ds" for d
    proof -
      from that obtain h g where d: "d = root @ [str ''objects'', n, h]" and g: "node_at fs d = Some g" by (auto simp: ds)
      from kind_okD(3) [OF ko, of n h] g d show ?thesis by (cases g) auto
    qed
    have ps: "p \<in> set (?f d) \<Longrightarrow> d \<in> set ?ds \<Longrightarrow> node_at fs p \<noteq> None \<and> (\<exists>h x. p = root @ [str ''objects'', n, h, x])" for d p
      by (auto simp: lawful_order [OF law] children_of [OF nok])
    have paths: "\<And>p. p \<in> set ?ps \<Longrightarrow> node_at fs p \<noteq> None \<and> (\<exists>n h x. p = root @ [str ''objects'', n, h, x])"
      using ps by fastforce
    have members: "c \<in> ?S \<longleftrightarrow> cell_object_path root c \<in> set ?ps"
      if "cell_ok c" and node: "node_at fs (cell_object_path root c) \<noteq> None" for c
    proof -
      obtain n' h i where c: "c = (n', h, i)" by (cases c)
      show ?thesis
      proof
        assume "c \<in> ?S"
        then have n: "n' = n" by (simp add: c)
        have "object_at env (FilesystemStore root fs) (n, h, i) \<noteq> None"
          using node_is_file(1) [OF ok that(1)] node by (simp add: c n)
        then have "root @ [str ''objects'', n, h] \<in> set ?ds" using up by (simp add: ds)
        moreover have "cell_object_path root c \<in> set (?f (root @ [str ''objects'', n, h]))"
          using node by (simp add: lawful_order [OF law] children_of [OF nok] cell_object_path_def c n)
        ultimately show "cell_object_path root c \<in> set ?ps" by auto
      next
        assume "cell_object_path root c \<in> set ?ps"
        then show "c \<in> ?S" using ps by (fastforce simp: c cell_object_path_def)
      qed
    qed
    have d: "distinct ?ps"
      by (rule distinct_concat_parents)
        (auto simp: lawful_order [OF law] distinct_children [OF nok] children_of [OF nok] butlast_append)
    have "read_tenant_entries env ?ds fs = read_entries env ?ps fs"
      using ds_dir ps json_files_parse [OF ok] by (intro read_entries_values [OF quiet]) blast
    then have run: "read_namespace_directory env ?d fs = read_entries env ?ps fs"
      using f quiet by (simp add: read_namespace_directory_def read_dir_def fs_call_quiet)
    show thesis
      by (rule file_listing [OF ok d paths members]) (assumption, assumption, assumption, rule that, simp_all add: run)
  qed
qed

end
