(* ===== verification/Api_Durable_Spec.thy ===== *)
theory Api_Durable_Spec
  imports Api_Durable_Refine "HOL-Library.Countable"
begin

text \<open>
  The durable store as one machine: its operations in one datatype, the abstract store they refine, and
  what follows for its two backends, for the tenants and for a store that is opened again.
\<close>

section \<open>The backends keep the contract\<close>

definition put_object :: "durable_env \<Rightarrow> ustr \<times> ustr \<times> ustr \<Rightarrow> json \<Rightarrow> durable_store \<Rightarrow> (ustr + unit) \<times> durable_store" where
  "put_object env k v st = (case k of (n, t, i) \<Rightarrow> durable_put_json env Inr n t i v st)"

definition get_object :: "durable_env \<Rightarrow> ustr \<times> ustr \<times> ustr \<Rightarrow> durable_store \<Rightarrow> (ustr + json option) \<times> durable_store" where
  "get_object env k st = (case k of (n, t, i) \<Rightarrow> durable_get_json env Inr n t i st)"

definition delete_object :: "durable_env \<Rightarrow> ustr \<times> ustr \<times> ustr \<Rightarrow> durable_store \<Rightarrow> (ustr + bool) \<times> durable_store" where
  "delete_object env k st = (case k of (n, t, i) \<Rightarrow> durable_delete_json env n t i st)"

definition put_bytes :: "durable_env \<Rightarrow> ustr \<times> ustr \<times> ustr \<Rightarrow> nat list \<Rightarrow> durable_store \<Rightarrow> (ustr + unit) \<times> durable_store" where
  "put_bytes env k v st = (case k of (n, t, i) \<Rightarrow> durable_put_blob env n t i v st)"

definition get_bytes :: "durable_env \<Rightarrow> ustr \<times> ustr \<times> ustr \<Rightarrow> durable_store \<Rightarrow> (ustr + nat list option) \<times> durable_store" where
  "get_bytes env k st = (case k of (n, t, i) \<Rightarrow> durable_get_blob env n t i st)"

definition delete_bytes :: "durable_env \<Rightarrow> ustr \<times> ustr \<times> ustr \<Rightarrow> durable_store \<Rightarrow> (ustr + bool) \<times> durable_store" where
  "delete_bytes env k st = (case k of (n, t, i) \<Rightarrow> durable_delete_blob env n t i st)"

text \<open>A listing of the objects of a tenant, or of all tenants.\<close>

definition list_objects :: "durable_env \<Rightarrow> ustr \<times> ustr option \<Rightarrow> durable_store \<Rightarrow> (ustr + json list) \<times> durable_store" where
  "list_objects env q st =
     (case q of
        (n, Some t) \<Rightarrow> durable_list_json env Inr n t st
      | (n, None) \<Rightarrow> durable_list_all_json env Inr n st)"

definition list_scope :: "durable_env \<Rightarrow> ustr \<times> ustr option \<Rightarrow> cell set" where
  "list_scope env q =
     (case q of
        (n, Some t) \<Rightarrow> {c. fst c = n \<and> fst (snd c) = tenant_hash env t}
      | (n, None) \<Rightarrow> {c. fst c = n})"

lemma invE:
  assumes "durable_inv env st"
  obtains "durable_lawful env"
    and "(\<exists>os bs. st = MemoryStore os bs \<and> keys_ok os \<and> keys_ok bs) \<or> (\<exists>root fs. st = FilesystemStore root fs \<and> fs_ok env root fs)"
  using assms by (cases st) (auto simp: durable_inv_def)

lemma put_object_law:
  assumes "durable_inv env st" and k: "key_ok k" and v: "json_storable env v"
  shows "\<exists>st'. put_object env k v st = (Inr (), st') \<and> durable_inv env st'
      \<and> object_at env st' = (object_at env st)(key_cell env k \<mapsto> v) \<and> blob_at st' = blob_at st"
  using assms(1)
proof (rule invE)
  obtain n t i where e: "k = (n, t, i)" by (cases k)
  assume law: "durable_lawful env"
  note c = key_cell_ok [OF law k]
  assume "(\<exists>os bs. st = MemoryStore os bs \<and> keys_ok os \<and> keys_ok bs) \<or> (\<exists>root fs. st = FilesystemStore root fs \<and> fs_ok env root fs)"
  then show ?thesis
  proof (elim disjE exE conjE)
    fix os bs assume "st = MemoryStore os bs" "keys_ok os" "keys_ok bs"
    then show ?thesis
      using c law k by (simp add: put_object_def e durable_put_json_def validate_key_ok key_cell_paths durable_inv_def
          keys_ok_insert object_at_memory blob_at_memory memory_lookup_insert)
  next
    fix root fs assume st: "st = FilesystemStore root fs" and ok: "fs_ok env root fs"
    obtain b where b: "du_to_vec env v = Inr b" "du_from_slice env b = Inr v" using v by (auto simp: json_storable_def)
    show ?thesis
    proof (rule put_object_file [OF ok c b(2)])
      fix fs' assume "write_atomic env (cell_object_path root (key_cell env k)) b fs = (Inr (), fs')" and "fs_ok env root fs'"
        and "object_at env (FilesystemStore root fs') = (object_at env (FilesystemStore root fs))(key_cell env k \<mapsto> v)"
        and "blob_at (FilesystemStore root fs') = blob_at (FilesystemStore root fs)"
      then show ?thesis
        using law k b by (simp add: st put_object_def e durable_put_json_def validate_key_ok key_cell_paths durable_inv_def
            keep_root_def)
    qed
  qed
qed

lemma get_object_law:
  assumes "durable_inv env st" and k: "key_ok k"
  shows "get_object env k st = (Inr (object_at env st (key_cell env k)), st)"
  using assms(1)
proof (rule invE)
  obtain n t i where e: "k = (n, t, i)" by (cases k)
  assume law: "durable_lawful env"
  note c = key_cell_ok [OF law k]
  assume "(\<exists>os bs. st = MemoryStore os bs \<and> keys_ok os \<and> keys_ok bs) \<or> (\<exists>root fs. st = FilesystemStore root fs \<and> fs_ok env root fs)"
  then show ?thesis
  proof (elim disjE exE conjE)
    fix os bs assume "st = MemoryStore os bs"
    then show ?thesis
      using c k by (simp add: get_object_def e durable_get_json_def get_value_def validate_key_ok key_cell_paths
          object_at_memory split: option.split)
  next
    fix root fs assume st: "st = FilesystemStore root fs" and ok: "fs_ok env root fs"
    show ?thesis
      using read_object_file [OF ok c] k
      by (simp add: st get_object_def e durable_get_json_def get_value_def validate_key_ok key_cell_paths keep_root_def
          split: option.split)
  qed
qed

lemma delete_object_law:
  assumes "durable_inv env st" and k: "key_ok k"
  shows "\<exists>st'. delete_object env k st = (Inr (object_at env st (key_cell env k) \<noteq> None), st') \<and> durable_inv env st'
      \<and> object_at env st' = (object_at env st)(key_cell env k := None) \<and> blob_at st' = blob_at st"
  using assms(1)
proof (rule invE)
  obtain n t i where e: "k = (n, t, i)" by (cases k)
  assume law: "durable_lawful env"
  note c = key_cell_ok [OF law k]
  assume "(\<exists>os bs. st = MemoryStore os bs \<and> keys_ok os \<and> keys_ok bs) \<or> (\<exists>root fs. st = FilesystemStore root fs \<and> fs_ok env root fs)"
  then show ?thesis
  proof (elim disjE exE conjE)
    fix os bs assume "st = MemoryStore os bs" "keys_ok os" "keys_ok bs"
    then show ?thesis
      using c law k by (simp add: delete_object_def e durable_delete_json_def validate_key_ok key_cell_paths durable_inv_def
          keys_ok_remove object_at_memory blob_at_memory memory_lookup_remove Let_def bt_contains_def)
  next
    fix root fs assume st: "st = FilesystemStore root fs" and ok: "fs_ok env root fs"
    show ?thesis
    proof (rule remove_object_file [OF ok c])
      fix fs' assume "remove_present (cell_object_path root (key_cell env k)) fs =
          (Inr (object_at env (FilesystemStore root fs) (key_cell env k) \<noteq> None), fs')" and "fs_ok env root fs'"
        and "object_at env (FilesystemStore root fs') = (object_at env (FilesystemStore root fs))(key_cell env k := None)"
        and "blob_at (FilesystemStore root fs') = blob_at (FilesystemStore root fs)"
      then show ?thesis
        using law k by (simp add: st delete_object_def e durable_delete_json_def validate_key_ok key_cell_paths
            durable_inv_def keep_root_def)
    qed
  qed
qed

lemma put_bytes_law:
  assumes "durable_inv env st" and k: "key_ok k"
  shows "\<exists>st'. put_bytes env k v st = (Inr (), st') \<and> durable_inv env st'
      \<and> blob_at st' = (blob_at st)(key_cell env k \<mapsto> v) \<and> object_at env st' = object_at env st"
  using assms(1)
proof (rule invE)
  obtain n t i where e: "k = (n, t, i)" by (cases k)
  assume law: "durable_lawful env"
  note c = key_cell_ok [OF law k]
  assume "(\<exists>os bs. st = MemoryStore os bs \<and> keys_ok os \<and> keys_ok bs) \<or> (\<exists>root fs. st = FilesystemStore root fs \<and> fs_ok env root fs)"
  then show ?thesis
  proof (elim disjE exE conjE)
    fix os bs assume "st = MemoryStore os bs" "keys_ok os" "keys_ok bs"
    then show ?thesis
      using c law k by (simp add: put_bytes_def e durable_put_blob_def validate_key_ok key_cell_paths durable_inv_def
          keys_ok_insert object_at_memory blob_at_memory memory_lookup_insert)
  next
    fix root fs assume st: "st = FilesystemStore root fs" and ok: "fs_ok env root fs"
    show ?thesis
    proof (rule put_blob_file [OF ok c, of v])
      fix fs' assume "write_atomic env (cell_blob_path root (key_cell env k)) v fs = (Inr (), fs')" and "fs_ok env root fs'"
        and "blob_at (FilesystemStore root fs') = (blob_at (FilesystemStore root fs))(key_cell env k \<mapsto> v)"
        and "object_at env (FilesystemStore root fs') = object_at env (FilesystemStore root fs)"
      then show ?thesis
        using law k by (simp add: st put_bytes_def e durable_put_blob_def validate_key_ok key_cell_paths durable_inv_def
            keep_root_def)
    qed
  qed
qed

lemma get_bytes_law:
  assumes "durable_inv env st" and k: "key_ok k"
  shows "get_bytes env k st = (Inr (blob_at st (key_cell env k)), st)"
  using assms(1)
proof (rule invE)
  obtain n t i where e: "k = (n, t, i)" by (cases k)
  assume law: "durable_lawful env"
  note c = key_cell_ok [OF law k]
  assume "(\<exists>os bs. st = MemoryStore os bs \<and> keys_ok os \<and> keys_ok bs) \<or> (\<exists>root fs. st = FilesystemStore root fs \<and> fs_ok env root fs)"
  then show ?thesis
  proof (elim disjE exE conjE)
    fix os bs assume "st = MemoryStore os bs"
    then show ?thesis
      using c k by (simp add: get_bytes_def e durable_get_blob_def validate_key_ok key_cell_paths blob_at_memory)
  next
    fix root fs assume st: "st = FilesystemStore root fs" and ok: "fs_ok env root fs"
    show ?thesis
      using read_blob_file [OF ok c] k
      by (simp add: st get_bytes_def e durable_get_blob_def validate_key_ok key_cell_paths keep_root_def)
  qed
qed

lemma delete_bytes_law:
  assumes "durable_inv env st" and k: "key_ok k"
  shows "\<exists>st'. delete_bytes env k st = (Inr (blob_at st (key_cell env k) \<noteq> None), st') \<and> durable_inv env st'
      \<and> blob_at st' = (blob_at st)(key_cell env k := None) \<and> object_at env st' = object_at env st"
  using assms(1)
proof (rule invE)
  obtain n t i where e: "k = (n, t, i)" by (cases k)
  assume law: "durable_lawful env"
  note c = key_cell_ok [OF law k]
  assume "(\<exists>os bs. st = MemoryStore os bs \<and> keys_ok os \<and> keys_ok bs) \<or> (\<exists>root fs. st = FilesystemStore root fs \<and> fs_ok env root fs)"
  then show ?thesis
  proof (elim disjE exE conjE)
    fix os bs assume "st = MemoryStore os bs" "keys_ok os" "keys_ok bs"
    then show ?thesis
      using c law k by (simp add: delete_bytes_def e durable_delete_blob_def validate_key_ok key_cell_paths durable_inv_def
          keys_ok_remove object_at_memory blob_at_memory memory_lookup_remove Let_def bt_contains_def)
  next
    fix root fs assume st: "st = FilesystemStore root fs" and ok: "fs_ok env root fs"
    show ?thesis
    proof (rule remove_blob_file [OF ok c])
      fix fs' assume "remove_present (cell_blob_path root (key_cell env k)) fs =
          (Inr (blob_at (FilesystemStore root fs) (key_cell env k) \<noteq> None), fs')" and "fs_ok env root fs'"
        and "blob_at (FilesystemStore root fs') = (blob_at (FilesystemStore root fs))(key_cell env k := None)"
        and "object_at env (FilesystemStore root fs') = object_at env (FilesystemStore root fs)"
      then show ?thesis
        using law k by (simp add: st delete_bytes_def e durable_delete_blob_def validate_key_ok key_cell_paths
            durable_inv_def keep_root_def)
    qed
  qed
qed

lemma list_objects_law:
  assumes "durable_inv env st" and n: "component_ok (fst q)"
  shows "\<exists>cs. distinct cs \<and> set cs = {c \<in> list_scope env q. object_at env st c \<noteq> None}
      \<and> list_objects env q st = (Inr (map (\<lambda>c. the (object_at env st c)) cs), st)"
  using assms(1)
proof (rule invE)
  assume law: "durable_lawful env"
  have v: "validate_durable (str ''namespace'') (fst q) = Inr ()" using n by (simp add: validate_durable_def)
  have decode: "decode_answers Inr (Inr vs, st) = (Inr vs, st)" for vs :: "json list"
    by (simp add: decode_answers_def collect_answers_Inr)
  assume "(\<exists>os bs. st = MemoryStore os bs \<and> keys_ok os \<and> keys_ok bs) \<or> (\<exists>root fs. st = FilesystemStore root fs \<and> fs_ok env root fs)"
  then show ?thesis
  proof (elim disjE exE conjE)
    fix os bs assume st: "st = MemoryStore os bs" and ok: "keys_ok os"
    define P where "P k = (case q of (n, Some t) \<Rightarrow> starts_with k (hashed_key n (tenant_hash env t) [])
        | (n, None) \<Rightarrow> starts_with k (n @ str '':''))" for k
    have h: "hash_ok (tenant_hash env t)" for t using law by (simp add: durable_lawful_def tenant_hash_def)
    have P: "P (cell_key c) \<longleftrightarrow> c \<in> list_scope env q" if "cell_ok c" for c
      using that n h by (cases q; cases c) (auto simp: P_def list_scope_def cell_key_def cell_ok_def hashed_key_prefix
          namespace_prefix split: option.splits)
    have run: "list_objects env q st = (Inr (map snd (filter (\<lambda>e. P (fst e)) os)), st)"
      using v decode by (cases q; cases "snd q")
        (simp_all add: list_objects_def durable_list_json_def durable_list_all_json_def st P_def)
    show ?thesis
    proof (rule memory_listing [OF ok P])
      fix cs :: "cell list"
      assume "distinct cs"
        and "set cs = {c \<in> list_scope env q. (if cell_ok c then bt_get os (cell_key c) else None) \<noteq> None}"
        and "map snd (filter (\<lambda>e. P (fst e)) os) = map (\<lambda>c. the (if cell_ok c then bt_get os (cell_key c) else None)) cs"
      then show ?thesis by (intro exI [of _ cs]) (simp add: run [unfolded st] st object_at_memory)
    qed assumption
  next
    fix root fs assume st: "st = FilesystemStore root fs" and ok: "fs_ok env root fs"
    show ?thesis
    proof (cases "snd q")
      case None
      then obtain n where q: "q = (n, None)" by (cases q) simp
      show ?thesis
      proof (rule namespace_listing [OF ok law, of n])
        fix cs :: "cell list"
        assume "distinct cs" and "set cs = {c \<in> {c. fst c = n}. object_at env (FilesystemStore root fs) c \<noteq> None}"
          and "read_namespace_directory env (root @ [str ''objects'', n]) fs
            = (Inr (map (\<lambda>c. the (object_at env (FilesystemStore root fs) c)) cs), fs)"
        then show ?thesis
          using v decode by (intro exI [of _ cs])
            (simp add: st q list_objects_def durable_list_all_json_def list_scope_def keep_root_def)
      qed
    next
      case (Some t)
      then obtain n where q: "q = (n, Some t)" by (cases q) simp
      show ?thesis
      proof (rule directory_listing [OF ok law, of n t])
        fix cs :: "cell list"
        assume "distinct cs" and "set cs = {c \<in> {c. fst c = n \<and> fst (snd c) = tenant_hash env t}.
              object_at env (FilesystemStore root fs) c \<noteq> None}"
          and "read_object_directory env (object_directory env root n t) fs
            = (Inr (map (\<lambda>c. the (object_at env (FilesystemStore root fs) c)) cs), fs)"
        then show ?thesis
          using v decode by (intro exI [of _ cs])
            (simp add: st q list_objects_def durable_list_json_def list_scope_def keep_root_def)
      qed
    qed
  qed
qed

interpretation objects: listed_store "put_object env" "get_object env" "delete_object env" "object_at env" "key_cell env"
  key_ok "json_storable env" "durable_inv env" blob_at "list_objects env" "list_scope env" "\<lambda>q. component_ok (fst q)" for env
  by unfold_locales (fact put_object_law, fact get_object_law, fact delete_object_law, fact list_objects_law)

interpretation blobs: cell_store "put_bytes env" "get_bytes env" "delete_bytes env" blob_at "key_cell env"
  key_ok "\<lambda>_. True" "durable_inv env" "object_at env" for env
  by unfold_locales ((rule put_bytes_law get_bytes_law delete_bytes_law, assumption, assumption)+)

section \<open>The abstract store\<close>

datatype durable_op =
    PutObject "ustr \<times> ustr \<times> ustr" json
  | GetObject "ustr \<times> ustr \<times> ustr"
  | DeleteObject "ustr \<times> ustr \<times> ustr"
  | ListObjects "ustr \<times> ustr option"
  | PutBlob "ustr \<times> ustr \<times> ustr" "nat list"
  | GetBlob "ustr \<times> ustr \<times> ustr"
  | DeleteBlob "ustr \<times> ustr \<times> ustr"

datatype durable_answer =
    Kept
  | FoundObject "json option"
  | FoundBlob "nat list option"
  | Removed bool
  | Listed "json multiset"
  | RefusedWith ustr

definition answer_with :: "('a \<Rightarrow> durable_answer) \<Rightarrow> (ustr + 'a) \<times> durable_store \<Rightarrow> durable_answer \<times> durable_store" where
  "answer_with f r = ((case fst r of Inl e \<Rightarrow> RefusedWith e | Inr x \<Rightarrow> f x), snd r)"

fun durable_step :: "durable_env \<Rightarrow> durable_op \<Rightarrow> durable_store \<Rightarrow> durable_answer \<times> durable_store" where
  "durable_step env (PutObject k v) st = answer_with (\<lambda>_. Kept) (put_object env k v st)"
| "durable_step env (GetObject k) st = answer_with FoundObject (get_object env k st)"
| "durable_step env (DeleteObject k) st = answer_with Removed (delete_object env k st)"
| "durable_step env (ListObjects q) st = answer_with (\<lambda>vs. Listed (mset vs)) (list_objects env q st)"
| "durable_step env (PutBlob k v) st = answer_with (\<lambda>_. Kept) (put_bytes env k v st)"
| "durable_step env (GetBlob k) st = answer_with FoundBlob (get_bytes env k st)"
| "durable_step env (DeleteBlob k) st = answer_with Removed (delete_bytes env k st)"

type_synonym abstract_store = "(cell \<Rightarrow> json option) \<times> (cell \<Rightarrow> nat list option)"

definition durable_abs :: "durable_env \<Rightarrow> durable_store \<Rightarrow> abstract_store" where
  "durable_abs env st = (object_at env st, blob_at st)"

text \<open>An operation on a cell, refused when its namespace or identifier is no component.\<close>

definition checked :: "ustr \<times> ustr \<times> ustr \<Rightarrow> durable_answer \<times> abstract_store \<Rightarrow> abstract_store \<Rightarrow> durable_answer \<times> abstract_store" where
  "checked k r a =
     (if \<not> component_ok (fst k) then (RefusedWith (str ''invalid durable namespace''), a)
      else if \<not> component_ok (snd (snd k)) then (RefusedWith (str ''invalid durable id''), a)
      else r)"

fun spec_step :: "durable_env \<Rightarrow> durable_op \<Rightarrow> abstract_store \<Rightarrow> durable_answer \<times> abstract_store" where
  "spec_step env (PutObject k v) (os, bs) = checked k (Kept, (os(key_cell env k \<mapsto> v), bs)) (os, bs)"
| "spec_step env (GetObject k) (os, bs) = checked k (FoundObject (os (key_cell env k)), (os, bs)) (os, bs)"
| "spec_step env (DeleteObject k) (os, bs) =
     checked k (Removed (os (key_cell env k) \<noteq> None), (os(key_cell env k := None), bs)) (os, bs)"
| "spec_step env (ListObjects q) (os, bs) =
     (if \<not> component_ok (fst q) then (RefusedWith (str ''invalid durable namespace''), (os, bs))
      else (Listed (image_mset (\<lambda>c. the (os c)) (mset_set {c \<in> list_scope env q. os c \<noteq> None})), (os, bs)))"
| "spec_step env (PutBlob k v) (os, bs) = checked k (Kept, (os, bs(key_cell env k \<mapsto> v))) (os, bs)"
| "spec_step env (GetBlob k) (os, bs) = checked k (FoundBlob (bs (key_cell env k)), (os, bs)) (os, bs)"
| "spec_step env (DeleteBlob k) (os, bs) =
     checked k (Removed (bs (key_cell env k) \<noteq> None), (os, bs(key_cell env k := None))) (os, bs)"

fun op_storable :: "durable_env \<Rightarrow> durable_op \<Rightarrow> bool" where
  "op_storable env (PutObject k v) = json_storable env v"
| "op_storable env _ = True"

lemma refused_step:
  assumes "\<not> key_ok k"
  shows "put_object env k v st = (Inl (if component_ok (fst k) then str ''invalid durable id'' else str ''invalid durable namespace''), st)"
    "get_object env k st = (Inl (if component_ok (fst k) then str ''invalid durable id'' else str ''invalid durable namespace''), st)"
    "delete_object env k st = (Inl (if component_ok (fst k) then str ''invalid durable id'' else str ''invalid durable namespace''), st)"
    "put_bytes env k b st = (Inl (if component_ok (fst k) then str ''invalid durable id'' else str ''invalid durable namespace''), st)"
    "get_bytes env k st = (Inl (if component_ok (fst k) then str ''invalid durable id'' else str ''invalid durable namespace''), st)"
    "delete_bytes env k st = (Inl (if component_ok (fst k) then str ''invalid durable id'' else str ''invalid durable namespace''), st)"
proof -
  obtain n t i where k: "k = (n, t, i)" by (cases k)
  have "validate_key n i = Inl (if component_ok n then str ''invalid durable id'' else str ''invalid durable namespace'')"
    using assms by (auto simp: k key_ok_def validate_key_def validate_durable_def str_def)
  then show
    "put_object env k v st = (Inl (if component_ok (fst k) then str ''invalid durable id'' else str ''invalid durable namespace''), st)"
    "get_object env k st = (Inl (if component_ok (fst k) then str ''invalid durable id'' else str ''invalid durable namespace''), st)"
    "delete_object env k st = (Inl (if component_ok (fst k) then str ''invalid durable id'' else str ''invalid durable namespace''), st)"
    "put_bytes env k b st = (Inl (if component_ok (fst k) then str ''invalid durable id'' else str ''invalid durable namespace''), st)"
    "get_bytes env k st = (Inl (if component_ok (fst k) then str ''invalid durable id'' else str ''invalid durable namespace''), st)"
    "delete_bytes env k st = (Inl (if component_ok (fst k) then str ''invalid durable id'' else str ''invalid durable namespace''), st)"
    by (simp_all add: k put_object_def get_object_def delete_object_def put_bytes_def get_bytes_def delete_bytes_def
        durable_put_json_def durable_get_json_def durable_delete_json_def durable_put_blob_def durable_get_blob_def
        durable_delete_blob_def)
qed

lemma checked_ok: "key_ok k \<Longrightarrow> checked k r a = r"
  by (auto simp: checked_def key_ok_def split: prod.splits)

lemma checked_refused:
  "\<not> key_ok k \<Longrightarrow> checked k r a =
    (RefusedWith (if component_ok (fst k) then str ''invalid durable id'' else str ''invalid durable namespace''), a)"
  by (auto simp: checked_def key_ok_def split: prod.splits)

lemma refused_listing:
  "\<not> component_ok (fst q) \<Longrightarrow> list_objects env q st = (Inl (str ''invalid durable namespace''), st)"
  by (auto simp: list_objects_def durable_list_json_def durable_list_all_json_def validate_durable_def str_def
      split: prod.splits option.splits)

lemma durable_step_refines:
  assumes inv: "durable_inv env st" and op: "op_storable env p" and s: "durable_step env p st = (a, st')"
  shows "spec_step env p (durable_abs env st) = (a, durable_abs env st') \<and> durable_inv env st'"
proof (cases p)
  case (PutObject k v)
  then show ?thesis
    using inv op s objects.put_law [of env st k v]
    by (cases "key_ok k") (auto simp: durable_abs_def answer_with_def checked_ok checked_refused refused_step)
next
  case (GetObject k)
  then show ?thesis
    using inv s objects.get_law [of env st k]
    by (cases "key_ok k") (auto simp: durable_abs_def answer_with_def checked_ok checked_refused refused_step)
next
  case (DeleteObject k)
  then show ?thesis
    using inv s objects.delete_law [of env st k]
    by (cases "key_ok k") (auto simp: durable_abs_def answer_with_def checked_ok checked_refused refused_step)
next
  case (ListObjects q)
  show ?thesis
  proof (cases "component_ok (fst q)")
    case True
    obtain vs where "list_objects env q st = (Inr vs, st)"
      and "mset vs = image_mset (\<lambda>c. the (object_at env st c)) (mset_set {c \<in> list_scope env q. object_at env st c \<noteq> None})"
      using objects.listed_values [OF inv, of q] True by blast
    with ListObjects s inv True show ?thesis
      by (auto simp: durable_abs_def answer_with_def)
  qed (use ListObjects s inv in \<open>auto simp: durable_abs_def answer_with_def refused_listing\<close>)
next
  case (PutBlob k v)
  then show ?thesis
    using inv s blobs.put_law [of env st k v]
    by (cases "key_ok k") (auto simp: durable_abs_def answer_with_def checked_ok checked_refused refused_step)
next
  case (GetBlob k)
  then show ?thesis
    using inv s blobs.get_law [of env st k]
    by (cases "key_ok k") (auto simp: durable_abs_def answer_with_def checked_ok checked_refused refused_step)
next
  case (DeleteBlob k)
  then show ?thesis
    using inv s blobs.delete_law [of env st k]
    by (cases "key_ok k") (auto simp: durable_abs_def answer_with_def checked_ok checked_refused refused_step)
qed

fun durable_run :: "durable_env \<Rightarrow> durable_op list \<Rightarrow> durable_store \<Rightarrow> durable_answer list \<times> durable_store" where
  "durable_run env [] st = ([], st)"
| "durable_run env (p # ps) st =
     (case durable_step env p st of (a, st') \<Rightarrow>
        (case durable_run env ps st' of (as, st'') \<Rightarrow> (a # as, st'')))"

lemma runs_agree:
  assumes "durable_inv env st" and "durable_inv env st2" and "durable_abs env st = durable_abs env st2"
    and "list_all (op_storable env) ps"
  shows "fst (durable_run env ps st) = fst (durable_run env ps st2)
    \<and> durable_abs env (snd (durable_run env ps st)) = durable_abs env (snd (durable_run env ps st2))"
  using assms
proof (induction ps arbitrary: st st2)
  case Nil
  then show ?case by simp
next
  case (Cons p ps)
  obtain a s where s: "durable_step env p st = (a, s)" by fastforce
  obtain a2 s2 where s2: "durable_step env p st2 = (a2, s2)" by fastforce
  have p: "op_storable env p" using Cons.prems by simp
  from durable_step_refines [OF Cons.prems(1) p s] durable_step_refines [OF Cons.prems(2) p s2] Cons.prems(3)
  have "a = a2" "durable_abs env s = durable_abs env s2" "durable_inv env s" "durable_inv env s2" by auto
  with Cons.IH [of s s2] Cons.prems(4) show ?case by (auto simp: s s2 split: prod.splits)
qed

text \<open>A store on disk stays on disk, under its root.\<close>

lemma step_on_disk: "\<exists>fs'. snd (durable_step env p (FilesystemStore root fs)) = FilesystemStore root fs'"
  by (cases p)
    (auto simp: answer_with_def put_object_def get_object_def delete_object_def list_objects_def put_bytes_def get_bytes_def
      delete_bytes_def durable_put_json_def durable_get_json_def durable_delete_json_def durable_list_json_def
      durable_list_all_json_def durable_put_blob_def durable_get_blob_def durable_delete_blob_def get_value_def decode_answers_def
      keep_root_def split: prod.splits sum.splits option.splits)

lemma run_on_disk:
  assumes "durable_inv env (FilesystemStore root fs)" and "list_all (op_storable env) ps"
  obtains fs' where "snd (durable_run env ps (FilesystemStore root fs)) = FilesystemStore root fs'" and "fs_ok env root fs'"
proof -
  have "\<exists>fs'. snd (durable_run env ps (FilesystemStore root fs)) = FilesystemStore root fs' \<and> fs_ok env root fs'"
    using assms
  proof (induction ps arbitrary: fs)
    case Nil
    then show ?case by (simp add: durable_inv_def)
  next
    case (Cons p ps)
    obtain a s where s: "durable_step env p (FilesystemStore root fs) = (a, s)" by fastforce
    obtain fs' where "s = FilesystemStore root fs'" using step_on_disk [of env p root fs] by (auto simp: s)
    then show ?case
      using Cons.IH [of fs'] Cons.prems durable_step_refines [OF Cons.prems(1) _ s] by (auto simp: s split: prod.splits)
  qed
  then show thesis using that by blast
qed

section \<open>Tenants\<close>

fun op_tenant :: "durable_op \<Rightarrow> ustr option" where
  "op_tenant (PutObject k v) = Some (fst (snd k))"
| "op_tenant (GetObject k) = Some (fst (snd k))"
| "op_tenant (DeleteObject k) = Some (fst (snd k))"
| "op_tenant (ListObjects q) = snd q"
| "op_tenant (PutBlob k v) = Some (fst (snd k))"
| "op_tenant (GetBlob k) = Some (fst (snd k))"
| "op_tenant (DeleteBlob k) = Some (fst (snd k))"

definition tenant_view :: "ustr \<Rightarrow> abstract_store \<Rightarrow> abstract_store" where
  "tenant_view h a = ((\<lambda>c. if fst (snd c) = h then fst a c else None), (\<lambda>c. if fst (snd c) = h then snd a c else None))"

lemma spec_step_other:
  assumes "\<And>t. op_tenant p = Some t \<Longrightarrow> tenant_hash env t \<noteq> h"
  shows "tenant_view h (snd (spec_step env p a)) = tenant_view h a"
  using assms by (cases a; cases p) (auto simp: tenant_view_def checked_def key_cell_def fun_eq_iff)

lemma spec_step_view:
  assumes "op_tenant p = Some t" and "tenant_view (tenant_hash env t) a = tenant_view (tenant_hash env t) b"
  shows "fst (spec_step env p a) = fst (spec_step env p b)"
proof -
  obtain ao ab bo bb where ab: "a = (ao, ab)" "b = (bo, bb)" by (cases a; cases b)
  have o: "ao c = bo c" and l: "ab c = bb c" if "fst (snd c) = tenant_hash env t" for c
    using assms(2) that by (auto simp: tenant_view_def ab fun_eq_iff split: if_splits) (metis (full_types) prod.collapse)+
  show ?thesis
  proof (cases p)
    case (ListObjects q)
    obtain n where q: "q = (n, Some t)" using assms(1) ListObjects by (cases q) simp
    have s: "{c \<in> list_scope env q. ao c \<noteq> None} = {c \<in> list_scope env q. bo c \<noteq> None}"
      using o by (auto simp: q list_scope_def)
    have "image_mset (\<lambda>c. the (ao c)) (mset_set {c \<in> list_scope env q. bo c \<noteq> None})
        = image_mset (\<lambda>c. the (bo c)) (mset_set {c \<in> list_scope env q. bo c \<noteq> None})"
    proof (rule image_mset_cong)
      fix c assume "c \<in># mset_set {c \<in> list_scope env q. bo c \<noteq> None}"
      then have "c \<in> list_scope env q"
        by (metis (mono_tags, lifting) count_mset_set(2) count_mset_set(3) mem_Collect_eq not_in_iff)
      then show "the (ao c) = the (bo c)" using o by (simp add: q list_scope_def)
    qed
    then show ?thesis using s by (simp add: ListObjects ab)
  qed (use assms(1) o l in \<open>auto simp: ab checked_def key_cell_def\<close>)
qed

lemma run_other_tenants:
  assumes "durable_inv env st" and "list_all (op_storable env) ps"
    and "\<And>p t. p \<in> set ps \<Longrightarrow> op_tenant p = Some t \<Longrightarrow> tenant_hash env t \<noteq> h"
  shows "durable_inv env (snd (durable_run env ps st))
    \<and> tenant_view h (durable_abs env (snd (durable_run env ps st))) = tenant_view h (durable_abs env st)"
  using assms
proof (induction ps arbitrary: st)
  case Nil
  then show ?case by simp
next
  case (Cons p ps)
  obtain a s where s: "durable_step env p st = (a, s)" by fastforce
  have p: "op_storable env p" using Cons.prems by simp
  from durable_step_refines [OF Cons.prems(1) p s]
  have "durable_inv env s" and "snd (spec_step env p (durable_abs env st)) = durable_abs env s" by simp_all
  moreover have "tenant_view h (snd (spec_step env p (durable_abs env st))) = tenant_view h (durable_abs env st)"
    using Cons.prems(3) by (intro spec_step_other) auto
  moreover have "durable_inv env (snd (durable_run env ps s))
      \<and> tenant_view h (durable_abs env (snd (durable_run env ps s))) = tenant_view h (durable_abs env s)"
    using Cons.prems(2,3) \<open>durable_inv env s\<close> by (intro Cons.IH) auto
  ultimately show ?case
    by (auto simp: s split: prod.splits)
qed

section \<open>Opening a store\<close>

lemma memory_opened: "durable_lawful env \<Longrightarrow> durable_inv env durable_memory"
  by (simp add: durable_inv_def durable_memory_def keys_ok_def)

lemma memory_empty: "durable_abs env durable_memory = (\<lambda>_. None, \<lambda>_. None)"
  by (auto simp: durable_abs_def durable_memory_def object_at_memory blob_at_memory fun_eq_iff)

lemma kind_created:
  assumes ok: "fs_ok env root fs" and k: "k \<in> {str ''objects'', str ''blobs''}"
  obtains fs' where "create_dir_all (root @ [k]) fs = (Inr (), fs')" and "fs_ok env root fs'"
    and "object_at env (FilesystemStore root fs') = object_at env (FilesystemStore root fs)"
    and "blob_at (FilesystemStore root fs') = blob_at (FilesystemStore root fs)"
proof -
  let ?d = "fold (\<lambda>q. set_node q FsDir) (path_prefixes (root @ [k])) fs"
  have ko: "kind_ok root fs k" and nok: "nodes_ok fs" and pre: "\<forall>q \<in> set (path_prefixes root). \<not> is_file (node_at fs q)"
    using ok k by (auto simp: fs_ok_def)
  have nd: "node_at ?d q = (if q \<in> set (path_prefixes root) \<or> q = root @ [k] then Some FsDir else node_at fs q)" for q
    using node_at_fold_set [OF prefixes_nonempty [of "root @ [k]"], of FsDir fs q] by (auto simp: prefixes_snoc)
  have w: "create_dir_all (root @ [k]) fs = (Inr (), ?d)"
    using quiet_ok [OF ok] pre kind_okD(1) [OF ko] by (simp add: create_dir_all_def fs_call_quiet prefixes_snoc)
  have deep: "node_at ?d (root @ a # b # c) = node_at fs (root @ a # b # c)" for a b c
    by (simp add: nd not_prefix)
  have one: "node_at ?d (root @ [k']) = (if k' = k then Some FsDir else node_at fs (root @ [k']))" for k'
    by (simp add: nd not_prefix)
  have kinds: "kind_ok root ?d k'" if "kind_ok root fs k'" for k'
    using that by (simp add: kind_ok_def deep one)
  have "fs_ok env root ?d"
    unfolding fs_ok_def
  proof (intro conjI ballI)
    show "nodes_ok ?d" by (rule nodes_ok_fold_set [OF prefixes_nonempty nok])
    show "\<not> is_file (node_at ?d q)" if "q \<in> set (path_prefixes root)" for q using that by (simp add: nd)
    show "kind_ok root ?d (str ''objects'')" "kind_ok root ?d (str ''blobs'')" using ok kinds by (simp_all add: fs_ok_def)
    show "\<forall>n h x bs. node_at ?d (root @ [str ''objects'', n, h, x]) = Some (FsFile bs)
        \<longrightarrow> path_extension [x] = Some (str ''json'') \<longrightarrow> object_file_ok env n h x bs"
      using ok unfolding deep fs_ok_def by blast
  qed
  then show thesis
    by (rule that [OF w]) (auto simp: object_at_def blob_at_def file_value_def file_bytes_def cell_object_path_def
        cell_blob_path_def deep split: prod.splits)
qed

lemma store_reopens:
  assumes "fs_ok env root fs"
  obtains fs' where "durable_filesystem display root fs = (Inr (FilesystemStore root fs'), fs')" and "fs_ok env root fs'"
    and "durable_abs env (FilesystemStore root fs') = durable_abs env (FilesystemStore root fs)"
proof (rule kind_created [OF assms, of "str ''objects''"])
  fix fs1 assume o: "create_dir_all (root @ [str ''objects'']) fs = (Inr (), fs1)" and ok: "fs_ok env root fs1"
    and s: "object_at env (FilesystemStore root fs1) = object_at env (FilesystemStore root fs)"
      "blob_at (FilesystemStore root fs1) = blob_at (FilesystemStore root fs)"
  show thesis
  proof (rule kind_created [OF ok, of "str ''blobs''"])
    fix fs2 assume "create_dir_all (root @ [str ''blobs'']) fs1 = (Inr (), fs2)" and "fs_ok env root fs2"
      and "object_at env (FilesystemStore root fs2) = object_at env (FilesystemStore root fs1)"
      and "blob_at (FilesystemStore root fs2) = blob_at (FilesystemStore root fs1)"
    then show thesis
      using o s by (intro that [of fs2]) (simp_all add: durable_filesystem_def durable_abs_def)
  qed simp
qed simp

lemma empty_disk_ok: "fs_ok env root \<lparr>fs_nodes = [], fs_faults = [], fs_uuids = n\<rparr>"
proof -
  have e: "node_at \<lparr>fs_nodes = [], fs_faults = [], fs_uuids = n\<rparr> q = (if q = [] then Some FsDir else None)" for q
    by (simp add: node_at_def)
  show ?thesis by (simp add: fs_ok_def nodes_ok_def kind_ok_def e)
qed

lemma empty_disk: "durable_abs env (FilesystemStore root \<lparr>fs_nodes = [], fs_faults = [], fs_uuids = n\<rparr>) = (\<lambda>_. None, \<lambda>_. None)"
  by (auto simp: durable_abs_def object_at_def blob_at_def file_value_def file_bytes_def node_at_def fun_eq_iff
      cell_object_path_def cell_blob_path_def split: prod.splits)

section \<open>An environment with the laws\<close>

text \<open>
  The laws can hold: numbering the values prints and parses each of them, and a hash may be any text of
  letters and digits.
\<close>

instance json_number :: countable by countable_datatype

instance json :: countable by countable_datatype

definition numbering_env :: durable_env where
  "numbering_env =
     \<lparr>du_sha256_hex = map (\<lambda>b. 48 + b mod 10), du_uuid = show_nat, du_to_vec = (\<lambda>v. Inr [to_nat v]),
      du_from_slice = (\<lambda>bs. case bs of [n] \<Rightarrow> Inr (from_nat n) | _ \<Rightarrow> Inl (str ''invalid'')), du_entry_order = (\<lambda>ps. ps)\<rparr>"

lemma numbering_lawful: "durable_lawful numbering_env" and numbering_storable: "json_storable numbering_env v"
  by (auto simp: durable_lawful_def json_storable_def numbering_env_def hash_ok_def list_all_iff
      is_ascii_alphanumeric_def is_ascii_digit_def)

end
