(* ===== verification/Api_Batch_Types.thy ===== *)
theory Api_Batch_Types
  imports Api_Identity Api_Errors Api_Jobs Api_Durable_Spec
begin

text \<open>
  \<^verbatim>\<open>api-server/src/batch_api.rs\<close> and the records it keeps: files, batches of both interfaces, their
  counts, how they are printed for the durable store and for clients, and the helpers of the batch
  interfaces. The derived \<^verbatim>\<open>Serialize\<close> writes an object with a field for each field of the record, and
  the derived \<^verbatim>\<open>Deserialize\<close> reads the fields of an object, where a missing optional field is
  \<^verbatim>\<open>None\<close>. That it would also read an array is left out: the store holds what was written to it.
\<close>

record stored_file =
  fi_tenant_id :: ustr
  fi_id :: ustr
  fi_bytes :: u64
  fi_created_at :: u64
  fi_filename :: ustr
  fi_purpose :: ustr
  fi_status :: ustr
  fi_expires_at :: "u64 option"
  fi_status_details :: "ustr option"

record openai_batch_counts =
  obc_total :: u64
  obc_completed :: u64
  obc_failed :: u64

record openai_batch =
  ob_tenant_id :: ustr
  ob_id :: ustr
  ob_completion_window :: ustr
  ob_created_at :: u64
  ob_endpoint :: ustr
  ob_input_file_id :: ustr
  ob_status :: ustr
  ob_cancelled_at :: "u64 option"
  ob_cancelling_at :: "u64 option"
  ob_completed_at :: "u64 option"
  ob_error_file_id :: "ustr option"
  ob_errors :: "json option"
  ob_expired_at :: "u64 option"
  ob_expires_at :: "u64 option"
  ob_failed_at :: "u64 option"
  ob_finalizing_at :: "u64 option"
  ob_in_progress_at :: "u64 option"
  ob_metadata :: json
  ob_output_file_id :: "ustr option"
  ob_request_counts :: openai_batch_counts
  ob_usage :: provider_usage
  ob_cancel_requested :: bool

record anthropic_batch_counts =
  abc_processing :: u64
  abc_succeeded :: u64
  abc_errored :: u64
  abc_canceled :: u64
  abc_expired :: u64

record anthropic_batch =
  ab_tenant_id :: ustr
  ab_id :: ustr
  ab_created_at :: u64
  ab_expires_at :: u64
  ab_ended_at :: "u64 option"
  ab_cancel_initiated_at :: "u64 option"
  ab_archived_at :: "u64 option"
  ab_processing_status :: ustr
  ab_request_counts :: anthropic_batch_counts
  ab_cancel_requested :: bool

definition openai_counts_default :: openai_batch_counts where
  "openai_counts_default = \<lparr>obc_total = 0, obc_completed = 0, obc_failed = 0\<rparr>"

definition anthropic_counts_default :: anthropic_batch_counts where
  "anthropic_counts_default =
     \<lparr>abc_processing = 0, abc_succeeded = 0, abc_errored = 0, abc_canceled = 0, abc_expired = 0\<rparr>"

record openai_batch_input =
  obi_custom_id :: ustr
  obi_method :: ustr
  obi_url :: ustr
  obi_body :: json

record anthropic_batch_input =
  abi_custom_id :: ustr
  abi_params :: json

record batch_dispatch_result =
  bd_status_code :: nat
  bd_body :: json

section \<open>Records in the store\<close>

definition file_to_value :: "stored_file \<Rightarrow> json" where
  "file_to_value f = json_object
     [(str ''tenant_id'', JString (fi_tenant_id f)), (str ''id'', JString (fi_id f)),
      (str ''bytes'', json_u64 (fi_bytes f)), (str ''created_at'', json_u64 (fi_created_at f)),
      (str ''filename'', JString (fi_filename f)), (str ''purpose'', JString (fi_purpose f)),
      (str ''status'', JString (fi_status f)), (str ''expires_at'', json_option json_u64 (fi_expires_at f)),
      (str ''status_details'', json_option JString (fi_status_details f))]"

definition openai_counts_to_value :: "openai_batch_counts \<Rightarrow> json" where
  "openai_counts_to_value c = json_object
     [(str ''total'', json_u64 (obc_total c)), (str ''completed'', json_u64 (obc_completed c)),
      (str ''failed'', json_u64 (obc_failed c))]"

definition usage_to_value :: "provider_usage \<Rightarrow> json" where
  "usage_to_value u = json_object
     [(str ''input_tokens'', json_u64 (ucast (pu_input_tokens u))),
      (str ''output_tokens'', json_u64 (ucast (pu_output_tokens u)))]"

definition openai_batch_to_value :: "openai_batch \<Rightarrow> json" where
  "openai_batch_to_value b = json_object
     [(str ''tenant_id'', JString (ob_tenant_id b)), (str ''id'', JString (ob_id b)),
      (str ''completion_window'', JString (ob_completion_window b)), (str ''created_at'', json_u64 (ob_created_at b)),
      (str ''endpoint'', JString (ob_endpoint b)), (str ''input_file_id'', JString (ob_input_file_id b)),
      (str ''status'', JString (ob_status b)), (str ''cancelled_at'', json_option json_u64 (ob_cancelled_at b)),
      (str ''cancelling_at'', json_option json_u64 (ob_cancelling_at b)),
      (str ''completed_at'', json_option json_u64 (ob_completed_at b)),
      (str ''error_file_id'', json_option JString (ob_error_file_id b)),
      (str ''errors'', json_option (\<lambda>v. v) (ob_errors b)),
      (str ''expired_at'', json_option json_u64 (ob_expired_at b)),
      (str ''expires_at'', json_option json_u64 (ob_expires_at b)),
      (str ''failed_at'', json_option json_u64 (ob_failed_at b)),
      (str ''finalizing_at'', json_option json_u64 (ob_finalizing_at b)),
      (str ''in_progress_at'', json_option json_u64 (ob_in_progress_at b)),
      (str ''metadata'', ob_metadata b), (str ''output_file_id'', json_option JString (ob_output_file_id b)),
      (str ''request_counts'', openai_counts_to_value (ob_request_counts b)),
      (str ''usage'', usage_to_value (ob_usage b)), (str ''cancel_requested'', JBool (ob_cancel_requested b))]"

definition anthropic_counts_to_value :: "anthropic_batch_counts \<Rightarrow> json" where
  "anthropic_counts_to_value c = json_object
     [(str ''processing'', json_u64 (abc_processing c)), (str ''succeeded'', json_u64 (abc_succeeded c)),
      (str ''errored'', json_u64 (abc_errored c)), (str ''canceled'', json_u64 (abc_canceled c)),
      (str ''expired'', json_u64 (abc_expired c))]"

definition anthropic_batch_to_value :: "anthropic_batch \<Rightarrow> json" where
  "anthropic_batch_to_value b = json_object
     [(str ''tenant_id'', JString (ab_tenant_id b)), (str ''id'', JString (ab_id b)),
      (str ''created_at'', json_u64 (ab_created_at b)), (str ''expires_at'', json_u64 (ab_expires_at b)),
      (str ''ended_at'', json_option json_u64 (ab_ended_at b)),
      (str ''cancel_initiated_at'', json_option json_u64 (ab_cancel_initiated_at b)),
      (str ''archived_at'', json_option json_u64 (ab_archived_at b)),
      (str ''processing_status'', JString (ab_processing_status b)),
      (str ''request_counts'', anthropic_counts_to_value (ab_request_counts b)),
      (str ''cancel_requested'', JBool (ab_cancel_requested b))]"

text \<open>Reading a field.\<close>

definition need :: "(json \<Rightarrow> 'a option) \<Rightarrow> string \<Rightarrow> json \<Rightarrow> ('a \<Rightarrow> 'b option) \<Rightarrow> 'b option" where
  "need f k j g = (case json_get (str k) j of
       None \<Rightarrow> None
     | Some v \<Rightarrow> (case f v of None \<Rightarrow> None | Some x \<Rightarrow> g x))"

definition optional :: "(json \<Rightarrow> 'a option) \<Rightarrow> string \<Rightarrow> json \<Rightarrow> ('a option \<Rightarrow> 'b option) \<Rightarrow> 'b option" where
  "optional f k j g = (case json_get (str k) j of
       None \<Rightarrow> g None
     | Some v \<Rightarrow> (if v = JNull then g None else case f v of None \<Rightarrow> None | Some x \<Rightarrow> g (Some x)))"

definition file_of_value :: "json \<Rightarrow> stored_file option" where
  "file_of_value j =
     need json_as_str ''tenant_id'' j (\<lambda>tenant.
     need json_as_str ''id'' j (\<lambda>i.
     need json_as_u64 ''bytes'' j (\<lambda>bytes.
     need json_as_u64 ''created_at'' j (\<lambda>created.
     need json_as_str ''filename'' j (\<lambda>name.
     need json_as_str ''purpose'' j (\<lambda>purpose.
     need json_as_str ''status'' j (\<lambda>status.
     optional json_as_u64 ''expires_at'' j (\<lambda>expires.
     optional json_as_str ''status_details'' j (\<lambda>details.
       Some \<lparr>fi_tenant_id = tenant, fi_id = i, fi_bytes = bytes, fi_created_at = created, fi_filename = name,
             fi_purpose = purpose, fi_status = status, fi_expires_at = expires, fi_status_details = details\<rparr>)))))))))"

definition openai_counts_of_value :: "json \<Rightarrow> openai_batch_counts option" where
  "openai_counts_of_value j =
     need json_as_u64 ''total'' j (\<lambda>t. need json_as_u64 ''completed'' j (\<lambda>c. need json_as_u64 ''failed'' j (\<lambda>f.
       Some \<lparr>obc_total = t, obc_completed = c, obc_failed = f\<rparr>)))"

text \<open>A \<^verbatim>\<open>u32\<close> with a default and an alias, both of which may not be given.\<close>

definition as_u32 :: "json \<Rightarrow> u32 option" where
  "as_u32 v = Option.bind (json_as_u64 v) (\<lambda>n. nat_to_word (unat n))"

definition aliased :: "string \<Rightarrow> string \<Rightarrow> json \<Rightarrow> u32 option" where
  "aliased k l j =
     (case (json_get (str k) j, json_get (str l) j) of
        (None, None) \<Rightarrow> Some 0
      | (Some v, None) \<Rightarrow> as_u32 v
      | (None, Some v) \<Rightarrow> as_u32 v
      | (Some _, Some _) \<Rightarrow> None)"

definition usage_of_value :: "json \<Rightarrow> provider_usage option" where
  "usage_of_value j =
     (if \<not> json_is_object j then None
      else case (aliased ''input_tokens'' ''prompt_tokens'' j, aliased ''output_tokens'' ''completion_tokens'' j) of
             (Some i, Some t) \<Rightarrow> Some \<lparr>pu_input_tokens = i, pu_output_tokens = t\<rparr>
           | _ \<Rightarrow> None)"

definition openai_batch_of_value :: "json \<Rightarrow> openai_batch option" where
  "openai_batch_of_value j =
     need json_as_str ''tenant_id'' j (\<lambda>tenant.
     need json_as_str ''id'' j (\<lambda>i.
     need json_as_str ''completion_window'' j (\<lambda>window.
     need json_as_u64 ''created_at'' j (\<lambda>created.
     need json_as_str ''endpoint'' j (\<lambda>endpoint.
     need json_as_str ''input_file_id'' j (\<lambda>input.
     need json_as_str ''status'' j (\<lambda>status.
     optional json_as_u64 ''cancelled_at'' j (\<lambda>cancelled.
     optional json_as_u64 ''cancelling_at'' j (\<lambda>cancelling.
     optional json_as_u64 ''completed_at'' j (\<lambda>completed.
     optional json_as_str ''error_file_id'' j (\<lambda>error_file.
     optional Some ''errors'' j (\<lambda>errors.
     optional json_as_u64 ''expired_at'' j (\<lambda>expired.
     optional json_as_u64 ''expires_at'' j (\<lambda>expires.
     optional json_as_u64 ''failed_at'' j (\<lambda>failed.
     optional json_as_u64 ''finalizing_at'' j (\<lambda>finalizing.
     optional json_as_u64 ''in_progress_at'' j (\<lambda>progress.
     need Some ''metadata'' j (\<lambda>metadata.
     optional json_as_str ''output_file_id'' j (\<lambda>output_file.
     need openai_counts_of_value ''request_counts'' j (\<lambda>counts.
     need usage_of_value ''usage'' j (\<lambda>usage.
     need json_as_bool ''cancel_requested'' j (\<lambda>cancel.
       Some \<lparr>ob_tenant_id = tenant, ob_id = i, ob_completion_window = window, ob_created_at = created,
             ob_endpoint = endpoint, ob_input_file_id = input, ob_status = status, ob_cancelled_at = cancelled,
             ob_cancelling_at = cancelling, ob_completed_at = completed, ob_error_file_id = error_file,
             ob_errors = errors, ob_expired_at = expired, ob_expires_at = expires, ob_failed_at = failed,
             ob_finalizing_at = finalizing, ob_in_progress_at = progress, ob_metadata = metadata,
             ob_output_file_id = output_file, ob_request_counts = counts, ob_usage = usage,
             ob_cancel_requested = cancel\<rparr>))))))))))))))))))))))"

definition anthropic_counts_of_value :: "json \<Rightarrow> anthropic_batch_counts option" where
  "anthropic_counts_of_value j =
     need json_as_u64 ''processing'' j (\<lambda>p. need json_as_u64 ''succeeded'' j (\<lambda>s.
     need json_as_u64 ''errored'' j (\<lambda>e. need json_as_u64 ''canceled'' j (\<lambda>c. need json_as_u64 ''expired'' j (\<lambda>x.
       Some \<lparr>abc_processing = p, abc_succeeded = s, abc_errored = e, abc_canceled = c, abc_expired = x\<rparr>)))))"

definition anthropic_batch_of_value :: "json \<Rightarrow> anthropic_batch option" where
  "anthropic_batch_of_value j =
     need json_as_str ''tenant_id'' j (\<lambda>tenant.
     need json_as_str ''id'' j (\<lambda>i.
     need json_as_u64 ''created_at'' j (\<lambda>created.
     need json_as_u64 ''expires_at'' j (\<lambda>expires.
     optional json_as_u64 ''ended_at'' j (\<lambda>ended.
     optional json_as_u64 ''cancel_initiated_at'' j (\<lambda>initiated.
     optional json_as_u64 ''archived_at'' j (\<lambda>archived.
     need json_as_str ''processing_status'' j (\<lambda>status.
     need anthropic_counts_of_value ''request_counts'' j (\<lambda>counts.
     need json_as_bool ''cancel_requested'' j (\<lambda>cancel.
       Some \<lparr>ab_tenant_id = tenant, ab_id = i, ab_created_at = created, ab_expires_at = expires,
             ab_ended_at = ended, ab_cancel_initiated_at = initiated, ab_archived_at = archived,
             ab_processing_status = status, ab_request_counts = counts, ab_cancel_requested = cancel\<rparr>))))))))))"

section \<open>What clients are shown\<close>

definition openai_file_json :: "stored_file \<Rightarrow> json" where
  "openai_file_json f = json_object
     [(str ''id'', JString (fi_id f)), (str ''object'', JString (str ''file'')),
      (str ''bytes'', json_u64 (fi_bytes f)), (str ''created_at'', json_u64 (fi_created_at f)),
      (str ''filename'', JString (fi_filename f)), (str ''purpose'', JString (fi_purpose f)),
      (str ''status'', JString (fi_status f)), (str ''expires_at'', json_option json_u64 (fi_expires_at f)),
      (str ''status_details'', json_option JString (fi_status_details f))]"

definition openai_batch_json :: "openai_batch \<Rightarrow> json" where
  "openai_batch_json b = json_object
     [(str ''id'', JString (ob_id b)), (str ''object'', JString (str ''batch'')),
      (str ''endpoint'', JString (ob_endpoint b)), (str ''errors'', json_option (\<lambda>v. v) (ob_errors b)),
      (str ''input_file_id'', JString (ob_input_file_id b)),
      (str ''completion_window'', JString (ob_completion_window b)), (str ''status'', JString (ob_status b)),
      (str ''output_file_id'', json_option JString (ob_output_file_id b)),
      (str ''error_file_id'', json_option JString (ob_error_file_id b)),
      (str ''created_at'', json_u64 (ob_created_at b)),
      (str ''in_progress_at'', json_option json_u64 (ob_in_progress_at b)),
      (str ''expires_at'', json_option json_u64 (ob_expires_at b)),
      (str ''finalizing_at'', json_option json_u64 (ob_finalizing_at b)),
      (str ''completed_at'', json_option json_u64 (ob_completed_at b)),
      (str ''failed_at'', json_option json_u64 (ob_failed_at b)),
      (str ''expired_at'', json_option json_u64 (ob_expired_at b)),
      (str ''cancelling_at'', json_option json_u64 (ob_cancelling_at b)),
      (str ''cancelled_at'', json_option json_u64 (ob_cancelled_at b)),
      (str ''request_counts'', openai_counts_to_value (ob_request_counts b)),
      (str ''metadata'', ob_metadata b), (str ''usage'', usage_telemetry_json (ob_usage b))]"

text \<open>Calendar times are the library's: the text of a number of seconds, where there is one.\<close>

definition rfc3339_timestamp :: "(int \<Rightarrow> ustr option) \<Rightarrow> u64 \<Rightarrow> ustr" where
  "rfc3339_timestamp datetime t =
     (case datetime (sint t) of Some s \<Rightarrow> s | None \<Rightarrow> str ''1970-01-01T00:00:00Z'')"

definition anthropic_batch_json :: "(int \<Rightarrow> ustr option) \<Rightarrow> anthropic_batch \<Rightarrow> json" where
  "anthropic_batch_json datetime b =
     (let time = (\<lambda>t. JString (rfc3339_timestamp datetime t))
      in json_object
     [(str ''id'', JString (ab_id b)), (str ''type'', JString (str ''message_batch'')),
      (str ''processing_status'', JString (ab_processing_status b)),
      (str ''request_counts'', anthropic_counts_to_value (ab_request_counts b)),
      (str ''ended_at'', json_option time (ab_ended_at b)), (str ''created_at'', time (ab_created_at b)),
      (str ''expires_at'', time (ab_expires_at b)), (str ''archived_at'', json_option time (ab_archived_at b)),
      (str ''cancel_initiated_at'', json_option time (ab_cancel_initiated_at b)),
      (str ''results_url'',
        if ab_processing_status b = str ''ended''
        then JString (str ''/v1/messages/batches/'' @ ab_id b @ str ''/results'') else JNull)])"

section \<open>Pages\<close>

definition page_after :: "('a \<Rightarrow> ustr) \<Rightarrow> 'a list \<Rightarrow> ustr option \<Rightarrow> nat \<Rightarrow> 'a list \<times> bool" where
  "page_after object_id items after limit =
     (let start = (case Option.bind after (\<lambda>a. find_idx (\<lambda>x. object_id x = a) items) of
                     Some p \<Rightarrow> p + 1 | None \<Rightarrow> 0)
      in (take limit (drop start items), start + limit < length items))"

text \<open>Newest first, then by identifier backwards.\<close>

definition newest_created_first :: "('a \<Rightarrow> u64) \<Rightarrow> ('a \<Rightarrow> ustr) \<Rightarrow> 'a list \<Rightarrow> 'a list" where
  "newest_created_first created ident xs = sort_key (\<lambda>r. - uint (created r)) (rev (sort_key ident (rev xs)))"

definition oldest_created_first :: "('a \<Rightarrow> u64) \<Rightarrow> ('a \<Rightarrow> ustr) \<Rightarrow> 'a list \<Rightarrow> 'a list" where
  "oldest_created_first created ident xs = sort_key created (sort_key ident xs)"

definition page_limit :: "nat \<Rightarrow> nat \<Rightarrow> nat option \<Rightarrow> nat" where
  "page_limit standard most limit = max 1 (min most (case limit of Some n \<Rightarrow> n | None \<Rightarrow> standard))"

definition page_ends :: "('a \<Rightarrow> ustr) \<Rightarrow> 'a list \<Rightarrow> (ustr \<times> json) list" where
  "page_ends object_id page =
     [(str ''first_id'', if page = [] then JNull else JString (object_id (hd page))),
      (str ''last_id'', if page = [] then JNull else JString (object_id (last page)))]"

section \<open>Helpers\<close>

definition safe_header_filename :: "ustr \<Rightarrow> ustr" where
  "safe_header_filename name = map (\<lambda>c. if c = 34 \<or> c = 13 \<or> c = 10 then 95 else c) name"

definition openai_batch_job_key :: "openai_batch \<Rightarrow> ustr" where
  "openai_batch_job_key b = str ''openai-batch:'' @ ob_tenant_id b @ str '':'' @ ob_id b"

definition anthropic_batch_job_key :: "anthropic_batch \<Rightarrow> ustr" where
  "anthropic_batch_job_key b = str ''anthropic-batch:'' @ ab_tenant_id b @ str '':'' @ ab_id b"

definition batch_item_concurrency :: "environment \<Rightarrow> nat" where
  "batch_item_concurrency vars =
     (case Option.bind (vars (str ''MIYA_BATCH_ITEM_CONCURRENCY'')) (parse_uint (2 ^ 64)) of
        Some n \<Rightarrow> (if 0 < n then n else 8)
      | None \<Rightarrow> 8)"

definition capped_u32 :: "json option \<Rightarrow> u32" where
  "capped_u32 v =
     (case Option.bind v json_as_u64 of
        Some n \<Rightarrow> word_of_nat (min (unat n) (2 ^ 32 - 1))
      | None \<Rightarrow> 0)"

definition accumulate_json_usage :: "json option \<Rightarrow> provider_usage \<Rightarrow> provider_usage" where
  "accumulate_json_usage v usage =
     (let raw = (case Option.bind v (json_get (str ''usage'')) of Some r \<Rightarrow> r | None \<Rightarrow> JNull);
          input = capped_u32 (or_else (json_get (str ''input_tokens'') raw) (json_get (str ''prompt_tokens'') raw));
          output = capped_u32 (or_else (json_get (str ''output_tokens'') raw) (json_get (str ''completion_tokens'') raw))
      in \<lparr>pu_input_tokens = sat_add (pu_input_tokens usage) input,
          pu_output_tokens = sat_add (pu_output_tokens usage) output\<rparr>)"

text \<open>The body of an item is made its tenant's.\<close>

definition enforce_batch_tenant :: "json_map \<Rightarrow> ustr \<Rightarrow> json_map" where
  "enforce_batch_tenant m tenant =
     (let metadata = (case bt_get m (str ''metadata'') of
                        Some v \<Rightarrow> (if json_is_object v then v else JObject [])
                      | None \<Rightarrow> JObject [])
      in bt_insert (str ''metadata'') (json_set (str ''tenant_id'') (JString tenant) metadata) m)"

text \<open>
  \<^verbatim>\<open>HeaderValue::from_str\<close> refuses control characters. A tenant's identifier has none, as it came from a
  header or was made of safe characters.
\<close>

definition tenant_headers :: "ustr \<Rightarrow> ustr + header_map" where
  "tenant_headers tenant =
     (if list_all (\<lambda>b. 32 \<le> b \<and> b \<noteq> 127 \<or> b = 9) (utf8_bytes tenant)
      then Inr [(str ''x-tenant-id'', utf8_bytes tenant)]
      else Inl (str ''failed to parse header value''))"

section \<open>Round trips\<close>

lemma str_eq [simp]: "str s = str t \<longleftrightarrow> s = t"
  by (simp add: str_def inj_map_eq_map inj_def of_char_eq_iff)

lemma nat_to_word_ucast: "nat_to_word (unat (ucast (w :: u32) :: u64)) = Some w"
proof -
  have b: "unat w < 2 ^ 32" using unsigned_less [of w] by simp
  then have "unat w < 2 ^ 64" by simp
  then have "unat (ucast w :: u64) = unat w" by (simp add: unsigned_ucast_eq take_bit_nat_eq_self)
  moreover note b
  ultimately show ?thesis by (simp add: nat_to_word_def)
qed

lemma object_is_object: "json_is_object (json_object fs)"
  by (simp add: json_is_object_def json_object_def)

lemma usage_survives: "usage_of_value (usage_to_value u) = Some u"
  by (cases u) (simp add: usage_of_value_def usage_to_value_def object_is_object aliased_def as_u32_def json_u64_def
      json_get_object nat_to_word_ucast)

lemma file_survives: "file_of_value (file_to_value f) = Some f"
  by (cases f; cases "fi_expires_at f"; cases "fi_status_details f")
    (simp_all add: file_of_value_def file_to_value_def need_def optional_def json_get_object json_option_def json_u64_def)

lemma openai_counts_survive: "openai_counts_of_value (openai_counts_to_value c) = Some c"
  by (cases c) (simp add: openai_counts_of_value_def openai_counts_to_value_def need_def json_get_object json_u64_def)

lemma anthropic_counts_survive: "anthropic_counts_of_value (anthropic_counts_to_value c) = Some c"
  by (cases c) (simp add: anthropic_counts_of_value_def anthropic_counts_to_value_def need_def json_get_object json_u64_def)

lemma optional_u64: "json_get (str k) j = Some (json_option json_u64 v) \<Longrightarrow> optional json_as_u64 k j g = g v"
  by (cases v) (simp_all add: optional_def json_option_def json_u64_def)

lemma optional_str: "json_get (str k) j = Some (json_option JString v) \<Longrightarrow> optional json_as_str k j g = g v"
  by (cases v) (simp_all add: optional_def json_option_def)

lemma optional_value: "json_get (str k) j = Some (json_option (\<lambda>v. v) v) \<Longrightarrow> v \<noteq> Some JNull \<Longrightarrow> optional Some k j g = g v"
  by (cases v) (simp_all add: optional_def json_option_def)

lemma openai_batch_survives:
  "ob_errors b \<noteq> Some JNull \<Longrightarrow> openai_batch_of_value (openai_batch_to_value b) = Some b"
  unfolding openai_batch_of_value_def openai_batch_to_value_def
  by (cases b) (simp add: optional_u64 optional_str optional_value need_def json_get_object json_u64_def [symmetric]
      openai_counts_survive usage_survives, simp add: json_u64_def)

lemma anthropic_batch_survives: "anthropic_batch_of_value (anthropic_batch_to_value b) = Some b"
  unfolding anthropic_batch_of_value_def anthropic_batch_to_value_def
  by (cases b) (simp add: optional_u64 need_def json_get_object json_u64_def [symmetric] anthropic_counts_survive,
      simp add: json_u64_def)

end
