(* ===== verification/Api_Batch_Files.thy ===== *)
theory Api_Batch_Files
  imports Api_Batch_Types
begin

text \<open>
  \<^verbatim>\<open>batch_api.rs\<close>: the files of the OpenAI interface, over the durable store. The world of the batch
  interfaces is the store, the running jobs with the records their tasks were started with, and the
  readings of the clock and of the random identifiers so far. An upload arrives as the fields of a
  form, each with the result of reading it.
\<close>

record batch_env =
  be_durable :: durable_env
  be_sha :: "ustr \<Rightarrow> ustr"
  be_now :: "nat \<Rightarrow> u64"
  be_fresh :: "nat \<Rightarrow> ustr"
  be_parse_json :: "ustr \<Rightarrow> json option"
  be_decode_error :: "json \<Rightarrow> ustr"
  be_header_check :: "ustr \<Rightarrow> ustr + unit"
  be_datetime :: "int \<Rightarrow> ustr option"
  be_utf8_error :: "nat list \<Rightarrow> ustr"
  be_parse_line :: "ustr \<Rightarrow> ustr + openai_batch_input"
  be_print_inputs :: "anthropic_batch_input list \<Rightarrow> ustr + nat list"
  be_parse_inputs :: "nat list \<Rightarrow> ustr + anthropic_batch_input list"
  be_handle :: "ustr \<Rightarrow> header_map \<Rightarrow> json \<Rightarrow> nat \<times> (ustr + nat list)"

record batch_world =
  bw_store :: durable_store
  bw_jobs :: job_runtime
  bw_openai :: "(ustr \<times> openai_batch) list"
  bw_anthropic :: "(ustr \<times> anthropic_batch) list"
  bw_ticks :: nat
  bw_uuids :: nat

type_synonym 'a bw = "batch_world \<Rightarrow> (ustr + 'a) \<times> batch_world"

datatype batch_reply =
    JsonReply json
  | BytesReply "(ustr \<times> ustr) list" "nat list"
  | ErrorReply http_error

type_synonym batch_handler = "batch_world \<Rightarrow> batch_reply \<times> batch_world"

definition on_store :: "(durable_store \<Rightarrow> (ustr + 'a) \<times> durable_store) \<Rightarrow> 'a bw" where
  "on_store f w = (case f (bw_store w) of (r, st) \<Rightarrow> (r, w\<lparr>bw_store := st\<rparr>))"

definition bw_bind :: "'a bw \<Rightarrow> ('a \<Rightarrow> 'b bw) \<Rightarrow> 'b bw" where
  "bw_bind m f w = (case m w of (Inl e, w') \<Rightarrow> (Inl e, w') | (Inr x, w') \<Rightarrow> f x w')"

text \<open>The \<^verbatim>\<open>match\<close> of a handler on the result of the store.\<close>

definition reply_bind :: "'a bw \<Rightarrow> ('a \<Rightarrow> batch_handler) \<Rightarrow> batch_handler" where
  "reply_bind m f w =
     (case m w of (Inl e, w') \<Rightarrow> (ErrorReply (internal_error_response e), w') | (Inr x, w') \<Rightarrow> f x w')"

definition reply :: "batch_reply \<Rightarrow> batch_handler" where
  "reply r w = (r, w)"

definition invalid_request :: "ustr \<Rightarrow> batch_handler" where
  "invalid_request message = reply (ErrorReply (api_error_response (InvalidRequest message)))"

definition with_now :: "batch_env \<Rightarrow> (u64 \<Rightarrow> batch_world \<Rightarrow> 'r) \<Rightarrow> batch_world \<Rightarrow> 'r" where
  "with_now env f w = f (be_now env (bw_ticks w)) (w\<lparr>bw_ticks := Suc (bw_ticks w)\<rparr>)"

definition with_uuid :: "batch_env \<Rightarrow> (ustr \<Rightarrow> batch_world \<Rightarrow> 'r) \<Rightarrow> batch_world \<Rightarrow> 'r" where
  "with_uuid env f w = f (be_fresh env (bw_uuids w)) (w\<lparr>bw_uuids := Suc (bw_uuids w)\<rparr>)"

definition headers_tenant :: "batch_env \<Rightarrow> header_map \<Rightarrow> ustr" where
  "headers_tenant env headers = context_tenant_id (context_from_headers (be_sha env) headers)"

definition decoded_as :: "batch_env \<Rightarrow> (json \<Rightarrow> 'a option) \<Rightarrow> json \<Rightarrow> ustr + 'a" where
  "decoded_as env f j = (case f j of Some x \<Rightarrow> Inr x | None \<Rightarrow> Inl (be_decode_error env j))"

definition openai_files_ns :: ustr where "openai_files_ns = str ''openai_files''"
definition openai_file_blobs_ns :: ustr where "openai_file_blobs_ns = str ''openai_file_blobs''"
definition openai_batches_ns :: ustr where "openai_batches_ns = str ''openai_batches''"

definition max_file_bytes :: nat where "max_file_bytes = 512 * 1024 * 1024"
definition max_batch_file_bytes :: nat where "max_batch_file_bytes = 200 * 1024 * 1024"

definition get_file :: "batch_env \<Rightarrow> ustr \<Rightarrow> ustr \<Rightarrow> stored_file option bw" where
  "get_file env tenant i =
     on_store (durable_get_json (be_durable env) (decoded_as env file_of_value) openai_files_ns tenant i)"

definition put_file :: "batch_env \<Rightarrow> ustr \<Rightarrow> ustr \<Rightarrow> stored_file \<Rightarrow> unit bw" where
  "put_file env tenant i f =
     on_store (durable_put_json (be_durable env) (\<lambda>f. Inr (file_to_value f)) openai_files_ns tenant i f)"

definition put_blob :: "batch_env \<Rightarrow> ustr \<Rightarrow> ustr \<Rightarrow> ustr \<Rightarrow> nat list \<Rightarrow> unit bw" where
  "put_blob env ns tenant i bytes = on_store (durable_put_blob (be_durable env) ns tenant i bytes)"

definition get_blob :: "batch_env \<Rightarrow> ustr \<Rightarrow> ustr \<Rightarrow> ustr \<Rightarrow> nat list option bw" where
  "get_blob env ns tenant i = on_store (durable_get_blob (be_durable env) ns tenant i)"

definition delete_blob :: "batch_env \<Rightarrow> ustr \<Rightarrow> ustr \<Rightarrow> ustr \<Rightarrow> bool bw" where
  "delete_blob env ns tenant i = on_store (durable_delete_blob (be_durable env) ns tenant i)"

definition get_openai_batch :: "batch_env \<Rightarrow> ustr \<Rightarrow> ustr \<Rightarrow> openai_batch option bw" where
  "get_openai_batch env tenant i =
     on_store (durable_get_json (be_durable env) (decoded_as env openai_batch_of_value) openai_batches_ns tenant i)"

definition put_openai_batch :: "batch_env \<Rightarrow> ustr \<Rightarrow> ustr \<Rightarrow> openai_batch \<Rightarrow> unit bw" where
  "put_openai_batch env tenant i b =
     on_store (durable_put_json (be_durable env) (\<lambda>b. Inr (openai_batch_to_value b)) openai_batches_ns tenant i b)"

definition list_openai_batches :: "batch_env \<Rightarrow> ustr \<Rightarrow> openai_batch list bw" where
  "list_openai_batches env tenant =
     on_store (durable_list_json (be_durable env) (decoded_as env openai_batch_of_value) openai_batches_ns tenant)"

section \<open>Uploads\<close>

datatype multipart_field =
    FormFile "ustr option" "ustr + nat list"
  | FormText ustr "ustr + ustr"

record upload =
  up_purpose :: "ustr option"
  up_filename :: "ustr option"
  up_bytes :: "nat list option"
  up_expires :: "u64 option"

definition no_upload :: upload where
  "no_upload = \<lparr>up_purpose = None, up_filename = None, up_bytes = None, up_expires = None\<rparr>"

definition parse_u64_text :: "ustr \<Rightarrow> u64 option" where
  "parse_u64_text t = map_option word_of_nat (parse_uint (2 ^ 64) t)"

definition text_field :: "batch_env \<Rightarrow> ustr \<Rightarrow> ustr \<Rightarrow> upload \<Rightarrow> upload" where
  "text_field env name t u =
     (if name = str ''purpose'' then u\<lparr>up_purpose := Some t\<rparr>
      else if name = str ''expires_after'' then
        u\<lparr>up_expires := Option.bind (Option.bind (be_parse_json env t) (json_get (str ''seconds''))) json_as_u64\<rparr>
      else if name = str ''expires_after[seconds]'' then u\<lparr>up_expires := parse_u64_text t\<rparr>
      else u)"

fun upload_fields :: "batch_env \<Rightarrow> (ustr + multipart_field) list \<Rightarrow> upload \<Rightarrow> ustr + upload" where
  "upload_fields env [] u = Inr u"
| "upload_fields env (Inl e # fs) u = Inl (str ''invalid multipart file upload: '' @ e)"
| "upload_fields env (Inr (FormFile name (Inl e)) # fs) u = Inl (str ''failed to read uploaded file: '' @ e)"
| "upload_fields env (Inr (FormFile name (Inr bytes)) # fs) u =
     (if length bytes \<le> max_file_bytes
      then upload_fields env fs (u\<lparr>up_filename := name, up_bytes := Some bytes\<rparr>)
      else Inl (str ''file exceeds '' @ show_nat max_file_bytes @ str '' bytes''))"
| "upload_fields env (Inr (FormText name (Inl e)) # fs) u =
     Inl (str ''invalid multipart field '' @ name @ str '': '' @ e)"
| "upload_fields env (Inr (FormText name (Inr t)) # fs) u = upload_fields env fs (text_field env name t u)"

definition file_purposes :: "ustr list" where
  "file_purposes =
     map str [''assistants'', ''batch'', ''fine-tune'', ''vision'', ''user_data'', ''evals'']"

definition not_blank :: "ustr option \<Rightarrow> ustr option" where
  "not_blank v = (case v of Some s \<Rightarrow> (if is_blank s then None else Some s) | None \<Rightarrow> None)"

definition checked_upload :: "upload \<Rightarrow> ustr + ustr \<times> ustr \<times> nat list" where
  "checked_upload u =
     (case not_blank (up_purpose u) of
        None \<Rightarrow> Inl (str ''file upload requires purpose'')
      | Some purpose \<Rightarrow>
          if purpose \<notin> set file_purposes then Inl (str ''unsupported file purpose: '' @ purpose)
          else case not_blank (up_filename u) of
            None \<Rightarrow> Inl (str ''file upload requires a filename'')
          | Some filename \<Rightarrow>
              (case up_bytes u of
                 None \<Rightarrow> Inl (str ''file upload requires file content'')
               | Some bytes \<Rightarrow>
                   if purpose = str ''batch'' \<and> max_batch_file_bytes < length bytes
                   then Inl (str ''batch files must not exceed '' @ show_nat max_batch_file_bytes @ str '' bytes'')
                   else Inr (purpose, filename, bytes)))"

definition file_expiry :: "ustr \<Rightarrow> u64 \<Rightarrow> u64 option \<Rightarrow> u64 option" where
  "file_expiry purpose created seconds =
     (case seconds of
        Some s \<Rightarrow> Some (sat_add created s)
      | None \<Rightarrow> (if purpose = str ''batch'' then Some (sat_add created (30 * 24 * 60 * 60)) else None))"

definition files_create :: "batch_env \<Rightarrow> header_map \<Rightarrow> (ustr + multipart_field) list \<Rightarrow> batch_handler" where
  "files_create env headers parts =
     (let tenant = headers_tenant env headers
      in case ebind (upload_fields env parts no_upload) (\<lambda>u. ebind (checked_upload u) (\<lambda>c. Inr (u, c))) of
           Inl message \<Rightarrow> invalid_request message
         | Inr (u, purpose, filename, bytes) \<Rightarrow>
             with_now env (\<lambda>created. with_uuid env (\<lambda>uuid.
               let i = str ''file-'' @ uuid;
                   f = \<lparr>fi_tenant_id = tenant, fi_id = i, fi_bytes = word_of_nat (length bytes), fi_created_at = created,
                        fi_filename = filename, fi_purpose = purpose, fi_status = str ''processed'',
                        fi_expires_at = file_expiry purpose created (up_expires u), fi_status_details = None\<rparr>
               in reply_bind (put_blob env openai_file_blobs_ns tenant i bytes) (\<lambda>_ w.
                    case put_file env tenant i f w of
                      (Inr _, w') \<Rightarrow> (JsonReply (openai_file_json f), w')
                    | (Inl e, w') \<Rightarrow>
                        (ErrorReply (internal_error_response e),
                         snd (delete_blob env openai_file_blobs_ns tenant i w'))))))"

section \<open>Reading, listing, deleting\<close>

definition file_missing :: "ustr \<Rightarrow> batch_handler" where
  "file_missing i = reply (ErrorReply (not_found_response (str ''file not found: '' @ i)))"

definition files_retrieve :: "batch_env \<Rightarrow> header_map \<Rightarrow> ustr \<Rightarrow> batch_handler" where
  "files_retrieve env headers i =
     reply_bind (get_file env (headers_tenant env headers) i) (\<lambda>f.
       case f of Some f \<Rightarrow> reply (JsonReply (openai_file_json f)) | None \<Rightarrow> file_missing i)"

text \<open>The builder of a response checks the value of each header.\<close>

definition built_reply :: "batch_env \<Rightarrow> (ustr \<times> ustr) list \<Rightarrow> nat list \<Rightarrow> batch_reply" where
  "built_reply env headers body =
     (case collect_answers (map (\<lambda>h. be_header_check env (snd h)) headers) of
        Inl e \<Rightarrow> ErrorReply (internal_error_response e)
      | Inr _ \<Rightarrow> BytesReply headers body)"

definition files_content :: "batch_env \<Rightarrow> header_map \<Rightarrow> ustr \<Rightarrow> batch_handler" where
  "files_content env headers i =
     (let tenant = headers_tenant env headers
      in reply_bind (get_file env tenant i) (\<lambda>f.
           case f of
             None \<Rightarrow> file_missing i
           | Some f \<Rightarrow>
               reply_bind (get_blob env openai_file_blobs_ns tenant i) (\<lambda>bytes.
                 case bytes of
                   Some bytes \<Rightarrow>
                     reply (built_reply env
                       [(str ''content-type'', str ''application/octet-stream''),
                        (str ''content-disposition'',
                         str ''attachment; filename='' @ [34] @ safe_header_filename (fi_filename f) @ [34])] bytes)
                 | None \<Rightarrow> reply (ErrorReply (internal_error_response (str ''file content missing: '' @ i))))))"

record files_query =
  fq_after :: "ustr option"
  fq_limit :: "nat option"
  fq_order :: "ustr option"
  fq_purpose :: "ustr option"

definition files_page :: "files_query \<Rightarrow> stored_file list \<Rightarrow> stored_file list \<times> bool" where
  "files_page q files =
     (let kept = (case fq_purpose q of Some p \<Rightarrow> filter (\<lambda>f. fi_purpose f = p) files | None \<Rightarrow> files);
          sorted = (if fq_order q = Some (str ''asc'') then oldest_created_first fi_created_at fi_id kept
                    else newest_created_first fi_created_at fi_id kept)
      in page_after fi_id sorted (fq_after q) (page_limit 10000 10000 (fq_limit q)))"

definition files_list :: "batch_env \<Rightarrow> header_map \<Rightarrow> files_query \<Rightarrow> batch_handler" where
  "files_list env headers q =
     reply_bind (on_store (durable_list_json (be_durable env) (decoded_as env file_of_value) openai_files_ns
                   (headers_tenant env headers))) (\<lambda>files.
       case files_page q files of
         (page, has_more) \<Rightarrow>
           reply (JsonReply (json_object
             ([(str ''object'', JString (str ''list'')), (str ''data'', JArray (map openai_file_json page)),
               (str ''has_more'', JBool has_more)] @ page_ends fi_id page))))"

definition openai_active :: "ustr \<Rightarrow> bool" where
  "openai_active status \<longleftrightarrow>
     status \<in> set (map str [''validating'', ''in_progress'', ''finalizing'', ''cancelling''])"

definition files_delete :: "batch_env \<Rightarrow> header_map \<Rightarrow> ustr \<Rightarrow> batch_handler" where
  "files_delete env headers i =
     (let tenant = headers_tenant env headers
      in reply_bind (list_openai_batches env tenant) (\<lambda>batches.
           if list_ex (\<lambda>b. ob_input_file_id b = i \<and> openai_active (ob_status b)) batches
           then reply (ErrorReply (conflict_response (str ''file '' @ i @ str '' is still used by an active batch'')))
           else reply_bind (on_store (durable_delete_json (be_durable env) openai_files_ns tenant i)) (\<lambda>deleted w.
             if deleted
             then (JsonReply (json_object
                     [(str ''id'', JString i), (str ''object'', JString (str ''file'')), (str ''deleted'', JBool True)]),
                   snd (delete_blob env openai_file_blobs_ns tenant i w))
             else file_missing i w)))"

end
