(* ===== verification/Api_Batch_Openai.thy ===== *)
theory Api_Batch_Openai
  imports Api_Batch_Files
begin

text \<open>
  \<^verbatim>\<open>batch_api.rs\<close>: the batches of the OpenAI interface, their handlers and the task that runs one. The
  requests of a batch are run by the handlers of the gateway, \<open>be_handle\<close>: the status and the body of
  the answer to an endpoint, headers and a body. They run several at a time and end in any order, and a
  cancelled batch drops those that have not ended: \<open>item_schedule\<close> says in which order they end, which
  are dropped, and whether the task finds itself cancelled at its beginning and after its last item.
\<close>

record openai_batch_create_request =
  obr_completion_window :: ustr
  obr_endpoint :: ustr
  obr_input_file_id :: ustr
  obr_metadata :: json
  obr_output_expires_after :: json

definition batch_endpoints :: "ustr list" where
  "batch_endpoints = map str [''/v1/chat/completions'', ''/v1/completions'', ''/v1/responses'']"

definition create_request_error :: "openai_batch_create_request \<Rightarrow> ustr option" where
  "create_request_error r =
     (if obr_completion_window r \<noteq> str ''24h'' then Some (str ''completion_window must be 24h'')
      else if obr_endpoint r \<notin> set batch_endpoints
      then Some (str ''batch endpoint '' @ obr_endpoint r @ str '' is not implemented by this gateway'')
      else if obr_output_expires_after r \<noteq> JNull
            \<and> Option.bind (json_get (str ''anchor'') (obr_output_expires_after r)) json_as_str \<noteq> Some (str ''created_at'')
      then Some (str ''output_expires_after.anchor must be created_at'')
      else None)"

definition new_openai_batch :: "openai_batch_create_request \<Rightarrow> ustr \<Rightarrow> ustr \<Rightarrow> u64 \<Rightarrow> openai_batch" where
  "new_openai_batch r tenant i created =
     \<lparr>ob_tenant_id = tenant, ob_id = i, ob_completion_window = obr_completion_window r, ob_created_at = created,
      ob_endpoint = obr_endpoint r, ob_input_file_id = obr_input_file_id r, ob_status = str ''validating'',
      ob_cancelled_at = None, ob_cancelling_at = None, ob_completed_at = None, ob_error_file_id = None,
      ob_errors = None, ob_expired_at = None,
      ob_expires_at = map_option (sat_add created)
        (Option.bind (json_get (str ''seconds'') (obr_output_expires_after r)) json_as_u64),
      ob_failed_at = None, ob_finalizing_at = None, ob_in_progress_at = None,
      ob_metadata = (if obr_metadata r = JNull then JObject [] else obr_metadata r),
      ob_output_file_id = None, ob_request_counts = openai_counts_default, ob_usage = provider_usage_default,
      ob_cancel_requested = False\<rparr>"

text \<open>\<^verbatim>\<open>spawn\<close> starts a task unless one runs under the same key.\<close>

definition spawn_openai_batch :: "openai_batch \<Rightarrow> batch_world \<Rightarrow> batch_world" where
  "spawn_openai_batch b w =
     (case job_reserve (openai_batch_job_key b) (bw_jobs w) of
        (True, jobs) \<Rightarrow> w\<lparr>bw_jobs := jobs, bw_openai := bw_openai w @ [(openai_batch_job_key b, b)]\<rparr>
      | (False, jobs) \<Rightarrow> w\<lparr>bw_jobs := jobs\<rparr>)"

definition openai_batches_create :: "batch_env \<Rightarrow> header_map \<Rightarrow> openai_batch_create_request \<Rightarrow> batch_handler" where
  "openai_batches_create env headers r =
     (case create_request_error r of
        Some message \<Rightarrow> invalid_request message
      | None \<Rightarrow>
          let tenant = headers_tenant env headers
          in reply_bind (get_file env tenant (obr_input_file_id r)) (\<lambda>f.
               case f of
                 None \<Rightarrow> invalid_request (str ''input_file_id not found: '' @ obr_input_file_id r)
               | Some f \<Rightarrow>
                   if fi_purpose f \<noteq> str ''batch''
                   then invalid_request (str ''input_file_id must reference a file with purpose=batch'')
                   else with_now env (\<lambda>created. with_uuid env (\<lambda>uuid.
                     let i = str ''batch_'' @ uuid; b = new_openai_batch r tenant i created
                     in reply_bind (put_openai_batch env tenant i b) (\<lambda>_ w.
                          (JsonReply (openai_batch_json b), spawn_openai_batch b w))))))"

definition batch_missing :: "ustr \<Rightarrow> batch_handler" where
  "batch_missing i = reply (ErrorReply (not_found_response (str ''batch not found: '' @ i)))"

definition openai_batches_retrieve :: "batch_env \<Rightarrow> header_map \<Rightarrow> ustr \<Rightarrow> batch_handler" where
  "openai_batches_retrieve env headers i =
     reply_bind (get_openai_batch env (headers_tenant env headers) i) (\<lambda>b.
       case b of Some b \<Rightarrow> reply (JsonReply (openai_batch_json b)) | None \<Rightarrow> batch_missing i)"

definition openai_batches_page :: "ustr option \<Rightarrow> nat option \<Rightarrow> openai_batch list \<Rightarrow> openai_batch list \<times> bool" where
  "openai_batches_page after limit batches =
     page_after ob_id (newest_created_first ob_created_at ob_id batches) after (page_limit 20 100 limit)"

definition openai_batches_list :: "batch_env \<Rightarrow> header_map \<Rightarrow> ustr option \<Rightarrow> nat option \<Rightarrow> batch_handler" where
  "openai_batches_list env headers after limit =
     reply_bind (list_openai_batches env (headers_tenant env headers)) (\<lambda>batches.
       case openai_batches_page after limit batches of
         (page, has_more) \<Rightarrow>
           reply (JsonReply (json_object
             ([(str ''object'', JString (str ''list'')), (str ''data'', JArray (map openai_batch_json page)),
               (str ''has_more'', JBool has_more)] @ page_ends ob_id page))))"

definition openai_terminal :: "ustr \<Rightarrow> bool" where
  "openai_terminal status \<longleftrightarrow> status \<in> set (map str [''completed'', ''failed'', ''cancelled'', ''expired''])"

definition cancelling_batch :: "u64 \<Rightarrow> openai_batch \<Rightarrow> openai_batch" where
  "cancelling_batch now b =
     b\<lparr>ob_cancel_requested := True, ob_status := str ''cancelling'', ob_cancelling_at := Some now\<rparr>"

text \<open>The second half of the handler, on the record that its first half has read.\<close>

definition openai_cancel_loaded :: "batch_env \<Rightarrow> ustr \<Rightarrow> ustr \<Rightarrow> openai_batch \<Rightarrow> batch_handler" where
  "openai_cancel_loaded env tenant i b =
     (if openai_terminal (ob_status b) then invalid_request (str ''batch '' @ i @ str '' is already terminal'')
      else with_now env (\<lambda>now.
        let b' = cancelling_batch now b
        in reply_bind (put_openai_batch env tenant i b') (\<lambda>_ w.
             (JsonReply (openai_batch_json b'),
              w\<lparr>bw_jobs := snd (job_cancel (openai_batch_job_key b') (bw_jobs w))\<rparr>))))"

definition openai_batches_cancel :: "batch_env \<Rightarrow> header_map \<Rightarrow> ustr \<Rightarrow> batch_handler" where
  "openai_batches_cancel env headers i =
     (let tenant = headers_tenant env headers
      in reply_bind (get_openai_batch env tenant i) (\<lambda>b.
           case b of Some b \<Rightarrow> openai_cancel_loaded env tenant i b | None \<Rightarrow> batch_missing i))"

section \<open>Lines and files\<close>

definition max_openai_batch_requests :: nat where "max_openai_batch_requests = 50000"

fun jsonl_bytes :: "batch_env \<Rightarrow> json list \<Rightarrow> ustr + nat list" where
  "jsonl_bytes env [] = Inr []"
| "jsonl_bytes env (l # ls) =
     ebind (du_to_vec (be_durable env) l) (\<lambda>bs. ebind (jsonl_bytes env ls) (\<lambda>rest. Inr (bs @ 10 # rest)))"

definition write_openai_batch_output_file ::
  "batch_env \<Rightarrow> ustr \<Rightarrow> ustr \<Rightarrow> ustr \<Rightarrow> json list \<Rightarrow> ustr option bw" where
  "write_openai_batch_output_file env tenant batch_id kind ls =
     (if ls = [] then Pair (Inr None)
      else with_uuid env (\<lambda>uuid w.
        let i = str ''file-'' @ uuid
        in case jsonl_bytes env ls of
             Inl e \<Rightarrow> (Inl e, w)
           | Inr bytes \<Rightarrow>
               with_now env (\<lambda>now.
                 let f = \<lparr>fi_tenant_id = tenant, fi_id = i, fi_bytes = word_of_nat (length bytes), fi_created_at = now,
                          fi_filename = batch_id @ str ''-'' @ kind @ str ''.jsonl'', fi_purpose = str ''batch_output'',
                          fi_status = str ''processed'', fi_expires_at = None, fi_status_details = None\<rparr>
                 in bw_bind (put_blob env openai_file_blobs_ns tenant i bytes) (\<lambda>_.
                    bw_bind (put_file env tenant i f) (\<lambda>_. Pair (Inr (Some i))))) w))"

text \<open>\<^verbatim>\<open>std::str::from_utf8\<close>: the text whose bytes these are.\<close>

definition from_utf8 :: "batch_env \<Rightarrow> nat list \<Rightarrow> ustr + ustr" where
  "from_utf8 env bytes =
     (let t = from_utf8_lossy bytes in if utf8_bytes t = bytes then Inr t else Inl (be_utf8_error env bytes))"

fun parse_batch_lines ::
  "batch_env \<Rightarrow> ustr \<Rightarrow> nat \<Rightarrow> openai_batch_input list \<Rightarrow> ustr list \<Rightarrow> ustr + openai_batch_input list" where
  "parse_batch_lines env endpoint n inputs [] = Inr inputs"
| "parse_batch_lines env endpoint n inputs (line # ls) =
     (if is_blank line then parse_batch_lines env endpoint (Suc n) inputs ls
      else if max_openai_batch_requests \<le> length inputs
      then Inl (str ''batch input exceeds '' @ show_nat max_openai_batch_requests @ str '' requests'')
      else case be_parse_line env line of
        Inl e \<Rightarrow> Inl (str ''invalid JSONL at line '' @ show_nat (n + 1) @ str '': '' @ e)
      | Inr i \<Rightarrow>
          if is_blank (obi_custom_id i) \<or> obi_custom_id i \<in> set (map obi_custom_id inputs)
          then Inl (str ''custom_id must be non-empty and unique at line '' @ show_nat (n + 1))
          else if \<not> eq_ignore_ascii_case (obi_method i) (str ''POST'')
          then Inl (str ''batch method must be POST at line '' @ show_nat (n + 1))
          else if obi_url i \<noteq> endpoint
          then Inl (str ''batch URL '' @ obi_url i @ str '' does not match endpoint '' @ endpoint @ str '' at line ''
                    @ show_nat (n + 1))
          else parse_batch_lines env endpoint (Suc n) (inputs @ [i]) ls)"

definition parse_batch_input :: "batch_env \<Rightarrow> ustr \<Rightarrow> nat list \<Rightarrow> ustr + openai_batch_input list" where
  "parse_batch_input env endpoint bytes =
     (case from_utf8 env bytes of
        Inl e \<Rightarrow> Inl (str ''batch input must be UTF-8 JSONL: '' @ e)
      | Inr t \<Rightarrow>
          ebind (parse_batch_lines env endpoint 0 [] (lines t)) (\<lambda>inputs.
            if inputs = [] then Inl (str ''batch input file contains no requests'') else Inr inputs))"

section \<open>Items\<close>

definition response_to_batch_result :: "batch_env \<Rightarrow> nat \<times> (ustr + nat list) \<Rightarrow> ustr + batch_dispatch_result" where
  "response_to_batch_result env response =
     (case response of (status, body) \<Rightarrow>
        ebind body (\<lambda>bytes.
          Inr \<lparr>bd_status_code = status,
               bd_body = (case du_from_slice (be_durable env) bytes of
                            Inr v \<Rightarrow> v
                          | Inl _ \<Rightarrow> json_object [(str ''body'', JString (from_utf8_lossy bytes))])\<rparr>))"

definition openai_item_body :: "ustr \<Rightarrow> ustr \<Rightarrow> json \<Rightarrow> json" where
  "openai_item_body tenant endpoint body =
     (case body of
        JObject m \<Rightarrow>
          (let m' = enforce_batch_tenant (bt_insert (str ''stream'') (JBool False) m) tenant
           in JObject (if endpoint = str ''/v1/responses'' then bt_insert (str ''background'') (JBool False) m' else m'))
      | v \<Rightarrow> v)"

definition dispatch_openai_batch_item :: "batch_env \<Rightarrow> ustr \<Rightarrow> ustr \<Rightarrow> json \<Rightarrow> ustr + batch_dispatch_result" where
  "dispatch_openai_batch_item env tenant endpoint body =
     ebind (tenant_headers tenant) (\<lambda>headers.
       if endpoint \<in> set batch_endpoints
       then response_to_batch_result env (be_handle env endpoint headers (openai_item_body tenant endpoint body))
       else Inl (str ''unsupported batch endpoint: '' @ endpoint))"

record 'i item_schedule =
  sch_cancelled_first :: bool
  sch_order :: "'i list \<Rightarrow> 'i list"
  sch_dropped :: "'i \<Rightarrow> bool"
  sch_cancelled_last :: bool

definition run_items :: "'i item_schedule \<Rightarrow> ('i \<Rightarrow> ustr) \<Rightarrow> ('i \<Rightarrow> 'r) \<Rightarrow> 'i list \<Rightarrow> (ustr \<times> 'r option) list" where
  "run_items sch custom dispatch inputs =
     map (\<lambda>i. (custom i, if sch_dropped sch i then None else Some (dispatch i))) (sch_order sch inputs)"

record batch_tally =
  ta_batch :: openai_batch
  ta_usage :: provider_usage
  ta_output :: "json list"
  ta_errors :: "json list"
  ta_cancelled :: u64

definition count_completed :: "openai_batch \<Rightarrow> openai_batch" where
  "count_completed b =
     b\<lparr>ob_request_counts := (ob_request_counts b)\<lparr>obc_completed := sat_add (obc_completed (ob_request_counts b)) 1\<rparr>\<rparr>"

definition count_failed :: "u64 \<Rightarrow> openai_batch \<Rightarrow> openai_batch" where
  "count_failed n b =
     b\<lparr>ob_request_counts := (ob_request_counts b)\<lparr>obc_failed := sat_add (obc_failed (ob_request_counts b)) n\<rparr>\<rparr>"

definition answer_line :: "ustr \<Rightarrow> ustr \<Rightarrow> batch_dispatch_result \<Rightarrow> json" where
  "answer_line request_id custom r = json_object
     [(str ''id'', JString request_id), (str ''custom_id'', JString custom),
      (str ''response'', json_object
        [(str ''status_code'', json_u64 (word_of_nat (bd_status_code r))), (str ''request_id'', JString request_id),
         (str ''body'', bd_body r)]),
      (str ''error'', JNull)]"

definition error_line :: "ustr \<Rightarrow> ustr \<Rightarrow> ustr \<Rightarrow> json" where
  "error_line request_id custom e = json_object
     [(str ''id'', JString request_id), (str ''custom_id'', JString custom), (str ''response'', JNull),
      (str ''error'', json_object
        [(str ''code'', JString (str ''batch_dispatch_error'')), (str ''message'', JString e)])]"

definition success_status :: "nat \<Rightarrow> bool" where
  "success_status status \<longleftrightarrow> 200 \<le> status \<and> status < 300"

definition tally_item ::
  "batch_env \<Rightarrow> ustr \<times> (ustr + batch_dispatch_result) option \<Rightarrow> batch_tally \<times> batch_world \<Rightarrow> batch_tally \<times> batch_world" where
  "tally_item env item s =
     (case s of (t, w) \<Rightarrow>
        (case item of
           (custom, None) \<Rightarrow> (t\<lparr>ta_cancelled := sat_add (ta_cancelled t) 1\<rparr>, w)
         | (custom, Some (Inr r)) \<Rightarrow>
             with_uuid env (\<lambda>uuid w.
               let line = answer_line (str ''batch_req_'' @ uuid) custom r
               in (if success_status (bd_status_code r)
                   then t\<lparr>ta_batch := count_completed (ta_batch t),
                          ta_usage := accumulate_json_usage (Some (bd_body r)) (ta_usage t),
                          ta_output := ta_output t @ [line]\<rparr>
                   else t\<lparr>ta_batch := count_failed 1 (ta_batch t), ta_errors := ta_errors t @ [line]\<rparr>, w)) w
         | (custom, Some (Inl e)) \<Rightarrow>
             with_uuid env (\<lambda>uuid w.
               (t\<lparr>ta_batch := count_failed 1 (ta_batch t),
                  ta_errors := ta_errors t @ [error_line (str ''batch_req_'' @ uuid) custom e]\<rparr>, w)) w))"

definition tally_items ::
  "batch_env \<Rightarrow> openai_batch \<Rightarrow> (ustr \<times> (ustr + batch_dispatch_result) option) list \<Rightarrow> batch_world \<Rightarrow> batch_tally \<times> batch_world" where
  "tally_items env b items w =
     (case fold (tally_item env) items
        (\<lparr>ta_batch = b, ta_usage = provider_usage_default, ta_output = [], ta_errors = [], ta_cancelled = 0\<rparr>, w) of
        (t, w') \<Rightarrow>
          (t\<lparr>ta_batch := (count_failed (ta_cancelled t) (ta_batch t))\<lparr>ob_usage := ta_usage t\<rparr>\<rparr>, w'))"

section \<open>The task\<close>

text \<open>Both ends of a task write the two files of the batch, then its record.\<close>

definition settle_openai_batch ::
  "batch_env \<Rightarrow> openai_batch \<Rightarrow> json list \<Rightarrow> json list \<Rightarrow> (u64 \<Rightarrow> openai_batch \<Rightarrow> openai_batch) \<Rightarrow> unit bw" where
  "settle_openai_batch env b output errors f =
     bw_bind (write_openai_batch_output_file env (ob_tenant_id b) (ob_id b) (str ''output'') output) (\<lambda>o_id.
     bw_bind (write_openai_batch_output_file env (ob_tenant_id b) (ob_id b) (str ''errors'') errors) (\<lambda>e_id.
     with_now env (\<lambda>now.
       put_openai_batch env (ob_tenant_id b) (ob_id b)
         (f now (b\<lparr>ob_output_file_id := o_id, ob_error_file_id := e_id\<rparr>)))))"

definition cancel_openai_batch :: "batch_env \<Rightarrow> openai_batch \<Rightarrow> json list \<Rightarrow> json list \<Rightarrow> unit bw" where
  "cancel_openai_batch env b output errors =
     settle_openai_batch env b output errors
       (\<lambda>now b. b\<lparr>ob_status := str ''cancelled'', ob_cancelled_at := Some now\<rparr>)"

text \<open>The input of a batch: its file, the content of the file, its lines.\<close>

definition load_batch_input :: "batch_env \<Rightarrow> openai_batch \<Rightarrow> openai_batch_input list bw" where
  "load_batch_input env b =
     bw_bind (get_file env (ob_tenant_id b) (ob_input_file_id b)) (\<lambda>f.
       case f of
         None \<Rightarrow> Pair (Inl (str ''input file not found: '' @ ob_input_file_id b))
       | Some f \<Rightarrow>
           if fi_purpose f \<noteq> str ''batch'' then Pair (Inl (str ''input file purpose must be batch''))
           else bw_bind (get_blob env openai_file_blobs_ns (ob_tenant_id b) (ob_input_file_id b)) (\<lambda>bytes.
             case bytes of
               None \<Rightarrow> Pair (Inl (str ''input file content is missing''))
             | Some bytes \<Rightarrow> Pair (parse_batch_input env (ob_endpoint b) bytes)))"

definition started_batch :: "u64 \<Rightarrow> nat \<Rightarrow> openai_batch \<Rightarrow> openai_batch" where
  "started_batch now n b =
     b\<lparr>ob_status := str ''in_progress'', ob_in_progress_at := Some now,
       ob_request_counts := (ob_request_counts b)\<lparr>obc_total := word_of_nat n\<rparr>\<rparr>"

definition start_openai_batch :: "batch_env \<Rightarrow> openai_batch \<Rightarrow> (openai_batch \<times> openai_batch_input list) bw" where
  "start_openai_batch env b =
     bw_bind (load_batch_input env b) (\<lambda>inputs.
       with_now env (\<lambda>now.
         let b' = started_batch now (length inputs) b
         in bw_bind (put_openai_batch env (ob_tenant_id b) (ob_id b) b') (\<lambda>_. Pair (Inr (b', inputs)))))"

definition finalize_openai_batch :: "batch_env \<Rightarrow> openai_batch \<Rightarrow> openai_batch bw" where
  "finalize_openai_batch env b =
     with_now env (\<lambda>now.
       let b' = b\<lparr>ob_status := str ''finalizing'', ob_finalizing_at := Some now\<rparr>
       in bw_bind (put_openai_batch env (ob_tenant_id b) (ob_id b) b') (\<lambda>_. Pair (Inr b')))"

definition complete_openai_batch :: "batch_env \<Rightarrow> openai_batch \<Rightarrow> json list \<Rightarrow> json list \<Rightarrow> unit bw" where
  "complete_openai_batch env b output errors =
     settle_openai_batch env b output errors
       (\<lambda>now b. b\<lparr>ob_status := str ''completed'', ob_completed_at := Some now\<rparr>)"

definition end_openai_batch :: "batch_env \<Rightarrow> bool \<Rightarrow> batch_tally \<Rightarrow> unit bw" where
  "end_openai_batch env cancelled t =
     (if cancelled \<or> ob_cancel_requested (ta_batch t) \<or> 0 < ta_cancelled t
      then cancel_openai_batch env (ta_batch t) (ta_output t) (ta_errors t)
      else bw_bind (finalize_openai_batch env (ta_batch t)) (\<lambda>b.
             complete_openai_batch env b (ta_output t) (ta_errors t)))"

definition run_openai_batch :: "batch_env \<Rightarrow> openai_batch_input item_schedule \<Rightarrow> openai_batch \<Rightarrow> unit bw" where
  "run_openai_batch env sch b =
     (if ob_cancel_requested b \<or> sch_cancelled_first sch then cancel_openai_batch env b [] []
      else bw_bind (start_openai_batch env b) (\<lambda>(b', inputs) w.
        case tally_items env b'
               (run_items sch obi_custom_id
                  (\<lambda>i. dispatch_openai_batch_item env (ob_tenant_id b) (ob_endpoint b) (obi_body i)) inputs) w of
          (t, w') \<Rightarrow> end_openai_batch env (sch_cancelled_last sch) t w'))"

definition failure_item :: "ustr \<Rightarrow> json" where
  "failure_item e = json_object
     [(str ''code'', JString (str ''invalid_batch_file'')), (str ''message'', JString e),
      (str ''param'', JString (str ''input_file_id'')), (str ''line'', JNull)]"

definition failed_batch :: "u64 \<Rightarrow> ustr \<Rightarrow> openai_batch \<Rightarrow> openai_batch" where
  "failed_batch now e b =
     b\<lparr>ob_status := str ''failed'', ob_failed_at := Some now,
       ob_errors := Some (json_object
         [(str ''object'', JString (str ''list'')), (str ''data'', JArray [failure_item e])])\<rparr>"

definition fail_openai_batch :: "batch_env \<Rightarrow> openai_batch \<Rightarrow> ustr \<Rightarrow> batch_world \<Rightarrow> batch_world" where
  "fail_openai_batch env b e =
     with_now env (\<lambda>now w.
       let b' = failed_batch now e b
       in case write_openai_batch_output_file env (ob_tenant_id b') (ob_id b') (str ''validation-errors'')
                 [json_object [(str ''error'', failure_item e)]] w of
            (r, w') \<Rightarrow>
              snd (put_openai_batch env (ob_tenant_id b') (ob_id b')
                (case r of Inr file_id \<Rightarrow> b'\<lparr>ob_error_file_id := file_id\<rparr> | Inl _ \<Rightarrow> b') w'))"

definition openai_batch_task :: "batch_env \<Rightarrow> openai_batch_input item_schedule \<Rightarrow> openai_batch \<Rightarrow> batch_world \<Rightarrow> batch_world" where
  "openai_batch_task env sch b w =
     (case run_openai_batch env sch b w of
        (Inr _, w') \<Rightarrow> w'
      | (Inl e, w') \<Rightarrow> fail_openai_batch env b e w')"

end
