(* ===== verification/Api_Batch_Anthropic.thy ===== *)
theory Api_Batch_Anthropic
  imports Api_Batch_Openai
begin

text \<open>
  \<^verbatim>\<open>batch_api.rs\<close>: the Message Batches of the Anthropic interface, their handlers and the task that runs
  one, and the restart of unfinished batches of both interfaces.
\<close>

definition anthropic_batches_ns :: ustr where "anthropic_batches_ns = str ''anthropic_message_batches''"
definition anthropic_inputs_ns :: ustr where "anthropic_inputs_ns = str ''anthropic_message_batch_inputs''"
definition anthropic_results_ns :: ustr where "anthropic_results_ns = str ''anthropic_message_batch_results''"
definition max_anthropic_batch_requests :: nat where "max_anthropic_batch_requests = 100000"

definition get_anthropic_batch :: "batch_env \<Rightarrow> ustr \<Rightarrow> ustr \<Rightarrow> anthropic_batch option bw" where
  "get_anthropic_batch env tenant i =
     on_store (durable_get_json (be_durable env) (decoded_as env anthropic_batch_of_value) anthropic_batches_ns tenant i)"

definition put_anthropic_batch :: "batch_env \<Rightarrow> ustr \<Rightarrow> ustr \<Rightarrow> anthropic_batch \<Rightarrow> unit bw" where
  "put_anthropic_batch env tenant i b =
     on_store (durable_put_json (be_durable env) (\<lambda>b. Inr (anthropic_batch_to_value b)) anthropic_batches_ns tenant i b)"

definition list_anthropic_batches :: "batch_env \<Rightarrow> ustr \<Rightarrow> anthropic_batch list bw" where
  "list_anthropic_batches env tenant =
     on_store (durable_list_json (be_durable env) (decoded_as env anthropic_batch_of_value) anthropic_batches_ns tenant)"

section \<open>Handlers\<close>

fun anthropic_requests_error :: "ustr list \<Rightarrow> anthropic_batch_input list \<Rightarrow> ustr option" where
  "anthropic_requests_error seen [] = None"
| "anthropic_requests_error seen (i # is) =
     (if is_blank (abi_custom_id i) \<or> abi_custom_id i \<in> set seen
      then Some (str ''each Message Batch custom_id must be non-empty and unique'')
      else if Option.bind (json_get (str ''stream'') (abi_params i)) json_as_bool = Some True
      then Some (str ''Message Batch requests cannot stream'')
      else anthropic_requests_error (abi_custom_id i # seen) is)"

definition anthropic_create_error :: "anthropic_batch_input list \<Rightarrow> ustr option" where
  "anthropic_create_error requests =
     (if requests = [] \<or> max_anthropic_batch_requests < length requests
      then Some (str ''requests must contain between 1 and '' @ show_nat max_anthropic_batch_requests @ str '' items'')
      else anthropic_requests_error [] requests)"

definition spawn_anthropic_batch :: "anthropic_batch \<Rightarrow> batch_world \<Rightarrow> batch_world" where
  "spawn_anthropic_batch b w =
     (case job_reserve (anthropic_batch_job_key b) (bw_jobs w) of
        (True, jobs) \<Rightarrow> w\<lparr>bw_jobs := jobs, bw_anthropic := bw_anthropic w @ [(anthropic_batch_job_key b, b)]\<rparr>
      | (False, jobs) \<Rightarrow> w\<lparr>bw_jobs := jobs\<rparr>)"

definition new_anthropic_batch :: "ustr \<Rightarrow> ustr \<Rightarrow> u64 \<Rightarrow> nat \<Rightarrow> anthropic_batch" where
  "new_anthropic_batch tenant i created n =
     \<lparr>ab_tenant_id = tenant, ab_id = i, ab_created_at = created, ab_expires_at = sat_add created (24 * 60 * 60),
      ab_ended_at = None, ab_cancel_initiated_at = None, ab_archived_at = None,
      ab_processing_status = str ''in_progress'',
      ab_request_counts = anthropic_counts_default\<lparr>abc_processing := word_of_nat n\<rparr>, ab_cancel_requested = False\<rparr>"

definition anthropic_batches_create :: "batch_env \<Rightarrow> header_map \<Rightarrow> anthropic_batch_input list \<Rightarrow> batch_handler" where
  "anthropic_batches_create env headers requests =
     (case anthropic_create_error requests of
        Some message \<Rightarrow> invalid_request message
      | None \<Rightarrow>
          let tenant = headers_tenant env headers
          in with_now env (\<lambda>created. with_uuid env (\<lambda>uuid.
               let i = str ''msgbatch_'' @ uuid; b = new_anthropic_batch tenant i created (length requests)
               in reply_bind (Pair (be_print_inputs env requests)) (\<lambda>input.
                  reply_bind (put_blob env anthropic_inputs_ns tenant i input) (\<lambda>_ w.
                    case put_anthropic_batch env tenant i b w of
                      (Inr _, w') \<Rightarrow>
                        (JsonReply (anthropic_batch_json (be_datetime env) b), spawn_anthropic_batch b w')
                    | (Inl e, w') \<Rightarrow>
                        (ErrorReply (internal_error_response e),
                         snd (delete_blob env anthropic_inputs_ns tenant i w')))))))"

definition message_batch_missing :: "ustr \<Rightarrow> batch_handler" where
  "message_batch_missing i = reply (ErrorReply (not_found_response (str ''message batch not found: '' @ i)))"

definition anthropic_batches_retrieve :: "batch_env \<Rightarrow> header_map \<Rightarrow> ustr \<Rightarrow> batch_handler" where
  "anthropic_batches_retrieve env headers i =
     reply_bind (get_anthropic_batch env (headers_tenant env headers) i) (\<lambda>b.
       case b of
         Some b \<Rightarrow> reply (JsonReply (anthropic_batch_json (be_datetime env) b))
       | None \<Rightarrow> message_batch_missing i)"

definition anthropic_batches_page ::
  "ustr option \<Rightarrow> ustr option \<Rightarrow> nat option \<Rightarrow> anthropic_batch list \<Rightarrow> anthropic_batch list \<times> bool" where
  "anthropic_batches_page after_id before_id limit batches =
     (let sorted = newest_created_first ab_created_at ab_id batches;
          kept = (case Option.bind before_id (\<lambda>b. find_idx (\<lambda>x. ab_id x = b) sorted) of
                    Some p \<Rightarrow> take p sorted | None \<Rightarrow> sorted)
      in page_after ab_id kept after_id (page_limit 20 1000 limit))"

definition anthropic_batches_list ::
  "batch_env \<Rightarrow> header_map \<Rightarrow> ustr option \<Rightarrow> ustr option \<Rightarrow> nat option \<Rightarrow> batch_handler" where
  "anthropic_batches_list env headers after_id before_id limit =
     (if after_id \<noteq> None \<and> before_id \<noteq> None
      then invalid_request (str ''after_id and before_id cannot be used together'')
      else reply_bind (list_anthropic_batches env (headers_tenant env headers)) (\<lambda>batches.
        case anthropic_batches_page after_id before_id limit batches of
          (page, has_more) \<Rightarrow>
            reply (JsonReply (json_object
              ([(str ''data'', JArray (map (anthropic_batch_json (be_datetime env)) page)),
                (str ''has_more'', JBool has_more)] @ page_ends ab_id page)))))"

definition anthropic_batches_results :: "batch_env \<Rightarrow> header_map \<Rightarrow> ustr \<Rightarrow> batch_handler" where
  "anthropic_batches_results env headers i =
     (let tenant = headers_tenant env headers
      in reply_bind (get_anthropic_batch env tenant i) (\<lambda>b.
           case b of
             None \<Rightarrow> message_batch_missing i
           | Some b \<Rightarrow>
               if ab_processing_status b \<noteq> str ''ended''
               then reply (ErrorReply (conflict_response (str ''message batch '' @ i @ str '' has not ended'')))
               else reply_bind (get_blob env anthropic_results_ns tenant i) (\<lambda>bytes.
                 case bytes of
                   Some bytes \<Rightarrow> reply (built_reply env [(str ''content-type'', str ''application/x-ndjson'')] bytes)
                 | None \<Rightarrow> reply (ErrorReply (internal_error_response (str ''results missing for message batch '' @ i))))))"

definition canceling_batch :: "u64 \<Rightarrow> anthropic_batch \<Rightarrow> anthropic_batch" where
  "canceling_batch now b =
     b\<lparr>ab_cancel_requested := True, ab_processing_status := str ''canceling'', ab_cancel_initiated_at := Some now\<rparr>"

definition anthropic_cancel_loaded :: "batch_env \<Rightarrow> ustr \<Rightarrow> ustr \<Rightarrow> anthropic_batch \<Rightarrow> batch_handler" where
  "anthropic_cancel_loaded env tenant i b =
     (if ab_processing_status b = str ''ended''
      then invalid_request (str ''message batch '' @ i @ str '' has already ended'')
      else with_now env (\<lambda>now.
        let b' = canceling_batch now b
        in reply_bind (put_anthropic_batch env tenant i b') (\<lambda>_ w.
             (JsonReply (anthropic_batch_json (be_datetime env) b'),
              w\<lparr>bw_jobs := snd (job_cancel (anthropic_batch_job_key b') (bw_jobs w))\<rparr>))))"

definition anthropic_batches_cancel :: "batch_env \<Rightarrow> header_map \<Rightarrow> ustr \<Rightarrow> batch_handler" where
  "anthropic_batches_cancel env headers i =
     (let tenant = headers_tenant env headers
      in reply_bind (get_anthropic_batch env tenant i) (\<lambda>b.
           case b of Some b \<Rightarrow> anthropic_cancel_loaded env tenant i b | None \<Rightarrow> message_batch_missing i))"

definition anthropic_batches_delete :: "batch_env \<Rightarrow> header_map \<Rightarrow> ustr \<Rightarrow> batch_handler" where
  "anthropic_batches_delete env headers i =
     (let tenant = headers_tenant env headers
      in reply_bind (get_anthropic_batch env tenant i) (\<lambda>b.
           case b of
             None \<Rightarrow> message_batch_missing i
           | Some b \<Rightarrow>
               if ab_processing_status b \<noteq> str ''ended''
               then reply (ErrorReply (conflict_response
                      (str ''Message Batches can only be deleted after processing has ended'')))
               else reply_bind (on_store (durable_delete_json (be_durable env) anthropic_batches_ns tenant i)) (\<lambda>_ w.
                 let w1 = snd (delete_blob env anthropic_inputs_ns tenant i w);
                     w2 = snd (delete_blob env anthropic_results_ns tenant i w1)
                 in (JsonReply (json_object
                       [(str ''id'', JString i), (str ''type'', JString (str ''message_batch_deleted''))]), w2))))"

section \<open>The task\<close>

definition write_jsonl_blob :: "batch_env \<Rightarrow> ustr \<Rightarrow> ustr \<Rightarrow> ustr \<Rightarrow> json list \<Rightarrow> unit bw" where
  "write_jsonl_blob env ns tenant i ls =
     (case jsonl_bytes env ls of Inl e \<Rightarrow> Pair (Inl e) | Inr bytes \<Rightarrow> put_blob env ns tenant i bytes)"

definition anthropic_item_body :: "ustr \<Rightarrow> json \<Rightarrow> json" where
  "anthropic_item_body tenant body =
     (case body of
        JObject m \<Rightarrow> JObject (enforce_batch_tenant (bt_insert (str ''stream'') (JBool False) m) tenant)
      | v \<Rightarrow> v)"

definition dispatch_anthropic_batch_item :: "batch_env \<Rightarrow> ustr \<Rightarrow> json \<Rightarrow> ustr + batch_dispatch_result" where
  "dispatch_anthropic_batch_item env tenant body =
     ebind (tenant_headers tenant) (\<lambda>headers.
       response_to_batch_result env
         (be_handle env (str ''/v1/messages'') headers (anthropic_item_body tenant body)))"

definition canceled_result :: json where
  "canceled_result = json_object [(str ''type'', JString (str ''canceled''))]"

definition errored_result :: "json \<Rightarrow> json" where
  "errored_result e = json_object [(str ''type'', JString (str ''errored'')), (str ''error'', e)]"

definition api_error_value :: "ustr \<Rightarrow> json" where
  "api_error_value e = json_object [(str ''type'', JString (str ''api_error'')), (str ''message'', JString e)]"

definition anthropic_item_result ::
  "(ustr + batch_dispatch_result) option \<Rightarrow> anthropic_batch_counts \<Rightarrow> json \<times> anthropic_batch_counts" where
  "anthropic_item_result r c =
     (case r of
        None \<Rightarrow> (canceled_result, c\<lparr>abc_canceled := sat_add (abc_canceled c) 1\<rparr>)
      | Some (Inr d) \<Rightarrow>
          (if success_status (bd_status_code d)
           then (json_object [(str ''type'', JString (str ''succeeded'')), (str ''message'', bd_body d)],
                 c\<lparr>abc_succeeded := sat_add (abc_succeeded c) 1\<rparr>)
           else (errored_result (case json_get (str ''error'') (bd_body d) of Some e \<Rightarrow> e | None \<Rightarrow> bd_body d),
                 c\<lparr>abc_errored := sat_add (abc_errored c) 1\<rparr>))
      | Some (Inl e) \<Rightarrow> (errored_result (api_error_value e), c\<lparr>abc_errored := sat_add (abc_errored c) 1\<rparr>))"

definition batch_result_line :: "ustr \<Rightarrow> json \<Rightarrow> json" where
  "batch_result_line custom r = json_object [(str ''custom_id'', JString custom), (str ''result'', r)]"

fun anthropic_results ::
  "(ustr \<times> (ustr + batch_dispatch_result) option) list \<Rightarrow> anthropic_batch_counts \<Rightarrow> json list \<times> anthropic_batch_counts" where
  "anthropic_results [] c = ([], c)"
| "anthropic_results ((custom, r) # rs) c =
     (case anthropic_item_result r c of (v, c') \<Rightarrow>
        (case anthropic_results rs c' of (ls, c'') \<Rightarrow> (batch_result_line custom v # ls, c'')))"

definition ended_batch :: "u64 \<Rightarrow> anthropic_batch_counts \<Rightarrow> anthropic_batch \<Rightarrow> anthropic_batch" where
  "ended_batch now c b =
     b\<lparr>ab_processing_status := str ''ended'', ab_ended_at := Some now, ab_request_counts := c\<rparr>"

definition end_anthropic_batch :: "batch_env \<Rightarrow> anthropic_batch \<Rightarrow> json list \<Rightarrow> anthropic_batch_counts \<Rightarrow> unit bw" where
  "end_anthropic_batch env b ls c =
     bw_bind (write_jsonl_blob env anthropic_results_ns (ab_tenant_id b) (ab_id b) ls) (\<lambda>_.
     with_now env (\<lambda>now. put_anthropic_batch env (ab_tenant_id b) (ab_id b) (ended_batch now c b)))"

definition finish_cancelled_anthropic_batch :: "batch_env \<Rightarrow> anthropic_batch \<Rightarrow> anthropic_batch_input list \<Rightarrow> unit bw" where
  "finish_cancelled_anthropic_batch env b inputs =
     end_anthropic_batch env b (map (\<lambda>i. batch_result_line (abi_custom_id i) canceled_result) inputs)
       (anthropic_counts_default\<lparr>abc_canceled := word_of_nat (length inputs)\<rparr>)"

definition load_anthropic_inputs :: "batch_env \<Rightarrow> anthropic_batch \<Rightarrow> anthropic_batch_input list bw" where
  "load_anthropic_inputs env b =
     bw_bind (get_blob env anthropic_inputs_ns (ab_tenant_id b) (ab_id b)) (\<lambda>bytes.
       Pair (case bytes of
               None \<Rightarrow> Inl (str ''Message Batch input is missing'')
             | Some bytes \<Rightarrow>
                 (case be_parse_inputs env bytes of
                    Inl e \<Rightarrow> Inl (str ''invalid persisted Message Batch input: '' @ e)
                  | Inr inputs \<Rightarrow> Inr inputs)))"

definition run_anthropic_batch ::
  "batch_env \<Rightarrow> anthropic_batch_input item_schedule \<Rightarrow> anthropic_batch \<Rightarrow> unit bw" where
  "run_anthropic_batch env sch b =
     bw_bind (load_anthropic_inputs env b) (\<lambda>inputs.
       if ab_cancel_requested b \<or> sch_cancelled_first sch then finish_cancelled_anthropic_batch env b inputs
       else case anthropic_results
                   (run_items sch abi_custom_id
                      (\<lambda>i. dispatch_anthropic_batch_item env (ab_tenant_id b) (abi_params i)) inputs)
                   anthropic_counts_default of
              (ls, c) \<Rightarrow> end_anthropic_batch env b ls (c\<lparr>abc_processing := 0\<rparr>))"

definition fail_anthropic_batch :: "batch_env \<Rightarrow> anthropic_batch \<Rightarrow> ustr \<Rightarrow> batch_world \<Rightarrow> batch_world" where
  "fail_anthropic_batch env b e w =
     (let line = batch_result_line (str ''_batch'') (errored_result (api_error_value e));
          w1 = snd (write_jsonl_blob env anthropic_results_ns (ab_tenant_id b) (ab_id b) [line] w);
          c = ab_request_counts b
      in with_now env (\<lambda>now w.
           snd (put_anthropic_batch env (ab_tenant_id b) (ab_id b)
             (ended_batch now (c\<lparr>abc_processing := 0, abc_errored := max (abc_errored c) 1\<rparr>) b) w)) w1)"

definition anthropic_batch_task ::
  "batch_env \<Rightarrow> anthropic_batch_input item_schedule \<Rightarrow> anthropic_batch \<Rightarrow> batch_world \<Rightarrow> batch_world" where
  "anthropic_batch_task env sch b w =
     (case run_anthropic_batch env sch b w of
        (Inr _, w') \<Rightarrow> w'
      | (Inl e, w') \<Rightarrow> fail_anthropic_batch env b e w')"

section \<open>Restarts\<close>

definition anthropic_active :: "ustr \<Rightarrow> bool" where
  "anthropic_active status \<longleftrightarrow> status \<in> set (map str [''in_progress'', ''canceling''])"

definition recover_openai_batches :: "batch_env \<Rightarrow> batch_world \<Rightarrow> batch_world" where
  "recover_openai_batches env w =
     (case on_store (durable_list_all_json (be_durable env) (decoded_as env openai_batch_of_value) openai_batches_ns) w of
        (Inr batches, w') \<Rightarrow> fold (\<lambda>b w. if openai_active (ob_status b) then spawn_openai_batch b w else w) batches w'
      | (Inl _, w') \<Rightarrow> w')"

definition recover_anthropic_batches :: "batch_env \<Rightarrow> batch_world \<Rightarrow> batch_world" where
  "recover_anthropic_batches env w =
     (case on_store (durable_list_all_json (be_durable env) (decoded_as env anthropic_batch_of_value) anthropic_batches_ns) w of
        (Inr batches, w') \<Rightarrow>
          fold (\<lambda>b w. if anthropic_active (ab_processing_status b) then spawn_anthropic_batch b w else w) batches w'
      | (Inl _, w') \<Rightarrow> w')"

text \<open>The restart of background responses, which comes last, is not part of this world.\<close>

definition recover_durable_jobs :: "batch_env \<Rightarrow> batch_world \<Rightarrow> batch_world" where
  "recover_durable_jobs env w = recover_anthropic_batches env (recover_openai_batches env w)"

end
