(* ===== verification/Api_Batch_Facts.thy ===== *)
theory Api_Batch_Facts
  imports Api_Batch_Anthropic
begin

text \<open>
  What the batch interfaces keep: records survive the store, an input file is accepted exactly when it
  is well-formed, the counts of a batch add up, its items run for its tenant, a page walk shows every
  object once, and every task leaves its batch in a terminal state.
\<close>

section \<open>Records in the durable store\<close>

lemma put_record:
  "durable_put_json env (\<lambda>r. Inr (to r)) n t i r st = put_object env (n, t, i) (to r) st"
  by (simp add: put_object_def durable_put_json_def)

lemma get_record:
  "durable_get_json env from n t i st =
    (case get_object env (n, t, i) st of
       (r, st') \<Rightarrow> (ebind r (\<lambda>v. case v of None \<Rightarrow> Inr None | Some j \<Rightarrow> ebind (from j) (\<lambda>x. Inr (Some x))), st'))"
proof -
  have e: "ebind (ebind r (\<lambda>v. case v of None \<Rightarrow> Inr None | Some j \<Rightarrow> Inr (Some j)))
        (\<lambda>v. case v of None \<Rightarrow> Inr None | Some j \<Rightarrow> ebind (from j) (\<lambda>x. Inr (Some x)))
      = ebind r (\<lambda>v. case v of None \<Rightarrow> Inr None | Some j \<Rightarrow> ebind (from j) (\<lambda>x. Inr (Some x)))" for r :: "ustr + json option"
    by (cases r) (auto split: option.split)
  show ?thesis
    by (cases "validate_key n i") (simp_all add: get_object_def durable_get_json_def e split: prod.split)
qed

text \<open>
  What \<^verbatim>\<open>serde_json\<close> promises of a value: it is printed, and read back as it was when it is plain. The
  parser's limit on the depth allows 127 arrays and objects around a value, and numbers with a fraction
  are left out, as they may come back with another last digit. A negative number is kept as such, and the
  keys of an object are sorted.
\<close>

fun scalar_plain :: "json \<Rightarrow> bool" where
  "scalar_plain (JNumber (NegInt v)) = (sint v < 0)"
| "scalar_plain (JNumber (FloatBits _)) = False"
| "scalar_plain (JArray _) = False"
| "scalar_plain (JObject _) = False"
| "scalar_plain _ = True"

fun json_plain :: "nat \<Rightarrow> json \<Rightarrow> bool" where
  "json_plain 0 v = scalar_plain v"
| "json_plain (Suc n) v =
     (case v of
        JArray xs \<Rightarrow> list_all (json_plain n) xs
      | JObject m \<Rightarrow> bt_wf m \<and> list_all (\<lambda>f. json_plain n (snd f)) m
      | _ \<Rightarrow> scalar_plain v)"

definition serde_lawful :: "durable_env \<Rightarrow> bool" where
  "serde_lawful D \<longleftrightarrow>
     (\<forall>v. \<exists>bytes. du_to_vec D v = Inr bytes) \<and> (\<forall>v. json_plain 127 v \<longrightarrow> json_storable D v)"

lemma scalar_json_plain [simp]:
  "json_plain n JNull" "json_plain n (JBool b)" "json_plain n (JString t)" "json_plain n (json_u64 k)"
  "json_plain n (json_option json_u64 x)" "json_plain n (json_option JString y)"
  by (cases n; simp add: json_u64_def json_option_def split: option.split)+

lemma empty_plain [simp]: "0 < n \<Longrightarrow> json_plain n (JObject [])"
  by (cases n) simp_all

lemma option_plain: "pred_option (json_plain n) x \<Longrightarrow> json_plain n (json_option (\<lambda>v. v) x)"
  by (cases x) (simp_all add: json_option_def)

lemma object_plain:
  assumes "0 < n" and "list_all (\<lambda>f. json_plain (n - 1) (snd f)) fs"
  shows "json_plain n (json_object fs)"
proof -
  have vs: "list_all (\<lambda>f. json_plain k (snd f)) (bt_insert a v m)"
    if "json_plain k v" "list_all (\<lambda>f. json_plain k (snd f)) m" for k a v m
    using that by (induction m) auto
  have "bt_wf (fold (\<lambda>f. bt_insert (fst f) (snd f)) fs m)
      \<and> list_all (\<lambda>f. json_plain (n - 1) (snd f)) (fold (\<lambda>f. bt_insert (fst f) (snd f)) fs m)"
    if "bt_wf m" "list_all (\<lambda>f. json_plain (n - 1) (snd f)) m" for m
    using assms(2) that by (induction fs arbitrary: m) (simp_all add: vs bt_wf_insert)
  from this [of "[]"] assms(1) show ?thesis by (cases n) (simp_all add: json_object_def)
qed

text \<open>Files and Message Batches are plain; a batch is when its metadata and its errors are.\<close>

lemma file_plain: "json_plain 127 (file_to_value f)"
  unfolding file_to_value_def by (rule object_plain) simp_all

lemma anthropic_plain: "json_plain 127 (anthropic_batch_to_value b)"
  unfolding anthropic_batch_to_value_def anthropic_counts_to_value_def
  by (rule object_plain) (simp_all add: object_plain)

definition storable_batch :: "openai_batch \<Rightarrow> bool" where
  "storable_batch b \<longleftrightarrow>
     ob_errors b \<noteq> Some JNull \<and> pred_option (json_plain 126) (ob_errors b) \<and> json_plain 126 (ob_metadata b)"

declare storable_batch_def [simp]

lemma batch_plain: "storable_batch b \<Longrightarrow> json_plain 127 (openai_batch_to_value b)"
  unfolding openai_batch_to_value_def openai_counts_to_value_def usage_to_value_def
  by (rule object_plain) (simp_all add: object_plain option_plain)

definition bw_ok :: "batch_env \<Rightarrow> batch_world \<Rightarrow> bool" where
  "bw_ok env w \<longleftrightarrow> durable_inv (be_durable env) (bw_store w) \<and> serde_lawful (be_durable env)"

text \<open>What the store holds under a key of the batch interfaces.\<close>

definition object_in :: "batch_env \<Rightarrow> batch_world \<Rightarrow> ustr \<Rightarrow> ustr \<Rightarrow> ustr \<Rightarrow> json option" where
  "object_in env w n t i = object_at (be_durable env) (bw_store w) (key_cell (be_durable env) (n, t, i))"

definition blob_in :: "batch_env \<Rightarrow> batch_world \<Rightarrow> ustr \<Rightarrow> ustr \<Rightarrow> ustr \<Rightarrow> nat list option" where
  "blob_in env w n t i = blob_at (bw_store w) (key_cell (be_durable env) (n, t, i))"

definition same_objects :: "batch_env \<Rightarrow> ustr \<Rightarrow> batch_world \<Rightarrow> batch_world \<Rightarrow> bool" where
  "same_objects env n w w' \<longleftrightarrow> (\<forall>t i. object_in env w' n t i = object_in env w n t i)"

lemma bw_ok_updates [simp]:
  "bw_ok env (w\<lparr>bw_ticks := a\<rparr>) = bw_ok env w" "bw_ok env (w\<lparr>bw_uuids := a\<rparr>) = bw_ok env w"
  "bw_ok env (w\<lparr>bw_jobs := j\<rparr>) = bw_ok env w"
  "object_in env (w\<lparr>bw_ticks := a\<rparr>) = object_in env w" "object_in env (w\<lparr>bw_uuids := a\<rparr>) = object_in env w"
  "object_in env (w\<lparr>bw_jobs := j\<rparr>) = object_in env w"
  "blob_in env (w\<lparr>bw_ticks := a\<rparr>) = blob_in env w" "blob_in env (w\<lparr>bw_uuids := a\<rparr>) = blob_in env w"
  by (simp_all add: bw_ok_def object_in_def blob_in_def fun_eq_iff)

lemma key_ok_iff: "key_ok (n, t, i) \<longleftrightarrow> component_ok n \<and> component_ok i"
  by (simp add: key_ok_def)

lemma namespaces_ok:
  "component_ok openai_files_ns" "component_ok openai_file_blobs_ns" "component_ok openai_batches_ns"
  "component_ok anthropic_batches_ns" "component_ok anthropic_inputs_ns" "component_ok anthropic_results_ns"
  by (simp_all add: component_ok_def openai_files_ns_def openai_file_blobs_ns_def openai_batches_ns_def
      anthropic_batches_ns_def anthropic_inputs_ns_def anthropic_results_ns_def str_def utf8_len_def utf8_width_def
      is_component_char_def char_class_defs)

lemma namespaces_differ: "openai_files_ns \<noteq> openai_batches_ns"
  by (simp add: openai_files_ns_def openai_batches_ns_def)

text \<open>One write and one read of a record.\<close>

lemma world_put:
  assumes ok: "bw_ok env w" and i: "component_ok n" "component_ok i" and plain: "json_plain 127 (to r)"
  obtains w' where "on_store (durable_put_json (be_durable env) (\<lambda>r. Inr (to r)) n t i r) w = (Inr (), w')"
    and "bw_ok env w'" and "w' = w\<lparr>bw_store := bw_store w'\<rparr>"
    and "object_in env w' n t i = Some (to r)"
    and "\<And>n' t' i'. (n', i') \<noteq> (n, i) \<Longrightarrow> object_in env w' n' t' i' = object_in env w n' t' i'"
    and "\<And>n' t' i'. blob_in env w' n' t' i' = blob_in env w n' t' i'"
proof -
  have k: "key_ok (n, t, i)" using i by (simp add: key_ok_iff)
  obtain st where st: "put_object (be_durable env) (n, t, i) (to r) (bw_store w) = (Inr (), st)" "durable_inv (be_durable env) st"
    "object_at (be_durable env) st = (object_at (be_durable env) (bw_store w))(key_cell (be_durable env) (n, t, i) \<mapsto> to r)"
    "blob_at st = blob_at (bw_store w)"
    using objects.put_law [of "be_durable env" "bw_store w" "(n, t, i)" "to r"] ok k plain
    by (auto simp: bw_ok_def serde_lawful_def)
  show thesis
    by (rule that [of "w\<lparr>bw_store := st\<rparr>"])
      (use ok st in \<open>auto simp: on_store_def put_record bw_ok_def object_in_def blob_in_def key_cell_def\<close>)
qed

lemmas world_put_file = world_put [where to = file_to_value, OF _ namespaces_ok(1) _ file_plain]
lemmas world_put_batch = world_put [where to = openai_batch_to_value, OF _ namespaces_ok(3) _ batch_plain]
lemmas world_put_message_batch = world_put [where to = anthropic_batch_to_value, OF _ namespaces_ok(4) _ anthropic_plain]

lemma world_put_refused:
  assumes "\<not> (component_ok n \<and> component_ok i)"
  shows "\<exists>e. on_store (durable_put_json (be_durable env) (\<lambda>r. Inr (to r)) n t i r) w = (Inl e, w)"
    and "\<exists>e. put_blob env n t i bytes w = (Inl e, w)"
  using refused_step [of "(n, t, i)"] assms
  by (auto simp: on_store_def put_record key_ok_iff put_blob_def put_bytes_def split: prod.splits)

lemma world_put_blob:
  assumes ok: "bw_ok env w" and i: "component_ok n" "component_ok i"
  obtains w' where "put_blob env n t i bytes w = (Inr (), w')" and "bw_ok env w'" and "w' = w\<lparr>bw_store := bw_store w'\<rparr>"
    and "blob_in env w' n t i = Some bytes"
    and "\<And>n' t' i'. (n', i') \<noteq> (n, i) \<Longrightarrow> blob_in env w' n' t' i' = blob_in env w n' t' i'"
    and "\<And>n' t' i'. object_in env w' n' t' i' = object_in env w n' t' i'"
proof -
  have k: "key_ok (n, t, i)" using i by (simp add: key_ok_iff)
  obtain st where st: "put_bytes (be_durable env) (n, t, i) bytes (bw_store w) = (Inr (), st)" "durable_inv (be_durable env) st"
    "blob_at st = (blob_at (bw_store w))(key_cell (be_durable env) (n, t, i) \<mapsto> bytes)"
    "object_at (be_durable env) st = object_at (be_durable env) (bw_store w)"
    using blobs.put_law [of "be_durable env" "bw_store w" "(n, t, i)" bytes] ok k by (auto simp: bw_ok_def)
  show thesis
    by (rule that [of "w\<lparr>bw_store := st\<rparr>"])
      (use ok st in \<open>auto simp: on_store_def put_blob_def put_bytes_def bw_ok_def object_in_def blob_in_def key_cell_def\<close>)
qed

lemma world_get:
  assumes ok: "bw_ok env w" and i: "component_ok n" "component_ok i"
  shows "on_store (durable_get_json (be_durable env) (decoded_as env f) n t i) w =
    (case object_in env w n t i of
       None \<Rightarrow> (Inr None, w)
     | Some j \<Rightarrow> (case f j of Some r \<Rightarrow> (Inr (Some r), w) | None \<Rightarrow> (Inl (be_decode_error env j), w)))"
  using objects.get_law [of "be_durable env" "bw_store w" "(n, t, i)"] ok i
  by (auto simp: on_store_def get_record bw_ok_def object_in_def key_ok_iff decoded_as_def split: option.splits)

lemma world_get_refused:
  assumes "\<not> (component_ok n \<and> component_ok i)"
  shows "\<exists>e. on_store (durable_get_json (be_durable env) (decoded_as env f) n t i) w = (Inl e, w)"
  using refused_step(2) [of "(n, t, i)"] assms by (auto simp: on_store_def get_record key_ok_iff)

lemma world_get_blob:
  assumes ok: "bw_ok env w" and i: "component_ok n" "component_ok i"
  shows "get_blob env n t i w = (Inr (blob_in env w n t i), w)"
  using blobs.get_law [of "be_durable env" "bw_store w" "(n, t, i)"] ok i
  by (auto simp: on_store_def get_blob_def get_bytes_def bw_ok_def blob_in_def key_ok_iff)

section \<open>Output files\<close>

lemma jsonl_total:
  assumes "serde_lawful (be_durable env)"
  shows "\<exists>bytes. jsonl_bytes env ls = Inr bytes"
proof (induction ls)
  case (Cons l ls)
  moreover obtain bs where "du_to_vec (be_durable env) l = Inr bs" using assms by (auto simp: serde_lawful_def)
  ultimately show ?case by auto
qed simp

lemma output_file_keeps:
  assumes ok: "bw_ok env w" and r: "write_openai_batch_output_file env t b kind ls w = (r, w')"
  shows "bw_ok env w' \<and> same_objects env openai_batches_ns w w'"
proof (cases "ls = []")
  case True
  then show ?thesis using assms by (simp add: write_openai_batch_output_file_def same_objects_def)
next
  case False
  let ?i = "str ''file-'' @ be_fresh env (bw_uuids w)"
  let ?w = "w\<lparr>bw_uuids := Suc (bw_uuids w), bw_ticks := Suc (bw_ticks w)\<rparr>"
  obtain bytes where bytes: "jsonl_bytes env ls = Inr bytes" using jsonl_total [of env ls] ok by (auto simp: bw_ok_def)
  have ok': "bw_ok env ?w" using ok by simp
  let ?f = "\<lparr>fi_tenant_id = t, fi_id = ?i, fi_bytes = word_of_nat (length bytes), fi_created_at = be_now env (bw_ticks w),
      fi_filename = b @ str ''-'' @ kind @ str ''.jsonl'', fi_purpose = str ''batch_output'',
      fi_status = str ''processed'', fi_expires_at = None, fi_status_details = None\<rparr>"
  have run: "write_openai_batch_output_file env t b kind ls w =
      bw_bind (put_blob env openai_file_blobs_ns t ?i bytes) (\<lambda>_. bw_bind (put_file env t ?i ?f) (\<lambda>_. Pair (Inr (Some ?i)))) ?w"
    using False bytes by (simp add: write_openai_batch_output_file_def with_uuid_def with_now_def Let_def)
  show ?thesis
  proof (cases "component_ok ?i")
    case True
    show ?thesis
    proof (rule world_put_blob [OF ok' namespaces_ok(2) True, of t bytes])
      fix w1 assume p: "put_blob env openai_file_blobs_ns t ?i bytes ?w = (Inr (), w1)" and ok1: "bw_ok env w1"
        and o1: "\<And>n' t' i'. object_in env w1 n' t' i' = object_in env ?w n' t' i'"
      show ?thesis
      proof (rule world_put_file [OF ok1 True, of t ?f])
        fix w2 assume "on_store (durable_put_json (be_durable env) (\<lambda>r. Inr (file_to_value r)) openai_files_ns t ?i ?f) w1 = (Inr (), w2)"
          and "bw_ok env w2"
          and "\<And>n' t' i'. (n', i') \<noteq> (openai_files_ns, ?i) \<Longrightarrow> object_in env w2 n' t' i' = object_in env w1 n' t' i'"
        then show ?thesis
          using r p o1 namespaces_differ
          by (auto simp: run bw_bind_def put_file_def same_objects_def)
      qed
    qed
  next
    case False
    then obtain e where "put_blob env openai_file_blobs_ns t ?i bytes ?w = (Inl e, ?w)"
      using world_put_refused(2) by blast
    then show ?thesis using r ok by (auto simp: run bw_bind_def same_objects_def)
  qed
qed

section \<open>Every task settles its batch\<close>

definition stored_openai :: "batch_env \<Rightarrow> batch_world \<Rightarrow> ustr \<Rightarrow> ustr \<Rightarrow> openai_batch option" where
  "stored_openai env w t i = Option.bind (object_in env w openai_batches_ns t i) openai_batch_of_value"

definition stored_anthropic :: "batch_env \<Rightarrow> batch_world \<Rightarrow> ustr \<Rightarrow> ustr \<Rightarrow> anthropic_batch option" where
  "stored_anthropic env w t i = Option.bind (object_in env w anthropic_batches_ns t i) anthropic_batch_of_value"

lemma put_batch_stored:
  assumes "bw_ok env w" and "component_ok i" and "storable_batch b"
  obtains w' where "put_openai_batch env t i b w = (Inr (), w')" and "bw_ok env w'" and "stored_openai env w' t i = Some b"
    and "w' = w\<lparr>bw_store := bw_store w'\<rparr>"
    and "\<And>n t' i'. (n, i') \<noteq> (openai_batches_ns, i) \<Longrightarrow> object_in env w' n t' i' = object_in env w n t' i'"
proof (rule world_put_batch [OF assms, of t])
  fix w'
  assume "object_in env w' openai_batches_ns t i = Some (openai_batch_to_value b)"
  then have "stored_openai env w' t i = Some b"
    using assms(3) openai_batch_survives [of b] by (simp add: stored_openai_def)
  moreover assume "on_store (durable_put_json (be_durable env) (\<lambda>r. Inr (openai_batch_to_value r)) openai_batches_ns t i b) w
      = (Inr (), w')" "bw_ok env w'" "w' = w\<lparr>bw_store := bw_store w'\<rparr>"
    "\<And>n' t' i'. (n', i') \<noteq> (openai_batches_ns, i) \<Longrightarrow> object_in env w' n' t' i' = object_in env w n' t' i'"
  ultimately show thesis by (intro that [of w']) (simp_all add: put_openai_batch_def)
qed

lemma get_batch_stored:
  assumes "bw_ok env w" and "component_ok i" and "stored_openai env w t i = Some b"
  shows "get_openai_batch env t i w = (Inr (Some b), w)"
  using world_get [OF assms(1) namespaces_ok(3) assms(2), of openai_batch_of_value t] assms(3)
  by (auto simp: get_openai_batch_def stored_openai_def bind_eq_Some_conv split: option.splits)

text \<open>The end of a task, by either way.\<close>

lemma settle_stored:
  assumes ok: "bw_ok env w" and i: "component_ok (ob_id b)" and e: "storable_batch b"
    and f: "\<And>now o_id e_id. storable_batch (f now (b\<lparr>ob_output_file_id := o_id, ob_error_file_id := e_id\<rparr>))"
    and r: "settle_openai_batch env b output errors f w = (r, w')"
  shows "bw_ok env w' \<and> ((\<exists>e. r = Inl e) \<or> (\<exists>now o_id e_id. r = Inr ()
      \<and> stored_openai env w' (ob_tenant_id b) (ob_id b) = Some (f now (b\<lparr>ob_output_file_id := o_id, ob_error_file_id := e_id\<rparr>))))"
proof -
  obtain ro w1 where o: "write_openai_batch_output_file env (ob_tenant_id b) (ob_id b) (str ''output'') output w = (ro, w1)"
    by fastforce
  have ok1: "bw_ok env w1" using output_file_keeps [OF ok o] by simp
  obtain re w2 where e2: "write_openai_batch_output_file env (ob_tenant_id b) (ob_id b) (str ''errors'') errors w1 = (re, w2)"
    by fastforce
  have ok2: "bw_ok env w2" using output_file_keeps [OF ok1 e2] by simp
  show ?thesis
  proof (cases ro)
    case (Inl x)
    with r o ok1 show ?thesis by (auto simp: settle_openai_batch_def bw_bind_def)
  next
    case o_id: (Inr o_id)
    show ?thesis
    proof (cases re)
      case (Inl x)
      with r o e2 o_id ok2 show ?thesis by (auto simp: settle_openai_batch_def bw_bind_def)
    next
      case (Inr e_id)
      let ?b = "f (be_now env (bw_ticks w2)) (b\<lparr>ob_output_file_id := o_id, ob_error_file_id := e_id\<rparr>)"
      let ?w = "w2\<lparr>bw_ticks := Suc (bw_ticks w2)\<rparr>"
      have run: "put_openai_batch env (ob_tenant_id b) (ob_id b) ?b ?w = (r, w')"
        using r o e2 o_id Inr by (simp add: settle_openai_batch_def bw_bind_def with_now_def)
      have okw: "bw_ok env ?w" using ok2 by simp
      have nn: "storable_batch ?b" by (rule f)
      show ?thesis
      proof (rule put_batch_stored [OF okw i nn, of "ob_tenant_id b"])
        fix w3 assume "put_openai_batch env (ob_tenant_id b) (ob_id b) ?b ?w = (Inr (), w3)" and "bw_ok env w3"
          and "stored_openai env w3 (ob_tenant_id b) (ob_id b) = Some ?b"
        then show ?thesis using run by auto
      qed
    qed
  qed
qed

lemma cancel_stored:
  assumes "bw_ok env w" and "component_ok (ob_id b)" and "storable_batch b"
    and "cancel_openai_batch env b output errors w = (r, w')"
  shows "bw_ok env w' \<and> ((\<exists>e. r = Inl e) \<or> (\<exists>b'. stored_openai env w' (ob_tenant_id b) (ob_id b) = Some b'
      \<and> ob_status b' = str ''cancelled'' \<and> ob_request_counts b' = ob_request_counts b))"
  using settle_stored [OF assms(1-3) _ assms(4) [unfolded cancel_openai_batch_def]] assms(3) by fastforce

lemma complete_stored:
  assumes "bw_ok env w" and "component_ok (ob_id b)" and "storable_batch b"
    and "complete_openai_batch env b output errors w = (r, w')"
  shows "bw_ok env w' \<and> ((\<exists>e. r = Inl e) \<or> (\<exists>b'. stored_openai env w' (ob_tenant_id b) (ob_id b) = Some b'
      \<and> ob_status b' = str ''completed'' \<and> ob_request_counts b' = ob_request_counts b))"
  using settle_stored [OF assms(1-3) _ assms(4) [unfolded complete_openai_batch_def]] assms(3) by fastforce

end
