(* ===== verification/Api_Batch_Runs.thy ===== *)
theory Api_Batch_Runs
  imports Api_Batch_Facts
begin

text \<open>
  The tasks of both batch interfaces: what the counts of a batch are after its items have ended, and that
  every task leaves its batch in a terminal state, whatever the input and the items do.
\<close>

section \<open>Counting\<close>

definition succeeded :: "ustr \<times> (ustr + batch_dispatch_result) option \<Rightarrow> bool" where
  "succeeded it \<longleftrightarrow> (case snd it of Some (Inr r) \<Rightarrow> success_status (bd_status_code r) | _ \<Rightarrow> False)"

definition dropped :: "ustr \<times> (ustr + batch_dispatch_result) option \<Rightarrow> bool" where
  "dropped it \<longleftrightarrow> snd it = None"

definition errored :: "ustr \<times> (ustr + batch_dispatch_result) option \<Rightarrow> bool" where
  "errored it \<longleftrightarrow> \<not> succeeded it \<and> \<not> dropped it"

lemma kinds_partition:
  "length (filter succeeded its) + length (filter errored its) + length (filter dropped its) = length its"
  by (induction its) (auto simp: errored_def succeeded_def dropped_def split: option.splits sum.splits)

lemma unat_sat_add_small:
  fixes v w :: u64
  assumes "unat v + unat w < 2 ^ 64"
  shows "unat (sat_add v w) = unat v + unat w"
  using assms by (simp add: unat_sat_add)

lemma sat_add_one: "unat (v :: u64) < 18446744073709551615 \<Longrightarrow> unat (sat_add v 1) = Suc (unat v)"
  using unat_sat_add_small [of v 1] by simp

text \<open>What counting leaves of a batch.\<close>

definition same_batch :: "openai_batch \<Rightarrow> openai_batch \<Rightarrow> bool" where
  "same_batch b b' \<longleftrightarrow>
     ob_id b' = ob_id b \<and> ob_tenant_id b' = ob_tenant_id b \<and> ob_errors b' = ob_errors b \<and> ob_metadata b' = ob_metadata b
     \<and> ob_cancel_requested b' = ob_cancel_requested b \<and> ob_endpoint b' = ob_endpoint b \<and> ob_status b' = ob_status b
     \<and> obc_total (ob_request_counts b') = obc_total (ob_request_counts b)"

lemma same_batch_counts: "same_batch b b" "same_batch b b' \<Longrightarrow> same_batch b (count_completed b')"
  "same_batch b b' \<Longrightarrow> same_batch b (count_failed n b')" "same_batch b b' \<Longrightarrow> same_batch b (b'\<lparr>ob_usage := u\<rparr>)"
  by (simp_all add: same_batch_def count_completed_def count_failed_def)

definition counted ::
  "batch_tally \<Rightarrow> (ustr \<times> (ustr + batch_dispatch_result) option) list \<Rightarrow> batch_tally \<Rightarrow> bool" where
  "counted t its t' \<longleftrightarrow>
     unat (obc_completed (ob_request_counts (ta_batch t')))
       = unat (obc_completed (ob_request_counts (ta_batch t))) + length (filter succeeded its)
     \<and> unat (obc_failed (ob_request_counts (ta_batch t')))
       = unat (obc_failed (ob_request_counts (ta_batch t))) + length (filter errored its)
     \<and> unat (ta_cancelled t') = unat (ta_cancelled t) + length (filter dropped its)
     \<and> length (ta_output t') = length (ta_output t) + length (filter succeeded its)
     \<and> length (ta_errors t') = length (ta_errors t) + length (filter errored its)"

lemma tally_item_counts:
  assumes "unat (obc_completed (ob_request_counts (ta_batch t))) + 1 < 2 ^ 64"
    and "unat (obc_failed (ob_request_counts (ta_batch t))) + 1 < 2 ^ 64"
    and "unat (ta_cancelled t) + 1 < 2 ^ 64" and "tally_item env it (t, w) = (t', w')"
  shows "counted t [it] t' \<and> (same_batch b (ta_batch t) \<longrightarrow> same_batch b (ta_batch t'))
    \<and> (\<exists>n. w' = w\<lparr>bw_uuids := n\<rparr>)"
proof -
  obtain custom r where it: "it = (custom, r)" by (cases it)
  have w: "\<exists>n. w = w\<lparr>bw_uuids := n\<rparr>" by (intro exI [of _ "bw_uuids w"]) simp
  show ?thesis
  proof (cases r)
    case None
    with assms w show ?thesis
      by (auto simp: it tally_item_def counted_def succeeded_def errored_def dropped_def sat_add_one)
  next
    case (Some x)
    show ?thesis
    proof (cases x)
      case (Inl e)
      with Some assms show ?thesis
        by (auto simp: it tally_item_def counted_def succeeded_def errored_def dropped_def with_uuid_def sat_add_one
            same_batch_counts) (auto simp: count_failed_def sat_add_one)
    next
      case (Inr d)
      with Some assms show ?thesis
        by (cases "success_status (bd_status_code d)")
          (auto simp: it tally_item_def counted_def succeeded_def errored_def dropped_def with_uuid_def sat_add_one
            same_batch_counts Let_def, auto simp: count_failed_def count_completed_def sat_add_one)
    qed
  qed
qed

lemma counted_append: "counted t [it] t1 \<Longrightarrow> counted t1 its t2 \<Longrightarrow> counted t (it # its) t2"
  by (auto simp: counted_def)

lemma fold_tally_counts:
  assumes "unat (obc_completed (ob_request_counts (ta_batch t))) + length its < 2 ^ 64"
    and "unat (obc_failed (ob_request_counts (ta_batch t))) + length its < 2 ^ 64"
    and "unat (ta_cancelled t) + length its < 2 ^ 64" and "fold (tally_item env) its (t, w) = (t', w')"
    and "same_batch b (ta_batch t)"
  shows "counted t its t' \<and> same_batch b (ta_batch t') \<and> (\<exists>n. w' = w\<lparr>bw_uuids := n\<rparr>)"
  using assms
proof (induction its arbitrary: t w)
  case Nil
  then show ?case by (auto simp: counted_def intro!: exI [of _ "bw_uuids w"])
next
  case (Cons it its)
  obtain t1 w1 where s: "tally_item env it (t, w) = (t1, w1)" by fastforce
  have one: "counted t [it] t1 \<and> (same_batch b (ta_batch t) \<longrightarrow> same_batch b (ta_batch t1)) \<and> (\<exists>n. w1 = w\<lparr>bw_uuids := n\<rparr>)"
    using Cons.prems(1-3) by (intro tally_item_counts [OF _ _ _ s]) auto
  have le: "length (filter P [it]) \<le> 1" for P :: "ustr \<times> (ustr + batch_dispatch_result) option \<Rightarrow> bool" by simp
  have "counted t1 its t' \<and> same_batch b (ta_batch t') \<and> (\<exists>n. w' = w1\<lparr>bw_uuids := n\<rparr>)"
  proof (rule Cons.IH)
    show "fold (tally_item env) its (t1, w1) = (t', w')" using Cons.prems(4) by (simp add: s)
    show "same_batch b (ta_batch t1)" using one Cons.prems(5) by simp
  qed (use one Cons.prems(1-3) le [of succeeded] le [of errored] le [of dropped] in \<open>unfold counted_def, simp_all\<close>)
  with one show ?case by (auto intro: counted_append)
qed

lemma tally_items_counts:
  assumes "unat (obc_completed (ob_request_counts b)) + length its < 2 ^ 64"
    and "unat (obc_failed (ob_request_counts b)) + length its < 2 ^ 64"
    and "tally_items env b its w = (t, w')"
  shows "unat (obc_completed (ob_request_counts (ta_batch t)))
      = unat (obc_completed (ob_request_counts b)) + length (filter succeeded its)"
    and "unat (obc_failed (ob_request_counts (ta_batch t)))
      = unat (obc_failed (ob_request_counts b)) + length (filter errored its) + length (filter dropped its)"
    and "unat (ta_cancelled t) = length (filter dropped its)"
    and "length (ta_output t) = length (filter succeeded its)"
    and "length (ta_errors t) = length (filter errored its)"
    and "same_batch b (ta_batch t)" and "\<exists>n. w' = w\<lparr>bw_uuids := n\<rparr>"
proof -
  let ?t0 = "\<lparr>ta_batch = b, ta_usage = provider_usage_default, ta_output = [], ta_errors = [], ta_cancelled = 0\<rparr>"
  obtain t1 w1 where s: "fold (tally_item env) its (?t0, w) = (t1, w1)" by fastforce
  have c: "counted ?t0 its t1 \<and> same_batch b (ta_batch t1) \<and> (\<exists>n. w1 = w\<lparr>bw_uuids := n\<rparr>)"
    using assms(1,2) by (intro fold_tally_counts [OF _ _ _ s]) (simp_all add: same_batch_counts)
  have t: "t = t1\<lparr>ta_batch := (count_failed (ta_cancelled t1) (ta_batch t1))\<lparr>ob_usage := ta_usage t1\<rparr>\<rparr>" and w: "w' = w1"
    using assms(3) by (simp_all add: tally_items_def s)
  have small: "unat (obc_failed (ob_request_counts (ta_batch t1))) + unat (ta_cancelled t1) < 2 ^ 64"
    using c assms(2) kinds_partition [of its] by (simp add: counted_def)
  show "unat (obc_completed (ob_request_counts (ta_batch t)))
      = unat (obc_completed (ob_request_counts b)) + length (filter succeeded its)"
    using c by (simp add: t counted_def count_failed_def)
  show "unat (obc_failed (ob_request_counts (ta_batch t)))
      = unat (obc_failed (ob_request_counts b)) + length (filter errored its) + length (filter dropped its)"
    using c unat_sat_add_small [OF small] by (simp add: t counted_def count_failed_def)
  show "unat (ta_cancelled t) = length (filter dropped its)" "length (ta_output t) = length (filter succeeded its)"
    "length (ta_errors t) = length (filter errored its)"
    using c by (simp_all add: t counted_def)
  show "same_batch b (ta_batch t)" using c by (simp add: t same_batch_counts)
  show "\<exists>n. w' = w\<lparr>bw_uuids := n\<rparr>" using c w by simp
qed

section \<open>Tasks end\<close>

lemma parse_length: "parse_batch_lines env endpoint n acc ls = Inr inputs \<Longrightarrow> length acc \<le> max_openai_batch_requests
    \<Longrightarrow> length inputs \<le> max_openai_batch_requests"
  by (induction env endpoint n acc ls rule: parse_batch_lines.induct) (auto split: if_splits sum.splits)

lemma load_input_cases:
  assumes ok: "bw_ok env w" and l: "load_batch_input env b w = (r, w')"
  shows "w' = w" and "r = Inr inputs \<Longrightarrow> inputs \<noteq> [] \<and> length inputs \<le> max_openai_batch_requests"
proof -
  have get: "\<exists>x. get_file env t i w = (x, w)" for t i
    using world_get [OF ok namespaces_ok(1), of i file_of_value t] world_get_refused [of openai_files_ns i env file_of_value t w]
    by (cases "component_ok i") (auto simp: get_file_def split: option.splits)
  have blob: "\<exists>x. get_blob env openai_file_blobs_ns t i w = (x, w)" for t i
    using world_get_blob [OF ok namespaces_ok(2), of i t] refused_step(5) [of "(openai_file_blobs_ns, t, i)" "be_durable env" "bw_store w"]
    by (cases "component_ok i") (auto simp: key_ok_iff get_blob_def on_store_def get_bytes_def)
  obtain x where x: "get_file env (ob_tenant_id b) (ob_input_file_id b) w = (x, w)" using get by blast
  obtain y where y: "get_blob env openai_file_blobs_ns (ob_tenant_id b) (ob_input_file_id b) w = (y, w)" using blob by blast
  show "w' = w"
    using l x y by (auto simp: load_batch_input_def bw_bind_def split: sum.splits option.splits if_splits)
  show "r = Inr inputs \<Longrightarrow> inputs \<noteq> [] \<and> length inputs \<le> max_openai_batch_requests"
    using l x y parse_length [of env "ob_endpoint b" 0 "[]" _ inputs]
    by (auto simp: load_batch_input_def bw_bind_def parse_batch_input_def ebind_Inr_iff
        split: sum.splits option.splits if_splits)
qed

lemma start_stored:
  assumes ok: "bw_ok env w" and i: "component_ok (ob_id b)" and e: "storable_batch b"
    and s: "start_openai_batch env b w = (r, w')"
  shows "bw_ok env w' \<and> (\<forall>b' inputs. r = Inr (b', inputs) \<longrightarrow>
      b' = started_batch (be_now env (bw_ticks w)) (length inputs) b
      \<and> inputs \<noteq> [] \<and> length inputs \<le> max_openai_batch_requests)"
proof -
  obtain l w1 where l: "load_batch_input env b w = (l, w1)" by fastforce
  note w1 = load_input_cases(1) [OF ok l]
  show ?thesis
  proof (cases l)
    case (Inl x)
    with s l ok w1 show ?thesis by (auto simp: start_openai_batch_def bw_bind_def)
  next
    case (Inr inputs)
    let ?b = "started_batch (be_now env (bw_ticks w)) (length inputs) b"
    have okt: "bw_ok env (w\<lparr>bw_ticks := Suc (bw_ticks w)\<rparr>)" using ok by simp
    have e': "storable_batch ?b" using e by (simp add: started_batch_def)
    show ?thesis
    proof (rule put_batch_stored [OF okt i e', of "ob_tenant_id b"])
      fix w2 assume "put_openai_batch env (ob_tenant_id b) (ob_id b) ?b (w\<lparr>bw_ticks := Suc (bw_ticks w)\<rparr>) = (Inr (), w2)"
        and "bw_ok env w2"
      then show ?thesis
        using s l w1 Inr load_input_cases(2) [OF ok l Inr]
        by (auto simp: start_openai_batch_def bw_bind_def with_now_def Let_def)
    qed
  qed
qed

lemma end_stored:
  assumes ok: "bw_ok env w" and i: "component_ok (ob_id (ta_batch t))" and e: "storable_batch (ta_batch t)"
    and s: "end_openai_batch env cancelled t w = (r, w')"
  shows "bw_ok env w' \<and> ((\<exists>e. r = Inl e) \<or>
      (\<exists>b'. stored_openai env w' (ob_tenant_id (ta_batch t)) (ob_id (ta_batch t)) = Some b'
        \<and> ob_request_counts b' = ob_request_counts (ta_batch t)
        \<and> ob_status b' = (if cancelled \<or> ob_cancel_requested (ta_batch t) \<or> 0 < ta_cancelled t
                          then str ''cancelled'' else str ''completed'')))"
proof (cases "cancelled \<or> ob_cancel_requested (ta_batch t) \<or> 0 < ta_cancelled t")
  case True
  with s have "cancel_openai_batch env (ta_batch t) (ta_output t) (ta_errors t) w = (r, w')"
    by (auto simp: end_openai_batch_def)
  from cancel_stored [OF ok i e this] True show ?thesis by auto
next
  case False
  let ?w = "w\<lparr>bw_ticks := Suc (bw_ticks w)\<rparr>"
  let ?b = "(ta_batch t)\<lparr>ob_status := str ''finalizing'', ob_finalizing_at := Some (be_now env (bw_ticks w))\<rparr>"
  have okt: "bw_ok env ?w" using ok by simp
  have e': "storable_batch ?b" using e by simp
  have i': "component_ok (ob_id ?b)" using i by simp
  show ?thesis
  proof (rule put_batch_stored [OF okt i e', of "ob_tenant_id (ta_batch t)"])
    fix w2 assume p: "put_openai_batch env (ob_tenant_id (ta_batch t)) (ob_id (ta_batch t)) ?b ?w = (Inr (), w2)"
      and ok2: "bw_ok env w2"
    have "complete_openai_batch env ?b (ta_output t) (ta_errors t) w2 = (r, w')"
      using s False p by (auto simp: end_openai_batch_def finalize_openai_batch_def bw_bind_def with_now_def Let_def)
    from complete_stored [OF ok2 i' e' this] False show ?thesis by auto
  qed
qed

lemma same_batchD:
  "same_batch b b' \<Longrightarrow> ob_id b' = ob_id b \<and> ob_tenant_id b' = ob_tenant_id b \<and> ob_errors b' = ob_errors b \<and> ob_metadata b' = ob_metadata b
    \<and> ob_cancel_requested b' = ob_cancel_requested b
    \<and> obc_total (ob_request_counts b') = obc_total (ob_request_counts b)"
  by (simp add: same_batch_def)

text \<open>Items change the identifiers drawn, and nothing else of the world.\<close>

lemma tally_item_world: "\<exists>n. snd (tally_item env it (t, w)) = w\<lparr>bw_uuids := n\<rparr>"
  by (cases it) (auto simp: tally_item_def with_uuid_def Let_def split: option.splits sum.splits
      intro: exI [of _ "bw_uuids w"])

lemma tally_item_same: "same_batch b (ta_batch t) \<Longrightarrow> same_batch b (ta_batch (fst (tally_item env it (t, w))))"
  by (cases it) (auto simp: tally_item_def with_uuid_def Let_def same_batch_counts split: option.splits sum.splits)

lemma fold_tally_world:
  "(\<exists>n. snd (fold (tally_item env) its (t, w)) = w\<lparr>bw_uuids := n\<rparr>)
   \<and> (same_batch b (ta_batch t) \<longrightarrow> same_batch b (ta_batch (fst (fold (tally_item env) its (t, w)))))"
proof (induction its arbitrary: t w)
  case Nil
  show ?case by (auto intro: exI [of _ "bw_uuids w"])
next
  case (Cons it its)
  obtain t1 w1 where s: "tally_item env it (t, w) = (t1, w1)" by fastforce
  then show ?case
    using Cons.IH [of t1 w1] tally_item_world [of env it t w] tally_item_same [of b t env it w] by auto
qed

lemma tally_items_world:
  assumes "tally_items env b its w = (t, w')"
  shows "same_batch b (ta_batch t)" and "\<exists>n. w' = w\<lparr>bw_uuids := n\<rparr>"
proof -
  let ?t0 = "\<lparr>ta_batch = b, ta_usage = provider_usage_default, ta_output = [], ta_errors = [], ta_cancelled = 0\<rparr>"
  obtain t1 w1 where s: "fold (tally_item env) its (?t0, w) = (t1, w1)" by fastforce
  with fold_tally_world [of env its ?t0 w b] have "same_batch b (ta_batch t1)" "\<exists>n. w1 = w\<lparr>bw_uuids := n\<rparr>"
    by (simp_all add: same_batch_counts)
  then show "same_batch b (ta_batch t)" "\<exists>n. w' = w\<lparr>bw_uuids := n\<rparr>"
    using assms by (auto simp: tally_items_def s same_batch_counts)
qed

lemma run_stored:
  assumes ok: "bw_ok env w" and i: "component_ok (ob_id b)" and e: "storable_batch b"
    and s: "run_openai_batch env sch b w = (r, w')"
  shows "bw_ok env w' \<and> ((\<exists>e. r = Inl e) \<or>
      (\<exists>b'. stored_openai env w' (ob_tenant_id b) (ob_id b) = Some b' \<and> ob_status b' \<in> {str ''cancelled'', str ''completed''}))"
proof (cases "ob_cancel_requested b \<or> sch_cancelled_first sch")
  case True
  with s have "cancel_openai_batch env b [] [] w = (r, w')" by (auto simp: run_openai_batch_def)
  from cancel_stored [OF ok i e this] show ?thesis by auto
next
  case False
  obtain x w1 where x: "start_openai_batch env b w = (x, w1)" by fastforce
  note st = start_stored [OF ok i e x]
  show ?thesis
  proof (cases x)
    case (Inl m)
    with s x False st show ?thesis by (auto simp: run_openai_batch_def bw_bind_def)
  next
    case (Inr p)
    obtain b' inputs where p: "p = (b', inputs)" by (cases p)
    have b': "b' = started_batch (be_now env (bw_ticks w)) (length inputs) b" using st Inr p by simp
    let ?its = "run_items sch obi_custom_id
        (\<lambda>i. dispatch_openai_batch_item env (ob_tenant_id b) (ob_endpoint b) (obi_body i)) inputs"
    obtain t w2 where t: "tally_items env b' ?its w1 = (t, w2)" by fastforce
    note same = same_batchD [OF tally_items_world(1) [OF t]]
    obtain n where w2: "w2 = w1\<lparr>bw_uuids := n\<rparr>" using tally_items_world(2) [OF t] by blast
    have ok2: "bw_ok env w2" using st w2 by simp
    have run: "end_openai_batch env (sch_cancelled_last sch) t w2 = (r, w')"
      using s x Inr p False t by (simp add: run_openai_batch_def bw_bind_def)
    have ids: "component_ok (ob_id (ta_batch t))" "storable_batch (ta_batch t)"
      "ob_id (ta_batch t) = ob_id b" "ob_tenant_id (ta_batch t) = ob_tenant_id b"
      using same i e by (simp_all add: b' started_batch_def)
    from end_stored [OF ok2 ids(1,2) run] show ?thesis by (auto simp: ids split: if_splits)
  qed
qed

lemma failed_storable: "storable_batch b \<Longrightarrow> storable_batch (failed_batch now m b)"
proof -
  assume "storable_batch b"
  moreover have "json_plain 125 (JArray [failure_item m])"
    using object_plain [of 124 "[(str ''code'', JString (str ''invalid_batch_file'')), (str ''message'', JString m),
      (str ''param'', JString (str ''input_file_id'')), (str ''line'', JNull)]"]
    by (simp add: failure_item_def json_plain.simps(2) [of 124, simplified])
  then have "json_plain 126 (json_object [(str ''object'', JString (str ''list'')), (str ''data'', JArray [failure_item m])])"
    by (intro object_plain) simp_all
  ultimately show ?thesis by (simp add: failed_batch_def) (simp add: json_object_def)
qed

lemma fail_stored:
  assumes ok: "bw_ok env w" and i: "component_ok (ob_id b)" and e: "storable_batch b"
  shows "bw_ok env (fail_openai_batch env b m w)
    \<and> (\<exists>b'. stored_openai env (fail_openai_batch env b m w) (ob_tenant_id b) (ob_id b) = Some b' \<and> ob_status b' = str ''failed'')"
proof -
  let ?b = "failed_batch (be_now env (bw_ticks w)) m b"
  let ?w = "w\<lparr>bw_ticks := Suc (bw_ticks w)\<rparr>"
  obtain x w1 where x: "write_openai_batch_output_file env (ob_tenant_id b) (ob_id b) (str ''validation-errors'')
      [json_object [(str ''error'', failure_item m)]] ?w = (x, w1)" by fastforce
  have "bw_ok env ?w" using ok by simp
  from output_file_keeps [OF this x] have ok1: "bw_ok env w1" by simp
  let ?c = "case x of Inr file_id \<Rightarrow> ?b\<lparr>ob_error_file_id := file_id\<rparr> | Inl _ \<Rightarrow> ?b"
  have c: "storable_batch ?c" using failed_storable [OF e, of "be_now env (bw_ticks w)" m] by (cases x) simp_all
  have status: "ob_status ?c = str ''failed''" by (cases x) (simp_all add: failed_batch_def)
  have run: "fail_openai_batch env b m w = snd (put_openai_batch env (ob_tenant_id b) (ob_id b) ?c w1)"
  proof -
    have "ob_tenant_id ?b = ob_tenant_id b" "ob_id ?b = ob_id b" by (simp_all add: failed_batch_def)
    then show ?thesis using x by (simp add: fail_openai_batch_def with_now_def Let_def)
  qed
  show ?thesis
  proof (rule put_batch_stored [OF ok1 i c, of "ob_tenant_id b"])
    fix w2 assume "put_openai_batch env (ob_tenant_id b) (ob_id b) ?c w1 = (Inr (), w2)" and "bw_ok env w2"
      and "stored_openai env w2 (ob_tenant_id b) (ob_id b) = Some ?c"
    then show ?thesis using status by (simp add: run)
  qed
qed

lemma openai_task_stored:
  assumes ok: "bw_ok env w" and i: "component_ok (ob_id b)" and e: "storable_batch b"
  shows "bw_ok env (openai_batch_task env sch b w)
    \<and> (\<exists>b'. stored_openai env (openai_batch_task env sch b w) (ob_tenant_id b) (ob_id b) = Some b' \<and> openai_terminal (ob_status b'))"
proof -
  obtain r w1 where r: "run_openai_batch env sch b w = (r, w1)" by fastforce
  note run = run_stored [OF ok i e r]
  show ?thesis
  proof (cases r)
    case (Inl m)
    with fail_stored [of env w1 b m] run i e show ?thesis by (auto simp: openai_batch_task_def r openai_terminal_def)
  next
    case (Inr u)
    with run show ?thesis by (auto simp: openai_batch_task_def r openai_terminal_def)
  qed
qed

section \<open>Message Batches\<close>

lemma put_anthropic_stored:
  assumes "bw_ok env w" and "component_ok i"
  obtains w' where "put_anthropic_batch env t i b w = (Inr (), w')" and "bw_ok env w'" and "stored_anthropic env w' t i = Some b"
    and "\<And>n t' i'. blob_in env w' n t' i' = blob_in env w n t' i'"
  using world_put_message_batch [OF assms(1,2), of t b]
  unfolding put_anthropic_batch_def by (metis anthropic_batch_survives stored_anthropic_def Option.bind.bind_lunit)

lemma jsonl_written:
  assumes ok: "bw_ok env w" and i: "component_ok i"
  obtains bytes w' where "jsonl_bytes env ls = Inr bytes"
    and "write_jsonl_blob env anthropic_results_ns t i ls w = (Inr (), w')" and "bw_ok env w'"
    and "blob_in env w' anthropic_results_ns t i = Some bytes"
proof -
  obtain bytes where b: "jsonl_bytes env ls = Inr bytes" using jsonl_total [of env ls] ok by (auto simp: bw_ok_def)
  show thesis
  proof (rule world_put_blob [OF ok namespaces_ok(6) i, of t bytes])
    fix w' assume "put_blob env anthropic_results_ns t i bytes w = (Inr (), w')" and "bw_ok env w'"
      and "blob_in env w' anthropic_results_ns t i = Some bytes"
    with b show thesis by (intro that [of bytes w']) (simp_all add: write_jsonl_blob_def)
  qed
qed

lemma end_anthropic_stored:
  assumes ok: "bw_ok env w" and i: "component_ok (ab_id b)"
  obtains bytes now w' where "end_anthropic_batch env b ls c w = (Inr (), w')" and "bw_ok env w'"
    and "stored_anthropic env w' (ab_tenant_id b) (ab_id b) = Some (ended_batch now c b)"
    and "jsonl_bytes env ls = Inr bytes" and "blob_in env w' anthropic_results_ns (ab_tenant_id b) (ab_id b) = Some bytes"
proof (rule jsonl_written [OF ok i, of ls "ab_tenant_id b"])
  fix bytes w1 assume j: "jsonl_bytes env ls = Inr bytes"
    and p: "write_jsonl_blob env anthropic_results_ns (ab_tenant_id b) (ab_id b) ls w = (Inr (), w1)" and ok1: "bw_ok env w1"
    and bl: "blob_in env w1 anthropic_results_ns (ab_tenant_id b) (ab_id b) = Some bytes"
  let ?w = "w1\<lparr>bw_ticks := Suc (bw_ticks w1)\<rparr>"
  let ?b = "ended_batch (be_now env (bw_ticks w1)) c b"
  have okt: "bw_ok env ?w" using ok1 by simp
  show thesis
  proof (rule put_anthropic_stored [OF okt i, of "ab_tenant_id b" ?b])
    fix w2 assume "put_anthropic_batch env (ab_tenant_id b) (ab_id b) ?b ?w = (Inr (), w2)" and "bw_ok env w2"
      and "stored_anthropic env w2 (ab_tenant_id b) (ab_id b) = Some ?b"
      and "\<And>n t' i'. blob_in env w2 n t' i' = blob_in env ?w n t' i'"
    then show thesis
      using j p bl by (intro that [of w2 _ bytes]) (simp_all add: end_anthropic_batch_def bw_bind_def with_now_def)
  qed
qed

definition counts_sum :: "anthropic_batch_counts \<Rightarrow> nat" where
  "counts_sum c = unat (abc_succeeded c) + unat (abc_errored c) + unat (abc_canceled c)"

lemma anthropic_results_counts:
  assumes "counts_sum c + length rs < 2 ^ 64" and "anthropic_results rs c = (ls, c')"
  shows "length ls = length rs \<and> counts_sum c' = counts_sum c + length rs \<and> abc_expired c' = abc_expired c
    \<and> unat (abc_succeeded c') = unat (abc_succeeded c) + length (filter succeeded rs)
    \<and> unat (abc_canceled c') = unat (abc_canceled c) + length (filter dropped rs)
    \<and> map (json_get (str ''custom_id'')) ls = map (\<lambda>r. Some (JString (fst r))) rs"
  using assms
proof (induction rs arbitrary: c ls)
  case Nil
  then show ?case by simp
next
  case (Cons p rs)
  obtain custom r where p: "p = (custom, r)" by (cases p)
  obtain v c1 where v: "anthropic_item_result r c = (v, c1)" by fastforce
  obtain ls1 where ls1: "anthropic_results rs c1 = (ls1, c')" "ls = batch_result_line custom v # ls1"
    using Cons.prems(2) by (auto simp: p v split: prod.splits)
  have bounds: "unat (abc_succeeded c) < 18446744073709551615" "unat (abc_errored c) < 18446744073709551615"
    "unat (abc_canceled c) < 18446744073709551615"
    using Cons.prems(1) by (simp_all add: counts_sum_def)
  have one: "counts_sum c1 = Suc (counts_sum c) \<and> abc_expired c1 = abc_expired c
      \<and> unat (abc_succeeded c1) = unat (abc_succeeded c) + (if succeeded p then 1 else 0)
      \<and> unat (abc_canceled c1) = unat (abc_canceled c) + (if dropped p then 1 else 0)"
    using v bounds by (auto simp: p anthropic_item_result_def counts_sum_def succeeded_def dropped_def sat_add_one
        split: option.splits sum.splits if_splits)
  have "counts_sum c1 + length rs < 2 ^ 64" using one Cons.prems(1) by simp
  from Cons.IH [OF this ls1(1)] one show ?case
    by (auto simp: ls1(2) p batch_result_line_def json_get_object)
qed

end
