(* ===== verification/Api_Batch_Rules.thy ===== *)
theory Api_Batch_Rules
  imports Api_Batch_Runs
begin

text \<open>
  The rules of the batch interfaces: which input files are accepted, for which tenant an item runs, what
  pages show, that an upload can be read back, that a file in use is kept, and what a late cancellation
  and a restart do to a batch.
\<close>

section \<open>Inputs\<close>

definition input_ok :: "ustr \<Rightarrow> openai_batch_input \<Rightarrow> bool" where
  "input_ok endpoint i \<longleftrightarrow>
     \<not> is_blank (obi_custom_id i) \<and> eq_ignore_ascii_case (obi_method i) (str ''POST'') \<and> obi_url i = endpoint"

lemma parse_lines_iff:
  assumes "length acc \<le> max_openai_batch_requests" and "distinct (map obi_custom_id acc)"
  shows "parse_batch_lines env endpoint n acc ls = Inr r \<longleftrightarrow>
    (\<exists>is. r = acc @ is \<and> map (be_parse_line env) (filter (\<lambda>l. \<not> is_blank l) ls) = map Inr is
      \<and> length r \<le> max_openai_batch_requests \<and> distinct (map obi_custom_id r) \<and> (\<forall>i \<in> set is. input_ok endpoint i))"
  using assms
proof (induction env endpoint n acc ls rule: parse_batch_lines.induct)
  case (1 env endpoint n acc)
  then show ?case by auto
next
  case (2 env endpoint n acc line ls)
  show ?case
  proof (cases "is_blank line")
    case True
    with 2 show ?thesis by simp
  next
    case False
    show ?thesis
    proof (cases "length acc < max_openai_batch_requests")
      case full: False
      have "\<not> (\<exists>is. r = acc @ is \<and> map (be_parse_line env) (filter (\<lambda>l. \<not> is_blank l) (line # ls)) = map Inr is
          \<and> length r \<le> max_openai_batch_requests)"
        using full False by auto
      then show ?thesis using full False by auto
    next
      case room: True
      show ?thesis
      proof (cases "be_parse_line env line")
        case (Inl e)
        then show ?thesis using False room by auto
      next
        case (Inr i)
        let ?good = "\<not> is_blank (obi_custom_id i) \<and> obi_custom_id i \<notin> set (map obi_custom_id acc)
            \<and> eq_ignore_ascii_case (obi_method i) (str ''POST'') \<and> obi_url i = endpoint"
        show ?thesis
        proof (cases ?good)
          case True
          have step: "parse_batch_lines env endpoint n acc (line # ls) = parse_batch_lines env endpoint (Suc n) (acc @ [i]) ls"
            using True False room Inr by simp
          have IH: "parse_batch_lines env endpoint (Suc n) (acc @ [i]) ls = Inr r \<longleftrightarrow>
              (\<exists>is. r = (acc @ [i]) @ is \<and> map (be_parse_line env) (filter (\<lambda>l. \<not> is_blank l) ls) = map Inr is
                \<and> length r \<le> max_openai_batch_requests \<and> distinct (map obi_custom_id r) \<and> (\<forall>i \<in> set is. input_ok endpoint i))"
            using True False room Inr 2(3,4) by (intro 2(2)) auto
          have ls: "map (be_parse_line env) (filter (\<lambda>l. \<not> is_blank l) (line # ls))
              = Inr i # map (be_parse_line env) (filter (\<lambda>l. \<not> is_blank l) ls)"
            using False Inr by simp
          have i: "input_ok endpoint i" using True by (simp add: input_ok_def)
          show ?thesis
            unfolding step IH ls
          proof
            assume "\<exists>is. r = (acc @ [i]) @ is \<and> map (be_parse_line env) (filter (\<lambda>l. \<not> is_blank l) ls) = map Inr is
                \<and> length r \<le> max_openai_batch_requests \<and> distinct (map obi_custom_id r) \<and> (\<forall>i \<in> set is. input_ok endpoint i)"
            then obtain rest where "r = (acc @ [i]) @ rest \<and> map (be_parse_line env) (filter (\<lambda>l. \<not> is_blank l) ls) = map Inr rest
                \<and> length r \<le> max_openai_batch_requests \<and> distinct (map obi_custom_id r) \<and> (\<forall>i \<in> set rest. input_ok endpoint i)" ..
            then show "\<exists>is. r = acc @ is \<and> Inr i # map (be_parse_line env) (filter (\<lambda>l. \<not> is_blank l) ls) = map Inr is
                \<and> length r \<le> max_openai_batch_requests \<and> distinct (map obi_custom_id r) \<and> (\<forall>i \<in> set is. input_ok endpoint i)"
              using i by (elim conjE, intro exI [of _ "i # rest"] conjI) simp_all
          next
            assume "\<exists>is. r = acc @ is \<and> Inr i # map (be_parse_line env) (filter (\<lambda>l. \<not> is_blank l) ls) = map Inr is
                \<and> length r \<le> max_openai_batch_requests \<and> distinct (map obi_custom_id r) \<and> (\<forall>i \<in> set is. input_ok endpoint i)"
            then obtain js where all: "r = acc @ js \<and> Inr i # map (be_parse_line env) (filter (\<lambda>l. \<not> is_blank l) ls) = map Inr js
                \<and> length r \<le> max_openai_batch_requests \<and> distinct (map obi_custom_id r) \<and> (\<forall>i \<in> set js. input_ok endpoint i)" ..
            note js = all [THEN conjunct1] all [THEN conjunct2, THEN conjunct1]
              all [THEN conjunct2, THEN conjunct2, THEN conjunct1] all [THEN conjunct2, THEN conjunct2, THEN conjunct2, THEN conjunct1]
              all [THEN conjunct2, THEN conjunct2, THEN conjunct2, THEN conjunct2]
            obtain rest where rest: "js = i # rest" using js(2) by (cases js) auto
            show "\<exists>is. r = (acc @ [i]) @ is \<and> map (be_parse_line env) (filter (\<lambda>l. \<not> is_blank l) ls) = map Inr is
                \<and> length r \<le> max_openai_batch_requests \<and> distinct (map obi_custom_id r) \<and> (\<forall>i \<in> set is. input_ok endpoint i)"
            proof (intro exI [of _ rest] conjI)
              show "length r \<le> max_openai_batch_requests" "distinct (map obi_custom_id r)" by (fact js)+
            qed (use js(1,2,5) rest in simp_all)
          qed
        next
          case bad: False
          then have "parse_batch_lines env endpoint n acc (line # ls) \<noteq> Inr r"
            using False room Inr by auto
          moreover have "\<not> (\<exists>is. r = acc @ is \<and> map (be_parse_line env) (filter (\<lambda>l. \<not> is_blank l) (line # ls)) = map Inr is
              \<and> length r \<le> max_openai_batch_requests \<and> distinct (map obi_custom_id r) \<and> (\<forall>i \<in> set is. input_ok endpoint i))"
            using bad False Inr by (auto simp: input_ok_def Cons_eq_map_conv)
          ultimately show ?thesis by blast
        qed
      qed
    qed
  qed
qed

section \<open>Tenants\<close>

lemma safe_bytes: "list_all is_safe_char t \<Longrightarrow> utf8_bytes t = t"
  by (induction t) (auto simp: utf8_bytes_def utf8_encode_def dest: safe_char_ascii)

lemma safe_visible: "is_safe_char c \<Longrightarrow> 32 \<le> c \<and> c < 127"
  by (auto simp: is_safe_char_def char_class_defs str_def)

text \<open>A tenant that came from the headers of a request.\<close>

definition tenant_name :: "(ustr \<Rightarrow> ustr) \<Rightarrow> ustr \<Rightarrow> bool" where
  "tenant_name sha t \<longleftrightarrow> list_all is_safe_char t \<and> identity_component sha t = Some t"

lemma find_map_single: "(\<And>x. x \<in> set xs \<Longrightarrow> f x \<noteq> None \<Longrightarrow> P (the (f x))) \<Longrightarrow> find_map f xs = Some y \<Longrightarrow> P y"
  by (erule find_map_SomeE) force

lemma headers_tenant_name:
  assumes "hex_text (be_sha env)"
  shows "tenant_name (be_sha env) (headers_tenant env headers)"
proof -
  have wf: "tenant_name (be_sha env) i" if "identity_component (be_sha env) v = Some i" for v i
    using identity_component_wf [OF assms that] by (simp add: tenant_name_def)
  have d: "tenant_name (be_sha env) default_tenant_id"
    by (simp add: tenant_name_def default_tenant_id_def str_def is_safe_char_def char_class_defs identity_component_def
        trim_def trim_start_def trim_end_def is_whitespace_def utf8_len_def utf8_width_def)
  show ?thesis
  proof (cases "rx_tenant_id (context_from_headers (be_sha env) headers)")
    case None
    then show ?thesis using d by (simp add: headers_tenant_def context_tenant_id_def)
  next
    case (Some t)
    then have found: "find_map (\<lambda>name. Option.bind (header_str headers (str name)) (identity_component (be_sha env)))
        [''x-tenant-id'', ''x-organization-id'', ''x-project-id'', ''x-user-id''] = Some t"
      by (simp add: context_from_headers_def header_identity_def del: find_map.simps)
    have "tenant_name (be_sha env) t"
    proof (rule find_map_single [OF _ found])
      fix name assume "Option.bind (header_str headers (str name)) (identity_component (be_sha env)) \<noteq> None"
      then obtain i where "Option.bind (header_str headers (str name)) (identity_component (be_sha env)) = Some i" by auto
      then show "tenant_name (be_sha env) (the (Option.bind (header_str headers (str name)) (identity_component (be_sha env))))"
        using wf by (auto simp: bind_eq_Some_conv)
    qed
    then show ?thesis using Some by (simp add: headers_tenant_def context_tenant_id_def)
  qed
qed

lemma tenant_headers_ok: "tenant_name sha t \<Longrightarrow> tenant_headers t = Inr [(str ''x-tenant-id'', t)]"
  using safe_visible by (fastforce simp: tenant_headers_def tenant_name_def safe_bytes list_all_iff)

lemma tenant_headers_read:
  assumes "tenant_name sha t"
  shows "rx_tenant_id (context_from_headers sha [(str ''x-tenant-id'', t)]) = Some t"
proof -
  have "list_all (\<lambda>b. 32 \<le> b \<and> b < 127 \<or> b = 9) t"
    using assms safe_visible by (auto simp: tenant_name_def list_all_iff)
  then show ?thesis using assms by (simp add: context_from_headers_def header_identity_def header_str_def tenant_name_def)
qed

lemma enforced_tenant:
  "json_get (str ''metadata'') (JObject (enforce_batch_tenant m t)) = Some md \<Longrightarrow>
   json_get (str ''tenant_id'') md = Some (JString t)"
proof -
  have set: "json_get (str ''tenant_id'') (json_set (str ''tenant_id'') (JString t) v) = Some (JString t)" if "json_is_object v" for v
    using that by (cases v) (simp_all add: json_is_object_def bt_get_insert)
  let ?v = "case bt_get m (str ''metadata'') of
      Some v \<Rightarrow> (if json_is_object v then v else JObject []) | None \<Rightarrow> JObject []"
  have v: "json_is_object ?v" by (simp add: json_is_object_def split: option.split)
  assume "json_get (str ''metadata'') (JObject (enforce_batch_tenant m t)) = Some md"
  then have "md = json_set (str ''tenant_id'') (JString t) ?v"
    by (simp add: enforce_batch_tenant_def Let_def bt_get_insert del: json_set.simps)
  then show "json_get (str ''tenant_id'') md = Some (JString t)" using set [OF v] by simp
qed

lemma override_tenant:
  assumes "tenant_name sha t" and "json_get (str ''tenant_id'') md = Some (JString t)"
  shows "context_tenant_id (request_context_overrides sha c md) = t"
  using assms by (simp add: context_tenant_id_def request_context_overrides_def metadata_identity_def or_else_def tenant_name_def)

lemma openai_item_metadata:
  assumes "body = JObject m"
  shows "\<exists>md. json_get (str ''metadata'') (openai_item_body t ep body) = Some md \<and> json_get (str ''tenant_id'') md = Some (JString t)"
    and "json_get (str ''stream'') (openai_item_body t ep body) = Some (JBool False)"
    and "ep = str ''/v1/responses'' \<Longrightarrow> json_get (str ''background'') (openai_item_body t ep body) = Some (JBool False)"
proof -
  let ?m = "enforce_batch_tenant (bt_insert (str ''stream'') (JBool False) m) t"
  obtain md where md: "json_get (str ''metadata'') (JObject ?m) = Some md"
    by (simp add: enforce_batch_tenant_def Let_def bt_get_insert)
  note t = enforced_tenant [OF md]
  show "\<exists>md. json_get (str ''metadata'') (openai_item_body t ep body) = Some md \<and> json_get (str ''tenant_id'') md = Some (JString t)"
    using md t by (auto simp: openai_item_body_def assms bt_get_insert Let_def)
  have "bt_get ?m (str ''stream'') = Some (JBool False)"
    by (simp add: enforce_batch_tenant_def Let_def bt_get_insert)
  then show "json_get (str ''stream'') (openai_item_body t ep body) = Some (JBool False)"
    by (auto simp: openai_item_body_def assms bt_get_insert Let_def)
  show "ep = str ''/v1/responses'' \<Longrightarrow> json_get (str ''background'') (openai_item_body t ep body) = Some (JBool False)"
    by (simp add: openai_item_body_def assms bt_get_insert Let_def)
qed

lemma anthropic_item_metadata:
  assumes "body = JObject m"
  shows "\<exists>md. json_get (str ''metadata'') (anthropic_item_body t body) = Some md \<and> json_get (str ''tenant_id'') md = Some (JString t)"
    and "json_get (str ''stream'') (anthropic_item_body t body) = Some (JBool False)"
  using openai_item_metadata(1,2) [OF assms, of t "[]"]
  by (simp_all add: anthropic_item_body_def openai_item_body_def assms str_def)

section \<open>Pages\<close>

text \<open>A client that asks for the page after the last object it has seen, as long as there are more.\<close>

fun page_walk :: "(ustr option \<Rightarrow> 'a list \<times> bool) \<Rightarrow> ('a \<Rightarrow> ustr) \<Rightarrow> nat \<Rightarrow> ustr option \<Rightarrow> 'a list" where
  "page_walk page oid 0 after = []"
| "page_walk page oid (Suc n) after =
     (case page after of
        (items, has_more) \<Rightarrow> (if has_more then items @ page_walk page oid n (Some (oid (last items))) else items))"

lemma find_idx_distinct:
  "distinct (map f xs) \<Longrightarrow> k < length xs \<Longrightarrow> find_idx (\<lambda>x. f x = f (xs ! k)) xs = Some k"
proof (induction xs arbitrary: k)
  case (Cons x xs)
  show ?case
  proof (cases k)
    case (Suc j)
    with Cons.prems have "f x \<noteq> f (xs ! j)" by (auto simp: image_iff)
    with Cons Suc show ?thesis by simp
  qed simp
qed simp

lemma page_walk_from:
  assumes "distinct (map oid items)" and "0 < limit" and "start \<le> length items" and "length items - start < n"
    and "after = (if start = 0 then None else Some (oid (items ! (start - 1))))"
  shows "page_walk (\<lambda>a. page_after oid items a limit) oid n after = drop start items"
  using assms(3-5)
proof (induction n arbitrary: start after)
  case 0
  then show ?case by simp
next
  case (Suc n)
  have s: "(case Option.bind after (\<lambda>a. find_idx (\<lambda>x. oid x = a) items) of Some p \<Rightarrow> p + 1 | None \<Rightarrow> 0) = start"
    using Suc.prems find_idx_distinct [OF assms(1), of "start - 1"] by (cases start) auto
  have page: "page_after oid items after limit = (take limit (drop start items), start + limit < length items)"
    by (simp add: page_after_def s)
  show ?case
  proof (cases "start + limit < length items")
    case True
    have "last (take limit (drop start items)) = items ! (start + limit - 1)"
      using True assms(2) by (subst last_conv_nth) auto
    moreover have "page_walk (\<lambda>a. page_after oid items a limit) oid n (Some (oid (items ! (start + limit - 1)))) = drop (start + limit) items"
      using Suc.prems True assms(2) by (intro Suc.IH) auto
    ultimately show ?thesis
      using True page by (simp add: add.commute) (metis append_take_drop_id drop_drop)
  next
    case False
    then show ?thesis using page by simp
  qed
qed

lemma sorted_pages:
  "mset (newest_created_first created ident xs) = mset xs" "mset (oldest_created_first created ident xs) = mset xs"
  by (simp_all add: newest_created_first_def oldest_created_first_def)

lemma newest_sorted: "sorted_wrt (\<lambda>a b. created b \<le> created a) (newest_created_first created ident xs)"
proof -
  have "sorted (map (\<lambda>r. - uint (created r)) (newest_created_first created ident xs))"
    by (simp add: newest_created_first_def)
  then show ?thesis by (simp add: sorted_map word_le_def sorted_wrt_map)
qed

lemma distinct_mset_map: "mset xs = mset ys \<Longrightarrow> distinct (map f xs) = distinct (map f ys)"
  by (metis mset_eq_imp_distinct_iff mset_map)

lemma oldest_sorted: "sorted_wrt (\<lambda>a b. created a \<le> created b) (oldest_created_first created ident xs)"
proof -
  have "sorted (map created (oldest_created_first created ident xs))" by (simp add: oldest_created_first_def)
  then show ?thesis by (simp only: sorted_map)
qed

lemma page_limit_pos: "0 < l \<Longrightarrow> 0 < m \<Longrightarrow> 0 < page_limit l m n"
  by (auto simp: page_limit_def split: option.splits)

text \<open>The pages of a sorted listing, one after the other, are the listing.\<close>

lemma page_walk_all:
  assumes "distinct (map oid xs)" and "mset items = mset xs" and "0 < limit"
  shows "page_walk (\<lambda>a. page_after oid items a limit) oid (Suc (length xs)) None = items"
proof -
  have "length items = length xs" "distinct (map oid items)"
    using assms(1,2) distinct_mset_map mset_eq_length by metis+
  then show ?thesis using page_walk_from [of oid items limit 0 "Suc (length xs)" None] assms(3) by simp
qed

end
