(* ===== verification/Api_Batch_Files_Facts.thy ===== *)
theory Api_Batch_Files_Facts
  imports Api_Batch_Rules
begin

text \<open>
  Whole handlers of the batch interfaces over the store: an upload that is read back, a file that is
  kept while a batch uses it, what a finished run has counted, and a cancellation that comes late.
\<close>

section \<open>Uploads\<close>

lemma upload_kept:
  assumes ok: "bw_ok env w" and r: "files_create env headers parts w = (JsonReply j, w')"
  obtains f bytes u where "upload_fields env parts no_upload = Inr u" and "up_bytes u = Some bytes"
    and "j = openai_file_json f" and "fi_tenant_id f = headers_tenant env headers" and "fi_bytes f = word_of_nat (length bytes)"
    and "component_ok (fi_id f)" and "bw_ok env w'"
    and "object_in env w' openai_files_ns (headers_tenant env headers) (fi_id f) = Some (file_to_value f)"
    and "blob_in env w' openai_file_blobs_ns (headers_tenant env headers) (fi_id f) = Some bytes"
proof -
  let ?t = "headers_tenant env headers"
  obtain u c where u: "upload_fields env parts no_upload = Inr u" and c: "checked_upload u = Inr c"
    using r by (auto simp: files_create_def invalid_request_def reply_def Let_def ebind_Inr_iff split: sum.splits)
  obtain purpose filename bytes where cc: "c = (purpose, filename, bytes)" by (cases c)
  have ub: "up_bytes u = Some bytes"
    using c by (auto simp: cc checked_upload_def split: option.splits if_splits)
  let ?i = "str ''file-'' @ be_fresh env (bw_uuids w)"
  let ?w = "w\<lparr>bw_ticks := Suc (bw_ticks w), bw_uuids := Suc (bw_uuids w)\<rparr>"
  let ?f = "\<lparr>fi_tenant_id = ?t, fi_id = ?i, fi_bytes = word_of_nat (length bytes), fi_created_at = be_now env (bw_ticks w),
      fi_filename = filename, fi_purpose = purpose, fi_status = str ''processed'',
      fi_expires_at = file_expiry purpose (be_now env (bw_ticks w)) (up_expires u), fi_status_details = None\<rparr>"
  have run: "files_create env headers parts w =
      reply_bind (put_blob env openai_file_blobs_ns ?t ?i bytes) (\<lambda>_ w.
        case put_file env ?t ?i ?f w of
          (Inr _, w') \<Rightarrow> (JsonReply (openai_file_json ?f), w')
        | (Inl e, w') \<Rightarrow> (ErrorReply (internal_error_response e), snd (delete_blob env openai_file_blobs_ns ?t ?i w'))) ?w"
    using u c by (simp add: files_create_def Let_def cc with_now_def with_uuid_def cong: sum.case_cong prod.case_cong)
  have okw: "bw_ok env ?w" using ok by simp
  have i: "component_ok ?i"
  proof (rule ccontr)
    assume "\<not> component_ok ?i"
    then obtain e where "put_blob env openai_file_blobs_ns ?t ?i bytes ?w = (Inl e, ?w)"
      using world_put_refused(2) by blast
    then show False using r by (simp add: run reply_bind_def)
  qed
  show thesis
  proof (rule world_put_blob [OF okw namespaces_ok(2) i, of ?t bytes])
    fix w1 assume p: "put_blob env openai_file_blobs_ns ?t ?i bytes ?w = (Inr (), w1)" and ok1: "bw_ok env w1"
      and b1: "blob_in env w1 openai_file_blobs_ns ?t ?i = Some bytes"
    show thesis
    proof (rule world_put_file [OF ok1 i, of ?t ?f])
      fix w2 assume "on_store (durable_put_json (be_durable env) (\<lambda>r. Inr (file_to_value r)) openai_files_ns ?t ?i ?f) w1 = (Inr (), w2)"
        and "bw_ok env w2" and "object_in env w2 openai_files_ns ?t ?i = Some (file_to_value ?f)"
        and "\<And>n' t' i'. blob_in env w2 n' t' i' = blob_in env w1 n' t' i'"
      then show thesis
        using r p b1 i by (intro that [OF u ub, of ?f]) (simp_all add: run reply_bind_def put_file_def)
    qed
  qed
qed

lemma upload_served:
  assumes "bw_ok env w" and "component_ok i"
    and "object_in env w openai_files_ns (headers_tenant env headers) i = Some (file_to_value f)"
    and "blob_in env w openai_file_blobs_ns (headers_tenant env headers) i = Some bytes"
  shows "files_content env headers i w = (built_reply env
     [(str ''content-type'', str ''application/octet-stream''),
      (str ''content-disposition'', str ''attachment; filename='' @ [34] @ safe_header_filename (fi_filename f) @ [34])] bytes, w)"
    and "files_retrieve env headers i w = (JsonReply (openai_file_json f), w)"
  using world_get [OF assms(1) namespaces_ok(1) assms(2), of file_of_value] world_get_blob [OF assms(1) namespaces_ok(2) assms(2)]
    assms(3,4)
  by (simp_all add: files_content_def files_retrieve_def Let_def reply_bind_def get_file_def file_survives reply_def)

section \<open>Files in use\<close>

lemma listed_batches:
  assumes ok: "bw_ok env w" and l: "list_openai_batches env t w = (r, w')"
  shows "w' = w" and "r = Inr bs \<Longrightarrow> stored_openai env w t i = Some b \<Longrightarrow> component_ok i \<Longrightarrow> b \<in> set bs"
proof -
  let ?D = "be_durable env"
  let ?S = "list_scope ?D (openai_batches_ns, Some t)"
  have inv: "durable_inv ?D (bw_store w)" using ok by (simp add: bw_ok_def)
  obtain cs where cs: "set cs = {c \<in> ?S. object_at ?D (bw_store w) c \<noteq> None}"
    and run: "list_objects ?D (openai_batches_ns, Some t) (bw_store w)
      = (Inr (map (\<lambda>c. the (object_at ?D (bw_store w) c)) cs), bw_store w)"
    using objects.list_law [OF inv, of "(openai_batches_ns, Some t)"] namespaces_ok(3) by auto
  let ?vs = "map (\<lambda>c. the (object_at ?D (bw_store w) c)) cs"
  have v: "validate_durable (str ''namespace'') openai_batches_ns = Inr ()"
    using namespaces_ok(3) by (simp add: validate_durable_def)
  have dec: "durable_list_json ?D (decoded_as env openai_batch_of_value) openai_batches_ns t (bw_store w)
      = (collect_answers (map (decoded_as env openai_batch_of_value) ?vs), bw_store w)"
  proof -
    obtain raw st where raw: "(case bw_store w of
        MemoryStore os _ \<Rightarrow> (Inr (map snd (filter (\<lambda>e. starts_with (fst e) (hashed_key openai_batches_ns (tenant_hash ?D t) [])) os)), bw_store w)
      | FilesystemStore root fs \<Rightarrow> keep_root root (read_object_directory ?D (object_directory ?D root openai_batches_ns t) fs)) = (raw, st)"
      by fastforce
    have "decode_answers Inr (raw, st) = (Inr ?vs, bw_store w)"
      using run by (simp add: list_objects_def durable_list_json_def v raw)
    then have "raw = Inr ?vs" "st = bw_store w"
      by (cases raw; simp add: decode_answers_def collect_answers_Inr)+
    then show ?thesis by (simp add: durable_list_json_def v raw) (simp add: decode_answers_def)
  qed
  show "w' = w" using l by (simp add: list_openai_batches_def on_store_def dec)
  assume "r = Inr bs" and s: "stored_openai env w t i = Some b" and "component_ok i"
  then have bs: "collect_answers (map (decoded_as env openai_batch_of_value) ?vs) = Inr bs"
    using l by (auto simp: list_openai_batches_def on_store_def dec)
  obtain j where j: "object_in env w openai_batches_ns t i = Some j" "openai_batch_of_value j = Some b"
    using s by (auto simp: stored_openai_def bind_eq_Some_conv)
  have "key_cell ?D (openai_batches_ns, t, i) \<in> set cs"
    using j(1) by (simp add: cs object_in_def list_scope_def key_cell_def)
  then have "decoded_as env openai_batch_of_value j \<in> set (map (decoded_as env openai_batch_of_value) ?vs)"
    using j(1) by (force simp: object_in_def)
  then have "Inr b \<in> set (map (decoded_as env openai_batch_of_value) ?vs)"
    using j(2) by (simp add: decoded_as_def)
  then have "Inr b \<in> set (map Inr bs :: (ustr + openai_batch) list)" by (simp only: collect_answers_length [OF bs])
  then show "b \<in> set bs" by auto
qed

lemma file_deleted:
  assumes ok: "bw_ok env w" and r: "files_delete env headers i w = (JsonReply j, w')"
  shows "(\<forall>b k. component_ok k \<longrightarrow> stored_openai env w (headers_tenant env headers) k = Some b \<longrightarrow> openai_active (ob_status b)
        \<longrightarrow> ob_input_file_id b \<noteq> i)
    \<and> object_in env w' openai_files_ns (headers_tenant env headers) i = None
    \<and> blob_in env w' openai_file_blobs_ns (headers_tenant env headers) i = None"
proof -
  let ?t = "headers_tenant env headers"
  let ?D = "be_durable env"
  obtain l w1 where l: "list_openai_batches env ?t w = (l, w1)" by fastforce
  have w1: "w1 = w" by (rule listed_batches(1) [OF ok l])
  obtain bs where bs: "l = Inr bs" using r l by (cases l) (auto simp: files_delete_def Let_def reply_bind_def)
  have free: "\<not> list_ex (\<lambda>b. ob_input_file_id b = i \<and> openai_active (ob_status b)) bs"
    using r l bs by (auto simp: files_delete_def Let_def reply_bind_def reply_def)
  have i: "component_ok i"
  proof (rule ccontr)
    assume "\<not> component_ok i"
    then show False
      using r l bs w1 free refused_step(3) [of "(openai_files_ns, ?t, i)" ?D "bw_store w"]
      by (auto simp: files_delete_def Let_def reply_bind_def on_store_def delete_object_def key_ok_iff split: prod.splits)
  qed
  have inv: "durable_inv ?D (bw_store w)" using ok by (simp add: bw_ok_def)
  obtain st where st: "delete_object ?D (openai_files_ns, ?t, i) (bw_store w) =
      (Inr (object_at ?D (bw_store w) (key_cell ?D (openai_files_ns, ?t, i)) \<noteq> None), st)"
    "durable_inv ?D st" "object_at ?D st = (object_at ?D (bw_store w))(key_cell ?D (openai_files_ns, ?t, i) := None)"
    using objects.delete_law [OF inv, of "(openai_files_ns, ?t, i)"] i namespaces_ok(1) by (auto simp: key_ok_iff)
  obtain st2 where st2: "delete_bytes ?D (openai_file_blobs_ns, ?t, i) st =
      (Inr (blob_at st (key_cell ?D (openai_file_blobs_ns, ?t, i)) \<noteq> None), st2)"
    "blob_at st2 = (blob_at st)(key_cell ?D (openai_file_blobs_ns, ?t, i) := None)"
    "object_at ?D st2 = object_at ?D st"
    using blobs.delete_law [OF st(2), of "(openai_file_blobs_ns, ?t, i)"] i namespaces_ok(2) by (auto simp: key_ok_iff)
  have w': "w' = w\<lparr>bw_store := st2\<rparr>"
    using r l bs w1 free st(1) st2(1)
    by (auto simp: files_delete_def Let_def reply_bind_def on_store_def delete_object_def delete_blob_def delete_bytes_def
        file_missing_def reply_def split: if_splits)
  show ?thesis
    using free listed_batches(2) [OF ok l bs] st(3) st2(2,3)
    by (auto simp: w' object_in_def blob_in_def list_ex_iff)
qed

section \<open>What a run has counted\<close>

lemma run_counts:
  assumes ok: "bw_ok env w" and i: "component_ok (ob_id b)" and e: "storable_batch b"
    and room: "unat (obc_completed (ob_request_counts b)) + max_openai_batch_requests < 2 ^ 64"
      "unat (obc_failed (ob_request_counts b)) + max_openai_batch_requests < 2 ^ 64"
    and live: "\<not> ob_cancel_requested b" "\<not> sch_cancelled_first sch"
    and inputs: "load_batch_input env b w = (Inr inputs, w)"
    and order: "length (sch_order sch inputs) = length inputs"
    and run: "run_openai_batch env sch b w = (Inr (), w')"
    and its: "its = run_items sch obi_custom_id
        (\<lambda>i. dispatch_openai_batch_item env (ob_tenant_id b) (ob_endpoint b) (obi_body i)) inputs"
  shows "\<exists>b'. stored_openai env w' (ob_tenant_id b) (ob_id b) = Some b'
    \<and> unat (obc_total (ob_request_counts b')) = length inputs
    \<and> unat (obc_completed (ob_request_counts b')) = unat (obc_completed (ob_request_counts b)) + length (filter succeeded its)
    \<and> unat (obc_failed (ob_request_counts b'))
        = unat (obc_failed (ob_request_counts b)) + length (filter errored its) + length (filter dropped its)
    \<and> ob_status b' = (if sch_cancelled_last sch \<or> filter dropped its \<noteq> [] then str ''cancelled'' else str ''completed'')"
proof -
  have n: "length its = length inputs" "length inputs \<le> max_openai_batch_requests"
    using order load_input_cases(2) [OF ok inputs] by (simp_all add: its run_items_def)
  obtain x w1 where x: "start_openai_batch env b w = (x, w1)" by fastforce
  let ?b = "started_batch (be_now env (bw_ticks w)) (length inputs) b"
  have xr: "x = Inr (?b, inputs)"
    using run live x inputs by (auto simp: run_openai_batch_def start_openai_batch_def bw_bind_def with_now_def Let_def
        split: prod.splits sum.splits)
  have ok1: "bw_ok env w1" using start_stored [OF ok i e x] by simp
  obtain t w2 where t: "tally_items env ?b its w1 = (t, w2)" by fastforce
  have sb: "obc_completed (ob_request_counts ?b) = obc_completed (ob_request_counts b)"
    "obc_failed (ob_request_counts ?b) = obc_failed (ob_request_counts b)"
    "obc_total (ob_request_counts ?b) = word_of_nat (length inputs)"
    by (simp_all add: started_batch_def)
  have small: "unat (obc_completed (ob_request_counts ?b)) + length its < 2 ^ 64"
    "unat (obc_failed (ob_request_counts ?b)) + length its < 2 ^ 64"
    using room n by (simp_all add: sb)
  note cs = tally_items_counts [OF small t]
  note same = same_batchD [OF cs(6)]
  obtain u where w2: "w2 = w1\<lparr>bw_uuids := u\<rparr>" using cs(7) by blast
  have ok2: "bw_ok env w2" using ok1 w2 by simp
  have fin: "end_openai_batch env (sch_cancelled_last sch) t w2 = (Inr (), w')"
    using run live x xr t by (simp add: run_openai_batch_def bw_bind_def its)
  have ids: "component_ok (ob_id (ta_batch t))" "storable_batch (ta_batch t)"
    "ob_id (ta_batch t) = ob_id b" "ob_tenant_id (ta_batch t) = ob_tenant_id b" "ob_cancel_requested (ta_batch t) = False"
    using same i e live by (simp_all add: started_batch_def)
  have pos: "0 < ta_cancelled t \<longleftrightarrow> filter dropped its \<noteq> []"
    using cs(3) by (metis length_0_conv neq0_conv unat_0 unat_gt_0 word_gt_0)
  have "length inputs < 2 ^ 64" using n(2) by (simp add: max_openai_batch_requests_def)
  then have total: "unat (obc_total (ob_request_counts (ta_batch t))) = length inputs"
    using same sb(3) by (simp add: unsigned_of_nat take_bit_nat_eq_self)
  from end_stored [OF ok2 ids(1,2) fin] cs(1,2) show ?thesis
    by (auto simp: ids pos total sb)
qed

section \<open>A late cancellation\<close>

lemma settle_nothing:
  assumes ok: "bw_ok env w" and i: "component_ok (ob_id b)" and e: "storable_batch b"
  shows "\<exists>b' w'. cancel_openai_batch env b [] [] w = (Inr (), w') \<and> bw_ok env w'
    \<and> stored_openai env w' (ob_tenant_id b) (ob_id b) = Some b'
    \<and> ob_status b' = str ''cancelled'' \<and> ob_output_file_id b' = None \<and> ob_error_file_id b' = None
    \<and> ob_request_counts b' = ob_request_counts b"
proof -
  let ?w = "w\<lparr>bw_ticks := Suc (bw_ticks w)\<rparr>"
  let ?b = "b\<lparr>ob_output_file_id := None, ob_error_file_id := None, ob_status := str ''cancelled'',
      ob_cancelled_at := Some (be_now env (bw_ticks w))\<rparr>"
  have okt: "bw_ok env ?w" and e': "storable_batch ?b" using ok e by simp_all
  show ?thesis
  proof (rule put_batch_stored [OF okt i e', of "ob_tenant_id b"])
    fix w' assume "put_openai_batch env (ob_tenant_id b) (ob_id b) ?b ?w = (Inr (), w')" and "bw_ok env w'"
      and "stored_openai env w' (ob_tenant_id b) (ob_id b) = Some ?b"
    then show ?thesis
      by (intro exI [of _ ?b] exI [of _ w'])
        (simp add: cancel_openai_batch_def settle_openai_batch_def write_openai_batch_output_file_def bw_bind_def with_now_def)
  qed
qed

lemma late_cancel:
  assumes ok: "bw_ok env w" and i: "component_ok (ob_id b)" and e: "storable_batch b"
    and b: "\<not> openai_terminal (ob_status b)"
  obtains w' where "openai_cancel_loaded env (ob_tenant_id b) (ob_id b) b w
      = (JsonReply (openai_batch_json (cancelling_batch (be_now env (bw_ticks w)) b)), w')"
    and "bw_ok env w'"
    and "stored_openai env w' (ob_tenant_id b) (ob_id b) = Some (cancelling_batch (be_now env (bw_ticks w)) b)"
proof -
  let ?w = "w\<lparr>bw_ticks := Suc (bw_ticks w)\<rparr>"
  let ?b = "cancelling_batch (be_now env (bw_ticks w)) b"
  have okt: "bw_ok env ?w" and e': "storable_batch ?b" using ok e by (simp_all add: cancelling_batch_def)
  show thesis
  proof (rule put_batch_stored [OF okt i e', of "ob_tenant_id b"])
    fix w1 assume "put_openai_batch env (ob_tenant_id b) (ob_id b) ?b ?w = (Inr (), w1)" and "bw_ok env w1"
      and s: "stored_openai env w1 (ob_tenant_id b) (ob_id b) = Some ?b"
    then show thesis
      using b by (intro that [of "w1\<lparr>bw_jobs := snd (job_cancel (openai_batch_job_key ?b) (bw_jobs w1))\<rparr>"])
        (simp_all add: openai_cancel_loaded_def with_now_def Let_def reply_bind_def stored_openai_def)
  qed
qed

end
