(* ===== verification/Api_Batch_Laws.thy ===== *)
theory Api_Batch_Laws
  imports Api_Batch_Files_Facts
begin

text \<open>
  A run whose random identifiers are well formed and differ from the ones drawn just before always ends with the record it promises:
  its writes succeed, and the two files of the batch hold one line for every request that ended.
\<close>

definition uuids_ok :: "batch_env \<Rightarrow> bool" where
  "uuids_ok env \<longleftrightarrow>
     (\<forall>n. component_ok (str ''file-'' @ be_fresh env n) \<and> be_fresh env (Suc n) \<noteq> be_fresh env n)"

text \<open>The lines a file of a batch holds; a batch has no file for no lines.\<close>

definition holds_lines :: "batch_env \<Rightarrow> batch_world \<Rightarrow> ustr \<Rightarrow> ustr option \<Rightarrow> json list \<Rightarrow> bool" where
  "holds_lines env w t i ls \<longleftrightarrow>
     (case i of
        None \<Rightarrow> ls = []
      | Some i \<Rightarrow> ls \<noteq> [] \<and> (\<exists>bytes. jsonl_bytes env ls = Inr bytes \<and> blob_in env w openai_file_blobs_ns t i = Some bytes))"

lemma holds_lines_cong:
  "(\<And>n t i. blob_in env w n t i = blob_in env w' n t i) \<Longrightarrow> holds_lines env w t i ls = holds_lines env w' t i ls"
  by (cases i) (simp_all add: holds_lines_def)

lemma output_file_written:
  assumes ok: "bw_ok env w" and u: "uuids_ok env"
  obtains i w' where "write_openai_batch_output_file env t b kind ls w = (Inr i, w')" and "bw_ok env w'"
    and "holds_lines env w' t i ls"
    and "i \<noteq> None \<Longrightarrow> bw_uuids w' = Suc (bw_uuids w) \<and> i = Some (str ''file-'' @ be_fresh env (bw_uuids w))"
    and "\<And>n t' i'. i' \<noteq> str ''file-'' @ be_fresh env (bw_uuids w) \<Longrightarrow> blob_in env w' n t' i' = blob_in env w n t' i'"
proof (cases "ls = []")
  case True
  then show thesis
    using ok by (intro that [of None w]) (simp_all add: write_openai_batch_output_file_def holds_lines_def)
next
  case False
  let ?i = "str ''file-'' @ be_fresh env (bw_uuids w)"
  let ?w = "w\<lparr>bw_uuids := Suc (bw_uuids w), bw_ticks := Suc (bw_ticks w)\<rparr>"
  obtain bytes where bytes: "jsonl_bytes env ls = Inr bytes" using jsonl_total [of env ls] ok by (auto simp: bw_ok_def)
  have okw: "bw_ok env ?w" using ok by simp
  have i: "component_ok ?i" using u by (simp add: uuids_ok_def)
  let ?f = "\<lparr>fi_tenant_id = t, fi_id = ?i, fi_bytes = word_of_nat (length bytes), fi_created_at = be_now env (bw_ticks w),
      fi_filename = b @ str ''-'' @ kind @ str ''.jsonl'', fi_purpose = str ''batch_output'',
      fi_status = str ''processed'', fi_expires_at = None, fi_status_details = None\<rparr>"
  have run: "write_openai_batch_output_file env t b kind ls w =
      bw_bind (put_blob env openai_file_blobs_ns t ?i bytes) (\<lambda>_. bw_bind (put_file env t ?i ?f) (\<lambda>_. Pair (Inr (Some ?i)))) ?w"
    using False bytes by (simp add: write_openai_batch_output_file_def with_uuid_def with_now_def Let_def)
  show thesis
  proof (rule world_put_blob [OF okw namespaces_ok(2) i, of t bytes])
    fix w1 assume p: "put_blob env openai_file_blobs_ns t ?i bytes ?w = (Inr (), w1)" and ok1: "bw_ok env w1"
      and e1: "w1 = ?w\<lparr>bw_store := bw_store w1\<rparr>" and b1: "blob_in env w1 openai_file_blobs_ns t ?i = Some bytes"
      and o1: "\<And>n' t' i'. (n', i') \<noteq> (openai_file_blobs_ns, ?i) \<Longrightarrow> blob_in env w1 n' t' i' = blob_in env ?w n' t' i'"
    show thesis
    proof (rule world_put_file [OF ok1 i, of t ?f])
      fix w2 assume q: "on_store (durable_put_json (be_durable env) (\<lambda>r. Inr (file_to_value r)) openai_files_ns t ?i ?f) w1 = (Inr (), w2)"
        and ok2: "bw_ok env w2" and e2: "w2 = w1\<lparr>bw_store := bw_store w2\<rparr>"
        and b2: "\<And>n' t' i'. blob_in env w2 n' t' i' = blob_in env w1 n' t' i'"
      have n: "bw_uuids w2 = Suc (bw_uuids w)" by (subst e2, subst e1) simp
      show thesis
      proof (rule that [of "Some ?i" w2])
        show "write_openai_batch_output_file env t b kind ls w = (Inr (Some ?i), w2)"
          using p q by (simp add: run bw_bind_def put_file_def)
        show "holds_lines env w2 t (Some ?i) ls" using False bytes b1 b2 by (simp add: holds_lines_def)
        fix n' t' i' assume "i' \<noteq> ?i"
        then show "blob_in env w2 n' t' i' = blob_in env w n' t' i'" using b2 o1 by simp
      qed (use n ok2 in auto)
    qed
  qed
qed

lemma settle_written:
  assumes ok: "bw_ok env w" and u: "uuids_ok env" and i: "component_ok (ob_id b)" and e: "storable_batch b"
    and f: "\<And>now o_id e_id. storable_batch (f now (b\<lparr>ob_output_file_id := o_id, ob_error_file_id := e_id\<rparr>))"
  obtains now o_id e_id w' where "settle_openai_batch env b output errors f w = (Inr (), w')" and "bw_ok env w'"
    and "stored_openai env w' (ob_tenant_id b) (ob_id b) = Some (f now (b\<lparr>ob_output_file_id := o_id, ob_error_file_id := e_id\<rparr>))"
    and "holds_lines env w' (ob_tenant_id b) o_id output" and "holds_lines env w' (ob_tenant_id b) e_id errors"
proof (rule output_file_written [OF ok u, of "ob_tenant_id b" "ob_id b" "str ''output''" "output"])
  fix o_id w1 assume o: "write_openai_batch_output_file env (ob_tenant_id b) (ob_id b) (str ''output'') output w = (Inr o_id, w1)"
    and ok1: "bw_ok env w1" and h1: "holds_lines env w1 (ob_tenant_id b) o_id output"
    and n1: "o_id \<noteq> None \<Longrightarrow> bw_uuids w1 = Suc (bw_uuids w) \<and> o_id = Some (str ''file-'' @ be_fresh env (bw_uuids w))"
  show thesis
  proof (rule output_file_written [OF ok1 u, of "ob_tenant_id b" "ob_id b" "str ''errors''" errors])
    fix e_id w2 assume e2: "write_openai_batch_output_file env (ob_tenant_id b) (ob_id b) (str ''errors'') errors w1 = (Inr e_id, w2)"
      and ok2: "bw_ok env w2" and h2: "holds_lines env w2 (ob_tenant_id b) e_id errors"
      and k2: "\<And>n t' i'. i' \<noteq> str ''file-'' @ be_fresh env (bw_uuids w1)
        \<Longrightarrow> blob_in env w2 n t' i' = blob_in env w1 n t' i'"
    have o2: "holds_lines env w2 (ob_tenant_id b) o_id output"
    proof (cases o_id)
      case (Some x)
      then have n: "bw_uuids w1 = Suc (bw_uuids w)" "x = str ''file-'' @ be_fresh env (bw_uuids w)" using n1 by auto
      have "blob_in env w2 openai_file_blobs_ns (ob_tenant_id b) x = blob_in env w1 openai_file_blobs_ns (ob_tenant_id b) x"
        using n u by (intro k2) (simp add: uuids_ok_def, metis)
      then show ?thesis using h1 Some by (simp add: holds_lines_def)
    qed (use h1 in \<open>simp add: holds_lines_def\<close>)
    let ?b = "f (be_now env (bw_ticks w2)) (b\<lparr>ob_output_file_id := o_id, ob_error_file_id := e_id\<rparr>)"
    let ?w = "w2\<lparr>bw_ticks := Suc (bw_ticks w2)\<rparr>"
    have okw: "bw_ok env ?w" using ok2 by simp
    have e': "storable_batch ?b" by (rule f)
    show thesis
    proof (rule world_put_batch [OF okw i e', of "ob_tenant_id b"])
      fix w3 assume p: "on_store (durable_put_json (be_durable env) (\<lambda>r. Inr (openai_batch_to_value r)) openai_batches_ns
            (ob_tenant_id b) (ob_id b) ?b) ?w = (Inr (), w3)" and "bw_ok env w3"
        and s: "object_in env w3 openai_batches_ns (ob_tenant_id b) (ob_id b) = Some (openai_batch_to_value ?b)"
        and bl: "\<And>n' t' i'. blob_in env w3 n' t' i' = blob_in env ?w n' t' i'"
      then show thesis
        using o e2 o2 h2 e'
        by (intro that [of w3 _ e_id o_id])
          (simp_all add: settle_openai_batch_def bw_bind_def with_now_def put_openai_batch_def stored_openai_def
            openai_batch_survives holds_lines_cong [of env w3 w2])
    qed
  qed
qed

section \<open>The lines of the files\<close>

abbreviation custom_id_of :: "json \<Rightarrow> json option" where
  "custom_id_of \<equiv> json_get (str ''custom_id'')"

abbreviation custom_ids_of :: "(ustr \<times> 'r) list \<Rightarrow> json option list" where
  "custom_ids_of its \<equiv> map (\<lambda>it. Some (JString (fst it))) its"

lemma line_ids [simp]: "custom_id_of (answer_line r c d) = Some (JString c)" "custom_id_of (error_line r c m) = Some (JString c)"
  by (simp_all add: answer_line_def error_line_def json_get_object)

lemma tally_item_lines:
  assumes "tally_item env it (t, w) = (t', w')"
  shows "map custom_id_of (ta_output t') = map custom_id_of (ta_output t) @ custom_ids_of (filter succeeded [it])"
    and "map custom_id_of (ta_errors t') = map custom_id_of (ta_errors t) @ custom_ids_of (filter errored [it])"
  using assms by (cases it; auto simp: tally_item_def with_uuid_def Let_def succeeded_def errored_def dropped_def
      split: option.splits sum.splits if_splits)+

lemma fold_tally_lines:
  assumes "fold (tally_item env) its (t, w) = (t', w')"
  shows "map custom_id_of (ta_output t') = map custom_id_of (ta_output t) @ custom_ids_of (filter succeeded its)
    \<and> map custom_id_of (ta_errors t') = map custom_id_of (ta_errors t) @ custom_ids_of (filter errored its)"
  using assms
proof (induction its arbitrary: t w)
  case (Cons it its)
  obtain t1 w1 where s: "tally_item env it (t, w) = (t1, w1)" by fastforce
  show ?case using Cons.IH [of t1 w1] Cons.prems tally_item_lines [OF s] by (simp add: s)
qed simp

lemma tally_items_lines:
  assumes "tally_items env b its w = (t, w')"
  shows "map custom_id_of (ta_output t) = custom_ids_of (filter succeeded its)"
    and "map custom_id_of (ta_errors t) = custom_ids_of (filter errored its)"
proof -
  let ?t0 = "\<lparr>ta_batch = b, ta_usage = provider_usage_default, ta_output = [], ta_errors = [], ta_cancelled = 0\<rparr>"
  obtain t1 w1 where s: "fold (tally_item env) its (?t0, w) = (t1, w1)" by fastforce
  from fold_tally_lines [OF s] assms
  show "map custom_id_of (ta_output t) = custom_ids_of (filter succeeded its)"
    "map custom_id_of (ta_errors t) = custom_ids_of (filter errored its)"
    by (auto simp: tally_items_def s)
qed

lemma load_input:
  assumes ok: "bw_ok env w" and i: "component_ok (ob_input_file_id b)"
    and f: "object_in env w openai_files_ns (ob_tenant_id b) (ob_input_file_id b) = Some (file_to_value f)"
    and p: "fi_purpose f = str ''batch''"
    and bl: "blob_in env w openai_file_blobs_ns (ob_tenant_id b) (ob_input_file_id b) = Some bytes"
  shows "load_batch_input env b w = (parse_batch_input env (ob_endpoint b) bytes, w)"
  using world_get [OF ok namespaces_ok(1) i, of file_of_value "ob_tenant_id b"] world_get_blob [OF ok namespaces_ok(2) i, of "ob_tenant_id b"]
    f p bl
  by (simp add: load_batch_input_def get_file_def bw_bind_def file_survives)

lemma load_same:
  assumes "ob_tenant_id b' = ob_tenant_id b" and "ob_input_file_id b' = ob_input_file_id b" and "ob_endpoint b' = ob_endpoint b"
  shows "load_batch_input env b' = load_batch_input env b"
  unfolding load_batch_input_def assms ..

section \<open>Runs that end\<close>

text \<open>The items of a run, in the order in which they end.\<close>

definition batch_items ::
  "batch_env \<Rightarrow> openai_batch_input item_schedule \<Rightarrow> openai_batch \<Rightarrow> openai_batch_input list
   \<Rightarrow> (ustr \<times> (ustr + batch_dispatch_result) option) list" where
  "batch_items env sch b inputs =
     run_items sch obi_custom_id
       (\<lambda>i. dispatch_openai_batch_item env (ob_tenant_id b) (ob_endpoint b) (obi_body i)) inputs"

text \<open>What a run of a batch leaves in the store.\<close>

definition run_kept ::
  "batch_env \<Rightarrow> openai_batch \<Rightarrow> bool \<Rightarrow> (ustr \<times> (ustr + batch_dispatch_result) option) list \<Rightarrow> batch_world \<Rightarrow> openai_batch \<Rightarrow> bool" where
  "run_kept env b cancelled its w b' \<longleftrightarrow>
     stored_openai env w (ob_tenant_id b) (ob_id b) = Some b'
     \<and> ob_status b' = (if cancelled \<or> filter dropped its \<noteq> [] then str ''cancelled'' else str ''completed'')
     \<and> (\<exists>out err. map custom_id_of out = custom_ids_of (filter succeeded its)
          \<and> map custom_id_of err = custom_ids_of (filter errored its)
          \<and> holds_lines env w (ob_tenant_id b) (ob_output_file_id b') out
          \<and> holds_lines env w (ob_tenant_id b) (ob_error_file_id b') err)"

lemma end_written:
  assumes ok: "bw_ok env w" and u: "uuids_ok env" and i: "component_ok (ob_id (ta_batch t))"
    and e: "storable_batch (ta_batch t)" and live: "\<not> ob_cancel_requested (ta_batch t)"
  obtains b' w' where "end_openai_batch env cancelled t w = (Inr (), w')" and "bw_ok env w'"
    and "stored_openai env w' (ob_tenant_id (ta_batch t)) (ob_id (ta_batch t)) = Some b'"
    and "ob_status b' = (if cancelled \<or> 0 < ta_cancelled t then str ''cancelled'' else str ''completed'')"
    and "holds_lines env w' (ob_tenant_id (ta_batch t)) (ob_output_file_id b') (ta_output t)"
    and "holds_lines env w' (ob_tenant_id (ta_batch t)) (ob_error_file_id b') (ta_errors t)"
proof (cases "cancelled \<or> 0 < ta_cancelled t")
  case True
  show thesis
  proof (rule settle_written [OF ok u i e,
        of "\<lambda>now b. b\<lparr>ob_status := str ''cancelled'', ob_cancelled_at := Some now\<rparr>" "ta_output t" "ta_errors t"])
    fix now o_id e_id w'
    assume "settle_openai_batch env (ta_batch t) (ta_output t) (ta_errors t)
        (\<lambda>now b. b\<lparr>ob_status := str ''cancelled'', ob_cancelled_at := Some now\<rparr>) w = (Inr (), w')" and "bw_ok env w'"
      and "stored_openai env w' (ob_tenant_id (ta_batch t)) (ob_id (ta_batch t)) = Some
        ((ta_batch t)\<lparr>ob_output_file_id := o_id, ob_error_file_id := e_id, ob_status := str ''cancelled'', ob_cancelled_at := Some now\<rparr>)"
      and "holds_lines env w' (ob_tenant_id (ta_batch t)) o_id (ta_output t)"
      and "holds_lines env w' (ob_tenant_id (ta_batch t)) e_id (ta_errors t)"
    with True show thesis
      by (intro that) (auto simp: end_openai_batch_def cancel_openai_batch_def)
  qed (use e in simp)
next
  case False
  let ?w = "w\<lparr>bw_ticks := Suc (bw_ticks w)\<rparr>"
  let ?b = "(ta_batch t)\<lparr>ob_status := str ''finalizing'', ob_finalizing_at := Some (be_now env (bw_ticks w))\<rparr>"
  have okt: "bw_ok env ?w" and e': "storable_batch ?b" and i': "component_ok (ob_id ?b)"
    using ok e i by simp_all
  show thesis
  proof (rule put_batch_stored [OF okt i e', of "ob_tenant_id (ta_batch t)"])
    fix w1 assume p: "put_openai_batch env (ob_tenant_id (ta_batch t)) (ob_id (ta_batch t)) ?b ?w = (Inr (), w1)"
      and ok1: "bw_ok env w1"
    show thesis
    proof (rule settle_written [OF ok1 u i' e',
          of "\<lambda>now b. b\<lparr>ob_status := str ''completed'', ob_completed_at := Some now\<rparr>" "ta_output t" "ta_errors t"])
      fix now o_id e_id w'
      assume "settle_openai_batch env ?b (ta_output t) (ta_errors t)
          (\<lambda>now b. b\<lparr>ob_status := str ''completed'', ob_completed_at := Some now\<rparr>) w1 = (Inr (), w')" and "bw_ok env w'"
        and "stored_openai env w' (ob_tenant_id ?b) (ob_id ?b) = Some
          (?b\<lparr>ob_output_file_id := o_id, ob_error_file_id := e_id, ob_status := str ''completed'', ob_completed_at := Some now\<rparr>)"
        and "holds_lines env w' (ob_tenant_id ?b) o_id (ta_output t)"
        and "holds_lines env w' (ob_tenant_id ?b) e_id (ta_errors t)"
      with False live p show thesis
        by (intro that)
          (auto simp: end_openai_batch_def finalize_openai_batch_def complete_openai_batch_def bw_bind_def with_now_def Let_def)
    qed (use e' in simp)
  qed
qed

lemma run_written:
  assumes ok: "bw_ok env w" and u: "uuids_ok env" and i: "component_ok (ob_id b)" and e: "storable_batch b"
    and room: "unat (obc_completed (ob_request_counts b)) + max_openai_batch_requests < 2 ^ 64"
      "unat (obc_failed (ob_request_counts b)) + max_openai_batch_requests < 2 ^ 64"
    and live: "\<not> ob_cancel_requested b" "\<not> sch_cancelled_first sch"
    and inputs: "load_batch_input env b w = (Inr inputs, w)"
    and order: "length (sch_order sch inputs) = length inputs"
  obtains b' w' where "run_openai_batch env sch b w = (Inr (), w')" and "bw_ok env w'"
    and "run_kept env b (sch_cancelled_last sch) (batch_items env sch b inputs) w' b'"
proof -
  let ?b = "started_batch (be_now env (bw_ticks w)) (length inputs) b"
  let ?w = "w\<lparr>bw_ticks := Suc (bw_ticks w)\<rparr>"
  let ?its = "batch_items env sch b inputs"
  have n: "length ?its = length inputs" "length inputs \<le> max_openai_batch_requests"
    using order load_input_cases(2) [OF ok inputs] by (simp_all add: batch_items_def run_items_def)
  have okt: "bw_ok env ?w" using ok by simp
  have e': "storable_batch ?b" using e by (simp add: started_batch_def)
  show thesis
  proof (rule put_batch_stored [OF okt i e', of "ob_tenant_id b"])
    fix w1 assume p: "put_openai_batch env (ob_tenant_id b) (ob_id b) ?b ?w = (Inr (), w1)" and ok1: "bw_ok env w1"
    obtain t w2 where t: "tally_items env ?b ?its w1 = (t, w2)" by fastforce
    have small: "unat (obc_completed (ob_request_counts ?b)) + length ?its < 2 ^ 64"
      "unat (obc_failed (ob_request_counts ?b)) + length ?its < 2 ^ 64"
      using room n by (simp_all add: started_batch_def)
    note cs = tally_items_counts [OF small t]
    note same = same_batchD [OF cs(6)]
    obtain k where w2: "w2 = w1\<lparr>bw_uuids := k\<rparr>" using cs(7) by blast
    have ok2: "bw_ok env w2" using ok1 w2 by simp
    have ids: "component_ok (ob_id (ta_batch t))" "storable_batch (ta_batch t)" "\<not> ob_cancel_requested (ta_batch t)"
      "ob_id (ta_batch t) = ob_id b" "ob_tenant_id (ta_batch t) = ob_tenant_id b"
      using same i e live by (simp_all add: started_batch_def)
    have pos: "0 < ta_cancelled t \<longleftrightarrow> filter dropped ?its \<noteq> []"
      using cs(3) by (metis length_0_conv neq0_conv unat_0 unat_gt_0 word_gt_0)
    show thesis
    proof (rule end_written [OF ok2 u ids(1-3), of "sch_cancelled_last sch"])
      fix b' w' assume "end_openai_batch env (sch_cancelled_last sch) t w2 = (Inr (), w')" and ok': "bw_ok env w'"
        and "stored_openai env w' (ob_tenant_id (ta_batch t)) (ob_id (ta_batch t)) = Some b'"
        and "ob_status b' = (if sch_cancelled_last sch \<or> 0 < ta_cancelled t then str ''cancelled'' else str ''completed'')"
        and "holds_lines env w' (ob_tenant_id (ta_batch t)) (ob_output_file_id b') (ta_output t)"
        and "holds_lines env w' (ob_tenant_id (ta_batch t)) (ob_error_file_id b') (ta_errors t)"
      then show thesis
        using live inputs p t tally_items_lines [OF t] ids pos
        by (intro that [OF _ ok', of b'])
          (auto simp: run_openai_batch_def start_openai_batch_def bw_bind_def with_now_def Let_def batch_items_def run_kept_def)
    qed
  qed
qed

section \<open>Message Batches\<close>

text \<open>
  The items of a run, in the order in which they end; a batch that was cancelled before its task began
  drops them all, in the order of its input.
\<close>

definition message_items ::
  "batch_env \<Rightarrow> anthropic_batch_input item_schedule \<Rightarrow> anthropic_batch \<Rightarrow> anthropic_batch_input list
   \<Rightarrow> (ustr \<times> (ustr + batch_dispatch_result) option) list" where
  "message_items env sch b inputs =
     (if ab_cancel_requested b \<or> sch_cancelled_first sch then map (\<lambda>i. (abi_custom_id i, None)) inputs
      else run_items sch abi_custom_id (\<lambda>i. dispatch_anthropic_batch_item env (ab_tenant_id b) (abi_params i)) inputs)"

text \<open>The line of an item has its identifier and says how it ended.\<close>

definition line_shows :: "ustr \<times> (ustr + batch_dispatch_result) option \<Rightarrow> json \<Rightarrow> bool" where
  "line_shows it l \<longleftrightarrow>
     custom_id_of l = Some (JString (fst it))
     \<and> Option.bind (json_get (str ''result'') l) (json_get (str ''type''))
         = Some (JString (if succeeded it then str ''succeeded'' else if dropped it then str ''canceled'' else str ''errored''))"

text \<open>What the end of a Message Batch leaves in the store: one line per request.\<close>

definition message_batch_kept ::
  "batch_env \<Rightarrow> anthropic_batch \<Rightarrow> (ustr \<times> (ustr + batch_dispatch_result) option) list \<Rightarrow> anthropic_batch_counts
   \<Rightarrow> batch_world \<Rightarrow> bool" where
  "message_batch_kept env b its c w \<longleftrightarrow>
     (\<exists>b' ls bytes. stored_anthropic env w (ab_tenant_id b) (ab_id b) = Some b' \<and> ab_processing_status b' = str ''ended''
       \<and> ab_request_counts b' = c \<and> jsonl_bytes env ls = Inr bytes
       \<and> blob_in env w anthropic_results_ns (ab_tenant_id b) (ab_id b) = Some bytes \<and> list_all2 line_shows its ls)"

lemma end_anthropic_kept:
  assumes ok: "bw_ok env w" and i: "component_ok (ab_id b)" and ls: "list_all2 line_shows its ls"
  obtains w' where "end_anthropic_batch env b ls c w = (Inr (), w')" and "message_batch_kept env b its c w'"
proof (rule end_anthropic_stored [OF ok i, of ls c])
  fix bytes now w' assume "end_anthropic_batch env b ls c w = (Inr (), w')"
    and "stored_anthropic env w' (ab_tenant_id b) (ab_id b) = Some (ended_batch now c b)"
    and "jsonl_bytes env ls = Inr bytes" and "blob_in env w' anthropic_results_ns (ab_tenant_id b) (ab_id b) = Some bytes"
  with ls show thesis
    by (intro that [of w']) (auto simp: message_batch_kept_def ended_batch_def intro!: exI [of _ ls])
qed

lemma result_line_shows: "fst (anthropic_item_result r c) = v \<Longrightarrow> line_shows (custom, r) (batch_result_line custom v)"
  by (auto simp: line_shows_def batch_result_line_def json_get_object anthropic_item_result_def succeeded_def dropped_def
      canceled_result_def errored_result_def split: option.splits sum.splits)

lemma result_lines_show: "anthropic_results its c = (ls, c') \<Longrightarrow> list_all2 line_shows its ls"
proof (induction its c arbitrary: ls rule: anthropic_results.induct)
  case (2 custom r rs c)
  then show ?case
    using result_line_shows [of r c] by (auto split: prod.splits)
qed simp

lemma run_anthropic_kept:
  assumes ok: "bw_ok env w" and i: "component_ok (ab_id b)"
    and inputs: "load_anthropic_inputs env b w = (Inr inputs, w)" and n: "length inputs < 2 ^ 64"
    and order: "mset (sch_order sch inputs) = mset inputs" and its: "its = message_items env sch b inputs"
  obtains c w' where "run_anthropic_batch env sch b w = (Inr (), w')" and "message_batch_kept env b its c w'"
    and "mset (map fst its) = mset (map abi_custom_id inputs)" and "abc_processing c = 0"
    and "unat (abc_succeeded c) = length (filter succeeded its)"
    and "unat (abc_errored c) = length (filter errored its)" and "unat (abc_canceled c) = length (filter dropped its)"
proof (cases "ab_cancel_requested b \<or> sch_cancelled_first sch")
  case True
  let ?c = "anthropic_counts_default\<lparr>abc_canceled := word_of_nat (length inputs)\<rparr>"
  let ?ls = "map (\<lambda>i. batch_result_line (abi_custom_id i) canceled_result) inputs"
  have its': "its = map (\<lambda>i. (abi_custom_id i, None)) inputs" using True by (simp add: its message_items_def)
  have ls: "list_all2 line_shows its ?ls"
    by (simp add: its' list.rel_map list_all2_same result_line_shows [of None anthropic_counts_default]
        anthropic_item_result_def)
  have run: "run_anthropic_batch env sch b w = end_anthropic_batch env b ?ls ?c w"
    using True inputs by (simp only: run_anthropic_batch_def bw_bind_def finish_cancelled_anthropic_batch_def if_True
        prod.case sum.case)
  have kinds: "filter succeeded its = []" "filter errored its = []" "filter dropped its = its"
    by (simp_all add: its' filter_empty_conv filter_id_conv succeeded_def errored_def dropped_def)
  show thesis
  proof (rule end_anthropic_kept [OF ok i ls, of ?c])
    fix w' assume "end_anthropic_batch env b ?ls ?c w = (Inr (), w')" and "message_batch_kept env b its ?c w'"
    with run show thesis
      by (intro that [of w' ?c], unfold kinds)
        (use n in \<open>simp_all add: its' anthropic_counts_default_def unsigned_of_nat take_bit_nat_eq_self comp_def\<close>)
  qed
next
  case False
  have its': "its = run_items sch abi_custom_id (\<lambda>i. dispatch_anthropic_batch_item env (ab_tenant_id b) (abi_params i)) inputs"
    using False by (simp add: its message_items_def)
  obtain ls c where r: "anthropic_results its anthropic_counts_default = (ls, c)" by fastforce
  let ?c = "c\<lparr>abc_processing := 0\<rparr>"
  have len: "length its = length inputs" using mset_eq_length [OF order] by (simp add: its' run_items_def)
  have small: "counts_sum anthropic_counts_default + length its < 2 ^ 64"
    using n by (simp add: len counts_sum_def anthropic_counts_default_def)
  note cs = anthropic_results_counts [OF small r]
  have run: "run_anthropic_batch env sch b w = end_anthropic_batch env b ls ?c w"
    using False inputs r by (simp add: run_anthropic_batch_def bw_bind_def its')
  have counts: "unat (abc_succeeded ?c) = length (filter succeeded its)" "unat (abc_canceled ?c) = length (filter dropped its)"
    "unat (abc_errored ?c) = length (filter errored its)"
    using cs kinds_partition [of its] by (simp_all add: counts_sum_def anthropic_counts_default_def)
  have ids: "mset (map fst its) = mset (map abi_custom_id inputs)"
  proof -
    have "map fst its = map abi_custom_id (sch_order sch inputs)" by (simp add: its' run_items_def)
    then show ?thesis by (simp only: mset_map order)
  qed
  show thesis
  proof (rule end_anthropic_kept [OF ok i result_lines_show [OF r], of ?c])
    fix w' assume "end_anthropic_batch env b ls ?c w = (Inr (), w')" and "message_batch_kept env b its ?c w'"
    with run ids counts show thesis by (intro that [of w' ?c]) simp_all
  qed
qed

section \<open>Uploads are answered\<close>

lemma upload_answered:
  assumes ok: "bw_ok env w" and ids: "uuids_ok env" and u: "upload_fields env parts no_upload = Inr u"
    and c: "checked_upload u = Inr (purpose, filename, bytes)"
  obtains j w' where "files_create env headers parts w = (JsonReply j, w')"
proof -
  let ?t = "headers_tenant env headers"
  let ?i = "str ''file-'' @ be_fresh env (bw_uuids w)"
  let ?w = "w\<lparr>bw_ticks := Suc (bw_ticks w), bw_uuids := Suc (bw_uuids w)\<rparr>"
  have okw: "bw_ok env ?w" and i: "component_ok ?i" using ok ids by (simp_all add: uuids_ok_def)
  show thesis
  proof (rule world_put_blob [OF okw namespaces_ok(2) i, of ?t bytes])
    fix w1 assume p: "put_blob env openai_file_blobs_ns ?t ?i bytes ?w = (Inr (), w1)" and ok1: "bw_ok env w1"
    let ?f = "\<lparr>fi_tenant_id = ?t, fi_id = ?i, fi_bytes = word_of_nat (length bytes), fi_created_at = be_now env (bw_ticks w),
        fi_filename = filename, fi_purpose = purpose, fi_status = str ''processed'',
        fi_expires_at = file_expiry purpose (be_now env (bw_ticks w)) (up_expires u), fi_status_details = None\<rparr>"
    show thesis
    proof (rule world_put_file [OF ok1 i, of ?t ?f])
      fix w2 assume "on_store (durable_put_json (be_durable env) (\<lambda>r. Inr (file_to_value r)) openai_files_ns ?t ?i ?f) w1 = (Inr (), w2)"
      then have "files_create env headers parts w = (JsonReply (openai_file_json ?f), w2)"
        using u c p by (simp add: files_create_def Let_def with_now_def with_uuid_def reply_bind_def put_file_def
            cong: sum.case_cong prod.case_cong)
      then show thesis by (rule that)
    qed
  qed
qed

end
