(* ===== verification/Api_Batch_Samples.thy ===== *)
theory Api_Batch_Samples
  imports Api_Batch_Laws
begin

text \<open>
  Concrete worlds of the batch interfaces: an environment whose identifiers are short texts, the store
  in memory that holds one input file, a batch that reads it.
\<close>

definition sample_batch_env :: "(json \<Rightarrow> nat \<times> (ustr + nat list)) \<Rightarrow> batch_env" where
  "sample_batch_env answer =
     \<lparr>be_durable = numbering_env, be_sha = (\<lambda>_. []), be_now = word_of_nat, be_fresh = (\<lambda>n. [97 + n mod 2]),
      be_parse_json = (\<lambda>_. None), be_decode_error = (\<lambda>_. []), be_header_check = (\<lambda>_. Inr ()), be_datetime = (\<lambda>_. None),
      be_utf8_error = (\<lambda>_. []),
      be_parse_line = (\<lambda>l. Inr \<lparr>obi_custom_id = l, obi_method = str ''post'', obi_url = str ''/v1/responses'', obi_body = JNull\<rparr>),
      be_print_inputs = (\<lambda>_. Inr []), be_parse_inputs = (\<lambda>_. Inr []), be_handle = (\<lambda>_ _ b. answer b)\<rparr>"

definition sample_world :: batch_world where
  "sample_world =
     \<lparr>bw_store = durable_memory, bw_jobs = job_runtime_new runtime_metrics_default, bw_openai = [], bw_anthropic = [],
      bw_ticks = 0, bw_uuids = 0\<rparr>"

definition sample_batch :: openai_batch where
  "sample_batch = new_openai_batch
     \<lparr>obr_completion_window = str ''24h'', obr_endpoint = str ''/v1/responses'', obr_input_file_id = str ''file-input'',
      obr_metadata = JNull, obr_output_expires_after = JNull\<rparr> (str ''t'') (str ''batch_b'') 0"

lemma numbering_serde: "serde_lawful numbering_env"
  using numbering_storable by (auto simp: serde_lawful_def json_storable_def)

lemma numbering_ok: "durable_inv numbering_env (bw_store w) \<Longrightarrow> bw_ok (sample_batch_env answer) w"
  by (simp add: bw_ok_def sample_batch_env_def numbering_serde)

lemma sample_ok: "bw_ok (sample_batch_env answer) sample_world"
  by (rule numbering_ok) (simp add: sample_world_def memory_opened numbering_lawful)

lemma sample_ids: "component_ok (str ''file-input'')" "component_ok (str ''batch_b'')" "ob_id sample_batch = str ''batch_b''"
  "ob_errors sample_batch = None" "storable_batch sample_batch" "ob_tenant_id sample_batch = str ''t''" "ob_input_file_id sample_batch = str ''file-input''"
  "ob_endpoint sample_batch = str ''/v1/responses''" "ob_request_counts sample_batch = openai_counts_default"
  "\<not> ob_cancel_requested sample_batch" "ob_status sample_batch = str ''validating''"
  "json_plain 126 (ob_metadata sample_batch)"
  by (simp_all add: component_ok_def str_def utf8_len_def utf8_width_def is_component_char_def char_class_defs
      sample_batch_def new_openai_batch_def)

lemma sample_uuids: "uuids_ok (sample_batch_env answer)"
  by (auto simp: uuids_ok_def sample_batch_env_def component_ok_def str_def utf8_len_def utf8_width_def is_component_char_def
      char_class_defs) presburger+

lemma sample_component: "component_ok (str ''file-input'')"
  by (rule sample_ids(1))

definition sample_file :: stored_file where
  "sample_file =
     \<lparr>fi_tenant_id = str ''t'', fi_id = str ''file-input'', fi_bytes = 1, fi_created_at = 0, fi_filename = [97],
      fi_purpose = str ''batch'', fi_status = str ''processed'', fi_expires_at = None, fi_status_details = None\<rparr>"

lemma sample_parsed:
  "parse_batch_input (sample_batch_env answer) (str ''/v1/responses'') [97] =
     Inr [\<lparr>obi_custom_id = [97], obi_method = str ''post'', obi_url = str ''/v1/responses'', obi_body = JNull\<rparr>]"
proof -
  have "from_utf8_lossy [97] = [97]" "utf8_bytes [97] = [97]" "lines [97] = [[97]]" "\<not> is_blank [97]"
    by (simp_all add: utf8_bytes_def utf8_char_def utf8_encode_def lines_def is_blank_iff is_whitespace_def)
  then show ?thesis
    by (simp add: parse_batch_input_def from_utf8_def sample_batch_env_def max_openai_batch_requests_def eq_ignore_ascii_case_def
        str_def to_ascii_lowercase_def is_ascii_uppercase_def)
qed

lemma sample_input:
  "\<exists>w inputs. bw_ok (sample_batch_env answer) w \<and> load_batch_input (sample_batch_env answer) sample_batch w = (Inr inputs, w)"
proof -
  let ?env = "sample_batch_env answer"
  show ?thesis
  proof (rule world_put_file [OF sample_ok sample_component, of answer "str ''t''" sample_file])
    fix w1 assume ok1: "bw_ok ?env w1"
      and o1: "object_in ?env w1 openai_files_ns (str ''t'') (str ''file-input'') = Some (file_to_value sample_file)"
    show ?thesis
    proof (rule world_put_blob [OF ok1 namespaces_ok(2) sample_component, of "str ''t''" "[97]"])
      fix w2 assume "bw_ok ?env w2" and "blob_in ?env w2 openai_file_blobs_ns (str ''t'') (str ''file-input'') = Some [97]"
        and "\<And>n' t' i'. object_in ?env w2 n' t' i' = object_in ?env w1 n' t' i'"
      then show ?thesis
        using load_input [of ?env w2 sample_batch sample_file "[97]"] o1
        by (auto simp: sample_ids sample_parsed sample_file_def)
    qed
  qed
qed

lemma sample_deleted:
  "\<exists>w j w'. bw_ok (sample_batch_env answer) w \<and> files_delete (sample_batch_env answer) [] (str ''file-input'') w = (JsonReply j, w')"
proof -
  let ?env = "sample_batch_env answer"
  let ?t = "headers_tenant ?env []"
  let ?D = "numbering_env"
  let ?k = "memory_key ?D openai_files_ns ?t (str ''file-input'')"
  show ?thesis
  proof (rule world_put_file [OF sample_ok sample_component, of answer ?t sample_file])
    fix w assume ok: "bw_ok ?env w"
      and put: "on_store (durable_put_json (be_durable ?env) (\<lambda>r. Inr (file_to_value r)) openai_files_ns ?t (str ''file-input'') sample_file)
        sample_world = (Inr (), w)"
    have v: "validate_key openai_files_ns (str ''file-input'') = Inr ()" "validate_durable (str ''namespace'') openai_batches_ns = Inr ()"
      using sample_component namespaces_ok by (simp_all add: validate_key_def validate_durable_def)
    have st: "bw_store w = MemoryStore [(?k, file_to_value sample_file)] []"
      using put v by (auto simp: on_store_def durable_put_json_def sample_world_def durable_memory_def sample_batch_env_def)
    have "\<not> starts_with ?k (hashed_key openai_batches_ns (tenant_hash ?D ?t) [])"
      by (simp add: memory_key_def hashed_key_def openai_files_ns_def openai_batches_ns_def str_def starts_with_def)
    then have l: "list_openai_batches ?env ?t w = (Inr [], w)"
      using v st by (simp add: list_openai_batches_def on_store_def durable_list_json_def sample_batch_env_def decode_answers_def)
    have d: "\<exists>st'. durable_delete_json ?D openai_files_ns ?t (str ''file-input'') (bw_store w) = (Inr True, st')"
      using v st by (simp add: durable_delete_json_def Let_def bt_contains_def bt_get_def)
    then show ?thesis
      using ok l by (intro exI [of _ w]) (auto simp: files_delete_def Let_def reply_bind_def on_store_def sample_batch_env_def)
  qed
qed

lemma sample_reply: "built_reply (sample_batch_env answer) hs bytes = BytesReply hs bytes"
proof -
  have "collect_answers (map (\<lambda>h. Inr () :: ustr + unit) hs) = Inr (map (\<lambda>_. ()) hs)" by (induction hs) simp_all
  then show ?thesis by (simp add: built_reply_def sample_batch_env_def)
qed

lemma sample_inputs:
  assumes "be_durable env = numbering_env" and "component_ok i"
  shows "\<exists>w. bw_ok env w \<and> get_blob env anthropic_inputs_ns t i w = (Inr (Some bytes), w)"
proof -
  have ok: "bw_ok env sample_world"
    using sample_ok by (simp add: bw_ok_def assms(1) sample_batch_env_def)
  show ?thesis
  proof (rule world_put_blob [OF ok namespaces_ok(5) assms(2), of t bytes])
    fix w assume "bw_ok env w" and "blob_in env w anthropic_inputs_ns t i = Some bytes"
    then show ?thesis using world_get_blob [OF _ namespaces_ok(5) assms(2), of env w t] by auto
  qed
qed

text \<open>Three message requests: one is answered, one fails, and the batch may drop the third.\<close>

definition sample_messages :: "anthropic_batch_input list" where
  "sample_messages =
     [\<lparr>abi_custom_id = [97], abi_params = JNull\<rparr>,
      \<lparr>abi_custom_id = [98], abi_params = JString [98]\<rparr>,
      \<lparr>abi_custom_id = [99], abi_params = JNull\<rparr>]"

definition sample_message_env :: batch_env where
  "sample_message_env = (sample_batch_env (\<lambda>b. if b = JNull then (200, Inr []) else (500, Inr [])))
     \<lparr>be_parse_inputs := (\<lambda>_. Inr sample_messages)\<rparr>"

definition sample_message_batch :: anthropic_batch where
  "sample_message_batch = new_anthropic_batch (str ''t'') (str ''msgbatch_b'') 0 3"

lemma sample_message_inputs:
  "\<exists>w. bw_ok sample_message_env w
     \<and> load_anthropic_inputs sample_message_env sample_message_batch w = (Inr sample_messages, w)"
proof -
  have d: "be_durable sample_message_env = numbering_env" "be_parse_inputs sample_message_env = (\<lambda>_. Inr sample_messages)"
    by (simp_all add: sample_message_env_def sample_batch_env_def)
  have i: "component_ok (ab_id sample_message_batch)"
    by (simp add: sample_message_batch_def new_anthropic_batch_def component_ok_def str_def utf8_len_def utf8_width_def
        is_component_char_def char_class_defs)
  obtain w where "bw_ok sample_message_env w" and "get_blob sample_message_env anthropic_inputs_ns
      (ab_tenant_id sample_message_batch) (ab_id sample_message_batch) w = (Inr (Some []), w)"
    using sample_inputs [OF d(1) i] by blast
  then show ?thesis by (intro exI [of _ w]) (simp add: load_anthropic_inputs_def bw_bind_def d)
qed

end
