(* ===== verification/Spec2Isabelle.thy ===== *)
theory Spec2Isabelle
  imports Kernel_Facts Api_Breaker Api_Stack Api_Tenants Context_Runs Api_Stream_Chat Api_Messages_Blocks Api_Tool_Facts Api_Responses_Stream Api_Jobs Api_Responses_Store Api_Normalize_Facts Api_Text_Facts Openai_Facts Anthropic_Facts Api_Durable_Spec Api_Batch_Samples
begin

text \<open>
  A verification development of the core of \<^verbatim>\<open>miya-api\<close>, an OpenAI- and Anthropic-compatible
  gateway that answers one API request with a bounded group of agents. The program's parts, under
  \<^verbatim>\<open>src/crates\<close>: \<^verbatim>\<open>agent-protocol\<close> (the records the crates exchange), \<^verbatim>\<open>provider-core\<close> (one model
  call, its errors and streams), \<^verbatim>\<open>agent-kernel\<close> (the run of one request), \<^verbatim>\<open>context-store\<close>,
  \<^verbatim>\<open>provider-openai\<close>, \<^verbatim>\<open>provider-anthropic\<close> and \<^verbatim>\<open>api-server\<close> (HTTP, jobs, batches, limits).

  The development models the first three crates, the kernel in full, the context store, the two network
  providers, and of the server the limits, the identities, the normalisation of requests, the streams,
  the stored responses, the background jobs, the durable store and the batches of both interfaces.

  \<^item> \<open>Miya_Prelude\<close>, \<open>Miya_Collections\<close>, \<open>Miya_Text\<close>, \<open>Miya_Json\<close>: texts as lists of Unicode scalar values,
    saturating machine integers, the ordered maps of the standard library as sorted lists with the
    locale \<open>ordered_map\<close> they interpret, the locale \<open>scoped_store\<close> of stores keyed by scope and
    identifier, errors as sums, the replacing decoder of UTF-8, JSON values.
  \<^item> \<open>Agent_Protocol\<close>, \<open>Provider_Core\<close>: the records and enums of the two crates with their methods,
    the task graph, the provider errors, the default stream. A provider is a function of a world, a
    request to the world after it, the milliseconds it took and a result; the locale
    \<open>stateless_provider\<close> is the contract of a provider whose answers depend on the request only.
  \<^item> \<open>Provider_Sse\<close>, \<open>Provider_Wire\<close>, \<open>Openai_Request\<close>, \<open>Openai_Response\<close>, \<open>Openai_Stream\<close>,
    \<open>Anthropic_Wire\<close>, with \<open>Openai_Facts\<close> and \<open>Anthropic_Facts\<close>: the adapters \<^verbatim>\<open>provider-openai\<close> and
    \<^verbatim>\<open>provider-anthropic\<close>: the bodies they send, the responses and plans they read, the loop from bytes to
    frames to events, and the errors they make of HTTP answers, over a client that is a parameter. The
    loop is total: a measure of chunks, text and events falls with every turn. The derived readers of
    the protocol's records are fields of \<open>wire_env\<close>.
  \<^item> \<open>Kernel_Store\<close>, \<open>Kernel_Policy\<close>, \<open>Kernel_Spawn\<close>, \<open>Kernel_Apply\<close>: the artifact store and the
    tool ledger (both interpret \<open>scoped_store\<close>), the policy of a request, the spawn validator with
    the cutting and the completion of plans, and what a provider response does to the stores.
  \<^item> \<open>Kernel_Prompts\<close>, \<open>Kernel_Layout\<close>: the texts sent to models, word for word, the provider
    options, and the layout rules of the final answer.
  \<^item> \<open>Kernel_Monad\<close>, \<open>Kernel_Stages\<close>, \<open>Kernel_Children\<close>, \<open>Kernel_Finish\<close>, \<open>Kernel_Run\<close>: the run
    \<^verbatim>\<open>KernelRunner::run_inner\<close>, one definition per stage, composed as the source composes them, over
    an explicit run state with errors as values; \<open>run\<close> and \<open>stream_root\<close> around it.
    \<open>Kernel_Mock\<close> is the mock provider, which interprets \<open>stateless_provider\<close>.
  \<^item> \<open>Kernel_Invariants\<close>: the locales \<open>root_invariant\<close> and \<open>run_invariant\<close> prove once that every
    stage keeps what each effect keeps; interpreted on the stores, on the log of requests and, in
    \<open>Kernel_Result\<close>, on the references of the children. \<open>Kernel_Bounds\<close> counts provider calls,
    \<open>Kernel_Outcome\<close>, \<open>Kernel_Result\<close>, \<open>Kernel_Modes\<close> and \<open>Kernel_Facts\<close> show what the stages and
    the run return. \<open>Kernel_Sample\<close> holds the concrete values of the witnesses.

  \<^item> \<open>Api_Config\<close>, \<open>Api_Resilience\<close>, \<open>Api_Breaker\<close>, \<open>Api_Admission\<close>, \<open>Api_Tenants\<close>, \<open>Api_Errors\<close>,
    \<open>Api_Stack\<close>: the configuration read from the environment, the counters, the circuit breaker and
    the retry loop, the admission of provider calls and of orchestrations, the limits of tenants, the
    error answers, and the provider stack that \<^verbatim>\<open>build_router_from_env\<close> composes of them. The breaker,
    the orchestrations and the tenants are step relations with invariants over all interleavings.
  \<^item> \<open>Context_Select\<close>, \<open>Context_Store\<close>, \<open>Context_Log\<close>, \<open>Context_Refine\<close>, \<open>Context_Runs\<close>: the crate
    \<^verbatim>\<open>context-store\<close>: the choice and rendering of chunks, the operations over a key-value library with
    the named laws \<open>kv_lawful\<close>, the abstract logs they refine, and sequences of operations.
  \<^item> \<open>Api_Identity\<close>, \<open>Api_Types\<close>, \<open>Api_Tool_Items\<close>, \<open>Api_Tool_Facts\<close>, \<open>Api_Responses_Store\<close>: identities,
    the shared key and usage records, the requests of the two interfaces, the translation of unknown
    tool calls into shell commands with a reading of those commands as a POSIX shell splits them, and
    the store of responses.
  \<^item> \<open>Api_Sse\<close>, \<open>Api_Stream_Chat\<close>, \<open>Api_Stream_Messages\<close>, \<open>Api_Messages_Facts\<close>, \<open>Api_Messages_Blocks\<close>,
    \<open>Api_Stream_Responses\<close>, \<open>Api_Responses_Facts\<close>, \<open>Api_Responses_Stream\<close>: the four event streams over a
    provider's stream. The loop they share is a partial function; the locale \<open>sse_machine\<close> states what
    its handlers owe it and proves that it ends and keeps an invariant of the body; it is interpreted
    on each of the four handlers.
  \<^item> \<open>Api_Models\<close>, \<open>Api_Normalize\<close>, \<open>Api_Normalize_Messages\<close>, \<open>Api_Normalize_Facts\<close>: the models and
    their aliases, and the normalisation of chat, completion and messages requests; the loops over the
    messages are functions over \<open>norm_state\<close> that keep the invariant \<open>norm_ok\<close>.
  \<^item> \<open>Api_Text_Tools\<close>, \<open>Api_Text_Facts\<close>: tool calls that a model writes as text. The scanners take the
    characters from the source's index on; the loop over the arguments ends because each turn reads
    something.
  \<^item> \<open>Api_Jobs\<close>: \<^verbatim>\<open>JobRuntime\<close> as a step relation, one step for each section under a lock.
  \<^item> \<open>Api_Durable\<close>, \<open>Api_Durable_Facts\<close>, \<open>Api_Durable_Refine\<close>, \<open>Api_Durable_Spec\<close>: the durable store with
    its backends in memory and on disk, over a file system whose calls consume a list of faults. The
    locales \<open>cell_store\<close> and \<open>listed_store\<close> state what a store of cells owes its clients and are
    interpreted for objects and for bytes; every operation refines the same operation on two maps.
  \<^item> \<open>Api_Batch_Types\<close>, \<open>Api_Batch_Files\<close>, \<open>Api_Batch_Openai\<close>, \<open>Api_Batch_Anthropic\<close>: the files and
    batches of \<^verbatim>\<open>batch_api.rs\<close>: records with their JSON, handlers, tasks, and the restart of unfinished
    batches, over a world of the store, the running jobs, the clock and the identifiers drawn. The
    requests of a batch end in an order, and are dropped, as a \<open>item_schedule\<close> says, over which the
    properties quantify. \<open>Api_Batch_Facts\<close>, \<open>Api_Batch_Runs\<close>, \<open>Api_Batch_Rules\<close>,
    \<open>Api_Batch_Files_Facts\<close> and \<open>Api_Batch_Laws\<close> show what is in the store after a handler or a task, by
    the laws of the interpretations \<open>objects\<close> and \<open>blobs\<close>; \<open>Api_Batch_Samples\<close> holds the values of the
    witnesses.

  Loops. The planner's repairs (at most 3), the synthesis retries (at most 2) and the semantic
  repairs (at most the policy's 8-bit maximum) are functions with a measure on the attempts left,
  so the run is total: no fuel is used. The search for a free cross-check identifier terminates
  because only finitely many suffixes are taken.

  Concurrency. The children's calls run under \<^verbatim>\<open>buffer_unordered\<close>, a function of the library: how it may
  order them is \<open>completion_order\<close>, a buffer driven by the executor's choices (\<open>ke_pick\<close>), which lemmas
  of \<open>Kernel_Children\<close> compare with a step relation. What the kernel makes of the answers, sorting them
  back into task order and taking the first error, is \<open>fan_out\<close>, and \<open>fan_out_order_free\<close> shows that
  the run does not depend on the order. A call is one atomic change of the world. The planner's task has
  the identifier and the role of the root's task, so what is said of requests of the root task (such as in
  \<open>run_requests_confined\<close>) is said of the planner as well.

  Storage of the batches. Properties about what a handler or a task of \<^verbatim>\<open>batch_api.rs\<close> leaves in the store
  assume \<open>bw_ok\<close>: the invariant of the durable store, which excludes faults of the file system (the
  source ignores the errors of some writes, so with faults they would not hold), and \<open>serde_lawful\<close>,
  what \<^verbatim>\<open>serde_json\<close> promises: every value is printed, and a plain value is read back as it was. Plain
  (\<open>json_plain\<close>) is a value with at most 127 arrays and objects around each other, which is the parser's
  limit, and without numbers with a fraction, which may come back with another last digit. The records of
  files and Message Batches are always plain; a batch record is when its metadata and its errors are
  (\<open>storable_batch\<close>).

  What a run takes from outside is a field of \<open>kernel_env\<close> or \<open>text_env\<close>: the provider, the printers
  and the parser of \<^verbatim>\<open>serde_json\<close>, the cipher, its nonces and \<^verbatim>\<open>hex\<close>, the escaped text of \<^verbatim>\<open>Debug\<close>,
  the text of a float. Properties over all environments assume nothing of them. Requests are
  observed on \<open>recording_env\<close>, the same environment with a log of what the provider is sent.

  Not modelled: routing, the direct passthrough, the summaries of public reasoning, the rendering of
  finished answers, the runner of background responses, the handler of the scrape, the set-up of
  tracing. Dropping a run half way at its timeout is modelled by its result only. A poisoned lock is
  not modelled. Next: background responses, the direct passthrough, the conversion of requests of the
  Responses interface and the rendering of finished answers.
\<close>

text \<open>
  C1. Every request a run sends to the provider carries the run's own isolation scope, model and
  system instructions. The client's messages, tools, tool choice and tool results go to the root
  leader task only; every other request (planner, workers, summarizer, synthesizer, verifier,
  repair) has no tools, tool choice none, no messages and no results. Whether the run ends in a
  value or an error.
\<close>

theorem run_requests_confined:
  "list_all (request_confined (run_context (recording_env env) policy r))
     (run_log (snd (run_inner (recording_env env) policy r (w, []))))"
proof -
  let ?cx = "run_context (recording_env env) policy r"
  have "log_confined ?cx (initial_state ?cx (w, []))"
    by (simp add: log_confined_def run_log_def initial_state_def)
  then have "log_confined ?cx (snd (run_inner (recording_env env) policy r (w, [])))"
    unfolding run_inner_def Let_def by (rule requests.invariant_run) (rule prod.collapse [symmetric])
  then show ?thesis
    by (simp add: log_confined_def list_all_iff)
qed

text \<open>
  C2. A run sends a bounded number of requests, whatever the provider answers: at most eleven
  (planner with three repairs, root fallback, continuation, summary, three syntheses, one verdict),
  one for each child agent of the effort, and two for each semantic repair allowed.
\<close>

theorem run_call_bound:
  "length (run_log (snd (run_inner (recording_env env) policy r (w, []))))
     \<le> 11 + unat (max_agents (nr_reasoning_effort r))
        + 2 * unat (sv_max_repair_attempts (kp_semantic_verification policy))"
proof -
  let ?cx = "run_context (recording_env env) policy r"
  have "length (run_log (snd (run_stages (recording_env env) ?cx (initial_state ?cx (w, [])))))
      \<le> 11 + policy_max_agents (rc_policy ?cx) + 2 * unat (max_semantic_repairs ?cx)"
    by (rule run_stages_log [OF run_context_agents_less prod.collapse [symmetric]])
  then show ?thesis
    by (simp add: run_inner_def Let_def for_request_agents for_request_frame)
qed

text \<open>
  C3. The tool calls an output publishes are calls of the root task in the run's scope, and their
  identifiers are the report's unresolved calls. When there is one, the final text is empty and
  the report is not passed: no answer is given before its tools have been resolved.
\<close>

theorem run_withholds_unresolved:
  "case run_inner env policy r w of
     (Inl e, s) \<Rightarrow> True
   | (Inr out, s) \<Rightarrow>
       list_all (\<lambda>c. tc_scope c = isolation_key_of r \<and> tc_task_id c = root_task_id) (ko_tool_calls out)
       \<and> vr_unresolved_tool_calls (ko_verification out) = map tc_tool_call_id (ko_tool_calls out)
       \<and> (ko_tool_calls out = []
          \<or> ko_final_text out = [] \<and> vr_passed (ko_verification out) = False)"
proof (rule run_inner_cases)
  fix out s
  let ?cx = "run_context env policy r"
  assume run: "run_stages env ?cx (initial_state ?cx w) = (Inr out, s)"
  have "vr_unresolved_tool_calls (ko_verification out) = map tc_tool_call_id (ko_tool_calls out)"
    using run by (rule run_stages_Inr) (simp add: build_report_def Let_def)
  with public_calls [OF run] output_unresolved [OF run]
  show "list_all (\<lambda>c. tc_scope c = isolation_key_of r \<and> tc_task_id c = root_task_id) (ko_tool_calls out)
       \<and> vr_unresolved_tool_calls (ko_verification out) = map tc_tool_call_id (ko_tool_calls out)
       \<and> (ko_tool_calls out = [] \<or> ko_final_text out = [] \<and> vr_passed (ko_verification out) = False)"
    by (auto simp: list_all_iff)
qed

text \<open>
  C4. Whatever plans and artifacts the provider returned in the root's stage, the artifacts that are
  attached to the child agents' requests all belong to the run's own isolation scope.
\<close>

theorem children_isolated:
  "case run_root_stage env cx (initial_state cx w) of
     (Inl e, s) \<Rightarrow> True
   | (Inr issue, s) \<Rightarrow>
       list_all (\<lambda>req. list_all (\<lambda>a. artifact_scope_of a = rc_scope cx) (pr_artifacts req))
         (child_requests env cx s)"
  using child_requests_isolated [of env cx w]
  by (fastforce simp: list_all_iff split: prod.split sum.split)

text \<open>
  C5. The context store refines a family of append-only logs. From an empty store, after any sequence of
  appends (successful or failed), assemblies with their cached packs, and values put or deleted, of
  any tenants and contexts, the chunks of each context are the non-blank records of its own
  successful appends, in order, at the revisions 1, 2, 3 and so on, and its head counts them.
  \<open>kv_lawful\<close> states what the library below promises.
\<close>

theorem context_store_keeps_logs:
  assumes "kv_lawful kv latest" and "latest w = Map.empty" and "store_run kv w es w'"
    and "sum_list (map records_of es) < 2 ^ 64"
  shows "\<forall>t c. \<exists>cs. context_log kv (latest w') t c cs
           \<and> map log_entry cs = map record_entry (given t c es)"
  using store_run_log [OF assms(1,3,2,4)] by blast

lemma context_store_keeps_logs_witness:
  "\<exists>es w. store_run memory_kv [] es w \<and> given [97] [98] es = [\<lparr>car_role = [117], car_text = [104]\<rparr>]
     \<and> (\<exists>cs. context_log memory_kv (memory_latest w) [97] [98] cs \<and> map log_entry cs = [([117], [104])])"
proof -
  let ?rs = "[\<lparr>car_role = [117], car_text = [104]\<rparr>, \<lparr>car_role = [117], car_text = [32]\<rparr>]"
  obtain r w where r: "store_append memory_kv [97] [98] ?rs [] = (r, w)" by fastforce
  have "\<not> is_blank [97]" "\<not> is_blank [98]" "\<not> is_blank [104]" "is_blank [32]"
    by (simp_all add: is_blank_iff is_whitespace_def)
  then have "\<exists>h. r = Inr h"
    using r by (auto simp: store_append_def validate_context_def validate_component_def kv_error_def
        memory_kv_def memory_latest_def decoded_def ebind_Inr_iff split: prod.splits)
  then obtain h where "r = Inr h" ..
  with r have step: "store_step memory_kv [] (Appended [97] [98] ?rs) w"
    by (intro step_append) simp
  from run_step [OF run_start step] have run: "store_run memory_kv [] [Appended [97] [98] ?rs] w" by simp
  have given: "given [97] [98] [Appended [97] [98] ?rs] = [\<lparr>car_role = [117], car_text = [104]\<rparr>]"
    using \<open>\<not> is_blank [104]\<close> \<open>is_blank [32]\<close> by (simp add: given_def)
  have "memory_latest [] = Map.empty" by (simp add: memory_latest_def)
  from context_store_keeps_logs [OF memory_kv_lawful this run] obtain cs where
    "context_log memory_kv (memory_latest w) [97] [98] cs"
    "map log_entry cs = map record_entry (given [97] [98] [Appended [97] [98] ?rs])"
    by auto
  with run given show ?thesis
    by (intro exI [of _ "[Appended [97] [98] ?rs]"] exI [of _ w] conjI exI [of _ cs])
      (simp_all add: record_entry_def)
qed

text \<open>
  C6. A run behind the whole stack (retries around admission around the upstream), whatever the upstream
  answers, the breaker's state and the semaphore's decisions: every request that reaches the upstream
  is confined to the run as in C1, and there are at most \<open>retries + 1\<close> of them for each of the at most
  \<open>11 + agents + 2 * repairs\<close> calls of the kernel.
\<close>

theorem upstream_requests_confined:
  "let stack = logged_stack clk config sem adm env;
       g = fst (rs_world (snd (run_inner (recording_env stack) policy r
             (\<lparr>g_world = (w, []), g_circuit = c, g_metrics = m\<rparr>, []))))
    in list_all (request_confined (run_context (recording_env stack) policy r)) (upstream_log g)
       \<and> length (upstream_log g) \<le> Suc (rz_max_retries config)
           * (11 + unat (max_agents (nr_reasoning_effort r))
              + 2 * unat (sv_max_repair_attempts (kp_semantic_verification policy)))"
proof -
  let ?stack = "logged_stack clk config sem adm env"
  let ?cx = "run_context (recording_env ?stack) policy r"
  let ?s = "snd (run_inner (recording_env ?stack) policy r
      (\<lparr>g_world = (w, []), g_circuit = c, g_metrics = m\<rparr>, []))"
  have "upstream_ok config ?cx ?s"
    by (rule upstream_run)
  moreover have "length (run_log ?s) \<le> 11 + policy_max_agents (rc_policy ?cx) + 2 * unat (max_semantic_repairs ?cx)"
    unfolding run_inner_def Let_def by (rule run_stages_log [OF run_context_agents_less prod.collapse [symmetric]])
  ultimately show ?thesis
    using mult_le_mono2 [of "length (run_log ?s)" _ "Suc (rz_max_retries config)"]
    by (auto simp: upstream_ok_def list_all_iff Let_def for_request_agents for_request_frame
        intro: order_trans simp del: mult_Suc)
qed

text \<open>
  C7. For every reasoning effort but none, a planner's stage that succeeds inserts exactly the effort's
  number of children (4, 16, 32 or 64) into the task graph: those of the planner's last answer,
  at least one, in their order, and, when they are fewer, as many more in the first plan as are
  missing, whose identifiers differ from one another and from the planned ones. No inserted
  identifier was in the graph before, and the issue that is raised says how many were added. The
  planned children may repeat an identifier (see \<open>validator_merges_repeated_ids\<close>). \<open>planner_answered\<close>:
  the answer that the first call and the repairs end with.
\<close>

theorem planner_reaches_target:
  assumes "\<not> is_direct (nr_reasoning_effort r)"
  shows "case run_planner env (run_context env' policy r) s of
     (Inl e, s') \<Rightarrow> True
   | (Inr issue, s') \<Rightarrow>
       (\<exists>response p ps added. planner_answered env (run_context env' policy r) s response
          \<and> response_plans response = p # ps \<and> sp_children p @ concat (map sp_children ps) \<noteq> []
          \<and> length (sp_children p @ added @ concat (map sp_children ps)) = unat (max_agents (nr_reasoning_effort r))
          \<and> distinct (map st_task_id added)
          \<and> st_task_id ` set added \<inter> st_task_id ` set (sp_children p @ concat (map sp_children ps)) = {}
          \<and> ks_graph (rs_stores s') = insert_tasks (sp_children p @ added @ concat (map sp_children ps)) (ks_graph (rs_stores s))
          \<and> list_all (\<lambda>c. bt_get (tg_tasks (ks_graph (rs_stores s))) (st_task_id c) = None)
              (sp_children p @ added @ concat (map sp_children ps))
          \<and> issue = (if added = [] then None else Some (reconciled_issue (length added))))"
proof (cases "run_planner env (run_context env' policy r) s")
  case (Pair x s')
  show ?thesis
  proof (cases x)
    case (Inr issue)
    note run = Pair [unfolded Inr]
    have max: "policy_max_agents (rc_policy (run_context env' policy r)) = unat (max_agents (nr_reasoning_effort r))"
      by (simp add: for_request_agents)
    show ?thesis
      unfolding run prod.case sum.case
      by (rule run_planner_children [OF run planner_children [OF assms]], unfold max) blast
  qed (simp add: Pair)
qed

lemma planner_reaches_target_witness:
  "\<exists>issue s' response p ps added.
     run_planner one_child_env (run_context one_child_env kernel_policy_default (sample_request EffortLow))
       (initial_state (run_context one_child_env kernel_policy_default (sample_request EffortLow)) ()) = (Inr issue, s')
     \<and> response_plans response = p # ps
     \<and> length (sp_children p @ added @ concat (map sp_children ps)) = 4
     \<and> ks_graph (rs_stores s') = insert_tasks (sp_children p @ added @ concat (map sp_children ps))
         (ks_graph (rs_stores (initial_state (run_context one_child_env kernel_policy_default (sample_request EffortLow)) ())))"
proof -
  let ?cx = "run_context one_child_env kernel_policy_default (sample_request EffortLow)"
  obtain issue s' where run: "run_planner one_child_env ?cx (initial_state ?cx ()) = (Inr issue, s')"
    using one_child_planned by blast
  from planner_reaches_target [of "sample_request EffortLow", where env = one_child_env and env' = one_child_env
      and policy = kernel_policy_default and s = "initial_state ?cx ()"]
  show ?thesis
    unfolding run by (simp add: is_direct_def del: length_append) (use run in blast)
qed

text \<open>
  C8. The spawn validator accepts a plan exactly when it is admissible (the agent limit, counted as a
  saturating 16-bit number, holds; every child is within the depth, new to the graph, and refers
  to artifacts of the run's scope that are stored) and then inserts its children in order.
\<close>

theorem validator_accepts_iff:
  "validate_and_apply policy scope store graph plan = Inr g \<longleftrightarrow>
     plan_admissible policy scope store graph plan \<and> g = insert_tasks (sp_children plan) graph"
  by (rule validate_accepts_iff)

text \<open>
  C9. In every reachable state of the runtime of background jobs: the keys of the tasks are distinct and
  are the running keys; at most the limit hold a permit; the tokens that can be found by key are exactly
  those of the tasks between their launch and their end; and the counter of started jobs is the counter
  of finished ones plus the jobs at work.
\<close>

theorem jobs_exclusive:
  assumes "job_reachable limit m st" and "m_jobs_started m = m_jobs_finished m"
  shows "distinct (map jt_key (jr_tasks st)) \<and> set (map jt_key (jr_tasks st)) = set (jr_running st)
     \<and> permits_held st \<le> limit
     \<and> (\<forall>k n. bt_get (jr_cancellations st) k = Some n
          \<longleftrightarrow> (\<exists>t \<in> set (jr_tasks st). jt_key t = k \<and> jt_token t = n \<and> cancellable t))
     \<and> m_jobs_started (jr_metrics st)
         = m_jobs_finished (jr_metrics st) + word_of_nat (length (filter (\<lambda>t. jt_phase t = Working) (jr_tasks st)))"
  using jobs_ok_reachable [OF assms] by (simp add: jobs_ok_def)

lemma jobs_exclusive_witness:
  "\<exists>st. job_reachable 1 runtime_metrics_default st \<and> map jt_key (jr_tasks st) = [[97]] \<and> permits_held st \<le> 1
     \<and> set (jr_running st) = {[97]}"
proof -
  define st where "st = snd (job_reserve [97] (job_runtime_new runtime_metrics_default))"
  have reach: "job_reachable 1 runtime_metrics_default st"
    unfolding st_def by (rule after [OF idle job_step.reserve])
  have metrics: "m_jobs_started runtime_metrics_default = m_jobs_finished runtime_metrics_default"
    by (simp add: runtime_metrics_default_def)
  have keys: "map jt_key (jr_tasks st) = [[97]]" by (simp add: st_def job_reserve_def job_runtime_new_def)
  note all = jobs_exclusive [OF reach metrics]
  from all have held: "permits_held st \<le> 1" by (elim conjE)
  from all have "set (map jt_key (jr_tasks st)) = set (jr_running st)" by (elim conjE)
  then have "set (jr_running st) = {[97]}" unfolding keys by simp
  with held reach keys show ?thesis by (intro exI [of _ st] conjI)
qed

text \<open>
  C10. Whatever options a client sends, each guarded field of the body that goes upstream is the one the
  kernel's request makes: for the OpenAI adapter the model, the messages, the tools, the tool choice,
  the parallel calls and the old function fields, which are never there; for the Anthropic adapter
  the model, the system prompt, the messages, the tools and the tool choice. A request without tools
  has no tool fields, and a body is a stream exactly when it is built for one.
\<close>

theorem upstream_bodies_guarded:
  "(let fields = map str [''model'', ''messages'', ''tools'', ''tool_choice'', ''parallel_tool_calls'', ''functions'', ''function_call''];
        values = [Some (JString (pr_model r)), Some (JArray (openai_messages env r)),
          if pr_tools r = [] then None else Some (JArray (map openai_tool_definition (openai_tools_for_request env r))),
          if pr_tools r = [] then None else Some (openai_tool_choice_for_request env r),
          if pr_tools r = [] then None else map_option JBool (pr_parallel_tool_calls r), None, None]
    in map (\<lambda>k. json_get k (openai_request_body env r)) (fields @ [str ''stream'']) = values @ [None]
       \<and> map (\<lambda>k. json_get k (openai_stream_request_body env r)) (fields @ [str ''stream'']) = values @ [Some (JBool True)])
   \<and> (let fields = map str [''model'', ''system'', ''messages'', ''tools'', ''tool_choice''];
        values = [Some (JString (pr_model r)),
          Some (JString (base_system_prompt (st_role (pr_task r)) (st_objective (pr_task r)) (pr_system_instructions r))),
          Some (JArray (anthropic_wire_messages env r)),
          if pr_tools r = [] then None else Some (JArray (map anthropic_tool_definition (pr_tools r))),
          if pr_tools r = [] then None
          else anthropic_wire_tool_choice (pr_tool_choice r) (pr_parallel_tool_calls r) (pr_thinking_enabled r)]
    in map (\<lambda>k. json_get k (anthropic_request_body env r)) (fields @ [str ''stream'']) = values @ [None]
       \<and> map (\<lambda>k. json_get k (anthropic_stream_request_body env r)) (fields @ [str ''stream'']) = values @ [Some (JBool True)])"
  using body_object [of env r] anthropic_body_object [of env r]
  by (simp add: body_core is_openai_core_field_def openai_core_fields_def openai_stream_request_body_def
      anthropic_stream_request_body_def anthropic_body_core body_before_get is_anthropic_core_field_def
      anthropic_core_fields_def)

text \<open>
  C11. The events of a streamed answer do not depend on how the network cuts it, as long as it cuts between
  characters: inside a frame, inside a line or between the two newlines, both adapters yield the events
  of the whole text, in order, and end.
\<close>

theorem stream_cuts_irrelevant:
  assumes "list_all (list_all is_scalar) ts" and "list_all (list_all is_scalar) us" and "concat ts = concat us"
  shows "openai_sse_provider_stream env (map (\<lambda>t. Inr (utf8_bytes t)) ts)
       = openai_sse_provider_stream env (map (\<lambda>t. Inr (utf8_bytes t)) us)
    \<and> openai_sse_provider_stream env (map (\<lambda>t. Inr (utf8_bytes t)) ts)
       = text_items (parse_openai_sse_frame env) (concat us)
    \<and> anthropic_sse_provider_stream env (map (\<lambda>t. Inr (utf8_bytes t)) ts)
       = anthropic_sse_provider_stream env (map (\<lambda>t. Inr (utf8_bytes t)) us)"
  using stream_cut_anywhere [OF assms] stream_chunking [OF assms(1)] assms(3)
  by (simp add: openai_sse_provider_stream_def anthropic_sse_provider_stream_def)

lemma stream_cuts_irrelevant_witness:
  "\<exists>env. openai_sse_provider_stream env [Inr (utf8_bytes [0x7B54]), Inr (utf8_bytes [10, 10])]
     = openai_sse_provider_stream env [Inr (utf8_bytes [0x7B54, 10, 10])]"
proof -
  have "list_all (list_all is_scalar) [[0x7B54], [10, 10]]" "list_all (list_all is_scalar) [[0x7B54, 10, 10]]"
    "concat [[0x7B54], [10, 10]] = concat [[0x7B54, 10, 10 :: nat]]"
    by (simp_all add: is_scalar_def)
  from stream_cuts_irrelevant [OF this] show ?thesis by auto
qed

text \<open>
  C12. A plan a model wrote in the minimal form comes out well formed, whatever the model wrote: the children
  have distinct identifiers, a parent, an objective that is not blank and no budget for tool calls, and
  there are at most as many as the model listed. The search for a free identifier always ends.
\<close>

theorem minimal_plans_well_formed:
  assumes "normalize_minimal_spawn_plan env v = Some p"
  shows "distinct (map st_task_id (sp_children p))
    \<and> (\<forall>c \<in> set (sp_children p). st_task_id c \<noteq> [] \<and> st_parent_task_id c \<noteq> None
         \<and> \<not> is_blank (st_objective c) \<and> al_max_tool_calls (st_limits c) = 0)
    \<and> (\<exists>vs. Option.bind (json_get (str ''children'') v) json_as_array = Some vs \<and> length (sp_children p) \<le> length vs)
    \<and> sp_expected_artifacts p \<noteq> [] \<and> \<not> is_blank (sp_reason p)"
  using assms by (rule minimal_plan_ok)

lemma minimal_plans_well_formed_witness:
  "\<exists>env v p. normalize_minimal_spawn_plan env v = Some p \<and> distinct (map st_task_id (sp_children p))
     \<and> length (sp_children p) = 2"
proof -
  define v where "v = JObject [(str ''children'', JArray [JObject [(str ''task'', JString (str ''a''))],
    JObject [(str ''task'', JString (str ''a''))]])]"
  have g: "bt_get [(str ''task'', x)] (str k) = (if k = ''task'' then Some x else None)" for x :: json and k
    by (simp add: bt_get_def)
  have t: "trim (str ''a'') = str ''a''" by (simp add: str_def trim_def trim_start_def trim_end_def is_whitespace_def)
  have o: "child_objective [(str ''task'', JString (str ''a''))] = Some (str ''a'')"
    by (simp add: child_objective_def first_field_def g t)
  have c: "normalize_minimal_child env (JObject [(str ''task'', JString (str ''a''))]) i seen \<noteq> None" for env i seen
    using o by (simp add: normalize_minimal_child_def Let_def split: prod.split)
  have one: "\<exists>s. length (minimal_children env i seen (JObject [(str ''task'', JString (str ''a''))] # vs))
      = Suc (length (minimal_children env (Suc i) s vs))" for env i seen vs
    using c [of env i seen] by (cases "normalize_minimal_child env (JObject [(str ''task'', JString (str ''a''))]) i seen") auto
  have "length (minimal_children env 0 [] [JObject [(str ''task'', JString (str ''a''))], JObject [(str ''task'', JString (str ''a''))]]) = 2"
    for env using one [of env 0 "[]" "[JObject [(str ''task'', JString (str ''a''))]]"] one [of env 1 _ "[]"]
    by (metis One_nat_def Suc_1 list.size(3) minimal_children.simps(1))
  then obtain env p where p: "normalize_minimal_spawn_plan env v = Some p" and l: "length (sp_children p) = 2"
    by (auto simp: normalize_minimal_spawn_plan_def v_def bt_get_def Let_def)
  from minimal_plans_well_formed [OF p] p l show ?thesis by blast
qed

text \<open>
  C13. What the kernel is given is well formed, for both interfaces: the media have distinct identifiers and
  the scope of the request, every image part refers to one of them, the result records are exactly
  those the result parts name, in order and in scope, and the tool choice can be met by the tools.
\<close>

theorem requests_normalized:
  assumes "normalize_openai_chat env base r = Inr n \<or> normalize_anthropic_messages env base r' = Inr n"
  shows "distinct (map ma_id (nr_media_artifacts n))
    \<and> (\<forall>m \<in> set (nr_media_artifacts n). ma_scope m = isolation_key_of n)
    \<and> (\<forall>m \<in> set (nr_messages n). \<forall>i. ImagePart i \<in> set (nm_content m) \<longrightarrow>
         ar_scope i = isolation_key_of n \<and> ar_artifact_id i \<in> ma_id ` set (nr_media_artifacts n))
    \<and> map tr_tool_call_id (nr_tool_results n) = filter_map result_part (concat (map nm_content (nr_messages n)))
    \<and> (\<forall>t \<in> set (nr_tool_results n). tr_scope t = isolation_key_of n)
    \<and> validate_tool_choice (nr_tool_choice n) (nr_tools n) = Inr () \<and> \<not> nr_stream n"
  using assms normalize_openai_ok normalize_anthropic_ok norm_ok_unfold by (metis request_state_simps)

lemma requests_normalized_witness:
  "\<exists>env base r n. normalize_openai_chat env base r = Inr n \<and> distinct (map ma_id (nr_media_artifacts n))
     \<and> length (nr_media_artifacts n) = 1"
proof -
  define r where "r = \<lparr>oc_model = str ''m'', oc_messages = [\<lparr>om_role = str ''user'',
      om_content = Some (ContentParts [PartImageUrl (str ''u'')]), om_tool_calls = [], om_function_call = None,
      om_tool_call_id = None, om_name = None\<rparr>], oc_tools = [], oc_tool_choice = JNull, oc_functions = [],
      oc_function_call = JNull, oc_parallel_tool_calls = None, oc_thinking = JNull, oc_reasoning = JNull,
      oc_chat_template_kwargs = JNull, oc_enable_thinking = None, oc_preserve_thinking = None, oc_stream = False,
      oc_metadata = JNull, oc_extra = []\<rparr>"
  obtain env base where "env = (undefined :: normalize_env)" and "base = (undefined :: request_context)" by blast
  have "oc_model r = str ''m''" by (simp add: r_def)
  moreover have "split_effort_model_alias (str ''m'') = None" by code_simp
  ultimately have e: "openai_reasoning_effort r = Inr EffortMedium"
    by (simp add: openai_reasoning_effort_def effort_of_request_def top_level_reasoning_effort_def r_def
        reasoning_effort_from_values_def named_effort_def get_or_null_def or_else_def)
  obtain n where n: "normalize_openai_chat env base r = Inr n" and l: "length (nr_media_artifacts n) = 1"
    using e by (auto simp: normalize_openai_chat_def r_def Let_def openai_effective_tool_choice_def
        openai_function_call_choice_def normalize_openai_message_def openai_content_parts_def add_media_def
        norm_start_def str_def call_parts_def)
  from n have "normalize_openai_chat env base r = Inr n \<or> normalize_anthropic_messages env base undefined = Inr n" ..
  from requests_normalized [OF this] n l show ?thesis by blast
qed

text \<open>
  C14. A streamed response ends for every list of items. Its events are numbered from 0 in order; the
  deltas before the end are the provider's text; and the end either reports a failure and stores
  nothing, or completes with a response whose text is the deltas' text, which is the response that was
  handed to the store.
\<close>

theorem responses_stream_consistent:
  "\<exists>fs t. responses_stream env items w = Some (fs, t)
     \<and> sequences fs = map word_at [0..<length (sequences fs)] \<and> length (ss_telemetry t) = 1
     \<and> (\<exists>body end_frames. fs = body @ end_frames \<and> list_all inner_frame body
          \<and> concat (map delta_text body) = provider_text items
          \<and> (failed_end end_frames \<and> rt_world t = w
             \<or> completed_end env w (provider_text items) end_frames (rt_world t)))"
  using responses_stream_complete [of env items w] unfolding end_inv_def by blast

text \<open>
  C15. The durable store refines a pair of maps. Whatever the backend, an operation on a store whose
  invariant holds answers like the same operation on the maps from cells (namespace, hash of the
  tenant, identifier) to objects and to bytes, leaves the maps it leaves, refuses the same names, and
  keeps the invariant. On disk nothing fails here: \<open>durable_inv\<close> excludes faults, and
  \<open>failed_writes_found\<close> says what they do. The hash and the order of a directory are parameters.
\<close>

theorem durable_store_refines:
  assumes "durable_inv env st" and "op_storable env p" and "durable_step env p st = (a, st')"
  shows "spec_step env p (durable_abs env st) = (a, durable_abs env st') \<and> durable_inv env st'"
  using assms by (rule durable_step_refines)

lemma durable_store_refines_witness:
  "\<exists>st'. durable_step numbering_env (PutObject ([97], [98], [99]) JNull) durable_memory = (Kept, st')
     \<and> object_at numbering_env st' (key_cell numbering_env ([97], [98], [99])) = Some JNull"
proof -
  have ok: "component_ok [97]" "component_ok [99]"
    by (simp_all add: component_ok_def utf8_len_def utf8_width_def is_component_char_def char_class_defs)
  obtain a st' where s: "durable_step numbering_env (PutObject ([97], [98], [99]) JNull) durable_memory = (a, st')"
    by fastforce
  from durable_store_refines [OF memory_opened [OF numbering_lawful] _ s] ok
  have "(Kept, Map.empty(key_cell numbering_env ([97], [98], [99]) \<mapsto> JNull), \<lambda>_. None) = (a, durable_abs numbering_env st')"
    by (simp add: memory_empty checked_def numbering_storable)
  from this [symmetric] s show ?thesis by (intro exI [of _ st']) (simp add: durable_abs_def)
qed

text \<open>
  C16. A batch whose input is accepted always runs to its end: its record is stored as completed, or as
  cancelled when the task was cancelled or a request was dropped, and the output and error files
  named there hold, as JSON lines, one line with the identifier of each request that succeeded,
  respectively failed, in the order in which they ended. A kind without requests has no file.
  \<open>uuids_ok\<close>: identifiers are safe characters, and no two drawn one after the other are equal.
  \<open>bw_ok\<close>: the storage has no faults (the source ignores some of them), and \<^verbatim>\<open>serde_json\<close> reads plain
  values back; \<open>storable_batch\<close>: the metadata and the errors of the record are plain. The counts the
  run starts from leave room for the requests of a batch.
\<close>

theorem batch_outputs_stored:
  assumes "bw_ok env w" and "uuids_ok env" and "component_ok (ob_id b)" and "storable_batch b"
    and "unat (obc_completed (ob_request_counts b)) + max_openai_batch_requests < 2 ^ 64"
    and "unat (obc_failed (ob_request_counts b)) + max_openai_batch_requests < 2 ^ 64"
    and "\<not> ob_cancel_requested b" and "\<not> sch_cancelled_first sch"
    and "load_batch_input env b w = (Inr inputs, w)" and "mset (sch_order sch inputs) = mset inputs"
  shows "\<exists>b' w'. run_openai_batch env sch b w = (Inr (), w')
    \<and> run_kept env b (sch_cancelled_last sch) (batch_items env sch b inputs) w' b'"
  using run_written [OF assms(1-9) mset_eq_length [OF assms(10)]] by blast

lemma batch_outputs_stored_witness:
  "\<exists>w b' w'. let sch = \<lparr>sch_cancelled_first = False, sch_order = rev, sch_dropped = (\<lambda>_. False), sch_cancelled_last = False\<rparr>;
       env = sample_batch_env (\<lambda>_. (200, Inr []))
     in run_openai_batch env sch sample_batch w = (Inr (), w') \<and> (\<exists>its. run_kept env sample_batch False its w' b')"
proof -
  let ?env = "sample_batch_env (\<lambda>_. (200, Inr []))"
  let ?sch = "\<lparr>sch_cancelled_first = False, sch_order = rev, sch_dropped = (\<lambda>_. False), sch_cancelled_last = False\<rparr>
    :: openai_batch_input item_schedule"
  obtain w inputs where w: "bw_ok ?env w" "load_batch_input ?env sample_batch w = (Inr inputs, w)"
    using sample_input by blast
  show ?thesis
    using batch_outputs_stored [OF w(1) sample_uuids _ sample_ids(5), of ?sch inputs] w(2)
    by (auto simp: sample_ids openai_counts_default_def max_openai_batch_requests_def Let_def)
qed

text \<open>
  C17. No batch stays unfinished once its task has run. Whatever its record says, its input holds or
  lacks, its requests answer, and whenever it is cancelled, the task leaves a record in the store
  whose status is terminal: completed, cancelled or failed. \<open>bw_ok\<close> excludes faults of the storage, which
  the source ignores here: a record it cannot write stays as it was. \<open>storable_batch\<close>: the metadata and
  the errors of the record are read back as they were written.
\<close>

theorem batch_tasks_settle:
  assumes "bw_ok env w" and "component_ok (ob_id b)" and "storable_batch b"
  shows "bw_ok env (openai_batch_task env sch b w)
    \<and> (\<exists>b'. stored_openai env (openai_batch_task env sch b w) (ob_tenant_id b) (ob_id b) = Some b' \<and> openai_terminal (ob_status b'))"
  using assms by (rule openai_task_stored)

lemma batch_tasks_settle_witness:
  "\<exists>b'. stored_openai (sample_batch_env (\<lambda>_. (200, Inr [])))
        (openai_batch_task (sample_batch_env (\<lambda>_. (200, Inr [])))
          \<lparr>sch_cancelled_first = False, sch_order = rev, sch_dropped = (\<lambda>_. False), sch_cancelled_last = True\<rparr> sample_batch sample_world)
        (str ''t'') (str ''batch_b'') = Some b' \<and> openai_terminal (ob_status b')"
  using batch_tasks_settle [OF sample_ok, of sample_batch] by (simp add: sample_ids)

text \<open>
  C18. Tenants are isolated in the durable store, on both backends: after any operations of tenants whose
  hashes differ from that of \<open>t\<close>, every operation of \<open>t\<close> is answered as if they had not happened.
\<close>

theorem durable_tenants_isolated:
  assumes "durable_inv env st" and "list_all (op_storable env) (q # ps)"
    and "\<forall>p \<in> set ps. \<forall>t'. op_tenant p = Some t' \<longrightarrow> tenant_hash env t' \<noteq> tenant_hash env t" and "op_tenant q = Some t"
  shows "fst (durable_step env q (snd (durable_run env ps st))) = fst (durable_step env q st)"
proof -
  have q: "op_storable env q" and ps: "list_all (op_storable env) ps" using assms(2) by simp_all
  from run_other_tenants [OF assms(1) ps, of "tenant_hash env t"] assms(3)
  have run: "durable_inv env (snd (durable_run env ps st))"
    "tenant_view (tenant_hash env t) (durable_abs env (snd (durable_run env ps st))) = tenant_view (tenant_hash env t) (durable_abs env st)"
    by auto
  have "fst (durable_step env q s) = fst (spec_step env q (durable_abs env s))" if "durable_inv env s" for s
    using durable_step_refines [OF that q prod.collapse [symmetric]] by (metis fst_conv)
  then show ?thesis using assms(1) run spec_step_view [OF assms(4) run(2)] by simp
qed

lemma durable_tenants_isolated_witness:
  "fst (durable_step numbering_env (GetBlob ([97], [98], [99]))
       (snd (durable_run numbering_env [DeleteBlob ([97], [99], [99]), PutBlob ([97], [99], [99]) [1]] durable_memory)))
   = fst (durable_step numbering_env (GetBlob ([97], [98], [99])) durable_memory)"
  by (rule durable_tenants_isolated [OF memory_opened [OF numbering_lawful], where t = "[98]"])
    (simp_all add: tenant_hash_def numbering_env_def utf8_bytes_def utf8_encode_def)



text \<open>
  C20. A streamed message keeps the protocol of its blocks: every index is opened at most once, filled only
  while it is open, and closed by the end, provided the provider does not send a text together with a
  tool call of index 0.
\<close>

theorem message_blocks_bracketed:
  assumes "usize_items items" and "\<not> (has_text items \<and> has_tool 0 items)"
  shows "\<exists>fs t used. anthropic_stream env items = Some (fs, t) \<and> block_run (marks fs) ({}, {}) = Some ({}, used)"
  using assms by (rule anthropic_blocks_ok)

lemma message_blocks_bracketed_witness:
  "\<exists>env fs t used. anthropic_stream env [Inr (TextDelta [104]), Inr (ToolCallDelta 1 None None [123])] = Some (fs, t)
     \<and> block_run (marks fs) ({}, {}) = Some ({}, used)"
  using message_blocks_bracketed [of "[Inr (TextDelta [104]), Inr (ToolCallDelta 1 None None [123])]"]
  by (auto simp: usize_items_def has_tool_def)

text \<open>
  C21. The messages stream ends; its body starts with the start of the message, its one stop is the last
  event, and a client that reads it gets the provider's text and, for every index, the provider's
  arguments of that tool call, in order. The indices of the provider are 64-bit machine words.
\<close>

theorem messages_stream_complete:
  assumes "usize_items items"
  shows "\<exists>body t. anthropic_stream env items
       = Some (anthropic_message_start_event (se_id env) (se_model env) # body @ [message_stop_event], t)
     \<and> list_all (\<lambda>f. \<not> is_message_stop f) body
     \<and> concat (map client_text body) = provider_text items
     \<and> (\<forall>k. concat (map (client_arguments k) body) = provider_arguments k items)
     \<and> length (ss_telemetry t) = 1"
  using assms by (rule anthropic_stream_complete)

lemma messages_stream_complete_witness:
  "\<exists>env items body t. anthropic_stream env items
       = Some (anthropic_message_start_event (se_id env) (se_model env) # body @ [message_stop_event], t)
     \<and> concat (map client_text body) = [104] \<and> concat (map (client_arguments 1) body) = [123, 125]"
proof -
  let ?items = "[Inr (TextDelta [104]), Inr (ToolCallDelta 1 None None [123, 125]), Inr (Finish FinishStop)]"
  have "usize_items ?items" by (auto simp: usize_items_def)
  from messages_stream_complete [OF this] show ?thesis
    by (fastforce simp: provider_text_def provider_arguments_def live_def is_final_def)
qed

text \<open>
  C22. The bodies of the chat and of the completion stream end, whatever the provider sends (errors, items
  after the end and a stream without an end included): the texts a client reads from the chunks are the
  texts the provider sent before its first end or error, in order; only the last chunk names a reason or
  reports an error, the mark of the end follows it, and one usage record is written.
\<close>

theorem openai_streams_complete:
  "(\<exists>fs t. chat_stream env format items = Some (fs, t) \<and> concat (map chunk_content fs) = provider_text items
       \<and> closed_body fs \<and> length (ss_telemetry t) = 1)
   \<and> (\<exists>fs t. completion_stream env items = Some (fs, t) \<and> concat (map chunk_text fs) = provider_text items
       \<and> closed_body fs \<and> length (ss_telemetry t) = 1)"
  using chat_stream_complete completion_stream_complete by blast

text \<open>
  C23. The key of a stored response in memory joins the tenant and the identifier with a colon, which both
  may contain: a response of the tenant \<^verbatim>\<open>t:u\<close> is read by the tenant \<^verbatim>\<open>t\<close> under the identifier
  \<^verbatim>\<open>u:<id>\<close>, and deleted by it.
\<close>

theorem stored_responses_leak:
  "let r' = r\<lparr>sr_tenant_id := t @ str '':'' @ u\<rparr>; (stored, s') = responses_put cd (None :: ('w, 'b) kv_env option) r' s
   in stored = Inr () \<and> responses_get cd (None :: ('w, 'b) kv_env option) t (u @ str '':'' @ sr_id r) s' = Inr (Some r')
      \<and> fst (responses_delete (None :: ('w, 'b) kv_env option) t (u @ str '':'' @ sr_id r) s') = Inr True"
proof -
  let ?r = "r\<lparr>sr_tenant_id := t @ str '':'' @ u\<rparr>"
  obtain stored s' where p: "responses_put cd (None :: ('w, 'b) kv_env option) ?r s = (stored, s')" by (metis surj_pair)
  then have "stored = Inr ()" by (auto simp: responses_put_def Let_def split: prod.splits)
  with p have "responses_put cd (None :: ('w, 'b) kv_env option) ?r s = (Inr (), s')" by simp
  from responses_leak [OF this, of t u] \<open>stored = Inr ()\<close> p show ?thesis by simp
qed

text \<open>
  C24. The command an unknown tool call is translated to, as a POSIX shell splits it: a fixed program with
  fixed options, the mark of the end of the options, and operands that are each exactly one value the
  client gave, or a dot. No value adds a word, an option or a command.
\<close>

theorem adapted_commands_are_data:
  assumes "adapted_command alias arguments = Some cmd"
  shows "\<exists>program options operands. shell_words cmd = Some (program # options @ str ''--'' # operands)
     \<and> (program, options) \<in> {(str ''cat'', []), (str ''ls'', [str ''-la'']),
          (str ''rg'', [str ''--line-number'', str ''--hidden'', str ''--glob'', str ''!.git''])}
     \<and> (\<forall>v \<in> set operands. v = str ''.'' \<or> (\<exists>k. json_get k arguments = Some (JString v)))"
  using assms by (rule adapted_command_words)

lemma adapted_commands_are_data_witness:
  "\<exists>cmd program options operands.
     adapted_command (str ''readfile'') (json_object [(str ''path'', JString (str ''a; b''))]) = Some cmd
     \<and> shell_words cmd = Some (program # options @ str ''--'' # operands)"
proof -
  obtain cmd where cmd: "adapted_command (str ''readfile'') (json_object [(str ''path'', JString (str ''a; b''))]) = Some cmd"
    by (simp add: adapted_command_def read_command_def argument_string_def json_get_object)
  from adapted_commands_are_data [OF cmd] cmd show ?thesis by blast
qed

text \<open>
  C25. Whatever the threshold and the cooldown, the breaker can reach a state from which, with no call in
  flight, every later request is refused at every later time: the half-open probe was dropped before
  it ended, and only the end of a call clears its mark.
\<close>

theorem dropped_probe_blocks_forever:
  "\<exists>es b. breaker_trace config breaker_new es b \<and> b_in_flight b = 0
     \<and> (\<forall>es' b'. breaker_trace config b es' b'
          \<longrightarrow> b' = b \<and> list_all (\<lambda>e. \<exists>t ms. e = Refused t ms) es')"
proof -
  obtain es k where es: "breaker_trace config breaker_new es ((opened_breaker config k 1)\<lparr>b_in_flight := 0\<rparr>)"
    using stuck_reachable by blast
  let ?b = "(opened_breaker config k 1)\<lparr>b_in_flight := 0\<rparr>"
  have "b' = ?b \<and> list_all (\<lambda>e. \<exists>t ms. e = Refused t ms) es'" if "breaker_trace config ?b es' b'" for es' b'
    using dropped_probe_stuck [OF _ _ _ that] by (simp add: opened_breaker_def list_all_iff)
  with es show ?thesis
    by (intro exI [of _ es] exI [of _ ?b]) (simp add: opened_breaker_def)
qed

lemma dropped_probe_blocks_forever_witness:
  "\<exists>es b. breaker_trace
      \<lparr>rz_max_retries = 2, rz_base_delay_ms = 250, rz_circuit_failure_threshold = 5, rz_circuit_cooldown_ms = 30000\<rparr>
      breaker_new es b \<and> b_in_flight b = 0"
  using dropped_probe_blocks_forever by blast

text \<open>
  C26. The circuit breaker under any interleaving of calls of which none is dropped: when it is half open,
  an admitted call has not ended yet, and as soon as a call ends, in success or failure, there is a
  time from which on a request is admitted.
\<close>

theorem breaker_recovers:
  assumes "breaker_trace config breaker_new es b" and "Dropped \<notin> set es"
    and "cs_half_open_probe (b_circuit b)"
  shows "0 < b_in_flight b
    \<and> (\<forall>e b'. breaker_step config b e b' \<and> (e = Succeeded \<or> (\<exists>t. e = Failed t))
         \<longrightarrow> (\<exists>t. \<forall>now \<ge> t. \<exists>b''. breaker_step config b' (Admitted now) b''))"
  using probe_trace [OF assms(1,2)] recovers_after_end [OF _ _ assms(3)] assms(3)
  by (auto simp: probe_in_flight_def)

lemma breaker_recovers_witness:
  "0 < b_in_flight (opened_breaker
     \<lparr>rz_max_retries = 0, rz_base_delay_ms = 0, rz_circuit_failure_threshold = 1, rz_circuit_cooldown_ms = 7\<rparr> 1 1)"
proof -
  let ?config = "\<lparr>rz_max_retries = 0, rz_base_delay_ms = 0, rz_circuit_failure_threshold = 1,
    rz_circuit_cooldown_ms = 7\<rparr> :: resilience_config"
  have new: "breaker_new = failed_often 0"
    by (simp add: breaker_new_def failed_often_def circuit_state_default_def)
  have "breaker_trace ?config breaker_new [Admitted 0, Failed 0] (opened_breaker ?config 1 0)"
    using one_failure [of 0 ?config] unfolding new by (simp add: max_def)
  moreover have "breaker_trace ?config (opened_breaker ?config 1 0) [Admitted 7000000] (opened_breaker ?config 1 1)"
    by (rule trace_more [OF _ trace_none]) (simp add: breaker_step_simps opened_breaker_def before_request_def)
  ultimately have "breaker_trace ?config breaker_new ([Admitted 0, Failed 0] @ [Admitted 7000000]) (opened_breaker ?config 1 1)"
    by (rule trace_append)
  from breaker_recovers [OF this] show ?thesis by (simp add: opened_breaker_def)
qed

text \<open>
  C27. The retry loop of a call the breaker lets in always ends, after at least one and at most
  \<open>retries + 1\<close> attempts, which it counts. A success or an error that is not retryable resets the
  breaker; a retryable error is returned only after all attempts and is recorded as one failure.
\<close>

theorem retries_bounded:
  assumes "before_request (ce_now env (g_world g)) (g_circuit g) = (Inr (), c)"
  shows "case resilient env config call g of (g', ms, result) \<Rightarrow>
    \<exists>n. 1 \<le> n \<and> n \<le> rz_max_retries config + 1
      \<and> m_provider_attempts (g_metrics g') = m_provider_attempts (g_metrics g) + word_of_nat n
      \<and> (case result of
           Inr _ \<Rightarrow> g_circuit g' = circuit_state_default
         | Inl e \<Rightarrow>
             (if retryable e
              then n = rz_max_retries config + 1
                \<and> g_circuit g' = record_failure config (ce_now env (g_world g')) c
              else g_circuit g' = circuit_state_default))"
proof -
  obtain g' ms result where res: "resilient env config call g = (g', ms, result)"
    by (cases "resilient env config call g") auto
  with assms have "retry_loop env config call 0 0 (g\<lparr>g_circuit := c\<rparr>) = (g', ms, result)"
    by (simp add: resilient_def)
  from retry_loop_outcome [OF this] obtain n where "0 < n" "n \<le> rz_max_retries config + 1"
    "m_provider_attempts (g_metrics g') = m_provider_attempts (g_metrics g) + word_of_nat n"
    "loop_ended env config n c g' result"
    by auto
  then show ?thesis
    unfolding res prod.case by (intro exI [of _ n]) (simp add: loop_ended_def Suc_le_eq)
qed

lemma retries_bounded_witness:
  "case resilient \<lparr>ce_now = (\<lambda>w. 0), ce_timestamp_ms = (\<lambda>w. 0), ce_sleep = (\<lambda>ms w. w)\<rparr>
      \<lparr>rz_max_retries = 2, rz_base_delay_ms = 250, rz_circuit_failure_threshold = 5, rz_circuit_cooldown_ms = 30000\<rparr>
      (\<lambda>w :: unit. (w, 1, Inl (QueueTimeout 5)))
      \<lparr>g_world = (), g_circuit = circuit_state_default, g_metrics = runtime_metrics_default\<rparr>
    of (g', ms, result :: provider_error + unit) \<Rightarrow> \<exists>n \<le> 3. m_provider_attempts (g_metrics g') = word_of_nat n"
  using retries_bounded [of "\<lparr>ce_now = (\<lambda>w :: unit. 0), ce_timestamp_ms = (\<lambda>w. 0), ce_sleep = (\<lambda>ms w. w)\<rparr>"
      "\<lparr>g_world = (), g_circuit = circuit_state_default, g_metrics = runtime_metrics_default\<rparr>"
      circuit_state_default
      "\<lparr>rz_max_retries = 2, rz_base_delay_ms = 250, rz_circuit_failure_threshold = 5, rz_circuit_cooldown_ms = 30000\<rparr>"
      "\<lambda>w :: unit. (w, 1, Inl (QueueTimeout 5) :: provider_error + unit)"]
  by (fastforce simp: before_request_def circuit_state_default_def runtime_metrics_default_def)

text \<open>
  C28. An input file of a batch is accepted exactly when its bytes are UTF-8, its non-blank lines all parse,
  there is at least one and not more than the limit, the identifiers are distinct and not blank, and
  every request is a POST to the endpoint of the batch; it is then read as these requests, in order.
\<close>

theorem batch_input_accepted:
  "parse_batch_input env endpoint bytes = Inr r \<longleftrightarrow>
     (\<exists>t. from_utf8 env bytes = Inr t \<and> map (be_parse_line env) (filter (\<lambda>l. \<not> is_blank l) (lines t)) = map Inr r
        \<and> r \<noteq> [] \<and> length r \<le> max_openai_batch_requests \<and> distinct (map obi_custom_id r)
        \<and> list_all (\<lambda>i. \<not> is_blank (obi_custom_id i) \<and> eq_ignore_ascii_case (obi_method i) (str ''POST'')
             \<and> obi_url i = endpoint) r)"
  using parse_lines_iff [of "[]" env endpoint 0]
  by (auto simp: parse_batch_input_def ebind_Inr_iff input_ok_def list_all_iff split: sum.splits if_splits)

text \<open>
  C29. The counts of a batch add up. A run stores as total the requests of the input, and adds to the stored
  counts those that were answered with a status of 200 to 299, as completed, and all others, dropped
  ones included, as failed. What it adds is the total: after a first run, which starts from zero counts,
  completed and failed together are the total, while a run after a restart counts on from the counts of
  the run before (\<open>restarted_batch_counts_twice\<close>). A batch that was cancelled before the run keeps the
  counts it has. The two bounds say that the counts leave room for the requests of a batch.
\<close>

theorem batch_counts_add_up:
  assumes "bw_ok env w" and "uuids_ok env" and "component_ok (ob_id b)" and "storable_batch b"
    and "unat (obc_completed (ob_request_counts b)) + max_openai_batch_requests < 2 ^ 64"
    and "unat (obc_failed (ob_request_counts b)) + max_openai_batch_requests < 2 ^ 64"
    and "load_batch_input env b w = (Inr inputs, w)" and "mset (sch_order sch inputs) = mset inputs"
  shows "\<exists>b' w'. run_openai_batch env sch b w = (Inr (), w') \<and> stored_openai env w' (ob_tenant_id b) (ob_id b) = Some b'
    \<and> (let before = ob_request_counts b; after = ob_request_counts b'; its = batch_items env sch b inputs
       in if ob_cancel_requested b \<or> sch_cancelled_first sch
          then after = before \<and> ob_status b' = str ''cancelled''
          else unat (obc_total after) = length inputs
            \<and> unat (obc_completed after) = unat (obc_completed before) + length (filter succeeded its)
            \<and> unat (obc_failed after) = unat (obc_failed before) + length (filter (\<lambda>it. \<not> succeeded it) its)
            \<and> unat (obc_completed after) + unat (obc_failed after)
                = unat (obc_completed before) + unat (obc_failed before) + unat (obc_total after))"
proof (cases "ob_cancel_requested b \<or> sch_cancelled_first sch")
  case True
  obtain b' w' where "cancel_openai_batch env b [] [] w = (Inr (), w')"
    "stored_openai env w' (ob_tenant_id b) (ob_id b) = Some b'" "ob_status b' = str ''cancelled''"
    "ob_request_counts b' = ob_request_counts b"
    using settle_nothing [OF assms(1,3,4)] by blast
  with True show ?thesis by (intro exI [of _ b'] exI [of _ w']) (auto simp: run_openai_batch_def)
next
  case False
  then have live: "\<not> ob_cancel_requested b" "\<not> sch_cancelled_first sch" by simp_all
  note n = mset_eq_length [OF assms(8)]
  let ?its = "batch_items env sch b inputs"
  have len: "length ?its = length inputs" using n by (simp add: batch_items_def run_items_def)
  have failed: "length (filter (\<lambda>it. \<not> succeeded it) ?its) = length (filter errored ?its) + length (filter dropped ?its)"
    using kinds_partition [of ?its] sum_length_filter_compl [of succeeded ?its] by simp
  obtain w' where run: "run_openai_batch env sch b w = (Inr (), w')"
    using run_written [OF assms(1-6) live assms(7) n] by blast
  from run_counts [OF assms(1,3-6) live assms(7) n run batch_items_def]
  obtain b' where "stored_openai env w' (ob_tenant_id b) (ob_id b) = Some b'"
    "unat (obc_total (ob_request_counts b')) = length inputs"
    "unat (obc_completed (ob_request_counts b')) = unat (obc_completed (ob_request_counts b)) + length (filter succeeded ?its)"
    "unat (obc_failed (ob_request_counts b'))
      = unat (obc_failed (ob_request_counts b)) + length (filter errored ?its) + length (filter dropped ?its)" by blast
  with run live len failed kinds_partition [of ?its] show ?thesis
    by (intro exI [of _ b'] exI [of _ w']) (simp add: Let_def)
qed

lemma batch_counts_add_up_witness:
  "\<exists>w b' w'. let sch = \<lparr>sch_cancelled_first = False, sch_order = (\<lambda>is. is), sch_dropped = (\<lambda>_. False), sch_cancelled_last = False\<rparr>;
       env = sample_batch_env (\<lambda>_. (500, Inr []))
     in run_openai_batch env sch sample_batch w = (Inr (), w')
        \<and> stored_openai env w' (str ''t'') (str ''batch_b'') = Some b' \<and> unat (obc_total (ob_request_counts b')) \<noteq> 0
        \<and> unat (obc_completed (ob_request_counts b')) + unat (obc_failed (ob_request_counts b'))
            = unat (obc_total (ob_request_counts b'))"
proof -
  let ?env = "sample_batch_env (\<lambda>_. (500, Inr []))"
  let ?sch = "\<lparr>sch_cancelled_first = False, sch_order = (\<lambda>is. is), sch_dropped = (\<lambda>_. False), sch_cancelled_last = False\<rparr>
    :: openai_batch_input item_schedule"
  obtain w inputs where w: "bw_ok ?env w" "load_batch_input ?env sample_batch w = (Inr inputs, w)"
    using sample_input by blast
  have "inputs \<noteq> []" using load_input_cases(2) [OF w] by simp
  then show ?thesis
    using batch_counts_add_up [OF w(1) sample_uuids _ sample_ids(5), of inputs ?sch] w(2)
    by (fastforce simp: sample_ids openai_counts_default_def max_openai_batch_requests_def Let_def)
qed

text \<open>
  C30. The two backends are equivalent. A store opened on an empty disk answers any sequence of operations
  exactly like a store in memory (a listing up to its order), and at the end both hold the same
  cells; opening the disk again keeps every one of them.
\<close>

theorem durable_backends_agree:
  assumes "durable_lawful env" and "list_all (op_storable env) ps"
  shows "\<exists>fs st. durable_filesystem display root \<lparr>fs_nodes = [], fs_faults = [], fs_uuids = n\<rparr> = (Inr st, fs)
    \<and> fst (durable_run env ps st) = fst (durable_run env ps durable_memory)
    \<and> durable_abs env (snd (durable_run env ps st)) = durable_abs env (snd (durable_run env ps durable_memory))
    \<and> (\<exists>fs' st' fs''. snd (durable_run env ps st) = FilesystemStore root fs'
         \<and> durable_filesystem display root fs' = (Inr st', fs'')
         \<and> durable_abs env st' = durable_abs env (snd (durable_run env ps st)))"
proof -
  obtain fs where o: "durable_filesystem display root \<lparr>fs_nodes = [], fs_faults = [], fs_uuids = n\<rparr> = (Inr (FilesystemStore root fs), fs)"
    and ok: "fs_ok env root fs"
    and e: "durable_abs env (FilesystemStore root fs)
      = durable_abs env (FilesystemStore root \<lparr>fs_nodes = [], fs_faults = [], fs_uuids = n\<rparr>)"
    using store_reopens [OF empty_disk_ok] by blast
  have inv: "durable_inv env (FilesystemStore root fs)" using ok assms(1) by (simp add: durable_inv_def)
  have agree: "fst (durable_run env ps (FilesystemStore root fs)) = fst (durable_run env ps durable_memory)
      \<and> durable_abs env (snd (durable_run env ps (FilesystemStore root fs))) = durable_abs env (snd (durable_run env ps durable_memory))"
    by (rule runs_agree [OF inv memory_opened [OF assms(1)] _ assms(2)]) (simp add: e empty_disk memory_empty)
  obtain fs' where fs': "snd (durable_run env ps (FilesystemStore root fs)) = FilesystemStore root fs'" "fs_ok env root fs'"
    using run_on_disk [OF inv assms(2)] by blast
  obtain fs'' where "durable_filesystem display root fs' = (Inr (FilesystemStore root fs''), fs'')"
    and "durable_abs env (FilesystemStore root fs'') = durable_abs env (FilesystemStore root fs')"
    using store_reopens [OF fs'(2)] by blast
  with o agree fs' show ?thesis by (metis fst_conv)
qed

lemma durable_backends_agree_witness:
  "\<exists>fs st. durable_filesystem (\<lambda>_. []) [] \<lparr>fs_nodes = [], fs_faults = [], fs_uuids = 0\<rparr> = (Inr st, fs)
    \<and> fst (durable_run numbering_env [PutBlob ([97], [98], [99]) [1, 2], GetBlob ([97], [98], [99])] st)
      = fst (durable_run numbering_env [PutBlob ([97], [98], [99]) [1, 2], GetBlob ([97], [98], [99])] durable_memory)"
  using durable_backends_agree [OF numbering_lawful, of "[PutBlob ([97], [98], [99]) [1, 2], GetBlob ([97], [98], [99])]" "\<lambda>_. []" "[]" 0]
  by auto

text \<open>
  C31. A Message Batch whose stored input is readable always ends. The stored record has ended, and the results
  hold one line for each request, with its identifier and \<^verbatim>\<open>succeeded\<close>, \<^verbatim>\<open>errored\<close> or \<^verbatim>\<open>canceled\<close> as the
  request was answered with a status of 200 to 299, with another one or an error, or was dropped. The
  counts of the record are the numbers of these lines, sum to the number of requests, and none is left
  processing; a batch that was cancelled before its task began counts every request as canceled.
  \<open>bw_ok\<close> excludes faults of the storage.
\<close>

theorem message_batches_end:
  assumes "bw_ok env w" and "component_ok (ab_id b)" and "load_anthropic_inputs env b w = (Inr inputs, w)"
    and "length inputs < 2 ^ 64" and "mset (sch_order sch inputs) = mset inputs"
  shows "\<exists>c w'. let its = message_items env sch b inputs
    in run_anthropic_batch env sch b w = (Inr (), w') \<and> message_batch_kept env b its c w'
      \<and> mset (map fst its) = mset (map abi_custom_id inputs) \<and> abc_processing c = 0
      \<and> unat (abc_succeeded c) = length (filter succeeded its)
      \<and> unat (abc_errored c) = length (filter errored its) \<and> unat (abc_canceled c) = length (filter dropped its)
      \<and> unat (abc_succeeded c) + unat (abc_errored c) + unat (abc_canceled c) = length inputs
      \<and> (ab_cancel_requested b \<or> sch_cancelled_first sch \<longrightarrow> unat (abc_canceled c) = length inputs)"
proof (rule run_anthropic_kept [OF assms refl])
  let ?its = "message_items env sch b inputs"
  fix c w' assume run: "run_anthropic_batch env sch b w = (Inr (), w')" "message_batch_kept env b ?its c w'"
    and ids: "mset (map fst ?its) = mset (map abi_custom_id inputs)" and zero: "abc_processing c = 0"
    and counts: "unat (abc_succeeded c) = length (filter succeeded ?its)"
      "unat (abc_errored c) = length (filter errored ?its)" "unat (abc_canceled c) = length (filter dropped ?its)"
  have len: "length ?its = length inputs" using mset_eq_length [OF ids] by simp
  have "filter dropped ?its = ?its" if "ab_cancel_requested b \<or> sch_cancelled_first sch"
    using that by (simp add: message_items_def filter_id_conv dropped_def)
  then show ?thesis
    using run ids zero counts len kinds_partition [of ?its]
    by (intro exI [of _ c] exI [of _ w']) (simp add: Let_def del: mset_map)
qed

lemma message_batches_end_witness:
  "\<exists>w w' c. let sch = \<lparr>sch_cancelled_first = False, sch_order = rev, sch_dropped = (\<lambda>i. abi_custom_id i = [99]), sch_cancelled_last = False\<rparr>;
       its = message_items sample_message_env sch sample_message_batch sample_messages
     in run_anthropic_batch sample_message_env sch sample_message_batch w = (Inr (), w')
      \<and> message_batch_kept sample_message_env sample_message_batch its c w' \<and> map fst its = [[99], [98], [97]]
      \<and> unat (abc_succeeded c) = 1 \<and> unat (abc_errored c) = 1 \<and> unat (abc_canceled c) = 1"
proof -
  let ?sch = "\<lparr>sch_cancelled_first = False, sch_order = rev, sch_dropped = (\<lambda>i. abi_custom_id i = [99]), sch_cancelled_last = False\<rparr>
    :: anthropic_batch_input item_schedule"
  let ?its = "message_items sample_message_env ?sch sample_message_batch sample_messages"
  have i: "component_ok (ab_id sample_message_batch)"
    by (simp add: sample_message_batch_def new_anthropic_batch_def component_ok_def str_def utf8_len_def utf8_width_def
        is_component_char_def char_class_defs)
  have t: "tenant_headers (str ''t'') = Inr [(str ''x-tenant-id'', str ''t'')]"
    by (simp add: tenant_headers_def str_def utf8_bytes_def utf8_encode_def)
  have its: "map fst ?its = [[99], [98], [97]]" "length (filter succeeded ?its) = 1" "length (filter errored ?its) = 1"
    "length (filter dropped ?its) = 1"
    by (simp_all add: message_items_def sample_message_batch_def new_anthropic_batch_def run_items_def sample_messages_def
        dispatch_anthropic_batch_item_def t anthropic_item_body_def sample_message_env_def sample_batch_env_def
        response_to_batch_result_def succeeded_def errored_def dropped_def success_status_def)
  obtain w where w: "bw_ok sample_message_env w"
    "load_anthropic_inputs sample_message_env sample_message_batch w = (Inr sample_messages, w)"
    using sample_message_inputs by blast
  obtain c w' where r: "run_anthropic_batch sample_message_env ?sch sample_message_batch w = (Inr (), w')"
    "message_batch_kept sample_message_env sample_message_batch ?its c w'"
    "unat (abc_succeeded c) = 1" "unat (abc_errored c) = 1" "unat (abc_canceled c) = 1"
    using message_batches_end [OF w(1) i w(2), of ?sch] its by (auto simp: Let_def sample_messages_def)
  with its show ?thesis by (auto simp: Let_def)
qed

text \<open>
  C32. An upload that is answered with a file object is kept: the same tenant reads back, under the
  identifier of the answer, the same object, and content that is byte for byte the last file part of
  the form (with a header that names the file, when the HTTP library accepts it). \<open>bw_ok\<close>: the storage
  has no faults, and \<^verbatim>\<open>serde_json\<close> reads back the records of files, whose numbers are whole.
\<close>

theorem upload_roundtrip:
  assumes "bw_ok env w" and "files_create env headers parts w = (JsonReply j, w')"
  shows "\<exists>f bytes u. upload_fields env parts no_upload = Inr u \<and> up_bytes u = Some bytes \<and> j = openai_file_json f
    \<and> fi_tenant_id f = headers_tenant env headers
    \<and> files_retrieve env headers (fi_id f) w' = (JsonReply j, w')
    \<and> files_content env headers (fi_id f) w' = (built_reply env
         [(str ''content-type'', str ''application/octet-stream''),
          (str ''content-disposition'', str ''attachment; filename='' @ [34] @ safe_header_filename (fi_filename f) @ [34])] bytes, w')"
proof (rule upload_kept [OF assms])
  fix f bytes u assume f: "upload_fields env parts no_upload = Inr u" "up_bytes u = Some bytes" "j = openai_file_json f"
    "fi_tenant_id f = headers_tenant env headers"
    and kept: "component_ok (fi_id f)" "bw_ok env w'"
      "object_in env w' openai_files_ns (headers_tenant env headers) (fi_id f) = Some (file_to_value f)"
      "blob_in env w' openai_file_blobs_ns (headers_tenant env headers) (fi_id f) = Some bytes"
  show ?thesis
    using f upload_served [OF kept(2,1,3,4)] by (intro exI [of _ f] exI [of _ bytes] exI [of _ u]) simp
qed

lemma upload_roundtrip_witness:
  "\<exists>j w'. files_create (sample_batch_env (\<lambda>_. (200, Inr []))) []
       [Inr (FormText (str ''purpose'') (Inr (str ''batch''))), Inr (FormFile (Some [97]) (Inr [1, 2]))] sample_world = (JsonReply j, w')
     \<and> (\<exists>(f :: stored_file) hs. files_content (sample_batch_env (\<lambda>_. (200, Inr []))) [] (fi_id f) w' = (BytesReply hs [1, 2], w'))"
proof -
  let ?env = "sample_batch_env (\<lambda>_. (200, Inr []))"
  let ?parts = "[Inr (FormText (str ''purpose'') (Inr (str ''batch''))), Inr (FormFile (Some [97]) (Inr [1, 2]))]"
  have u: "upload_fields ?env ?parts no_upload
      = Inr \<lparr>up_purpose = Some (str ''batch''), up_filename = Some [97], up_bytes = Some [1, 2], up_expires = None\<rparr>"
    by (simp add: no_upload_def text_field_def max_file_bytes_def)
  have c: "checked_upload \<lparr>up_purpose = Some (str ''batch''), up_filename = Some [97], up_bytes = Some [1, 2], up_expires = None\<rparr>
      = Inr (str ''batch'', [97], [1, 2])"
    by (simp add: checked_upload_def not_blank_def is_blank_iff is_whitespace_def file_purposes_def max_batch_file_bytes_def)
      (simp add: str_def is_whitespace_def)
  obtain j w' where r: "files_create ?env [] ?parts sample_world = (JsonReply j, w')"
    using upload_answered [OF sample_ok sample_uuids u c] by blast
  from upload_roundtrip [OF sample_ok r] u r show ?thesis
    by (auto simp: sample_reply simp del: upload_fields.simps)
qed

text \<open>
  C33. Listings lose nothing between their pages. Over distinct identifiers a client that asks for the page
  after the last object it saw, while there are more, sees every batch, Message Batch or file exactly
  once, sorted by the time of creation, whatever the limit it asks for.
\<close>

theorem pages_cover_objects:
  assumes "distinct (map ob_id bs)" and "distinct (map ab_id as)" and "distinct (map fi_id fs)"
  shows "(let xs = page_walk (\<lambda>after. openai_batches_page after limit bs) ob_id (Suc (length bs)) None
      in mset xs = mset bs \<and> sorted_wrt (\<lambda>x y. ob_created_at y \<le> ob_created_at x) xs)
    \<and> (let xs = page_walk (\<lambda>after. anthropic_batches_page after None limit as) ab_id (Suc (length as)) None
      in mset xs = mset as \<and> sorted_wrt (\<lambda>x y. ab_created_at y \<le> ab_created_at x) xs)
    \<and> (let xs = page_walk (\<lambda>after. files_page (q\<lparr>fq_purpose := None, fq_after := after\<rparr>) fs) fi_id (Suc (length fs)) None
      in mset xs = mset fs
         \<and> sorted_wrt (\<lambda>x y. if fq_order q = Some (str ''asc'') then fi_created_at x \<le> fi_created_at y
                             else fi_created_at y \<le> fi_created_at x) xs)"
  using assms page_limit_pos [of 20 100 limit] page_limit_pos [of 20 1000 limit] page_limit_pos [of 10000 10000 "fq_limit q"]
  by (simp_all add: Let_def openai_batches_page_def anthropic_batches_page_def files_page_def page_walk_all sorted_pages
      newest_sorted oldest_sorted del: page_walk.simps)

lemma pages_cover_objects_witness:
  "mset (page_walk (\<lambda>after. openai_batches_page after (Some 1) [sample_batch, sample_batch\<lparr>ob_id := []\<rparr>]) ob_id 3 None)
    = mset [sample_batch, sample_batch\<lparr>ob_id := []\<rparr>]"
  using pages_cover_objects [of "[sample_batch, sample_batch\<lparr>ob_id := []\<rparr>]" "[]" "[]" "Some 1"]
  by (simp add: Let_def sample_ids numeral_3_eq_3 str_def del: page_walk.simps)

text \<open>
  C34. A deletion that is confirmed was safe and is complete: no stored batch of the tenant that is still
  unfinished reads the file, and neither its record nor its content is left. \<open>bw_ok\<close> excludes faults
  of the storage, and the handler runs alone: a batch created while it runs is not seen.
\<close>

theorem file_in_use_kept:
  assumes "bw_ok env w" and "files_delete env headers i w = (JsonReply j, w')"
  shows "(\<forall>b k. component_ok k \<longrightarrow> stored_openai env w (headers_tenant env headers) k = Some b \<longrightarrow> openai_active (ob_status b)
        \<longrightarrow> ob_input_file_id b \<noteq> i)
    \<and> object_in env w' openai_files_ns (headers_tenant env headers) i = None
    \<and> blob_in env w' openai_file_blobs_ns (headers_tenant env headers) i = None"
  using assms by (rule file_deleted)

lemma file_in_use_kept_witness:
  "\<exists>w w' j. files_delete (sample_batch_env (\<lambda>_. (200, Inr []))) [] (str ''file-input'') w = (JsonReply j, w')
     \<and> object_in (sample_batch_env (\<lambda>_. (200, Inr []))) w' openai_files_ns
         (headers_tenant (sample_batch_env (\<lambda>_. (200, Inr []))) []) (str ''file-input'') = None"
proof -
  let ?env = "sample_batch_env (\<lambda>_. (200, Inr []))"
  obtain w j w' where w: "bw_ok ?env w" "files_delete ?env [] (str ''file-input'') w = (JsonReply j, w')"
    using sample_deleted by blast
  from file_in_use_kept [OF this] w show ?thesis by blast
qed

text \<open>
  C35. What a write leaves when calls of the file system fail. A fault of making the directory, creating,
  writing or flushing the temporary file is reported and keeps the old value. When the rename fails,
  the target is removed and the rename tried again: it succeeds, or the first error is reported, and
  then the old value is lost unless the removal failed too.
\<close>

theorem failed_writes_found:
  assumes "p \<noteq> []" and "\<forall>q \<in> set (path_prefixes (butlast p)). \<not> is_file (node_at fs q)"
    and "node_at fs p \<noteq> Some FsDir" and "node_at fs (temporary_path env (fs_uuids fs) p) \<noteq> Some FsDir"
    and "write_atomic env p bs fs = (r, fs')"
  shows "case (fault_at 0 fs, fault_at 1 fs, fault_at 2 fs, fault_at 3 fs) of
      (None, None, None, None) \<Rightarrow>
        (case fault_at 4 fs of
           None \<Rightarrow> r = Inr () \<and> node_at fs' p = Some (FsFile bs)
         | Some f \<Rightarrow>
             (case fault_at 6 fs of
                None \<Rightarrow> r = Inr () \<and> node_at fs' p = Some (FsFile bs)
              | Some g \<Rightarrow> r = Inl (fst f)
                  \<and> node_at fs' p = (if fault_at 5 fs = None then None else node_at fs p)))
    | _ \<Rightarrow> (\<exists>e. r = Inl e) \<and> node_at fs' p = node_at fs p"
  using assms by (rule write_atomic_faults)

lemma failed_writes_found_witness:
  "\<exists>r fs'. write_atomic numbering_env [[97]] [1]
      \<lparr>fs_nodes = [([[97]], FsFile [0])],
       fs_faults = [None, None, None, None, Some ([101], 0), None, Some ([101], 0)], fs_uuids = 0\<rparr> = (r, fs')
    \<and> r = Inl [101] \<and> node_at fs' [[97]] = None"
proof -
  let ?fs = "\<lparr>fs_nodes = [([[97]], FsFile [0])], fs_faults = [None, None, None, None, Some ([101], 0), None, Some ([101], 0)],
      fs_uuids = 0\<rparr> :: file_system"
  obtain r fs' where w: "write_atomic numbering_env [[97]] [1] ?fs = (r, fs')" by fastforce
  have "node_at ?fs (temporary_path numbering_env (fs_uuids ?fs) [[97]]) \<noteq> Some FsDir"
    by (simp add: node_at_def temporary_path_def bt_get_def)
  from failed_writes_found [OF _ _ _ this w] w show ?thesis
    by (auto simp: path_prefixes_def node_at_def fault_at_def bt_get_def)
qed

text \<open>
  C36. Under every interleaving of arrivals, grants, timeouts and releases of any number of tenants, no
  tenant holds more permits than the limit, counted over all semaphores that were ever made for it:
  forgetting a semaphore and making a new one never lets a tenant have two at once.
\<close>

theorem tenant_limit_holds:
  assumes "tenant_reachable grants st" and "\<And>n. grants n \<Longrightarrow> n < limit"
  shows "tenant_holding st tenant \<le> limit"
  using tenant_holding_le [OF tenants_ok_reachable [OF assms(1)]] assms(2) by blast

lemma tenant_limit_holds_witness:
  "tenant_holding (tenant_granted 0 (snd (tenant_enter (str ''acme'') \<lparr>tn_map = [], tn_semaphores = []\<rparr>)))
     (str ''acme'') \<le> 1"
proof (rule tenant_limit_holds)
  let ?st = "snd (tenant_enter (str ''acme'') \<lparr>tn_map = [], tn_semaphores = []\<rparr>)"
  have arrived: "tenant_reachable (\<lambda>n. n < 1) ?st"
    by (rule tenant_reachable.onward [OF tenant_reachable.nobody tenant_step.arrive])
  show "tenant_reachable (\<lambda>n. n < 1) (tenant_granted 0 ?st)"
    by (rule tenant_reachable.onward [OF arrived tenant_step.grant])
      (simp_all add: tenant_enter_def Let_def retain_alive_def)
qed simp



text \<open>
  C38. The children's calls end in any order the executor picks, and the run does not depend on it. Every
  request is sent once, whatever the provider. Where the answers depend on the request only, the fan-out
  gives the answers exactly when every request by itself is answered in its time, and then in task order,
  with another executor and from another state as well; and an error it gives is the error or the timeout
  of one of the requests.
\<close>

theorem fan_out_order_free:
  assumes "\<And>w w' req. snd (ke_invoke env w req) = snd (ke_invoke env w' req)"
  shows "(fst (fan_out env (parallel_limit cx) reqs s) = Inr xs
      \<longleftrightarrow> map fst xs = [0..<length reqs] \<and> list_all (\<lambda>(i, r). fst (invoke_on env (reqs ! i) w) = Inr r) xs)
    \<and> (fst (fan_out env (parallel_limit cx) reqs s) = Inr xs
      \<longleftrightarrow> fst (fan_out (env\<lparr>ke_pick := pick\<rparr>) (parallel_limit cx) reqs s') = Inr xs)
    \<and> (fst (fan_out env (parallel_limit cx) reqs s) = Inl e
      \<longrightarrow> (\<exists>req \<in> set reqs. fst (invoke_on env req w) = Inl e))
    \<and> (\<exists>log. run_log (snd (fan_out (recording_env env) (parallel_limit cx) reqs t)) = run_log t @ log
        \<and> mset log = mset reqs)"
proof -
  let ?env = "env\<lparr>ke_pick := pick\<rparr>"
  have pick: "\<And>w w' req. snd (ke_invoke ?env w req) = snd (ke_invoke ?env w' req)"
    using assms by simp
  have same: "fst (invoke_on ?env req w) = fst (invoke_on env req w)" for req
    by (simp add: invoke_on_def case_prod_beta)
  show ?thesis
    using stateless_fan_out_Inr [OF assms parallel_limit_pos, of cx reqs s xs w]
      stateless_fan_out_Inr [OF pick parallel_limit_pos, of cx reqs s' xs w]
      stateless_fan_out_Inl [OF assms parallel_limit_pos, of cx reqs s e w]
      fan_out_invokes [OF parallel_limit_pos, of env cx reqs t]
    unfolding same by blast
qed

lemma fan_out_order_free_witness:
  "fst (fan_out (sample_env\<lparr>ke_invoke := mock_invoke sample_texts, ke_pick := \<lambda>_ k. k + 1\<rparr>)
         (parallel_limit (run_context sample_env kernel_policy_default (sample_request EffortLow)))
         (map (child_request sample_env (run_context sample_env kernel_policy_default (sample_request EffortLow)) artifact_store_new)
           (sp_children (sample_plan [1, 2])))
         (initial_state (run_context sample_env kernel_policy_default (sample_request EffortLow)) ()))
     = Inr (map (\<lambda>i. (i, mock_response sample_texts
         (child_request sample_env (run_context sample_env kernel_policy_default (sample_request EffortLow)) artifact_store_new
           (sp_children (sample_plan [1, 2]) ! i)))) [0, 1])"
proof -
  let ?env = "sample_env\<lparr>ke_invoke := mock_invoke sample_texts, ke_pick := \<lambda>_ k. k + 1\<rparr>"
  let ?cx = "run_context sample_env kernel_policy_default (sample_request EffortLow)"
  let ?reqs = "map (child_request sample_env ?cx artifact_store_new) (sp_children (sample_plan [1, 2]))"
  have mock: "\<And>w w' req. snd (ke_invoke ?env w req) = snd (ke_invoke ?env w' req)"
    by (simp add: mock_invoke_def)
  have "fst (invoke_on ?env req w) = Inr (mock_response sample_texts req)" for req w
    by (simp add: invoke_on_def mock_invoke_def with_timeout_def)
  moreover have "length (sp_children (sample_plan [1, 2])) = 2" by (simp add: sample_plan_def)
  ultimately show ?thesis
    using fan_out_order_free [OF mock, of ?cx ?reqs _ "map (\<lambda>i. (i, mock_response sample_texts (?reqs ! i))) [0, 1]"]
    by (simp add: upt_rec)
qed

text \<open>
  C39. At the end of every run, also a failed one, the stores are well formed (the artifact store and
  the ledger file every entry under its own scope and identifier, every result answers a call, the
  task graph records the parent of every task among its dependencies) and the ledger holds no more
  calls than the policy's total tool-call budget.
\<close>

theorem run_keeps_stores:
  "stores_ok (run_context env policy r) (snd (run_inner env policy r w))"
  unfolding run_inner_def Let_def by (rule run_stores_ok) (rule prod.collapse [symmetric])

text \<open>
  C40. A call that a model wrote as text is only ever a call of a tool the client declared. It comes from a marked
  fragment of the text, whose name is cleaned. When that name is declared, the call is the one that was written.
  When it is not, none of what was written is run: the call goes to the first declared one of the three shell
  tools, its only argument is the command, and the command is data: a shell reads it as
  \<^verbatim>\<open>printf\<close>, its format and one word, the message with the name that was written.
\<close>

theorem text_tool_calls_confined:
  assumes "parse_text_tool_call env t names = Some call"
  shows "\<exists>inner written. extract_text_tool_call_inner (trim t) = Some inner
    \<and> parse_text_tool_call_inner env inner = Some written
    \<and> pt_name written \<noteq> [] \<and> tool_name_ok (pt_name written)
    \<and> pt_name call \<in> set names
    \<and> (if pt_name written \<in> set names then call = written
       else find (\<lambda>n. n \<in> set names) (map str [''exec_command'', ''local_shell'', ''shell'']) = Some (pt_name call)
         \<and> (\<exists>command. pt_arguments call = json_object [(str ''cmd'', JString command)]
             \<and> shell_words command
                 = Some [str ''printf'', str ''%s'' @ [92, 110], ignored_message (pt_name written)]))"
proof -
  from assms obtain inner written where w: "extract_text_tool_call_inner (trim t) = Some inner"
      "parse_text_tool_call_inner env inner = Some written"
    and c: "if pt_name written \<in> set names then call = written
            else adapt_unknown_text_tool_call written names = Some call"
    unfolding parse_text_tool_call_iff by blast
  show ?thesis
  proof (cases "pt_name written \<in> set names")
    case True
    with w c inner_call_name [OF w(2)] show ?thesis by auto
  next
    case False
    with c have "adapt_unknown_text_tool_call written names = Some call" by simp
    from False w inner_call_name [OF w(2)] adapted_call [OF this] observation_words [of "pt_name written"]
    show ?thesis by (intro exI [of _ inner] exI [of _ written]) (simp only: if_False simp_thms, blast)
  qed
qed

lemma text_tool_calls_confined_witness:
  "\<exists>env t call. parse_text_tool_call env t [str ''shell''] = Some call \<and> pt_name call = str ''shell''
    \<and> (\<exists>command. pt_arguments call = json_object [(str ''cmd'', JString command)]
        \<and> shell_words command = Some [str ''printf'', str ''%s'' @ [92, 110], ignored_message (str ''rm'')])"
proof -
  define call_json where "call_json = JObject [(str ''name'', JString (str ''rm''))]"
  define env where "env = (undefined :: normalize_env)\<lparr>ne_json_parse := (\<lambda>_. Some call_json)\<rparr>"
  have p: "ne_json_parse env = (\<lambda>_. Some call_json)" by (simp add: env_def)
  have i: "extract_text_tool_call_inner (trim (str ''<tool_call>x</tool_call>'')) = Some (str ''x'')"
    by (simp add: extract_text_tool_call_inner_def str_def trim_def trim_start_def trim_end_def is_whitespace_def
        starts_with_def)
  have n: "sanitize_tool_name (str ''rm'') = str ''rm''"
    by (rule sanitize_id) (simp add: tool_name_ok_def tool_name_char_def str_def char_class_defs)
  have w: "parse_text_tool_call_inner env (str ''x'') = Some \<lparr>pt_name = str ''rm'', pt_arguments = JObject []\<rparr>"
    using n by (simp add: parse_text_tool_call_inner_def p parse_text_tool_call_json_def call_json_def first_of_def
        function_field_def Let_def str_def bt_get_def)
  then have c: "parse_text_tool_call env (str ''<tool_call>x</tool_call>'') [str ''shell'']
      = Some \<lparr>pt_name = str ''shell'', pt_arguments = json_object [(str ''cmd'', JString (observation_command (str ''rm'')))]\<rparr>"
    using i by (simp add: parse_text_tool_call_def adapt_unknown_text_tool_call_def)
  show ?thesis
    using text_tool_calls_confined [OF c] c i w
    by (intro exI [of _ env] exI [of _ "str ''<tool_call>x</tool_call>''"]) simp
qed

section \<open>Further facts\<close>

text \<open>
  After the repairs a planner answer (cut to the target) is refused with an error exactly when it
  names no child at all: any plan with one child is completed by cross-checks instead.
\<close>

theorem plan_refused_iff_empty:
  assumes "1 < policy_max_agents policy"
  shows "(\<exists>e. settle_plan policy effort (normalize_over_target_orchestration_plans policy response) = Inl e)
     \<longleftrightarrow> concat (map sp_children (response_plans response)) = []"
  using settle_plan_refuses_iff [OF assms normalize_count_le, of effort response] assms
  by (auto simp: coverage_child_count sum_children_concat normalize_plans_children min_def
      simp del: length_concat concat_eq_Nil_conv split: if_splits)

lemma plan_refused_iff_empty_witness:
  "1 < policy_max_agents (with_reasoning_effort kernel_policy_default EffortHigh)
   \<and> (\<exists>e. settle_plan (with_reasoning_effort kernel_policy_default EffortHigh) EffortHigh
        (normalize_over_target_orchestration_plans (with_reasoning_effort kernel_policy_default EffortHigh)
          \<lparr>ps_artifacts = [AText (str ''t'') (isolation_key_new (str ''a'') (str ''b'') (str ''c'')) (str ''no plan'')],
           ps_tool_calls = [], ps_usage = provider_usage_default\<rparr>) = Inl e)"
  using plan_refused_iff_empty [of "with_reasoning_effort kernel_policy_default EffortHigh" EffortHigh
      "\<lparr>ps_artifacts = [AText (str ''t'') (isolation_key_new (str ''a'') (str ''b'') (str ''c'')) (str ''no plan'')],
        ps_tool_calls = [], ps_usage = provider_usage_default\<rparr>"]
  by (simp add: with_reasoning_effort_def Let_def response_plans_def)

text \<open>
  A plan that is still short of the target after the repairs is completed to exactly the target: the
  first plan gains the missing children, whose identifiers differ from one another and from all
  planned ones and whose parent is that plan's. The search for a free identifier terminates.
\<close>

theorem plan_reconciled_to_target:
  assumes "0 < pc_child_count (planner_coverage_of response)"
    and "pc_child_count (planner_coverage_of response) < policy_max_agents policy"
  shows "\<exists>p ps added.
    response_plans response = p # ps
    \<and> response_plans (fst (reconcile_under_target_orchestration_plan policy response))
        = p\<lparr>sp_children := sp_children p @ added\<rparr> # ps
    \<and> pc_child_count (planner_coverage_of (fst (reconcile_under_target_orchestration_plan policy response)))
        = policy_max_agents policy
    \<and> distinct (map st_task_id added)
    \<and> st_task_id ` set added \<inter> st_task_id ` set (concat (map sp_children (response_plans response))) = {}
    \<and> list_all (\<lambda>c. st_parent_task_id c = Some (sp_parent_task_id p)) added"
proof -
  obtain r' n where rec: "reconcile_under_target_orchestration_plan policy response = (r', n)" by fastforce
  have count: "pc_child_count (planner_coverage_of r') = policy_max_agents policy" and "0 < n"
    using reconcile_count [OF rec assms] assms(2) by simp_all
  from reconcile_plans [OF rec \<open>0 < n\<close>] obtain p ps added where
    "response_plans response = p # ps"
    "response_plans r' = p\<lparr>sp_children := sp_children p @ added\<rparr> # ps"
    "distinct (map st_task_id added)"
    "st_task_id ` set added \<inter> st_task_id ` set (concat (map sp_children (response_plans response))) = {}"
    "\<forall>c \<in> set added. st_parent_task_id c = Some (sp_parent_task_id p)"
    by metis
  with count show ?thesis
    unfolding rec fst_conv list_all_iff by blast
qed

lemma plan_reconciled_to_target_witness:
  "\<exists>p ps added.
    response_plans (sample_plan_response [0]) = p # ps
    \<and> response_plans (fst (reconcile_under_target_orchestration_plan
          (with_reasoning_effort kernel_policy_default EffortLow) (sample_plan_response [0])))
        = p\<lparr>sp_children := sp_children p @ added\<rparr> # ps
    \<and> pc_child_count (planner_coverage_of (fst (reconcile_under_target_orchestration_plan
          (with_reasoning_effort kernel_policy_default EffortLow) (sample_plan_response [0])))) = 4"
proof -
  have agents: "policy_max_agents (with_reasoning_effort kernel_policy_default EffortLow) = 4"
    by (simp add: with_reasoning_effort_def Let_def)
  have "pc_child_count (planner_coverage_of (sample_plan_response [0])) = 1"
    by (simp add: coverage_child_count response_plans_def sample_plan_response_def sample_plan_def)
  then show ?thesis
    using plan_reconciled_to_target [of "sample_plan_response [0]" "with_reasoning_effort kernel_policy_default EffortLow"]
    unfolding agents by auto
qed

text \<open>
  The normalisation of a planner's answer keeps, over all of its plans in order, exactly the first
  children up to the target, and the number of plans.
\<close>

theorem plans_cut_to_target:
  "concat (map sp_children (response_plans (normalize_over_target_orchestration_plans policy response)))
     = take (policy_max_agents policy) (concat (map sp_children (response_plans response)))
   \<and> length (response_plans (normalize_over_target_orchestration_plans policy response))
     = length (response_plans response)"
  by (simp add: normalize_plans_children)
    (simp add: response_plans_def normalize_over_target_orchestration_plans_def truncate_plans_plans)

text \<open>
  An accepted plan adds as many child tasks to the graph as it has distinct identifiers: the
  validator compares a child with the graph only, so two children of one plan may share an
  identifier and then share a task, below the exact number the planner was held to.
\<close>

theorem validator_merges_repeated_ids:
  assumes "graph_wf graph" and "validate_and_apply policy scope store graph plan = Inr g"
    and "list_all (\<lambda>c. st_parent_task_id c \<noteq> None) (sp_children plan)"
  shows "length (child_tasks g) = length (child_tasks graph) + card (st_task_id ` set (sp_children plan))"
  using assms child_gain [OF assms(1), of "sp_children plan"]
  by (simp add: validate_accepts_iff plan_admissible_def child_admissible_def list_all_iff)

lemma validator_merges_repeated_ids_witness:
  "length (sp_children (sample_plan [0, 0])) = 2 \<and>
   length (child_tasks (insert_tasks (sp_children (sample_plan [0, 0])) (task_graph_new root_task_id))) = 1"
proof -
  let ?g = "insert_tasks (sp_children (sample_plan [0, 0])) (task_graph_new root_task_id)"
  have "plan_admissible (with_reasoning_effort kernel_policy_default EffortLow) scope [] (task_graph_new root_task_id)
      (sample_plan [0, 0])" for scope
    by (simp add: plan_admissible_def child_admissible_def sample_plan_def mock_child_def task_graph_new_def
        child_tasks_def bt_values_def with_reasoning_effort_def kernel_policy_default_def
        execution_limits_default_def Let_def)
  then have "validate_and_apply (with_reasoning_effort kernel_policy_default EffortLow)
      (isolation_key_of (sample_request EffortLow)) [] (task_graph_new root_task_id) (sample_plan [0, 0]) = Inr ?g"
    by (simp add: validate_accepts_iff)
  from validator_merges_repeated_ids [OF _ this] show ?thesis
    by (simp add: sample_plan_def mock_child_def child_tasks_def bt_values_def task_graph_new_def)
qed

text \<open>
  When the children's stage succeeds it has sealed exactly one encrypted state for each child task,
  in task order, under the task's identifier and with request, conversation and task as the
  authenticated associated data.
\<close>

theorem children_sealed:
  "case run_children env cx s of
     (Inl e, s') \<Rightarrow> True
   | (Inr has_children, s') \<Rightarrow>
       map seal_label (rs_sealed s')
         = map seal_label (rs_sealed s) @ map (task_label (rc_scope cx)) (child_tasks (ks_graph (rs_stores s)))"
  using run_children_sealed by (fastforce split: prod.split sum.split)

text \<open>
  With the mock provider (as with every provider whose answers depend on the request only) the
  result of the fan-out does not depend on the executor's choices: it is the list of the answers
  in task order.
\<close>

theorem fan_out_deterministic:
  "fst (fan_out (env\<lparr>ke_invoke := mock_invoke te\<rparr>) (parallel_limit cx) reqs s)
     = Inr (map (\<lambda>i. (i, mock_response te (reqs ! i))) [0..<length reqs])"
  by (rule mock_fan_out) (rule parallel_limit_pos)

text \<open>
  The synthesis of a run with children returns a text that is not blank, with a note when it took a
  retry, or fails with a provider or timeout error, among them the one for three empty
  completions; it makes at most three calls.
\<close>

theorem synthesis_never_blank:
  "(case run_synthesizer env cx s of
     (Inl e, s') \<Rightarrow> e = empty_synthesis_error 3 \<or> (\<exists>p. e = KProvider p) \<or> (\<exists>t ms. e = AgentTimeout t ms)
   | (Inr (answer, issue), s') \<Rightarrow>
       \<not> is_blank answer \<and> issue \<in> {None, Some (recovered_issue 1), Some (recovered_issue 2)})
   \<and> costs 3 (synth_loop (recording_env env') cx' base 0)"
  using synthesizer_outcome costs_synth_loop [of 0 env' cx' base]
  by (simp add: max_empty_synthesis_retry_attempts_def eval_nat_numeral)

text \<open>
  The semantic verification of an answer that is not blank always returns a result: errors of the
  verifier or the repair become issues. The text it returns is not blank, and it is passed only if
  the trace ends with a verifier's answer whose verdict parses and says passed.
\<close>

theorem verification_keeps_answer:
  assumes "\<not> is_blank candidate"
  shows "\<exists>result s'. semantic_loop env cx evidence 0 candidate s = (Inr result, s')
    \<and> semantic_ok env result s'"
  using semantic_loop_total [of env cx evidence 0 candidate s] semantic_loop_ok [OF _ assms] by blast

lemma verification_keeps_answer_witness:
  "\<exists>result s'. semantic_loop sample_env
      (run_context sample_env kernel_policy_default (sample_request EffortLow)) [] 0 (str ''yes'')
      (initial_state (run_context sample_env kernel_policy_default (sample_request EffortLow)) ())
      = (Inr result, s') \<and> semantic_ok sample_env result s'"
  by (rule verification_keeps_answer) (simp add: is_blank_iff str_def is_whitespace_def)

text \<open>
  With effort none a run sends exactly one request, the root leader's with the client's messages and
  tools: a response cannot make it spawn children, continue, summarize, synthesize or verify.
\<close>

theorem direct_run_is_one_call:
  assumes "is_direct (nr_reasoning_effort r)"
  shows "run_log (snd (run_inner (recording_env env) policy r (w, [])))
    = [root_request (run_context (recording_env env) policy r)
         (run_root_task (run_context (recording_env env) policy r)) (flatten_text r) []]"
proof -
  let ?cx = "run_context (recording_env env) policy r"
  have "policy_max_agents (rc_policy ?cx) = 0"
    using assms by (simp add: for_request_agents is_direct_def)
  with direct_log [of ?cx env w, OF _ _ prod.collapse [symmetric]] assms show ?thesis
    by (simp add: run_inner_def Let_def)
qed

lemma direct_run_is_one_call_witness:
  "is_direct EffortNone \<and>
   length (run_log (snd (run_inner (recording_env sample_env) kernel_policy_default
      (sample_request EffortNone) ((), [])))) = 1"
  using direct_run_is_one_call [of "sample_request EffortNone" sample_env kernel_policy_default "()"]
  by (simp add: sample_effort is_direct_def)

text \<open>
  The answer to a task without the spawn capability never changes the task graph: a plan it contains
  is kept as a text.
\<close>

theorem worker_cannot_spawn:
  assumes "\<not> capability_contains (st_allowed_capabilities task) CapSpawn"
  shows "case apply_provider_response plan_text policy scope task response s of
     Inl e \<Rightarrow> True
   | Inr s' \<Rightarrow> ks_graph (fst s') = ks_graph (fst s)
       \<and> (\<exists>new. snd s' = snd s @ new \<and> texts_only new)"
proof (cases "apply_provider_response plan_text policy scope task response s")
  case (Inr s')
  from apply_response_no_spawn [OF Inr assms] apply_response_texts [OF Inr] Inr
  show ?thesis by simp
qed simp

lemma worker_cannot_spawn_witness:
  "\<not> capability_contains (st_allowed_capabilities (mock_child [] 0)) CapSpawn \<and>
   (case apply_provider_response (\<lambda>_. None) kernel_policy_default
      (isolation_key_of (sample_request EffortLow)) (mock_child [] 0) (sample_plan_response [1])
      (initial_stores (run_context sample_env kernel_policy_default (sample_request EffortLow)), []) of
     Inl e \<Rightarrow> True
   | Inr s' \<Rightarrow> ks_graph (fst s')
       = ks_graph (initial_stores (run_context sample_env kernel_policy_default (sample_request EffortLow))))"
proof -
  have no: "\<not> capability_contains (st_allowed_capabilities (mock_child [] 0)) CapSpawn"
    by (simp add: mock_child_def capability_set_from_def capability_contains_def)
  from worker_cannot_spawn [OF this, where plan_text = "\<lambda>_. None" and policy = kernel_policy_default
      and scope = "isolation_key_of (sample_request EffortLow)" and response = "sample_plan_response [1]"
      and s = "(initial_stores (run_context sample_env kernel_policy_default (sample_request EffortLow)), [])"] no
  show ?thesis by (auto split: sum.splits)
qed

text \<open>
  An answer is refused with the budget error exactly when the calls in the ledger and its own exceed
  the policy's total; an answer that is applied records its calls and keeps within the total.
\<close>

theorem tool_budget_enforced:
  "(apply_provider_response plan_text policy scope task response s = Inl BudgetExceeded \<longleftrightarrow>
      unat (max_total_tool_calls (kp_limits policy))
        < call_count (ks_ledger (fst s)) + length (ps_tool_calls response))
   \<and> (case apply_provider_response plan_text policy scope task response s of
        Inl e \<Rightarrow> True
      | Inr s' \<Rightarrow> ks_ledger (fst s') = record_calls (ps_tool_calls response) (ks_ledger (fst s))
          \<and> call_count (ks_ledger (fst s')) \<le> unat (max_total_tool_calls (kp_limits policy)))"
proof (cases "apply_provider_response plan_text policy scope task response s")
  case (Inl e)
  with apply_response_budget_iff [of plan_text policy scope task response s] show ?thesis by simp
next
  case (Inr s')
  from apply_response_ledger [OF Inr] apply_response_budget [OF Inr] Inr
    apply_response_budget_iff [of plan_text policy scope task response s]
  show ?thesis by simp
qed

text \<open>
  Recording a tool result removes exactly the call it answers, in its scope, from the unresolved
  calls, and keeps the ledger well formed; a result for an unknown call is an error.
\<close>

theorem result_resolves_its_call:
  assumes "ledger_wf l"
  shows "case record_result res l of
     Inl e \<Rightarrow> e = UnknownToolCall (tr_scope res) (tr_tool_call_id res)
       \<and> ledger_get l (tr_scope res) (tr_tool_call_id res) = None
   | Inr l' \<Rightarrow> ledger_wf l' \<and>
       set (unresolved_calls l' scope)
         = {c \<in> set (unresolved_calls l scope). (tc_scope c, tc_tool_call_id c) \<noteq> result_key res}"
  using ledger_wf_record_result [OF assms] unresolved_after_result [OF assms]
  by (auto simp: record_result_def ledger_get_def result_key_def split: sum.split option.splits)

lemma result_resolves_its_call_witness:
  "case record_result
       \<lparr>tr_tool_call_id = str ''x'', tr_scope = isolation_key_of (sample_request EffortLow), tr_result_json = JNull,
        tr_result_sha256 = [], tr_status = Accepted\<rparr> tool_ledger_new of
     Inl e \<Rightarrow> e = UnknownToolCall (isolation_key_of (sample_request EffortLow)) (str ''x'')
   | Inr l' \<Rightarrow> False"
  using result_resolves_its_call [OF ledger_wf_new,
      of "\<lparr>tr_tool_call_id = str ''x'', tr_scope = isolation_key_of (sample_request EffortLow), tr_result_json = JNull,
        tr_result_sha256 = [], tr_status = Accepted\<rparr>" "isolation_key_of (sample_request EffortLow)"]
  by (auto simp: record_result_def tool_ledger_new_def split: sum.splits)

text \<open>
  The tool results a request carries never enter the ledger of its run: the ledger is new, so each is
  the result of an unknown call, and that error is dropped.
\<close>

theorem request_results_ignored:
  "ks_ledger (initial_stores cx) = tool_ledger_new"
  by (rule initial_ledger)

text \<open>
  The tool gate of the root never runs: every effort that reaches it allows more than one agent, and
  then the planner is used instead.
\<close>

theorem tool_gate_unreachable:
  assumes "\<not> is_direct (nr_reasoning_effort r)"
  shows "run_tool_gate env (run_context env policy r) = kret []"
  using assms by (rule tool_gate_idle)

lemma tool_gate_unreachable_witness:
  "run_tool_gate sample_env (run_context sample_env kernel_policy_default (sample_request EffortXHigh)) = kret []"
  by (rule tool_gate_unreachable) (simp add: sample_effort is_direct_def)

text \<open>
  The policy derived for a request has exactly the agents of its effort, and whatever the deployment
  or the metadata say, a parallelism of at most these and, but for effort none, at least one.
\<close>

theorem request_policy_bounds:
  "max_agents_per_request (kp_limits (for_request policy r)) = max_agents (nr_reasoning_effort r)
   \<and> max_parallel_agents (kp_limits (for_request policy r)) \<le> max_agents (nr_reasoning_effort r)
   \<and> (is_direct (nr_reasoning_effort r) \<or> 1 \<le> max_parallel_agents (kp_limits (for_request policy r)))"
  using bounded_parallel_agents_bounds for_request_agents
  by (auto simp: for_request_parallel) (metis bounded_parallel_agents_bounds(2) max_agents_eq_0)

text \<open>
  The layout rules for a final answer (tags on lines of their own, headings, field labels) change
  nothing but white space: the other characters stay, in order.
\<close>

theorem layout_keeps_content:
  "ink (normalize_structured_text_layout s) = ink s"
  by (rule ink_layout)

text \<open>
  The default stream of a response ends with its only finish event, whose reason says whether there
  are tool calls; without tool calls it carries exactly the response's texts, in order.
\<close>

theorem default_stream_finishes:
  "\<exists>es. provider_response_stream json_text r
      = es @ [Finish (if ps_tool_calls r = [] then FinishStop else FinishToolCalls)]
    \<and> list_all (\<lambda>e. \<not> is_finish e) es
    \<and> stream_text es = (if ps_tool_calls r = [] then response_texts r else [])"
proof -
  obtain es where es: "provider_response_stream json_text r
      = es @ [Finish (if ps_tool_calls r = [] then FinishStop else FinishToolCalls)]"
      "list_all (\<lambda>e. \<not> is_finish e) es"
    by (rule response_stream_finish)
  have "filter_map (\<lambda>e. case e of TextDelta t \<Rightarrow> Some t | _ \<Rightarrow> None)
      (map (\<lambda>(i, c). ToolCallDelta i (a c) (b c) (d c)) xs) = []" for a b d and xs :: "(nat \<times> tool_call_record) list"
    by (induction xs) auto
  then have "stream_text (provider_response_stream json_text r)
      = (if ps_tool_calls r = [] then response_texts r else [])"
    by (simp add: provider_response_stream_def Let_def stream_text_deltas response_texts_def)
      (simp add: stream_text_def)
  with es show ?thesis by (auto simp: stream_text_def)
qed

text \<open>
  After any sequence of insertions into an empty store, a read gives an artifact that was inserted and
  whose own scope and identifier are exactly the ones read; the last such one inserted is found.
\<close>

theorem stored_under_scope:
  "store_get (fold store_insert as artifact_store_new) scope i =
     find_map (\<lambda>a. if scope = artifact_scope_of a \<and> i = artifact_id_of a then Some a else None) (rev as)"
proof -
  have "store_get artifact_store_new scope i = None"
    by (simp add: artifact_store_new_def store_get_def)
  then show ?thesis by (simp add: artifacts.get_puts split: option.split)
qed

text \<open>
  The provider options with a floor of output tokens: every limit that is a number is at least the
  floor, some limit is present, and no other option is changed.
\<close>

theorem output_floor_guaranteed:
  assumes "provider_options_with_min_output_tokens (JObject object) limit = JObject object'"
  shows "list_all (\<lambda>k. limit_at_least limit (bt_get object' k)) output_limit_keys
    \<and> list_ex (bt_contains object') output_limit_keys
    \<and> (k \<in> set output_limit_keys \<or> bt_get object' k = bt_get object k)"
  using options_floor [OF assms] by (auto simp: list_all_iff list_ex_iff)

lemma output_floor_guaranteed_witness:
  "list_ex (bt_contains (bt_insert (str ''max_tokens'') (json_u64 2048) [])) output_limit_keys"
proof -
  have "provider_options_with_min_output_tokens (JObject []) 2048
      = JObject (bt_insert (str ''max_tokens'') (json_u64 2048) [])"
    by (simp add: provider_options_with_min_output_tokens_def raise_present_limits_def output_limit_keys_def
        bt_contains_def Let_def)
  from output_floor_guaranteed [OF this] show ?thesis by blast
qed

text \<open>
  The number of children the planner writes into its objective is the number the mock provider reads
  out of it, for the policy of every request: printed and parsed back.
\<close>

theorem mock_reads_planner_target:
  "objective_target (st_objective (orchestration_planner_task root (for_request policy r)))
     = Some (unat (max_agents (nr_reasoning_effort r)))"
  using planner_objective_target [OF for_request_agents] by (simp add: for_request_agents)

text \<open>
  At every state the breaker reaches: while it is closed it has counted fewer failures than the
  threshold (at least one), and a request is admitted exactly when it is closed, or open with the
  cooldown over and no probe under way.
\<close>

theorem breaker_opens_in_time:
  assumes "breaker_trace config breaker_new es b"
  shows "(cs_open_until (b_circuit b) = None \<longrightarrow>
        cs_consecutive_failures (b_circuit b) < max (rz_circuit_failure_threshold config) 1)
    \<and> ((\<exists>b'. breaker_step config b (Admitted now) b') \<longleftrightarrow>
        (case cs_open_until (b_circuit b) of
           None \<Rightarrow> True | Some u \<Rightarrow> u \<le> now \<and> \<not> cs_half_open_probe (b_circuit b)))"
  unfolding admit_iff using breaker_ok_trace [OF assms] unfolding breaker_ok_def by blast

lemma breaker_opens_in_time_witness:
  "\<exists>b'. breaker_step
      \<lparr>rz_max_retries = 2, rz_base_delay_ms = 250, rz_circuit_failure_threshold = 5, rz_circuit_cooldown_ms = 30000\<rparr>
      breaker_new (Admitted 0) b'"
  using breaker_opens_in_time [OF trace_none, of _ 0]
  by (simp add: breaker_new_def circuit_state_default_def)

text \<open>
  The pause before a retry: what the upstream asks for, cut at 120 seconds; without such a wish the
  base delay doubled for every attempt (ten times at most) with a jitter below 101 milliseconds, cut
  at 30 seconds. The saturating 64-bit arithmetic gives these values, no product wraps.
\<close>

theorem retry_pause_bounds:
  "unat (provider_retry_delay t config e attempt)
    = (case retry_after_ms e of
         Some ms \<Rightarrow> min (unat ms) 120000
       | None \<Rightarrow> min (unat (rz_base_delay_ms config) * 2 ^ min attempt 10 + unat t mod 101) 30000)"
proof (cases "retry_after_ms e")
  case None
  then show ?thesis by (simp add: unat_retry_delay)
next
  case (Some ms)
  then show ?thesis by (simp add: provider_retry_delay_def min_def word_le_nat_alt)
qed

text \<open>
  An admitted run leaves the gauges of waiting and of active orchestrations as it found them, whether
  it was refused at the queue, failed in the kernel or returned an output: every permit and every
  place in the queue it took is given back.
\<close>

theorem admitted_run_balances_gauges:
  "case run_admitted_kernel (stacked_env clk config sem adm env) clock sem' oadm policy r g of (g', result) \<Rightarrow>
     m_orchestrations_queued (g_metrics g') = m_orchestrations_queued (g_metrics g)
     \<and> m_orchestrations_active (g_metrics g') = m_orchestrations_active (g_metrics g)"
  using admitted_gauges [of clk config sem adm env clock sem' oadm policy r g]
  by (auto simp: gauges_def split: prod.split)

text \<open>
  The wait that a full provider queue reports to the retry loop and the client is the configured one,
  for every 64-bit value: it is printed into a message and parsed out of it again.
\<close>

theorem queue_timeout_reported:
  "provider_queue_wait_ms (queue_wait_message ms) = ms"
  by (rule queue_wait_roundtrip)

text \<open>
  Whatever the environment variables, a deployment either refuses to start or has between one and 64
  parallel agents, and timeouts for requests and agents that are not zero.
\<close>

theorem deployment_policy_bounds:
  "case kernel_policy_from_env env of
     Inl message \<Rightarrow> True
   | Inr p \<Rightarrow> 1 \<le> max_parallel_agents (kp_limits p) \<and> max_parallel_agents (kp_limits p) \<le> 64
       \<and> request_timeout_ms (kp_limits p) \<noteq> 0 \<and> agent_timeout_ms (kp_limits p) \<noteq> 0"
  using policy_from_env_bounds by (auto split: sum.split)

text \<open>
  An assembly without the cache and without a rewind reads the whole log of its context: its text is
  the rendering of the chunks the options choose from it, its revision is the length of the log, it
  counts all chunks, and the store is not written.
\<close>

theorem assembly_renders_log:
  assumes "kv_lawful kv latest" and "context_log kv (latest w) t c cs"
    and "\<not> co_cache_enabled opts" and "co_rewind_revision opts = None"
    and "store_assemble kv t c opts w = (Inr a, w')"
  shows "ca_text a = render_chunks (choose_chunks (kv_unicode kv) cs (normalized_options opts))
                      (co_max_context_bytes (normalized_options opts))
    \<and> ca_included_chunks a = length cs \<and> unat (ca_revision a) = length cs \<and> w' = w"
  using assms by (rule assemble_uncached)

lemma assembly_renders_log_witness:
  "\<exists>a. store_assemble memory_kv [97] [98] (context_options_default\<lparr>co_cache_enabled := False\<rparr>) [] = (Inr a, [])
     \<and> ca_text a = [] \<and> ca_included_chunks a = 0"
proof -
  let ?opts = "context_options_default\<lparr>co_cache_enabled := False\<rparr>"
  have "\<not> is_blank [97]" "\<not> is_blank [98]"
    by (simp_all add: is_blank_iff is_whitespace_def)
  then obtain a where a: "store_assemble memory_kv [97] [98] ?opts [] = (Inr a, [])"
    by (auto simp: store_assemble_def store_head_def validate_context_def validate_component_def kv_error_def
        memory_kv_def memory_latest_def decoded_def normalized_options_def Let_def context_options_default_def)
  have "context_log memory_kv (memory_latest []) [97] [98] []"
    using empty_log by (simp add: memory_latest_def)
  from assembly_renders_log [OF memory_kv_lawful this _ _ a] a show ?thesis
    by (intro exI [of _ a]) (auto simp: context_options_default_def choose_chunks_def render_chunks_def)
qed

text \<open>
  The text of an assembly fits into the bytes of its normalised options (between 1 and 1048576), and
  the size it reports is the size of its text, whether the text is rendered afresh or a pack is
  extended by the newer chunks. The one exception is a stored pack at the revision asked for, which is
  returned as it was stored.
\<close>

theorem assembly_fits_bound:
  "case store_assemble kv t c opts w of
     (Inl e, w') \<Rightarrow> True
   | (Inr a, w') \<Rightarrow>
       ca_included_bytes a = utf8_len (ca_text a) \<and> utf8_len (ca_text a) \<le> co_max_context_bytes (normalized_options opts)
         \<and> co_max_context_bytes (normalized_options opts) \<le> 1048576
       \<or> ca_base_cache_revision a = Some (ca_revision a)"
proof -
  have "co_max_context_bytes (normalized_options opts) \<le> 1048576"
    by (simp add: normalized_options_def Let_def clamp_nat_def default_max_context_bytes_def)
  then show ?thesis
    using store_assemble_fits [of kv t c opts w] by (auto simp: assembly_fits_def split: sum.splits)
qed

text \<open>
  Without a query, when the newest chunk of a context is larger than the bound on bytes, the text is
  empty although other chunks would fit: the selection takes the first chunk whatever its size, nothing
  fits after it, and the rendering leaves it out.
\<close>

theorem oversized_chunk_hides_context:
  assumes "co_query opts = None" and "sorted_wrt (<) (map sc_revision (chunks @ [c]))"
    and "sc_byte_len c = utf8_len (sc_text c)" and "co_max_context_bytes opts < utf8_len (trim (sc_text c))"
  shows "render_chunks (choose_chunks ue (chunks @ [c]) opts) (co_max_context_bytes opts) = []"
  using assms by (rule newest_oversized_empty)

lemma oversized_chunk_hides_context_witness:
  "let ue = \<lparr>ue_lowercase = id, ue_alphanumeric = (\<lambda>c. True)\<rparr>;
       chunk = (\<lambda>i s. \<lparr>sc_tenant_id = [97], sc_context_id = [98], sc_revision = i, sc_role = [117],
                      sc_text_sha256 = [], sc_byte_len = length s, sc_text = s, sc_created_at_ms = 0\<rparr>);
       opts = context_options_default\<lparr>co_max_context_bytes := 40\<rparr>;
       old = chunk 1 [104]; new = chunk 2 (replicate 41 104)
   in render_chunks (choose_chunks ue [old] opts) 40 \<noteq> []
      \<and> render_chunks (choose_chunks ue ([old] @ [new]) opts) 40 = []"
proof -
  let ?ue = "\<lparr>ue_lowercase = id, ue_alphanumeric = (\<lambda>c. True)\<rparr> :: unicode_env"
  let ?chunk = "\<lambda>i s. \<lparr>sc_tenant_id = [97], sc_context_id = [98], sc_revision = i, sc_role = [117],
                      sc_text_sha256 = [], sc_byte_len = length s, sc_text = s, sc_created_at_ms = 0\<rparr>"
  let ?opts = "context_options_default\<lparr>co_max_context_bytes := 40\<rparr>"
  let ?new = "?chunk 2 (replicate 41 104)"
  have 1: "sorted_wrt (<) (map sc_revision ([?chunk 1 [104]] @ [?new]))" by simp
  have 2: "sc_byte_len ?new = utf8_len (sc_text ?new)" by (simp add: numeral_eq_Suc utf8_width_def)
  have 3: "co_max_context_bytes ?opts < utf8_len (trim (sc_text ?new))"
    by (simp add: numeral_eq_Suc utf8_width_def trim_def trim_start_def trim_end_def is_whitespace_def context_options_default_def)
  have "render_chunks (choose_chunks ?ue [?chunk 1 [104]] ?opts) 40 \<noteq> []"
    by (simp add: choose_chunks_def candidate_of_def option_terms_def sort_candidates_def bt_values_def Let_def
        context_options_default_def default_max_chunks_def render_chunks_def render_step_def render_part_def
        str_def utf8_width_def show_nat.simps trim_def trim_start_def trim_end_def is_whitespace_def)
  moreover have "co_query ?opts = None" by (simp add: context_options_default_def)
  ultimately show ?thesis
    using oversized_chunk_hides_context [OF _ 1 2 3, of ?ue] by (simp add: Let_def)
qed

text \<open>
  The values of the durable store: what was put under a namespace, tenant and key is what is read
  there afterwards, a deleted value is gone, and neither operation changes what any other namespace,
  tenant or key holds.
\<close>

theorem values_by_name_isolated:
  assumes "kv_lawful kv latest" and "\<forall>v. kv_dec_json kv (kv_enc_json kv v) = Inr v"
  shows "(put_json kv ns t k v w = (Inr (), w1) \<longrightarrow> get_json kv ns' t' k' w1 = Inr r
            \<longrightarrow> (if (ns', t', k') = (ns, t, k) then r = Some v else json_at kv ns' t' k' (latest w) = Inr r))
       \<and> (delete_json kv ns t k w = (Inr d, w1) \<longrightarrow> get_json kv ns' t' k' w1 = Inr r
            \<longrightarrow> (if (ns', t', k') = (ns, t, k) then r = None else json_at kv ns' t' k' (latest w) = Inr r))"
proof -
  have "put_json kv ns t k v w = (Inr (), w1) \<Longrightarrow> get_json kv ns' t' k' w1 = Inr r \<Longrightarrow>
      (if (ns', t', k') = (ns, t, k) then r = Some v else json_at kv ns' t' k' (latest w) = Inr r)"
    using put_json_at [OF assms(1), of v ns t k w w1 ns' t' k'] get_json_at [OF assms(1), of ns' t' k' w1 r] assms(2)
    by (auto split: if_splits)
  moreover have "delete_json kv ns t k w = (Inr d, w1) \<Longrightarrow> get_json kv ns' t' k' w1 = Inr r \<Longrightarrow>
      (if (ns', t', k') = (ns, t, k) then r = None else json_at kv ns' t' k' (latest w) = Inr r)"
    using delete_json_at(1) [OF assms(1), of ns t k w d w1 ns' t' k'] get_json_at [OF assms(1), of ns' t' k' w1 r]
    by (auto split: if_splits)
  ultimately show ?thesis by blast
qed

lemma values_by_name_isolated_witness:
  "\<exists>w1. put_json memory_kv [110] [97] [107] (JBool True) [] = (Inr (), w1)
     \<and> get_json memory_kv [110] [97] [107] w1 = Inr (Some (JBool True))"
proof -
  have valid: "\<not> is_blank [110]" "\<not> is_blank [97]" "\<not> is_blank [107]"
    by (simp_all add: is_blank_iff is_whitespace_def)
  then obtain w1 where w1: "put_json memory_kv [110] [97] [107] (JBool True) [] = (Inr (), w1)"
    by (auto simp: put_json_def validate_json_def validate_component_def memory_kv_def)
  then have "memory_latest w1 (json_key memory_kv [110] [97] [107]) = Some (StoredJson (JBool True))"
    using valid by (auto simp: put_json_def validate_json_def validate_component_def memory_kv_def
        memory_latest_def written_def)
  then obtain r where r: "get_json memory_kv [110] [97] [107] w1 = Inr r"
    using valid by (auto simp: get_json_def validate_json_def validate_component_def kv_error_def serde_error_def
        decoded_def memory_kv_def)
  have "\<forall>v. kv_dec_json memory_kv (kv_enc_json memory_kv v) = Inr v" by (simp add: memory_kv_def)
  from values_by_name_isolated [OF memory_kv_lawful this] w1 r have "r = Some (JBool True)"
    by fastforce
  with w1 r show ?thesis by blast
qed

text \<open>
  The text of a streamed message is the block 0 and a tool call is the block of its index, and the
  providers count tool calls from 0: a text followed by the first tool call opens the block 0 a second
  time while it is open, which the protocol of the blocks refuses.
\<close>

theorem text_and_tool_share_block:
  "\<exists>fs s ms. anthropic_stream env (Inr (TextDelta (ch # t)) # Inr (ToolCallDelta 0 c n a) # items) = Some (fs, s)
     \<and> marks fs = [Opened 0, Filled 0, Opened 0] @ ms \<and> block_run (marks fs) ({}, {}) = None"
  using anthropic_blocks_clash [of "Inr (TextDelta (ch # t)) # Inr (ToolCallDelta 0 c n a) # items" "ch # t" c n a items env]
  by auto

text \<open>
  A streamed tool call whose first delta brings only its name, as the provider of the chat interface
  sends it, is announced by the event of an added item, and announced again by the next delta: the code
  takes a call without arguments for a new one.
\<close>

theorem responses_item_added_twice:
  "\<exists>fs t. responses_stream env (Inr (ToolCallDelta index c n []) # Inr (ToolCallDelta index c' n' a) # items) w = Some (fs, t)
     \<and> 2 \<le> openings index fs"
  using responses_item_opened_twice by blast

text \<open>
  The middleware runs a request exactly when it asks for the health of the server, when no key is
  configured, or when the key read from the request's headers has exactly the bytes of the configured
  one; the comparison that takes the same time for every key of that length decides equality.
\<close>

theorem shared_key_admits_exactly:
  "shared_api_key_auth configured path headers run \<noteq> None
     \<longleftrightarrow> is_public_health_path path \<or> configured = None
       \<or> (\<exists>expected provided. configured = Some expected \<and> shared_api_key_from_headers headers = Some provided
            \<and> as_bytes provided = as_bytes expected)"
  by (auto simp: shared_api_key_auth_def constant_time_eq_iff split: option.split)

text \<open>
  An identity read from a header or from the metadata, when there is one, is a non-empty text of at
  most 128 characters, all letters, digits or one of the five safe marks, and reading it again gives the
  same identity. The hash is a parameter whose digits are letters and digits.
\<close>

theorem identities_well_formed:
  assumes "\<forall>s. list_all is_ascii_alphanumeric (sha s)" and "identity_component sha v = Some i"
  shows "i \<noteq> [] \<and> length i \<le> 128 \<and> list_all is_safe_char i \<and> identity_component sha i = Some i"
  using identity_component_wf [OF _ assms(2)] assms(1) unfolding hex_text_def by blast

lemma identities_well_formed_witness:
  "\<exists>i. identity_component (\<lambda>s. [97]) (str ''a b'') = Some i \<and> list_all is_safe_char i"
proof -
  have "list_all is_ascii_alphanumeric [97]" by (simp add: char_class_defs)
  then have hex: "\<forall>s :: ustr. list_all is_ascii_alphanumeric ((\<lambda>s. [97]) s)" by simp
  have "\<not> is_blank (str ''a b'')" by (simp add: is_blank_iff is_whitespace_def str_def)
  then have "trim (str ''a b'') \<noteq> []" by (simp add: is_blank_def)
  then have "identity_component (\<lambda>s. [97]) (str ''a b'') \<noteq> None"
    by (simp add: identity_component_def Let_def)
  then obtain i where "identity_component (\<lambda>s. [97]) (str ''a b'') = Some i" by blast
  from identities_well_formed [OF hex this] this show ?thesis by blast
qed

text \<open>
  What goes to the provider beside the messages are the client's own options and nothing that was
  meant for the gateway: the reasoning switches are left out, the metadata is sent without the fields
  that name tenants, sessions and orchestration, and every other option arrives unchanged.
\<close>

theorem gateway_keys_withheld:
  assumes "bt_wf (oc_extra r)" and "bt_get (oc_extra r) (str ''metadata'') = None"
    and "bt_get (oc_extra r) (str ''reasoning'') = None"
  shows "json_get k (openai_provider_options r) =
      (if k = str ''metadata'' then sanitized_provider_metadata (oc_metadata r)
       else if k = str ''reasoning'' then sanitized_reasoning_options (oc_reasoning r)
       else if k \<in> set gateway_extra_options then None else bt_get (oc_extra r) k)
    \<and> (j \<in> set gateway_metadata_keys \<longrightarrow>
        Option.bind (json_get (str ''metadata'') (openai_provider_options r)) (json_get j) = None)
    \<and> Option.bind (json_get (str ''reasoning'') (openai_provider_options r)) (json_get (str ''effort'')) = None"
  using assms by (auto simp: openai_options_get map_of_rev_wf sanitized_metadata_get sanitized_reasoning_get
      is_gateway_extra_option_def bind_eq_None_conv)

lemma gateway_keys_withheld_witness:
  "\<exists>r. json_get (str ''reasoning_effort'') (openai_provider_options r) = None
     \<and> oc_extra r = [(str ''reasoning_effort'', JNull), (str ''seed'', JNull)]
     \<and> json_get (str ''seed'') (openai_provider_options r) = Some JNull"
proof -
  define r where "r = (undefined :: openai_chat_request)\<lparr>oc_extra := [(str ''reasoning_effort'', JNull), (str ''seed'', JNull)]\<rparr>"
  have e: "oc_extra r = [(str ''reasoning_effort'', JNull), (str ''seed'', JNull)]" by (simp add: r_def)
  have wf: "bt_wf (oc_extra r)" unfolding e by code_simp
  have m: "bt_get (oc_extra r) (str ''metadata'') = None" "bt_get (oc_extra r) (str ''reasoning'') = None"
    unfolding e by code_simp+
  have k: "str ''reasoning_effort'' \<in> set gateway_extra_options" "str ''seed'' \<notin> set gateway_extra_options"
    "bt_get (oc_extra r) (str ''seed'') = Some JNull"
    unfolding e by code_simp+
  show ?thesis
    using gateway_keys_withheld [OF wf m, of "str ''reasoning_effort''"] gateway_keys_withheld [OF wf m, of "str ''seed''"] k e
    by (intro exI [of _ r]) (simp add: str_def)
qed

text \<open>
  The name of a model followed by the suffix of an effort is read back as that model and that effort,
  sent to the provider as the model, and runs with the effort whatever else the request says; and no
  name is read as an alias that is not of this form.
\<close>

theorem model_aliases_roundtrip:
  assumes "trim base = base" and "base \<noteq> []" and "model_supports_effort_aliases base"
    and "(suffix, effort) \<in> set effort_model_suffixes"
  shows "split_effort_model_alias (base @ suffix) = Some (base, effort)
    \<and> provider_model_for_request_model (base @ suffix) = base
    \<and> openai_reasoning_effort (r\<lparr>oc_model := base @ suffix\<rparr>) = Inr effort
    \<and> anthropic_reasoning_effort (r'\<lparr>ar_model := base @ suffix\<rparr>) = Inr effort
    \<and> (split_effort_model_alias model = Some (base, effort) \<longrightarrow>
        (\<exists>suffix'. (suffix', effort) \<in> set effort_model_suffixes \<and> trim model = base @ suffix'))"
  using alias_split [OF assms] split_alias_iff [of model base effort]
  by (auto simp: provider_model_for_request_model_def openai_reasoning_effort_def
      anthropic_reasoning_effort_def effort_of_request_def)

lemma model_aliases_roundtrip_witness:
  "split_effort_model_alias (str ''qwen'' @ str ''-high'') = Some (str ''qwen'', EffortHigh)"
proof -
  have "trim (str ''qwen'') = str ''qwen''" "str ''qwen'' \<noteq> []" "model_supports_effort_aliases (str ''qwen'')"
    "(str ''-high'', EffortHigh) \<in> set effort_model_suffixes"
    by (simp_all add: str_def trim_def trim_start_def trim_end_def is_whitespace_def effort_model_suffixes_def
        model_supports_effort_aliases_def eq_ignore_ascii_case_def to_ascii_lowercase_def is_ascii_uppercase_def)
  from model_aliases_roundtrip [OF this] show ?thesis by blast
qed

text \<open>
  The fallback reader of arguments loses nothing: arguments written between braces as quoted keys and
  values, with quotes and backslashes escaped, are read back as the same texts, whatever they contain.
  The hypothesis is that \<^verbatim>\<open>serde_json\<close> refuses the text, as it does because of the comma at its end.
\<close>

theorem text_arguments_roundtrip:
  assumes "ne_json_parse env (normalize_text_tool_call_quotes (123 # print_entries es @ [125])) = None"
    and "es \<noteq> []"
  shows "parse_text_tool_call_arguments env (123 # print_entries es @ [125])
       = Some (JObject (fold (\<lambda>(k, v). bt_insert k (JString v)) es []))"
  using assms by (rule arguments_printed)

lemma text_arguments_roundtrip_witness:
  "\<exists>env. parse_text_tool_call_arguments env (123 # print_entries [([97], [34, 44, 92])] @ [125])
     = Some (JObject [([97], JString [34, 44, 92])])"
proof -
  define env where "env = (undefined :: normalize_env)\<lparr>ne_json_parse := (\<lambda>_. None)\<rparr>"
  have "ne_json_parse env x = None" for x by (simp add: env_def)
  from text_arguments_roundtrip [OF this, of "[([97], [34, 44, 92])]"] show ?thesis by auto
qed

text \<open>
  A chunk that ends inside a character loses it: each part becomes replacement characters, and the event
  differs from that of the unsplit bytes.
\<close>

theorem split_character_lost:
  "sse_items (\<lambda>frame. [Inr (TextDelta frame)]) (sse_source_start [Inr (utf8_bytes [0x7B54])]) = [Inr (TextDelta [0x7B54])]
   \<and> sse_items (\<lambda>frame. [Inr (TextDelta frame)])
       (sse_source_start [Inr (take 2 (utf8_bytes [0x7B54])), Inr (drop 2 (utf8_bytes [0x7B54]))])
     = [Inr (TextDelta [replacement_char, replacement_char])]"
proof -
  have b: "utf8_bytes [0x7B54] = [0xE7, 0xAD, 0x94]" by (simp add: utf8_bytes_def utf8_encode_def)
  have d: "from_utf8_lossy [0xE7, 0xAD, 0x94] = [0x7B54]" "from_utf8_lossy [0xE7, 0xAD] = [replacement_char]"
    "from_utf8_lossy [0x94] = [replacement_char]"
    by (simp_all add: utf8_char_def utf8_tail_def utf8_second_def utf8_cont_def)
  have p: "pop_sse_frame [] = None" "pop_sse_frame [c] = None" "pop_sse_frame [c, 0xFFFD] = None"
    "\<not> is_blank [0x7B54]" "\<not> is_blank [0xFFFD, 0xFFFD]" "is_blank []" for c
    by (simp_all add: pop_sse_frame_def starts_with_def is_blank_def trim_def trim_start_def trim_end_def is_whitespace_def)
  show ?thesis
    unfolding b using d p
    by (simp add: sse_items.simps sse_next_unfold sse_source_start_def replacement_char_def)
qed

text \<open>
  What a model writes before the last mark that ends its thinking never shows: two answers that differ
  only there give the same artifact. The second form holds when the first mark is not used.
\<close>

theorem hidden_thinking_dropped:
  assumes "\<not> contains_str b (str mark)"
    and "mark = ''<channel|>'' \<or> mark = ''</think>'' \<and> \<not> contains_str (a @ str mark @ b) (str ''<channel|>'')
           \<and> \<not> contains_str (a' @ str mark @ b) (str ''<channel|>'')"
    and "str_field ''content'' m = Some (a @ str mark @ b)" and "str_field ''content'' m' = Some (a' @ str mark @ b)"
  shows "content_artifact env scope task m = content_artifact env scope task m'"
proof -
  have "strip_thinking_markup (a @ str mark @ b) = strip_thinking_markup (a' @ str mark @ b)"
    using assms(1,2) strip_after_channel strip_after_think by auto
  with assms(3,4) show ?thesis by (simp add: content_artifact_def openai_artifact_def)
qed

lemma hidden_thinking_dropped_witness:
  "\<exists>env scope task. content_artifact env scope task (json_object [(str ''content'', JString (str ''secret'' @ str ''<channel|>'' @ str ''yes''))])
     = content_artifact env scope task (json_object [(str ''content'', JString ([] @ str ''<channel|>'' @ str ''yes''))])"
proof -
  have "\<not> contains_str (str ''yes'') (str ''<channel|>'')"
    by (rule contains_needs_head) (simp_all add: str_def)
  from hidden_thinking_dropped [OF this disjI1 [OF refl],
      of "json_object [(str ''content'', JString (str ''secret'' @ str ''<channel|>'' @ str ''yes''))]" "str ''secret''"
         "json_object [(str ''content'', JString ([] @ str ''<channel|>'' @ str ''yes''))]" "[]"]
  show ?thesis unfolding str_field_def json_get_object by fastforce
qed

text \<open>
  Every text delta of a stream is trimmed like a whole answer: a delta loses the spaces at its ends, and
  a delta of spaces or of a newline becomes empty, so the words of a streamed answer run together.
\<close>

theorem streamed_deltas_trimmed:
  assumes "str_field ''content'' delta = Some t" and "t \<noteq> []" and "60 \<notin> set t"
  shows "delta_text_event delta = [TextDelta (trim t)]"
  using assms by (rule plain_delta)

lemma streamed_deltas_trimmed_witness:
  "delta_text_event (json_object [(str ''content'', JString (str ''a''))])
     @ delta_text_event (json_object [(str ''content'', JString (str '' b''))])
   = [TextDelta (str ''a''), TextDelta (str ''b'')]"
  using streamed_deltas_trimmed [of "json_object [(str ''content'', JString (str ''a''))]" "str ''a''"]
    streamed_deltas_trimmed [of "json_object [(str ''content'', JString (str '' b''))]" "str '' b''"]
  by (simp add: str_field_def json_get_object str_def trim_def trim_start_def trim_end_def is_whitespace_def)

text \<open>
  An upstream answer that is no success becomes an error of its status, which the retry loop repeats
  exactly for 408, 409, 429 and from 500 on, with the wait the headers ask for; a request that was not
  answered is repeated exactly after a timeout, a failed connection or a failed request.
\<close>

theorem adapter_errors_classified:
  assumes "\<not> is_success (hr_status resp)"
  shows "(\<exists>e. openai_read_response env r (Inr resp) = Inl e \<and> error_status e = Some (hr_status resp)
       \<and> retryable e = (hr_status resp \<in> {408, 409, 429} \<or> 500 \<le> hr_status resp)
       \<and> retry_after_ms e = openai_retry_after_ms (hr_headers resp))
    \<and> (\<exists>e. anthropic_read_response env r (Inr resp) = Inl e \<and> error_status e = Some (hr_status resp)
       \<and> retryable e = (hr_status resp \<in> {408, 409, 429} \<or> 500 \<le> hr_status resp)
       \<and> retry_after_ms e = header_retry_after_ms (hr_headers resp))
    \<and> (\<exists>e. openai_read_response env r (Inl failure) = Inl e
       \<and> retryable e = (hf_timeout failure \<or> hf_connect failure \<or> hf_request failure))"
  using openai_error_answer [OF assms, of env r] anthropic_error_answer [OF assms, of env r]
  by (auto simp: openai_read_response_def transport_error_def)

lemma adapter_errors_classified_witness:
  "\<exists>env r resp e. openai_read_response env r (Inr resp) = Inl e \<and> hr_status resp = 503 \<and> retryable e"
proof -
  define resp where "resp = (undefined :: http_response)\<lparr>hr_status := 503\<rparr>"
  have s: "hr_status resp = 503" by (simp add: resp_def)
  then have "\<not> is_success (hr_status resp)" by (simp add: is_success_def)
  from adapter_errors_classified [OF this] s show ?thesis by fastforce
qed

text \<open>
  A cancellation is not atomic with the end of the task. The handler reads the record of an unfinished
  batch; before it writes, the task completes the batch and stores its files. The handler then stores
  the old record as cancelling, and the task of the next restart, which \<open>recover_openai_batches\<close> starts
  for such a record, stores the batch as cancelled, with no output and no error file.
\<close>

theorem late_cancel_revives_batch:
  assumes "bw_ok env w" and "component_ok (ob_id b)" and "storable_batch b" and "\<not> openai_terminal (ob_status b)"
    and "stored_openai env w (ob_tenant_id b) (ob_id b) = Some done" and "ob_status done = str ''completed''"
  shows "\<exists>w1 b1 b2 w2. openai_cancel_loaded env (ob_tenant_id b) (ob_id b) b w = (JsonReply (openai_batch_json b1), w1)
    \<and> stored_openai env w1 (ob_tenant_id b) (ob_id b) = Some b1 \<and> openai_active (ob_status b1)
    \<and> run_openai_batch env sch b1 w1 = (Inr (), w2) \<and> stored_openai env w2 (ob_tenant_id b) (ob_id b) = Some b2
    \<and> ob_status b2 = str ''cancelled'' \<and> ob_output_file_id b2 = None \<and> ob_error_file_id b2 = None"
proof -
  let ?b1 = "cancelling_batch (be_now env (bw_ticks w)) b"
  note e = assms(3)
  have b1: "component_ok (ob_id ?b1)" "storable_batch ?b1" "ob_cancel_requested ?b1"
    "ob_id ?b1 = ob_id b" "ob_tenant_id ?b1 = ob_tenant_id b" "openai_active (ob_status ?b1)"
    using assms(2) e by (simp_all add: cancelling_batch_def openai_active_def)
  show ?thesis
  proof (rule late_cancel [OF assms(1,2) e assms(4)])
    fix w1 assume c: "openai_cancel_loaded env (ob_tenant_id b) (ob_id b) b w = (JsonReply (openai_batch_json ?b1), w1)"
      and ok1: "bw_ok env w1" and s: "stored_openai env w1 (ob_tenant_id b) (ob_id b) = Some ?b1"
    obtain b2 w2 where "cancel_openai_batch env ?b1 [] [] w1 = (Inr (), w2)"
      "stored_openai env w2 (ob_tenant_id ?b1) (ob_id ?b1) = Some b2" "ob_status b2 = str ''cancelled''"
      "ob_output_file_id b2 = None" "ob_error_file_id b2 = None"
      using settle_nothing [OF ok1 b1(1,2)] by blast
    then show ?thesis
      using c s b1(3-6) by (intro exI [of _ w1] exI [of _ ?b1] exI [of _ b2] exI [of _ w2]) (simp add: run_openai_batch_def)
  qed
qed

lemma late_cancel_revives_batch_witness:
  "\<exists>w b2 w2 b1 w1. stored_openai (sample_batch_env (\<lambda>_. (200, Inr []))) w (str ''t'') (str ''batch_b'')
        = Some (sample_batch\<lparr>ob_status := str ''completed''\<rparr>)
     \<and> run_openai_batch (sample_batch_env (\<lambda>_. (200, Inr [])))
         \<lparr>sch_cancelled_first = False, sch_order = rev, sch_dropped = (\<lambda>_. False), sch_cancelled_last = False\<rparr> b1 w1 = (Inr (), w2)
     \<and> stored_openai (sample_batch_env (\<lambda>_. (200, Inr []))) w2 (str ''t'') (str ''batch_b'') = Some b2
     \<and> ob_status b2 = str ''cancelled''"
proof -
  let ?env = "sample_batch_env (\<lambda>_. (200, Inr []))"
  let ?done = "sample_batch\<lparr>ob_status := str ''completed''\<rparr>"
  have d: "storable_batch ?done" using sample_ids(5) by simp
  obtain w where w: "bw_ok ?env w" "stored_openai ?env w (str ''t'') (str ''batch_b'') = Some ?done"
  proof (rule put_batch_stored [OF sample_ok sample_ids(2) d, of "\<lambda>_. (200, Inr [])" "str ''t''"])
    fix w assume "bw_ok ?env w" and "stored_openai ?env w (str ''t'') (str ''batch_b'') = Some ?done"
    then show thesis by (rule that)
  qed
  show ?thesis
    using late_cancel_revives_batch [OF w(1), of sample_batch ?done] w(2)
    by (fastforce simp: sample_ids openai_terminal_def)
qed

text \<open>
  A restart counts twice. When the process ends after a batch was stored as finalizing with its counts,
  \<open>recover_openai_batches\<close> runs its task again; the task counts on from the stored counts, and a batch
  whose requests all succeed both times is stored with twice as many completed requests as it has.
\<close>

theorem restarted_batch_counts_twice:
  assumes "bw_ok env w" and "uuids_ok env" and "component_ok (ob_id b)" and "storable_batch b"
    and "ob_status b = str ''finalizing''" and "\<not> ob_cancel_requested b" and "\<not> sch_cancelled_first sch"
    and "load_batch_input env b w = (Inr inputs, w)" and "mset (sch_order sch inputs) = mset inputs"
    and "unat (obc_completed (ob_request_counts b)) = length inputs" and "obc_failed (ob_request_counts b) = 0"
    and "list_all succeeded (batch_items env sch b inputs)"
  shows "openai_active (ob_status b) \<and> (\<exists>b' w'. run_openai_batch env sch b w = (Inr (), w')
    \<and> stored_openai env w' (ob_tenant_id b) (ob_id b) = Some b'
    \<and> unat (obc_total (ob_request_counts b')) = length inputs
    \<and> unat (obc_completed (ob_request_counts b')) = 2 * length inputs)"
proof -
  have n: "length inputs \<le> max_openai_batch_requests" using load_input_cases(2) [OF assms(1,8)] by simp
  then have room: "unat (obc_completed (ob_request_counts b)) + max_openai_batch_requests < 2 ^ 64"
    "unat (obc_failed (ob_request_counts b)) + max_openai_batch_requests < 2 ^ 64" and e: "storable_batch b"
    using assms(4,10,11) by (simp_all add: max_openai_batch_requests_def)
  note len = mset_eq_length [OF assms(9)]
  obtain w' where run: "run_openai_batch env sch b w = (Inr (), w')"
    using run_written [OF assms(1-3) e room assms(6-8) len] by blast
  have "length (filter succeeded (batch_items env sch b inputs)) = length inputs"
    using assms(12) len by (simp add: list_all_iff batch_items_def run_items_def filter_id_conv)
  moreover note run_counts [OF assms(1,3) e room assms(6-8) len run batch_items_def]
  ultimately show ?thesis using run assms(5,10) by (fastforce simp: openai_active_def)
qed

lemma restarted_batch_counts_twice_witness:
  "\<exists>w inputs b b' w'. inputs \<noteq> [] \<and> load_batch_input (sample_batch_env (\<lambda>_. (200, Inr []))) b w = (Inr inputs, w)
     \<and> run_openai_batch (sample_batch_env (\<lambda>_. (200, Inr [])))
         \<lparr>sch_cancelled_first = False, sch_order = rev, sch_dropped = (\<lambda>_. False), sch_cancelled_last = False\<rparr> b w = (Inr (), w')
     \<and> stored_openai (sample_batch_env (\<lambda>_. (200, Inr []))) w' (str ''t'') (str ''batch_b'') = Some b'
     \<and> unat (obc_completed (ob_request_counts b')) = 2 * length inputs"
proof -
  let ?env = "sample_batch_env (\<lambda>_. (200, Inr []))"
  let ?sch = "\<lparr>sch_cancelled_first = False, sch_order = rev, sch_dropped = (\<lambda>_. False), sch_cancelled_last = False\<rparr>
    :: openai_batch_input item_schedule"
  obtain w inputs where w: "bw_ok ?env w" "load_batch_input ?env sample_batch w = (Inr inputs, w)"
    using sample_input by blast
  let ?b = "sample_batch\<lparr>ob_status := str ''finalizing'',
      ob_request_counts := \<lparr>obc_total = 0, obc_completed = word_of_nat (length inputs), obc_failed = 0\<rparr>\<rparr>"
  have l: "load_batch_input ?env ?b w = (Inr inputs, w)" using w(2) load_same [of ?b sample_batch] by simp
  have n: "inputs \<noteq> []" "length inputs \<le> max_openai_batch_requests" using load_input_cases(2) [OF w] by simp_all
  then have len: "unat (word_of_nat (length inputs) :: u64) = length inputs"
    by (simp add: max_openai_batch_requests_def unsigned_of_nat take_bit_nat_eq_self)
  have t: "tenant_headers (str ''t'') = Inr [(str ''x-tenant-id'', str ''t'')]"
    by (simp add: tenant_headers_def str_def utf8_bytes_def utf8_encode_def)
  have "dispatch_openai_batch_item ?env (str ''t'') (str ''/v1/responses'') x
      = response_to_batch_result ?env (200, Inr [])" for x
    by (simp add: dispatch_openai_batch_item_def t batch_endpoints_def) (simp add: sample_batch_env_def)
  then have all: "list_all succeeded (batch_items ?env ?sch ?b inputs)"
    by (simp add: batch_items_def run_items_def list_all_iff succeeded_def response_to_batch_result_def sample_ids success_status_def)
  obtain b' w' where "run_openai_batch ?env ?sch ?b w = (Inr (), w')"
    "stored_openai ?env w' (str ''t'') (str ''batch_b'') = Some b'" "unat (obc_completed (ob_request_counts b')) = 2 * length inputs"
    using restarted_batch_counts_twice [OF w(1) sample_uuids, of ?b ?sch inputs] l len all by (auto simp: sample_ids)
  with l n(1) show ?thesis by blast
qed

end
